(* ===== verification/Prelude.thy ===== *)
theory Prelude
  imports Complex_Main
begin

text \<open>
  Shared vocabulary of the development: the JavaScript string and number operations the
  sources use, JSON values, and the generic lemmas the components share.

  Task ids, addresses, transaction hashes, keys and environment settings are ASCII strings,
  so \<open>toLowerCase\<close> and \<open>trim\<close> are modelled on ASCII. A JavaScript \<open>undefined\<close> or \<open>null\<close> is
  \<open>None\<close>; a \<open>bigint\<close> is an \<open>int\<close>, and so is a \<open>number\<close> that only ever holds an integer below
  \<open>2 ^ 53\<close> (ids, counts, unix times).
\<close>

named_theorems redis_simps \<open>evaluation rules of the key-value commands\<close>
named_theorems store_simps \<open>evaluation rules of the stores built on them\<close>
named_theorems step_simps \<open>evaluation rules of the atomic store steps\<close>

section \<open>Strings\<close>

definition upper_letters :: string where
  "upper_letters = ''ABCDEFGHIJKLMNOPQRSTUVWXYZ''"

definition lower_letters :: string where
  "lower_letters = ''abcdefghijklmnopqrstuvwxyz''"

definition lower_char :: "char \<Rightarrow> char" where
  "lower_char c =
     (case map_of (zip upper_letters lower_letters) c of None \<Rightarrow> c | Some d \<Rightarrow> d)"

definition lower :: "string \<Rightarrow> string" where
  "lower s = map lower_char s"

lemma lower_char_other: "c \<notin> set upper_letters \<Longrightarrow> lower_char c = c"
  by (auto simp: lower_char_def upper_letters_def lower_letters_def)

lemma lower_char_range: "c \<in> set upper_letters \<Longrightarrow> lower_char c \<in> set lower_letters"
  by (auto simp: lower_char_def upper_letters_def lower_letters_def)

lemma letters_disjoint: "c \<in> set lower_letters \<Longrightarrow> c \<notin> set upper_letters"
  by (auto simp: upper_letters_def lower_letters_def)

lemma lower_char_idem [simp]: "lower_char (lower_char c) = lower_char c"
  by (metis letters_disjoint lower_char_other lower_char_range)

lemma lower_idem [simp]: "lower (lower s) = lower s"
  by (simp add: lower_def)

lemma lower_Nil [simp]: "lower [] = []"
  by (simp add: lower_def)

lemma length_lower [simp]: "length (lower s) = length s"
  by (simp add: lower_def)

lemma lower_append: "lower (s @ t) = lower s @ lower t"
  by (simp add: lower_def)

lemma lower_eq_Nil_iff [simp]: "lower s = [] \<longleftrightarrow> s = []"
  by (simp add: lower_def)

lemma Nil_eq_lower_iff [simp]: "[] = lower s \<longleftrightarrow> s = []"
  by (auto simp: lower_def)

text \<open>A character that is no letter is in a string exactly when it is in the lowercased one.\<close>

lemma lower_char_eq_other:
  "d \<notin> set upper_letters \<Longrightarrow> d \<notin> set lower_letters \<Longrightarrow> lower_char c = d \<longleftrightarrow> c = d"
  by (metis lower_char_other lower_char_range)

lemma mem_lower_other:
  "d \<notin> set upper_letters \<Longrightarrow> d \<notin> set lower_letters \<Longrightarrow> d \<in> set (lower s) \<longleftrightarrow> d \<in> set s"
  using lower_char_eq_other [of d] by (simp add: lower_def image_iff eq_commute [of d])

text \<open>A closed string is computed by \<open>simp add: lower_eval\<close>.\<close>

lemmas lower_eval = lower_def lower_char_def upper_letters_def lower_letters_def

text \<open>\<open>if (s)\<close> on an optional string: absent and empty are both falsy.\<close>

fun truthy :: "string option \<Rightarrow> string option" where
  "truthy (Some (c # cs)) = Some (c # cs)"
| "truthy _ = None"

lemma truthy_Some_iff: "truthy x = Some s \<longleftrightarrow> x = Some s \<and> s \<noteq> []"
  by (cases x; cases "the x") auto

lemma truthy_None_iff: "truthy x = None \<longleftrightarrow> x = None \<or> x = Some []"
  by (cases x; cases "the x") auto

text \<open>\<open>x?.toLowerCase()\<close>.\<close>

abbreviation lower_opt :: "string option \<Rightarrow> string option" where
  "lower_opt \<equiv> map_option lower"

definition is_space :: "char \<Rightarrow> bool" where
  "is_space c \<longleftrightarrow> c \<in> {CHR '' '', CHR 0x09, CHR 0x0A, CHR 0x0B, CHR 0x0C, CHR 0x0D}"

definition trim :: "string \<Rightarrow> string" where
  "trim s = rev (dropWhile is_space (rev (dropWhile is_space s)))"

text \<open>\<open>s.includes(k)\<close>.\<close>

fun contains :: "string \<Rightarrow> string \<Rightarrow> bool" where
  "contains [] k \<longleftrightarrow> k = []"
| "contains (c # cs) k \<longleftrightarrow> take (length k) (c # cs) = k \<or> contains cs k"

section \<open>Decimal numbers\<close>

definition digit_char :: "nat \<Rightarrow> char" where
  "digit_char d = ''0123456789abcdef'' ! d"

definition digit_val :: "char \<Rightarrow> nat option" where
  "digit_val c = map_of (zip ''0123456789abcdefABCDEF''
     [0, 1, 2, 3, 4, 5, 6, 7, 8, 9, 10, 11, 12, 13, 14, 15, 10, 11, 12, 13, 14, 15]) c"

text \<open>\<open>String(n)\<close> of a non-negative integer, and of an integer.\<close>

fun show_nat :: "nat \<Rightarrow> string" where
  "show_nat n = (if n < 10 then [digit_char n] else show_nat (n div 10) @ [digit_char (n mod 10)])"

declare show_nat.simps [simp del]

definition show_int :: "int \<Rightarrow> string" where
  "show_int i = (if i < 0 then ''-'' @ show_nat (nat (- i)) else show_nat (nat i))"

text \<open>The value of a digit string in a base; \<open>None\<close> when a character is no digit of it.\<close>

fun digits_val :: "nat \<Rightarrow> nat \<Rightarrow> string \<Rightarrow> nat option" where
  "digits_val b acc [] = Some acc"
| "digits_val b acc (c # cs) =
     (case digit_val c of
        None \<Rightarrow> None
      | Some d \<Rightarrow> if d < b then digits_val b (acc * b + d) cs else None)"

text \<open>\<open>/^\d+$/.test(s) ? parseInt(s, 10) : NaN\<close>.\<close>

definition parse_decimal :: "string \<Rightarrow> nat option" where
  "parse_decimal s = (if s = [] then None else digits_val 10 0 s)"

text \<open>
  \<open>BigInt(s)\<close> of a string: surrounding white space is ignored, the empty string is 0, an
  optional sign is allowed before decimal digits, and 0x, 0o and 0b prefix unsigned digits of
  the other bases. \<open>None\<close> is the SyntaxError.
\<close>

definition bigint_of :: "string \<Rightarrow> int option" where
  "bigint_of s =
     (case trim s of
        [] \<Rightarrow> Some 0
      | [c] \<Rightarrow> map_option int (parse_decimal [c])
      | c # d # ds \<Rightarrow>
          if c = CHR ''-'' then map_option (\<lambda>n. - int n) (parse_decimal (d # ds))
          else if c = CHR ''+'' then map_option int (parse_decimal (d # ds))
          else if c = CHR ''0'' \<and> d \<in> {CHR ''x'', CHR ''X''} then
            (if ds = [] then None else map_option int (digits_val 16 0 ds))
          else if c = CHR ''0'' \<and> d \<in> {CHR ''o'', CHR ''O''} then
            (if ds = [] then None else map_option int (digits_val 8 0 ds))
          else if c = CHR ''0'' \<and> d \<in> {CHR ''b'', CHR ''B''} then
            (if ds = [] then None else map_option int (digits_val 2 0 ds))
          else map_option int (parse_decimal (c # d # ds)))"

text \<open>\<open>bigint\<close> division truncates towards zero.\<close>

definition bigint_div :: "int \<Rightarrow> int \<Rightarrow> int" where
  "bigint_div a b = sgn a * sgn b * (\<bar>a\<bar> div \<bar>b\<bar>)"

lemma bigint_div_nonneg: "0 \<le> a \<Longrightarrow> 0 < b \<Longrightarrow> bigint_div a b = a div b"
  by (cases "a = 0") (simp_all add: bigint_div_def)

lemma digit_val_char: "d < 10 \<Longrightarrow> digit_val (digit_char d) = Some d"
proof -
  assume d: "d < 10"
  have "list_all (\<lambda>d. digit_val (digit_char d) = Some d) [0..<10]"
    by code_simp
  with d show ?thesis by (simp add: list_all_iff)
qed

lemma digits_val_append:
  "digits_val b acc (xs @ ys) =
     (case digits_val b acc xs of None \<Rightarrow> None | Some v \<Rightarrow> digits_val b v ys)"
  by (induction xs arbitrary: acc) (auto split: option.splits)

lemma show_nat_nonempty [simp]: "show_nat n \<noteq> []"
  by (subst show_nat.simps) simp

text \<open>Printing then reading a number gives it back, so printing is injective.\<close>

lemma digits_val_show_nat: "digits_val 10 0 (show_nat n) = Some n"
proof (induction n rule: show_nat.induct)
  case (1 n)
  show ?case
  proof (cases "n < 10")
    case True
    then show ?thesis by (subst show_nat.simps) (simp add: digit_val_char)
  next
    case False
    with 1 have "digits_val 10 0 (show_nat (n div 10)) = Some (n div 10)" by simp
    with False show ?thesis
      by (subst show_nat.simps) (simp add: digits_val_append digit_val_char)
  qed
qed

lemma parse_decimal_show_nat [simp]: "parse_decimal (show_nat n) = Some n"
  by (simp add: parse_decimal_def digits_val_show_nat)

lemma show_nat_inject [simp]: "show_nat m = show_nat n \<longleftrightarrow> m = n"
  by (metis digits_val_show_nat option.inject)

lemma digit_val_digit: "digits_val b acc s = Some v \<Longrightarrow> c \<in> set s \<Longrightarrow> digit_val c \<noteq> None"
  by (induction s arbitrary: acc) (auto split: option.splits if_splits)

lemma show_nat_chars: "c \<in> set (show_nat n) \<Longrightarrow> digit_val c \<noteq> None"
  using digit_val_digit [OF digits_val_show_nat] .

lemma show_int_inject [simp]: "show_int i = show_int j \<longleftrightarrow> i = j"
proof -
  have minus: "show_nat m \<noteq> CHR ''-'' # xs" for m xs
    using show_nat_chars [of "CHR ''-''" m] by (auto simp: digit_val_def)
  show ?thesis
    by (auto simp: show_int_def minus minus [symmetric] eq_nat_nat_iff)
qed

section \<open>JSON values\<close>

datatype json =
    JNull
  | JBool bool
  | JNum rat
  | JStr string
  | JArr "json list"
  | JObj "(string \<times> json) list"

section \<open>Options and lists\<close>

lemma filter_eq_all: "(\<And>x. x \<in> set xs \<Longrightarrow> P x) \<Longrightarrow> filter P xs = xs"
  by (induction xs) auto

lemma takeWhile_append_stop:
  "\<forall>x \<in> set xs. P x \<Longrightarrow> \<not> P y \<Longrightarrow> takeWhile P (xs @ y # ys) = xs"
  by (induction xs) auto

end
