(* ===== verification/Chains.thy ===== *)
theory Chains
  imports Prelude
begin

text \<open>
  The settlement chains and network tiers: \<open>services/settlementTier.ts\<close>,
  \<open>services/settlementChains.ts\<close>, \<open>services/chainScope.ts\<close>,
  \<open>services/settlementUnits.ts\<close> and \<open>services/executorChains.ts\<close>. All of it is pure code over
  the boot configuration, which is the record \<open>config\<close> here (the fields these files read) and
  an argument of every function that reads it.
\<close>

section \<open>Network tiers\<close>

datatype tier = Mainnet | Testnet

fun tier_name :: "tier \<Rightarrow> string" where
  "tier_name Mainnet = ''mainnet''"
| "tier_name Testnet = ''testnet''"

datatype tier_key = Key0G | KeyBase | KeyArc

record tier_ids =
  mainnet_id :: int
  testnet_id :: int
  tier_env :: string

fun TIER_CHAIN_IDS :: "tier_key \<Rightarrow> tier_ids" where
  "TIER_CHAIN_IDS Key0G = \<lparr>mainnet_id = 16661, testnet_id = 16602, tier_env = ''OG_CHAIN_ID''\<rparr>"
| "TIER_CHAIN_IDS KeyBase = \<lparr>mainnet_id = 8453, testnet_id = 84532, tier_env = ''BASE_CHAIN_ID''\<rparr>"
| "TIER_CHAIN_IDS KeyArc = \<lparr>mainnet_id = 5042, testnet_id = 5042002, tier_env = ''ARC_CHAIN_ID''\<rparr>"

definition CCTP_TIER_CHAIN_IDS :: "tier_ids list" where
  "CCTP_TIER_CHAIN_IDS =
     [\<lparr>mainnet_id = 1, testnet_id = 11155111, tier_env = ''CCTP_ETHEREUM_CHAIN_ID''\<rparr>,
      \<lparr>mainnet_id = 42161, testnet_id = 421614, tier_env = ''CCTP_ARBITRUM_CHAIN_ID''\<rparr>,
      \<lparr>mainnet_id = 10, testnet_id = 11155420, tier_env = ''CCTP_OPTIMISM_CHAIN_ID''\<rparr>,
      \<lparr>mainnet_id = 137, testnet_id = 80002, tier_env = ''CCTP_POLYGON_CHAIN_ID''\<rparr>,
      \<lparr>mainnet_id = 5042, testnet_id = 5042002, tier_env = ''CCTP_ARC_CHAIN_ID''\<rparr>]"

type_synonym env = "string \<rightharpoonup> string"

definition env_raw :: "env \<Rightarrow> string \<Rightarrow> string" where
  "env_raw env name = trim (case env name of None \<Rightarrow> [] | Some v \<Rightarrow> v)"

text \<open>The thrown error carries its message's one variable part, the value read.\<close>

datatype tier_error = NotATier string

definition readSettlementTier :: "env \<Rightarrow> tier_error + tier option" where
  "readSettlementTier env =
     (let raw = env_raw env ''SETTLEMENT_TIER'' in
      if raw = [] then Inr None
      else if lower raw = ''mainnet'' then Inr (Some Mainnet)
      else if lower raw = ''testnet'' then Inr (Some Testnet)
      else Inl (NotATier raw))"

definition chainTier :: "tier_key \<Rightarrow> int \<Rightarrow> tier option" where
  "chainTier key chainId =
     (let ids = TIER_CHAIN_IDS key in
      if chainId = mainnet_id ids then Some Mainnet
      else if chainId = testnet_id ids then Some Testnet
      else None)"

fun id_of_tier :: "tier_ids \<Rightarrow> tier \<Rightarrow> int" where
  "id_of_tier ids Mainnet = mainnet_id ids"
| "id_of_tier ids Testnet = testnet_id ids"

fun other_tier :: "tier \<Rightarrow> tier" where
  "other_tier Mainnet = Testnet"
| "other_tier Testnet = Mainnet"

text \<open>One setting's check: no message, or the message it pushes.\<close>

definition check_tier_env :: "env \<Rightarrow> tier \<Rightarrow> tier_ids \<Rightarrow> string list" where
  "check_tier_env env tier ids =
     (let raw = env_raw env (tier_env ids) in
      if raw = [] then []
      else
        let chainId = parse_decimal raw in
        if map_option int chainId = Some (id_of_tier ids tier) then []
        else
          let what =
            (case chainId of
               None \<Rightarrow> ''is not a decimal chain id''
             | Some n \<Rightarrow>
                 if int n = id_of_tier ids (other_tier tier)
                 then ''is '' @ tier_name (other_tier tier)
                 else ''is not a chain this tier knows'')
          in [tier_env ids @ ''='' @ raw @ '' '' @ what @ '', but SETTLEMENT_TIER='' @
              tier_name tier @ '' expects '' @ show_int (id_of_tier ids tier)])"

definition tierMismatches :: "env \<Rightarrow> tier \<Rightarrow> string list" where
  "tierMismatches env tier =
     concat (map (check_tier_env env tier)
       (map TIER_CHAIN_IDS [Key0G, KeyBase, KeyArc] @ CCTP_TIER_CHAIN_IDS))"

section \<open>The settlement chain registry\<close>

datatype chain_key = Base | Arc

definition SETTLEMENT_CHAIN_KEYS :: "chain_key list" where
  "SETTLEMENT_CHAIN_KEYS = [Base, Arc]"

fun chain_name :: "chain_key \<Rightarrow> string" where
  "chain_name Base = ''base''"
| "chain_name Arc = ''arc''"

text \<open>\<open>isSettlementChainKey\<close>, with the narrowed value it proves.\<close>

definition chain_key_of :: "string \<Rightarrow> chain_key option" where
  "chain_key_of s = find (\<lambda>k. chain_name k = s) SETTLEMENT_CHAIN_KEYS"

record unit_rec =
  symbol :: string
  decimals :: int

definition USDC_UNIT :: unit_rec where
  "USDC_UNIT = \<lparr>symbol = ''USDC'', decimals = 6\<rparr>"

definition NATIVE_0G_UNIT :: unit_rec where
  "NATIVE_0G_UNIT = \<lparr>symbol = ''0G'', decimals = 18\<rparr>"

datatype token_kind = Native | Erc20

fun token_kind_name :: "token_kind \<Rightarrow> string" where
  "token_kind_name Native = ''native''"
| "token_kind_name Erc20 = ''erc20''"

record token_cfg =
  token_kind :: token_kind
  token_address :: "string option"
  token_unit :: unit_rec

record gas_cfg =
  gas_symbol :: string
  nativeIsSettlementToken :: bool
  min_reserve_wei :: int
  withdrawMinWei :: int
  workerTxGasLimit :: int

record chain_cfg =
  cc_key :: chain_key
  cc_label :: string
  cc_chainId :: int
  cc_rpcUrl :: string
  cc_rpcEnv :: string
  cc_tier :: tier
  cc_hardhatNetwork :: string
  cc_escrowAddress :: "string option"
  cc_escrowEnv :: string
  cc_signerEnv :: string
  cc_deploymentBlockEnv :: string
  cc_token :: token_cfg
  cc_gas :: gas_cfg
  cc_relayCaip2 :: "string option"
  cc_aa :: bool
  cc_hasTaskRegistry :: bool

text \<open>The boot configuration (\<open>config.ts\<close>): the fields the registry is built from.\<close>

record config =
  baseChainId :: int
  baseRpcUrl :: string
  baseEscrowAddress :: "string option"
  baseUsdcAddress :: "string option"
  arcChainId :: int
  arcRpcUrl :: string
  arcEscrowAddress :: "string option"
  arcUsdcAddress :: "string option"

text \<open>The regular expression \<open>/^0x0{40}$/i\<close>.\<close>

definition isZeroAddress :: "string \<Rightarrow> bool" where
  "isZeroAddress address \<longleftrightarrow> lower address = ''0x'' @ replicate 40 (CHR ''0'')"

definition addressOrNull :: "string option \<Rightarrow> string option" where
  "addressOrNull address =
     (case truthy address of None \<Rightarrow> None | Some a \<Rightarrow> if isZeroAddress a then None else Some a)"

definition build_base :: "config \<Rightarrow> chain_cfg" where
  "build_base cfg =
     (let mainnet = (chainTier KeyBase (baseChainId cfg) = Some Mainnet) in
      \<lparr>cc_key = Base, cc_label = ''Base'', cc_chainId = baseChainId cfg,
       cc_rpcUrl = baseRpcUrl cfg, cc_rpcEnv = ''BASE_RPC_URL'',
       cc_tier = (if mainnet then Mainnet else Testnet),
       cc_hardhatNetwork = (if mainnet then ''base'' else ''base-sepolia''),
       cc_escrowAddress = addressOrNull (baseEscrowAddress cfg),
       cc_escrowEnv = ''BASE_CHAIN_ID='' @ show_int (baseChainId cfg) @ '' record'',
       cc_signerEnv = ''BASE_MARKETPLACE_SIGNER_PRIVATE_KEY'',
       cc_deploymentBlockEnv = ''BASE_ESCROW_DEPLOYMENT_BLOCK'',
       cc_token = \<lparr>token_kind = Erc20, token_address = truthy (baseUsdcAddress cfg),
                   token_unit = USDC_UNIT\<rparr>,
       cc_gas = \<lparr>gas_symbol = ''ETH'', nativeIsSettlementToken = False,
                 min_reserve_wei = 300000000000000, withdrawMinWei = 50000000000000,
                 workerTxGasLimit = 300000\<rparr>,
       cc_relayCaip2 = Some (''eip155:'' @ show_int (baseChainId cfg)),
       cc_aa = True, cc_hasTaskRegistry = False\<rparr>)"

definition build_arc :: "config \<Rightarrow> chain_cfg" where
  "build_arc cfg =
     (let mainnet = (chainTier KeyArc (arcChainId cfg) = Some Mainnet) in
      \<lparr>cc_key = Arc, cc_label = ''Arc'', cc_chainId = arcChainId cfg,
       cc_rpcUrl = arcRpcUrl cfg, cc_rpcEnv = ''ARC_RPC_URL'',
       cc_tier = (if mainnet then Mainnet else Testnet),
       cc_hardhatNetwork = (if mainnet then ''arc-mainnet'' else ''arc-testnet''),
       cc_escrowAddress = addressOrNull (arcEscrowAddress cfg),
       cc_escrowEnv = ''ARC_CHAIN_ID='' @ show_int (arcChainId cfg) @ '' record'',
       cc_signerEnv = ''ARC_MARKETPLACE_SIGNER_PRIVATE_KEY'',
       cc_deploymentBlockEnv = ''ARC_ESCROW_DEPLOYMENT_BLOCK'',
       cc_token = \<lparr>token_kind = Erc20, token_address = truthy (arcUsdcAddress cfg),
                   token_unit = USDC_UNIT\<rparr>,
       cc_gas = \<lparr>gas_symbol = ''USDC'', nativeIsSettlementToken = True,
                 min_reserve_wei = 10000000000000000, withdrawMinWei = 2000000000000000,
                 workerTxGasLimit = 200000\<rparr>,
       cc_relayCaip2 = None,
       cc_aa = False, cc_hasTaskRegistry = False\<rparr>)"

fun settlementChainConfig :: "config \<Rightarrow> chain_key \<Rightarrow> chain_cfg" where
  "settlementChainConfig cfg Base = build_base cfg"
| "settlementChainConfig cfg Arc = build_arc cfg"

definition settlementChainConfigs :: "config \<Rightarrow> chain_cfg list" where
  "settlementChainConfigs cfg = map (settlementChainConfig cfg) SETTLEMENT_CHAIN_KEYS"

definition configuredChainKeys :: "config \<Rightarrow> chain_key list" where
  "configuredChainKeys cfg =
     map cc_key (filter (\<lambda>e. cc_escrowAddress e \<noteq> None) (settlementChainConfigs cfg))"

definition postingChain :: "config \<Rightarrow> chain_key" where
  "postingChain cfg =
     (if cc_escrowAddress (settlementChainConfig cfg Arc) \<noteq> None then Arc
      else if cc_escrowAddress (settlementChainConfig cfg Base) \<noteq> None then Base
      else Arc)"

definition receiptSearchOrder :: "config \<Rightarrow> chain_key list" where
  "receiptSearchOrder cfg =
     (let posting = postingChain cfg; keys = configuredChainKeys cfg in
      filter (\<lambda>k. k = posting) keys @ filter (\<lambda>k. k \<noteq> posting) keys)"

text \<open>\<open>assertPostingChain\<close>: the boot error, or the warnings for the log.\<close>

datatype boot_error = WrongTier chain_key tier int tier | BadRegistry "string list"

definition assertPostingChain :: "config \<Rightarrow> tier option \<Rightarrow> boot_error + string list" where
  "assertPostingChain cfg tier =
     (let entry = settlementChainConfig cfg (postingChain cfg) in
      if cc_escrowAddress entry = None then
        Inr [''Default posting chain '' @ cc_label entry @ '' has no escrow ('' @
             cc_escrowEnv entry @ ''), so POST /tasks refuses new tasks'']
      else case tier of
        Some t \<Rightarrow>
          if cc_tier entry \<noteq> t
          then Inl (WrongTier (cc_key entry) (cc_tier entry) (cc_chainId entry) t)
          else Inr []
      | None \<Rightarrow> Inr [])"

subsection \<open>What is wrong with the entries\<close>

definition or_unset :: "string option \<Rightarrow> string" where
  "or_unset a = (case a of None \<Rightarrow> ''unset'' | Some s \<Rightarrow> s)"

definition token_native :: "token_cfg \<Rightarrow> bool" where
  "token_native t = (case token_address t of None \<Rightarrow> False | Some a \<Rightarrow> isZeroAddress a)"

definition token_problems :: "chain_cfg \<Rightarrow> string list" where
  "token_problems e =
     (let t = cc_token e; native = token_native t; key = chain_name (cc_key e) in
      (if (token_kind t = Native) \<noteq> native
       then [key @ '': token kind is '' @ token_kind_name (token_kind t) @
             '' but its address is '' @ or_unset (token_address t) @
             ''; a native token is address(0) and only a native token is'']
       else []) @
      (if nativeIsSettlementToken (cc_gas e) \<and>
          (token_kind t \<noteq> Erc20 \<or> token_address t = None \<or> native)
       then [key @ '': the native gas coin is the settlement asset, so the settlement token '' @
             ''must be its ERC-20 at a non-zero address, not '' @ or_unset (token_address t)]
       else []))"

definition decimals_problems :: "chain_cfg \<Rightarrow> string list" where
  "decimals_problems e =
     (let d = decimals (token_unit (cc_token e)) in
      if d \<noteq> 6 \<and> d \<noteq> 18
      then [chain_name (cc_key e) @ '': settlement token decimals must be 6 or 18, not '' @ show_int d]
      else [])"

text \<open>The loop pushes each entry's problems to one of the two lists, in the entries' order.\<close>

fun registryProblems :: "chain_cfg list \<Rightarrow> string list \<times> string list" where
  "registryProblems [] = ([], [])"
| "registryProblems (e # es) =
     (let rest = registryProblems es; tp = token_problems e in
      if cc_escrowAddress e \<noteq> None
      then (tp @ decimals_problems e @ fst rest, snd rest)
      else (decimals_problems e @ fst rest, tp @ snd rest))"

definition assertRegistryInvariants :: "chain_cfg list \<Rightarrow> boot_error + string list" where
  "assertRegistryInvariants entries =
     (let p = registryProblems entries in
      if fst p \<noteq> [] then Inl (BadRegistry (fst p)) else Inr (snd p))"

subsection \<open>What a withdraw leaves behind\<close>

definition WITHDRAW_TX_GAS :: int where
  "WITHDRAW_TX_GAS = 75000"

record fee_data =
  maxFeePerGas :: "int option"
  gasPrice :: "int option"

definition withdrawReserveWei :: "gas_cfg \<Rightarrow> fee_data option \<Rightarrow> int" where
  "withdrawReserveWei gas fee =
     (let maxFee = (case fee of None \<Rightarrow> None
                    | Some f \<Rightarrow> (case maxFeePerGas f of Some m \<Rightarrow> Some m | None \<Rightarrow> gasPrice f))
      in case maxFee of
           None \<Rightarrow> min_reserve_wei gas
         | Some m \<Rightarrow>
             if m \<le> 0 then min_reserve_wei gas
             else
               let price = (case fee of
                              Some f \<Rightarrow> (case gasPrice f of Some p \<Rightarrow> if 0 < p then p else m | None \<Rightarrow> m)
                            | None \<Rightarrow> m);
                   gate = bigint_div (workerTxGasLimit gas * m * 11 + 9) 10;
                   needed = gate + WITHDRAW_TX_GAS * price
               in if min_reserve_wei gas < needed then needed else min_reserve_wei gas)"

section \<open>Which network a chain's stored state belongs to\<close>

fun FIRST_NETWORK_CHAIN_ID :: "chain_key \<Rightarrow> int" where
  "FIRST_NETWORK_CHAIN_ID Base = 84532"
| "FIRST_NETWORK_CHAIN_ID Arc = 5042002"

fun CHAIN_NETWORK_IDS :: "chain_key \<Rightarrow> int list" where
  "CHAIN_NETWORK_IDS Base = [84532, 8453]"
| "CHAIN_NETWORK_IDS Arc = [5042002, 5042]"

definition chainScope_at :: "chain_key \<Rightarrow> int \<Rightarrow> string" where
  "chainScope_at chain chainId =
     (if chainId = FIRST_NETWORK_CHAIN_ID chain then chain_name chain
      else chain_name chain @ ''@'' @ show_int chainId)"

text \<open>The default argument: the network this backend runs the chain on.\<close>

definition chainScope :: "config \<Rightarrow> chain_key \<Rightarrow> string" where
  "chainScope cfg chain = chainScope_at chain (cc_chainId (settlementChainConfig cfg chain))"

definition otherNetworkIds :: "config \<Rightarrow> chain_key \<Rightarrow> int list" where
  "otherNetworkIds cfg chain =
     filter (\<lambda>i. chainScope_at chain i \<noteq> chainScope cfg chain) (CHAIN_NETWORK_IDS chain)"

text \<open>
  \<open>onCurrentNetwork\<close> reads a row's \<open>chain\<close> and \<open>chainId\<close>; a row whose chain is absent or not
  a settlement chain is left as it was.
\<close>

definition onCurrentNetwork :: "config \<Rightarrow> string option \<Rightarrow> int option \<Rightarrow> bool" where
  "onCurrentNetwork cfg chain chainId =
     (case Option.bind chain chain_key_of of
        None \<Rightarrow> True
      | Some k \<Rightarrow>
          (case chainId of None \<Rightarrow> FIRST_NETWORK_CHAIN_ID k | Some i \<Rightarrow> i)
          = cc_chainId (settlementChainConfig cfg k))"

section \<open>Settlement units\<close>

record task_reward =
  reward_amount :: int
  reward_unit :: unit_rec

definition pricingUnit :: "config \<Rightarrow> unit_rec" where
  "pricingUnit cfg = token_unit (cc_token (settlementChainConfig cfg (postingChain cfg)))"

definition sameUnit :: "unit_rec \<Rightarrow> unit_rec \<Rightarrow> bool" where
  "sameUnit a b \<longleftrightarrow> symbol a = symbol b \<and> decimals a = decimals b"

definition payoutCurrency :: "config \<Rightarrow> string \<Rightarrow> string \<Rightarrow> unit_rec option" where
  "payoutCurrency cfg chain token =
     (case chain_key_of chain of
        None \<Rightarrow> None
      | Some k \<Rightarrow>
          let t = cc_token (settlementChainConfig cfg k) in
          (case truthy (token_address t) of
             None \<Rightarrow> None
           | Some a \<Rightarrow> if lower token = lower a then Some (token_unit t) else None))"

definition LEGACY_SCALE :: int where
  "LEGACY_SCALE = 10 ^ 12"

text \<open>\<open>None\<close> is the SyntaxError of \<open>BigInt(raw)\<close>.\<close>

definition normalizeSettlementAmount :: "config \<Rightarrow> string \<Rightarrow> string option" where
  "normalizeSettlementAmount cfg raw =
     (if decimals (pricingUnit cfg) \<noteq> decimals USDC_UNIT then Some raw
      else case bigint_of raw of
        None \<Rightarrow> None
      | Some value \<Rightarrow>
          if value < LEGACY_SCALE then Some raw
          else Some (show_int (bigint_div (value + LEGACY_SCALE - 1) LEGACY_SCALE)))"

definition nativeWeiToTokenUnits :: "int \<Rightarrow> nat \<Rightarrow> int" where
  "nativeWeiToTokenUnits wei dec =
     (if 18 \<le> dec then wei * 10 ^ (dec - 18)
      else let scale = 10 ^ (18 - dec) in bigint_div (wei + scale - 1) scale)"

section \<open>The chains an executor can sign for\<close>

definition LEGACY_SUPPORTED_CHAINS :: "string list" where
  "LEGACY_SUPPORTED_CHAINS = [''base'']"

text \<open>The first argument is the executor's \<open>supportedChains\<close>.\<close>

definition supportsChain :: "string list option \<Rightarrow> string option \<Rightarrow> bool" where
  "supportsChain supported chain =
     (case truthy chain of
        None \<Rightarrow> True
      | Some c \<Rightarrow>
          c \<in> set (case supported of None \<Rightarrow> LEGACY_SUPPORTED_CHAINS | Some cs \<Rightarrow> cs))"

definition supportsTaskChain :: "string list option \<Rightarrow> string option \<Rightarrow> bool" where
  "supportsTaskChain supported chain =
     (if truthy chain \<noteq> None then supportsChain supported chain
      else list_all (\<lambda>c. supportsChain supported (Some c)) LEGACY_SUPPORTED_CHAINS)"

text \<open>
  \<open>meetsRewardFloor\<close> of \<open>agentScorer.ts\<close>: the one test of an agent's declared minimum reward
  against a task's. \<open>BigInt\<close> of a malformed floor throws, and the agent is then kept.
\<close>

definition meetsRewardFloor :: "config \<Rightarrow> string option \<Rightarrow> task_reward option \<Rightarrow> bool" where
  "meetsRewardFloor cfg minReward reward =
     (case reward of
        None \<Rightarrow> True
      | Some r \<Rightarrow>
          (case truthy minReward of
             None \<Rightarrow> True
           | Some m \<Rightarrow>
               (case bigint_of m of
                  None \<Rightarrow> True
                | Some least \<Rightarrow>
                    if \<not> sameUnit (reward_unit r) (pricingUnit cfg) then least = 0
                    else least \<le> reward_amount r)))"

section \<open>Laws\<close>

lemma chain_key_of_name [simp]: "chain_key_of (chain_name k) = Some k"
  by (cases k) (simp_all add: chain_key_of_def SETTLEMENT_CHAIN_KEYS_def)

lemma chain_key_of_Some: "chain_key_of s = Some k \<Longrightarrow> s = chain_name k"
  by (auto simp: chain_key_of_def SETTLEMENT_CHAIN_KEYS_def split: if_splits)

lemma chain_name_inject [simp]: "chain_name a = chain_name b \<longleftrightarrow> a = b"
  by (cases a; cases b) auto

lemma cc_key_config [simp]: "cc_key (settlementChainConfig cfg k) = k"
  by (cases k) (simp_all add: build_base_def build_arc_def Let_def)

lemma cc_chainId_config:
  "cc_chainId (settlementChainConfig cfg Base) = baseChainId cfg"
  "cc_chainId (settlementChainConfig cfg Arc) = arcChainId cfg"
  by (simp_all add: build_base_def build_arc_def Let_def)

lemma cc_escrow_config:
  "cc_escrowAddress (settlementChainConfig cfg Base) = addressOrNull (baseEscrowAddress cfg)"
  "cc_escrowAddress (settlementChainConfig cfg Arc) = addressOrNull (arcEscrowAddress cfg)"
  by (simp_all add: build_base_def build_arc_def Let_def)

lemma token_unit_config [simp]: "token_unit (cc_token (settlementChainConfig cfg k)) = USDC_UNIT"
  by (cases k) (simp_all add: build_base_def build_arc_def Let_def)

lemma pricingUnit_USDC [simp]: "pricingUnit cfg = USDC_UNIT"
  by (simp add: pricingUnit_def)

lemma set_configuredChainKeys:
  "k \<in> set (configuredChainKeys cfg) \<longleftrightarrow> cc_escrowAddress (settlementChainConfig cfg k) \<noteq> None"
  by (cases k) (auto simp: configuredChainKeys_def settlementChainConfigs_def SETTLEMENT_CHAIN_KEYS_def
    simp del: settlementChainConfig.simps)

lemma distinct_configuredChainKeys [simp]: "distinct (configuredChainKeys cfg)"
  by (simp add: configuredChainKeys_def settlementChainConfigs_def SETTLEMENT_CHAIN_KEYS_def
    del: settlementChainConfig.simps)

text \<open>The parts of a scope: a chain name has no at sign, so a scope splits at its first one.\<close>

lemma chain_name_no_at: "CHR ''@'' \<notin> set (chain_name k)"
  by (cases k) auto

lemma chainScope_at_chain:
  "takeWhile (\<lambda>c. c \<noteq> CHR ''@'') (chainScope_at k i) = chain_name k"
proof -
  have "\<forall>c \<in> set (chain_name k). c \<noteq> CHR ''@''" using chain_name_no_at [of k] by auto
  then show ?thesis
    by (auto simp: chainScope_at_def takeWhile_append_stop)
qed

lemma chainScope_at_inject [simp]: "chainScope_at k i = chainScope_at l j \<longleftrightarrow> k = l \<and> i = j"
proof
  assume eq: "chainScope_at k i = chainScope_at l j"
  then have "chain_name k = chain_name l"
    using chainScope_at_chain [of k i] chainScope_at_chain [of l j] by simp
  then have "k = l" by simp
  with eq show "k = l \<and> i = j"
    by (auto simp: chainScope_at_def split: if_splits)
qed auto

text \<open>Rounding up: the least number of units that covers the amount.\<close>

lemma ceil_div_bounds:
  fixes a b :: int
  assumes "0 \<le> a" "0 < b"
  shows "a \<le> bigint_div (a + b - 1) b * b" "bigint_div (a + b - 1) b * b < a + b"
proof -
  define q where "q = (a + b - 1) div b"
  have eq: "bigint_div (a + b - 1) b = q"
    using assms by (simp add: bigint_div_nonneg q_def)
  have split: "q * b + (a + b - 1) mod b = a + b - 1"
    unfolding q_def by (rule div_mult_mod_eq)
  have bound: "(a + b - 1) mod b < b" "0 \<le> (a + b - 1) mod b"
    using assms by auto
  show "a \<le> bigint_div (a + b - 1) b * b"
    unfolding eq using split bound by linarith
  show "bigint_div (a + b - 1) b * b < a + b"
    unfolding eq using split bound by linarith
qed

lemma ceil_div_pos: "0 < a \<Longrightarrow> 0 < b \<Longrightarrow> 0 < bigint_div (a + b - 1) (b :: int)"
  using ceil_div_bounds(1) [of a b] by (smt (verit) mult_nonpos_nonneg)

end
