(* ===== verification/TaskTypes.thy ===== *)
theory TaskTypes
  imports Chains
begin

text \<open>
  The task records of \<open>backend/src/types.ts\<close>. An optional property is an \<open>option\<close>; a property
  of a literal type is a \<open>datatype\<close>; a free-form JSON value is a \<open>json\<close>; a time kept as an ISO
  string is its unix milliseconds. The stores keep these records as JSON text: \<open>JSON.stringify\<close>
  then \<open>JSON.parse\<close> gives the same record back, so the models keep the record itself.
\<close>

section \<open>Task statuses\<close>

datatype executor_type = Human | Agent

datatype verification_mode = Manual | Auto | Oracle | AgentReview

datatype status =
    Open
  | Collecting
  | Accepted
  | InProgress
  | Submitted
  | AwaitingVerification
  | Verified
  | Completed
  | Failed

text \<open>BlindEscrow's task status, as the backend's enum mirrors it.\<close>

datatype escrow_status =
    EsFunded | EsAssigned | EsSubmitted | EsVerified | EsCompleted | EsCancelled | EsDisputed

fun escrow_status_num :: "escrow_status \<Rightarrow> int" where
  "escrow_status_num EsFunded = 0"
| "escrow_status_num EsAssigned = 1"
| "escrow_status_num EsSubmitted = 2"
| "escrow_status_num EsVerified = 3"
| "escrow_status_num EsCompleted = 4"
| "escrow_status_num EsCancelled = 5"
| "escrow_status_num EsDisputed = 6"

record onchain_task =
  oc_agent :: string
  oc_worker :: string
  oc_token :: string
  oc_amount :: int
  oc_taskHash :: string
  oc_status :: escrow_status
  oc_deadline :: int
  oc_submissionAttempts :: int

section \<open>Verification criteria\<close>

record schema =
  schema_type :: "string option"
  schema_required :: "string list option"

record rubric_item =
  criterion :: string
  item_keywords :: "string list option"
  min_mentions :: "rat option"
  item_weight :: "rat option"

record criteria =
  required_fields :: "string list option"
  min_length :: "rat option"
  contains_keywords :: "string list option"
  max_length :: "rat option"
  expected_answer :: "string option"
  forbidden_phrases :: "string list option"
  regex_pattern :: "string option"
  expected_schema :: "schema option"
  rubric :: "rubric_item list option"
  pass_threshold :: "rat option"
  acceptance :: "string option"

section \<open>Task meta and task state\<close>

datatype selection_mode = Merit | Balanced
datatype privacy = Public
datatype submission_mode = OpenSubmission
datatype pick_mode = AgentPick | CreatorPick

record task_meta =
  taskId :: string
  targetExecutorType :: executor_type
  verificationMode :: verification_mode
  verificationCriteria :: "criteria option"
  reward :: "task_reward option"
  requiredCapabilities :: "string list"
  posterAddress :: "string option"
  chain :: "string option"
  chainId :: "int option"
  verifierAddress :: "string option"
  rootHash :: "string option"
  wrappedKeys :: "(string \<rightharpoonup> string) option"
  keyCustodyBlob :: "(string \<times> string) option"
  skipKeyWrap :: "bool option"
  deadline :: "int option"
  targetExecutor :: "string option"
  serviceId :: "int option"
  agentSelectionMode :: "selection_mode option"
  privacy :: "privacy option"
  publicBrief :: "string option"
  routingSummary :: "string option"
  submissionMode :: "submission_mode option"
  openPick :: "(pick_mode \<times> int) option"

record verification =
  vr_passed :: bool
  vr_score :: "rat option"
  vr_reasons :: json
  vr_breakdown :: "json option"
  vr_errors :: "json option"

record task_state =
  stateTaskId :: string
  status :: status
  failedReason :: "string option"
  executorAddress :: "string option"
  acceptedAt :: "int option"
  submittedAt :: "int option"
  submissionRound :: "int option"
  resultData :: "json option"
  verificationResult :: "verification option"
  assignTxHash :: "string option"
  verifyTxHash :: "string option"
  assignError :: "string option"
  verifyError :: "string option"
  teeAttestation :: "json option"
  outputRootHash :: "string option"

text \<open>A state with only its required properties: \<open>{ taskId, status }\<close>.\<close>

definition bare_state :: "string \<Rightarrow> status \<Rightarrow> task_state" where
  "bare_state tid st =
     \<lparr>stateTaskId = tid, status = st, failedReason = None, executorAddress = None,
      acceptedAt = None, submittedAt = None, submissionRound = None, resultData = None,
      verificationResult = None, assignTxHash = None, verifyTxHash = None, assignError = None,
      verifyError = None, teeAttestation = None, outputRootHash = None\<rparr>"

lemma bare_state_sel [simp]:
  "stateTaskId (bare_state tid st) = tid" "status (bare_state tid st) = st"
  "executorAddress (bare_state tid st) = None" "assignTxHash (bare_state tid st) = None"
  by (simp_all add: bare_state_def)

text \<open>
  \<open>Partial<A2ATaskState>\<close>: a patch is the list of properties it holds, each with its new value
  (\<open>None\<close> for a property set to \<open>undefined\<close>, which the spread keeps and the stored JSON then
  drops). \<open>{ ...existing, ...patch }\<close> applies them.
\<close>

datatype patch_field =
    PStatus status
  | PFailedReason "string option"
  | PExecutorAddress "string option"
  | PAcceptedAt "int option"
  | PSubmittedAt "int option"
  | PSubmissionRound "int option"
  | PResultData "json option"
  | PVerificationResult "verification option"
  | PAssignTxHash "string option"
  | PVerifyTxHash "string option"
  | PAssignError "string option"
  | PVerifyError "string option"
  | PTeeAttestation "json option"
  | POutputRootHash "string option"

fun apply_field :: "patch_field \<Rightarrow> task_state \<Rightarrow> task_state" where
  "apply_field (PStatus v) s = s\<lparr>status := v\<rparr>"
| "apply_field (PFailedReason v) s = s\<lparr>failedReason := v\<rparr>"
| "apply_field (PExecutorAddress v) s = s\<lparr>executorAddress := v\<rparr>"
| "apply_field (PAcceptedAt v) s = s\<lparr>acceptedAt := v\<rparr>"
| "apply_field (PSubmittedAt v) s = s\<lparr>submittedAt := v\<rparr>"
| "apply_field (PSubmissionRound v) s = s\<lparr>submissionRound := v\<rparr>"
| "apply_field (PResultData v) s = s\<lparr>resultData := v\<rparr>"
| "apply_field (PVerificationResult v) s = s\<lparr>verificationResult := v\<rparr>"
| "apply_field (PAssignTxHash v) s = s\<lparr>assignTxHash := v\<rparr>"
| "apply_field (PVerifyTxHash v) s = s\<lparr>verifyTxHash := v\<rparr>"
| "apply_field (PAssignError v) s = s\<lparr>assignError := v\<rparr>"
| "apply_field (PVerifyError v) s = s\<lparr>verifyError := v\<rparr>"
| "apply_field (PTeeAttestation v) s = s\<lparr>teeAttestation := v\<rparr>"
| "apply_field (POutputRootHash v) s = s\<lparr>outputRootHash := v\<rparr>"

definition apply_patch :: "patch_field list \<Rightarrow> task_state \<Rightarrow> task_state" where
  "apply_patch ps s = fold apply_field ps s"

section \<open>What a Lua script does to the JSON it rewrites\<close>

text \<open>
  The scripts decode a state with cjson and encode it again. A Lua table has no empty-array
  form, so \<open>[]\<close> comes back as \<open>{}\<close>, at any depth. Strings, booleans, nulls and numbers of up to
  14 significant digits come back as they were.
\<close>

fun cjson :: "json \<Rightarrow> json" where
  "cjson (JArr []) = JObj []"
| "cjson (JArr (x # xs)) = JArr (map cjson (x # xs))"
| "cjson (JObj kvs) = JObj (map (\<lambda>(k, v). (k, cjson v)) kvs)"
| "cjson v = v"

definition cjson_verification :: "verification \<Rightarrow> verification" where
  "cjson_verification v =
     v\<lparr>vr_reasons := cjson (vr_reasons v), vr_breakdown := map_option cjson (vr_breakdown v),
       vr_errors := map_option cjson (vr_errors v)\<rparr>"

definition cjson_state :: "task_state \<Rightarrow> task_state" where
  "cjson_state s =
     s\<lparr>resultData := map_option cjson (resultData s),
       verificationResult := map_option cjson_verification (verificationResult s),
       teeAttestation := map_option cjson (teeAttestation s)\<rparr>"

lemma cjson_state_sel [simp]:
  "stateTaskId (cjson_state s) = stateTaskId s" "status (cjson_state s) = status s"
  "executorAddress (cjson_state s) = executorAddress s" "acceptedAt (cjson_state s) = acceptedAt s"
  "assignTxHash (cjson_state s) = assignTxHash s" "failedReason (cjson_state s) = failedReason s"
  by (simp_all add: cjson_state_def)

end
