(* ===== verification/KeyValue.thy ===== *)
theory KeyValue
  imports Prelude "HOL-Library.List_Lexorder" "HOL-Library.Char_ord" "HOL-Library.Product_Lexorder"
begin

text \<open>
  The state the stores keep in Redis, as explicit state. A family of string keys that share a
  prefix is a map from the part after the prefix to a value and the time it expires (unix
  milliseconds; \<open>None\<close> for a key with no expiry); a key past its time reads as absent, whether
  or not the server has dropped it yet. An index set is a set of strings, a hash is a map, and
  a sorted set is a list ordered by score and then by member, as ZRANGEBYSCORE returns it.
\<close>

section \<open>Keys with an expiry\<close>

type_synonym 'v kv = "string \<rightharpoonup> 'v \<times> int option"

fun live :: "int \<Rightarrow> int option \<Rightarrow> bool" where
  "live now None = True"
| "live now (Some e) = (now < e)"

text \<open>GET.\<close>

definition kv_get :: "int \<Rightarrow> 'v kv \<Rightarrow> string \<Rightarrow> 'v option" where
  "kv_get now m k =
     (case m k of None \<Rightarrow> None | Some (v, e) \<Rightarrow> if live now e then Some v else None)"

text \<open>SET, and SET with EX (a time to live in seconds).\<close>

definition kv_set :: "'v kv \<Rightarrow> string \<Rightarrow> 'v \<Rightarrow> 'v kv" where
  "kv_set m k v = m(k \<mapsto> (v, None))"

definition kv_setex :: "int \<Rightarrow> 'v kv \<Rightarrow> string \<Rightarrow> int \<Rightarrow> 'v \<Rightarrow> 'v kv" where
  "kv_setex now m k ttl v = m(k \<mapsto> (v, Some (now + 1000 * ttl)))"

text \<open>SET with NX, and with NX and EX: whether the key was absent and is now set.\<close>

definition kv_setnx :: "int \<Rightarrow> 'v kv \<Rightarrow> string \<Rightarrow> int option \<Rightarrow> 'v \<Rightarrow> bool \<times> 'v kv" where
  "kv_setnx now m k ttl v =
     (if kv_get now m k = None
      then (True, m(k \<mapsto> (v, map_option (\<lambda>t. now + 1000 * t) ttl)))
      else (False, m))"

definition kv_del :: "'v kv \<Rightarrow> string \<Rightarrow> 'v kv" where
  "kv_del m k = m(k := None)"

text \<open>The compare-and-delete and compare-and-expire scripts the sources share.\<close>

definition kv_cad :: "int \<Rightarrow> 'v kv \<Rightarrow> string \<Rightarrow> 'v \<Rightarrow> bool \<times> 'v kv" where
  "kv_cad now m k v =
     (if kv_get now m k = Some v then (True, kv_del m k) else (False, m))"

definition kv_cae :: "int \<Rightarrow> 'v kv \<Rightarrow> string \<Rightarrow> int \<Rightarrow> 'v \<Rightarrow> bool \<times> 'v kv" where
  "kv_cae now m k ttl v =
     (if kv_get now m k = Some v then (True, kv_setex now m k ttl v) else (False, m))"

text \<open>TTL: -2 for no key, -1 for a key with no expiry, else the seconds left, rounded.\<close>

definition kv_ttl :: "int \<Rightarrow> 'v kv \<Rightarrow> string \<Rightarrow> int" where
  "kv_ttl now m k =
     (case m k of
        None \<Rightarrow> -2
      | Some (v, None) \<Rightarrow> -1
      | Some (v, Some e) \<Rightarrow> if now < e then (e - now + 500) div 1000 else -2)"

lemma kv_get_set [redis_simps]:
  "kv_get now (kv_set m k v) k' = (if k' = k then Some v else kv_get now m k')"
  by (simp add: kv_get_def kv_set_def)

lemma kv_get_setex [redis_simps]:
  "kv_get now' (kv_setex now m k ttl v) k' =
     (if k' = k then (if now' < now + 1000 * ttl then Some v else None) else kv_get now' m k')"
  by (simp add: kv_get_def kv_setex_def)

lemma kv_get_del [redis_simps]:
  "kv_get now (kv_del m k) k' = (if k' = k then None else kv_get now m k')"
  by (simp add: kv_get_def kv_del_def)

lemma kv_setnx_fst [redis_simps]: "fst (kv_setnx now m k ttl v) \<longleftrightarrow> kv_get now m k = None"
  by (simp add: kv_setnx_def)

lemma kv_get_setnx [redis_simps]:
  "kv_get now (snd (kv_setnx now m k None v)) k' =
     (if k' = k \<and> kv_get now m k = None then Some v else kv_get now m k')"
  by (auto simp: kv_setnx_def kv_get_def)

lemma kv_cad_fst [redis_simps]: "fst (kv_cad now m k v) \<longleftrightarrow> kv_get now m k = Some v"
  by (simp add: kv_cad_def)

lemma kv_get_cad [redis_simps]:
  "kv_get now' (snd (kv_cad now m k v)) k' =
     (if k' = k \<and> kv_get now m k = Some v then None else kv_get now' m k')"
  by (auto simp: kv_cad_def redis_simps)

lemma kv_ttl_absent: "kv_ttl now m k = -2 \<longleftrightarrow> kv_get now m k = None"
proof -
  have pos: "0 \<le> (e - now + 500) div 1000" if "now < e" for e :: int
    using that by (intro pos_imp_zdiv_nonneg_iff [THEN iffD2]) auto
  have "(e - now + 500) div 1000 \<noteq> -2" if "now < e" for e :: int
    using pos [OF that] by linarith
  then show ?thesis
    by (auto simp: kv_ttl_def kv_get_def split: option.splits)
qed

text \<open>A key once live for longer stays readable earlier; expiry is the only change over time.\<close>

lemma kv_get_later_None: "kv_get now m k = None \<Longrightarrow> now \<le> now' \<Longrightarrow> kv_get now' m k = None"
  by (auto simp: kv_get_def split: option.splits if_splits elim!: live.elims)

section \<open>Sorted sets\<close>

type_synonym zset = "(int \<times> string) list"

definition zscore :: "zset \<Rightarrow> string \<Rightarrow> int option" where
  "zscore z m = map_option fst (find (\<lambda>p. snd p = m) z)"

definition zrem :: "zset \<Rightarrow> string \<Rightarrow> zset" where
  "zrem z m = filter (\<lambda>p. snd p \<noteq> m) z"

definition zadd :: "zset \<Rightarrow> int \<Rightarrow> string \<Rightarrow> zset" where
  "zadd z score m = insort (score, m) (zrem z m)"

definition zadd_nx :: "zset \<Rightarrow> int \<Rightarrow> string \<Rightarrow> zset" where
  "zadd_nx z score m = (if zscore z m = None then zadd z score m else z)"

text \<open>ZRANGEBYSCORE z -inf now LIMIT 0 limit, and ZREMRANGEBYSCORE z -inf now.\<close>

definition zrange :: "zset \<Rightarrow> int \<Rightarrow> nat \<Rightarrow> string list" where
  "zrange z now limit = take limit (map snd (takeWhile (\<lambda>p. fst p \<le> now) z))"

definition zexpire :: "zset \<Rightarrow> int \<Rightarrow> zset" where
  "zexpire z now = filter (\<lambda>p. now < fst p) z"

text \<open>What every command keeps: the order, and one score per member.\<close>

definition zset_ok :: "zset \<Rightarrow> bool" where
  "zset_ok z \<longleftrightarrow> sorted z \<and> distinct (map snd z)"

lemma zset_ok_Nil [simp]: "zset_ok []"
  by (simp add: zset_ok_def)

lemma zset_ok_filter [simp]: "zset_ok z \<Longrightarrow> zset_ok (filter P z)"
  by (auto simp: zset_ok_def sorted_filter [of id, simplified] distinct_map_filter)

lemma zset_ok_zrem [simp]: "zset_ok z \<Longrightarrow> zset_ok (zrem z m)"
  by (simp add: zrem_def)

lemma zset_ok_zexpire [simp]: "zset_ok z \<Longrightarrow> zset_ok (zexpire z now)"
  by (simp add: zexpire_def)

lemma distinct_snd_insort:
  "distinct (map snd (insort (s, m) z)) \<longleftrightarrow> m \<notin> snd ` set z \<and> distinct (map snd z)"
  by (induction z) (auto simp: set_insort_key)

lemma zset_ok_zadd [simp]: "zset_ok z \<Longrightarrow> zset_ok (zadd z s m)"
  using zset_ok_zrem [of z m]
  by (auto simp: zset_ok_def zadd_def sorted_insort distinct_snd_insort) (auto simp: zrem_def)

lemma zset_ok_zadd_nx [simp]: "zset_ok z \<Longrightarrow> zset_ok (zadd_nx z s m)"
  by (simp add: zadd_nx_def)

lemma zscore_iff: "zset_ok z \<Longrightarrow> zscore z m = Some s \<longleftrightarrow> (s, m) \<in> set z"
  unfolding zset_ok_def
proof (elim conjE)
  assume "distinct (map snd z)"
  then show "zscore z m = Some s \<longleftrightarrow> (s, m) \<in> set z"
    by (induction z) (auto simp: zscore_def rev_image_eqI)
qed

lemma zscore_None_iff: "zscore z m = None \<longleftrightarrow> m \<notin> snd ` set z"
  by (force simp: zscore_def find_None_iff image_iff)

lemma set_zadd: "set (zadd z s m) = insert (s, m) {p \<in> set z. snd p \<noteq> m}"
  by (auto simp: zadd_def zrem_def set_insort_key)

lemma set_zrem: "set (zrem z m) = {p \<in> set z. snd p \<noteq> m}"
  by (simp add: zrem_def)

lemma zscore_zadd [redis_simps]:
  "zset_ok z \<Longrightarrow> zscore (zadd z s m) m' = (if m' = m then Some s else zscore z m')"
proof -
  assume ok: "zset_ok z"
  have "zscore (zadd z s m) m' = Some t \<longleftrightarrow> (if m' = m then Some s else zscore z m') = Some t" for t
    by (auto simp: zscore_iff [OF zset_ok_zadd [OF ok]] zscore_iff [OF ok] set_zadd)
  then show ?thesis by (metis not_None_eq)
qed

lemma zscore_zrem [redis_simps]:
  "zset_ok z \<Longrightarrow> zscore (zrem z m) m' = (if m' = m then None else zscore z m')"
proof -
  assume ok: "zset_ok z"
  have "zscore (zrem z m) m' = Some t \<longleftrightarrow> (if m' = m then None else zscore z m') = Some t" for t
    by (auto simp: zscore_iff [OF zset_ok_zrem [OF ok]] zscore_iff [OF ok] set_zrem)
  then show ?thesis by (metis not_None_eq)
qed

text \<open>With room for all of them, a range holds exactly the members that are due.\<close>

lemma takeWhile_sorted_fst:
  "sorted (z :: (int \<times> string) list) \<Longrightarrow> set (takeWhile (\<lambda>p. fst p \<le> now) z) = {p \<in> set z. fst p \<le> now}"
proof (induction z)
  case (Cons p z)
  show ?case
  proof (cases "fst p \<le> now")
    case False
    with Cons.prems have "\<forall>q \<in> set z. \<not> fst q \<le> now"
      by (auto simp: less_eq_prod_def)
    with False show ?thesis by auto
  next
    case True
    with Cons show ?thesis by auto
  qed
qed simp

lemma zrange_due:
  assumes ok: "zset_ok z" and m: "m \<in> set (zrange z now limit)"
  shows "\<exists>s. zscore z m = Some s \<and> s \<le> now"
proof -
  from m have "m \<in> snd ` set (takeWhile (\<lambda>p. fst p \<le> now) z)"
    by (auto simp: zrange_def dest!: in_set_takeD)
  then obtain s where "(s, m) \<in> set (takeWhile (\<lambda>p. fst p \<le> now) z)" by auto
  then have "(s, m) \<in> set z" "s \<le> now" by (auto dest: set_takeWhileD)
  then show ?thesis using zscore_iff [OF ok, of m s] by blast
qed

lemma zrange_complete:
  assumes ok: "zset_ok z" and due: "zscore z m = Some s" "s \<le> now" and room: "length z \<le> limit"
  shows "m \<in> set (zrange z now limit)"
proof -
  let ?t = "takeWhile (\<lambda>p. fst p \<le> now) z"
  have "length ?t \<le> limit" using room length_takeWhile_le [of "\<lambda>p. fst p \<le> now" z] by linarith
  then have "zrange z now limit = map snd ?t" by (simp add: zrange_def)
  moreover have "(s, m) \<in> set ?t"
    using ok due by (auto simp: zset_ok_def zscore_iff takeWhile_sorted_fst)
  ultimately show ?thesis by force
qed

end
