(* ===== verification/TaskStore.thy ===== *)
theory TaskStore
  imports TaskTypes KeyValue
begin

text \<open>
  \<open>services/a2aStore.ts\<close>: the A2A task store. Its state is the record \<open>a2a_db\<close>, one field per
  key family; a Lua script is one definition, and the function that sends it another. What a
  SMEMBERS or SCAN returns has no fixed order, so the reply is an argument of the functions
  that list, which their laws relate to the store. Times are unix milliseconds.
\<close>

section \<open>State\<close>

record task_offer =
  offer_address :: string
  offer_score :: rat
  expiresAt :: int

record cascade_entry =
  ce_address :: string
  ce_score :: rat
  ce_displayName :: string

record task_cascade =
  ranked :: "cascade_entry list"
  position :: nat
  startedAt :: int

record accept_attempt =
  agent_id :: string
  result :: string
  ts :: int

record a2a_db =
  metas :: "string \<rightharpoonup> task_meta"
  states :: "string \<rightharpoonup> task_state"
  open_ix :: "string set"
  open_sub_ix :: "string set"
  executor_ix :: "string \<Rightarrow> string set"
  poster_ix :: "string \<Rightarrow> string set"
  verifier_ix :: "string \<Rightarrow> string set"
  hash_claims :: "string kv"
  offers :: "task_offer kv"
  cascades :: "task_cascade kv"
  deadlines :: "int kv"
  accept_locks :: "string kv"
  accept_attempts :: "accept_attempt list kv"
  settlement_deadlines :: "string kv"
  assign_reconciled :: "string kv"
  assign_broadcast :: "string kv"

datatype store_error = NoState string | NoMeta string

definition empty_db :: a2a_db where
  "empty_db =
     \<lparr>metas = Map.empty, states = Map.empty, open_ix = {}, open_sub_ix = {},
      executor_ix = (\<lambda>_. {}), poster_ix = (\<lambda>_. {}), verifier_ix = (\<lambda>_. {}),
      hash_claims = Map.empty, offers = Map.empty, cascades = Map.empty, deadlines = Map.empty,
      accept_locks = Map.empty, accept_attempts = Map.empty,
      settlement_deadlines = Map.empty, assign_reconciled = Map.empty,
      assign_broadcast = Map.empty\<rparr>"

text \<open>SADD and SREM on a keyed family of index sets.\<close>

definition ix_add :: "(string \<Rightarrow> string set) \<Rightarrow> string \<Rightarrow> string \<Rightarrow> string \<Rightarrow> string set" where
  "ix_add ix k x = ix(k := insert x (ix k))"

definition ix_rem :: "(string \<Rightarrow> string set) \<Rightarrow> string \<Rightarrow> string \<Rightarrow> string \<Rightarrow> string set" where
  "ix_rem ix k x = ix(k := ix k - {x})"

lemma ix_add_apply [store_simps]: "ix_add ix k x j = (if j = k then insert x (ix k) else ix j)"
  by (simp add: ix_add_def)

lemma ix_rem_apply [store_simps]: "ix_rem ix k x j = (if j = k then ix k - {x} else ix j)"
  by (simp add: ix_rem_def)

section \<open>Task-hash claims\<close>

definition HASH_CLAIM_TTL_SECONDS :: int where
  "HASH_CLAIM_TTL_SECONDS = 24 * 60 * 60"

text \<open>The part before the first bar: \<open>string.match(current, '^[^|]*')\<close> and \<open>split('|')[0]\<close>.\<close>

definition claim_holder :: "string \<Rightarrow> string" where
  "claim_holder v = takeWhile (\<lambda>c. c \<noteq> CHR ''|'') v"

definition claim_value :: "string \<Rightarrow> string \<Rightarrow> string" where
  "claim_value addr token = addr @ ''|'' @ token"

record claim_result =
  claim_poster :: string
  mine :: bool
  fresh :: bool

definition claimTaskHash :: "a2a_db \<Rightarrow> int \<Rightarrow> string \<Rightarrow> string \<Rightarrow> string \<Rightarrow> claim_result \<times> a2a_db" where
  "claimTaskHash db now taskHash poster token =
     (let addr = lower poster; key = lower taskHash;
          holder = map_option claim_holder (kv_get now (hash_claims db) key);
          claimed = db\<lparr>hash_claims :=
            kv_setex now (hash_claims db) key HASH_CLAIM_TTL_SECONDS (claim_value addr token)\<rparr>
      in case holder of
           Some h \<Rightarrow>
             if h \<noteq> addr then (\<lparr>claim_poster = h, mine = False, fresh = False\<rparr>, db)
             else (\<lparr>claim_poster = h, mine = True, fresh = False\<rparr>, claimed)
         | None \<Rightarrow> (\<lparr>claim_poster = addr, mine = True, fresh = True\<rparr>, claimed))"

definition getTaskHashClaim :: "a2a_db \<Rightarrow> int \<Rightarrow> string \<Rightarrow> string option" where
  "getTaskHashClaim db now taskHash =
     map_option claim_holder (kv_get now (hash_claims db) (lower taskHash))"

definition releaseTaskHashClaim :: "a2a_db \<Rightarrow> int \<Rightarrow> string \<Rightarrow> string \<Rightarrow> string \<Rightarrow> bool \<times> a2a_db" where
  "releaseTaskHashClaim db now taskHash poster token =
     (let r = kv_cad now (hash_claims db) (lower taskHash) (claim_value (lower poster) token)
      in (fst r, db\<lparr>hash_claims := snd r\<rparr>))"

section \<open>Task meta\<close>

text \<open>
  A state or meta is read under the lowercased id, then, for an id that is not lowercase,
  under the id as given: a legacy mixed-case key. The first component is the key it was
  found under.
\<close>

definition find_state :: "a2a_db \<Rightarrow> string \<Rightarrow> (string \<times> task_state) option" where
  "find_state db tid =
     (case states db (lower tid) of
        Some s \<Rightarrow> Some (lower tid, s)
      | None \<Rightarrow> if lower tid \<noteq> tid then map_option (Pair tid) (states db tid) else None)"

definition find_meta :: "a2a_db \<Rightarrow> string \<Rightarrow> (string \<times> task_meta) option" where
  "find_meta db tid =
     (case metas db (lower tid) of
        Some m \<Rightarrow> Some (lower tid, m)
      | None \<Rightarrow> if lower tid \<noteq> tid then map_option (Pair tid) (metas db tid) else None)"

definition setMeta :: "a2a_db \<Rightarrow> task_meta \<Rightarrow> a2a_db" where
  "setMeta db m =
     (let tid = lower (taskId m);
          stateExists = find_state db (taskId m) \<noteq> None;
          openSubmission = (submissionMode m = Some OpenSubmission)
      in db\<lparr>
           metas := (metas db)(tid \<mapsto> m\<lparr>taskId := tid\<rparr>),
           states := (if stateExists then states db
                      else (states db)(tid \<mapsto> bare_state tid (if openSubmission then Collecting else Open))),
           open_sub_ix := (if openSubmission then insert tid (open_sub_ix db) else open_sub_ix db),
           open_ix := (if \<not> openSubmission \<and> targetExecutorType m = Agent
                       then insert tid (open_ix db) else open_ix db),
           poster_ix := (case truthy (posterAddress m) of None \<Rightarrow> poster_ix db
                         | Some a \<Rightarrow> ix_add (poster_ix db) (lower a) tid),
           verifier_ix := (case truthy (verifierAddress m) of None \<Rightarrow> verifier_ix db
                           | Some a \<Rightarrow> ix_add (verifier_ix db) (lower a) tid)\<rparr>)"

definition getMeta :: "a2a_db \<Rightarrow> string \<Rightarrow> task_meta option" where
  "getMeta db tid = map_option snd (find_meta db tid)"

definition merge_keys :: "(string \<times> string) list \<Rightarrow> (string \<rightharpoonup> string) \<Rightarrow> (string \<rightharpoonup> string)" where
  "merge_keys additions m = fold (\<lambda>(addr, blob) m. m(lower addr \<mapsto> blob)) additions m"

definition mergeWrappedKeys ::
  "a2a_db \<Rightarrow> string \<Rightarrow> (string \<times> string) list \<Rightarrow> task_meta option \<times> a2a_db" where
  "mergeWrappedKeys db tid additions =
     (case find_meta db tid of
        None \<Rightarrow> (None, db)
      | Some (finalTid, m) \<Rightarrow>
          let old = (case wrappedKeys m of None \<Rightarrow> Map.empty | Some w \<Rightarrow> w);
              m' = m\<lparr>wrappedKeys := Some (merge_keys additions old)\<rparr>
          in (Some m', db\<lparr>metas := (metas db)(finalTid \<mapsto> m')\<rparr>))"

definition cacheDeadline :: "a2a_db \<Rightarrow> int \<Rightarrow> string \<Rightarrow> int \<Rightarrow> a2a_db" where
  "cacheDeadline db now tid dl =
     (let ttlSec = max (dl - now div 1000) 0 + 24 * 3600
      in db\<lparr>deadlines := kv_setex now (deadlines db) (lower tid) ttlSec dl\<rparr>)"

definition getCachedDeadline :: "a2a_db \<Rightarrow> int \<Rightarrow> string \<Rightarrow> int option" where
  "getCachedDeadline db now tid = kv_get now (deadlines db) (lower tid)"

definition getIndexedHashes :: "a2a_db \<Rightarrow> string list \<Rightarrow> string set" where
  "getIndexedHashes db hashes =
     set (map lower (filter (\<lambda>h. metas db (lower h) \<noteq> None \<or>
       (lower h \<noteq> h \<and> metas db h \<noteq> None)) hashes))"

section \<open>Task state\<close>

definition getState :: "a2a_db \<Rightarrow> string \<Rightarrow> task_state option" where
  "getState db tid = map_option snd (find_state db tid)"

definition put_state :: "a2a_db \<Rightarrow> string \<Rightarrow> task_state \<Rightarrow> a2a_db" where
  "put_state db k s = db\<lparr>states := (states db)(k \<mapsto> s)\<rparr>"

text \<open>The meta the state operations read: \<open>KEY.meta(finalTid)\<close>, else the id as given.\<close>

definition meta_of_state :: "a2a_db \<Rightarrow> string \<Rightarrow> string \<Rightarrow> task_meta option" where
  "meta_of_state db finalTid tid =
     (case metas db (lower finalTid) of Some m \<Rightarrow> Some m | None \<Rightarrow> metas db tid)"

definition move_executor ::
  "(string \<Rightarrow> string set) \<Rightarrow> string option \<Rightarrow> string option \<Rightarrow> string \<Rightarrow> string \<Rightarrow> string set" where
  "move_executor ix old new tid =
     (if old = new then ix
      else
        let ix1 = (case truthy old of None \<Rightarrow> ix | Some a \<Rightarrow> ix_rem ix (lower a) tid)
        in (case truthy new of None \<Rightarrow> ix1 | Some a \<Rightarrow> ix_add ix1 (lower a) tid))"

definition updateState :: "a2a_db \<Rightarrow> string \<Rightarrow> patch_field list \<Rightarrow> store_error + task_state \<times> a2a_db" where
  "updateState db tid patch =
     (case find_state db tid of
        None \<Rightarrow> Inl (NoState tid)
      | Some (finalTid, existing) \<Rightarrow>
          let updated = (apply_patch patch existing)\<lparr>stateTaskId := finalTid\<rparr>;
              verifier = Option.bind (meta_of_state db finalTid tid) (truthy \<circ> verifierAddress);
              wasAwaiting = (status existing = AwaitingVerification);
              isAwaiting = (status updated = AwaitingVerification)
          in Inr (updated,
               (put_state db finalTid updated)\<lparr>
                 open_ix := (if status existing = Open \<and> status updated \<noteq> Open
                             then open_ix db - {finalTid} else open_ix db),
                 executor_ix := move_executor (executor_ix db)
                   (executorAddress existing) (executorAddress updated) finalTid,
                 verifier_ix := (case verifier of None \<Rightarrow> verifier_ix db
                   | Some v \<Rightarrow>
                       if wasAwaiting \<and> \<not> isAwaiting then ix_rem (verifier_ix db) (lower v) finalTid
                       else if \<not> wasAwaiting \<and> isAwaiting then ix_add (verifier_ix db) (lower v) finalTid
                       else verifier_ix db)\<rparr>))"

section \<open>The compare-and-set scripts\<close>

text \<open>What a script reports: it wrote, or the status it found instead (\<open>None\<close> for no state).\<close>

datatype 'a cas = Won 'a | Lost "status option"

fun won :: "'a cas \<Rightarrow> bool" where
  "won (Won _) = True"
| "won (Lost _) = False"

text \<open>SREM of the id, and of the id as given when it differs.\<close>

definition drop_open :: "a2a_db \<Rightarrow> string \<Rightarrow> string set" where
  "drop_open db tid =
     (if lower tid \<noteq> tid then open_ix db - {lower tid} - {tid} else open_ix db - {lower tid})"

definition accept_script :: "a2a_db \<Rightarrow> string \<Rightarrow> string \<Rightarrow> int \<Rightarrow> task_state cas \<times> a2a_db" where
  "accept_script db tid executor atMs =
     (case find_state db tid of
        None \<Rightarrow> (Lost None, db)
      | Some (k, s) \<Rightarrow>
          if status s \<noteq> Open then (Lost (Some (status s)), db)
          else
            let s' = (cjson_state s)\<lparr>status := Accepted, executorAddress := Some executor,
                       acceptedAt := Some atMs\<rparr>
            in (Won s', (put_state db k s')\<lparr>open_ix := drop_open db tid,
                 executor_ix := ix_add (executor_ix db) (lower executor) (lower tid)\<rparr>))"

definition tryAccept :: "a2a_db \<Rightarrow> string \<Rightarrow> string \<Rightarrow> int \<Rightarrow> (store_error + task_state cas) \<times> a2a_db" where
  "tryAccept db tid executor atMs =
     (let r = accept_script db tid executor atMs in
      case fst r of
        Lost None \<Rightarrow> (Inl (NoState tid), snd r)
      | c \<Rightarrow> (Inr c, snd r))"

datatype expire_reason = Expired | Unindexed

fun expire_reason_text :: "expire_reason \<Rightarrow> string" where
  "expire_reason_text Expired = ''expired''"
| "expire_reason_text Unindexed = ''unindexed''"

definition tryExpire :: "a2a_db \<Rightarrow> string \<Rightarrow> expire_reason \<Rightarrow> unit cas \<times> a2a_db" where
  "tryExpire db tid reason =
     (case find_state db tid of
        None \<Rightarrow> (Lost None, db)
      | Some (k, s) \<Rightarrow>
          if status s \<noteq> Open then (Lost (Some (status s)), db)
          else
            let s' = (cjson_state s)\<lparr>status := Failed,
                       failedReason := Some (expire_reason_text reason)\<rparr>
            in (Won (), (put_state db k s')\<lparr>open_ix := drop_open db tid\<rparr>))"

datatype close_reason = ClosedCancelled | ClosedExpired

fun close_reason_text :: "close_reason \<Rightarrow> string" where
  "close_reason_text ClosedCancelled = ''cancelled''"
| "close_reason_text ClosedExpired = ''expired''"

definition terminal :: "status \<Rightarrow> bool" where
  "terminal st \<longleftrightarrow> st = Verified \<or> st = Completed \<or> st = Failed"

definition close_script ::
  "a2a_db \<Rightarrow> string \<Rightarrow> close_reason \<Rightarrow> string option \<Rightarrow> status cas \<times> a2a_db" where
  "close_script db tid reason verifierKey =
     (case find_state db tid of
        None \<Rightarrow> (Lost None, db)
      | Some (k, s) \<Rightarrow>
          if terminal (status s) then (Lost (Some (status s)), db)
          else
            let s' = (cjson_state s)\<lparr>status := Failed,
                       failedReason := Some (close_reason_text reason)\<rparr>
            in (Won (status s), (put_state db k s')\<lparr>open_ix := drop_open db tid,
                 verifier_ix := (case verifierKey of None \<Rightarrow> verifier_ix db
                   | Some v \<Rightarrow> ix_rem (verifier_ix db) v (lower tid))\<rparr>))"

definition tryCloseOnChainTerminal :: "a2a_db \<Rightarrow> string \<Rightarrow> close_reason \<Rightarrow> status cas \<times> a2a_db" where
  "tryCloseOnChainTerminal db tid reason =
     close_script db tid reason
       (map_option lower (Option.bind (getMeta db tid) (truthy \<circ> verifierAddress)))"

section \<open>Listing\<close>

text \<open>
  \<open>keys\<close> is what SCAN returned for the state keys, without their prefix; \<open>ids\<close> is what SMEMBERS
  returned for an index. An entry without a state or a meta is skipped.
\<close>

definition load_pair ::
  "(string \<rightharpoonup> task_meta) \<Rightarrow> (string \<rightharpoonup> task_state) \<Rightarrow> string \<Rightarrow> (task_meta \<times> task_state) option" where
  "load_pair ms ss k =
     (case ss k of
        None \<Rightarrow> None
      | Some s \<Rightarrow> (case ms k of None \<Rightarrow> None | Some m \<Rightarrow> Some (m, s)))"

definition in_progress :: "status \<Rightarrow> bool" where
  "in_progress st \<longleftrightarrow> st \<in> {Accepted, InProgress, Submitted, AwaitingVerification}"

definition listInProgressTasks :: "a2a_db \<Rightarrow> string list \<Rightarrow> (task_meta \<times> task_state) list" where
  "listInProgressTasks db keys =
     filter (\<lambda>(m, s). in_progress (status s))
       (List.map_filter (load_pair (metas db) (states db)) keys)"

definition loadTasksByIndex :: "a2a_db \<Rightarrow> string list \<Rightarrow> (task_meta \<times> task_state) list" where
  "loadTasksByIndex db ids =
     List.map_filter (\<lambda>i. load_pair (metas db) (states db) (lower i)) ids"

definition listable :: "task_meta \<times> task_state \<Rightarrow> bool" where
  "listable = (\<lambda>(m, s). targetExecutorType m = Agent \<and> status s = Open \<and>
     submissionMode m \<noteq> Some OpenSubmission)"

definition listOpenTasks :: "a2a_db \<Rightarrow> string list \<Rightarrow> (task_meta \<times> task_state) list" where
  "listOpenTasks db ids = filter listable (loadTasksByIndex db ids)"

definition should_be_open :: "a2a_db \<Rightarrow> string \<Rightarrow> bool" where
  "should_be_open db k =
     (case load_pair (metas db) (states db) k of None \<Rightarrow> False | Some p \<Rightarrow> listable p)"

definition resyncOpenIndex :: "a2a_db \<Rightarrow> string list \<Rightarrow> (nat \<times> nat) \<times> a2a_db" where
  "resyncOpenIndex db keys =
     (if keys = [] then ((0, 0), db)
      else
        let shouldBeOpen = set (map lower (filter (should_be_open db) keys));
            toAdd = shouldBeOpen - open_ix db;
            toRemove = open_ix db - shouldBeOpen
        in ((card toAdd, card toRemove), db\<lparr>open_ix := (open_ix db \<union> toAdd) - toRemove\<rparr>))"

datatype open_outcome = WinnerPaid string | Voided

definition closeOpenSubmissionTask :: "a2a_db \<Rightarrow> string \<Rightarrow> open_outcome \<Rightarrow> bool \<times> a2a_db" where
  "closeOpenSubmissionTask db key outcome =
     (let tid = lower key;
          verifierKey = map_option lower (Option.bind (getMeta db tid) (truthy \<circ> verifierAddress));
          winner = (case outcome of WinnerPaid w \<Rightarrow> lower w | Voided \<Rightarrow> [])
      in case states db tid of
           None \<Rightarrow> (False, db)
         | Some s \<Rightarrow>
             if status s \<noteq> Collecting then (False, db)
             else
               let s' = (if winner \<noteq> []
                         then (cjson_state s)\<lparr>status := Completed, executorAddress := Some winner\<rparr>
                         else (cjson_state s)\<lparr>status := Failed, failedReason := Some ''voided''\<rparr>)
               in (True, (put_state db tid s')\<lparr>
                    executor_ix := (if winner \<noteq> [] then ix_add (executor_ix db) winner tid
                                    else executor_ix db),
                    open_sub_ix := open_sub_ix db - {tid},
                    verifier_ix := (case verifierKey of None \<Rightarrow> verifier_ix db
                                    | Some v \<Rightarrow> ix_rem (verifier_ix db) v tid)\<rparr>))"

definition pruneOpenSubmissionIndex :: "a2a_db \<Rightarrow> string list \<Rightarrow> a2a_db" where
  "pruneOpenSubmissionIndex db tids = db\<lparr>open_sub_ix := open_sub_ix db - set (map lower tids)\<rparr>"

definition listOpenSubmissionTasks :: "a2a_db \<Rightarrow> string list \<Rightarrow> (task_meta \<times> task_state) list" where
  "listOpenSubmissionTasks db ids =
     filter (\<lambda>(m, s). submissionMode m = Some OpenSubmission) (loadTasksByIndex db ids)"

text \<open>The filter of \<open>browseAgentTasks\<close>, at unix time \<open>nowSec\<close>.\<close>

definition browsable :: "config \<Rightarrow> int \<Rightarrow> string list option \<Rightarrow> task_meta \<Rightarrow> bool" where
  "browsable cfg nowSec capabilities m \<longleftrightarrow>
     onCurrentNetwork cfg (chain m) (chainId m) \<and>
     (case deadline m of None \<Rightarrow> True | Some d \<Rightarrow> d = 0 \<or> nowSec < d) \<and>
     (case capabilities of None \<Rightarrow> True
      | Some caps \<Rightarrow>
          caps = [] \<or> requiredCapabilities m = [] \<or>
          list_all (\<lambda>c. c \<in> set caps) (requiredCapabilities m))"

definition browseAgentTasks ::
  "config \<Rightarrow> a2a_db \<Rightarrow> int \<Rightarrow> string list \<Rightarrow> string list option \<Rightarrow> (task_meta \<times> task_state) list" where
  "browseAgentTasks cfg db now ids capabilities =
     filter (\<lambda>(m, s). browsable cfg (now div 1000) capabilities m) (listOpenTasks db ids)"

definition getExecutorTasks :: "a2a_db \<Rightarrow> string list \<Rightarrow> (task_meta \<times> task_state) list" where
  "getExecutorTasks db ids = loadTasksByIndex db ids"

text \<open>Keeping the first of the elements with the same key, in order.\<close>

fun dedup_by :: "('a \<Rightarrow> 'b) \<Rightarrow> 'b list \<Rightarrow> 'a list \<Rightarrow> 'a list" where
  "dedup_by f seen [] = []"
| "dedup_by f seen (x # xs) =
     (if f x \<in> set seen then dedup_by f seen xs else x # dedup_by f (f x # seen) xs)"

text \<open>\<open>replies\<close> is what SMEMBERS returned for each wallet's poster index.\<close>

definition getPosterTasksForWallets ::
  "a2a_db \<Rightarrow> (string \<Rightarrow> string list) \<Rightarrow> string list \<Rightarrow> (task_meta \<times> task_state) list" where
  "getPosterTasksForWallets db replies addresses =
     dedup_by (\<lambda>(m, s). lower (taskId m)) []
       (concat (map (\<lambda>a. loadTasksByIndex db (replies a)) (dedup_by id [] (map lower addresses))))"

section \<open>What an unauthenticated reader sees\<close>

text \<open>
  A projected meta is the meta with the stripped properties absent, and the flags the
  projection adds: \<open>hasEncryptedBrief\<close>, and \<open>has_expected_answer\<close> of the criteria.
\<close>

record public_meta =
  pub_meta :: task_meta
  hasEncryptedBrief :: bool
  has_expected_answer :: bool

definition projectCriteria :: "criteria option \<Rightarrow> (criteria \<times> bool) option" where
  "projectCriteria c =
     map_option (\<lambda>c. (c\<lparr>expected_answer := None\<rparr>,
       case expected_answer c of None \<Rightarrow> False | Some a \<Rightarrow> trim a \<noteq> [])) c"

definition projectPublicMeta :: "task_meta \<Rightarrow> public_meta" where
  "projectPublicMeta m =
     (let pub = m\<lparr>wrappedKeys := None, keyCustodyBlob := None, rootHash := None,
                  verificationCriteria := map_option fst (projectCriteria (verificationCriteria m))\<rparr>;
          flag = (case projectCriteria (verificationCriteria m) of None \<Rightarrow> False | Some p \<Rightarrow> snd p)
      in if privacy m = Some Public
         then \<lparr>pub_meta = pub\<lparr>rootHash := rootHash m\<rparr>, hasEncryptedBrief = False,
               has_expected_answer = flag\<rparr>
         else \<lparr>pub_meta = pub, hasEncryptedBrief = (truthy (rootHash m) \<noteq> None),
               has_expected_answer = flag\<rparr>)"

text \<open>The second argument is the privacy of the task's meta, \<open>None\<close> without one.\<close>

definition projectPublicState :: "task_state \<Rightarrow> privacy option \<Rightarrow> task_state" where
  "projectPublicState s pr =
     (let pub = s\<lparr>assignError := None, verifyError := None, resultData := None\<rparr> in
      case verificationResult s of
        None \<Rightarrow> pub
      | Some v \<Rightarrow>
          if pr = Some Public then pub
          else pub\<lparr>verificationResult := Some \<lparr>vr_passed = vr_passed v, vr_score = vr_score v,
                 vr_reasons = JArr [], vr_breakdown = None, vr_errors = None\<rparr>\<rparr>)"

definition projectPublicEntry :: "task_meta \<times> task_state \<Rightarrow> public_meta \<times> task_state" where
  "projectPublicEntry e =
     (projectPublicMeta (fst e), projectPublicState (snd e) (privacy (fst e)))"

section \<open>Handing a task back\<close>

definition releaseToOpen :: "a2a_db \<Rightarrow> string \<Rightarrow> store_error + a2a_db" where
  "releaseToOpen db tid =
     (case find_state db tid of
        None \<Rightarrow> Inl (NoState tid)
      | Some (finalTid, existing) \<Rightarrow>
          if status existing = Open then Inr db
          else (case meta_of_state db finalTid tid of
            None \<Rightarrow> Inl (NoMeta tid)
          | Some m \<Rightarrow>
              Inr ((put_state db finalTid (bare_state finalTid Open))\<lparr>
                open_ix := (if targetExecutorType m = Agent then insert finalTid (open_ix db)
                            else open_ix db),
                executor_ix := (case truthy (executorAddress existing) of
                    None \<Rightarrow> executor_ix db
                  | Some a \<Rightarrow> ix_rem (executor_ix db) (lower a) finalTid)\<rparr>)))"

text \<open>What the caller of a release read: the executor, the assign transaction, the status.\<close>

datatype release_from = FromAccepted | FromInProgress | FromSubmitted

fun release_status :: "release_from \<Rightarrow> status" where
  "release_status FromAccepted = Accepted"
| "release_status FromInProgress = InProgress"
| "release_status FromSubmitted = Submitted"

record expected_state =
  exp_executor :: "string option"
  exp_tx :: "string option"
  exp_status :: "release_from option"

definition or_empty :: "string option \<Rightarrow> string" where
  "or_empty x = (case x of None \<Rightarrow> [] | Some s \<Rightarrow> lower s)"

definition expected_status :: "expected_state \<Rightarrow> status" where
  "expected_status e = (case exp_status e of None \<Rightarrow> Accepted | Some f \<Rightarrow> release_status f)"

definition unchanged_since :: "expected_state \<Rightarrow> task_state \<Rightarrow> bool" where
  "unchanged_since e s \<longleftrightarrow>
     status s = expected_status e \<and>
     or_empty (executorAddress s) = or_empty (exp_executor e) \<and>
     or_empty (assignTxHash s) = or_empty (exp_tx e)"

definition release_script :: "a2a_db \<Rightarrow> string \<Rightarrow> expected_state \<Rightarrow> bool \<Rightarrow> unit cas \<times> a2a_db" where
  "release_script db tid e relist =
     (case find_state db tid of
        None \<Rightarrow> (Lost None, db)
      | Some (finalTid, s) \<Rightarrow>
          if \<not> unchanged_since e s then (Lost (Some (status s)), db)
          else (Won (), (put_state db finalTid (bare_state finalTid Open))\<lparr>
            open_ix := (if relist then insert finalTid (open_ix db) else open_ix db),
            executor_ix := (case truthy (exp_executor e) of
                None \<Rightarrow> executor_ix db
              | Some a \<Rightarrow> ix_rem (executor_ix db) (lower a) finalTid)\<rparr>))"

definition tryReleaseAccepted ::
  "a2a_db \<Rightarrow> string \<Rightarrow> expected_state \<Rightarrow> (store_error + unit cas) \<times> a2a_db" where
  "tryReleaseAccepted db tid e =
     (case getMeta db tid of
        None \<Rightarrow> (Inl (NoMeta tid), db)
      | Some m \<Rightarrow>
          let r = release_script db tid e (targetExecutorType m = Agent)
          in (Inr (fst r), snd r))"

definition listStuckCandidates :: "a2a_db \<Rightarrow> string list \<Rightarrow> (string \<times> task_state) list" where
  "listStuckCandidates db keys =
     List.map_filter (\<lambda>k. case states db k of
        Some s \<Rightarrow> if status s \<in> {Accepted, InProgress, Submitted} then Some (k, s) else None
      | None \<Rightarrow> None) keys"

definition listAcceptedTasks :: "a2a_db \<Rightarrow> string list \<Rightarrow> (string \<times> string option) list" where
  "listAcceptedTasks db keys =
     List.map_filter (\<lambda>k. case states db k of
        Some s \<Rightarrow> if status s = Accepted then Some (k, executorAddress s) else None
      | None \<Rightarrow> None) keys"

section \<open>Offers and the cascade\<close>

definition OFFER_TTL_MS :: int where
  "OFFER_TTL_MS = 15000"

definition CASCADE_TTL_MS :: int where
  "CASCADE_TTL_MS = 120000"

text \<open>\<open>Math.ceil(ms / 1000)\<close>.\<close>

definition ceil_sec :: "int \<Rightarrow> int" where
  "ceil_sec ms = (ms + 999) div 1000"

definition setOffer :: "a2a_db \<Rightarrow> int \<Rightarrow> string \<Rightarrow> task_offer \<Rightarrow> a2a_db" where
  "setOffer db now tid offer =
     db\<lparr>offers := kv_setex now (offers db) (lower tid) (ceil_sec (max OFFER_TTL_MS 5000)) offer\<rparr>"

definition getOffer :: "a2a_db \<Rightarrow> int \<Rightarrow> string \<Rightarrow> task_offer option \<times> a2a_db" where
  "getOffer db now tid =
     (case kv_get now (offers db) (lower tid) of
        None \<Rightarrow> (None, db)
      | Some offer \<Rightarrow>
          if expiresAt offer < now
          then (None, db\<lparr>offers := kv_del (offers db) (lower tid)\<rparr>)
          else (Some offer, db))"

definition checkOffer :: "a2a_db \<Rightarrow> int \<Rightarrow> string \<Rightarrow> string \<Rightarrow> bool" where
  "checkOffer db now tid caller =
     (case fst (getOffer db now tid) of
        None \<Rightarrow> False
      | Some offer \<Rightarrow> lower (offer_address offer) = lower caller)"

definition clearOffer :: "a2a_db \<Rightarrow> string \<Rightarrow> a2a_db" where
  "clearOffer db tid = db\<lparr>offers := kv_del (offers db) (lower tid)\<rparr>"

definition withExplorationHead :: "cascade_entry \<Rightarrow> cascade_entry list \<Rightarrow> cascade_entry list" where
  "withExplorationHead pick rs =
     pick # filter (\<lambda>r. lower (ce_address r) \<noteq> lower (ce_address pick)) rs"

definition setCascade :: "a2a_db \<Rightarrow> int \<Rightarrow> string \<Rightarrow> cascade_entry list \<Rightarrow> a2a_db" where
  "setCascade db now tid rs =
     db\<lparr>cascades := kv_setex now (cascades db) (lower tid) (ceil_sec CASCADE_TTL_MS)
          \<lparr>ranked = rs, position = 0, startedAt = now\<rparr>\<rparr>"

definition getCascade :: "a2a_db \<Rightarrow> int \<Rightarrow> string \<Rightarrow> task_cascade option" where
  "getCascade db now tid = kv_get now (cascades db) (lower tid)"

definition advanceCascade :: "a2a_db \<Rightarrow> int \<Rightarrow> string \<Rightarrow> (cascade_entry \<times> nat) option \<times> a2a_db" where
  "advanceCascade db now tid =
     (case kv_get now (cascades db) (lower tid) of
        None \<Rightarrow> (None, db)
      | Some c \<Rightarrow>
          let nextPos = position c + 1 in
          if length (ranked c) \<le> nextPos
          then (None, db\<lparr>cascades := kv_del (cascades db) (lower tid)\<rparr>)
          else (Some (ranked c ! nextPos, nextPos),
                db\<lparr>cascades := kv_setex now (cascades db) (lower tid) (ceil_sec CASCADE_TTL_MS)
                     (c\<lparr>position := nextPos\<rparr>)\<rparr>))"

definition clearCascade :: "a2a_db \<Rightarrow> string \<Rightarrow> a2a_db" where
  "clearCascade db tid = db\<lparr>cascades := kv_del (cascades db) (lower tid)\<rparr>"

section \<open>The accept lock and its attempts\<close>

definition ACCEPT_LOCK_TTL_S :: int where
  "ACCEPT_LOCK_TTL_S = 30"

definition ATTEMPT_STREAM_TTL_S :: int where
  "ATTEMPT_STREAM_TTL_S = 86400"

definition ACCEPT_ATTEMPT_STREAM_MAXLEN :: nat where
  "ACCEPT_ATTEMPT_STREAM_MAXLEN = 200"

definition acceptLockValue :: "string \<Rightarrow> string \<Rightarrow> string" where
  "acceptLockValue agent token = lower agent @ ''|'' @ token"

definition acquireAcceptLock :: "a2a_db \<Rightarrow> int \<Rightarrow> string \<Rightarrow> string \<Rightarrow> string \<Rightarrow> bool \<times> a2a_db" where
  "acquireAcceptLock db now tid agent token =
     (let r = kv_setnx now (accept_locks db) (lower tid) (Some ACCEPT_LOCK_TTL_S)
                (acceptLockValue agent token)
      in (fst r, db\<lparr>accept_locks := snd r\<rparr>))"

definition releaseAcceptLock :: "a2a_db \<Rightarrow> int \<Rightarrow> string \<Rightarrow> string \<Rightarrow> string \<Rightarrow> bool \<times> a2a_db" where
  "releaseAcceptLock db now tid agent token =
     (let r = kv_cad now (accept_locks db) (lower tid) (acceptLockValue agent token)
      in (fst r, db\<lparr>accept_locks := snd r\<rparr>))"

definition extendAcceptLock :: "a2a_db \<Rightarrow> int \<Rightarrow> string \<Rightarrow> string \<Rightarrow> string \<Rightarrow> bool \<times> a2a_db" where
  "extendAcceptLock db now tid agent token =
     (let r = kv_cae now (accept_locks db) (lower tid) ACCEPT_LOCK_TTL_S
                (acceptLockValue agent token)
      in (fst r, db\<lparr>accept_locks := snd r\<rparr>))"

text \<open>
  The stream is trimmed to about its maximum length: \<open>kept\<close> is how many entries the server
  left, at least that many when there are so many.
\<close>

definition logAcceptAttempt ::
  "a2a_db \<Rightarrow> int \<Rightarrow> string \<Rightarrow> string \<Rightarrow> string \<Rightarrow> nat \<Rightarrow> a2a_db" where
  "logAcceptAttempt db now tid agent res kept =
     (let old = (case kv_get now (accept_attempts db) (lower tid) of None \<Rightarrow> [] | Some xs \<Rightarrow> xs);
          new = old @ [\<lparr>agent_id = agent, result = res, ts = now\<rparr>];
          left = drop (length new - max kept ACCEPT_ATTEMPT_STREAM_MAXLEN) new
      in db\<lparr>accept_attempts :=
           kv_setex now (accept_attempts db) (lower tid) ATTEMPT_STREAM_TTL_S left\<rparr>)"

definition getAcceptAttempts :: "a2a_db \<Rightarrow> int \<Rightarrow> string \<Rightarrow> accept_attempt list" where
  "getAcceptAttempts db now tid =
     (case kv_get now (accept_attempts db) (lower tid) of None \<Rightarrow> [] | Some xs \<Rightarrow> xs)"

section \<open>Settlement deadlines and assign transactions\<close>

definition SETTLEMENT_DEADLINE_TTL_S :: int where
  "SETTLEMENT_DEADLINE_TTL_S = 120"

definition ASSIGN_RECONCILED_TTL_S :: int where
  "ASSIGN_RECONCILED_TTL_S = 7 * 24 * 60 * 60"

definition startSettlementDeadline :: "a2a_db \<Rightarrow> int \<Rightarrow> string \<Rightarrow> a2a_db" where
  "startSettlementDeadline db now tid =
     db\<lparr>settlement_deadlines :=
          kv_setex now (settlement_deadlines db) (lower tid) SETTLEMENT_DEADLINE_TTL_S ''pending''\<rparr>"

definition clearSettlementDeadline :: "a2a_db \<Rightarrow> string \<Rightarrow> a2a_db" where
  "clearSettlementDeadline db tid =
     db\<lparr>settlement_deadlines := kv_del (settlement_deadlines db) (lower tid)\<rparr>"

definition getSettlementDeadlineTTL :: "a2a_db \<Rightarrow> int \<Rightarrow> string \<Rightarrow> int" where
  "getSettlementDeadlineTTL db now tid = kv_ttl now (settlement_deadlines db) (lower tid)"

definition markAssignReconciled :: "a2a_db \<Rightarrow> int \<Rightarrow> string \<Rightarrow> string \<Rightarrow> a2a_db" where
  "markAssignReconciled db now tid tx =
     db\<lparr>assign_reconciled :=
          kv_setex now (assign_reconciled db) (lower tid) ASSIGN_RECONCILED_TTL_S (lower tx)\<rparr>"

definition isAssignReconciled :: "a2a_db \<Rightarrow> int \<Rightarrow> string \<Rightarrow> string \<Rightarrow> bool" where
  "isAssignReconciled db now tid tx \<longleftrightarrow>
     kv_get now (assign_reconciled db) (lower tid) = Some (lower tx)"

definition markAssignBroadcast :: "a2a_db \<Rightarrow> int \<Rightarrow> string \<Rightarrow> string \<Rightarrow> int \<Rightarrow> a2a_db" where
  "markAssignBroadcast db now tid tx atMs =
     db\<lparr>assign_broadcast :=
          kv_setex now (assign_broadcast db) (lower tid) ASSIGN_RECONCILED_TTL_S
            (lower tx @ '':'' @ show_int atMs)\<rparr>"

text \<open>The first two parts of \<open>raw.split(':')\<close>; the second is absent without a colon.\<close>

definition split_colon :: "string \<Rightarrow> string \<times> string option" where
  "split_colon raw =
     (let rest = dropWhile (\<lambda>c. c \<noteq> CHR '':'') raw in
      (takeWhile (\<lambda>c. c \<noteq> CHR '':'') raw,
       case rest of [] \<Rightarrow> None | _ # cs \<Rightarrow> Some (takeWhile (\<lambda>c. c \<noteq> CHR '':'') cs)))"

definition getAssignBroadcastAt :: "a2a_db \<Rightarrow> int \<Rightarrow> string \<Rightarrow> string \<Rightarrow> int option" where
  "getAssignBroadcastAt db now tid tx =
     (case kv_get now (assign_broadcast db) (lower tid) of
        None \<Rightarrow> None
      | Some raw \<Rightarrow>
          let p = split_colon raw in
          (case Option.bind (snd p) parse_decimal of
             None \<Rightarrow> None
           | Some ms \<Rightarrow> if fst p = lower tx \<and> 0 < ms then Some (int ms) else None))"

end
