(* ===== verification/Interfaces.thy ===== *)
theory Interfaces
  imports Prelude
begin

text \<open>
  The contracts the stores promise their callers, as locales: a key that records who holds it
  (task-hash claims, accept locks), and a compare-and-set on a task's status (accept, expire,
  close, release). Each is proved sufficient here for what the routes and the sweeps rely on,
  and interpreted on the model's own operations in the theories of the stores.
\<close>

section \<open>Keys that record their holder\<close>

text \<open>
  A holder is a request: an address together with the token that names the request. \<open>wf\<close>
  restricts the holders to those whose recorded value is unambiguous.
\<close>

locale owned_key =
  fixes holds :: "'s \<Rightarrow> int \<Rightarrow> 'k \<Rightarrow> 'who \<Rightarrow> bool"
    and take_key :: "'s \<Rightarrow> int \<Rightarrow> 'k \<Rightarrow> 'who \<Rightarrow> bool \<times> 's"
    and drop_key :: "'s \<Rightarrow> int \<Rightarrow> 'k \<Rightarrow> 'who \<Rightarrow> bool \<times> 's"
    and wf :: "'who \<Rightarrow> bool"
    and ttl_ms :: int
  assumes holder_unique: "wf a \<Longrightarrow> wf b \<Longrightarrow> holds s t k a \<Longrightarrow> holds s t k b \<Longrightarrow> a = b"
    and take_holds: "fst (take_key s t k a) \<Longrightarrow>
      holds (snd (take_key s t k a)) t' k a \<longleftrightarrow> t' < t + ttl_ms"
    and take_refused: "\<not> fst (take_key s t k a) \<Longrightarrow> snd (take_key s t k a) = s"
    and drop_iff: "fst (drop_key s t k a) \<longleftrightarrow> holds s t k a"
    and drop_frees: "holds s t k a \<Longrightarrow> \<not> holds (snd (drop_key s t k a)) t' k b"
    and drop_foreign: "\<not> holds s t k a \<Longrightarrow> snd (drop_key s t k a) = s"
begin

fun drops :: "'s \<Rightarrow> int \<Rightarrow> 'k \<Rightarrow> 'who list \<Rightarrow> 's" where
  "drops s t k [] = s"
| "drops s t k (b # bs) = drops (snd (drop_key s t k b)) t k bs"

text \<open>However many other requests release, the holder keeps the key.\<close>

lemma foreign_drops:
  "wf a \<Longrightarrow> holds s t k a \<Longrightarrow> \<forall>b \<in> set bs. wf b \<and> b \<noteq> a \<Longrightarrow> drops s t k bs = s"
proof (induction bs)
  case (Cons b bs)
  then have "\<not> holds s t k b" using holder_unique by fastforce
  with Cons show ?case by (simp add: drop_foreign)
qed simp

lemma drop_twice: "fst (drop_key s t k a) \<Longrightarrow> \<not> fst (drop_key (snd (drop_key s t k a)) t' k b)"
  by (simp add: drop_iff drop_frees)

lemma take_then_drop:
  "fst (take_key s t k a) \<Longrightarrow> t' < t + ttl_ms \<Longrightarrow> fst (drop_key (snd (take_key s t k a)) t' k a)"
  by (simp add: drop_iff take_holds)

text \<open>A request that outlived its hold releases nothing, whoever holds the key by then.\<close>

lemma late_drop:
  assumes took: "fst (take_key s t k a)" and late: "t + ttl_ms \<le> t'"
    and later: "fst (take_key (snd (take_key s t k a)) t' k b)"
    and wf: "wf a" "wf b" "a \<noteq> b" and pos: "0 < ttl_ms"
  shows "\<not> fst (drop_key (snd (take_key (snd (take_key s t k a)) t' k b)) t' k a)"
proof -
  have "holds (snd (take_key (snd (take_key s t k a)) t' k b)) t' k b"
    using later pos by (simp add: take_holds)
  then show ?thesis using wf holder_unique by (auto simp: drop_iff)
qed

end

text \<open>A lock: it is taken only while nobody holds it.\<close>

locale exclusive_key = owned_key +
  assumes take_free: "holds s t k b \<Longrightarrow> \<not> fst (take_key s t k a)"
begin

lemma mutual_exclusion:
  assumes "fst (take_key s t k a)" and "t \<le> t'" and "t' < t + ttl_ms"
  shows "\<not> fst (take_key (snd (take_key s t k a)) t' k b)"
  using assms take_holds take_free by metis

lemma handover:
  assumes "fst (take_key s t k a)" and "0 < ttl_ms"
    and free: "\<And>s b. \<forall>c. \<not> holds s t k c \<Longrightarrow> fst (take_key s t k b)"
  shows "fst (take_key (snd (drop_key (snd (take_key s t k a)) t k a)) t k b)"
proof (rule free, rule allI)
  fix c
  have "holds (snd (take_key s t k a)) t k a" using assms by (simp add: take_holds)
  then show "\<not> holds (snd (drop_key (snd (take_key s t k a)) t k a)) t k c"
    by (rule drop_frees)
qed

end

text \<open>A claim: the owner it names may take it again under another request, nobody else.\<close>

locale claim_key = owned_key holds take_key drop_key wf ttl_ms
  for holds :: "'s \<Rightarrow> int \<Rightarrow> 'k \<Rightarrow> 'who \<Rightarrow> bool"
    and take_key drop_key wf ttl_ms +
  fixes owner :: "'who \<Rightarrow> 'o"
  assumes take_foreign: "wf b \<Longrightarrow> wf a \<Longrightarrow> holds s t k b \<Longrightarrow>
    fst (take_key s t k a) \<longleftrightarrow> owner a = owner b"
begin

lemma not_stolen:
  assumes "wf a" "wf b" "fst (take_key s t k a)" "owner b \<noteq> owner a" "t' < t + ttl_ms"
  shows "\<not> fst (take_key (snd (take_key s t k a)) t' k b)"
  using assms take_holds take_foreign by metis

text \<open>
  Only the last request to build on a claim can release it: a retry of the same owner takes
  the claim over, and the earlier request's release then drops nothing.
\<close>

lemma last_request_releases:
  assumes wf: "wf a" "wf b" "a \<noteq> b" "owner a = owner b"
    and took: "fst (take_key s t k a)" and t': "t' < t + ttl_ms" and pos: "0 < ttl_ms"
  defines "s1 \<equiv> snd (take_key s t k a)"
  defines "s2 \<equiv> snd (take_key s1 t' k b)"
  shows "fst (take_key s1 t' k b)"
    and "snd (drop_key s2 t' k a) = s2"
    and "fst (drop_key s2 t' k b)"
proof -
  have "holds s1 t' k a" using took t' by (simp add: s1_def take_holds)
  with wf show b: "fst (take_key s1 t' k b)" by (simp add: take_foreign)
  then have hb: "holds s2 t' k b" using pos by (simp add: s2_def take_holds)
  then show "fst (drop_key s2 t' k b)" by (simp add: drop_iff)
  from hb wf have "\<not> holds s2 t' k a" using holder_unique by blast
  then show "snd (drop_key s2 t' k a) = s2" by (rule drop_foreign)
qed

end

section \<open>Compare-and-set on a status\<close>

text \<open>
  An attempt reads a task's record and, when it is enabled there, moves its status to the
  caller's target. \<open>slot\<close> names the record a task id resolves to.
\<close>

locale status_cas =
  fixes slot :: "'s \<Rightarrow> 'k \<Rightarrow> 'slot option"
    and status_of :: "'s \<Rightarrow> 'k \<Rightarrow> 'st option"
    and attempt :: "'c \<Rightarrow> 's \<Rightarrow> 'k \<Rightarrow> bool \<times> 's"
    and enabled :: "'c \<Rightarrow> 's \<Rightarrow> 'k \<Rightarrow> bool"
    and source :: "'st \<Rightarrow> bool"
    and target :: "'c \<Rightarrow> 'st"
  assumes wins_iff: "fst (attempt c s k) \<longleftrightarrow> enabled c s k"
    and lost_unchanged: "\<not> enabled c s k \<Longrightarrow> snd (attempt c s k) = s"
    and won_status: "enabled c s k \<Longrightarrow> status_of (snd (attempt c s k)) k = Some (target c)"
    and enabled_source: "enabled c s k \<Longrightarrow> \<exists>st. status_of s k = Some st \<and> source st"
    and target_leaves: "\<not> source (target c)"
    and other_slot: "slot s k \<noteq> slot s k' \<Longrightarrow>
      status_of (snd (attempt c s k)) k' = status_of s k'"
begin

fun race :: "'c list \<Rightarrow> 's \<Rightarrow> 'k \<Rightarrow> bool list \<times> 's" where
  "race [] s k = ([], s)"
| "race (c # cs) s k =
     (let r = attempt c s k; rest = race cs (snd r) k in (fst r # fst rest, snd rest))"

lemma done_stays:
  "\<forall>st. status_of s k = Some st \<longrightarrow> \<not> source st \<Longrightarrow>
   fst (race cs s k) = replicate (length cs) False \<and> snd (race cs s k) = s"
proof (induction cs)
  case (Cons c cs)
  then have "\<not> enabled c s k" using enabled_source by blast
  then have "fst (attempt c s k) = False" "snd (attempt c s k) = s"
    by (simp_all add: wins_iff lost_unchanged)
  with Cons show ?case by (simp add: Let_def)
qed simp

text \<open>Of any number of callers racing on one task, in any order, at most one wins.\<close>

lemma at_most_one_winner: "length (filter id (fst (race cs s k))) \<le> 1"
proof (induction cs arbitrary: s)
  case (Cons c cs)
  show ?case
  proof (cases "enabled c s k")
    case True
    then have "status_of (snd (attempt c s k)) k = Some (target c)" by (rule won_status)
    then have "fst (race cs (snd (attempt c s k)) k) = replicate (length cs) False"
      using done_stays target_leaves by fastforce
    with True show ?thesis by (simp add: Let_def wins_iff)
  next
    case False
    then have "fst (attempt c s k) = False" "snd (attempt c s k) = s"
      by (simp_all add: wins_iff lost_unchanged)
    with Cons show ?thesis by (simp add: Let_def)
  qed
qed simp

text \<open>The first caller the task is open to wins, everyone else loses, and its write stands.\<close>

lemma first_enabled_wins:
  assumes "enabled c s k"
  shows "fst (race (c # cs) s k) = True # replicate (length cs) False"
    and "snd (race (c # cs) s k) = snd (attempt c s k)"
proof -
  have "status_of (snd (attempt c s k)) k = Some (target c)"
    using assms by (rule won_status)
  then have "fst (race cs (snd (attempt c s k)) k) = replicate (length cs) False"
    "snd (race cs (snd (attempt c s k)) k) = snd (attempt c s k)"
    using done_stays [of "snd (attempt c s k)" k cs] target_leaves by auto
  with assms show "fst (race (c # cs) s k) = True # replicate (length cs) False"
    "snd (race (c # cs) s k) = snd (attempt c s k)"
    by (simp_all add: Let_def wins_iff)
qed

end

section \<open>Values written once\<close>

text \<open>
  A write takes effect only while the key has no value; \<open>lives t t'\<close> says whether a value
  written at \<open>t\<close> is still there at \<open>t'\<close>. \<open>stored\<close> is what a write keeps of the value given.
\<close>

locale once_key =
  fixes read :: "'s \<Rightarrow> int \<Rightarrow> 'k \<Rightarrow> 'v option"
    and write_once :: "'s \<Rightarrow> int \<Rightarrow> 'k \<Rightarrow> 'v \<Rightarrow> bool \<times> 's"
    and lives :: "int \<Rightarrow> int \<Rightarrow> bool"
    and stored :: "'v \<Rightarrow> 'v"
  assumes write_iff: "fst (write_once s t k v) \<longleftrightarrow> read s t k = None"
    and write_reads: "read s t k = None \<Longrightarrow> lives t t' \<Longrightarrow>
      read (snd (write_once s t k v)) t' k = Some (stored v)"
    and write_refused: "read s t k \<noteq> None \<Longrightarrow> snd (write_once s t k v) = s"
begin

fun writes :: "'s \<Rightarrow> 'k \<Rightarrow> (int \<times> 'v) list \<Rightarrow> bool list \<times> 's" where
  "writes s k [] = ([], s)"
| "writes s k (w # ws) =
     (let r = write_once s (fst w) k (snd w); rest = writes (snd r) k ws
      in (fst r # fst rest, snd rest))"

lemma written_stays:
  "\<forall>w \<in> set ws. read s (fst w) k \<noteq> None \<Longrightarrow>
   writes s k ws = (replicate (length ws) False, s)"
proof (induction ws)
  case (Cons w ws)
  then have "fst (write_once s (fst w) k (snd w)) = False" "snd (write_once s (fst w) k (snd w)) = s"
    using write_iff write_refused by simp_all
  with Cons show ?case by (simp add: Let_def)
qed simp

text \<open>Of any writes to an unset key, the first is the one that is read as long as it lives.\<close>

lemma first_write_stands:
  assumes "read s t k = None" "\<forall>w \<in> set ws. lives t (fst w)" "lives t t'"
  shows "fst (writes s k ((t, v) # ws)) = True # replicate (length ws) False"
    and "read (snd (writes s k ((t, v) # ws))) t' k = Some (stored v)"
proof -
  let ?s = "snd (write_once s t k v)"
  have "\<forall>w \<in> set ws. read ?s (fst w) k \<noteq> None"
    using assms write_reads by simp
  then have ws: "writes ?s k ws = (replicate (length ws) False, ?s)" by (rule written_stays)
  show "fst (writes s k ((t, v) # ws)) = True # replicate (length ws) False"
    "read (snd (writes s k ((t, v) # ws))) t' k = Some (stored v)"
    using ws assms write_reads write_iff by (simp_all add: Let_def)
qed

end

end
