(* ===== verification/TaskStoreCas.thy ===== *)
theory TaskStoreCas
  imports TaskStore Interfaces
begin

text \<open>
  The laws of the task store's atomic operations: the accept lock and the task-hash claims as
  interpretations of the holder contracts, the scripts as interpretations of the
  compare-and-set contract.
\<close>

section \<open>Claims and locks\<close>

lemma claim_holder_value [simp]:
  "CHR ''|'' \<notin> set addr \<Longrightarrow> claim_holder (claim_value addr token) = addr"
  unfolding claim_holder_def claim_value_def append_Cons append_Nil
  by (rule takeWhile_append_stop) auto

lemma claim_value_inject:
  assumes "CHR ''|'' \<notin> set a" "CHR ''|'' \<notin> set b"
  shows "claim_value a x = claim_value b y \<longleftrightarrow> a = b \<and> x = y"
proof
  assume eq: "claim_value a x = claim_value b y"
  have "a = claim_holder (claim_value a x)" using assms(1) by simp
  also have "\<dots> = claim_holder (claim_value b y)" using eq by (simp only:)
  also have "\<dots> = b" using assms(2) by simp
  finally have ab: "a = b" .
  from eq have "b @ ''|'' @ x = b @ ''|'' @ y" by (simp only: claim_value_def ab)
  then have "x = y" by (simp only: same_append_eq append_Cons append_Nil list.inject)
  with ab show "a = b \<and> x = y" ..
qed simp

lemma bar_lower [simp]: "CHR ''|'' \<in> set (lower s) \<longleftrightarrow> CHR ''|'' \<in> set s"
  by (rule mem_lower_other) (simp_all add: upper_letters_def lower_letters_def)

text \<open>A request: the lowercased address it acts for, with no bar in it, and its token.\<close>

type_synonym request = "string \<times> string"

definition request_wf :: "request \<Rightarrow> bool" where
  "request_wf r \<longleftrightarrow> CHR ''|'' \<notin> set (fst r) \<and> lower (fst r) = fst r"

definition lock_held :: "a2a_db \<Rightarrow> int \<Rightarrow> string \<Rightarrow> request \<Rightarrow> bool" where
  "lock_held db now tid r \<longleftrightarrow>
     kv_get now (accept_locks db) (lower tid) = Some (acceptLockValue (fst r) (snd r))"

definition claim_held :: "a2a_db \<Rightarrow> int \<Rightarrow> string \<Rightarrow> request \<Rightarrow> bool" where
  "claim_held db now hash r \<longleftrightarrow>
     kv_get now (hash_claims db) (lower hash) = Some (claim_value (lower (fst r)) (snd r))"

abbreviation acquire_lock :: "a2a_db \<Rightarrow> int \<Rightarrow> string \<Rightarrow> request \<Rightarrow> bool \<times> a2a_db" where
  "acquire_lock db now tid r \<equiv> acquireAcceptLock db now tid (fst r) (snd r)"

abbreviation release_lock :: "a2a_db \<Rightarrow> int \<Rightarrow> string \<Rightarrow> request \<Rightarrow> bool \<times> a2a_db" where
  "release_lock db now tid r \<equiv> releaseAcceptLock db now tid (fst r) (snd r)"

definition take_claim :: "a2a_db \<Rightarrow> int \<Rightarrow> string \<Rightarrow> request \<Rightarrow> bool \<times> a2a_db" where
  "take_claim db now hash r =
     (let c = claimTaskHash db now hash (fst r) (snd r) in (mine (fst c), snd c))"

abbreviation drop_claim :: "a2a_db \<Rightarrow> int \<Rightarrow> string \<Rightarrow> request \<Rightarrow> bool \<times> a2a_db" where
  "drop_claim db now hash r \<equiv> releaseTaskHashClaim db now hash (fst r) (snd r)"

lemma acceptLockValue_claim: "acceptLockValue a t = claim_value (lower a) t"
  by (simp add: acceptLockValue_def claim_value_def)

lemma request_value_inject:
  "request_wf a \<Longrightarrow> request_wf b \<Longrightarrow>
   claim_value (fst a) (snd a) = claim_value (fst b) (snd b) \<longleftrightarrow> a = b"
  by (auto simp: request_wf_def claim_value_inject prod_eq_iff)

interpretation lock: exclusive_key lock_held acquire_lock release_lock request_wf
  "1000 * ACCEPT_LOCK_TTL_S"
proof unfold_locales
  fix s t t' k and a b :: request
  show "request_wf a \<Longrightarrow> request_wf b \<Longrightarrow> lock_held s t k a \<Longrightarrow> lock_held s t k b \<Longrightarrow> a = b"
    using request_value_inject [of a b]
    by (auto simp: lock_held_def acceptLockValue_claim request_wf_def)
  show "fst (acquire_lock s t k a) \<Longrightarrow>
      lock_held (snd (acquire_lock s t k a)) t' k a = (t' < t + 1000 * ACCEPT_LOCK_TTL_S)"
    by (auto simp: acquireAcceptLock_def lock_held_def kv_setnx_def kv_get_def Let_def split: if_splits)
  show "\<not> fst (acquire_lock s t k a) \<Longrightarrow> snd (acquire_lock s t k a) = s"
    by (auto simp: acquireAcceptLock_def kv_setnx_def Let_def split: if_splits)
  show "fst (release_lock s t k a) = lock_held s t k a"
    by (simp add: releaseAcceptLock_def lock_held_def redis_simps)
  show "lock_held s t k a \<Longrightarrow> \<not> lock_held (snd (release_lock s t k a)) t' k b"
    by (simp add: releaseAcceptLock_def lock_held_def redis_simps)
  show "\<not> lock_held s t k a \<Longrightarrow> snd (release_lock s t k a) = s"
    by (simp add: releaseAcceptLock_def lock_held_def kv_cad_def Let_def)
  show "lock_held s t k b \<Longrightarrow> \<not> fst (acquire_lock s t k a)"
    by (simp add: acquireAcceptLock_def lock_held_def redis_simps)
qed

interpretation claim: claim_key claim_held take_claim drop_claim request_wf
  "1000 * HASH_CLAIM_TTL_SECONDS" fst
proof unfold_locales
  fix s t t' k and a b :: request
  show "request_wf a \<Longrightarrow> request_wf b \<Longrightarrow> claim_held s t k a \<Longrightarrow> claim_held s t k b \<Longrightarrow> a = b"
    using request_value_inject [of a b] by (auto simp: claim_held_def request_wf_def)
  show "fst (take_claim s t k a) \<Longrightarrow>
      claim_held (snd (take_claim s t k a)) t' k a = (t' < t + 1000 * HASH_CLAIM_TTL_SECONDS)"
    by (auto simp: take_claim_def claimTaskHash_def claim_held_def redis_simps Let_def
      split: option.splits if_splits)
  show "\<not> fst (take_claim s t k a) \<Longrightarrow> snd (take_claim s t k a) = s"
    by (auto simp: take_claim_def claimTaskHash_def Let_def split: option.splits if_splits)
  show "fst (drop_claim s t k a) = claim_held s t k a"
    by (simp add: releaseTaskHashClaim_def claim_held_def redis_simps)
  show "claim_held s t k a \<Longrightarrow> \<not> claim_held (snd (drop_claim s t k a)) t' k b"
    by (simp add: releaseTaskHashClaim_def claim_held_def redis_simps)
  show "\<not> claim_held s t k a \<Longrightarrow> snd (drop_claim s t k a) = s"
    by (simp add: releaseTaskHashClaim_def claim_held_def kv_cad_def Let_def)
  show "request_wf b \<Longrightarrow> request_wf a \<Longrightarrow> claim_held s t k b \<Longrightarrow>
      fst (take_claim s t k a) = (fst a = fst b)"
    by (auto simp: take_claim_def claimTaskHash_def claim_held_def request_wf_def Let_def)
qed

section \<open>Resolving a state\<close>

lemma find_state_key: "find_state db tid = Some (k, s) \<Longrightarrow> states db k = Some s \<and> lower k = lower tid"
  by (auto simp: find_state_def split: option.splits if_splits)

lemma find_state_put [simp]:
  "find_state db tid = Some (k, s) \<Longrightarrow> find_state (put_state db k s') tid = Some (k, s')"
  by (auto simp: find_state_def put_state_def split: option.splits if_splits)

lemma find_state_put_other:
  "states db k \<noteq> None \<Longrightarrow> map_option fst (find_state db tid) \<noteq> Some k \<Longrightarrow>
   find_state (put_state db k s') tid = find_state db tid"
  by (auto simp: find_state_def put_state_def split: option.splits if_splits)

text \<open>The other fields of the store do not matter to the resolution.\<close>

lemma find_state_cong: "states db' = states db \<Longrightarrow> find_state db' tid = find_state db tid"
  by (simp add: find_state_def split: option.split)

definition state_slot :: "a2a_db \<Rightarrow> string \<Rightarrow> string option" where
  "state_slot db tid = map_option fst (find_state db tid)"

definition status_of :: "a2a_db \<Rightarrow> string \<Rightarrow> status option" where
  "status_of db tid = map_option (status \<circ> snd) (find_state db tid)"

lemma status_of_put_other:
  assumes "states db' = (states db)(k \<mapsto> s')" "find_state db tid = Some (k, s)"
    and "state_slot db tid \<noteq> state_slot db tid'"
  shows "status_of db' tid' = status_of db tid'"
proof -
  have "find_state db' tid' = find_state (put_state db k s') tid'"
    by (rule find_state_cong) (simp add: assms(1) put_state_def)
  also have "\<dots> = find_state db tid'"
    using assms find_state_key [OF assms(2)]
    by (intro find_state_put_other) (auto simp: state_slot_def)
  finally show ?thesis by (simp add: status_of_def)
qed

lemma status_of_put_same:
  assumes "states db' = (states db)(k \<mapsto> s')" "find_state db tid = Some (k, s)"
  shows "status_of db' tid = Some (status s')"
proof -
  have "find_state db' tid = find_state (put_state db k s') tid"
    by (rule find_state_cong) (simp add: assms(1) put_state_def)
  with assms(2) show ?thesis by (simp add: status_of_def)
qed

section \<open>Racing on an open task\<close>

text \<open>The two writers that race on an open task: an accept, and the expiry sweep.\<close>

datatype open_attempt = TryAccept string int | TryExpire expire_reason

fun open_attempt_run :: "open_attempt \<Rightarrow> a2a_db \<Rightarrow> string \<Rightarrow> bool \<times> a2a_db" where
  "open_attempt_run (TryAccept executor atMs) db tid =
     (let r = accept_script db tid executor atMs in (won (fst r), snd r))"
| "open_attempt_run (TryExpire reason) db tid =
     (let r = tryExpire db tid reason in (won (fst r), snd r))"

fun open_attempt_target :: "open_attempt \<Rightarrow> status" where
  "open_attempt_target (TryAccept _ _) = Accepted"
| "open_attempt_target (TryExpire _) = Failed"

lemma open_attempt_open:
  "find_state db tid = Some (k, s) \<Longrightarrow> status s = Open \<Longrightarrow>
   fst (open_attempt_run c db tid) \<and>
   (\<exists>s'. states (snd (open_attempt_run c db tid)) = (states db)(k \<mapsto> s') \<and>
         status s' = open_attempt_target c)"
  by (cases c) (auto simp: accept_script_def tryExpire_def put_state_def Let_def)

lemma open_attempt_closed:
  "status_of db tid \<noteq> Some Open \<Longrightarrow> open_attempt_run c db tid = (False, db)"
  by (cases c) (auto simp: accept_script_def tryExpire_def status_of_def Let_def split: option.splits)

interpretation open_cas: status_cas state_slot status_of open_attempt_run
  "\<lambda>c db tid. status_of db tid = Some Open" "\<lambda>st. st = Open" open_attempt_target
proof unfold_locales
  fix c s k k'
  show "fst (open_attempt_run c s k) = (status_of s k = Some Open)"
    using open_attempt_open open_attempt_closed by (fastforce simp: status_of_def)
  show "status_of s k \<noteq> Some Open \<Longrightarrow> snd (open_attempt_run c s k) = s"
    by (simp add: open_attempt_closed)
  show "status_of s k = Some Open \<Longrightarrow>
      status_of (snd (open_attempt_run c s k)) k = Some (open_attempt_target c)"
    using open_attempt_open status_of_put_same by (fastforce simp: status_of_def)
  show "status_of s k = Some Open \<Longrightarrow> \<exists>st. status_of s k = Some st \<and> st = Open"
    by simp
  show "open_attempt_target c \<noteq> Open" by (cases c) auto
  show "state_slot s k \<noteq> state_slot s k' \<Longrightarrow>
      status_of (snd (open_attempt_run c s k)) k' = status_of s k'"
  proof (cases "status_of s k = Some Open")
    case True
    assume slots: "state_slot s k \<noteq> state_slot s k'"
    from True obtain key st where "find_state s k = Some (key, st)" "status st = Open"
      by (auto simp: status_of_def)
    with open_attempt_open [OF this] slots show ?thesis
      using status_of_put_other by blast
  qed (simp add: open_attempt_closed)
qed

text \<open>Any number of attempts in the order they reach the server.\<close>

fun run_open_attempts :: "open_attempt list \<Rightarrow> a2a_db \<Rightarrow> string \<Rightarrow> bool list \<times> a2a_db" where
  "run_open_attempts [] db tid = ([], db)"
| "run_open_attempts (c # cs) db tid =
     (let r = open_attempt_run c db tid; rest = run_open_attempts cs (snd r) tid
      in (fst r # fst rest, snd rest))"

lemma run_open_attempts_race: "run_open_attempts cs db tid = open_cas.race cs db tid"
  by (induction cs arbitrary: db) (simp_all add: Let_def)

section \<open>Closing and releasing a task in someone's hands\<close>

definition close_attempt :: "close_reason \<times> string option \<Rightarrow> a2a_db \<Rightarrow> string \<Rightarrow> bool \<times> a2a_db" where
  "close_attempt c db tid =
     (let r = close_script db tid (fst c) (snd c) in (won (fst r), snd r))"

interpretation close_cas: status_cas state_slot status_of close_attempt
  "\<lambda>c db tid. \<exists>st. status_of db tid = Some st \<and> \<not> terminal st" "\<lambda>st. \<not> terminal st" "\<lambda>_. Failed"
proof unfold_locales
  fix c s k k'
  show "fst (close_attempt c s k) = (\<exists>st. status_of s k = Some st \<and> \<not> terminal st)"
    by (auto simp: close_attempt_def close_script_def status_of_def Let_def split: option.splits)
  show lost: "\<nexists>st. status_of s k = Some st \<and> \<not> terminal st \<Longrightarrow> snd (close_attempt c s k) = s"
    by (auto simp: close_attempt_def close_script_def status_of_def Let_def split: option.splits)
  have put: "\<exists>s'. states (snd (close_attempt c s k)) = (states s)(key \<mapsto> s') \<and> status s' = Failed"
    if "find_state s k = Some (key, st)" "\<not> terminal (status st)" for key st
    using that by (auto simp: close_attempt_def close_script_def put_state_def Let_def)
  show "\<exists>st. status_of s k = Some st \<and> \<not> terminal st \<Longrightarrow>
      status_of (snd (close_attempt c s k)) k = Some Failed"
    using put status_of_put_same by (fastforce simp: status_of_def)
  show "\<not> \<not> terminal Failed" by (simp add: terminal_def)
  show "status_of (snd (close_attempt c s k)) k' = status_of s k'"
    if slots: "state_slot s k \<noteq> state_slot s k'"
  proof (cases "\<exists>st. status_of s k = Some st \<and> \<not> terminal st")
    case True
    then obtain key st where "find_state s k = Some (key, st)" "\<not> terminal (status st)"
      by (auto simp: status_of_def)
    with put [OF this] slots show ?thesis using status_of_put_other by blast
  qed (simp add: lost)
qed auto

definition release_attempt :: "expected_state \<times> bool \<Rightarrow> a2a_db \<Rightarrow> string \<Rightarrow> bool \<times> a2a_db" where
  "release_attempt c db tid =
     (let r = release_script db tid (fst c) (snd c) in (won (fst r), snd r))"

lemma expected_not_open [simp]: "expected_status e \<noteq> Open"
  by (auto simp: expected_status_def split: option.splits elim: release_status.elims)

interpretation release_cas: status_cas state_slot status_of release_attempt
  "\<lambda>c :: expected_state \<times> bool. \<lambda>db tid.
     \<exists>k s. find_state db tid = Some (k, s) \<and> unchanged_since (fst c) s"
  "\<lambda>st. st \<noteq> Open" "\<lambda>_. Open"
proof unfold_locales
  fix c :: "expected_state \<times> bool" and s k k'
  let ?en = "\<exists>key st. find_state s k = Some (key, st) \<and> unchanged_since (fst c) st"
  show "fst (release_attempt c s k) = ?en"
    by (auto simp: release_attempt_def release_script_def Let_def split: option.splits)
  show lost: "\<not> ?en \<Longrightarrow> snd (release_attempt c s k) = s"
    by (auto simp: release_attempt_def release_script_def Let_def split: option.splits)
  have put: "\<exists>s'. states (snd (release_attempt c s k)) = (states s)(key \<mapsto> s') \<and> status s' = Open"
    if "find_state s k = Some (key, st)" "unchanged_since (fst c) st" for key st
    using that by (auto simp: release_attempt_def release_script_def put_state_def Let_def)
  show "?en \<Longrightarrow> status_of (snd (release_attempt c s k)) k = Some Open"
    using put status_of_put_same by fastforce
  show "?en \<Longrightarrow> \<exists>st. status_of s k = Some st \<and> st \<noteq> Open"
    by (auto simp: status_of_def unchanged_since_def)
  show "status_of (snd (release_attempt c s k)) k' = status_of s k'"
    if slots: "state_slot s k \<noteq> state_slot s k'"
  proof (cases ?en)
    case True
    then obtain key st where "find_state s k = Some (key, st)" "unchanged_since (fst c) st"
      by blast
    with put [OF this] slots show ?thesis using status_of_put_other by blast
  qed (simp add: lost)
qed auto

end
