(* ===== verification/TaskStoreIndex.thy ===== *)
theory TaskStoreIndex
  imports TaskStoreCas
begin

text \<open>
  The index invariants stated at the top of \<open>a2aStore.ts\<close>, over every interleaving of the
  store's writers. One writer call is one step; each is atomic, as the scripts are (and as
  \<open>setMeta\<close>, \<open>updateState\<close> and \<open>releaseToOpen\<close> are when nothing else writes between their read
  and their pipeline).
\<close>

section \<open>The invariant\<close>

definition executor_of :: "task_state \<Rightarrow> string option" where
  "executor_of s = map_option lower (truthy (executorAddress s))"

text \<open>What a task's mode says of its status: an open-submission task is never in one
  executor's hands, and only such a task collects.\<close>

definition mode_ok :: "task_meta \<Rightarrow> task_state \<Rightarrow> bool" where
  "mode_ok m s \<longleftrightarrow>
     (if submissionMode m = Some OpenSubmission then status s = Collecting \<or> terminal (status s)
      else status s \<noteq> Collecting)"

text \<open>A task nobody has taken names no executor.\<close>

definition untaken_ok :: "task_state \<Rightarrow> bool" where
  "untaken_ok s \<longleftrightarrow> (status s = Open \<or> status s = Collecting \<longrightarrow> executorAddress s = None)"

definition in_open_index :: "task_meta \<Rightarrow> task_state \<Rightarrow> bool" where
  "in_open_index m s \<longleftrightarrow> status s = Open \<and> targetExecutorType m = Agent"

definition index_ok :: "a2a_db \<Rightarrow> bool" where
  "index_ok db \<longleftrightarrow>
     (\<forall>k s. states db k = Some s \<longrightarrow>
        lower k = k \<and> stateTaskId s = k \<and> untaken_ok s \<and>
        (\<exists>m. metas db k = Some m \<and> mode_ok m s)) \<and>
     (\<forall>k m. metas db k = Some m \<longrightarrow> lower k = k \<and> states db k \<noteq> None) \<and>
     (\<forall>k. k \<in> open_ix db \<longleftrightarrow>
        (\<exists>s m. states db k = Some s \<and> metas db k = Some m \<and> in_open_index m s)) \<and>
     (\<forall>a k. a \<noteq> [] \<longrightarrow>
        (k \<in> executor_ix db a \<longleftrightarrow> (\<exists>s. states db k = Some s \<and> executor_of s = Some a)))"

lemma index_ok_empty: "index_ok empty_db"
  by (simp add: index_ok_def empty_db_def)

lemma index_ok_find:
  assumes "index_ok db"
  shows "find_state db tid = map_option (Pair (lower tid)) (states db (lower tid))"
proof -
  have "lower tid \<noteq> tid \<Longrightarrow> states db tid = None"
    using assms unfolding index_ok_def by (metis option.exhaust)
  then show ?thesis by (auto simp: find_state_def split: option.split)
qed

lemma index_ok_find_meta:
  assumes "index_ok db"
  shows "find_meta db tid = map_option (Pair (lower tid)) (metas db (lower tid))"
proof -
  have "lower tid \<noteq> tid \<Longrightarrow> metas db tid = None"
    using assms unfolding index_ok_def by (metis option.exhaust)
  then show ?thesis by (auto simp: find_meta_def split: option.split)
qed

lemma index_ok_state:
  assumes "index_ok db" "states db k = Some s"
  obtains m where "metas db k = Some m" "mode_ok m s" "untaken_ok s" "lower k = k" "stateTaskId s = k"
  using assms unfolding index_ok_def by blast

lemma index_ok_open:
  "index_ok db \<Longrightarrow> states db k = Some s \<Longrightarrow> metas db k = Some m \<Longrightarrow>
   k \<in> open_ix db \<longleftrightarrow> in_open_index m s"
  unfolding index_ok_def by fastforce

lemma index_ok_executor:
  "index_ok db \<Longrightarrow> a \<noteq> [] \<Longrightarrow>
   k \<in> executor_ix db a \<longleftrightarrow> (\<exists>s. states db k = Some s \<and> executor_of s = Some a)"
  unfolding index_ok_def by blast

text \<open>
  Every writer of an existing task does this: it replaces one state, sets the open index for
  that task, and leaves the executor index naming the task's executor.
\<close>

lemma index_ok_write:
  assumes ok: "index_ok db" and s: "states db k = Some s" and m: "metas db k = Some m"
    and states': "states db' = (states db)(k \<mapsto> s')" and metas': "metas db' = metas db"
    and open': "open_ix db' = (if in_open_index m s' then insert k (open_ix db) else open_ix db - {k})"
    and exec': "\<And>a j. a \<noteq> [] \<Longrightarrow> j \<in> executor_ix db' a \<longleftrightarrow>
      (if j = k then executor_of s' = Some a else j \<in> executor_ix db a)"
    and s': "stateTaskId s' = k" "untaken_ok s'" "mode_ok m s'"
  shows "index_ok db'"
proof -
  from ok s have k: "lower k = k" by (rule index_ok_state)
  have st: "lower j = j \<and> stateTaskId t = j \<and> untaken_ok t \<and>
      (\<exists>m. metas db' j = Some m \<and> mode_ok m t)" if "states db' j = Some t" for j t
  proof (cases "j = k")
    case True
    with that s' k m show ?thesis by (simp add: states' metas')
  next
    case False
    with that have "states db j = Some t" by (simp add: states')
    with ok show ?thesis unfolding index_ok_def metas' by blast
  qed
  moreover have "lower j = j \<and> states db' j \<noteq> None" if "metas db' j = Some n" for j n
    using ok that unfolding index_ok_def metas' states' by auto
  moreover have "j \<in> open_ix db' \<longleftrightarrow>
      (\<exists>t n. states db' j = Some t \<and> metas db' j = Some n \<and> in_open_index n t)" for j
  proof (cases "j = k")
    case True
    with m show ?thesis by (simp add: open' states' metas')
  next
    case False
    then have "j \<in> open_ix db' \<longleftrightarrow> j \<in> open_ix db" by (auto simp: open')
    with False ok show ?thesis unfolding index_ok_def states' metas' by auto
  qed
  moreover have "j \<in> executor_ix db' a \<longleftrightarrow> (\<exists>t. states db' j = Some t \<and> executor_of t = Some a)"
    if "a \<noteq> []" for a j
    using exec' [OF that, of j] index_ok_executor [OF ok that, of j] by (simp add: states')
  ultimately show ?thesis unfolding index_ok_def by blast
qed

section \<open>The writers keep it\<close>

lemma executor_of_None: "executorAddress s = None \<Longrightarrow> executor_of s = None"
  by (simp add: executor_of_def)

lemma executor_ix_of:
  assumes "index_ok db" "states db k = Some s" "a \<noteq> []"
  shows "k \<in> executor_ix db a \<longleftrightarrow> executor_of s = Some a"
  using index_ok_executor [OF assms(1,3), of k] assms(2) by simp

lemma move_executor_exact:
  assumes ok: "index_ok db" and s: "states db k = Some s" and a: "a \<noteq> []"
  shows "j \<in> move_executor (executor_ix db) (executorAddress s) (executorAddress s') k a \<longleftrightarrow>
    (if j = k then executor_of s' = Some a else j \<in> executor_ix db a)"
  using executor_ix_of [OF ok s a]
  by (auto simp: move_executor_def executor_of_def ix_add_def ix_rem_def Let_def split: option.splits)

lemma index_ok_setMeta_new:
  assumes ok: "index_ok db" and new: "states db (lower (taskId m)) = None"
  shows "index_ok (setMeta db m)"
proof -
  let ?k = "lower (taskId m)" and ?db = "setMeta db m"
  let ?m = "m\<lparr>taskId := ?k\<rparr>"
  let ?s = "bare_state ?k (if submissionMode m = Some OpenSubmission then Collecting else Open)"
  have nometa: "metas db ?k = None" using ok new unfolding index_ok_def by (metis not_None_eq)
  have f: "find_state db (taskId m) = None" by (simp add: index_ok_find [OF ok] new)
  have states': "states ?db = (states db)(?k \<mapsto> ?s)" using f by (simp add: setMeta_def Let_def)
  have metas': "metas ?db = (metas db)(?k \<mapsto> ?m)" by (simp add: setMeta_def Let_def)
  have open': "open_ix ?db = (if in_open_index ?m ?s then insert ?k (open_ix db) else open_ix db)"
    by (auto simp: setMeta_def Let_def in_open_index_def)
  have exec': "executor_ix ?db = executor_ix db" by (simp add: setMeta_def Let_def)
  have notin: "?k \<notin> open_ix db" using ok new unfolding index_ok_def by fastforce
  have "lower j = j \<and> stateTaskId t = j \<and> untaken_ok t \<and> (\<exists>n. metas ?db j = Some n \<and> mode_ok n t)"
    if "states ?db j = Some t" for j t
  proof (cases "j = ?k")
    case True
    with that show ?thesis by (auto simp: states' metas' untaken_ok_def mode_ok_def)
  next
    case False
    with that have "states db j = Some t" by (simp add: states')
    with ok False show ?thesis unfolding index_ok_def metas' by auto
  qed
  moreover have "lower j = j \<and> states ?db j \<noteq> None" if "metas ?db j = Some n" for j n
    using ok that unfolding index_ok_def metas' states' by (auto split: if_splits)
  moreover have "j \<in> open_ix ?db \<longleftrightarrow>
      (\<exists>t n. states ?db j = Some t \<and> metas ?db j = Some n \<and> in_open_index n t)" for j
  proof (cases "j = ?k")
    case True
    with notin show ?thesis by (simp add: open' states' metas')
  next
    case False
    then have "j \<in> open_ix ?db \<longleftrightarrow> j \<in> open_ix db" by (auto simp: open')
    with False ok show ?thesis unfolding index_ok_def states' metas' by auto
  qed
  moreover have "j \<in> executor_ix ?db a \<longleftrightarrow> (\<exists>t. states ?db j = Some t \<and> executor_of t = Some a)"
    if "a \<noteq> []" for a j
    using index_ok_executor [OF ok that, of j] new
    by (auto simp: exec' states' executor_of_None)
  ultimately show ?thesis unfolding index_ok_def by blast
qed

lemma index_ok_mergeWrappedKeys:
  assumes ok: "index_ok db"
  shows "index_ok (snd (mergeWrappedKeys db tid adds))"
proof (cases "metas db (lower tid)")
  case None
  then show ?thesis using ok by (simp add: mergeWrappedKeys_def index_ok_find_meta [OF ok])
next
  case (Some m)
  let ?k = "lower tid" and ?db = "snd (mergeWrappedKeys db tid adds)"
  obtain w where w: "metas ?db = (metas db)(?k \<mapsto> m\<lparr>wrappedKeys := w\<rparr>)"
    "states ?db = states db" "open_ix ?db = open_ix db" "executor_ix ?db = executor_ix db"
    using Some by (simp add: mergeWrappedKeys_def index_ok_find_meta [OF ok] Let_def)
  have same: "mode_ok (m\<lparr>wrappedKeys := w\<rparr>) s = mode_ok m s"
    "in_open_index (m\<lparr>wrappedKeys := w\<rparr>) s = in_open_index m s" for s
    by (simp_all add: mode_ok_def in_open_index_def)
  have "\<exists>n. metas ?db j = Some n \<and> mode_ok n t" if t: "states db j = Some t" for j t
  proof -
    obtain n where n: "metas db j = Some n" "mode_ok n t" using ok t by (rule index_ok_state)
    show ?thesis
    proof (cases "j = ?k")
      case True
      with n Some have "n = m" by simp
      with n True show ?thesis by (simp add: w same)
    qed (simp add: w n)
  qed
  moreover have "lower j = j \<and> stateTaskId t = j \<and> untaken_ok t" if "states db j = Some t" for j t
    using ok that unfolding index_ok_def by blast
  moreover have "(j \<in> open_ix db) = (\<exists>s n. states db j = Some s \<and> metas ?db j = Some n \<and> in_open_index n s)" for j
  proof -
    have "(j \<in> open_ix db) = (\<exists>s n. states db j = Some s \<and> metas db j = Some n \<and> in_open_index n s)"
      using ok unfolding index_ok_def by blast
    also have "\<dots> = (\<exists>s n. states db j = Some s \<and> metas ?db j = Some n \<and> in_open_index n s)"
      using same Some unfolding w by (cases "j = ?k") auto
    finally show ?thesis .
  qed
  moreover have "lower j = j \<and> states db j \<noteq> None" if "metas ?db j = Some n" for j n
    using ok that Some unfolding index_ok_def w by (auto split: if_splits)
  moreover have "j \<in> executor_ix db a \<longleftrightarrow> (\<exists>t. states db j = Some t \<and> executor_of t = Some a)"
    if "a \<noteq> []" for a j
    using ok that by (rule index_ok_executor)
  ultimately show ?thesis
    unfolding index_ok_def w(2-4) by simp
qed

lemma index_ok_accept:
  assumes ok: "index_ok db" and ex: "executor \<noteq> []"
  shows "index_ok (snd (accept_script db tid executor atMs))"
proof (cases "states db (lower tid)")
  case None
  then show ?thesis using ok by (simp add: accept_script_def index_ok_find [OF ok])
next
  case (Some s)
  let ?k = "lower tid" and ?db = "snd (accept_script db tid executor atMs)"
  obtain m where m: "metas db ?k = Some m" "mode_ok m s" "untaken_ok s" "stateTaskId s = ?k"
    using ok Some by (rule index_ok_state)
  show ?thesis
  proof (cases "status s = Open")
    case False
    then show ?thesis using ok Some by (simp add: accept_script_def index_ok_find [OF ok])
  next
    case True
    let ?s = "(cjson_state s)\<lparr>status := Accepted, executorAddress := Some executor, acceptedAt := Some atMs\<rparr>"
    from True m have none: "executor_of s = None" by (simp add: untaken_ok_def executor_of_None)
    have only: "lower tid \<noteq> tid \<Longrightarrow> tid \<notin> open_ix db"
      using ok unfolding index_ok_def by metis
    show ?thesis
    proof (rule index_ok_write [OF ok Some m(1)])
      show "states ?db = (states db)(?k \<mapsto> ?s)" "metas ?db = metas db"
        using Some True by (simp_all add: accept_script_def index_ok_find [OF ok] put_state_def Let_def)
      show "open_ix ?db = (if in_open_index m ?s then insert ?k (open_ix db) else open_ix db - {?k})"
        using Some True only
        by (auto simp: accept_script_def index_ok_find [OF ok] put_state_def drop_open_def in_open_index_def Let_def)
      show "j \<in> executor_ix ?db a \<longleftrightarrow> (if j = ?k then executor_of ?s = Some a else j \<in> executor_ix db a)"
        if "a \<noteq> []" for a j
        using Some True ex none executor_ix_of [OF ok Some that]
        by (cases executor)
          (auto simp: accept_script_def index_ok_find [OF ok] put_state_def ix_add_def executor_of_def Let_def)
      show "mode_ok m ?s" using m True by (auto simp: mode_ok_def terminal_def)
    qed (simp_all add: m untaken_ok_def)
  qed
qed

end
