(* ===== verification/TaskStoreSteps.thy ===== *)
theory TaskStoreSteps
  imports TaskStoreIndex
begin

text \<open>
  The rest of the writers of \<open>a2aStore.ts\<close> keep the index invariant, and the store as a
  transition system: one step per writer call, every reachable store satisfies the invariant.
  \<open>resyncOpenIndex\<close> restores the open index of any store at all.
\<close>

section \<open>The remaining writers\<close>

text \<open>
  What the remaining writers share: an existing state is replaced, its executor unchanged, and
  the executor index is left alone.
\<close>

lemma index_ok_replace:
  assumes ok: "index_ok db" and s: "states db k = Some s" and m: "metas db k = Some m"
    and states': "states db' = (states db)(k \<mapsto> s')" and metas': "metas db' = metas db"
    and open': "open_ix db' = (if in_open_index m s' then insert k (open_ix db) else open_ix db - {k})"
    and exec': "executor_ix db' = executor_ix db" "executorAddress s' = executorAddress s"
    and s': "stateTaskId s' = k" "untaken_ok s'" "mode_ok m s'"
  shows "index_ok db'"
proof (rule index_ok_write [OF ok s m states' metas' open' _ s'])
  show "j \<in> executor_ix db' a \<longleftrightarrow> (if j = k then executor_of s' = Some a else j \<in> executor_ix db a)"
    if "a \<noteq> []" for a j
    using executor_ix_of [OF ok s that] exec' by (simp add: executor_of_def)
qed

lemma drop_open_exact:
  assumes "index_ok db"
  shows "drop_open db tid = open_ix db - {lower tid}"
proof -
  have "lower tid \<noteq> tid \<Longrightarrow> tid \<notin> open_ix db" using assms unfolding index_ok_def by metis
  then show ?thesis by (auto simp: drop_open_def)
qed

lemma index_ok_expire:
  assumes ok: "index_ok db"
  shows "index_ok (snd (tryExpire db tid reason))"
proof (cases "find_state db tid")
  case None
  with ok show ?thesis by (simp add: tryExpire_def)
next
  case (Some p)
  then obtain s where s: "states db (lower tid) = Some s" and p: "p = (lower tid, s)"
    by (auto simp: index_ok_find [OF ok])
  obtain m where m: "metas db (lower tid) = Some m" "mode_ok m s" "untaken_ok s" "stateTaskId s = lower tid"
    using ok s by (rule index_ok_state)
  show ?thesis
  proof (cases "status s = Open")
    case True
    let ?s = "(cjson_state s)\<lparr>status := Failed, failedReason := Some (expire_reason_text reason)\<rparr>"
    show ?thesis
      by (rule index_ok_replace [OF ok s m(1), where s' = ?s])
        (use True Some p m in \<open>simp_all add: tryExpire_def put_state_def drop_open_exact [OF ok]
           in_open_index_def untaken_ok_def mode_ok_def terminal_def split: if_splits\<close>)
  qed (use ok Some p in \<open>simp add: tryExpire_def\<close>)
qed

lemma index_ok_close:
  assumes ok: "index_ok db"
  shows "index_ok (snd (close_script db tid reason vk))"
proof (cases "find_state db tid")
  case None
  with ok show ?thesis by (simp add: close_script_def)
next
  case (Some p)
  then obtain s where s: "states db (lower tid) = Some s" and p: "p = (lower tid, s)"
    by (auto simp: index_ok_find [OF ok])
  obtain m where m: "metas db (lower tid) = Some m" "mode_ok m s" "untaken_ok s" "stateTaskId s = lower tid"
    using ok s by (rule index_ok_state)
  show ?thesis
  proof (cases "terminal (status s)")
    case False
    let ?s = "(cjson_state s)\<lparr>status := Failed, failedReason := Some (close_reason_text reason)\<rparr>"
    show ?thesis
      by (rule index_ok_replace [OF ok s m(1), where s' = ?s])
        (use False Some p m in \<open>simp_all add: close_script_def put_state_def drop_open_exact [OF ok]
           in_open_index_def untaken_ok_def mode_ok_def terminal_def\<close>)
  qed (use ok Some p in \<open>simp add: close_script_def\<close>)
qed

lemma index_ok_closeOpen:
  assumes ok: "index_ok db"
  shows "index_ok (snd (closeOpenSubmissionTask db tid outcome))"
proof (cases "states db (lower tid)")
  case None
  with ok show ?thesis by (simp add: closeOpenSubmissionTask_def Let_def)
next
  case (Some s)
  obtain m where m: "metas db (lower tid) = Some m" "mode_ok m s" "untaken_ok s" "stateTaskId s = lower tid"
    using ok Some by (rule index_ok_state)
  show ?thesis
  proof (cases "status s = Collecting")
    case False
    with ok Some show ?thesis by (simp add: closeOpenSubmissionTask_def Let_def)
  next
    case True
    let ?k = "lower tid" and ?db = "snd (closeOpenSubmissionTask db tid outcome)"
    let ?w = "case outcome of WinnerPaid w \<Rightarrow> lower w | Voided \<Rightarrow> []"
    let ?s = "if ?w \<noteq> [] then (cjson_state s)\<lparr>status := Completed, executorAddress := Some ?w\<rparr>
      else (cjson_state s)\<lparr>status := Failed, failedReason := Some ''voided''\<rparr>"
    from True m have none: "executor_of s = None" by (simp add: untaken_ok_def executor_of_None)
    have notin: "?k \<notin> open_ix db"
      using index_ok_open [OF ok Some m(1)] True by (simp add: in_open_index_def)
    show ?thesis
    proof (rule index_ok_write [OF ok Some m(1), where s' = ?s])
      show "states ?db = (states db)(?k \<mapsto> ?s)" "metas ?db = metas db"
        using Some True by (simp_all add: closeOpenSubmissionTask_def put_state_def Let_def)
      show "open_ix ?db = (if in_open_index m ?s then insert ?k (open_ix db) else open_ix db - {?k})"
        using Some True notin
        by (simp add: closeOpenSubmissionTask_def put_state_def in_open_index_def Let_def)
      show "j \<in> executor_ix ?db a \<longleftrightarrow> (if j = ?k then executor_of ?s = Some a else j \<in> executor_ix db a)"
        if "a \<noteq> []" for a j
        using Some True none executor_ix_of [OF ok Some that] m(3)
        by (cases outcome)
          (auto simp: closeOpenSubmissionTask_def put_state_def ix_add_def executor_of_def
             untaken_ok_def Let_def truthy_Some_iff split: if_splits)
      show "mode_ok m ?s" "stateTaskId ?s = ?k" "untaken_ok ?s"
        using m True by (auto simp: mode_ok_def terminal_def untaken_ok_def)
    qed
  qed
qed


lemma expected_status_range: "expected_status e \<in> {Accepted, InProgress, Submitted}"
proof (cases "exp_status e")
  case (Some f)
  then show ?thesis by (cases f) (simp_all add: expected_status_def)
qed (simp add: expected_status_def)

lemma index_ok_release:
  assumes ok: "index_ok db"
  shows "index_ok (snd (tryReleaseAccepted db tid e))"
proof (cases "states db (lower tid)")
  case None
  have "getMeta db tid = None"
    using ok None unfolding index_ok_def
    by (metis getMeta_def index_ok_find_meta [OF ok] option.map_disc_iff not_None_eq)
  with ok show ?thesis by (simp add: tryReleaseAccepted_def)
next
  case (Some s)
  let ?k = "lower tid" and ?db = "snd (tryReleaseAccepted db tid e)" and ?s = "bare_state (lower tid) Open"
  obtain m where m: "metas db ?k = Some m" "mode_ok m s" "untaken_ok s" "stateTaskId s = ?k"
    using ok Some by (rule index_ok_state)
  have meta: "getMeta db tid = Some m" by (simp add: getMeta_def index_ok_find_meta [OF ok] m)
  show ?thesis
  proof (cases "unchanged_since e s")
    case False
    with ok Some meta show ?thesis
      by (simp add: tryReleaseAccepted_def release_script_def index_ok_find [OF ok] Let_def)
  next
    case True
    then have st: "status s \<in> {Accepted, InProgress, Submitted}"
      using expected_status_range [of e] by (simp add: unchanged_since_def)
    have ex: "executor_of s = map_option lower (truthy (exp_executor e))"
      using True
      by (cases "executorAddress s" rule: truthy.cases; cases "exp_executor e" rule: truthy.cases)
        (simp_all add: unchanged_since_def or_empty_def executor_of_def)
    have mode: "submissionMode m \<noteq> Some OpenSubmission"
      using m(2) st by (auto simp: mode_ok_def terminal_def split: if_splits)
    have notin: "?k \<notin> open_ix db"
      using index_ok_open [OF ok Some m(1)] st by (auto simp: in_open_index_def)
    show ?thesis
    proof (rule index_ok_write [OF ok Some m(1), where s' = ?s])
      show "states ?db = (states db)(?k \<mapsto> ?s)" "metas ?db = metas db"
        using Some True meta
        by (simp_all add: tryReleaseAccepted_def release_script_def index_ok_find [OF ok] put_state_def Let_def)
      show "open_ix ?db = (if in_open_index m ?s then insert ?k (open_ix db) else open_ix db - {?k})"
        using Some True meta notin
        by (simp add: tryReleaseAccepted_def release_script_def index_ok_find [OF ok] put_state_def
          in_open_index_def Let_def)
      show "j \<in> executor_ix ?db a \<longleftrightarrow> (if j = ?k then executor_of ?s = Some a else j \<in> executor_ix db a)"
        if "a \<noteq> []" for a j
        using Some True meta ex executor_ix_of [OF ok Some that]
        by (auto simp: tryReleaseAccepted_def release_script_def index_ok_find [OF ok] put_state_def
          ix_rem_def executor_of_None Let_def split: option.splits)
      show "mode_ok m ?s" "stateTaskId ?s = ?k" "untaken_ok ?s"
        using mode by (simp_all add: mode_ok_def untaken_ok_def)
    qed
  qed
qed

lemma index_ok_releaseToOpen:
  assumes ok: "index_ok db" and rel: "releaseToOpen db tid = Inr db'"
    and mode: "\<And>m. metas db (lower tid) = Some m \<Longrightarrow> submissionMode m \<noteq> Some OpenSubmission"
  shows "index_ok db'"
proof -
  let ?k = "lower tid" and ?s = "bare_state (lower tid) Open"
  obtain s where s: "states db ?k = Some s"
    using rel by (auto simp: releaseToOpen_def index_ok_find [OF ok] split: option.splits)
  obtain m where m: "metas db ?k = Some m" "mode_ok m s" "untaken_ok s" "stateTaskId s = ?k"
    using ok s by (rule index_ok_state)
  show ?thesis
  proof (cases "status s = Open")
    case True
    with ok rel s show ?thesis by (simp add: releaseToOpen_def index_ok_find [OF ok])
  next
    case False
    have notin: "?k \<notin> open_ix db"
      using index_ok_open [OF ok s m(1)] False by (auto simp: in_open_index_def)
    have db': "db' = (put_state db ?k ?s)\<lparr>
        open_ix := (if targetExecutorType m = Agent then insert ?k (open_ix db) else open_ix db),
        executor_ix := (case truthy (executorAddress s) of None \<Rightarrow> executor_ix db
          | Some a \<Rightarrow> ix_rem (executor_ix db) (lower a) ?k)\<rparr>"
      using rel s False m
      by (simp add: releaseToOpen_def index_ok_find [OF ok] meta_of_state_def)
    show ?thesis
    proof (rule index_ok_write [OF ok s m(1), where s' = ?s])
      show "open_ix db' = (if in_open_index m ?s then insert ?k (open_ix db) else open_ix db - {?k})"
        using notin by (simp add: db' in_open_index_def)
      show "j \<in> executor_ix db' a \<longleftrightarrow> (if j = ?k then executor_of ?s = Some a else j \<in> executor_ix db a)"
        if "a \<noteq> []" for a j
        using executor_ix_of [OF ok s that]
        by (auto simp: db' executor_of_def ix_rem_def split: option.splits)
      show "mode_ok m ?s" "untaken_ok ?s"
        using mode m by (simp_all add: mode_ok_def untaken_ok_def)
    qed (simp_all add: db' put_state_def)
  qed
qed

text \<open>
  A patch keeps the invariant unless it opens a task, gives an executor to a task nobody has
  taken, or moves a task to a status its mode does not have.
\<close>

definition patch_allowed :: "task_meta \<Rightarrow> patch_field list \<Rightarrow> task_state \<Rightarrow> bool" where
  "patch_allowed m patch s \<longleftrightarrow>
     (let s' = apply_patch patch s in
      mode_ok m s' \<and> untaken_ok s' \<and> (status s' = Open \<longrightarrow> status s = Open))"

lemma stateTaskId_update [simp]:
  "status (s\<lparr>stateTaskId := k\<rparr>) = status s" "untaken_ok (s\<lparr>stateTaskId := k\<rparr>) = untaken_ok s"
  "mode_ok m (s\<lparr>stateTaskId := k\<rparr>) = mode_ok m s" "executor_of (s\<lparr>stateTaskId := k\<rparr>) = executor_of s"
  "in_open_index m (s\<lparr>stateTaskId := k\<rparr>) = in_open_index m s"
  by (simp_all add: untaken_ok_def mode_ok_def executor_of_def in_open_index_def)

lemma index_ok_update:
  assumes ok: "index_ok db" and upd: "updateState db tid patch = Inr (s', db')"
    and allowed: "\<And>m s. metas db (lower tid) = Some m \<Longrightarrow> states db (lower tid) = Some s \<Longrightarrow>
      patch_allowed m patch s"
  shows "index_ok db'"
proof -
  let ?k = "lower tid"
  obtain s where s: "states db ?k = Some s"
    using upd by (auto simp: updateState_def index_ok_find [OF ok] split: option.splits)
  obtain m where m: "metas db ?k = Some m" "mode_ok m s" "untaken_ok s" "stateTaskId s = ?k"
    using ok s by (rule index_ok_state)
  let ?s = "(apply_patch patch s)\<lparr>stateTaskId := ?k\<rparr>"
  have p: "patch_allowed m patch s" using m(1) s by (rule allowed)
  have openk: "?k \<in> open_ix db \<longleftrightarrow> in_open_index m s" by (rule index_ok_open [OF ok s m(1)])
  have fields: "states db' = (states db)(?k \<mapsto> ?s)" "metas db' = metas db"
    "open_ix db' = (if status s = Open \<and> status ?s \<noteq> Open then open_ix db - {?k} else open_ix db)"
    "executor_ix db' = move_executor (executor_ix db) (executorAddress s) (executorAddress ?s) ?k"
    using upd s by (auto simp: updateState_def index_ok_find [OF ok] put_state_def Let_def)
  show ?thesis
  proof (rule index_ok_write [OF ok s m(1) fields(1,2)])
    show "open_ix db' = (if in_open_index m ?s then insert ?k (open_ix db) else open_ix db - {?k})"
      using openk p by (auto simp: fields in_open_index_def patch_allowed_def Let_def)
    show "j \<in> executor_ix db' a \<longleftrightarrow> (if j = ?k then executor_of ?s = Some a else j \<in> executor_ix db a)"
      if "a \<noteq> []" for a j
      unfolding fields by (rule move_executor_exact [OF ok s that])
    show "mode_ok m ?s" "untaken_ok ?s" "stateTaskId ?s = ?k"
      using p by (simp_all add: patch_allowed_def Let_def)
  qed
qed

text \<open>
  Writing a task's meta again. It leaves the state alone, and adds an agent task to the open
  index whatever its state: safe only for a task that is open, or an open-submission one.
\<close>

definition reindex_safe :: "task_meta \<Rightarrow> task_meta \<Rightarrow> task_state \<Rightarrow> bool" where
  "reindex_safe m m' s \<longleftrightarrow>
     mode_ok m' s \<and>
     (if status s = Open then targetExecutorType m = Agent \<longrightarrow> targetExecutorType m' = Agent
      else targetExecutorType m' = Agent \<longrightarrow> submissionMode m' = Some OpenSubmission)"

lemma index_ok_reindex:
  assumes ok: "index_ok db" and s: "states db (lower (taskId m')) = Some s"
    and m: "metas db (lower (taskId m')) = Some m" and safe: "reindex_safe m m' s"
  shows "index_ok (setMeta db m')"
proof -
  let ?k = "lower (taskId m')" and ?db = "setMeta db m'"
  let ?m = "m'\<lparr>taskId := ?k\<rparr>"
  have same: "mode_ok ?m t = mode_ok m' t" "in_open_index ?m t = in_open_index m' t" for t
    by (simp_all add: mode_ok_def in_open_index_def)
  have f: "find_state db (taskId m') \<noteq> None" by (simp add: index_ok_find [OF ok] s)
  have fields: "states ?db = states db" "metas ?db = (metas db)(?k \<mapsto> ?m)"
    "executor_ix ?db = executor_ix db"
    "open_ix ?db = (if submissionMode m' \<noteq> Some OpenSubmission \<and> targetExecutorType m' = Agent
       then insert ?k (open_ix db) else open_ix db)"
    using f by (auto simp: setMeta_def Let_def)
  have "lower j = j \<and> stateTaskId t = j \<and> untaken_ok t \<and> (\<exists>n. metas ?db j = Some n \<and> mode_ok n t)"
    if t: "states db j = Some t" for j t
  proof -
    obtain n where n: "metas db j = Some n" "mode_ok n t" "untaken_ok t" "lower j = j" "stateTaskId t = j"
      using ok t by (rule index_ok_state)
    have "\<exists>n. metas ?db j = Some n \<and> mode_ok n t"
      using n t s safe by (cases "j = ?k") (auto simp: fields same reindex_safe_def)
    with n show ?thesis by simp
  qed
  moreover have "lower j = j \<and> states db j \<noteq> None" if "metas ?db j = Some n" for j n
    using ok that s unfolding index_ok_def fields by (auto split: if_splits)
  moreover have "j \<in> open_ix ?db \<longleftrightarrow>
      (\<exists>t n. states db j = Some t \<and> metas ?db j = Some n \<and> in_open_index n t)" for j
  proof (cases "j = ?k")
    case True
    have "?k \<in> open_ix db \<longleftrightarrow> in_open_index m s" by (rule index_ok_open [OF ok s m])
    with True s safe show ?thesis
      by (auto simp: fields same reindex_safe_def in_open_index_def mode_ok_def terminal_def split: if_splits)
  next
    case False
    have "j \<in> open_ix db \<longleftrightarrow> (\<exists>t n. states db j = Some t \<and> metas db j = Some n \<and> in_open_index n t)"
      using ok unfolding index_ok_def by blast
    with False show ?thesis unfolding fields by auto
  qed
  moreover have "j \<in> executor_ix db a \<longleftrightarrow> (\<exists>t. states db j = Some t \<and> executor_of t = Some a)"
    if "a \<noteq> []" for a j
    using ok that by (rule index_ok_executor)
  ultimately show ?thesis unfolding index_ok_def fields(1,3) by simp
qed

section \<open>The store as a transition system\<close>

text \<open>
  One step is one call of a writer of the store, by any route or sweep, in any order. A post
  uses a task id with no state; a re-index and a patch meet their guards; the calls on locks
  and claims write their own keys only.
\<close>

inductive a2a_step :: "a2a_db \<Rightarrow> a2a_db \<Rightarrow> bool" where
  post: "states db (lower (taskId m)) = None \<Longrightarrow> a2a_step db (setMeta db m)"
| reindex: "states db (lower (taskId m')) = Some s \<Longrightarrow> metas db (lower (taskId m')) = Some m \<Longrightarrow>
    reindex_safe m m' s \<Longrightarrow> a2a_step db (setMeta db m')"
| wrap_keys: "a2a_step db (snd (mergeWrappedKeys db tid adds))"
| accept: "executor \<noteq> [] \<Longrightarrow> a2a_step db (snd (tryAccept db tid executor atMs))"
| expire: "a2a_step db (snd (tryExpire db tid reason))"
| close: "a2a_step db (snd (tryCloseOnChainTerminal db tid creason))"
| close_open: "a2a_step db (snd (closeOpenSubmissionTask db tid outcome))"
| release: "a2a_step db (snd (tryReleaseAccepted db tid e))"
| release_to_open: "releaseToOpen db tid = Inr db' \<Longrightarrow>
    (\<And>m. metas db (lower tid) = Some m \<Longrightarrow> submissionMode m \<noteq> Some OpenSubmission) \<Longrightarrow>
    a2a_step db db'"
| update: "updateState db tid patch = Inr (s', db') \<Longrightarrow>
    (\<And>m s. metas db (lower tid) = Some m \<Longrightarrow> states db (lower tid) = Some s \<Longrightarrow>
      patch_allowed m patch s) \<Longrightarrow> a2a_step db db'"
| claim_hash: "a2a_step db (snd (claimTaskHash db now hash poster token))"
| lock_accept: "a2a_step db (snd (acquireAcceptLock db now tid agent token))"
| unlock_accept: "a2a_step db (snd (releaseAcceptLock db now tid agent token))"

inductive_simps a2a_step_from_empty: "a2a_step empty_db db"

lemma index_ok_cong:
  "index_ok db \<Longrightarrow> states db' = states db \<Longrightarrow> metas db' = metas db \<Longrightarrow>
   open_ix db' = open_ix db \<Longrightarrow> executor_ix db' = executor_ix db \<Longrightarrow> index_ok db'"
  by (simp add: index_ok_def)

lemma snd_tryAccept: "snd (tryAccept db tid ex atMs) = snd (accept_script db tid ex atMs)"
  by (simp add: tryAccept_def Let_def split: cas.split option.split)

lemma a2a_step_index_ok: "a2a_step db db' \<Longrightarrow> index_ok db \<Longrightarrow> index_ok db'"
proof (induction rule: a2a_step.induct)
  case (post db m)
  then show ?case by (intro index_ok_setMeta_new)
next
  case (reindex db m' s m)
  then show ?case by (intro index_ok_reindex)
next
  case (accept executor db tid atMs)
  then show ?case unfolding snd_tryAccept by (intro index_ok_accept)
next
  case (close db tid creason)
  then show ?case unfolding tryCloseOnChainTerminal_def by (rule index_ok_close)
next
  case (release_to_open db tid db')
  then show ?case using index_ok_releaseToOpen by blast
next
  case (update db tid patch s' db')
  then show ?case using index_ok_update by blast
next
  case (claim_hash db now hash poster token)
  then show ?case
    by (rule index_ok_cong)
      (simp_all add: claimTaskHash_def Let_def split: option.split)
next
  case (lock_accept db now tid agent token)
  then show ?case by (rule index_ok_cong) (simp_all add: acquireAcceptLock_def Let_def)
next
  case (unlock_accept db now tid agent token)
  then show ?case by (rule index_ok_cong) (simp_all add: releaseAcceptLock_def Let_def)
qed (simp_all add: index_ok_mergeWrappedKeys index_ok_expire index_ok_closeOpen index_ok_release)

definition a2a_reachable :: "a2a_db \<Rightarrow> bool" where
  "a2a_reachable db \<longleftrightarrow> a2a_step\<^sup>*\<^sup>* empty_db db"

lemma reachable_index_ok:
  assumes "a2a_reachable db" shows "index_ok db"
  using assms unfolding a2a_reachable_def
  by (induction rule: rtranclp_induct) (auto simp: index_ok_empty dest: a2a_step_index_ok)

section \<open>Resync\<close>

text \<open>What a SCAN of every state key returns: each key, in some order.\<close>

definition scan_of :: "a2a_db \<Rightarrow> string list \<Rightarrow> bool" where
  "scan_of db keys \<longleftrightarrow> set keys = dom (states db)"

lemma resync_open_ix:
  assumes "scan_of db keys" "keys \<noteq> []"
  shows "open_ix (snd (resyncOpenIndex db keys)) = lower ` {k. should_be_open db k}"
proof -
  have "should_be_open db k \<Longrightarrow> k \<in> set keys" for k
    using assms(1) by (auto simp: should_be_open_def load_pair_def scan_of_def split: option.splits)
  then have "set (map lower (filter (should_be_open db) keys)) = lower ` {k. should_be_open db k}"
    by auto
  with assms(2) show ?thesis by (auto simp: resyncOpenIndex_def Let_def)
qed

lemma should_be_open_iff:
  assumes "index_ok db"
  shows "should_be_open db k \<longleftrightarrow> k \<in> open_ix db"
proof -
  have "k \<in> open_ix db \<longleftrightarrow> (\<exists>s m. states db k = Some s \<and> metas db k = Some m \<and> in_open_index m s)"
    using assms unfolding index_ok_def by blast
  moreover have "submissionMode m \<noteq> Some OpenSubmission"
    if "states db k = Some s" "metas db k = Some m" "status s = Open" for s m
    using assms that by (elim index_ok_state) (auto simp: mode_ok_def terminal_def split: if_splits)
  ultimately show ?thesis
    by (auto simp: should_be_open_def load_pair_def listable_def in_open_index_def split: option.splits)
qed

lemma resync_no_drift:
  assumes ok: "index_ok db" and keys: "scan_of db keys"
  shows "resyncOpenIndex db keys = ((0, 0), db)"
proof (cases "keys = []")
  case False
  have "lower ` {k. should_be_open db k} = open_ix db"
    using ok unfolding should_be_open_iff [OF ok]
    by (auto simp: index_ok_def image_iff) (metis index_ok_state [OF ok])+
  moreover have "set (map lower (filter (should_be_open db) keys)) = lower ` {k. should_be_open db k}"
    using keys by (auto simp: should_be_open_def load_pair_def scan_of_def split: option.splits)
  ultimately show ?thesis using False by (simp add: resyncOpenIndex_def Let_def)
qed (simp add: resyncOpenIndex_def)

end
