(* ===== verification/ChainsProps.thy ===== *)
theory ChainsProps
  imports Chains
begin

text \<open>
  The properties of the settlement chains: which settings boot accepts, where a task posts and
  where its receipt is looked for, whose state a scope names, and that no rounding pays out
  less than it should.
\<close>

definition testnet_config :: config where
  "testnet_config =
     \<lparr>baseChainId = 84532, baseRpcUrl = ''http://base'', baseEscrowAddress = Some ''0xE1'',
      baseUsdcAddress = Some ''0xC1'', arcChainId = 5042002, arcRpcUrl = ''http://arc'',
      arcEscrowAddress = Some ''0xE2'', arcUsdcAddress = Some ''0xC2''\<rparr>"

section \<open>Boot checks\<close>

lemma check_tier_env_Nil:
  "check_tier_env env tier ids = [] \<longleftrightarrow>
     env_raw env (tier_env ids) = [] \<or>
     map_option int (parse_decimal (env_raw env (tier_env ids))) = Some (id_of_tier ids tier)"
  by (simp add: check_tier_env_def Let_def)

text \<open>
  The tier check passes exactly when every chain-id setting that is set reads as this
  tier's id: one setting of the other network, of an unknown chain or not a number at all is
  enough to refuse.
\<close>

theorem tier_check_passes_iff:
  "tierMismatches env tier = [] \<longleftrightarrow>
     list_all (\<lambda>ids. env_raw env (tier_env ids) = [] \<or>
         map_option int (parse_decimal (env_raw env (tier_env ids))) = Some (id_of_tier ids tier))
       (map TIER_CHAIN_IDS [Key0G, KeyBase, KeyArc] @ CCTP_TIER_CHAIN_IDS)"
  by (simp only: tierMismatches_def concat_eq_Nil_conv set_map ball_simps check_tier_env_Nil list_all_iff)

lemma zero_not_empty [simp]: "\<not> isZeroAddress []"
  by (simp add: isZeroAddress_def)

lemma token_problems_Base:
  "token_problems (build_base cfg) = [] \<longleftrightarrow>
     \<not> (\<exists>a. baseUsdcAddress cfg = Some a \<and> isZeroAddress a)"
  by (cases "baseUsdcAddress cfg" rule: truthy.cases)
    (auto simp: token_problems_def build_base_def token_native_def Let_def)

lemma token_problems_Arc:
  "token_problems (build_arc cfg) = [] \<longleftrightarrow>
     (\<exists>a. arcUsdcAddress cfg = Some a \<and> a \<noteq> [] \<and> \<not> isZeroAddress a)"
  by (cases "arcUsdcAddress cfg" rule: truthy.cases)
    (auto simp: token_problems_def build_arc_def token_native_def Let_def)

lemma decimals_problems_config [simp]: "decimals_problems (settlementChainConfig cfg k) = []"
  by (simp add: decimals_problems_def USDC_UNIT_def Let_def)

text \<open>
  The registry check stops the boot exactly when a chain with an escrow has a token that
  contradicts it: Base with its token at the zero address, Arc with its token at the zero
  address or not set. A Base escrow with no token set boots.
\<close>

theorem registry_check_fails_iff:
  "(\<exists>ps. assertRegistryInvariants (settlementChainConfigs cfg) = Inl (BadRegistry ps)) \<longleftrightarrow>
     addressOrNull (baseEscrowAddress cfg) \<noteq> None \<and>
       (\<exists>a. baseUsdcAddress cfg = Some a \<and> isZeroAddress a) \<or>
     addressOrNull (arcEscrowAddress cfg) \<noteq> None \<and>
       \<not> (\<exists>a. arcUsdcAddress cfg = Some a \<and> a \<noteq> [] \<and> \<not> isZeroAddress a)"
proof -
  have "fst (registryProblems (settlementChainConfigs cfg)) = [] \<longleftrightarrow>
      (addressOrNull (baseEscrowAddress cfg) \<noteq> None \<longrightarrow> token_problems (build_base cfg) = []) \<and>
      (addressOrNull (arcEscrowAddress cfg) \<noteq> None \<longrightarrow> token_problems (build_arc cfg) = [])"
    using decimals_problems_config [of cfg Base] decimals_problems_config [of cfg Arc]
      cc_escrow_config [of cfg]
    by (simp add: settlementChainConfigs_def SETTLEMENT_CHAIN_KEYS_def Let_def)
  then show ?thesis
    unfolding token_problems_Base token_problems_Arc
    by (auto simp: assertRegistryInvariants_def Let_def)
qed

section \<open>Where a task posts\<close>

lemma configuredChainKeys_cases:
  "configuredChainKeys cfg =
     (if cc_escrowAddress (settlementChainConfig cfg Base) \<noteq> None then [Base] else []) @
     (if cc_escrowAddress (settlementChainConfig cfg Arc) \<noteq> None then [Arc] else [])"
  by (simp add: configuredChainKeys_def settlementChainConfigs_def SETTLEMENT_CHAIN_KEYS_def
    del: settlementChainConfig.simps)

text \<open>
  A receipt is looked for on every chain that has an escrow, once each, the chain new
  tasks post to first; with no escrow anywhere nothing is searched, and new tasks name Arc.
\<close>

theorem receipt_search_covers_configured_chains:
  "set (receiptSearchOrder cfg) = {k. cc_escrowAddress (settlementChainConfig cfg k) \<noteq> None} \<and>
   distinct (receiptSearchOrder cfg) \<and>
   (if receiptSearchOrder cfg = [] then postingChain cfg = Arc
    else hd (receiptSearchOrder cfg) = postingChain cfg)"
proof -
  have all: "{k. P k} = (if P Base then {Base} else {}) \<union> (if P Arc then {Arc} else {})" for P
    by (auto, (metis chain_key.exhaust)+)
  show ?thesis
    unfolding all receiptSearchOrder_def configuredChainKeys_cases postingChain_def Let_def
    by (simp del: settlementChainConfig.simps) auto
qed

section \<open>Scopes\<close>

text \<open>
  A scope names one network of one chain: state of another network, or of another chain,
  is never read as this one's; and the networks whose scopes a sweep must skip are exactly the
  chain's other networks.
\<close>

theorem scopes_keep_networks_apart:
  "(chainScope_at k i = chainScope_at l j \<longleftrightarrow> k = l \<and> i = j) \<and>
   set (otherNetworkIds cfg k) = set (CHAIN_NETWORK_IDS k) - {cc_chainId (settlementChainConfig cfg k)} \<and>
   (onCurrentNetwork cfg (Some (chain_name k)) (Some i) \<longleftrightarrow> chainScope_at k i = chainScope cfg k)"
  by (auto simp: otherNetworkIds_def chainScope_def onCurrentNetwork_def)

section \<open>Amounts\<close>

lemma div_ceil_ge: "x \<le> ((x :: int) * 11 + 9) div 10 \<and> 11 * x \<le> 10 * ((x * 11 + 9) div 10)"
  if "0 \<le> x"
  using that by linarith

text \<open>
  What a withdraw leaves behind covers the worker's gate after the withdraw itself is
  paid for: a balance of that reserve, less the withdraw's gas at the current price, is at
  least ten percent over the worker's gas limit at the maximum fee. It is never below the
  chain's floor.
\<close>

theorem withdraw_leaves_the_workers_gas:
  assumes "maxFeePerGas fee = Some m" "0 < m" "gasPrice fee = Some price" "0 < price"
    and "0 < workerTxGasLimit gas"
  shows "11 * (workerTxGasLimit gas * m) \<le>
      10 * (withdrawReserveWei gas (Some fee) - WITHDRAW_TX_GAS * price) \<and>
    min_reserve_wei gas \<le> withdrawReserveWei gas (Some fee)"
proof -
  let ?x = "workerTxGasLimit gas * m"
  have pos: "0 < ?x" using assms by simp
  then have "bigint_div (?x * 11 + 9) 10 = (?x * 11 + 9) div 10"
    by (intro bigint_div_nonneg) auto
  moreover have "11 * ?x \<le> 10 * ((?x * 11 + 9) div 10)"
    using div_ceil_ge [of ?x] pos by simp
  ultimately show ?thesis
    using assms by (auto simp: withdrawReserveWei_def Let_def mult.assoc)
qed

theorem withdraw_leaves_the_workers_gas_witness:
  "11 * (200000 * 20) \<le> 10 * (withdrawReserveWei (cc_gas (build_arc testnet_config))
      (Some \<lparr>maxFeePerGas = Some 20, gasPrice = Some 10\<rparr>) - WITHDRAW_TX_GAS * 10)"
  using withdraw_leaves_the_workers_gas [of "\<lparr>maxFeePerGas = Some 20, gasPrice = Some 10\<rparr>" 20 10
    "cc_gas (build_arc testnet_config)"]
  by (simp add: build_arc_def Let_def)

text \<open>
  Converting a native amount to a token's units rounds up by less than one unit: what is
  asked for is always covered, and nothing positive becomes free.
\<close>

theorem native_to_token_covers:
  assumes "0 \<le> wei" "dec \<le> 18"
  shows "wei \<le> nativeWeiToTokenUnits wei dec * 10 ^ (18 - dec) \<and>
    nativeWeiToTokenUnits wei dec * 10 ^ (18 - dec) < wei + 10 ^ (18 - dec) \<and>
    (0 < wei \<longrightarrow> 0 < nativeWeiToTokenUnits wei dec)"
proof (cases "dec = 18")
  case False
  then show ?thesis
    using assms ceil_div_bounds [of wei "10 ^ (18 - dec)"] ceil_div_pos [of wei "10 ^ (18 - dec)"]
    by (simp add: nativeWeiToTokenUnits_def Let_def)
qed (use assms in \<open>simp add: nativeWeiToTokenUnits_def\<close>)

theorem native_to_token_covers_witness:
  "nativeWeiToTokenUnits 1 6 = 1 \<and> 0 < nativeWeiToTokenUnits 1 6"
  using native_to_token_covers [of 1 6] by (simp add: nativeWeiToTokenUnits_def bigint_div_def)

end
