(* ===== verification/TaskStoreProps.thy ===== *)
theory TaskStoreProps
  imports TaskStoreSteps ChainsProps
begin

text \<open>
  The properties of the task store: what its indexes hold after any history, who wins a race,
  what a lock or a claim protects, what a reader sees of a task.
\<close>

section \<open>A task to evaluate on\<close>

definition sample_meta :: task_meta where
  "sample_meta =
     \<lparr>taskId = ''T1'', targetExecutorType = Agent, verificationMode = Manual,
      verificationCriteria = None, reward = None, requiredCapabilities = [],
      posterAddress = Some ''0xA'', chain = None, chainId = None, verifierAddress = None,
      rootHash = None, wrappedKeys = None, keyCustodyBlob = None, skipKeyWrap = None,
      deadline = None, targetExecutor = None, serviceId = None, agentSelectionMode = None,
      privacy = None, publicBrief = None, routingSummary = None, submissionMode = None,
      openPick = None\<rparr>"

definition posted_db :: a2a_db where
  "posted_db = setMeta empty_db sample_meta"

definition accepted_db :: a2a_db where
  "accepted_db = snd (tryAccept posted_db ''T1'' ''0xB'' 5)"

lemma sample_meta_sel [simp]:
  "taskId sample_meta = ''T1''" "targetExecutorType sample_meta = Agent"
  "posterAddress sample_meta = Some ''0xA''" "verifierAddress sample_meta = None"
  "submissionMode sample_meta = None" "privacy sample_meta = None"
  by (simp_all add: sample_meta_def)

lemma lower_T1 [simp]: "lower ''T1'' = ''t1''" "lower ''t1'' = ''t1''"
  by (simp_all add: lower_eval)

lemma lower_0xB [simp]: "lower ''0xB'' = ''0xb''" "lower ''0xA'' = ''0xa''"
  by (simp_all add: lower_eval)

lemma posted_db_sel:
  "states posted_db = [''t1'' \<mapsto> bare_state ''t1'' Open]"
  "metas posted_db = [''t1'' \<mapsto> sample_meta\<lparr>taskId := ''t1''\<rparr>]"
  "open_ix posted_db = {''t1''}" "executor_ix posted_db = (\<lambda>_. {})"
  by (simp_all add: posted_db_def setMeta_def find_state_def empty_db_def Let_def)

lemma posted_db_find: "find_state posted_db ''T1'' = Some (''t1'', bare_state ''t1'' Open)"
  by (simp add: find_state_def posted_db_sel)

lemma accepted_db_find:
  "find_state accepted_db ''T1'' =
     Some (''t1'', (bare_state ''t1'' Open)\<lparr>status := Accepted, executorAddress := Some ''0xB'',
       acceptedAt := Some 5\<rparr>)"
proof -
  have "states accepted_db ''t1'' = Some ((cjson_state (bare_state ''t1'' Open))\<lparr>status := Accepted,
      executorAddress := Some ''0xB'', acceptedAt := Some 5\<rparr>)"
    by (simp add: accepted_db_def snd_tryAccept accept_script_def posted_db_find put_state_def Let_def)
  moreover have "cjson_state (bare_state ''t1'' Open) = bare_state ''t1'' Open"
    by (simp add: cjson_state_def bare_state_def)
  ultimately show ?thesis by (simp add: find_state_def)
qed

lemma posted_db_reachable: "a2a_reachable posted_db"
  unfolding a2a_reachable_def posted_db_def
  by (rule r_into_rtranclp, rule a2a_step.post) (simp add: empty_db_def)

lemma accepted_db_reachable: "a2a_reachable accepted_db"
proof -
  have "a2a_step posted_db accepted_db"
    unfolding accepted_db_def by (rule a2a_step.accept) simp
  with posted_db_reachable show ?thesis
    unfolding a2a_reachable_def by (rule rtranclp.rtrancl_into_rtrancl)
qed

lemma find_meta_cong: "metas db' = metas db \<Longrightarrow> find_meta db' tid = find_meta db tid"
  by (simp add: find_meta_def split: option.split)

section \<open>The indexes\<close>



text \<open>
  From any store, however far its open index has drifted, one resync over a full scan
  leaves in it exactly the tasks that should be listed, and reports how many it added and
  removed. The scan must have returned something.
\<close>

theorem resync_restores_open_index:
  assumes "scan_of db keys" "keys \<noteq> []" "\<forall>k \<in> dom (states db). lower k = k"
  shows "open_ix (snd (resyncOpenIndex db keys)) =
      {k. \<exists>s m. states db k = Some s \<and> metas db k = Some m \<and> status s = Open \<and>
        targetExecutorType m = Agent \<and> submissionMode m \<noteq> Some OpenSubmission} \<and>
    fst (resyncOpenIndex db keys) =
      (card (open_ix (snd (resyncOpenIndex db keys)) - open_ix db),
       card (open_ix db - open_ix (snd (resyncOpenIndex db keys))))"
proof
  let ?S = "{k. should_be_open db k}"
  have should: "should_be_open db k \<longleftrightarrow> (\<exists>s m. states db k = Some s \<and> metas db k = Some m \<and>
      status s = Open \<and> targetExecutorType m = Agent \<and> submissionMode m \<noteq> Some OpenSubmission)" for k
    by (auto simp: should_be_open_def load_pair_def listable_def split: option.splits)
  have low: "lower ` ?S = ?S" using assms(3) by (force simp: should image_iff domI)
  show open': "open_ix (snd (resyncOpenIndex db keys)) =
      {k. \<exists>s m. states db k = Some s \<and> metas db k = Some m \<and> status s = Open \<and>
        targetExecutorType m = Agent \<and> submissionMode m \<noteq> Some OpenSubmission}"
    using resync_open_ix [OF assms(1,2)] low by (simp add: should)
  have "?S \<subseteq> set keys"
    using assms(1) by (auto simp: should scan_of_def)
  then have "set (filter (should_be_open db) keys) = ?S" by auto
  then have "set (map lower (filter (should_be_open db) keys)) = ?S" using low by (simp only: set_map)
  then have "fst (resyncOpenIndex db keys) = (card (?S - open_ix db), card (open_ix db - ?S))"
    using assms(2) by (simp add: resyncOpenIndex_def Let_def)
  then show "fst (resyncOpenIndex db keys) =
      (card (open_ix (snd (resyncOpenIndex db keys)) - open_ix db),
       card (open_ix db - open_ix (snd (resyncOpenIndex db keys))))"
    using open' by (simp add: should)
qed

theorem resync_restores_open_index_witness:
  "open_ix (snd (resyncOpenIndex (posted_db\<lparr>open_ix := {''gone''}\<rparr>) [''t1''])) = {''t1''}"
proof -
  let ?db = "posted_db\<lparr>open_ix := {''gone''}\<rparr>"
  have "scan_of ?db [''t1'']" "\<forall>k \<in> dom (states ?db). lower k = k"
    by (simp_all add: scan_of_def posted_db_sel)
  from resync_restores_open_index [OF this(1) _ this(2)]
  have "open_ix (snd (resyncOpenIndex ?db [''t1''])) =
      {k. \<exists>s m. states ?db k = Some s \<and> metas ?db k = Some m \<and> status s = Open \<and>
        targetExecutorType m = Agent \<and> submissionMode m \<noteq> Some OpenSubmission}"
    by simp
  then show ?thesis by (auto simp: posted_db_sel split: if_splits)
qed

section \<open>Races\<close>

text \<open>
  C5. Of any agents accepting and sweeps expiring one open task, in any order and number, the
  first to reach the server wins and every other learns it lost: its write stands untouched,
  and the task is the winner's or failed as that first caller said.
\<close>

theorem first_attempt_on_open_task_wins:
  assumes "status_of db tid = Some Open"
  shows "fst (run_open_attempts (c # cs) db tid) = True # replicate (length cs) False \<and>
    snd (run_open_attempts (c # cs) db tid) = snd (open_attempt_run c db tid) \<and>
    status_of (snd (run_open_attempts (c # cs) db tid)) tid = Some (open_attempt_target c)"
  using open_cas.first_enabled_wins [of db tid c cs] open_cas.won_status [of db tid c] assms
  unfolding run_open_attempts_race by simp

theorem first_attempt_on_open_task_wins_witness:
  "fst (run_open_attempts [TryAccept ''0xB'' 5, TryExpire Expired, TryAccept ''0xC'' 6] posted_db ''T1'') =
     [True, False, False]"
proof -
  have "status_of posted_db ''T1'' = Some Open" by (simp add: status_of_def posted_db_find)
  from first_attempt_on_open_task_wins [OF this]
  show ?thesis by (simp del: run_open_attempts.simps)
qed

text \<open>
  A release takes effect only on the state its caller read: while the status, the executor
  and the assign transaction are still those, and it then leaves the task open and nobody's.
  A second release on the same reading finds it gone.
\<close>

theorem release_acts_on_what_was_read:
  assumes "getMeta db tid = Some m"
  shows "(fst (tryReleaseAccepted db tid e) = Inr (Won ()) \<longleftrightarrow>
      (\<exists>k s. find_state db tid = Some (k, s) \<and> status s = expected_status e \<and>
         or_empty (executorAddress s) = or_empty (exp_executor e) \<and>
         or_empty (assignTxHash s) = or_empty (exp_tx e))) \<and>
    (fst (tryReleaseAccepted db tid e) = Inr (Won ()) \<longrightarrow>
      (\<exists>k. find_state (snd (tryReleaseAccepted db tid e)) tid = Some (k, bare_state k Open)) \<and>
      fst (tryReleaseAccepted (snd (tryReleaseAccepted db tid e)) tid e) = Inr (Lost (Some Open))) \<and>
    (fst (tryReleaseAccepted db tid e) \<noteq> Inr (Won ()) \<longrightarrow> snd (tryReleaseAccepted db tid e) = db)"
proof (cases "\<exists>k s. find_state db tid = Some (k, s) \<and> unchanged_since e s")
  case True
  then obtain k s where s: "find_state db tid = Some (k, s)" "unchanged_since e s" by blast
  let ?db = "snd (tryReleaseAccepted db tid e)"
  have won: "fst (tryReleaseAccepted db tid e) = Inr (Won ())"
    using s assms by (simp add: tryReleaseAccepted_def release_script_def Let_def)
  have "states ?db = states (put_state db k (bare_state k Open))"
    using s assms by (simp add: tryReleaseAccepted_def release_script_def Let_def)
  then have found: "find_state ?db tid = Some (k, bare_state k Open)"
    using find_state_cong find_state_put [OF s(1)] by metis
  have "metas ?db = metas db"
    using s assms by (simp add: tryReleaseAccepted_def release_script_def put_state_def Let_def)
  then have "find_meta ?db tid = find_meta db tid" by (rule find_meta_cong)
  then have "getMeta ?db tid = Some m" using assms by (simp add: getMeta_def)
  moreover have "\<not> unchanged_since e (bare_state k Open)"
    by (auto simp: unchanged_since_def dest: sym)
  ultimately have "fst (tryReleaseAccepted ?db tid e) = Inr (Lost (Some Open))"
    using found by (simp add: tryReleaseAccepted_def release_script_def Let_def)
  with won found s show ?thesis unfolding unchanged_since_def by blast
next
  case False
  then have "fst (tryReleaseAccepted db tid e) \<noteq> Inr (Won ())" "snd (tryReleaseAccepted db tid e) = db"
    using assms by (auto simp: tryReleaseAccepted_def release_script_def Let_def split: option.splits)
  with False show ?thesis unfolding unchanged_since_def by blast
qed

theorem release_acts_on_what_was_read_witness:
  "fst (tryReleaseAccepted accepted_db ''T1''
      \<lparr>exp_executor = Some ''0xb'', exp_tx = None, exp_status = None\<rparr>) = Inr (Won ())"
proof -
  have "getMeta accepted_db ''T1'' = Some (sample_meta\<lparr>taskId := ''t1''\<rparr>)"
    by (simp add: getMeta_def find_meta_def accepted_db_def snd_tryAccept accept_script_def
      posted_db_find posted_db_sel put_state_def Let_def)
  from release_acts_on_what_was_read [OF this, THEN conjunct1]
  show ?thesis
    by (simp add: accepted_db_find expected_status_def or_empty_def lower_eval bare_state_def)
qed

section \<open>The accept lock and the hash claims\<close>

text \<open>
  While a request holds a task's accept lock nobody takes it, whoever asks; when the
  holder releases it, the next request takes it at once.
\<close>

theorem accept_lock_excludes:
  assumes "fst (acquireAcceptLock db now tid agent token)"
    and "now \<le> later" "later < now + 1000 * ACCEPT_LOCK_TTL_S"
  shows "\<not> fst (acquireAcceptLock (snd (acquireAcceptLock db now tid agent token)) later tid other token') \<and>
    fst (acquireAcceptLock (snd (releaseAcceptLock (snd (acquireAcceptLock db now tid agent token))
      later tid agent token)) later tid other token')"
proof
  show "\<not> fst (acquireAcceptLock (snd (acquireAcceptLock db now tid agent token)) later tid other token')"
    using lock.mutual_exclusion [of db now tid "(agent, token)" later "(other, token')"] assms by simp
  show "fst (acquireAcceptLock (snd (releaseAcceptLock (snd (acquireAcceptLock db now tid agent token))
      later tid agent token)) later tid other token')"
    using assms lock.take_holds [of db now tid "(agent, token)" later]
    by (simp add: acquireAcceptLock_def releaseAcceptLock_def lock_held_def redis_simps)
qed

theorem accept_lock_excludes_witness:
  "\<not> fst (acquireAcceptLock (snd (acquireAcceptLock empty_db 0 ''t'' ''0xa'' ''p'')) 29999 ''t'' ''0xb'' ''q'')"
proof -
  have "fst (acquireAcceptLock empty_db 0 ''t'' ''0xa'' ''p'')"
    by (simp add: acquireAcceptLock_def empty_db_def kv_setnx_def kv_get_def Let_def)
  from accept_lock_excludes [OF this] show ?thesis by (simp add: ACCEPT_LOCK_TTL_S_def)
qed

text \<open>
  A request that outlived its lock cannot drop its successor's: its release changes
  nothing once another request has taken the lock, even one of the same agent.
\<close>

theorem expired_holder_releases_nothing:
  assumes "fst (acquireAcceptLock db now tid agent token)" "now + 1000 * ACCEPT_LOCK_TTL_S \<le> later"
    and "fst (acquireAcceptLock (snd (acquireAcceptLock db now tid agent token)) later tid other token')"
    and "CHR ''|'' \<notin> set agent" "CHR ''|'' \<notin> set other" "(lower agent, token) \<noteq> (lower other, token')"
  shows "\<not> fst (releaseAcceptLock (snd (acquireAcceptLock (snd (acquireAcceptLock db now tid agent token))
    later tid other token')) later tid agent token)"
proof -
  have low: "acquireAcceptLock d t tid (lower a) x = acquireAcceptLock d t tid a x"
    "releaseAcceptLock d t tid (lower a) x = releaseAcceptLock d t tid a x" for d t a x
    by (simp_all add: acquireAcceptLock_def releaseAcceptLock_def acceptLockValue_def)
  show ?thesis
    using lock.late_drop [of db now tid "(lower agent, token)" later "(lower other, token')"] assms
    by (simp add: low request_wf_def ACCEPT_LOCK_TTL_S_def)
qed

theorem expired_holder_releases_nothing_witness:
  "\<not> fst (releaseAcceptLock (snd (acquireAcceptLock (snd (acquireAcceptLock empty_db 0 ''t'' ''0xa'' ''p''))
    30000 ''t'' ''0xa'' ''q'')) 30000 ''t'' ''0xa'' ''p'')"
  by (rule expired_holder_releases_nothing)
    (simp_all add: acquireAcceptLock_def empty_db_def kv_setnx_def kv_get_def ACCEPT_LOCK_TTL_S_def
      lower_eval Let_def)

text \<open>
  A brief's hash stays with the poster who claimed it for the claim's whole day, whatever
  another poster asks; a retry of the same poster takes the claim over, after which only that
  last request can release it.
\<close>

theorem hash_claim_belongs_to_poster:
  fixes db :: a2a_db and hash poster other token token' :: string and now later :: int
  assumes "mine (fst (claimTaskHash db now hash poster token))"
    and "now \<le> later" "later < now + 1000 * HASH_CLAIM_TTL_SECONDS" "CHR ''|'' \<notin> set poster"
  defines "db1 \<equiv> snd (claimTaskHash db now hash poster token)"
  defines "db2 \<equiv> snd (claimTaskHash db1 later hash poster token')"
  shows "(CHR ''|'' \<notin> set other \<longrightarrow> lower other \<noteq> lower poster \<longrightarrow>
      \<not> mine (fst (claimTaskHash db1 later hash other token'))) \<and>
    (token' \<noteq> token \<longrightarrow> \<not> fst (releaseTaskHashClaim db2 later hash poster token)) \<and>
    fst (releaseTaskHashClaim db2 later hash poster token')"
proof -
  have low: "claimTaskHash d t hash (lower a) x = claimTaskHash d t hash a x"
    "releaseTaskHashClaim d t hash (lower a) x = releaseTaskHashClaim d t hash a x" for d t a x
    by (simp_all add: claimTaskHash_def releaseTaskHashClaim_def)
  have held: "claim_held db1 later hash (lower poster, token)"
    using claim.take_holds [of db now hash "(lower poster, token)" later] assms
    by (simp add: take_claim_def low Let_def)
  have took: "mine (fst (claimTaskHash db1 later hash poster token'))"
    using claim.take_foreign [of "(lower poster, token)" "(lower poster, token')" db1 later hash] held assms(4)
    by (simp add: take_claim_def low request_wf_def Let_def)
  then have held2: "claim_held db2 later hash (lower poster, token')"
    using claim.take_holds [of db1 later hash "(lower poster, token')" later]
    by (simp add: take_claim_def low db2_def Let_def HASH_CLAIM_TTL_SECONDS_def)
  have "\<not> mine (fst (claimTaskHash db1 later hash other token'))"
    if "CHR ''|'' \<notin> set other" "lower other \<noteq> lower poster"
    using claim.take_foreign [of "(lower poster, token)" "(lower other, token')" db1 later hash] held that assms(4)
    by (simp add: take_claim_def low request_wf_def Let_def)
  moreover have "fst (releaseTaskHashClaim db2 later hash poster t) = (t = token')" for t
    using claim.drop_iff [of db2 later hash "(lower poster, t)"] held2
      claim.holder_unique [of "(lower poster, t)" "(lower poster, token')" db2 later hash] assms(4)
    by (auto simp: low request_wf_def)
  ultimately show ?thesis by simp
qed

theorem hash_claim_belongs_to_poster_witness:
  "\<not> mine (fst (claimTaskHash (snd (claimTaskHash empty_db 0 ''h'' ''0xa'' ''p'')) 1 ''h'' ''0xb'' ''q''))"
proof -
  have "mine (fst (claimTaskHash empty_db 0 ''h'' ''0xa'' ''p''))"
    by (simp add: claimTaskHash_def empty_db_def kv_get_def Let_def)
  from hash_claim_belongs_to_poster [OF this, of 1 "''0xb''" "''q''"]
  show ?thesis by (simp add: HASH_CLAIM_TTL_SECONDS_def lower_eval)
qed

section \<open>Listing\<close>

text \<open>
  Browsing over the open index offers an agent exactly the open agent tasks of the current
  network whose deadline has not come and whose required capabilities it has: none it could
  not take, none left out.
\<close>

theorem browse_is_exact:
  assumes "a2a_reachable db" "set ids = open_ix db"
  shows "(m, s) \<in> set (browseAgentTasks cfg db now ids caps) \<longleftrightarrow>
    (\<exists>k. metas db k = Some m \<and> states db k = Some s) \<and>
    status s = Open \<and> targetExecutorType m = Agent \<and>
    onCurrentNetwork cfg (chain m) (chainId m) \<and>
    (\<forall>d. deadline m = Some d \<and> d \<noteq> 0 \<longrightarrow> now div 1000 < d) \<and>
    (\<forall>cs. caps = Some cs \<and> cs \<noteq> [] \<longrightarrow> set (requiredCapabilities m) \<subseteq> set cs)"
proof -
  have ok: "index_ok db" using assms(1) by (rule reachable_index_ok)
  have loaded: "(m, s) \<in> set (loadTasksByIndex db ids) \<longleftrightarrow>
      (\<exists>i \<in> open_ix db. metas db (lower i) = Some m \<and> states db (lower i) = Some s)"
    unfolding loadTasksByIndex_def load_pair_def assms(2) [symmetric]
    by (induction ids) (auto simp: List.map_filter_def split: option.splits)
  have key: "(\<exists>i \<in> open_ix db. metas db (lower i) = Some m \<and> states db (lower i) = Some s) \<longleftrightarrow>
      (\<exists>k. metas db k = Some m \<and> states db k = Some s)"
    if "status s = Open" "targetExecutorType m = Agent"
  proof
    assume "\<exists>k. metas db k = Some m \<and> states db k = Some s"
    then obtain k where k: "metas db k = Some m" "states db k = Some s" by blast
    have "lower k = k" using ok k(2) by (rule index_ok_state)
    moreover have "k \<in> open_ix db"
      using index_ok_open [OF ok k(2,1)] that by (simp add: in_open_index_def)
    ultimately show "\<exists>i \<in> open_ix db. metas db (lower i) = Some m \<and> states db (lower i) = Some s"
      using k by force
  qed blast
  have mode: "submissionMode m \<noteq> Some OpenSubmission"
    if "metas db k = Some m" "states db k = Some s" "status s = Open" for k
    using ok that(2) by (rule index_ok_state) (use that in \<open>auto simp: mode_ok_def terminal_def split: if_splits\<close>)
  have browse: "browsable cfg (now div 1000) caps m \<longleftrightarrow>
      onCurrentNetwork cfg (chain m) (chainId m) \<and>
      (\<forall>d. deadline m = Some d \<and> d \<noteq> 0 \<longrightarrow> now div 1000 < d) \<and>
      (\<forall>cs. caps = Some cs \<and> cs \<noteq> [] \<longrightarrow> set (requiredCapabilities m) \<subseteq> set cs)"
    by (auto simp: browsable_def list_all_iff split: option.split)
  have "(m, s) \<in> set (browseAgentTasks cfg db now ids caps) \<longleftrightarrow>
      (m, s) \<in> set (loadTasksByIndex db ids) \<and> listable (m, s) \<and> browsable cfg (now div 1000) caps m"
    by (auto simp: browseAgentTasks_def listOpenTasks_def)
  then show ?thesis
    unfolding loaded browse using key mode by (auto simp: listable_def)
qed

theorem browse_is_exact_witness:
  "(sample_meta\<lparr>taskId := ''t1''\<rparr>, bare_state ''t1'' Open) \<in>
     set (browseAgentTasks testnet_config posted_db 0 [''t1''] (Some [''code'']))"
proof -
  have "set [''t1''] = open_ix posted_db" by (simp add: posted_db_sel)
  from browse_is_exact [OF posted_db_reachable this, of "sample_meta\<lparr>taskId := ''t1''\<rparr>"
    "bare_state ''t1'' Open" testnet_config 0 "Some [''code'']"]
  show ?thesis by (simp add: posted_db_sel sample_meta_def onCurrentNetwork_def)
qed

lemma dedup_by_keys: "f ` set (dedup_by f seen xs) = f ` set xs - set seen"
  by (induction f seen xs rule: dedup_by.induct) auto

lemma dedup_by_subset: "set (dedup_by f seen xs) \<subseteq> set xs"
  by (induction f seen xs rule: dedup_by.induct) auto

lemma dedup_by_distinct: "distinct (map f (dedup_by f seen xs))"
proof (induction f seen xs rule: dedup_by.induct)
  case (2 f seen x xs)
  have "f x \<notin> f ` set (dedup_by f (f x # seen) xs)" by (simp add: dedup_by_keys)
  with 2 show ?case by simp
qed simp

text \<open>
  A poster's list over several wallets shows each task once, and every indexed task of
  every wallet.
\<close>

theorem poster_list_distinct_complete:
  "distinct (map (\<lambda>(m, s). lower (taskId m)) (getPosterTasksForWallets db replies wallets)) \<and>
   (\<lambda>(m, s). lower (taskId m)) ` set (getPosterTasksForWallets db replies wallets) =
   (\<lambda>(m, s). lower (taskId m)) `
     (\<Union>w \<in> set wallets. set (loadTasksByIndex db (replies (lower w))))"
proof -
  have "set (dedup_by id [] (map lower wallets)) = lower ` set wallets"
    using dedup_by_keys [of id "[]" "map lower wallets"] by simp
  then show ?thesis
    unfolding getPosterTasksForWallets_def dedup_by_keys by (simp add: dedup_by_distinct)
qed

section \<open>What a public reader sees\<close>

definition same_presence :: "string option \<Rightarrow> string option \<Rightarrow> bool" where
  "same_presence x y \<longleftrightarrow> (truthy x = None) = (truthy y = None)"

definition answer_given :: "criteria \<Rightarrow> bool" where
  "answer_given c \<longleftrightarrow> (\<exists>a. expected_answer c = Some a \<and> trim a \<noteq> [])"

text \<open>
  Neither projection depends on what it hides: wrapped keys, the custody blob, a private
  brief's storage hash beyond whether there is one, what the expected answer is beyond whether
  there is one, the internal errors, the raw result, and, outside public tasks, why
  verification decided as it did.
\<close>

theorem public_projection_hides:
  assumes "privacy m \<noteq> Some Public" "same_presence (rootHash m) h"
    and "verificationCriteria m = Some c" "answer_given c = answer_given (c\<lparr>expected_answer := a\<rparr>)"
    and "verificationResult s = Some v" "vr_passed v' = vr_passed v" "vr_score v' = vr_score v"
  shows "projectPublicEntry (m, s) = projectPublicEntry
    (m\<lparr>wrappedKeys := w, keyCustodyBlob := b, rootHash := h,
       verificationCriteria := Some (c\<lparr>expected_answer := a\<rparr>)\<rparr>,
     s\<lparr>assignError := e, verifyError := e', resultData := r, verificationResult := Some v'\<rparr>)"
proof -
  have given: "(case expected_answer c of None \<Rightarrow> False | Some a \<Rightarrow> trim a \<noteq> []) =
      (case a of None \<Rightarrow> False | Some a \<Rightarrow> trim a \<noteq> [])"
    using assms(4) by (auto simp: answer_given_def split: option.split)
  have "projectPublicMeta m = projectPublicMeta (m\<lparr>wrappedKeys := w, keyCustodyBlob := b,
      rootHash := h, verificationCriteria := Some (c\<lparr>expected_answer := a\<rparr>)\<rparr>)"
    using assms(1-3) given
    by (simp add: projectPublicMeta_def projectCriteria_def same_presence_def Let_def)
  moreover have "projectPublicState s (privacy m) = projectPublicState (s\<lparr>assignError := e,
      verifyError := e', resultData := r, verificationResult := Some v'\<rparr>) (privacy m)"
    using assms(1,5-7) by (simp add: projectPublicState_def Let_def)
  ultimately show ?thesis by (simp add: projectPublicEntry_def)
qed

definition sample_criteria :: criteria where
  "sample_criteria =
     \<lparr>required_fields = None, min_length = None, contains_keywords = None, max_length = None,
      expected_answer = Some ''a'', forbidden_phrases = None, regex_pattern = None,
      expected_schema = None, rubric = None, pass_threshold = None, acceptance = None\<rparr>"

definition sample_verification :: "json \<Rightarrow> verification" where
  "sample_verification why =
     \<lparr>vr_passed = True, vr_score = None, vr_reasons = why, vr_breakdown = None, vr_errors = None\<rparr>"

theorem public_projection_hides_witness:
  "projectPublicEntry
     (sample_meta\<lparr>rootHash := Some ''0x1'', verificationCriteria := Some sample_criteria\<rparr>,
      (bare_state ''t1'' Verified)\<lparr>verificationResult := Some (sample_verification (JArr []))\<rparr>) =
   projectPublicEntry
     (sample_meta\<lparr>rootHash := Some ''0x2'', wrappedKeys := Some [''0xa'' \<mapsto> ''k''],
        verificationCriteria := Some (sample_criteria\<lparr>expected_answer := Some ''b''\<rparr>)\<rparr>,
      (bare_state ''t1'' Verified)\<lparr>resultData := Some (JStr ''secret''),
        verificationResult := Some (sample_verification (JStr ''why''))\<rparr>)"
proof -
  let ?m = "sample_meta\<lparr>rootHash := Some ''0x1'', verificationCriteria := Some sample_criteria\<rparr>"
  let ?s = "(bare_state ''t1'' Verified)\<lparr>verificationResult := Some (sample_verification (JArr []))\<rparr>"
  have "trim ''a'' \<noteq> []" "trim ''b'' \<noteq> []" by code_simp+
  then have given: "answer_given sample_criteria = answer_given (sample_criteria\<lparr>expected_answer := Some ''b''\<rparr>)"
    by (simp add: answer_given_def sample_criteria_def)
  have "projectPublicEntry (?m, ?s) = projectPublicEntry
      (?m\<lparr>wrappedKeys := Some [''0xa'' \<mapsto> ''k''], keyCustodyBlob := None, rootHash := Some ''0x2'',
        verificationCriteria := Some (sample_criteria\<lparr>expected_answer := Some ''b''\<rparr>)\<rparr>,
       ?s\<lparr>assignError := None, verifyError := None, resultData := Some (JStr ''secret''),
        verificationResult := Some (sample_verification (JStr ''why''))\<rparr>)"
    by (rule public_projection_hides [where v = "sample_verification (JArr [])", OF _ _ _ given])
      (simp_all add: same_presence_def sample_verification_def)
  then show ?thesis by (simp add: sample_meta_def bare_state_def)
qed

section \<open>Offers in turn\<close>

text \<open>The entries a cascade offers to after its head, one advance per time, until it ends.\<close>

fun cascade_visits :: "a2a_db \<Rightarrow> string \<Rightarrow> int list \<Rightarrow> cascade_entry list" where
  "cascade_visits db tid [] = []"
| "cascade_visits db tid (t # us) =
     (case advanceCascade db t tid of
        (None, _) \<Rightarrow> []
      | (Some (e, _), db') \<Rightarrow> e # cascade_visits db' tid us)"

text \<open>Each time less than a cascade's life after the one before it.\<close>

fun in_time :: "int \<Rightarrow> int list \<Rightarrow> bool" where
  "in_time before [] = True"
| "in_time before (t # us) = (before \<le> t \<and> t < before + CASCADE_TTL_MS \<and> in_time t us)"

lemma cascade_visits_from:
  assumes "kv_get before (cascades db) (lower tid) = Some c"
    and "\<And>t. before \<le> t \<Longrightarrow> t < before + CASCADE_TTL_MS \<Longrightarrow> kv_get t (cascades db) (lower tid) = Some c"
    and "in_time before us" "length (ranked c) \<le> Suc (position c) + length us"
  shows "cascade_visits db tid us = take (length us) (drop (Suc (position c)) (ranked c))"
  using assms
proof (induction us arbitrary: db c before)
  case (Cons t us)
  have get: "kv_get t (cascades db) (lower tid) = Some c" using Cons.prems by simp
  show ?case
  proof (cases "length (ranked c) \<le> Suc (position c)")
    case True
    then show ?thesis by (simp add: advanceCascade_def get Let_def)
  next
    case False
    let ?c = "c\<lparr>position := Suc (position c)\<rparr>"
    let ?db = "db\<lparr>cascades := kv_setex t (cascades db) (lower tid) (ceil_sec CASCADE_TTL_MS) ?c\<rparr>"
    have "cascade_visits ?db tid us = take (length us) (drop (Suc (position ?c)) (ranked ?c))"
      using Cons.prems by (intro Cons.IH [where before = t]) (auto simp: redis_simps ceil_sec_def CASCADE_TTL_MS_def)
    with False show ?thesis
      by (simp add: advanceCascade_def get Let_def Cons_nth_drop_Suc [symmetric])
  qed
qed simp

text \<open>
  C40. A cascade that is advanced in time offers the task to each remaining candidate once, in
  rank order, and then ends; and with an exploration pick at its head, that agent is offered
  the task once only, wherever it ranked.
\<close>

theorem cascade_offers_each_candidate_once:
  assumes "rs \<noteq> []" "in_time now us" "length rs \<le> Suc (length us)"
  shows "cascade_visits (setCascade db now tid rs) tid us = tl rs \<and>
    (rs = withExplorationHead pick ranks \<longrightarrow>
      list_all (\<lambda>e. lower (ce_address e) \<noteq> lower (ce_address pick))
        (cascade_visits (setCascade db now tid rs) tid us) \<and>
      map ce_address (tl rs) =
        filter (\<lambda>a. lower a \<noteq> lower (ce_address pick)) (map ce_address ranks))"
proof -
  have "cascade_visits (setCascade db now tid rs) tid us = take (length us) (drop 1 rs)"
    using assms cascade_visits_from [of now "setCascade db now tid rs" tid
        "\<lparr>ranked = rs, position = 0, startedAt = now\<rparr>" us]
    by (simp add: setCascade_def redis_simps ceil_sec_def CASCADE_TTL_MS_def)
  then have visits: "cascade_visits (setCascade db now tid rs) tid us = tl rs"
    using assms by (simp add: drop_Suc)
  show ?thesis
    unfolding visits by (auto simp: withExplorationHead_def list_all_iff filter_map comp_def)
qed

theorem cascade_offers_each_candidate_once_witness:
  "cascade_visits (setCascade empty_db 0 ''t''
     [\<lparr>ce_address = ''a'', ce_score = 1, ce_displayName = ''A''\<rparr>,
      \<lparr>ce_address = ''b'', ce_score = 0, ce_displayName = ''B''\<rparr>]) ''t'' [15000, 30000] =
   [\<lparr>ce_address = ''b'', ce_score = 0, ce_displayName = ''B''\<rparr>]"
  using cascade_offers_each_candidate_once [of
    "[\<lparr>ce_address = ''a'', ce_score = 1, ce_displayName = ''A''\<rparr>,
      \<lparr>ce_address = ''b'', ce_score = 0, ce_displayName = ''B''\<rparr>]" 0 "[15000, 30000]"]
  by (simp add: CASCADE_TTL_MS_def)

section \<open>The assign transaction's broadcast time\<close>

lemma show_nat_no_colon: "CHR '':'' \<notin> set (show_nat n)"
  using show_nat_chars [of "CHR '':''" n] by (auto simp: digit_val_def)

text \<open>
  What was recorded as the broadcast time of an assign transaction is read back for that
  transaction, in any letter case, for the week it is kept, and for no other transaction.
\<close>

theorem assign_broadcast_roundtrip:
  assumes "CHR '':'' \<notin> set tx" "0 < atMs" "later < now + 1000 * ASSIGN_RECONCILED_TTL_S"
  shows "getAssignBroadcastAt (markAssignBroadcast db now tid tx atMs) later tid other =
    (if lower other = lower tx then Some atMs else None)"
proof -
  have colon: "CHR '':'' \<notin> set (lower tx)"
    using assms(1) by (subst mem_lower_other) (simp_all add: upper_letters_def lower_letters_def)
  obtain n where n: "atMs = int n" "0 < n" using assms(2) zero_less_imp_eq_int by blast
  have tw: "takeWhile (\<lambda>c. c \<noteq> CHR '':'') (lower tx @ CHR '':'' # show_nat n) = lower tx"
    using colon by (intro takeWhile_append_stop) auto
  have dw: "dropWhile (\<lambda>c. c \<noteq> CHR '':'') (lower tx @ CHR '':'' # show_nat n) = CHR '':'' # show_nat n"
    using colon by (subst dropWhile_append2) auto
  have rest: "takeWhile (\<lambda>c. c \<noteq> CHR '':'') (show_nat n) = show_nat n"
    using show_nat_no_colon [of n] by (subst takeWhile_eq_all_conv) auto
  have "split_colon (lower tx @ '':'' @ show_int atMs) = (lower tx, Some (show_nat n))"
    using tw dw rest n by (simp add: split_colon_def show_int_def Let_def)
  then show ?thesis
    using assms n
    by (auto simp: getAssignBroadcastAt_def markAssignBroadcast_def redis_simps Let_def)
qed

theorem assign_broadcast_roundtrip_witness:
  "getAssignBroadcastAt (markAssignBroadcast empty_db 0 ''t'' ''0xAb'' 7) 1000 ''t'' ''0xaB'' = Some 7"
  by (subst assign_broadcast_roundtrip) (simp_all add: ASSIGN_RECONCILED_TTL_S_def lower_eval)

section \<open>Where the store does not do what it says\<close>

text \<open>
  Writing the meta of an agent task again, as a re-index does, puts the task back into
  \<open>a2a:open\<close> even when an agent has it: the invariant stated with the store then fails until the
  next resync. The status is left alone, and the list of open tasks leaves the task out.
\<close>

theorem reindex_relists_taken_task:
  assumes "find_state db (taskId m) = Some (k, s)" "status s \<noteq> Open"
    and "targetExecutorType m = Agent" "submissionMode m = None"
  shows "lower (taskId m) \<in> open_ix (setMeta db m) \<and>
    find_state (setMeta db m) (taskId m) = Some (k, s) \<and>
    list_all (\<lambda>p. status (snd p) = Open) (listOpenTasks (setMeta db m) ids)"
proof -
  have "states (setMeta db m) = states db" using assms by (simp add: setMeta_def Let_def)
  then have "find_state (setMeta db m) (taskId m) = Some (k, s)"
    using assms(1) find_state_cong by metis
  then show ?thesis
    using assms by (auto simp: setMeta_def Let_def listOpenTasks_def listable_def list_all_iff)
qed

theorem reindex_relists_taken_task_witness:
  "''t1'' \<in> open_ix (setMeta accepted_db sample_meta)"
  using reindex_relists_taken_task [of accepted_db sample_meta] accepted_db_find
  by simp

fun no_empty_array :: "json \<Rightarrow> bool" where
  "no_empty_array (JArr xs) = (xs \<noteq> [] \<and> list_all no_empty_array xs)"
| "no_empty_array (JObj kvs) = list_all (\<lambda>kv. no_empty_array (snd kv)) kvs"
| "no_empty_array v = True"

lemma cjson_same_iff: "cjson v = v \<longleftrightarrow> no_empty_array v"
proof (induction v rule: cjson.induct)
  case (2 x xs)
  have "map cjson xs = xs \<longleftrightarrow> (\<forall>y \<in> set xs. cjson y = y)"
    by (induction xs) auto
  with 2 show ?case by (auto simp: list_all_iff)
next
  case (3 kvs)
  have "map (\<lambda>(k, v). (k, cjson v)) kvs = kvs \<longleftrightarrow> (\<forall>kv \<in> set kvs. cjson (snd kv) = snd kv)"
    by (induction kvs) auto
  with 3 show ?case by (auto simp: list_all_iff)
qed simp_all

text \<open>
  The scripts that rewrite a state keep a stored result exactly when it has no empty list
  in it: Lua writes an empty list back as an empty object.
\<close>

theorem close_keeps_result_iff_no_empty_list:
  assumes "getState db tid = Some s" "\<not> terminal (status s)" "resultData s = Some r"
  shows "\<exists>s'. getState (snd (tryCloseOnChainTerminal db tid reason)) tid = Some s' \<and>
    status s' = Failed \<and> executorAddress s' = executorAddress s \<and>
    (resultData s' = Some r \<longleftrightarrow> no_empty_array r)"
proof -
  obtain k where k: "find_state db tid = Some (k, s)"
    using assms(1) by (auto simp: getState_def)
  let ?s = "(cjson_state s)\<lparr>status := Failed, failedReason := Some (close_reason_text reason)\<rparr>"
  let ?db = "snd (tryCloseOnChainTerminal db tid reason)"
  have "states ?db = states (put_state db k ?s)"
    using k assms(2) by (simp add: tryCloseOnChainTerminal_def close_script_def Let_def)
  then have "find_state ?db tid = Some (k, ?s)"
    using find_state_cong find_state_put [OF k] by metis
  moreover have "resultData ?s = Some (cjson r)" using assms(3) by (simp add: cjson_state_def)
  ultimately show ?thesis by (simp add: getState_def cjson_same_iff)
qed

theorem close_keeps_result_iff_no_empty_list_witness:
  "\<exists>s'. getState (snd (tryCloseOnChainTerminal
      (empty_db\<lparr>states := [''t1'' \<mapsto> (bare_state ''t1'' Submitted)\<lparr>resultData := Some (JArr [])\<rparr>]\<rparr>)
      ''T1'' ClosedExpired)) ''T1'' = Some s' \<and> resultData s' \<noteq> Some (JArr [])"
proof -
  let ?s = "(bare_state ''t1'' Submitted)\<lparr>resultData := Some (JArr [])\<rparr>"
  let ?db = "empty_db\<lparr>states := [''t1'' \<mapsto> ?s]\<rparr>"
  have "getState ?db ''T1'' = Some ?s" by (simp add: getState_def find_state_def)
  moreover have "\<not> terminal (status ?s)" by (simp add: terminal_def)
  moreover have "resultData ?s = Some (JArr [])" by simp
  ultimately obtain s' where "getState (snd (tryCloseOnChainTerminal ?db ''T1'' ClosedExpired)) ''T1'' = Some s'"
    "resultData s' \<noteq> Some (JArr [])"
    using close_keeps_result_iff_no_empty_list [of ?db "''T1''" ?s "JArr []" ClosedExpired] by auto
  then show ?thesis by blast
qed

text \<open>
  A task under a legacy mixed-case key that is accepted and then released is open again,
  but its former executor's index keeps it: accept adds the lowercased id, release removes the
  id as it is stored.
\<close>

theorem legacy_release_leaves_executor_entry:
  fixes db :: a2a_db and tid executor :: string and atMs :: int
  assumes "states db (lower tid) = None" "states db tid = Some s" "status s = Open"
    and "getMeta db tid = Some m" "executor \<noteq> []"
    and "executorAddress s = None" "assignTxHash s = None"
  defines "db1 \<equiv> snd (tryAccept db tid executor atMs)"
  defines "r \<equiv> tryReleaseAccepted db1 tid \<lparr>exp_executor = Some executor, exp_tx = None, exp_status = None\<rparr>"
  shows "fst r = Inr (Won ()) \<and> getState (snd r) tid = Some (bare_state tid Open) \<and>
    lower tid \<in> executor_ix (snd r) (lower executor)"
proof -
  have low: "lower tid \<noteq> tid" using assms(1,2) by force
  then have f: "find_state db tid = Some (tid, s)" using assms(1,2) by (simp add: find_state_def)
  let ?s = "(cjson_state s)\<lparr>status := Accepted, executorAddress := Some executor, acceptedAt := Some atMs\<rparr>"
  have fields: "states db1 = states (put_state db tid ?s)" "metas db1 = metas db"
    "executor_ix db1 = ix_add (executor_ix db) (lower executor) (lower tid)"
    using f assms(3) by (simp_all add: db1_def snd_tryAccept accept_script_def put_state_def Let_def)
  have f1: "find_state db1 tid = Some (tid, ?s)"
    using find_state_cong [OF fields(1)] find_state_put [OF f] by metis
  have "getMeta db1 tid = Some m"
    using assms(4) find_meta_cong [OF fields(2), of tid] by (simp add: getMeta_def)
  moreover have "unchanged_since \<lparr>exp_executor = Some executor, exp_tx = None, exp_status = None\<rparr> ?s"
    using assms(7) by (simp add: unchanged_since_def expected_status_def or_empty_def)
  moreover have "truthy (Some executor) = Some executor"
    using assms(5) by (simp add: truthy_Some_iff)
  ultimately have r: "fst r = Inr (Won ())"
    "states (snd r) = states (put_state db1 tid (bare_state tid Open))"
    "executor_ix (snd r) = ix_rem (executor_ix db1) (lower executor) tid"
    using f1 by (simp_all add: r_def tryReleaseAccepted_def release_script_def Let_def)
  have "find_state (snd r) tid = Some (tid, bare_state tid Open)"
    using find_state_cong [OF r(2)] find_state_put [OF f1] by metis
  with r low show ?thesis by (simp add: getState_def fields ix_rem_def ix_add_def)
qed

theorem legacy_release_leaves_executor_entry_witness:
  "''t1'' \<in> executor_ix (snd (tryReleaseAccepted
     (snd (tryAccept (empty_db\<lparr>states := [''T1'' \<mapsto> bare_state ''T1'' Open],
        metas := [''T1'' \<mapsto> sample_meta]\<rparr>) ''T1'' ''0xB'' 5))
     ''T1'' \<lparr>exp_executor = Some ''0xB'', exp_tx = None, exp_status = None\<rparr>)) ''0xb''"
  using legacy_release_leaves_executor_entry
    [of "empty_db\<lparr>states := [''T1'' \<mapsto> bare_state ''T1'' Open], metas := [''T1'' \<mapsto> sample_meta]\<rparr>"
      "''T1''" "bare_state ''T1'' Open" sample_meta "''0xB''" 5]
  by (simp add: getMeta_def find_meta_def)

end
