(* ===== verification/OpenStore.thy ===== *)
theory OpenStore
  imports Chains KeyValue Interfaces
begin

text \<open>
  \<open>services/openSubmissionStore.ts\<close>: what the escrow's events say of each open-submission
  task, by the on-chain task a \<open>TaskRef\<close> names. The state is the record \<open>open_db\<close>, one field per
  key family. A page of a SCAN or HSCAN is what the server returned, in its order. The keccak
  hash of a scorecard's JSON is the parameter \<open>digest\<close>.
\<close>

section \<open>State\<close>

datatype pick_by = PickAgent | PickCreator

record open_record =
  or_chain :: chain_key
  or_taskId :: string
  or_taskHash :: string
  or_poster :: string
  or_deadline :: int
  or_mode :: pick_by
  or_creatorWindow :: int
  or_scope :: "string option"

record submission_rec =
  sr_evidenceHash :: string
  sr_ordinal :: int
  sr_txHash :: "string option"
  sr_recordedAt :: string

datatype open_judge = JudgeCreator | JudgeTaskVerifier | JudgeBackup | JudgeAdmin

datatype outcome_kind = OutWinner | OutVoid

record task_outcome =
  to_kind :: outcome_kind
  to_winner :: "string option"
  to_judge :: open_judge
  to_scorecardHash :: "string option"

record kept_scorecard =
  ks_hash :: string
  ks_scorecard :: json

datatype scorecard_role = RoleCreator | RoleTaskVerifier | RoleBackup

fun role_name :: "scorecard_role \<Rightarrow> string" where
  "role_name RoleCreator = ''creator''"
| "role_name RoleTaskVerifier = ''task_verifier''"
| "role_name RoleBackup = ''backup''"

record open_result =
  res_data :: json
  res_evidenceHash :: string
  res_rootHash :: "string option"
  res_tee :: "json option"
  res_savedAt :: string

record open_decline =
  dec_verifier :: string
  dec_at :: string
  dec_scorecard :: "json option"

definition PENDING_RESULT_TTL_SEC :: int where
  "PENDING_RESULT_TTL_SEC = 3600"

definition MAX_HELD :: nat where
  "MAX_HELD = 10"

definition RESULTS_TTL_SEC :: int where
  "RESULTS_TTL_SEC = 120 * 86400"

definition PENDING_SCORECARD_TTL_SEC :: int where
  "PENDING_SCORECARD_TTL_SEC = 9 * 86400"

text \<open>A hash under a key with an expiry is a map from fields to values, with that expiry.\<close>

record open_db =
  o_records :: "open_record kv"
  o_subs :: "(string \<rightharpoonup> submission_rec) kv"
  o_outcomes :: "task_outcome kv"
  o_closed :: "unit kv"
  o_gates :: "unit kv"
  o_pending :: "open_result kv"
  o_results :: "(string \<rightharpoonup> open_result) kv"
  o_held :: "zset kv"
  o_cards_pending :: "kept_scorecard kv"
  o_cards :: "kept_scorecard kv"
  o_declines :: "open_decline kv"
  o_due :: zset
  o_judge_due :: "string \<Rightarrow> zset"
  o_backfilled :: "unit kv"

definition empty_open_db :: open_db where
  "empty_open_db =
     \<lparr>o_records = Map.empty, o_subs = Map.empty, o_outcomes = Map.empty, o_closed = Map.empty,
      o_gates = Map.empty, o_pending = Map.empty, o_results = Map.empty, o_held = Map.empty,
      o_cards_pending = Map.empty, o_cards = Map.empty, o_declines = Map.empty, o_due = [],
      o_judge_due = (\<lambda>_. []), o_backfilled = Map.empty\<rparr>"

section \<open>Task references\<close>

definition taskRef :: "config \<Rightarrow> chain_key \<Rightarrow> string \<Rightarrow> string" where
  "taskRef cfg chain tid = chainScope cfg chain @ '':'' @ tid"

text \<open>\<open>ref.slice(0, ref.lastIndexOf(':'))\<close>; without a colon the slice drops the last character.\<close>

definition scopeOfRef :: "string \<Rightarrow> string" where
  "scopeOfRef ref =
     (if CHR '':'' \<in> set ref
      then rev (tl (dropWhile (\<lambda>c. c \<noteq> CHR '':'') (rev ref)))
      else butlast ref)"

definition pending_key :: "string \<Rightarrow> string \<Rightarrow> string" where
  "pending_key ref submitter = ref @ '':'' @ lower submitter"

definition card_key :: "string \<Rightarrow> scorecard_role \<Rightarrow> string" where
  "card_key ref role = ref @ '':'' @ role_name role"

section \<open>The task\<close>

definition getRecord :: "open_db \<Rightarrow> int \<Rightarrow> string \<Rightarrow> open_record option" where
  "getRecord db now ref = kv_get now (o_records db) ref"

definition saveRecord :: "config \<Rightarrow> open_db \<Rightarrow> int \<Rightarrow> open_record \<Rightarrow> open_record \<times> open_db" where
  "saveRecord cfg db now rec =
     (let stored = rec\<lparr>or_taskHash := lower (or_taskHash rec), or_poster := lower (or_poster rec),
                       or_scope := Some (chainScope cfg (or_chain rec))\<rparr>;
          ref = taskRef cfg (or_chain rec) (or_taskId rec);
          r = kv_setnx now (o_records db) ref None stored
      in if fst r then (stored, db\<lparr>o_records := snd r\<rparr>)
         else ((case getRecord db now ref of Some s \<Rightarrow> s | None \<Rightarrow> stored), db))"

definition onThisNetwork :: "config \<Rightarrow> open_record \<Rightarrow> bool" where
  "onThisNetwork cfg rec \<longleftrightarrow>
     or_scope rec = None \<or> or_scope rec = Some (chainScope cfg (or_chain rec))"

definition saveOutcome :: "open_db \<Rightarrow> int \<Rightarrow> string \<Rightarrow> task_outcome \<Rightarrow> bool \<times> open_db" where
  "saveOutcome db now ref out =
     (let r = kv_setnx now (o_outcomes db) ref None out in (fst r, db\<lparr>o_outcomes := snd r\<rparr>))"

definition getOutcome :: "open_db \<Rightarrow> int \<Rightarrow> string \<Rightarrow> task_outcome option" where
  "getOutcome db now ref = kv_get now (o_outcomes db) ref"

definition markClosedNotified :: "open_db \<Rightarrow> int \<Rightarrow> string \<Rightarrow> bool \<times> open_db" where
  "markClosedNotified db now ref =
     (let r = kv_setnx now (o_closed db) ref None () in (fst r, db\<lparr>o_closed := snd r\<rparr>))"

definition isClosedNotified :: "open_db \<Rightarrow> int \<Rightarrow> string \<Rightarrow> bool" where
  "isClosedNotified db now ref \<longleftrightarrow> kv_get now (o_closed db) ref \<noteq> None"

definition takeCountNoticeSlot :: "open_db \<Rightarrow> int \<Rightarrow> string \<Rightarrow> int \<Rightarrow> bool \<times> open_db" where
  "takeCountNoticeSlot db now ref gapSec =
     (let r = kv_setnx now (o_gates db) ref (Some gapSec) () in (fst r, db\<lparr>o_gates := snd r\<rparr>))"

definition scheduleSweep :: "open_db \<Rightarrow> string \<Rightarrow> int \<Rightarrow> open_db" where
  "scheduleSweep db ref atSec = db\<lparr>o_due := zadd (o_due db) atSec ref\<rparr>"

definition unscheduleSweep :: "open_db \<Rightarrow> string \<Rightarrow> open_db" where
  "unscheduleSweep db ref = db\<lparr>o_due := zrem (o_due db) ref\<rparr>"

definition dueForSweep :: "open_db \<Rightarrow> int \<Rightarrow> nat \<Rightarrow> string list" where
  "dueForSweep db nowSec limit = zrange (o_due db) nowSec limit"

definition scheduleJudge :: "open_db \<Rightarrow> string \<Rightarrow> int \<Rightarrow> open_db" where
  "scheduleJudge db ref atSec =
     (let k = scopeOfRef ref in
      db\<lparr>o_judge_due := (o_judge_due db)(k := zadd (o_judge_due db k) atSec ref)\<rparr>)"

definition scheduleJudgeIfAbsent :: "open_db \<Rightarrow> string \<Rightarrow> int \<Rightarrow> open_db" where
  "scheduleJudgeIfAbsent db ref atSec =
     (let k = scopeOfRef ref in
      db\<lparr>o_judge_due := (o_judge_due db)(k := zadd_nx (o_judge_due db k) atSec ref)\<rparr>)"

definition unscheduleJudge :: "open_db \<Rightarrow> string \<Rightarrow> open_db" where
  "unscheduleJudge db ref =
     (let k = scopeOfRef ref in
      db\<lparr>o_judge_due := (o_judge_due db)(k := zrem (o_judge_due db k) ref)\<rparr>)"

definition dueForJudge :: "open_db \<Rightarrow> string \<Rightarrow> int \<Rightarrow> nat \<Rightarrow> string list" where
  "dueForJudge db sc nowSec limit = zrange (o_judge_due db sc) nowSec limit"

definition isJudgeBackfilled :: "open_db \<Rightarrow> int \<Rightarrow> string \<Rightarrow> bool" where
  "isJudgeBackfilled db now sc \<longleftrightarrow> kv_get now (o_backfilled db) sc \<noteq> None"

definition markJudgeBackfilled :: "open_db \<Rightarrow> string \<Rightarrow> open_db" where
  "markJudgeBackfilled db sc = db\<lparr>o_backfilled := kv_set (o_backfilled db) sc ()\<rparr>"

text \<open>\<open>pages\<close> are the pages of the SCAN over the record keys; each that is not empty is visited.\<close>

definition forEachRecordRef :: "(string list \<Rightarrow> 'a \<Rightarrow> 'a) \<Rightarrow> string list list \<Rightarrow> 'a \<Rightarrow> 'a" where
  "forEachRecordRef visit pages a = fold visit (filter (\<lambda>p. p \<noteq> []) pages) a"

section \<open>Submissions\<close>

text \<open>HSETNX on a hash with an expiry, and EXPIRE of a key that is there.\<close>

definition hash_get :: "int \<Rightarrow> (string \<rightharpoonup> 'v) kv \<Rightarrow> string \<Rightarrow> string \<Rightarrow> 'v option" where
  "hash_get now m k f = Option.bind (kv_get now m k) (\<lambda>h. h f)"

definition hash_setnx ::
  "int \<Rightarrow> (string \<rightharpoonup> 'v) kv \<Rightarrow> string \<Rightarrow> string \<Rightarrow> 'v \<Rightarrow> bool \<times> (string \<rightharpoonup> 'v) kv" where
  "hash_setnx now m k f v =
     (case m k of
        None \<Rightarrow> (True, m(k \<mapsto> ([f \<mapsto> v], None)))
      | Some (h, e) \<Rightarrow>
          if \<not> live now e then (True, m(k \<mapsto> ([f \<mapsto> v], None)))
          else if h f = None then (True, m(k \<mapsto> (h(f \<mapsto> v), e)))
          else (False, m))"

definition kv_expire :: "int \<Rightarrow> 'v kv \<Rightarrow> string \<Rightarrow> int \<Rightarrow> 'v kv" where
  "kv_expire now m k ttl =
     (case kv_get now m k of None \<Rightarrow> m | Some v \<Rightarrow> kv_setex now m k ttl v)"

definition recordSubmission :: "open_db \<Rightarrow> int \<Rightarrow> string \<Rightarrow> string \<Rightarrow> submission_rec \<Rightarrow> bool \<times> open_db" where
  "recordSubmission db now ref submitter rec =
     (let r = hash_setnx now (o_subs db) ref (lower submitter) rec in (fst r, db\<lparr>o_subs := snd r\<rparr>))"

definition recordedSubmissionCount :: "open_db \<Rightarrow> int \<Rightarrow> string \<Rightarrow> nat" where
  "recordedSubmissionCount db now ref =
     (case kv_get now (o_subs db) ref of None \<Rightarrow> 0 | Some h \<Rightarrow> card (dom h))"

definition getSubmission :: "open_db \<Rightarrow> int \<Rightarrow> string \<Rightarrow> string \<Rightarrow> submission_rec option" where
  "getSubmission db now ref submitter = hash_get now (o_subs db) ref (lower submitter)"

definition forEachSubmitter :: "(string list \<Rightarrow> 'a \<Rightarrow> 'a) \<Rightarrow> (string \<times> submission_rec) list list \<Rightarrow> 'a \<Rightarrow> 'a" where
  "forEachSubmitter visit pages a = fold visit (filter (\<lambda>p. p \<noteq> []) (map (map fst) pages)) a"

text \<open>\<open>reply\<close> is the HSCAN page: the next cursor, and each field with its parsed value, if it parses.\<close>

definition pageSubmissions ::
  "string \<times> (string \<times> submission_rec option) list \<Rightarrow> string \<times> (string \<times> submission_rec) list" where
  "pageSubmissions reply =
     (fst reply, List.map_filter (\<lambda>(f, v). map_option (Pair f) v) (snd reply))"

section \<open>Results\<close>

definition savePendingResult :: "open_db \<Rightarrow> int \<Rightarrow> string \<Rightarrow> string \<Rightarrow> open_result \<Rightarrow> open_db" where
  "savePendingResult db now ref submitter res =
     db\<lparr>o_pending := kv_setex now (o_pending db) (pending_key ref submitter) PENDING_RESULT_TTL_SEC res\<rparr>"

definition zset_at :: "int \<Rightarrow> zset kv \<Rightarrow> string \<Rightarrow> zset" where
  "zset_at now m k = (case kv_get now m k of None \<Rightarrow> [] | Some z \<Rightarrow> z)"

text \<open>A write to a sorted set keeps the expiry of its key, unless it had run out.\<close>

definition zset_put :: "int \<Rightarrow> zset kv \<Rightarrow> string \<Rightarrow> zset \<Rightarrow> zset kv" where
  "zset_put now m k z =
     (if z = [] then kv_del m k
      else m(k \<mapsto> (z, case m k of None \<Rightarrow> None | Some (_, e) \<Rightarrow> if live now e then e else None)))"

definition takeHeldSlot :: "open_db \<Rightarrow> int \<Rightarrow> string \<Rightarrow> string \<Rightarrow> int \<Rightarrow> bool \<times> open_db" where
  "takeHeldSlot db now submitter ref nowSec =
     (let key = lower submitter;
          z = zexpire (zset_at now (o_held db) key) nowSec;
          holding = (zscore z ref \<noteq> None);
          pruned = zset_put now (o_held db) key z
      in if \<not> holding \<and> MAX_HELD \<le> length z then (False, db\<lparr>o_held := pruned\<rparr>)
         else (True, db\<lparr>o_held := kv_setex now pruned key PENDING_RESULT_TTL_SEC
                 (zadd z (nowSec + PENDING_RESULT_TTL_SEC) ref)\<rparr>))"

definition keep :: "open_db \<Rightarrow> int \<Rightarrow> string \<Rightarrow> string \<Rightarrow> open_result \<Rightarrow> bool \<times> open_db" where
  "keep db now ref submitter res =
     (let r = hash_setnx now (o_results db) ref (lower submitter) res;
          key = lower submitter
      in (fst r, db\<lparr>o_results := kv_expire now (snd r) ref RESULTS_TTL_SEC,
                    o_held := zset_put now (o_held db) key (zrem (zset_at now (o_held db) key) ref)\<rparr>))"

definition keepResult :: "open_db \<Rightarrow> int \<Rightarrow> string \<Rightarrow> string \<Rightarrow> string \<Rightarrow> bool \<times> open_db" where
  "keepResult db now ref submitter evidenceHash =
     (case kv_get now (o_pending db) (pending_key ref submitter) of
        None \<Rightarrow> (False, db)
      | Some pending \<Rightarrow>
          if lower (res_evidenceHash pending) \<noteq> lower evidenceHash then (False, db)
          else
            let r = keep db now ref submitter pending in
            (fst r, (snd r)\<lparr>o_pending := kv_del (o_pending (snd r)) (pending_key ref submitter)\<rparr>))"

definition keepCommittedResult ::
  "open_db \<Rightarrow> int \<Rightarrow> string \<Rightarrow> string \<Rightarrow> open_result \<Rightarrow> bool \<times> open_db" where
  "keepCommittedResult db now ref submitter res = keep db now ref submitter res"

definition getResults :: "open_db \<Rightarrow> int \<Rightarrow> string \<Rightarrow> string list \<Rightarrow> open_result option list" where
  "getResults db now ref submitters =
     map (\<lambda>a. hash_get now (o_results db) ref (lower a)) submitters"

section \<open>Scorecards and declines\<close>

definition savePendingScorecard ::
  "(json \<Rightarrow> string) \<Rightarrow> open_db \<Rightarrow> int \<Rightarrow> string \<Rightarrow> scorecard_role \<Rightarrow> json \<Rightarrow> string \<times> open_db" where
  "savePendingScorecard digest db now ref role scorecard =
     (digest scorecard,
      db\<lparr>o_cards_pending := kv_setex now (o_cards_pending db) (card_key ref role)
           PENDING_SCORECARD_TTL_SEC \<lparr>ks_hash = digest scorecard, ks_scorecard = scorecard\<rparr>\<rparr>)"

definition keepAnchoredScorecard :: "open_db \<Rightarrow> int \<Rightarrow> string \<Rightarrow> string \<Rightarrow> json \<Rightarrow> bool \<times> open_db" where
  "keepAnchoredScorecard db now ref hash scorecard =
     (let r = kv_setnx now (o_cards db) ref (Some RESULTS_TTL_SEC)
                \<lparr>ks_hash = lower hash, ks_scorecard = scorecard\<rparr>
      in (fst r, db\<lparr>o_cards := snd r\<rparr>))"

definition keepScorecard ::
  "(json \<Rightarrow> string) \<Rightarrow> open_db \<Rightarrow> int \<Rightarrow> string \<Rightarrow> scorecard_role \<Rightarrow> string \<Rightarrow> bool \<times> open_db" where
  "keepScorecard digest db now ref role hash =
     (case kv_get now (o_cards_pending db) (card_key ref role) of
        None \<Rightarrow> (False, db)
      | Some p \<Rightarrow>
          if lower (digest (ks_scorecard p)) \<noteq> lower hash then (False, db)
          else
            let r = keepAnchoredScorecard db now ref hash (ks_scorecard p) in
            (fst r, (snd r)\<lparr>o_cards_pending := kv_del (o_cards_pending (snd r)) (card_key ref role)\<rparr>))"

definition getScorecard :: "open_db \<Rightarrow> int \<Rightarrow> string \<Rightarrow> kept_scorecard option" where
  "getScorecard db now ref = kv_get now (o_cards db) ref"

definition saveDecline :: "open_db \<Rightarrow> int \<Rightarrow> string \<Rightarrow> open_decline \<Rightarrow> bool \<times> open_db" where
  "saveDecline db now ref d =
     (let r = kv_setnx now (o_declines db) ref (Some RESULTS_TTL_SEC)
                (d\<lparr>dec_verifier := lower (dec_verifier d)\<rparr>)
      in (fst r, db\<lparr>o_declines := snd r\<rparr>))"

definition getDecline :: "open_db \<Rightarrow> int \<Rightarrow> string \<Rightarrow> open_decline option" where
  "getDecline db now ref = kv_get now (o_declines db) ref"

end
