(* ===== verification/OpenStoreProps.thy ===== *)
theory OpenStoreProps
  imports OpenStore ChainsProps
begin

text \<open>
  The laws of the open-submission store: its write-once keys, and what every writer keeps, as
  an invariant of all reachable stores for a given escrow.
\<close>

section \<open>Write-once keys\<close>

abbreviation forever :: "int \<Rightarrow> int \<Rightarrow> bool" where
  "forever \<equiv> (\<lambda>t t'. True)"

definition within_ttl :: "int \<Rightarrow> int \<Rightarrow> int \<Rightarrow> bool" where
  "within_ttl ttl t t' \<longleftrightarrow> t' < t + 1000 * ttl"

lemma kv_get_setnx_ttl [redis_simps]:
  "kv_get now' (snd (kv_setnx now m k (Some ttl) v)) k =
     (if kv_get now m k = None then (if now' < now + 1000 * ttl then Some v else None)
      else kv_get now' m k)"
  by (auto simp: kv_setnx_def kv_get_def)

lemma kv_get_setnx_forever [redis_simps]:
  "kv_get now' (snd (kv_setnx now m k None v)) k =
     (if kv_get now m k = None then Some v else kv_get now' m k)"
  by (auto simp: kv_setnx_def kv_get_def)

lemma kv_setnx_refused [redis_simps]:
  "kv_get now m k \<noteq> None \<Longrightarrow> snd (kv_setnx now m k ttl v) = m"
  by (auto simp: kv_setnx_def)

interpretation outcome: once_key getOutcome saveOutcome forever id
  by unfold_locales
    (auto simp: getOutcome_def saveOutcome_def redis_simps Let_def)

interpretation scorecard: once_key "\<lambda>db t ref. map_option ks_scorecard (getScorecard db t ref)"
  "\<lambda>db t ref card. keepAnchoredScorecard db t ref (digest card) card" "within_ttl RESULTS_TTL_SEC" id
  for digest
  by unfold_locales
    (auto simp: getScorecard_def keepAnchoredScorecard_def within_ttl_def redis_simps Let_def)

interpretation decline: once_key getDecline saveDecline "within_ttl RESULTS_TTL_SEC"
  "\<lambda>d. d\<lparr>dec_verifier := lower (dec_verifier d)\<rparr>"
  by unfold_locales
    (auto simp: getDecline_def saveDecline_def within_ttl_def redis_simps Let_def)

lemma hash_setnx_fst: "fst (hash_setnx now m k f v) \<longleftrightarrow> hash_get now m k f = None"
  by (auto simp: hash_setnx_def hash_get_def kv_get_def split: option.splits)

lemma hash_setnx_refused: "hash_get now m k f \<noteq> None \<Longrightarrow> snd (hash_setnx now m k f v) = m"
  by (auto simp: hash_setnx_def hash_get_def kv_get_def split: option.splits if_splits)

text \<open>The submissions of a task have no expiry.\<close>

definition subs_kept :: "open_db \<Rightarrow> bool" where
  "subs_kept db \<longleftrightarrow> (\<forall>ref h e. o_subs db ref = Some (h, e) \<longrightarrow> e = None)"

lemma getSubmission_record:
  assumes "subs_kept db"
  shows "getSubmission (snd (recordSubmission db now ref a rec)) now' ref' b =
    (if ref' = ref \<and> lower b = lower a \<and> getSubmission db now ref a = None then Some rec
     else getSubmission db now' ref' b)"
proof (cases "o_subs db ref")
  case None
  then show ?thesis
    by (simp add: getSubmission_def recordSubmission_def hash_setnx_def hash_get_def kv_get_def)
next
  case (Some p)
  then obtain h where h: "o_subs db ref = Some (h, None)"
    using assms unfolding subs_kept_def by (cases p) blast
  then show ?thesis
    by (simp add: getSubmission_def recordSubmission_def hash_setnx_def hash_get_def kv_get_def)
qed

section \<open>What every writer keeps\<close>

lemma length_zrem:
  "zset_ok z \<Longrightarrow> length (zrem z m) = (if m \<in> snd ` set z then length z - 1 else length z)"
proof -
  assume "zset_ok z"
  then have "distinct (map snd z)" by (simp add: zset_ok_def)
  then show ?thesis
    by (induction z) (auto simp: zrem_def filter_eq_all Suc_diff_le image_iff length_greater_0_conv [symmetric]
      simp del: length_greater_0_conv dest: length_pos_if_in_set)
qed

lemma length_zadd:
  "zset_ok z \<Longrightarrow> length (zadd z s m) = (if m \<in> snd ` set z then length z else Suc (length z))"
  by (auto simp: zadd_def length_zrem dest: length_pos_if_in_set)

text \<open>
  \<open>escrow ref a\<close> is the lowercased evidence hash the escrow recorded for a submitter's
  submission, if any. It never changes once set, so it is one function for a whole history.
\<close>

type_synonym escrow = "string \<Rightarrow> string \<Rightarrow> string option"

definition results_ok :: "escrow \<Rightarrow> (string \<rightharpoonup> open_result) kv \<Rightarrow> bool" where
  "results_ok escrow m \<longleftrightarrow>
     (\<forall>ref h e a r. m ref = Some (h, e) \<longrightarrow> h a = Some r \<longrightarrow>
        escrow ref a = Some (lower (res_evidenceHash r)))"

definition held_ok :: "zset kv \<Rightarrow> bool" where
  "held_ok m \<longleftrightarrow> (\<forall>a z e. m a = Some (z, e) \<longrightarrow> zset_ok z \<and> length z \<le> MAX_HELD)"

definition due_ok :: "open_db \<Rightarrow> bool" where
  "due_ok db \<longleftrightarrow> zset_ok (o_due db) \<and>
     (\<forall>sc. zset_ok (o_judge_due db sc) \<and> (\<forall>p \<in> set (o_judge_due db sc). scopeOfRef (snd p) = sc))"

definition open_ok :: "escrow \<Rightarrow> open_db \<Rightarrow> bool" where
  "open_ok escrow db \<longleftrightarrow>
     results_ok escrow (o_results db) \<and> held_ok (o_held db) \<and> due_ok db \<and> subs_kept db"

lemma open_ok_empty: "open_ok escrow empty_open_db"
  by (simp add: open_ok_def results_ok_def held_ok_def due_ok_def subs_kept_def empty_open_db_def)

lemma results_ok_setnx:
  assumes "results_ok escrow m" "escrow ref (lower a) = Some (lower (res_evidenceHash r))"
  shows "results_ok escrow (kv_expire now (snd (hash_setnx now m ref (lower a) r)) ref ttl)"
proof -
  have "results_ok escrow (snd (hash_setnx now m ref (lower a) r))"
    using assms unfolding results_ok_def hash_setnx_def
    by (auto split: option.splits if_splits prod.splits)
  then show ?thesis
    unfolding results_ok_def kv_expire_def kv_setex_def kv_get_def
    by (auto split: option.splits if_splits prod.splits)
qed

lemma held_ok_at: "held_ok m \<Longrightarrow> zset_ok (zset_at now m k) \<and> length (zset_at now m k) \<le> MAX_HELD"
  by (auto simp: held_ok_def zset_at_def kv_get_def split: option.splits)

lemma held_ok_put: "held_ok m \<Longrightarrow> zset_ok z \<Longrightarrow> length z \<le> MAX_HELD \<Longrightarrow> held_ok (zset_put now m k z)"
  by (auto simp: held_ok_def zset_put_def kv_del_def split: if_splits)

lemma held_ok_setex: "held_ok m \<Longrightarrow> zset_ok z \<Longrightarrow> length z \<le> MAX_HELD \<Longrightarrow> held_ok (kv_setex now m k ttl z)"
  by (auto simp: held_ok_def kv_setex_def split: if_splits)

lemma held_ok_take:
  assumes "held_ok (o_held db)"
  shows "held_ok (o_held (snd (takeHeldSlot db now a ref nowSec)))"
proof -
  let ?z = "zexpire (zset_at now (o_held db) (lower a)) nowSec"
  have z: "zset_ok ?z" "length ?z \<le> MAX_HELD"
    using held_ok_at [OF assms, of now "lower a"]
    by (auto simp: zexpire_def intro: le_trans [OF length_filter_le])
  have put: "held_ok (zset_put now (o_held db) (lower a) ?z)" using assms z by (rule held_ok_put)
  have "length (zadd ?z s ref) \<le> MAX_HELD" if "zscore ?z ref \<noteq> None \<or> length ?z < MAX_HELD" for s
    using that z by (auto simp: length_zadd zscore_None_iff)
  with put z show ?thesis
    by (auto simp: takeHeldSlot_def Let_def intro!: held_ok_setex)
qed

lemma held_ok_zrem:
  assumes "held_ok m"
  shows "held_ok (zset_put now m k (zrem (zset_at now m k) ref))"
  using held_ok_at [OF assms, of now k]
  by (intro held_ok_put assms) (auto simp: zrem_def intro: le_trans [OF length_filter_le])

section \<open>The store as a transition system\<close>

text \<open>
  The writers, as the header of the file lists them. The indexer keeps a held result under the
  evidence hash of the submission event; \<open>keepCommittedResult\<close> is called with a result whose
  hash was just read from the escrow.
\<close>

inductive open_step :: "config \<Rightarrow> escrow \<Rightarrow> open_db \<Rightarrow> open_db \<Rightarrow> bool"
  for cfg :: config and escrow :: escrow where
  save_record: "open_step cfg escrow db (snd (saveRecord cfg db now rec))"
| save_outcome: "open_step cfg escrow db (snd (saveOutcome db now ref out))"
| mark_closed: "open_step cfg escrow db (snd (markClosedNotified db now ref))"
| count_slot: "open_step cfg escrow db (snd (takeCountNoticeSlot db now ref gap))"
| schedule: "open_step cfg escrow db (scheduleSweep db ref atSec)"
| unschedule: "open_step cfg escrow db (unscheduleSweep db ref)"
| schedule_judge: "open_step cfg escrow db (scheduleJudge db ref atSec)"
| schedule_judge_nx: "open_step cfg escrow db (scheduleJudgeIfAbsent db ref atSec)"
| unschedule_judge: "open_step cfg escrow db (unscheduleJudge db ref)"
| backfilled: "open_step cfg escrow db (markJudgeBackfilled db sc)"
| record_submission: "open_step cfg escrow db (snd (recordSubmission db now ref a rec))"
| hold: "open_step cfg escrow db (savePendingResult db now ref a res)"
| take_slot: "open_step cfg escrow db (snd (takeHeldSlot db now a ref nowSec))"
| keep_held: "escrow ref (lower a) = Some (lower evidence) \<Longrightarrow>
    open_step cfg escrow db (snd (keepResult db now ref a evidence))"
| keep_committed: "escrow ref (lower a) = Some (lower (res_evidenceHash res)) \<Longrightarrow>
    open_step cfg escrow db (snd (keepCommittedResult db now ref a res))"
| hold_card: "open_step cfg escrow db (snd (savePendingScorecard digest db now ref role sc))"
| keep_card: "open_step cfg escrow db (snd (keepScorecard digest db now ref role hash))"
| anchor_card: "open_step cfg escrow db (snd (keepAnchoredScorecard db now ref hash sc))"
| save_decline: "open_step cfg escrow db (snd (saveDecline db now ref d))"

inductive_cases open_stepE: "open_step cfg escrow db db'"

lemma open_ok_same:
  "open_ok escrow db \<Longrightarrow> o_results db' = o_results db \<Longrightarrow> o_held db' = o_held db \<Longrightarrow>
   o_due db' = o_due db \<Longrightarrow> o_judge_due db' = o_judge_due db \<Longrightarrow> o_subs db' = o_subs db \<Longrightarrow>
   open_ok escrow db'"
  by (simp add: open_ok_def due_ok_def subs_kept_def)

lemma open_ok_keep:
  assumes "open_ok escrow db" "escrow ref (lower a) = Some (lower (res_evidenceHash r))"
  shows "open_ok escrow (snd (keep db now ref a r))"
  using assms results_ok_setnx held_ok_zrem
  by (simp add: open_ok_def keep_def due_ok_def subs_kept_def Let_def)

lemma open_ok_due:
  assumes "open_ok escrow db" "zset_ok z" "\<forall>p \<in> set z. scopeOfRef (snd p) = k"
  shows "open_ok escrow (db\<lparr>o_judge_due := (o_judge_due db)(k := z)\<rparr>)"
  using assms by (simp add: open_ok_def due_ok_def subs_kept_def)

lemma judge_due_at:
  "open_ok escrow db \<Longrightarrow> zset_ok (o_judge_due db k) \<and> (\<forall>p \<in> set (o_judge_due db k). scopeOfRef (snd p) = k)"
  by (simp add: open_ok_def due_ok_def)

lemma open_step_ok: "open_step cfg escrow db db' \<Longrightarrow> open_ok escrow db \<Longrightarrow> open_ok escrow db'"
proof (induction rule: open_step.induct)
  case (record_submission db now ref a rec)
  then have "subs_kept (snd (recordSubmission db now ref a rec))"
    unfolding open_ok_def subs_kept_def recordSubmission_def hash_setnx_def Let_def
    by (auto split: option.splits if_splits prod.splits)
  with record_submission show ?case
    by (simp add: open_ok_def recordSubmission_def due_ok_def Let_def)
next
  case (take_slot db now a ref nowSec)
  then have "held_ok (o_held (snd (takeHeldSlot db now a ref nowSec)))"
    by (intro held_ok_take) (simp add: open_ok_def)
  with take_slot show ?case
    by (simp add: open_ok_def takeHeldSlot_def due_ok_def subs_kept_def Let_def)
next
  case (keep_held ref a evidence db now)
  show ?case
  proof (cases "kv_get now (o_pending db) (pending_key ref a)")
    case None
    with keep_held show ?thesis by (simp add: keepResult_def)
  next
    case (Some p)
    show ?thesis
    proof (cases "lower (res_evidenceHash p) = lower evidence")
      case True
      then have "open_ok escrow (snd (keep db now ref a p))"
        using keep_held by (intro open_ok_keep) simp_all
      then show ?thesis using Some True
        by (auto simp: keepResult_def Let_def elim!: open_ok_same)
    next
      case False
      with Some keep_held show ?thesis by (simp add: keepResult_def)
    qed
  qed
next
  case (keep_committed ref a res db now)
  then show ?case by (simp add: keepCommittedResult_def open_ok_keep)
next
  case (schedule_judge db ref atSec)
  then show ?case
    unfolding scheduleJudge_def Let_def
    by (intro open_ok_due) (use judge_due_at in \<open>auto simp: set_zadd\<close>)
next
  case (schedule_judge_nx db ref atSec)
  then show ?case
    unfolding scheduleJudgeIfAbsent_def Let_def
    by (intro open_ok_due) (use judge_due_at in \<open>auto simp: set_zadd zadd_nx_def\<close>)
next
  case (unschedule_judge db ref)
  then show ?case
    unfolding unscheduleJudge_def Let_def
    by (intro open_ok_due) (use judge_due_at in \<open>auto simp: set_zrem\<close>)
qed (auto simp: saveRecord_def saveOutcome_def markClosedNotified_def takeCountNoticeSlot_def
    scheduleSweep_def unscheduleSweep_def markJudgeBackfilled_def savePendingResult_def
    savePendingScorecard_def keepScorecard_def keepAnchoredScorecard_def saveDecline_def
    open_ok_def due_ok_def subs_kept_def Let_def split: option.split)

definition open_reachable :: "config \<Rightarrow> escrow \<Rightarrow> open_db \<Rightarrow> bool" where
  "open_reachable cfg escrow db \<longleftrightarrow> (open_step cfg escrow)\<^sup>*\<^sup>* empty_open_db db"

lemma open_reachable_ok:
  assumes "open_reachable cfg escrow db" shows "open_ok escrow db"
  using assms unfolding open_reachable_def
  by (induction rule: rtranclp_induct) (auto simp: open_ok_empty dest: open_step_ok)

section \<open>Properties\<close>


definition sample_result :: open_result where
  "sample_result = \<lparr>res_data = JObj [], res_evidenceHash = ''0xEE'', res_rootHash = None,
     res_tee = None, res_savedAt = ''now''\<rparr>"

definition sample_escrow :: escrow where
  "sample_escrow = (\<lambda>ref a. if ref = ''arc:1'' \<and> a = ''0xa'' then Some ''0xee'' else None)"


text \<open>
  A result a submitter sent is kept when their submission lands with its evidence hash
  within the hour, is then read back for 120 days, and the pending copy is gone; a submission
  with another hash keeps nothing.
\<close>

theorem pending_result_kept_when_it_lands:
  fixes db :: open_db and ref a evidence :: string and res :: open_result and now later read_at :: int
  assumes "later < now + 1000 * PENDING_RESULT_TTL_SEC" "read_at < later + 1000 * RESULTS_TTL_SEC"
    and "hash_get later (o_results db) ref (lower a) = None"
  defines "db1 \<equiv> savePendingResult db now ref a res"
  defines "r \<equiv> keepResult db1 later ref a evidence"
  shows "(if lower (res_evidenceHash res) = lower evidence
      then fst r \<and> getResults (snd r) read_at ref [a] = [Some res] \<and>
        \<not> fst (keepResult (snd r) read_at ref a evidence)
      else r = (False, db1))"
proof (cases "lower (res_evidenceHash res) = lower evidence")
  case True
  have pend: "kv_get later (o_pending db1) (pending_key ref a) = Some res"
    using assms(1) by (simp add: db1_def savePendingResult_def redis_simps)
  have same: "o_results db1 = o_results db" by (simp add: db1_def savePendingResult_def)
  have fst_keep: "fst (keep db1 later ref a res)"
    using assms(3) by (simp add: keep_def hash_setnx_fst same Let_def)
  have "hash_get read_at (o_results (snd (keep db1 later ref a res))) ref (lower a) = Some res"
    using assms(2,3)
    by (auto simp: keep_def same hash_setnx_def hash_get_def kv_get_def kv_expire_def kv_setex_def
      RESULTS_TTL_SEC_def Let_def split: option.splits prod.splits)
  then show ?thesis
    using True pend fst_keep
    by (simp add: r_def keepResult_def getResults_def redis_simps Let_def)
next
  case False
  moreover have "kv_get later (o_pending db1) (pending_key ref a) = Some res"
    using assms(1) by (simp add: db1_def savePendingResult_def redis_simps)
  ultimately show ?thesis by (simp add: r_def keepResult_def)
qed

theorem pending_result_kept_when_it_lands_witness:
  "fst (keepResult (savePendingResult empty_open_db 0 ''arc:1'' ''0xA'' sample_result) 5 ''arc:1'' ''0xA'' ''0xee'')"
  using pending_result_kept_when_it_lands [of 5 0 5 empty_open_db "''arc:1''" "''0xA''" sample_result "''0xee''"]
  by (simp add: PENDING_RESULT_TTL_SEC_def RESULTS_TTL_SEC_def hash_get_def kv_get_def empty_open_db_def
    sample_result_def lower_eval)

text \<open>
  What the escrow and the judges said first stays said: a recorded outcome, an anchored
  scorecard and a verifier's decline are not replaced by a later write while they are kept,
  and a scorecard held for a pick is kept only if it is the one the pick's hash names.
\<close>

theorem first_word_stands:
  assumes "getOutcome db now ref = None" "getDecline db now ref = None" "getScorecard db now ref = None"
    and "later < now + 1000 * RESULTS_TTL_SEC" "read_at < now + 1000 * RESULTS_TTL_SEC"
  shows "getOutcome (snd (saveOutcome (snd (saveOutcome db now ref out)) later ref out')) read_at ref = Some out \<and>
    getDecline (snd (saveDecline (snd (saveDecline db now ref d)) later ref d')) read_at ref =
      Some (d\<lparr>dec_verifier := lower (dec_verifier d)\<rparr>) \<and>
    map_option ks_scorecard (getScorecard
      (snd (keepScorecard digest (snd (keepAnchoredScorecard db now ref (digest sc) sc)) later ref role h)) read_at ref)
      = Some sc \<and>
    (fst (keepScorecard digest db now ref role h) \<longrightarrow>
      (\<exists>k. getScorecard (snd (keepScorecard digest db now ref role h)) read_at ref = Some k \<and>
         lower (digest (ks_scorecard k)) = lower h \<and> ks_hash k = lower h))"
proof (intro conjI impI)
  show "getOutcome (snd (saveOutcome (snd (saveOutcome db now ref out)) later ref out')) read_at ref = Some out"
    using outcome.first_write_stands(2) [of db now ref "[(later, out')]" out read_at] assms(1)
    by (simp add: Let_def)
  show "getDecline (snd (saveDecline (snd (saveDecline db now ref d)) later ref d')) read_at ref =
      Some (d\<lparr>dec_verifier := lower (dec_verifier d)\<rparr>)"
    using decline.first_write_stands(2) [of db now ref "[(later, d')]" read_at d] assms(2,4,5)
    by (simp add: within_ttl_def Let_def)
  have "getScorecard (snd (keepAnchoredScorecard db now ref (digest sc) sc)) t ref =
      Some \<lparr>ks_hash = lower (digest sc), ks_scorecard = sc\<rparr>" if "t < now + 1000 * RESULTS_TTL_SEC" for t
    using assms(3) that by (simp add: getScorecard_def keepAnchoredScorecard_def redis_simps Let_def)
  moreover have "getScorecard (snd (keepScorecard digest db' later ref role h)) read_at ref =
      getScorecard db' read_at ref" if "getScorecard db' later ref \<noteq> None" for db'
    using that
    by (auto simp: keepScorecard_def keepAnchoredScorecard_def getScorecard_def kv_setnx_def Let_def
      split: option.splits)
  ultimately show "map_option ks_scorecard (getScorecard
      (snd (keepScorecard digest (snd (keepAnchoredScorecard db now ref (digest sc) sc)) later ref role h)) read_at ref)
      = Some sc"
    using assms(4,5) by simp
  assume "fst (keepScorecard digest db now ref role h)"
  then show "\<exists>k. getScorecard (snd (keepScorecard digest db now ref role h)) read_at ref = Some k \<and>
      lower (digest (ks_scorecard k)) = lower h \<and> ks_hash k = lower h"
    using assms(3,5)
    by (auto simp: keepScorecard_def keepAnchoredScorecard_def getScorecard_def redis_simps Let_def
      split: option.splits if_splits)
qed

theorem first_word_stands_witness:
  "getOutcome (snd (saveOutcome (snd (saveOutcome empty_open_db 0 ''arc:1''
      \<lparr>to_kind = OutVoid, to_winner = None, to_judge = JudgeAdmin, to_scorecardHash = None\<rparr>)) 1 ''arc:1''
      \<lparr>to_kind = OutWinner, to_winner = Some ''0xa'', to_judge = JudgeBackup, to_scorecardHash = None\<rparr>))
     2 ''arc:1'' = Some \<lparr>to_kind = OutVoid, to_winner = None, to_judge = JudgeAdmin, to_scorecardHash = None\<rparr>"
  by (rule first_word_stands [THEN conjunct1])
    (simp_all add: getOutcome_def getDecline_def getScorecard_def empty_open_db_def kv_get_def RESULTS_TTL_SEC_def)

text \<open>
  A reference names one on-chain task of one network: its scope is read back from it, and
  two tasks never share one.
\<close>

theorem taskRef_names_one_task:
  assumes "CHR '':'' \<notin> set x" "CHR '':'' \<notin> set y"
  shows "scopeOfRef (taskRef cfg k x) = chainScope cfg k \<and>
    (taskRef cfg k x = taskRef cfg' l y \<longleftrightarrow> chainScope cfg k = chainScope cfg' l \<and> x = y)"
proof -
  have scope: "scopeOfRef (taskRef c j z) = chainScope c j" if "CHR '':'' \<notin> set z" for c j z
    using that by (auto simp: scopeOfRef_def taskRef_def dropWhile_append)
  have "x = y" if "taskRef cfg k x = taskRef cfg' l y"
  proof -
    have "chainScope cfg k = chainScope cfg' l" using scope assms that by metis
    with that show ?thesis by (simp add: taskRef_def)
  qed
  with scope [OF assms(1)] scope [OF assms(2), of cfg' l] show ?thesis
    by (auto simp: taskRef_def)
qed

theorem taskRef_names_one_task_witness:
  "scopeOfRef (taskRef testnet_config Arc ''17'') = ''arc''"
proof -
  have "scopeOfRef (taskRef testnet_config Arc ''17'') = chainScope testnet_config Arc"
    by (rule taskRef_names_one_task [where y = "''17''", THEN conjunct1]) simp_all
  then show ?thesis
    by (simp add: chainScope_def chainScope_at_def build_arc_def testnet_config_def Let_def)
qed

end
