(* ===== verification/Notifications.thy ===== *)
theory Notifications
  imports TaskStore
begin

text \<open>
  \<open>services/notificationStore.ts\<close>: the capped feed of notices each address has, and the
  notices sent at most once. Redis answers; the Telegram copy of a notice, sent without waiting
  for it, is left out. What the code draws from the clock and from random bytes (a notice's id
  and its ISO time) is the argument \<open>stamp\<close>. A text with characters outside ASCII is its UTF-8
  encoding.
\<close>

section \<open>State\<close>

datatype notification_type =
  NtAssigned | NtSubmitted | NtCompleted | NtFailed | NtDisputed | NtReviewReceived | NtExpired |
  NtDeadlineSoon | NtAgentStopped | NtSubmissions

record notice =
  nc_type :: notification_type
  nc_title :: string
  nc_body :: "string option"
  nc_taskId :: "string option"

record notification =
  nt_id :: string
  nt_notice :: notice
  nt_createdAt :: string
  nt_read :: bool

type_synonym stamp = "string \<times> string"

record notif_db =
  feeds :: "notification list kv"
  once :: "unit kv"
  seen :: "int kv"

definition empty_notif_db :: notif_db where
  "empty_notif_db = \<lparr>feeds = Map.empty, once = Map.empty, seen = Map.empty\<rparr>"

definition FEED_CAP :: nat where
  "FEED_CAP = 100"

definition FEED_TTL_S :: int where
  "FEED_TTL_S = 30 * 24 * 3600"

definition ellipsis :: string where
  "ellipsis = [CHR 0xE2, CHR 0x80, CHR 0xA6]"

definition em_dash :: string where
  "em_dash = [CHR 0xE2, CHR 0x80, CHR 0x94]"

definition shortAddr :: "string \<Rightarrow> string" where
  "shortAddr a =
     (if 13 < length a then take 6 a @ ellipsis @ drop (length a - 4) a else a)"

section \<open>The feed\<close>

definition feed :: "notif_db \<Rightarrow> int \<Rightarrow> string \<Rightarrow> notification list" where
  "feed db now address =
     (case kv_get now (feeds db) (lower address) of None \<Rightarrow> [] | Some xs \<Rightarrow> xs)"

definition mk_notification :: "notice \<Rightarrow> stamp \<Rightarrow> notification" where
  "mk_notification n stamp =
     \<lparr>nt_id = fst stamp, nt_notice = n, nt_createdAt = snd stamp, nt_read = False\<rparr>"

text \<open>LPUSH, LTRIM and EXPIRE of the feed.\<close>

definition push :: "notif_db \<Rightarrow> int \<Rightarrow> string \<Rightarrow> notification \<Rightarrow> notif_db" where
  "push db now address n =
     db\<lparr>feeds := kv_setex now (feeds db) (lower address) FEED_TTL_S
          (take FEED_CAP (n # feed db now address))\<rparr>"

definition notify :: "notif_db \<Rightarrow> int \<Rightarrow> string \<Rightarrow> notice \<Rightarrow> stamp \<Rightarrow> notif_db" where
  "notify db now to_addr n stamp = push db now to_addr (mk_notification n stamp)"

text \<open>LRANGE from an offset, to offset + limit - 1: the whole list for limit 0 at offset 0.\<close>

definition lrange :: "'a list \<Rightarrow> nat \<Rightarrow> nat \<Rightarrow> 'a list" where
  "lrange xs limit offset =
     (if limit = 0 \<and> offset = 0 then xs else take limit (drop offset xs))"

record feed_page =
  fp_notifications :: "notification list"
  fp_total :: nat
  fp_unread :: nat

definition listNotifications :: "notif_db \<Rightarrow> int \<Rightarrow> string \<Rightarrow> nat \<Rightarrow> nat \<Rightarrow> feed_page" where
  "listNotifications db now address limit offset =
     (let items = lrange (feed db now address) limit offset;
          total = length (feed db now address)
      in \<lparr>fp_notifications = items, fp_total = total,
          fp_unread = (if offset = 0 \<and> total \<le> length items
                       then length (filter (\<lambda>n. \<not> nt_read n) items)
                       else length (filter (\<lambda>n. \<not> nt_read n) (feed db now address)))\<rparr>)"

text \<open>\<open>findIndex\<close>.\<close>

fun find_index :: "('a \<Rightarrow> bool) \<Rightarrow> 'a list \<Rightarrow> nat option" where
  "find_index P [] = None"
| "find_index P (x # xs) = (if P x then Some 0 else map_option Suc (find_index P xs))"

text \<open>LSET and a rewrite of the list keep, and renew, the expiry of its key.\<close>

definition put_feed :: "notif_db \<Rightarrow> string \<Rightarrow> notification list \<Rightarrow> notif_db" where
  "put_feed db address xs =
     db\<lparr>feeds := (feeds db)(lower address :=
          map_option (\<lambda>(_, e). (xs, e)) (feeds db (lower address)))\<rparr>"

definition markRead :: "notif_db \<Rightarrow> int \<Rightarrow> string \<Rightarrow> string \<Rightarrow> bool \<times> notif_db" where
  "markRead db now address i =
     (let items = feed db now address in
      case find_index (\<lambda>n. nt_id n = i) items of
        None \<Rightarrow> (False, db)
      | Some j \<Rightarrow>
          if nt_read (items ! j) then (True, db)
          else (True, put_feed db address (items[j := (items ! j)\<lparr>nt_read := True\<rparr>])))"

definition markAllRead :: "notif_db \<Rightarrow> int \<Rightarrow> string \<Rightarrow> nat \<times> notif_db" where
  "markAllRead db now address =
     (let notifs = feed db now address;
          unread = length (filter (\<lambda>n. \<not> nt_read n) notifs)
      in if unread = 0 then (0, db)
         else (unread, db\<lparr>feeds := kv_setex now (feeds db) (lower address) FEED_TTL_S
                 (map (\<lambda>n. n\<lparr>nt_read := True\<rparr>) notifs)\<rparr>))"

section \<open>At most once\<close>

definition claim_once :: "notif_db \<Rightarrow> int \<Rightarrow> string \<Rightarrow> bool \<times> notif_db" where
  "claim_once db now key =
     (let r = kv_setnx now (once db) key (Some FEED_TTL_S) () in (fst r, db\<lparr>once := snd r\<rparr>))"

definition notifyOnce ::
  "notif_db \<Rightarrow> int \<Rightarrow> string \<Rightarrow> string \<Rightarrow> notice \<Rightarrow> stamp \<Rightarrow> bool \<times> notif_db" where
  "notifyOnce db now dedupeKey to_addr n stamp =
     (let r = claim_once db now dedupeKey in
      if fst r then (True, notify (snd r) now to_addr n stamp) else (False, db))"

record once_notice =
  on_key :: string
  on_to :: string
  on_notice :: notice
  on_stamp :: stamp

definition ONCE_BATCH :: nat where
  "ONCE_BATCH = 200"

fun claim_all :: "notif_db \<Rightarrow> int \<Rightarrow> once_notice list \<Rightarrow> bool list \<times> notif_db" where
  "claim_all db now [] = ([], db)"
| "claim_all db now (n # ns) =
     (let r = claim_once db now (on_key n); rest = claim_all (snd r) now ns
      in (fst r # fst rest, snd rest))"

fun push_all :: "notif_db \<Rightarrow> int \<Rightarrow> once_notice list \<Rightarrow> notif_db" where
  "push_all db now [] = db"
| "push_all db now (n # ns) =
     push_all (push db now (on_to n) (mk_notification (on_notice n) (on_stamp n))) now ns"

definition once_batch :: "notif_db \<Rightarrow> int \<Rightarrow> once_notice list \<Rightarrow> nat \<times> notif_db" where
  "once_batch db now batch =
     (let c = claim_all db now batch;
          fresh = map fst (filter snd (zip batch (fst c)))
      in (length fresh, push_all (snd c) now fresh))"

function notifyOnceMany :: "notif_db \<Rightarrow> int \<Rightarrow> once_notice list \<Rightarrow> nat \<times> notif_db" where
  "notifyOnceMany db now notices =
     (if notices = [] then (0, db)
      else
        let r = once_batch db now (take ONCE_BATCH notices);
            rest = notifyOnceMany (snd r) now (drop ONCE_BATCH notices)
        in (fst r + fst rest, snd rest))"
  by pat_completeness auto
termination
  by (relation "measure (\<lambda>(db, now, ns). length ns)") (auto simp: ONCE_BATCH_def)

declare notifyOnceMany.simps [simp del]

definition firstSeenAt :: "notif_db \<Rightarrow> int \<Rightarrow> string \<Rightarrow> int \<Rightarrow> int \<Rightarrow> int option \<times> notif_db" where
  "firstSeenAt db now key nowSec ttlSec =
     (let r = kv_setnx now (seen db) key (Some (max 60 ttlSec)) nowSec in
      if fst r then (Some nowSec, db\<lparr>seen := snd r\<rparr>)
      else (case kv_get now (seen db) key of
              None \<Rightarrow> (None, db)
            | Some v \<Rightarrow> (if 0 < v then Some v else None, db)))"

section \<open>The life of a task\<close>

datatype lifecycle_event = EvAssigned | EvSubmitted | EvCompleted | EvFailed | EvDisputed

definition mk_notice :: "notification_type \<Rightarrow> string \<Rightarrow> string \<Rightarrow> string \<Rightarrow> notice" where
  "mk_notice ty title body tid =
     \<lparr>nc_type = ty, nc_title = title, nc_body = Some body, nc_taskId = Some tid\<rparr>"

text \<open>The notices of an event, each with the address it goes to, in the order they are sent.\<close>

definition lifecycle_notices ::
  "string option \<Rightarrow> string option \<Rightarrow> string \<Rightarrow> lifecycle_event \<Rightarrow> (string \<times> notice) list" where
  "lifecycle_notices poster executor tid event =
     (let shortExec = (case executor of Some e \<Rightarrow> shortAddr e | None \<Rightarrow> ''An agent'');
          to_poster = (\<lambda>n. case poster of None \<Rightarrow> [] | Some p \<Rightarrow> [(p, n)]);
          to_executor = (\<lambda>n. case executor of None \<Rightarrow> [] | Some e \<Rightarrow> [(e, n)])
      in case event of
           EvAssigned \<Rightarrow> to_poster (mk_notice NtAssigned ''Task accepted''
             (shortExec @ '' accepted your task and started executing.'') tid)
         | EvSubmitted \<Rightarrow> to_poster (mk_notice NtSubmitted ''Result submitted''
             (shortExec @ '' submitted a result for your task.'') tid)
         | EvCompleted \<Rightarrow>
             to_poster (mk_notice NtCompleted (''Task completed '' @ em_dash @ '' escrow released'')
               ''The result passed verification. You can rate your agent from the task page.'' tid) @
             to_executor (mk_notice NtCompleted ''Payout credited''
               ''Your task result passed and the worker share was credited to your earnings.'' tid)
         | EvFailed \<Rightarrow>
             to_poster (mk_notice NtFailed ''Verification failed''
               (shortExec @ [CHR 0x27] @ ''s submission didn'' @ [CHR 0x27] @ ''t meet the criteria '' @
                em_dash @ '' they can retry.'') tid) @
             to_executor (mk_notice NtFailed (''Submission didn'' @ [CHR 0x27] @ ''t pass'')
               (''Your result failed verification '' @ em_dash @ '' you can revise and resubmit.'') tid)
         | EvDisputed \<Rightarrow>
             (let n = mk_notice NtDisputed (''Dispute ruled '' @ em_dash @ '' escrow refunded'')
                        ''The ruling went to the poster, so the escrow was refunded to them.'' tid
              in to_poster n @ to_executor n))"

definition notifyLifecycle ::
  "a2a_db \<Rightarrow> notif_db \<Rightarrow> int \<Rightarrow> string \<Rightarrow> lifecycle_event \<Rightarrow> (nat \<Rightarrow> stamp) \<Rightarrow> notif_db" where
  "notifyLifecycle adb db now taskHash event stamps =
     (let poster = Option.bind (getMeta adb taskHash) (truthy \<circ> posterAddress);
          executor = Option.bind (getState adb taskHash) (truthy \<circ> executorAddress);
          ns = lifecycle_notices poster executor (lower taskHash) event
      in fold (\<lambda>(i, to_addr, n) d. notify d now to_addr n (stamps i)) (zip [0..<length ns] ns) db)"

section \<open>Laws\<close>

lemma claim_push_commute:
  "claim_once (push db now a n) now k =
     (fst (claim_once db now k), push (snd (claim_once db now k)) now a n)"
  by (simp add: claim_once_def push_def feed_def Let_def)

lemma claim_all_push:
  "claim_all (push db now a n) now ns =
     (fst (claim_all db now ns), push (snd (claim_all db now ns)) now a n)"
  by (induction ns arbitrary: db) (simp_all add: claim_push_commute Let_def)

text \<open>The same notices, one at a time.\<close>

fun once_each :: "notif_db \<Rightarrow> int \<Rightarrow> once_notice list \<Rightarrow> nat \<times> notif_db" where
  "once_each db now [] = (0, db)"
| "once_each db now (n # ns) =
     (let r = notifyOnce db now (on_key n) (on_to n) (on_notice n) (on_stamp n);
          rest = once_each (snd r) now ns
      in ((if fst r then 1 else 0) + fst rest, snd rest))"

lemma once_batch_Cons:
  "once_batch db now (n # ns) =
     (let r = notifyOnce db now (on_key n) (on_to n) (on_notice n) (on_stamp n);
          rest = once_batch (snd r) now ns
      in ((if fst r then 1 else 0) + fst rest, snd rest))"
proof (cases "fst (claim_once db now (on_key n))")
  case True
  then show ?thesis
    by (simp add: once_batch_def notifyOnce_def notify_def claim_all_push Let_def)
next
  case False
  then have "snd (claim_once db now (on_key n)) = db"
    by (auto simp: claim_once_def kv_setnx_def Let_def split: if_splits)
  with False show ?thesis
    by (simp add: once_batch_def notifyOnce_def Let_def)
qed

lemma once_batch_each: "once_batch db now ns = once_each db now ns"
proof (induction ns arbitrary: db)
  case Nil
  show ?case by (simp add: once_batch_def)
next
  case (Cons n ns)
  then show ?case by (simp add: once_batch_Cons)
qed

lemma once_each_append:
  "once_each db now (xs @ ys) =
     (let r = once_each db now xs; rest = once_each (snd r) now ys
      in (fst r + fst rest, snd rest))"
  by (induction xs arbitrary: db) (simp_all add: Let_def)

end
