(* ===== verification/OpenSweep.thy ===== *)
theory OpenSweep
  imports OpenStoreProps Notifications
begin

text \<open>
  \<open>services/openSubmissionSweep.ts\<close> and \<open>services/deadlineReminders.ts\<close>: the timed alerts of
  open-submission tasks, and when a poster is reminded of a deadline. What the escrow contract
  answers is a parameter: each read gives a value, or \<open>None\<close> when the call fails.
\<close>

section \<open>Time left\<close>

datatype time_left = TDays int | THours int | TAnHour | TAMinute | TMinutes int

definition time_left_of :: "int \<Rightarrow> time_left" where
  "time_left_of sec =
     (let days = sec div 86400; hours = sec div 3600; minutes = max 1 (sec div 60) in
      if 2 \<le> days then TDays days
      else if 2 \<le> hours then THours hours
      else if hours = 1 then TAnHour
      else if minutes = 1 then TAMinute
      else TMinutes minutes)"

fun time_left_text :: "time_left \<Rightarrow> string" where
  "time_left_text (TDays n) = show_int n @ '' days''"
| "time_left_text (THours n) = show_int n @ '' hours''"
| "time_left_text TAnHour = ''an hour''"
| "time_left_text TAMinute = ''a minute''"
| "time_left_text (TMinutes n) = show_int n @ '' minutes''"

definition timeLeftText :: "int \<Rightarrow> string" where
  "timeLeftText sec = time_left_text (time_left_of sec)"

text \<open>How much time a text promises, and its unit, in seconds.\<close>

fun time_left_sec :: "time_left \<Rightarrow> int" where
  "time_left_sec (TDays n) = 86400 * n"
| "time_left_sec (THours n) = 3600 * n"
| "time_left_sec TAnHour = 3600"
| "time_left_sec TAMinute = 60"
| "time_left_sec (TMinutes n) = 60 * n"

fun time_left_unit :: "time_left \<Rightarrow> int" where
  "time_left_unit (TDays _) = 86400"
| "time_left_unit (THours _) = 3600"
| "time_left_unit TAnHour = 3600"
| "time_left_unit _ = 60"

section \<open>Deadline reminders\<close>

record reminder_window =
  rw_sec :: int
  rw_graceSec :: int

definition REMINDER_WINDOWS :: "reminder_window list" where
  "REMINDER_WINDOWS =
     [\<lparr>rw_sec = 24 * 3600, rw_graceSec = 3 * 3600\<rparr>, \<lparr>rw_sec = 3600, rw_graceSec = 15 * 60\<rparr>]"

definition REMINDER_PULL_AHEAD_SEC :: int where
  "REMINDER_PULL_AHEAD_SEC = 15 * 60"

text \<open>The loop over the windows: the first the time left is in decides.\<close>

fun window_loop :: "int \<Rightarrow> int \<Rightarrow> int \<Rightarrow> int \<Rightarrow> reminder_window list \<Rightarrow> int option" where
  "window_loop remaining dl firstSeenSec aheadSec [] = None"
| "window_loop remaining dl firstSeenSec aheadSec (w # ws) =
     (if remaining \<le> rw_sec w + aheadSec \<and> rw_sec w - rw_graceSec w < remaining
      then (if firstSeenSec < dl - rw_sec w then Some (rw_sec w) else None)
      else window_loop remaining dl firstSeenSec aheadSec ws)"

definition dueReminderWindow ::
  "int \<Rightarrow> int \<Rightarrow> int \<Rightarrow> reminder_window list \<Rightarrow> int \<Rightarrow> int option" where
  "dueReminderWindow nowSec deadlineSec firstSeenSec windows aheadSec =
     (let remaining = deadlineSec - nowSec in
      if remaining \<le> 0 then None
      else window_loop remaining deadlineSec firstSeenSec aheadSec windows)"

datatype reminder_kind = RemOpen | RemWorking | RemReview

definition reminderKind :: "status \<Rightarrow> reminder_kind" where
  "reminderKind st =
     (if st = Open then RemOpen
      else if st = Submitted \<or> st = AwaitingVerification then RemReview
      else RemWorking)"

text \<open>\<open>Math.round(a / b)\<close>, for a positive \<open>b\<close>: the nearest integer, a half rounding up.\<close>

definition round_div :: "int \<Rightarrow> int \<Rightarrow> int" where
  "round_div a b = (2 * a + b) div (2 * b)"

definition humanRemaining :: "int \<Rightarrow> string" where
  "humanRemaining remainingSec =
     (let hours = round_div remainingSec 3600 in
      if 2 \<le> hours then show_int hours @ '' hours''
      else if 45 * 60 \<le> remainingSec then ''an hour''
      else show_int (max 1 (round_div remainingSec 60)) @ '' minutes'')"

definition apos :: string where
  "apos = [CHR 0x27]"

definition reminderCopy :: "reminder_kind \<Rightarrow> int \<Rightarrow> string \<times> string" where
  "reminderCopy kind remainingSec =
     (let left = humanRemaining remainingSec in
      (''Deadline approaching'',
       case kind of
         RemOpen \<Rightarrow> ''Your task closes in about '' @ left @ '' and no agent has taken it yet.''
       | RemWorking \<Rightarrow> ''Your task'' @ apos @ ''s deadline is in about '' @ left @
           ''. The assigned agent is still working on it.''
       | RemReview \<Rightarrow> ''Your task'' @ apos @ ''s deadline is in about '' @ left @
           ''. A result is waiting to be reviewed.''))"

section \<open>The sweep of open-submission tasks\<close>

definition PHASE_Submissions :: int where "PHASE_Submissions = 0"
definition PHASE_CreatorPick :: int where "PHASE_CreatorPick = 1"
definition PHASE_VerifierPick :: int where "PHASE_VerifierPick = 2"
definition PHASE_BackupPick :: int where "PHASE_BackupPick = 3"
definition PHASE_AdminResolve :: int where "PHASE_AdminResolve = 4"
definition PHASE_Closed :: int where "PHASE_Closed = 5"

definition SWEEP_LIMIT :: nat where
  "SWEEP_LIMIT = 50"

definition RECHECK_SEC :: int where
  "RECHECK_SEC = 300"

definition PICK_REMINDER_SEC :: int where
  "PICK_REMINDER_SEC = 3600"

record escrow_reads =
  openPhase :: "string \<Rightarrow> int option"
  submissionCount :: "string \<Rightarrow> int option"
  effectiveDeadline :: "string \<Rightarrow> int option"

definition agents :: "int \<Rightarrow> string" where
  "agents n = (if n = 1 then ''1 agent'' else show_int n @ '' agents'')"

definition NEXT_PICKER :: "int \<Rightarrow> string option" where
  "NEXT_PICKER phase =
     (if phase = PHASE_VerifierPick then
        Some (''Your task'' @ apos @ ''s verifier is picking the winner now.'')
      else if phase = PHASE_BackupPick then
        Some (''Your task'' @ apos @ ''s verifier did not pick, so the platform'' @ apos @
              ''s backup judge is picking the winner now.'')
      else if phase = PHASE_AdminResolve then Some ''An admin will pick the winner.''
      else None)"

definition closedNotice :: "open_record \<Rightarrow> int \<Rightarrow> int \<Rightarrow> int \<Rightarrow> notice" where
  "closedNotice rec count phase pickLeftSec =
     (if count = 0 then
        mk_notice NtExpired ''No submissions came in''
          ''No agent submitted before the deadline. Its escrow is still yours: open the task to reclaim it.''
          (or_taskHash rec)
      else if phase = PHASE_CreatorPick then
        mk_notice NtSubmissions ''Submissions closed: pick a winner''
          (agents count @ '' submitted. Pick a winner within '' @ timeLeftText pickLeftSec @
           ''. After that, your task'' @ apos @ ''s verifier picks.'') (or_taskHash rec)
      else
        mk_notice NtSubmissions ''Submissions closed''
          (agents count @ '' submitted. '' @
           (case NEXT_PICKER phase of Some t \<Rightarrow> t
            | None \<Rightarrow> the (NEXT_PICKER PHASE_VerifierPick))) (or_taskHash rec))"

definition pickTimeLeft :: "(chain_key \<Rightarrow> escrow_reads) \<Rightarrow> open_record \<Rightarrow> int \<Rightarrow> int option" where
  "pickTimeLeft escrowFor rec nowSec =
     map_option (\<lambda>d. d + or_creatorWindow rec - nowSec)
       (effectiveDeadline (escrowFor (or_chain rec)) (or_taskId rec))"

record sweep_state =
  sw_store :: open_db
  sw_notifs :: notif_db
  sw_inFlight :: bool

definition with_store :: "sweep_state \<Rightarrow> open_db \<Rightarrow> sweep_state" where
  "with_store s db = s\<lparr>sw_store := db\<rparr>"

text \<open>\<open>now\<close> is Redis' clock in milliseconds, \<open>nowSec\<close> the tick's. \<open>None\<close> is a throw.\<close>

definition close_summary ::
  "(chain_key \<Rightarrow> escrow_reads) \<Rightarrow> sweep_state \<Rightarrow> int \<Rightarrow> string \<Rightarrow> int \<Rightarrow> open_record \<Rightarrow> int \<Rightarrow> stamp \<Rightarrow>
   bool option \<times> sweep_state" where
  "close_summary escrowFor s now ref nowSec rec phase stamp =
     (case submissionCount (escrowFor (or_chain rec)) (or_taskId rec) of
        None \<Rightarrow> (None, s)
      | Some count \<Rightarrow>
          (case (if phase = PHASE_CreatorPick then pickTimeLeft escrowFor rec nowSec else Some 0) of
             None \<Rightarrow> (None, s)
           | Some pickLeft \<Rightarrow>
               let n = notifyOnce (sw_notifs s) now (''open:closed:'' @ ref) (or_poster rec)
                         (closedNotice rec count phase pickLeft) stamp;
                   db = snd (markClosedNotified (sw_store s) now ref);
                   db' = (if phase = PHASE_CreatorPick \<and> 0 < count \<and> 2 * PICK_REMINDER_SEC < pickLeft
                          then scheduleSweep db ref (nowSec + pickLeft - PICK_REMINDER_SEC)
                          else unscheduleSweep db ref)
               in (Some True, s\<lparr>sw_store := db', sw_notifs := snd n\<rparr>)))"

definition pick_reminder ::
  "(chain_key \<Rightarrow> escrow_reads) \<Rightarrow> sweep_state \<Rightarrow> int \<Rightarrow> string \<Rightarrow> int \<Rightarrow> open_record \<Rightarrow> int \<Rightarrow> stamp \<Rightarrow>
   bool option \<times> sweep_state" where
  "pick_reminder escrowFor s now ref nowSec rec phase stamp =
     (if phase \<noteq> PHASE_CreatorPick then
        (Some False, with_store s (unscheduleSweep (sw_store s) ref))
      else (case pickTimeLeft escrowFor rec nowSec of
        None \<Rightarrow> (None, s)
      | Some pickLeft \<Rightarrow>
          if PICK_REMINDER_SEC + RECHECK_SEC < pickLeft then
            (Some False, with_store s (scheduleSweep (sw_store s) ref (nowSec + pickLeft - PICK_REMINDER_SEC)))
          else
            let n = notifyOnce (sw_notifs s) now (''open:pick-soon:'' @ ref) (or_poster rec)
                      (mk_notice NtDeadlineSoon ''Pick a winner soon''
                        (''Your pick window closes in '' @ timeLeftText pickLeft @ ''. After that, your task'' @
                         apos @ ''s verifier picks the winner.'') (or_taskHash rec)) stamp
            in (Some (fst n), s\<lparr>sw_store := unscheduleSweep (sw_store s) ref, sw_notifs := snd n\<rparr>)))"

definition sweepOne ::
  "config \<Rightarrow> (chain_key \<Rightarrow> escrow_reads) \<Rightarrow> sweep_state \<Rightarrow> int \<Rightarrow> string \<Rightarrow> int \<Rightarrow> stamp \<Rightarrow>
   bool option \<times> sweep_state" where
  "sweepOne cfg escrowFor s now ref nowSec stamp =
     (case getRecord (sw_store s) now ref of
        None \<Rightarrow> (Some False, with_store s (scheduleSweep (sw_store s) ref (nowSec + RECHECK_SEC)))
      | Some rec \<Rightarrow>
          if getOutcome (sw_store s) now ref \<noteq> None \<or> \<not> onThisNetwork cfg rec then
            (Some False, with_store s (unscheduleSweep (sw_store s) ref))
          else (case openPhase (escrowFor (or_chain rec)) (or_taskId rec) of
            None \<Rightarrow> (None, s)
          | Some phase \<Rightarrow>
              if phase = PHASE_Submissions then
                (Some False, with_store s (scheduleSweep (sw_store s) ref (nowSec + RECHECK_SEC)))
              else if phase = PHASE_Closed then
                (Some False, with_store s (unscheduleSweep (sw_store s) ref))
              else if \<not> isClosedNotified (sw_store s) now ref then
                close_summary escrowFor s now ref nowSec rec phase stamp
              else pick_reminder escrowFor s now ref nowSec rec phase stamp))"

fun sweep_refs ::
  "config \<Rightarrow> (chain_key \<Rightarrow> escrow_reads) \<Rightarrow> sweep_state \<Rightarrow> int \<Rightarrow> int \<Rightarrow> (string \<Rightarrow> stamp) \<Rightarrow>
   string list \<Rightarrow> nat \<times> sweep_state" where
  "sweep_refs cfg escrowFor s now nowSec stamps [] = (0, s)"
| "sweep_refs cfg escrowFor s now nowSec stamps (ref # refs) =
     (let r = sweepOne cfg escrowFor s now ref nowSec (stamps ref);
          rest = sweep_refs cfg escrowFor (snd r) now nowSec stamps refs
      in ((if fst r = Some True then 1 else 0) + fst rest, snd rest))"

definition sweepOpenSubmissions ::
  "bool \<Rightarrow> bool \<Rightarrow> config \<Rightarrow> (chain_key \<Rightarrow> escrow_reads) \<Rightarrow> sweep_state \<Rightarrow> int \<Rightarrow> int \<Rightarrow> (string \<Rightarrow> stamp) \<Rightarrow>
   nat \<times> sweep_state" where
  "sweepOpenSubmissions enabled writesAllowed cfg escrowFor s now nowSec stamps =
     (if \<not> enabled \<or> \<not> writesAllowed \<or> sw_inFlight s then (0, s)
      else
        let r = sweep_refs cfg escrowFor (s\<lparr>sw_inFlight := True\<rparr>) now nowSec stamps
                  (dueForSweep (sw_store s) nowSec SWEEP_LIMIT)
        in (fst r, (snd r)\<lparr>sw_inFlight := False\<rparr>))"

end
