(* ===== verification/OpenSweepProps.thy ===== *)
theory OpenSweepProps
  imports OpenSweep
begin

text \<open>The properties of the notices and of the open-submission sweep.\<close>

section \<open>Notices\<close>

text \<open>
  Sending many notices by the batch is sending them one at a time: the same notices go
  out, each key's once, in the same order, and the same number is reported, however many there
  are and however often a key repeats.
\<close>

theorem batched_notices_are_one_by_one:
  "notifyOnceMany db now notices = once_each db now notices"
proof (induction db now notices rule: notifyOnceMany.induct)
  case (1 db now notices)
  show ?case
  proof (cases "notices = []")
    case True
    then show ?thesis by (subst notifyOnceMany.simps) simp
  next
    case False
    let ?r = "once_each db now (take ONCE_BATCH notices)"
    have "notifyOnceMany (snd ?r) now (drop ONCE_BATCH notices) =
        once_each (snd ?r) now (drop ONCE_BATCH notices)"
      using 1 False by (simp add: once_batch_each)
    moreover have "once_each db now notices =
        once_each db now (take ONCE_BATCH notices @ drop ONCE_BATCH notices)" by simp
    ultimately show ?thesis
      using False by (subst notifyOnceMany.simps) (simp add: once_batch_each once_each_append Let_def del: append_take_drop_id)
  qed
qed

section \<open>Times\<close>

text \<open>
  The time a poster is told they have left is rounded down, by less than the unit it is
  told in: never more than they have, except that less than a minute reads "a minute".
\<close>

theorem time_left_rounds_down:
  "time_left_sec (time_left_of sec) \<le> max 60 sec \<and>
   sec < time_left_sec (time_left_of sec) + time_left_unit (time_left_of sec)"
proof -
  have days: "86400 * (sec div 86400) \<le> sec" "sec < 86400 * (sec div 86400) + 86400"
    and hours: "3600 * (sec div 3600) \<le> sec" "sec < 3600 * (sec div 3600) + 3600"
    and minutes: "60 * (sec div 60) \<le> sec" "sec < 60 * (sec div 60) + 60"
    by linarith+
  show ?thesis
    unfolding time_left_of_def Let_def using days hours minutes by (auto simp: max_def split: if_splits)
qed

text \<open>
  A poster is reminded at a mark exactly when the task is freshly inside that mark's
  window, counting a mark at most \<open>aheadSec\<close> away, and the sweep saw the task before the mark.
\<close>

theorem reminder_fires_iff:
  assumes "0 \<le> aheadSec" "aheadSec \<le> REMINDER_PULL_AHEAD_SEC"
  shows "dueReminderWindow nowSec dl seenSec REMINDER_WINDOWS aheadSec = Some w \<longleftrightarrow>
    (w = 24 * 3600 \<and> 21 * 3600 < dl - nowSec \<or> w = 3600 \<and> 45 * 60 < dl - nowSec) \<and>
    dl - nowSec \<le> w + aheadSec \<and> seenSec < dl - w"
  using assms
  by (auto simp: dueReminderWindow_def REMINDER_WINDOWS_def REMINDER_PULL_AHEAD_SEC_def Let_def)

theorem reminder_fires_iff_witness:
  "dueReminderWindow 100 3700 50 REMINDER_WINDOWS 0 = Some 3600"
  using reminder_fires_iff [of 0 100 3700 50 3600] by (simp add: REMINDER_PULL_AHEAD_SEC_def)

section \<open>The sweep\<close>

lemma not_due_zrem: "zset_ok z \<Longrightarrow> zscore (zrem z m) m = None"
  by (simp add: redis_simps)

definition not_due :: "open_db \<Rightarrow> string \<Rightarrow> int \<Rightarrow> bool" where
  "not_due db ref nowSec \<longleftrightarrow> zset_ok (o_due db) \<and>
     (case zscore (o_due db) ref of None \<Rightarrow> True | Some t \<Rightarrow> nowSec < t)"

lemma not_due_schedule: "zset_ok (o_due db) \<Longrightarrow> nowSec < t \<Longrightarrow> not_due (scheduleSweep db ref t) ref nowSec"
  by (simp add: not_due_def scheduleSweep_def redis_simps)

lemma not_due_unschedule: "zset_ok (o_due db) \<Longrightarrow> not_due (unscheduleSweep db ref) ref nowSec"
  by (simp add: not_due_def unscheduleSweep_def redis_simps)

lemma o_due_markClosed [simp]: "o_due (snd (markClosedNotified db now ref)) = o_due db"
  by (simp add: markClosedNotified_def Let_def)

lemmas sweep_consts = RECHECK_SEC_def PICK_REMINDER_SEC_def PHASE_CreatorPick_def
  PHASE_Submissions_def PHASE_Closed_def

lemma close_summary_not_due:
  assumes "zset_ok (o_due (sw_store s))"
  shows "case close_summary escrowFor s now ref nowSec rec phase stamp of
      (None, s') \<Rightarrow> s' = s
    | (Some _, s') \<Rightarrow> not_due (sw_store s') ref nowSec"
  using assms
  by (auto simp: close_summary_def PICK_REMINDER_SEC_def Let_def
      intro!: not_due_schedule not_due_unschedule split: option.splits)

lemma pick_reminder_not_due:
  assumes "zset_ok (o_due (sw_store s))"
  shows "case pick_reminder escrowFor s now ref nowSec rec phase stamp of
      (None, s') \<Rightarrow> s' = s
    | (Some _, s') \<Rightarrow> not_due (sw_store s') ref nowSec"
  using assms
  by (auto simp: pick_reminder_def with_store_def PICK_REMINDER_SEC_def RECHECK_SEC_def Let_def
      intro!: not_due_schedule not_due_unschedule split: option.splits)

text \<open>
  A task the sweep looked at is not due again in the same second: it is dropped, or
  scheduled later; when a chain read failed, nothing changed and it stays due. The summary and
  the reminder are sent only while the escrow's phase calls for them.
\<close>

theorem sweep_settles_what_it_looks_at:
  assumes "zset_ok (o_due (sw_store s))"
  shows "(case sweepOne cfg escrowFor s now ref nowSec stamp of
      (None, s') \<Rightarrow> s' = s
    | (Some _, s') \<Rightarrow> not_due (sw_store s') ref nowSec) \<and>
    (sw_notifs (snd (sweepOne cfg escrowFor s now ref nowSec stamp)) \<noteq> sw_notifs s \<longrightarrow>
      (\<exists>rec phase. getRecord (sw_store s) now ref = Some rec \<and>
         openPhase (escrowFor (or_chain rec)) (or_taskId rec) = Some phase \<and>
         phase \<noteq> PHASE_Submissions \<and> phase \<noteq> PHASE_Closed \<and>
         (isClosedNotified (sw_store s) now ref \<longrightarrow> phase = PHASE_CreatorPick)))"
proof
  show "case sweepOne cfg escrowFor s now ref nowSec stamp of
      (None, s') \<Rightarrow> s' = s
    | (Some _, s') \<Rightarrow> not_due (sw_store s') ref nowSec"
    unfolding sweepOne_def
    using assms close_summary_not_due [OF assms] pick_reminder_not_due [OF assms]
    by (auto simp: with_store_def RECHECK_SEC_def intro!: not_due_schedule not_due_unschedule
        split: option.split)
  show "sw_notifs (snd (sweepOne cfg escrowFor s now ref nowSec stamp)) \<noteq> sw_notifs s \<longrightarrow>
      (\<exists>rec phase. getRecord (sw_store s) now ref = Some rec \<and>
         openPhase (escrowFor (or_chain rec)) (or_taskId rec) = Some phase \<and>
         phase \<noteq> PHASE_Submissions \<and> phase \<noteq> PHASE_Closed \<and>
         (isClosedNotified (sw_store s) now ref \<longrightarrow> phase = PHASE_CreatorPick))"
    by (auto simp: sweepOne_def with_store_def pick_reminder_def split: option.splits if_splits)
qed

theorem sweep_settles_what_it_looks_at_witness:
  "not_due (sw_store (snd (sweepOne testnet_config (\<lambda>_. \<lparr>openPhase = (\<lambda>_. None),
       submissionCount = (\<lambda>_. None), effectiveDeadline = (\<lambda>_. None)\<rparr>)
     \<lparr>sw_store = empty_open_db, sw_notifs = empty_notif_db, sw_inFlight = False\<rparr>
     0 ''arc:1'' 0 (''id'', ''at'')))) ''arc:1'' 0"
proof -
  let ?s = "\<lparr>sw_store = empty_open_db, sw_notifs = empty_notif_db, sw_inFlight = False\<rparr>"
  let ?reads = "\<lambda>_. \<lparr>openPhase = (\<lambda>_. None), submissionCount = (\<lambda>_. None), effectiveDeadline = (\<lambda>_. None)\<rparr>"
  have "zset_ok (o_due (sw_store ?s))" by (simp add: empty_open_db_def)
  from sweep_settles_what_it_looks_at [OF this, where cfg = testnet_config and escrowFor = ?reads
    and now = 0 and ref = "''arc:1''" and nowSec = 0 and stamp = "(''id'', ''at'')"]
  show ?thesis by (simp add: sweepOne_def getRecord_def empty_open_db_def kv_get_def)
qed

end
