(* ===== verification/GasSponsor.thy ===== *)
theory GasSponsor
  imports Prelude
begin

text \<open>
  \<open>services/gasSponsorStore.ts\<close>: the durable state of sponsored agent gas. The state is the
  record \<open>gas_db\<close>, one field per Postgres table (\<open>neonDb.ts\<close>, migrations 43, 44 and 47), rows in
  the order of their ids. A call is one transaction (reserve and close run under a lock, the
  others are one statement or one transaction), so each is one definition; \<open>now\<close> is NOW() in
  unix milliseconds. Without DATABASE_URL every call throws: here it is set.
\<close>

section \<open>Tables\<close>

datatype reservation_kind = KSubmit | KRelease
datatype reservation_status = RReserved | RUsed | RReleased | RExpired
datatype tx_status = TxSigned | TxSent | TxConfirmed | TxReverted | TxNoop | TxDropped | TxRejected

record reservation =
  rs_id :: nat
  rs_chainId :: int
  rs_taskId :: int
  rs_kind :: reservation_kind
  rs_taskHash :: string
  rs_agentWallet :: string
  rs_ownerDid :: string
  rs_poster :: string
  rs_status :: reservation_status
  rs_budgetWei :: int
  rs_createdAt :: int
  rs_expiresAt :: int
  rs_settledAt :: "int option"
  rs_txHash :: "string option"
  rs_gasUsed :: "int option"
  rs_costWei :: "int option"
  rs_returnedAt :: "int option"
  rs_attemptedAt :: "int option"
  rs_lastRefusal :: "string option"

record sponsored_tx =
  tx_id :: nat
  tx_chainId :: int
  tx_reservationId :: nat
  tx_sponsor :: string
  tx_nonce :: int
  tx_rawTx :: string
  tx_hash :: string
  tx_withAuthorization :: bool
  tx_status :: tx_status
  tx_gasUsed :: "int option"
  tx_costWei :: "int option"
  tx_createdAt :: int

record strike =
  st_chainId :: int
  st_agentWallet :: string
  st_ownerDid :: string
  st_reservationId :: nat
  st_reason :: string
  st_createdAt :: int

record key_export =
  ke_agentId :: string
  ke_wallet :: string
  ke_requestedBy :: string

record sponsor_controls =
  sc_paused :: bool
  sc_killed :: bool
  sc_reason :: "string option"
  sc_updatedBy :: "string option"
  sc_updatedAt :: "int option"

record gas_db =
  g_reservations :: "reservation list"
  g_txs :: "sponsored_tx list"
  g_strikes :: "strike list"
  g_exports :: "key_export list"
  g_controls :: "int \<rightharpoonup> sponsor_controls"

definition empty_gas_db :: gas_db where
  "empty_gas_db = \<lparr>g_reservations = [], g_txs = [], g_strikes = [], g_exports = [],
     g_controls = Map.empty\<rparr>"

definition minute_ms :: int where "minute_ms = 60 * 1000"
definition hour_ms :: int where "hour_ms = 60 * minute_ms"
definition day_ms :: int where "day_ms = 24 * hour_ms"

text \<open>COALESCE of a nullable number with 0.\<close>

definition or_zero :: "int option \<Rightarrow> int" where
  "or_zero x = (case x of None \<Rightarrow> 0 | Some v \<Rightarrow> v)"

text \<open>A WHERE over an UPDATE: the rows it changes, and the table after it.\<close>

definition update_where :: "('a \<Rightarrow> bool) \<Rightarrow> ('a \<Rightarrow> 'a) \<Rightarrow> 'a list \<Rightarrow> 'a list" where
  "update_where P f xs = map (\<lambda>x. if P x then f x else x) xs"

section \<open>Reservations\<close>

record reserve_input =
  in_chainId :: int
  in_taskId :: int
  in_kind :: reservation_kind
  in_taskHash :: string
  in_agentWallet :: string
  in_ownerDid :: string
  in_poster :: string
  in_budgetWei :: int
  in_ttlSeconds :: int

record sponsor_caps =
  perAgentDaily :: nat
  perUserDaily :: nat
  perPosterDaily :: nat
  hourlyBudgetWei :: int
  dailyBudgetWei :: int
  maxStrikes :: nat

datatype refusal =
  RefPaused | RefTaken | RefAgentHeld | RefStrikes | RefAgentDaily | RefUserDaily | RefPosterDaily |
  RefHourlyBudget | RefDailyBudget

text \<open>A refusal, or the reservation and whether the agent held it already.\<close>

type_synonym reserve_outcome = "refusal + (reservation \<times> bool)"

text \<open>The expression \<open>SPEND\<close> over the rows of a window.\<close>

definition spend_of :: "reservation \<Rightarrow> int" where
  "spend_of r =
     (if rs_status r = RReserved then max (rs_budgetWei r) (or_zero (rs_costWei r))
      else or_zero (rs_costWei r))"

definition spend_since :: "gas_db \<Rightarrow> int \<Rightarrow> int \<Rightarrow> int" where
  "spend_since db chainId since =
     sum_list (map spend_of (filter (\<lambda>r. rs_chainId r = chainId \<and> since < rs_createdAt r)
       (g_reservations db)))"

definition find_reservation :: "gas_db \<Rightarrow> int \<Rightarrow> int \<Rightarrow> reservation_kind \<Rightarrow> reservation option" where
  "find_reservation db chainId taskId kind =
     find (\<lambda>r. rs_chainId r = chainId \<and> rs_taskId r = taskId \<and> rs_kind r = kind) (g_reservations db)"

definition agent_holds :: "gas_db \<Rightarrow> int \<Rightarrow> string \<Rightarrow> bool" where
  "agent_holds db chainId wallet \<longleftrightarrow>
     list_ex (\<lambda>r. rs_chainId r = chainId \<and> rs_agentWallet r = wallet \<and> rs_kind r = KSubmit \<and>
       rs_status r = RReserved) (g_reservations db)"

definition strikeCounts :: "gas_db \<Rightarrow> int \<Rightarrow> int \<Rightarrow> string \<Rightarrow> string option \<Rightarrow> nat \<times> nat" where
  "strikeCounts db now chainId wallet ownerDid =
     (let recent = filter (\<lambda>s. st_chainId s = chainId \<and> now - 7 * day_ms < st_createdAt s) (g_strikes db)
      in (length (filter (\<lambda>s. st_agentWallet s = lower wallet) recent),
          length (filter (\<lambda>s. st_ownerDid s = (case ownerDid of None \<Rightarrow> [] | Some d \<Rightarrow> d)) recent)))"

definition counts_today :: "int \<Rightarrow> int \<Rightarrow> reservation \<Rightarrow> bool" where
  "counts_today now chainId r \<longleftrightarrow>
     rs_chainId r = chainId \<and> rs_kind r = KSubmit \<and>
     (rs_status r \<in> {RReserved, RUsed, RExpired} \<or> rs_returnedAt r \<noteq> None) \<and>
     now - day_ms < rs_createdAt r"

definition daily_count :: "gas_db \<Rightarrow> int \<Rightarrow> int \<Rightarrow> (reservation \<Rightarrow> bool) \<Rightarrow> nat" where
  "daily_count db now chainId who =
     length (filter who (filter (counts_today now chainId) (g_reservations db)))"

definition new_reservation :: "reserve_input \<Rightarrow> int \<Rightarrow> nat \<Rightarrow> reservation" where
  "new_reservation inp now i =
     \<lparr>rs_id = i, rs_chainId = in_chainId inp, rs_taskId = in_taskId inp, rs_kind = in_kind inp,
      rs_taskHash = lower (in_taskHash inp), rs_agentWallet = lower (in_agentWallet inp),
      rs_ownerDid = in_ownerDid inp, rs_poster = lower (in_poster inp), rs_status = RReserved,
      rs_budgetWei = in_budgetWei inp, rs_createdAt = now,
      rs_expiresAt = now + 1000 * in_ttlSeconds inp, rs_settledAt = None, rs_txHash = None,
      rs_gasUsed = None, rs_costWei = None, rs_returnedAt = None, rs_attemptedAt = None,
      rs_lastRefusal = None\<rparr>"

definition retaken :: "reserve_input \<Rightarrow> int \<Rightarrow> reservation \<Rightarrow> reservation" where
  "retaken inp now r =
     r\<lparr>rs_taskHash := lower (in_taskHash inp), rs_agentWallet := lower (in_agentWallet inp),
       rs_ownerDid := in_ownerDid inp, rs_poster := lower (in_poster inp), rs_status := RReserved,
       rs_budgetWei := in_budgetWei inp, rs_createdAt := now,
       rs_expiresAt := now + 1000 * in_ttlSeconds inp, rs_settledAt := None,
       rs_returnedAt := None, rs_attemptedAt := None, rs_lastRefusal := None\<rparr>"

definition is_prior :: "reserve_input \<Rightarrow> reservation \<Rightarrow> bool" where
  "is_prior inp r \<longleftrightarrow>
     rs_chainId r = in_chainId inp \<and> rs_taskId r = in_taskId inp \<and> rs_kind r = in_kind inp"

text \<open>The checks of \<open>reserve\<close> after the prior reservation, in their order; \<open>None\<close> is none failing.\<close>

definition reserve_refusal :: "gas_db \<Rightarrow> int \<Rightarrow> reserve_input \<Rightarrow> sponsor_caps \<Rightarrow> refusal option" where
  "reserve_refusal db now inp caps =
     (let chain = in_chainId inp; wallet = lower (in_agentWallet inp); poster = lower (in_poster inp);
          submit = (in_kind inp = KSubmit);
          strikes = strikeCounts db now chain wallet (Some (in_ownerDid inp))
      in if submit \<and> agent_holds db chain wallet then Some RefAgentHeld
         else if maxStrikes caps \<le> fst strikes \<or> maxStrikes caps \<le> snd strikes then Some RefStrikes
         else if submit \<and> perAgentDaily caps \<le> daily_count db now chain (\<lambda>r. rs_agentWallet r = wallet)
         then Some RefAgentDaily
         else if submit \<and> perUserDaily caps \<le> daily_count db now chain (\<lambda>r. rs_ownerDid r = in_ownerDid inp)
         then Some RefUserDaily
         else if submit \<and> perPosterDaily caps \<le> daily_count db now chain (\<lambda>r. rs_poster r = poster)
         then Some RefPosterDaily
         else if hourlyBudgetWei caps < spend_since db chain (now - hour_ms) + in_budgetWei inp
         then Some RefHourlyBudget
         else if dailyBudgetWei caps < spend_since db chain (now - day_ms) + in_budgetWei inp
         then Some RefDailyBudget
         else None)"

definition paused_chain :: "gas_db \<Rightarrow> int \<Rightarrow> bool" where
  "paused_chain db chainId =
     (case g_controls db chainId of None \<Rightarrow> False | Some c \<Rightarrow> sc_paused c \<or> sc_killed c)"

definition reserve ::
  "gas_db \<Rightarrow> int \<Rightarrow> reserve_input \<Rightarrow> sponsor_caps \<Rightarrow> reserve_outcome \<times> gas_db" where
  "reserve db now inp caps =
     (if paused_chain db (in_chainId inp) then (Inl RefPaused, db)
      else
        let prior = find_reservation db (in_chainId inp) (in_taskId inp) (in_kind inp) in
        case prior of
          Some p \<Rightarrow>
            if rs_status p = RReserved \<and> rs_agentWallet p = lower (in_agentWallet inp)
            then (Inr (p, True), db)
            else if \<not> (rs_status p = RReleased \<and> rs_txHash p = None \<and> rs_costWei p = None)
            then (Inl RefTaken, db)
            else (case reserve_refusal db now inp caps of
              Some ref \<Rightarrow> (Inl ref, db)
            | None \<Rightarrow>
                (Inr (retaken inp now p, False),
                 db\<lparr>g_reservations := update_where (is_prior inp) (retaken inp now) (g_reservations db)\<rparr>))
        | None \<Rightarrow>
            (case reserve_refusal db now inp caps of
               Some ref \<Rightarrow> (Inl ref, db)
             | None \<Rightarrow>
                 let r = new_reservation inp now (length (g_reservations db)) in
                 (Inr (r, False), db\<lparr>g_reservations := g_reservations db @ [r]\<rparr>)))"

definition getReservation :: "gas_db \<Rightarrow> int \<Rightarrow> int \<Rightarrow> reservation_kind \<Rightarrow> reservation option" where
  "getReservation db chainId taskId kind = find_reservation db chainId taskId kind"

definition getReservationById :: "gas_db \<Rightarrow> nat \<Rightarrow> reservation option" where
  "getReservationById db i = find (\<lambda>r. rs_id r = i) (g_reservations db)"

definition heldReservations :: "gas_db \<Rightarrow> int \<Rightarrow> reservation list" where
  "heldReservations db chainId =
     sort_key rs_createdAt
       (filter (\<lambda>r. rs_chainId r = chainId \<and> rs_status r = RReserved) (g_reservations db))"

definition heldByAgent :: "gas_db \<Rightarrow> int \<Rightarrow> string \<Rightarrow> reservation option" where
  "heldByAgent db chainId wallet =
     (let held = filter (\<lambda>r. rs_chainId r = chainId \<and> rs_agentWallet r = lower wallet \<and>
                   rs_status r = RReserved) (g_reservations db)
      in case sort_key (\<lambda>r. - rs_createdAt r) held of [] \<Rightarrow> None | r # _ \<Rightarrow> Some r)"

definition held_row :: "nat \<Rightarrow> reservation \<Rightarrow> bool" where
  "held_row i r \<longleftrightarrow> rs_id r = i \<and> rs_status r = RReserved"

definition startReservationClock :: "gas_db \<Rightarrow> int \<Rightarrow> nat \<Rightarrow> int \<Rightarrow> gas_db" where
  "startReservationClock db now i ttlSeconds =
     db\<lparr>g_reservations := update_where (held_row i)
          (\<lambda>r. r\<lparr>rs_expiresAt := now + 1000 * ttlSeconds\<rparr>) (g_reservations db)\<rparr>"

text \<open>COALESCE of a nullable time with now: the first time is kept.\<close>

definition first_time :: "int option \<Rightarrow> int \<Rightarrow> int option" where
  "first_time t now = (case t of None \<Rightarrow> Some now | Some x \<Rightarrow> Some x)"

definition markReservationReturned :: "gas_db \<Rightarrow> int \<Rightarrow> nat \<Rightarrow> bool \<times> gas_db" where
  "markReservationReturned db now i =
     (list_ex (held_row i) (g_reservations db),
      db\<lparr>g_reservations := update_where (held_row i)
           (\<lambda>r. r\<lparr>rs_returnedAt := first_time (rs_returnedAt r) now\<rparr>) (g_reservations db)\<rparr>)"

definition markReservationAttempted :: "gas_db \<Rightarrow> int \<Rightarrow> nat \<Rightarrow> string option \<Rightarrow> gas_db" where
  "markReservationAttempted db now i ref =
     db\<lparr>g_reservations := update_where (held_row i)
          (\<lambda>r. r\<lparr>rs_attemptedAt := first_time (rs_attemptedAt r) now, rs_lastRefusal := ref\<rparr>)
          (g_reservations db)\<rparr>"

datatype close_status = CloseUsed | CloseReleased | CloseExpired

fun closed_status :: "close_status \<Rightarrow> reservation_status" where
  "closed_status CloseUsed = RUsed"
| "closed_status CloseReleased = RReleased"
| "closed_status CloseExpired = RExpired"

text \<open>INSERT ... ON CONFLICT (reservation_id) DO NOTHING.\<close>

definition add_strike :: "strike list \<Rightarrow> strike \<Rightarrow> strike list" where
  "add_strike ss s =
     (if list_ex (\<lambda>t. st_reservationId t = st_reservationId s) ss then ss else ss @ [s])"

definition strike_for :: "reservation \<Rightarrow> int \<Rightarrow> string option \<Rightarrow> strike" where
  "strike_for r now reason =
     \<lparr>st_chainId = rs_chainId r, st_agentWallet = rs_agentWallet r, st_ownerDid = rs_ownerDid r,
      st_reservationId = rs_id r,
      st_reason = (case reason of None \<Rightarrow> ''held an hour without a submit'' | Some t \<Rightarrow> t),
      st_createdAt = now\<rparr>"

definition closeReservation ::
  "gas_db \<Rightarrow> int \<Rightarrow> nat \<Rightarrow> close_status \<Rightarrow> string option \<Rightarrow> bool \<times> gas_db" where
  "closeReservation db now i st reason =
     (let db' = db\<lparr>g_reservations := update_where (held_row i)
                  (\<lambda>r. r\<lparr>rs_status := closed_status st, rs_settledAt := Some now\<rparr>) (g_reservations db)\<rparr>
      in case find (held_row i) (g_reservations db) of
           None \<Rightarrow> (False, db')
         | Some r \<Rightarrow>
             (True,
              if st = CloseExpired
              then db'\<lparr>g_strikes := add_strike (g_strikes db) (strike_for r now reason)\<rparr>
              else db'))"

section \<open>Sponsored transactions\<close>

definition nextStoredNonce :: "gas_db \<Rightarrow> int \<Rightarrow> string \<Rightarrow> int option" where
  "nextStoredNonce db chainId sponsor =
     (let ns = map tx_nonce (filter (\<lambda>t. tx_chainId t = chainId \<and> tx_sponsor t = lower sponsor \<and>
                 tx_status t \<noteq> TxRejected) (g_txs db))
      in case ns of [] \<Rightarrow> None | n # rest \<Rightarrow> Some (fold max rest n + 1))"

record signed_input =
  si_chainId :: int
  si_reservationId :: nat
  si_sponsor :: string
  si_nonce :: int
  si_rawTx :: string
  si_txHash :: string
  si_withAuthorization :: bool

text \<open>What a statement on the table throws.\<close>

datatype pg_error = UniqueViolation | ForeignKeyViolation

definition same_slot :: "int \<Rightarrow> string \<Rightarrow> int \<Rightarrow> sponsored_tx \<Rightarrow> bool" where
  "same_slot chainId sponsor nonce t \<longleftrightarrow>
     tx_chainId t = chainId \<and> tx_sponsor t = sponsor \<and> tx_nonce t = nonce \<and> tx_status t \<noteq> TxRejected"

definition recordSignedTx ::
  "gas_db \<Rightarrow> int \<Rightarrow> signed_input \<Rightarrow> (pg_error + sponsored_tx option) \<times> gas_db" where
  "recordSignedTx db now tx =
     (let sponsor = lower (si_sponsor tx) in
      if list_ex (\<lambda>t. tx_chainId t = si_chainId tx \<and> tx_sponsor t = sponsor \<and> tx_status t = TxSigned)
           (g_txs db)
      then (Inr None, db)
      else if list_ex (same_slot (si_chainId tx) sponsor (si_nonce tx)) (g_txs db) \<or>
              list_ex (\<lambda>t. tx_hash t = si_txHash tx) (g_txs db)
      then (Inl UniqueViolation, db)
      else if getReservationById db (si_reservationId tx) = None
      then (Inl ForeignKeyViolation, db)
      else
        let row = \<lparr>tx_id = length (g_txs db), tx_chainId = si_chainId tx,
                   tx_reservationId = si_reservationId tx, tx_sponsor = sponsor,
                   tx_nonce = si_nonce tx, tx_rawTx = si_rawTx tx, tx_hash = si_txHash tx,
                   tx_withAuthorization = si_withAuthorization tx, tx_status = TxSigned,
                   tx_gasUsed = None, tx_costWei = None, tx_createdAt = now\<rparr>
        in (Inr (Some row), db\<lparr>g_txs := g_txs db @ [row]\<rparr>))"

definition tx_matches :: "string \<Rightarrow> tx_status option \<Rightarrow> sponsored_tx \<Rightarrow> bool" where
  "tx_matches hash from t \<longleftrightarrow>
     tx_hash t = hash \<and> (case from of None \<Rightarrow> True | Some f \<Rightarrow> tx_status t = f)"

text \<open>A status that gives a rejected transaction its nonce back can meet the unique index.\<close>

definition nonce_clash :: "gas_db \<Rightarrow> tx_status \<Rightarrow> sponsored_tx \<Rightarrow> bool" where
  "nonce_clash db st t \<longleftrightarrow>
     tx_status t = TxRejected \<and> st \<noteq> TxRejected \<and>
     list_ex (same_slot (tx_chainId t) (tx_sponsor t) (tx_nonce t)) (g_txs db)"

definition setTxStatus ::
  "gas_db \<Rightarrow> string \<Rightarrow> tx_status \<Rightarrow> tx_status option \<Rightarrow> (pg_error + bool) \<times> gas_db" where
  "setTxStatus db hash st from =
     (if list_ex (\<lambda>t. tx_matches hash from t \<and> nonce_clash db st t) (g_txs db)
      then (Inl UniqueViolation, db)
      else (Inr (list_ex (tx_matches hash from) (g_txs db)),
            db\<lparr>g_txs := update_where (tx_matches hash from) (\<lambda>t. t\<lparr>tx_status := st\<rparr>) (g_txs db)\<rparr>))"

datatype settle_status = SettleConfirmed | SettleReverted | SettleNoop

fun settled_status :: "settle_status \<Rightarrow> tx_status" where
  "settled_status SettleConfirmed = TxConfirmed"
| "settled_status SettleReverted = TxReverted"
| "settled_status SettleNoop = TxNoop"

definition unsettled_row :: "string \<Rightarrow> sponsored_tx \<Rightarrow> bool" where
  "unsettled_row hash t \<longleftrightarrow> tx_hash t = hash \<and> tx_costWei t = None"

definition settleTx ::
  "gas_db \<Rightarrow> string \<Rightarrow> settle_status \<Rightarrow> int \<Rightarrow> int \<Rightarrow> (pg_error + unit) \<times> gas_db" where
  "settleTx db hash st gasUsed costWei =
     (case find (unsettled_row hash) (g_txs db) of
        None \<Rightarrow> (Inr (), db)
      | Some t \<Rightarrow>
          if nonce_clash db (settled_status st) t then (Inl UniqueViolation, db)
          else
            (Inr (),
             db\<lparr>g_txs := update_where (unsettled_row hash)
                  (\<lambda>t. t\<lparr>tx_status := settled_status st, tx_gasUsed := Some gasUsed, tx_costWei := Some costWei\<rparr>)
                  (g_txs db),
                g_reservations := update_where (\<lambda>r. rs_id r = tx_reservationId t)
                  (\<lambda>r. r\<lparr>rs_gasUsed := Some (or_zero (rs_gasUsed r) + gasUsed),
                         rs_costWei := Some (or_zero (rs_costWei r) + costWei)\<rparr>)
                  (g_reservations db)\<rparr>))"

definition markReservationUsed :: "gas_db \<Rightarrow> int \<Rightarrow> nat \<Rightarrow> string option \<Rightarrow> gas_db" where
  "markReservationUsed db now i hash =
     db\<lparr>g_reservations := update_where (\<lambda>r. rs_id r = i)
          (\<lambda>r. r\<lparr>rs_status := RUsed, rs_txHash := hash, rs_settledAt := Some now\<rparr>) (g_reservations db)\<rparr>"

definition unsettledTxs :: "gas_db \<Rightarrow> int \<Rightarrow> string \<Rightarrow> sponsored_tx list" where
  "unsettledTxs db chainId sponsor =
     sort_key tx_nonce (filter (\<lambda>t. tx_chainId t = chainId \<and> tx_sponsor t = lower sponsor \<and>
       tx_status t \<in> {TxSigned, TxSent}) (g_txs db))"

definition txsForReservation :: "gas_db \<Rightarrow> nat \<Rightarrow> sponsored_tx list" where
  "txsForReservation db i = sort_key tx_nonce (filter (\<lambda>t. tx_reservationId t = i) (g_txs db))"

definition setupAttempts :: "gas_db \<Rightarrow> int \<Rightarrow> string \<Rightarrow> nat" where
  "setupAttempts db chainId wallet =
     length (filter (\<lambda>t. tx_chainId t = chainId \<and> tx_withAuthorization t \<and>
         tx_status t \<notin> {TxDropped, TxRejected} \<and>
         (case getReservationById db (tx_reservationId t) of
            None \<Rightarrow> False | Some r \<Rightarrow> rs_agentWallet r = lower wallet)) (g_txs db))"

section \<open>Key exports, controls and monitoring\<close>

definition recordKeyExport :: "gas_db \<Rightarrow> string \<Rightarrow> string \<Rightarrow> string \<Rightarrow> gas_db" where
  "recordKeyExport db agentId wallet requestedBy =
     db\<lparr>g_exports := g_exports db @
          [\<lparr>ke_agentId = agentId, ke_wallet = lower wallet, ke_requestedBy = lower requestedBy\<rparr>]\<rparr>"

definition walletKeyExported :: "gas_db \<Rightarrow> string \<Rightarrow> bool" where
  "walletKeyExported db wallet \<longleftrightarrow> list_ex (\<lambda>e. ke_wallet e = lower wallet) (g_exports db)"

definition getControls :: "gas_db \<Rightarrow> int \<Rightarrow> sponsor_controls" where
  "getControls db chainId =
     (case g_controls db chainId of
        Some c \<Rightarrow> c
      | None \<Rightarrow> \<lparr>sc_paused = False, sc_killed = False, sc_reason = None, sc_updatedBy = None,
                 sc_updatedAt = None\<rparr>)"

definition setControls ::
  "gas_db \<Rightarrow> int \<Rightarrow> int \<Rightarrow> bool option \<Rightarrow> bool option \<Rightarrow> string \<Rightarrow> string \<Rightarrow> sponsor_controls \<times> gas_db" where
  "setControls db now chainId paused killed reason by_whom =
     (let old = getControls db chainId;
          c = \<lparr>sc_paused = (case paused of None \<Rightarrow> sc_paused old | Some p \<Rightarrow> p),
               sc_killed = (case killed of None \<Rightarrow> sc_killed old | Some k \<Rightarrow> k),
               sc_reason = Some reason, sc_updatedBy = Some by_whom, sc_updatedAt = Some now\<rparr>;
          db' = db\<lparr>g_controls := (g_controls db)(chainId \<mapsto> c)\<rparr>
      in (getControls db' chainId, db'))"

record sponsor_usage =
  spentLastHourWei :: int
  spentLastDayWei :: int
  callsLastDay :: nat
  failuresLastHour :: nat
  sendsLastHour :: nat

definition usage :: "gas_db \<Rightarrow> int \<Rightarrow> int \<Rightarrow> sponsor_usage" where
  "usage db now chainId =
     (let since = (\<lambda>t0. filter (\<lambda>t. tx_chainId t = chainId \<and> t0 < tx_createdAt t) (g_txs db)) in
      \<lparr>spentLastHourWei = spend_since db chainId (now - hour_ms),
       spentLastDayWei = spend_since db chainId (now - day_ms),
       callsLastDay = length (since (now - day_ms)),
       failuresLastHour = length (filter
         (\<lambda>t. tx_status t \<in> {TxReverted, TxNoop, TxDropped, TxRejected}) (since (now - hour_ms))),
       sendsLastHour = length (since (now - hour_ms))\<rparr>)"

definition inFlightCounts :: "gas_db \<Rightarrow> int \<Rightarrow> nat \<times> nat" where
  "inFlightCounts db chainId =
     (length (filter (\<lambda>r. rs_chainId r = chainId \<and> rs_status r = RReserved) (g_reservations db)),
      length (filter (\<lambda>t. tx_chainId t = chainId \<and> tx_status t \<in> {TxSigned, TxSent}) (g_txs db)))"

end
