(* ===== verification/GasSponsorProps.thy ===== *)
theory GasSponsorProps
  imports GasSponsor
begin

text \<open>
  What every writer of the sponsored-gas tables keeps, as an invariant of all reachable states,
  and the properties of reservations and write-ahead transactions.
\<close>

section \<open>Updates of a table\<close>

lemma set_update_where: "set (update_where P f xs) = f ` {x \<in> set xs. P x} \<union> {x \<in> set xs. \<not> P x}"
  by (auto simp: update_where_def)

lemma length_update_where [simp]: "length (update_where P f xs) = length xs"
  by (simp add: update_where_def)

lemma map_update_where: "(\<And>x. P x \<Longrightarrow> g (f x) = g x) \<Longrightarrow> map g (update_where P f xs) = map g xs"
  by (auto simp: update_where_def)

lemma sum_update_where:
  fixes g :: "'a \<Rightarrow> int"
  shows "filter P xs = [p] \<Longrightarrow>
    sum_list (map g (update_where P f xs)) = sum_list (map g xs) - g p + g (f p)"
proof (induction xs)
  case (Cons x xs)
  show ?case
  proof (cases "P x")
    case True
    with Cons.prems have "x = p" "filter P xs = []" by auto
    moreover from this have "update_where P f xs = xs"
      by (auto simp: update_where_def filter_empty_conv intro: map_idI)
    ultimately show ?thesis using True by (simp add: update_where_def)
  next
    case False
    with Cons show ?thesis by (simp add: update_where_def)
  qed
qed simp

lemma count_update_where:
  "length (filter Q (update_where P f xs)) \<le> length (filter Q xs) + length (filter P xs)"
  by (induction xs) (auto simp: update_where_def)

lemma sum_filter_if:
  fixes g :: "'a \<Rightarrow> int"
  shows "sum_list (map g (filter Q xs)) = sum_list (map (\<lambda>x. if Q x then g x else 0) xs)"
  by (induction xs) auto

lemma find_exists: "x \<in> set xs \<Longrightarrow> P x \<Longrightarrow> \<exists>u. find P xs = Some u"
  by (induction xs) auto

lemma find_in: "find P xs = Some x \<Longrightarrow> x \<in> set xs \<and> P x"
  by (induction xs) (auto split: if_splits)

lemma filter_distinct_key:
  assumes "distinct (map k xs)" "\<And>x. P x \<longleftrightarrow> k x = c" "find P xs = Some p"
  shows "filter P xs = [p]"
  using assms
proof (induction xs)
  case (Cons x xs)
  show ?case
  proof (cases "P x")
    case True
    then have "filter P xs = []"
      using Cons.prems(1,2) by (auto simp: filter_empty_conv image_iff)
    with True Cons.prems(3) show ?thesis by simp
  next
    case False
    with Cons show ?thesis by auto
  qed
qed simp

lemma filter_at_most_one:
  assumes "distinct (map k xs)" "\<And>x y. x \<in> set xs \<Longrightarrow> y \<in> set xs \<Longrightarrow> P x \<Longrightarrow> P y \<Longrightarrow> k x = k y"
  shows "length (filter P xs) \<le> 1"
  using assms
proof (induction xs)
  case (Cons x xs)
  have "length (filter P xs) \<le> 1" using Cons by simp
  moreover have "filter P xs = []" if "P x"
    unfolding filter_empty_conv
  proof (intro ballI notI)
    fix y assume y: "y \<in> set xs" "P y"
    then have "k x = k y" using Cons.prems(2) that by simp
    with y Cons.prems(1) show False by auto
  qed
  ultimately show ?case by auto
qed simp

section \<open>The invariant\<close>

definition task_key :: "reservation \<Rightarrow> int \<times> int \<times> reservation_kind" where
  "task_key r = (rs_chainId r, rs_taskId r, rs_kind r)"

definition held_submit :: "int \<Rightarrow> string \<Rightarrow> reservation \<Rightarrow> bool" where
  "held_submit chainId wallet r \<longleftrightarrow>
     rs_chainId r = chainId \<and> rs_agentWallet r = wallet \<and> rs_kind r = KSubmit \<and> rs_status r = RReserved"

definition tx_cost_of :: "sponsored_tx list \<Rightarrow> nat \<Rightarrow> int" where
  "tx_cost_of txs i = sum_list (map (or_zero \<circ> tx_costWei) (filter (\<lambda>t. tx_reservationId t = i) txs))"

definition one_held :: "reservation list \<Rightarrow> bool" where
  "one_held rs \<longleftrightarrow>
     (\<forall>r \<in> set rs. \<forall>r' \<in> set rs. \<forall>c w. held_submit c w r \<longrightarrow> held_submit c w r' \<longrightarrow> rs_id r = rs_id r')"

definition reservations_ok :: "reservation list \<Rightarrow> bool" where
  "reservations_ok rs \<longleftrightarrow>
     map rs_id rs = [0..<length rs] \<and> distinct (map task_key rs) \<and> one_held rs"

definition one_slot :: "sponsored_tx list \<Rightarrow> bool" where
  "one_slot txs \<longleftrightarrow>
     (\<forall>t \<in> set txs. \<forall>t' \<in> set txs. \<forall>c s k. same_slot c s k t \<longrightarrow> same_slot c s k t' \<longrightarrow> tx_hash t = tx_hash t')"

definition costs_ok :: "gas_db \<Rightarrow> bool" where
  "costs_ok db \<longleftrightarrow>
     (\<forall>r \<in> set (g_reservations db). or_zero (rs_costWei r) = tx_cost_of (g_txs db) (rs_id r))"

definition txs_ok :: "nat \<Rightarrow> sponsored_tx list \<Rightarrow> bool" where
  "txs_ok n txs \<longleftrightarrow>
     distinct (map tx_hash txs) \<and> (\<forall>t \<in> set txs. tx_reservationId t < n) \<and> one_slot txs"

definition gas_ok :: "gas_db \<Rightarrow> bool" where
  "gas_ok db \<longleftrightarrow>
     reservations_ok (g_reservations db) \<and>
     txs_ok (length (g_reservations db)) (g_txs db) \<and>
     costs_ok db \<and> distinct (map st_reservationId (g_strikes db))"

lemma gas_ok_empty: "gas_ok empty_gas_db"
  by (simp add: gas_ok_def reservations_ok_def txs_ok_def one_held_def one_slot_def costs_ok_def
    empty_gas_db_def)

lemma gas_ok_held:
  "gas_ok db \<Longrightarrow> r \<in> set (g_reservations db) \<Longrightarrow> r' \<in> set (g_reservations db) \<Longrightarrow>
   held_submit c w r \<Longrightarrow> held_submit c w r' \<Longrightarrow> rs_id r = rs_id r'"
  unfolding gas_ok_def reservations_ok_def one_held_def by blast

lemma gas_ok_idx: "gas_ok db \<Longrightarrow> map rs_id (g_reservations db) = [0..<length (g_reservations db)]"
  by (simp add: gas_ok_def reservations_ok_def)

text \<open>An update of reservations that keeps their ids, tasks and costs, and holds nothing new.\<close>

lemma gas_ok_update:
  assumes ok: "gas_ok db"
    and keeps: "\<And>r. P r \<Longrightarrow> rs_id (f r) = rs_id r \<and> task_key (f r) = task_key r \<and> rs_costWei (f r) = rs_costWei r"
    and holds: "\<And>r c w. P r \<Longrightarrow> held_submit c w (f r) \<Longrightarrow> held_submit c w r"
  shows "gas_ok (db\<lparr>g_reservations := update_where P f (g_reservations db)\<rparr>)"
proof -
  let ?rs = "g_reservations db" and ?rs' = "update_where P f (g_reservations db)"
  have ids: "map rs_id ?rs' = map rs_id ?rs" "map task_key ?rs' = map task_key ?rs"
    using keeps by (auto intro!: map_update_where)
  have held: "one_held ?rs'"
  proof -
    have from_old: "\<exists>x \<in> set ?rs. rs_id r = rs_id x \<and> (held_submit c w r \<longrightarrow> held_submit c w x)"
      if "r \<in> set ?rs'" for r c w
      using that keeps holds unfolding set_update_where by auto
    show ?thesis
      unfolding one_held_def
    proof (intro ballI allI impI)
      fix r r' c w
      assume r: "r \<in> set ?rs'" "r' \<in> set ?rs'" "held_submit c w r" "held_submit c w r'"
      obtain x where x: "x \<in> set ?rs" "rs_id r = rs_id x" "held_submit c w x"
        using from_old [OF r(1), of c w] r(3) by blast
      obtain y where y: "y \<in> set ?rs" "rs_id r' = rs_id y" "held_submit c w y"
        using from_old [OF r(2), of c w] r(4) by blast
      show "rs_id r = rs_id r'" using gas_ok_held [OF ok x(1) y(1) x(3) y(3)] x y by simp
    qed
  qed
  have "costs_ok (db\<lparr>g_reservations := ?rs'\<rparr>)"
    using ok keeps unfolding gas_ok_def costs_ok_def by (auto simp: set_update_where)
  with ok ids held show ?thesis by (simp add: gas_ok_def reservations_ok_def)
qed

lemma agent_holds_iff: "agent_holds db c w \<longleftrightarrow> (\<exists>r \<in> set (g_reservations db). held_submit c w r)"
  by (simp add: agent_holds_def held_submit_def list_ex_iff)

lemma is_prior_key: "is_prior inp r \<longleftrightarrow> task_key r = (in_chainId inp, in_taskId inp, in_kind inp)"
  by (simp add: is_prior_def task_key_def)

lemma find_reservation_prior:
  "find_reservation db (in_chainId inp) (in_taskId inp) (in_kind inp) = find (is_prior inp) (g_reservations db)"
  by (simp add: find_reservation_def is_prior_def [abs_def])

lemma prior_unique:
  assumes "gas_ok db" "find (is_prior inp) (g_reservations db) = Some p"
  shows "filter (is_prior inp) (g_reservations db) = [p]"
  using assms by (intro filter_distinct_key [of task_key]) (auto simp: gas_ok_def reservations_ok_def is_prior_key)

lemma reserve_refusal_free:
  "reserve_refusal db now inp caps = None \<Longrightarrow> in_kind inp = KSubmit \<Longrightarrow>
   \<not> agent_holds db (in_chainId inp) (lower (in_agentWallet inp))"
  by (auto simp: reserve_refusal_def Let_def split: if_splits)

lemma gas_ok_retake:
  assumes ok: "gas_ok db" and free: "reserve_refusal db now inp caps = None"
    and prior: "find (is_prior inp) (g_reservations db) = Some p"
  shows "gas_ok (db\<lparr>g_reservations := update_where (is_prior inp) (retaken inp now) (g_reservations db)\<rparr>)"
proof -
  let ?rs = "g_reservations db" and ?rs' = "update_where (is_prior inp) (retaken inp now) (g_reservations db)"
  have keeps: "rs_id (retaken inp now r) = rs_id r" "task_key (retaken inp now r) = task_key r"
    "rs_costWei (retaken inp now r) = rs_costWei r" for r
    by (simp_all add: retaken_def task_key_def)
  have ids: "map rs_id ?rs' = map rs_id ?rs" "map task_key ?rs' = map task_key ?rs"
    by (auto intro!: map_update_where simp: keeps)
  have one: "r \<in> set ?rs \<Longrightarrow> is_prior inp r \<Longrightarrow> r = p" for r
  proof -
    assume "r \<in> set ?rs" "is_prior inp r"
    then have "r \<in> set (filter (is_prior inp) ?rs)" by simp
    then show "r = p" unfolding prior_unique [OF ok prior] by simp
  qed
  have new: "held_submit c w (retaken inp now p) \<Longrightarrow> r \<in> set ?rs \<Longrightarrow> \<not> is_prior inp r \<Longrightarrow> \<not> held_submit c w r" for c w r
  proof -
    assume h: "held_submit c w (retaken inp now p)" and r: "r \<in> set ?rs"
    have pk: "is_prior inp p" using prior by (auto simp: find_Some_iff)
    have "c = in_chainId inp" "w = lower (in_agentWallet inp)" "in_kind inp = KSubmit"
      using h pk by (auto simp: held_submit_def retaken_def is_prior_def)
    then show "\<not> held_submit c w r"
      using reserve_refusal_free [OF free] r by (auto simp: agent_holds_iff)
  qed
  have "one_held ?rs'"
    unfolding one_held_def
  proof (intro ballI allI impI)
    fix r r' c w
    assume r: "r \<in> set ?rs'" "r' \<in> set ?rs'" "held_submit c w r" "held_submit c w r'"
    have cases: "x = retaken inp now p \<or> x \<in> set ?rs \<and> \<not> is_prior inp x" if "x \<in> set ?rs'" for x
      using that one unfolding set_update_where by auto
    show "rs_id r = rs_id r'"
      using cases [OF r(1)] cases [OF r(2)] r(3,4) new gas_ok_held [OF ok] by blast
  qed
  moreover have "costs_ok (db\<lparr>g_reservations := ?rs'\<rparr>)"
    using ok unfolding gas_ok_def costs_ok_def by (auto simp: set_update_where keeps)
  ultimately show ?thesis using ok ids by (simp add: gas_ok_def reservations_ok_def)
qed

lemma gas_ok_insert:
  assumes ok: "gas_ok db" and free: "reserve_refusal db now inp caps = None"
    and prior: "find (is_prior inp) (g_reservations db) = None"
  shows "gas_ok (db\<lparr>g_reservations := g_reservations db @ [new_reservation inp now (length (g_reservations db))]\<rparr>)"
proof -
  let ?rs = "g_reservations db" and ?r = "new_reservation inp now (length (g_reservations db))"
  have r: "rs_id ?r = length ?rs" "task_key ?r = (in_chainId inp, in_taskId inp, in_kind inp)"
    "rs_costWei ?r = None"
    by (simp_all add: new_reservation_def task_key_def)
  have fresh: "task_key ?r \<notin> task_key ` set ?rs"
    using prior unfolding r(2) by (auto simp: find_None_iff is_prior_key)
  have new: "x \<in> set ?rs \<Longrightarrow> held_submit c w ?r \<Longrightarrow> \<not> held_submit c w x" for x c w
  proof -
    assume x: "x \<in> set ?rs" and h: "held_submit c w ?r"
    then have "c = in_chainId inp" "w = lower (in_agentWallet inp)" "in_kind inp = KSubmit"
      by (auto simp: held_submit_def new_reservation_def)
    then show "\<not> held_submit c w x"
      using reserve_refusal_free [OF free] x by (auto simp: agent_holds_iff)
  qed
  have "one_held (?rs @ [?r])"
    unfolding one_held_def
  proof (intro ballI allI impI)
    fix a b c w
    assume a: "a \<in> set (?rs @ [?r])" "b \<in> set (?rs @ [?r])" "held_submit c w a" "held_submit c w b"
    have "a = ?r \<or> a \<in> set ?rs" "b = ?r \<or> b \<in> set ?rs" using a(1,2) by auto
    then show "rs_id a = rs_id b" using a(3,4) new gas_ok_held [OF ok] by blast
  qed
  moreover have "tx_cost_of (g_txs db) (length ?rs) = 0"
  proof -
    have "filter (\<lambda>t. tx_reservationId t = length ?rs) (g_txs db) = []"
      using ok by (auto simp: gas_ok_def txs_ok_def filter_empty_conv)
    then show ?thesis by (simp add: tx_cost_of_def)
  qed
  moreover have "txs_ok (Suc (length ?rs)) (g_txs db)"
    using ok by (auto simp: gas_ok_def txs_ok_def less_SucI)
  ultimately show ?thesis
    using ok fresh r by (simp add: gas_ok_def reservations_ok_def costs_ok_def or_zero_def)
qed

lemma gas_ok_reserve: "gas_ok db \<Longrightarrow> gas_ok (snd (reserve db now inp caps))"
  using gas_ok_retake gas_ok_insert
  by (auto simp: reserve_def find_reservation_prior Let_def split: option.split)

lemma gas_ok_clock: "gas_ok db \<Longrightarrow> gas_ok (startReservationClock db now i ttl)"
  unfolding startReservationClock_def by (rule gas_ok_update) (auto simp: task_key_def held_submit_def)

lemma gas_ok_returned: "gas_ok db \<Longrightarrow> gas_ok (snd (markReservationReturned db now i))"
  unfolding markReservationReturned_def snd_conv
  by (rule gas_ok_update) (auto simp: task_key_def held_submit_def)

lemma gas_ok_attempted: "gas_ok db \<Longrightarrow> gas_ok (markReservationAttempted db now i ref)"
  unfolding markReservationAttempted_def by (rule gas_ok_update) (auto simp: task_key_def held_submit_def)

lemma gas_ok_used: "gas_ok db \<Longrightarrow> gas_ok (markReservationUsed db now i hash)"
  unfolding markReservationUsed_def by (rule gas_ok_update) (auto simp: task_key_def held_submit_def)

lemma gas_ok_strike: "gas_ok db \<Longrightarrow> gas_ok (db\<lparr>g_strikes := add_strike (g_strikes db) s\<rparr>)"
  by (auto simp: gas_ok_def costs_ok_def add_strike_def list_ex_iff)

lemma gas_ok_close: "gas_ok db \<Longrightarrow> gas_ok (snd (closeReservation db now i st reason))"
proof -
  assume ok: "gas_ok db"
  let ?db = "db\<lparr>g_reservations := update_where (held_row i)
    (\<lambda>r. r\<lparr>rs_status := closed_status st, rs_settledAt := Some now\<rparr>) (g_reservations db)\<rparr>"
  have ok': "gas_ok ?db"
    by (rule gas_ok_update [OF ok]) (cases st; auto simp: task_key_def held_submit_def)+
  have "gas_ok (?db\<lparr>g_strikes := add_strike (g_strikes db) s\<rparr>)" for s
    using gas_ok_strike [OF ok'] by simp
  with ok' show ?thesis
    by (cases "st = CloseExpired") (simp_all add: closeReservation_def Let_def split: option.split)
qed

lemma gas_ok_record: "gas_ok db \<Longrightarrow> gas_ok (snd (recordSignedTx db now tx))"
proof -
  assume ok: "gas_ok db"
  let ?txs = "g_txs db" and ?sp = "lower (si_sponsor tx)"
  let ?row = "\<lparr>tx_id = length ?txs, tx_chainId = si_chainId tx, tx_reservationId = si_reservationId tx,
    tx_sponsor = ?sp, tx_nonce = si_nonce tx, tx_rawTx = si_rawTx tx, tx_hash = si_txHash tx,
    tx_withAuthorization = si_withAuthorization tx, tx_status = TxSigned, tx_gasUsed = None,
    tx_costWei = None, tx_createdAt = now\<rparr>"
  show ?thesis
  proof (cases "snd (recordSignedTx db now tx) = db")
    case False
    then have free: "\<not> list_ex (same_slot (si_chainId tx) ?sp (si_nonce tx)) ?txs"
      "\<not> list_ex (\<lambda>t. tx_hash t = si_txHash tx) ?txs"
      and fk: "getReservationById db (si_reservationId tx) \<noteq> None"
      and new: "snd (recordSignedTx db now tx) = db\<lparr>g_txs := ?txs @ [?row]\<rparr>"
      by (auto simp: recordSignedTx_def Let_def split: if_splits)
    obtain r where r: "r \<in> set (g_reservations db)" "rs_id r = si_reservationId tx"
      using fk find_in by (fastforce simp: getReservationById_def)
    have "set (map rs_id (g_reservations db)) = {0..<length (g_reservations db)}"
      unfolding gas_ok_idx [OF ok] by simp
    then have "si_reservationId tx < length (g_reservations db)"
      using r by (metis atLeastLessThan_iff image_eqI set_map)
    moreover have "one_slot (?txs @ [?row])"
      unfolding one_slot_def
    proof (intro ballI allI impI)
      fix t t' c s k
      assume t: "t \<in> set (?txs @ [?row])" "t' \<in> set (?txs @ [?row])" "same_slot c s k t" "same_slot c s k t'"
      have old: "x \<in> set ?txs \<Longrightarrow> same_slot c s k ?row \<Longrightarrow> \<not> same_slot c s k x" for x
        using free(1) by (auto simp: list_ex_iff same_slot_def)
      have "one_slot ?txs" using ok by (simp add: gas_ok_def txs_ok_def)
      moreover have "t = ?row \<or> t \<in> set ?txs" "t' = ?row \<or> t' \<in> set ?txs" using t(1,2) by auto
      ultimately show "tx_hash t = tx_hash t'" using t(3,4) old unfolding one_slot_def by blast
    qed
    moreover have "costs_ok (db\<lparr>g_txs := ?txs @ [?row]\<rparr>)"
      using ok by (auto simp: gas_ok_def costs_ok_def tx_cost_of_def or_zero_def)
    ultimately show ?thesis
      using ok free(2) unfolding new by (auto simp: gas_ok_def txs_ok_def list_ex_iff)
  qed (use ok in simp)
qed

text \<open>A change of a transaction's status, under the unique index.\<close>

lemma one_slot_update:
  assumes slot: "one_slot txs" and hash: "distinct (map tx_hash txs)"
    and P: "\<And>t. P t \<Longrightarrow> tx_hash t = h"
    and f: "\<And>t. tx_hash (f t) = tx_hash t \<and> tx_chainId (f t) = tx_chainId t \<and> tx_sponsor (f t) = tx_sponsor t \<and>
      tx_nonce (f t) = tx_nonce t \<and> tx_status (f t) = st"
    and free: "\<And>t. t \<in> set txs \<Longrightarrow> P t \<Longrightarrow> tx_status t = TxRejected \<Longrightarrow> st \<noteq> TxRejected \<Longrightarrow>
      \<not> list_ex (same_slot (tx_chainId t) (tx_sponsor t) (tx_nonce t)) txs"
  shows "one_slot (update_where P f txs)"
  unfolding one_slot_def
proof (intro ballI allI impI)
  fix t t' c s k
  assume t: "t \<in> set (update_where P f txs)" "t' \<in> set (update_where P f txs)"
    "same_slot c s k t" "same_slot c s k t'"
  have cross: "tx_hash x = tx_hash y"
    if "x \<in> set txs" "P x" "y \<in> set txs" "same_slot c s k (f x)" "same_slot c s k y" for x y
  proof (cases "tx_status x = TxRejected")
    case True
    with that have "tx_chainId x = c" "tx_sponsor x = s" "tx_nonce x = k" "st \<noteq> TxRejected"
      using f [of x] by (auto simp: same_slot_def)
    with free [OF that(1,2) True] that(3,5) show ?thesis by (auto simp: list_ex_iff)
  next
    case False
    then have "same_slot c s k x" using that(4) f [of x] by (auto simp: same_slot_def)
    with slot that show ?thesis unfolding one_slot_def by blast
  qed
  have src: "(\<exists>x \<in> set txs. P x \<and> u = f x) \<or> u \<in> set txs \<and> \<not> P u" if "u \<in> set (update_where P f txs)" for u
    using that by (auto simp: set_update_where)
  from src [OF t(1)] src [OF t(2)] show "tx_hash t = tx_hash t'"
  proof (elim disjE bexE conjE)
    fix x y assume "P x" "t = f x" "P y" "t' = f y"
    then show ?thesis using P f by simp
  next
    fix x assume "x \<in> set txs" "P x" "t = f x" "t' \<in> set txs"
    then show ?thesis using cross t f by metis
  next
    fix y assume "t \<in> set txs" "y \<in> set txs" "P y" "t' = f y"
    then show ?thesis using cross t f by metis
  next
    assume "t \<in> set txs" "t' \<in> set txs"
    then show ?thesis using slot t unfolding one_slot_def by blast
  qed
qed

lemma txs_ok_update:
  assumes "txs_ok n txs" "\<And>t. P t \<Longrightarrow> tx_hash t = h"
    and f: "\<And>t. tx_hash (f t) = tx_hash t \<and> tx_chainId (f t) = tx_chainId t \<and> tx_sponsor (f t) = tx_sponsor t \<and>
      tx_nonce (f t) = tx_nonce t \<and> tx_status (f t) = st" "\<And>t. tx_reservationId (f t) = tx_reservationId t"
    and "\<And>t. t \<in> set txs \<Longrightarrow> P t \<Longrightarrow> tx_status t = TxRejected \<Longrightarrow> st \<noteq> TxRejected \<Longrightarrow>
      \<not> list_ex (same_slot (tx_chainId t) (tx_sponsor t) (tx_nonce t)) txs"
  shows "txs_ok n (update_where P f txs)"
proof -
  have "one_slot (update_where P f txs)"
    using assms by (intro one_slot_update [where h = h and st = st]) (auto simp: txs_ok_def)
  moreover have "map tx_hash (update_where P f txs) = map tx_hash txs"
    by (rule map_update_where) (simp add: f)
  ultimately show ?thesis
    using assms(1) f by (auto simp: txs_ok_def set_update_where)
qed

lemma gas_ok_setTxStatus: "gas_ok db \<Longrightarrow> gas_ok (snd (setTxStatus db hash st from))"
proof -
  assume ok: "gas_ok db"
  let ?P = "tx_matches hash from" and ?f = "\<lambda>t :: sponsored_tx. t\<lparr>tx_status := st\<rparr>"
  show ?thesis
  proof (cases "list_ex (\<lambda>t. ?P t \<and> nonce_clash db st t) (g_txs db)")
    case False
    then have "txs_ok (length (g_reservations db)) (update_where ?P ?f (g_txs db))"
      using ok
      by (intro txs_ok_update [where h = hash and st = st])
        (auto simp: gas_ok_def tx_matches_def nonce_clash_def list_ex_iff)
    moreover have "tx_cost_of (update_where ?P ?f (g_txs db)) i = tx_cost_of (g_txs db) i" for i
      unfolding tx_cost_of_def sum_filter_if
      by (rule arg_cong [where f = sum_list]) (rule map_update_where, simp)
    ultimately show ?thesis
      using ok False by (auto simp: setTxStatus_def gas_ok_def costs_ok_def)
  qed (use ok in \<open>simp add: setTxStatus_def\<close>)
qed

lemma settle_costs:
  assumes "filter P txs = [t]" "\<And>t. P t \<Longrightarrow> tx_costWei t = None"
    and "\<And>t. tx_reservationId (f t) = tx_reservationId t \<and> tx_costWei (f t) = Some cost"
  shows "tx_cost_of (update_where P f txs) i =
    tx_cost_of txs i + (if tx_reservationId t = i then cost else 0)"
proof -
  have "P t" using assms(1) by (metis filter_eq_Cons_iff)
  then show ?thesis
    unfolding tx_cost_of_def sum_filter_if sum_update_where [OF assms(1)]
    using assms(2) [of t] assms(3) [of t] by (simp add: or_zero_def)
qed

lemma gas_ok_settle: "gas_ok db \<Longrightarrow> gas_ok (snd (settleTx db hash st gasUsed costWei))"
proof -
  assume ok: "gas_ok db"
  show ?thesis
  proof (cases "find (unsettled_row hash) (g_txs db)")
    case None
    with ok show ?thesis by (simp add: settleTx_def)
  next
    case (Some t)
    show ?thesis
    proof (cases "nonce_clash db (settled_status st) t")
      case True
      with ok Some show ?thesis by (simp add: settleTx_def)
    next
      case False
      let ?P = "unsettled_row hash"
      let ?f = "\<lambda>t :: sponsored_tx. t\<lparr>tx_status := settled_status st, tx_gasUsed := Some gasUsed, tx_costWei := Some costWei\<rparr>"
      let ?g = "\<lambda>r :: reservation. r\<lparr>rs_gasUsed := Some (or_zero (rs_gasUsed r) + gasUsed),
        rs_costWei := Some (or_zero (rs_costWei r) + costWei)\<rparr>"
      let ?rs = "update_where (\<lambda>r. rs_id r = tx_reservationId t) ?g (g_reservations db)"
      let ?txs = "update_where ?P ?f (g_txs db)"
      have hash: "distinct (map tx_hash (g_txs db))" using ok by (simp add: gas_ok_def txs_ok_def)
      have one: "filter ?P (g_txs db) = [t]"
      proof -
        have "filter (\<lambda>t. tx_hash t = hash) (g_txs db) = [u]" if "find (\<lambda>t. tx_hash t = hash) (g_txs db) = Some u" for u
          using hash that by (intro filter_distinct_key [of tx_hash]) auto
        moreover have "t \<in> set (g_txs db)" "?P t" using Some by (auto simp: find_Some_iff)
        moreover obtain u where "find (\<lambda>t. tx_hash t = hash) (g_txs db) = Some u"
          using calculation(2,3) find_exists [of t "g_txs db" "\<lambda>t. tx_hash t = hash"]
          by (auto simp: unsettled_row_def)
        ultimately have h: "filter (\<lambda>t. tx_hash t = hash) (g_txs db) = [u]" by blast
        have "t \<in> set (filter (\<lambda>t. tx_hash t = hash) (g_txs db))"
          using \<open>t \<in> set (g_txs db)\<close> \<open>?P t\<close> by (simp add: unsettled_row_def)
        then have "u = t" unfolding h by simp
        moreover have "filter ?P (g_txs db) = filter (\<lambda>t. tx_costWei t = None) (filter (\<lambda>t. tx_hash t = hash) (g_txs db))"
          by (auto simp: unsettled_row_def intro: filter_cong)
        ultimately show ?thesis using h \<open>?P t\<close> by (simp add: unsettled_row_def)
      qed
      have only: "x = t" if "x \<in> set (g_txs db)" "?P x" for x
      proof -
        have "x \<in> set (filter ?P (g_txs db))" using that by simp
        then show ?thesis unfolding one by simp
      qed
      have txs: "txs_ok (length (g_reservations db)) ?txs"
      proof (rule txs_ok_update [where h = hash and st = "settled_status st"])
        fix x assume x: "x \<in> set (g_txs db)" "?P x" "tx_status x = TxRejected" "settled_status st \<noteq> TxRejected"
        then show "\<not> list_ex (same_slot (tx_chainId x) (tx_sponsor x) (tx_nonce x)) (g_txs db)"
          using False only [OF x(1,2)] by (simp add: nonce_clash_def)
      qed (use ok in \<open>auto simp: gas_ok_def unsettled_row_def\<close>)
      have costs: "tx_cost_of ?txs i = tx_cost_of (g_txs db) i + (if tx_reservationId t = i then costWei else 0)" for i
        by (rule settle_costs [OF one]) (auto simp: unsettled_row_def)
      have ids: "map rs_id ?rs = map rs_id (g_reservations db)" "map task_key ?rs = map task_key (g_reservations db)"
        by (auto intro!: map_update_where simp: task_key_def)
      have "one_held ?rs"
        unfolding one_held_def
      proof (intro ballI allI impI)
        fix r r' c w
        assume r: "r \<in> set ?rs" "r' \<in> set ?rs" "held_submit c w r" "held_submit c w r'"
        have old: "\<exists>x \<in> set (g_reservations db). rs_id u = rs_id x \<and> held_submit c w x"
          if "u \<in> set ?rs" "held_submit c w u" for u
        proof -
          obtain x where x: "x \<in> set (g_reservations db)" "u = ?g x \<or> u = x"
            using \<open>u \<in> set ?rs\<close> by (auto simp: set_update_where)
          have "rs_id u = rs_id x" "held_submit c w u = held_submit c w x"
            using x(2) by (auto simp: held_submit_def)
          with x(1) that show ?thesis by auto
        qed
        from old [OF r(1,3)] old [OF r(2,4)] show "rs_id r = rs_id r'"
          using gas_ok_held [OF ok] by metis
      qed
      moreover have "costs_ok (db\<lparr>g_txs := ?txs, g_reservations := ?rs\<rparr>)"
        using ok by (auto simp: gas_ok_def costs_ok_def costs set_update_where or_zero_def)
      moreover have "snd (settleTx db hash st gasUsed costWei) = db\<lparr>g_txs := ?txs, g_reservations := ?rs\<rparr>"
        using Some False by (simp add: settleTx_def)
      ultimately show ?thesis
        using ok txs ids by (simp add: gas_ok_def reservations_ok_def)
    qed
  qed
qed

section \<open>The store as a transition system\<close>

inductive gas_step :: "gas_db \<Rightarrow> gas_db \<Rightarrow> bool" where
  reserve: "gas_step db (snd (reserve db now inp caps))"
| clock: "gas_step db (startReservationClock db now i ttl)"
| returned: "gas_step db (snd (markReservationReturned db now i))"
| attempted: "gas_step db (markReservationAttempted db now i ref)"
| close: "gas_step db (snd (closeReservation db now i st reason))"
| record_tx: "gas_step db (snd (recordSignedTx db now tx))"
| set_status: "gas_step db (snd (setTxStatus db hash ts from))"
| settle: "gas_step db (snd (settleTx db hash ss gasUsed costWei))"
| used: "gas_step db (markReservationUsed db now i h)"
| export: "gas_step db (recordKeyExport db agentId wallet requestedBy)"
| controls: "gas_step db (snd (setControls db now chainId paused killed why by_whom))"

lemma gas_step_ok: "gas_step db db' \<Longrightarrow> gas_ok db \<Longrightarrow> gas_ok db'"
proof (induction rule: gas_step.induct)
  case (export db agentId wallet requestedBy)
  then show ?case by (simp add: recordKeyExport_def gas_ok_def costs_ok_def)
next
  case (controls db now chainId paused killed why by_whom)
  then show ?case by (simp add: setControls_def gas_ok_def costs_ok_def Let_def)
qed (simp_all add: gas_ok_reserve gas_ok_clock gas_ok_returned gas_ok_attempted gas_ok_close
    gas_ok_record gas_ok_setTxStatus gas_ok_settle gas_ok_used)

definition gas_reachable :: "gas_db \<Rightarrow> bool" where
  "gas_reachable db \<longleftrightarrow> gas_step\<^sup>*\<^sup>* empty_gas_db db"

lemma gas_reachable_ok:
  assumes "gas_reachable db" shows "gas_ok db"
  using assms unfolding gas_reachable_def
  by (induction rule: rtranclp_induct) (auto simp: gas_ok_empty dest: gas_step_ok)

lemma empty_gas_reachable: "gas_reachable empty_gas_db"
  by (simp add: gas_reachable_def)

lemma reserve_reachable: "gas_reachable db \<Longrightarrow> gas_reachable (snd (reserve db now inp caps))"
  unfolding gas_reachable_def by (erule rtranclp.rtrancl_into_rtrancl) (rule gas_step.reserve)

section \<open>What a reservation costs the budgets\<close>

lemma spend_since_retake:
  assumes ok: "gas_ok db" and prior: "find (is_prior inp) (g_reservations db) = Some p"
    and free: "rs_status p = RReleased" "rs_costWei p = None"
    and pos: "0 \<le> in_budgetWei inp" and since: "since < now"
  shows "spend_since (db\<lparr>g_reservations := update_where (is_prior inp) (retaken inp now) (g_reservations db)\<rparr>)
      (in_chainId inp) since = spend_since db (in_chainId inp) since + in_budgetWei inp"
proof -
  have p: "is_prior inp p" using find_in [OF prior] by simp
  then show ?thesis
    unfolding spend_since_def sum_filter_if
    using sum_update_where [OF prior_unique [OF ok prior]] free pos since
    by (simp add: spend_of_def retaken_def is_prior_def or_zero_def)
qed

lemma spend_since_insert:
  assumes "0 \<le> in_budgetWei inp" "since < now"
  shows "spend_since (db\<lparr>g_reservations := g_reservations db @ [new_reservation inp now i]\<rparr>)
      (in_chainId inp) since = spend_since db (in_chainId inp) since + in_budgetWei inp"
  using assms by (simp add: spend_since_def new_reservation_def spend_of_def or_zero_def)

lemma daily_count_retake:
  assumes ok: "gas_ok db" and prior: "find (is_prior inp) (g_reservations db) = Some p"
  shows "daily_count (db\<lparr>g_reservations := update_where (is_prior inp) f (g_reservations db)\<rparr>) now c who
      \<le> Suc (daily_count db now c who)"
  using count_update_where [of "\<lambda>r. counts_today now c r \<and> who r" "is_prior inp" f "g_reservations db"]
  unfolding prior_unique [OF ok prior] daily_count_def by (simp add: conj_commute)

lemma daily_count_insert:
  "daily_count (db\<lparr>g_reservations := g_reservations db @ [r]\<rparr>) now c who \<le> Suc (daily_count db now c who)"
  by (simp add: daily_count_def)

lemma reserve_new_cases:
  assumes "fst (reserve db now inp caps) = Inr (r, False)"
  obtains (retake) p where "find (is_prior inp) (g_reservations db) = Some p" "rs_status p = RReleased"
      "rs_costWei p = None" "reserve_refusal db now inp caps = None"
      "snd (reserve db now inp caps) =
         db\<lparr>g_reservations := update_where (is_prior inp) (retaken inp now) (g_reservations db)\<rparr>"
      "r = retaken inp now p"
  | (insert) "find (is_prior inp) (g_reservations db) = None" "reserve_refusal db now inp caps = None"
      "snd (reserve db now inp caps) =
         db\<lparr>g_reservations := g_reservations db @ [new_reservation inp now (length (g_reservations db))]\<rparr>"
      "r = new_reservation inp now (length (g_reservations db))"
proof (cases "find (is_prior inp) (g_reservations db)")
  case None
  have facts: "\<not> paused_chain db (in_chainId inp)" "reserve_refusal db now inp caps = None"
    using assms None
    by (simp_all add: reserve_def find_reservation_prior Let_def split: option.splits if_splits)
  show thesis
    by (rule insert [OF None facts(2)])
      (use assms None facts in \<open>simp_all add: reserve_def find_reservation_prior Let_def\<close>)
next
  case (Some p)
  have facts: "\<not> paused_chain db (in_chainId inp)" "reserve_refusal db now inp caps = None"
    "\<not> (rs_status p = RReserved \<and> rs_agentWallet p = lower (in_agentWallet inp))"
    "rs_status p = RReleased" "rs_txHash p = None" "rs_costWei p = None"
    using assms Some
    by (simp_all add: reserve_def find_reservation_prior Let_def split: option.splits if_splits)
  show thesis
    by (rule retake [OF Some facts(4,6,2)])
      (use assms Some facts in \<open>simp_all add: reserve_def find_reservation_prior Let_def\<close>)
qed

lemma find_retaken:
  "find (is_prior inp) (update_where (is_prior inp) (retaken inp now) xs) =
     map_option (retaken inp now) (find (is_prior inp) xs)"
  by (induction xs) (auto simp: update_where_def is_prior_def retaken_def)

lemma find_append_new:
  "find P xs = None \<Longrightarrow> P x \<Longrightarrow> find P (xs @ [x]) = Some x"
  by (induction xs) (auto split: if_splits)

lemma is_prior_new: "is_prior inp (new_reservation inp now i)"
  by (simp add: is_prior_def new_reservation_def)

lemma reserve_new_spend:
  assumes "gas_ok db" "0 \<le> in_budgetWei inp" "fst (reserve db now inp caps) = Inr (r, False)" "since < now"
  shows "spend_since (snd (reserve db now inp caps)) (in_chainId inp) since =
    spend_since db (in_chainId inp) since + in_budgetWei inp"
  using assms(3)
proof (cases rule: reserve_new_cases)
  case (retake p)
  then show ?thesis using spend_since_retake [OF assms(1) retake(1-3) assms(2,4)] by simp
next
  case insert
  then show ?thesis using spend_since_insert [OF assms(2,4)] by simp
qed

lemma reserve_new_count:
  assumes "gas_ok db" "fst (reserve db now inp caps) = Inr (r, False)"
  shows "daily_count (snd (reserve db now inp caps)) now c who \<le> Suc (daily_count db now c who)"
  using assms(2)
proof (cases rule: reserve_new_cases)
  case (retake p)
  then show ?thesis using daily_count_retake [OF assms(1) retake(1)] by simp
next
  case insert
  then show ?thesis using daily_count_insert by simp
qed

lemma reserve_new_stored:
  assumes "fst (reserve db now inp caps) = Inr (r, False)"
  shows "find (is_prior inp) (g_reservations (snd (reserve db now inp caps))) = Some r"
    "rs_status r = RReserved" "rs_agentWallet r = lower (in_agentWallet inp)"
    "g_controls (snd (reserve db now inp caps)) = g_controls db"
    "reserve_refusal db now inp caps = None"
  using reserve_new_cases [OF assms]
  by (atomize (full), cases) (simp_all add: find_retaken find_append_new is_prior_new, simp_all add: retaken_def new_reservation_def)

section \<open>Properties\<close>

definition sample_input :: reserve_input where
  "sample_input = \<lparr>in_chainId = 5042002, in_taskId = 7, in_kind = KSubmit, in_taskHash = ''0xh'',
     in_agentWallet = ''0xa'', in_ownerDid = ''did'', in_poster = ''0xp'', in_budgetWei = 10,
     in_ttlSeconds = 3600\<rparr>"

definition sample_caps :: sponsor_caps where
  "sample_caps = \<lparr>perAgentDaily = 2, perUserDaily = 2, perPosterDaily = 2, hourlyBudgetWei = 100,
     dailyBudgetWei = 100, maxStrikes = 3\<rparr>"

lemma lower_sample [simp]: "lower ''0xa'' = ''0xa''" "lower ''0xp'' = ''0xp''" "lower ''0xh'' = ''0xh''"
  by (simp_all add: lower_eval)

lemma sample_reserve:
  "reserve empty_gas_db 0 sample_input sample_caps =
     (Inr (new_reservation sample_input 0 0, False),
      empty_gas_db\<lparr>g_reservations := [new_reservation sample_input 0 0]\<rparr>)"
  by (simp add: reserve_def paused_chain_def find_reservation_def reserve_refusal_def agent_holds_def
    strikeCounts_def daily_count_def spend_since_def empty_gas_db_def sample_input_def sample_caps_def Let_def)

text \<open>
  A new reservation never takes a chain over its caps: with it counted, the budget of the
  last hour and of the last day, and, for a submit, the day's tasks of the agent, its owner and
  the poster, are all within the caps, and the chain was neither paused nor killed, nor the
  agent or its owner struck out. A task the agent already holds is given back as it was.
\<close>

theorem reservation_respects_caps:
  assumes "gas_reachable db" "0 \<le> in_budgetWei inp"
    and "fst (reserve db now inp caps) = Inr (r, False)"
  shows "let db' = snd (reserve db now inp caps); c = in_chainId inp in
    spend_since db' c (now - hour_ms) \<le> hourlyBudgetWei caps \<and>
    spend_since db' c (now - day_ms) \<le> dailyBudgetWei caps \<and>
    (in_kind inp = KSubmit \<longrightarrow>
       daily_count db' now c (\<lambda>r. rs_agentWallet r = lower (in_agentWallet inp)) \<le> perAgentDaily caps \<and>
       daily_count db' now c (\<lambda>r. rs_ownerDid r = in_ownerDid inp) \<le> perUserDaily caps \<and>
       daily_count db' now c (\<lambda>r. rs_poster r = lower (in_poster inp)) \<le> perPosterDaily caps) \<and>
    \<not> sc_paused (getControls db c) \<and> \<not> sc_killed (getControls db c) \<and>
    fst (strikeCounts db now c (in_agentWallet inp) (Some (in_ownerDid inp))) < maxStrikes caps \<and>
    snd (strikeCounts db now c (in_agentWallet inp) (Some (in_ownerDid inp))) < maxStrikes caps \<and>
    reserve db' now inp caps = (Inr (r, True), db')"
proof -
  let ?db = "snd (reserve db now inp caps)" and ?c = "in_chainId inp"
  have ok: "gas_ok db" using assms(1) by (rule gas_reachable_ok)
  have win: "now - hour_ms < now" "now - day_ms < now"
    by (simp_all add: hour_ms_def day_ms_def minute_ms_def)
  have none: "reserve_refusal db now inp caps = None" by (rule reserve_new_stored [OF assms(3)])
  have unpaused: "\<not> paused_chain db ?c"
    using assms(3) by (auto simp: reserve_def split: if_splits)
  have again: "reserve ?db now inp caps = (Inr (r, True), ?db)"
    using reserve_new_stored [OF assms(3)] unpaused
    by (simp add: reserve_def [of ?db] find_reservation_prior paused_chain_def)
  have counts: "daily_count ?db now ?c who \<le> n" if "daily_count db now ?c who < n" for who n
    using reserve_new_count [OF ok assms(3), of ?c who] that by simp
  from none have limits:
    "spend_since db ?c (now - hour_ms) + in_budgetWei inp \<le> hourlyBudgetWei caps"
    "spend_since db ?c (now - day_ms) + in_budgetWei inp \<le> dailyBudgetWei caps"
    "in_kind inp = KSubmit \<Longrightarrow> daily_count db now ?c (\<lambda>r. rs_agentWallet r = lower (in_agentWallet inp)) < perAgentDaily caps"
    "in_kind inp = KSubmit \<Longrightarrow> daily_count db now ?c (\<lambda>r. rs_ownerDid r = in_ownerDid inp) < perUserDaily caps"
    "in_kind inp = KSubmit \<Longrightarrow> daily_count db now ?c (\<lambda>r. rs_poster r = lower (in_poster inp)) < perPosterDaily caps"
    "fst (strikeCounts db now ?c (in_agentWallet inp) (Some (in_ownerDid inp))) < maxStrikes caps"
    "snd (strikeCounts db now ?c (in_agentWallet inp) (Some (in_ownerDid inp))) < maxStrikes caps"
    by (simp_all add: reserve_refusal_def strikeCounts_def Let_def not_le not_less split: if_splits)
  show ?thesis
    using again counts limits unpaused reserve_new_spend [OF ok assms(2,3) win(1)]
      reserve_new_spend [OF ok assms(2,3) win(2)]
    by (auto simp: Let_def getControls_def paused_chain_def split: option.splits)
qed

theorem reservation_respects_caps_witness:
  "spend_since (snd (reserve empty_gas_db 0 sample_input sample_caps)) 5042002 (- hour_ms) \<le> 100 \<and>
   reserve (snd (reserve empty_gas_db 0 sample_input sample_caps)) 0 sample_input sample_caps =
     (Inr (new_reservation sample_input 0 0, True), snd (reserve empty_gas_db 0 sample_input sample_caps))"
proof -
  have "fst (reserve empty_gas_db 0 sample_input sample_caps) = Inr (new_reservation sample_input 0 0, False)"
    by (simp add: sample_reserve)
  from reservation_respects_caps [OF empty_gas_reachable _ this]
  show ?thesis by (simp add: Let_def sample_input_def sample_caps_def)
qed

text \<open>
  C6. Whatever has been reserved, closed, signed, settled and re-taken: an escrow task has one
  reservation of each kind, an agent holds one submit on a chain at most, what a reservation
  cost is the sum of the settled costs of its transactions (each settled once), a sponsor's
  nonce belongs to one transaction that was not rejected, and a reservation is struck once.
\<close>

theorem gas_tables_are_consistent:
  assumes "gas_reachable db"
  shows "distinct (map (\<lambda>r. (rs_chainId r, rs_taskId r, rs_kind r)) (g_reservations db)) \<and>
    (\<forall>c w. length (filter (held_submit c w) (g_reservations db)) \<le> 1) \<and>
    list_all (\<lambda>r. or_zero (rs_costWei r) =
      sum_list (map (or_zero \<circ> tx_costWei) (filter (\<lambda>t. tx_reservationId t = rs_id r) (g_txs db))))
      (g_reservations db) \<and>
    (\<forall>c s n. length (filter (same_slot c s n) (g_txs db)) \<le> 1) \<and>
    distinct (map st_reservationId (g_strikes db))"
proof -
  have ok: "gas_ok db" using assms by (rule gas_reachable_ok)
  have ids: "distinct (map rs_id (g_reservations db))" using gas_ok_idx [OF ok] by simp
  have "length (filter (held_submit c w) (g_reservations db)) \<le> 1" for c w
    using gas_ok_held [OF ok] by (intro filter_at_most_one [OF ids]) blast
  moreover have "length (filter (same_slot c s n) (g_txs db)) \<le> 1" for c s n
    using ok by (intro filter_at_most_one [of tx_hash]) (simp_all add: gas_ok_def txs_ok_def, unfold one_slot_def, blast)
  moreover have "distinct (map (\<lambda>r. (rs_chainId r, rs_taskId r, rs_kind r)) (g_reservations db))"
    using ok by (simp add: gas_ok_def reservations_ok_def task_key_def [abs_def])
  ultimately show ?thesis
    using ok by (simp add: gas_ok_def costs_ok_def list_all_iff tx_cost_of_def)
qed

theorem gas_tables_are_consistent_witness:
  "length (filter (held_submit 5042002 ''0xa'')
     (g_reservations (snd (reserve empty_gas_db 0 sample_input sample_caps)))) \<le> 1"
  using gas_tables_are_consistent [OF reserve_reachable [OF empty_gas_reachable]] by blast

lemma fold_max_ge: "n \<le> fold max xs (n :: int) \<and> (\<forall>x \<in> set xs. x \<le> fold max xs n)"
proof (induction xs arbitrary: n)
  case (Cons x xs)
  have "max x n \<le> fold max xs (max x n)" "\<forall>y \<in> set xs. y \<le> fold max xs (max x n)"
    using Cons [of "max x n"] by auto
  then show ?case by simp
qed simp

lemma nextStoredNonce_above:
  assumes "t \<in> set (g_txs db)" "tx_chainId t = c" "tx_sponsor t = lower sp" "tx_status t \<noteq> TxRejected"
  shows "\<exists>n. nextStoredNonce db c sp = Some n \<and> tx_nonce t < n"
proof -
  let ?ns = "map tx_nonce (filter (\<lambda>t. tx_chainId t = c \<and> tx_sponsor t = lower sp \<and> tx_status t \<noteq> TxRejected) (g_txs db))"
  have "tx_nonce t \<in> set ?ns" using assms by auto
  then show ?thesis
    using fold_max_ge unfolding nextStoredNonce_def Let_def
    by (cases ?ns) (auto simp: less_le_trans zle_add1_eq_le [symmetric] simp del: zle_add1_eq_le)
qed

text \<open>
  A transaction is stored before it is broadcast, and under the next stored nonce it never
  meets one already used: it is refused only while an earlier one of the sponsor has not been
  acknowledged, and then nothing is stored.
\<close>

theorem signed_tx_is_stored_first:
  assumes "getReservationById db (si_reservationId tx) \<noteq> None"
    and "\<forall>t \<in> set (g_txs db). tx_hash t \<noteq> si_txHash tx"
    and "si_nonce tx = (case nextStoredNonce db (si_chainId tx) (si_sponsor tx) of None \<Rightarrow> first | Some n \<Rightarrow> n)"
  shows "(if \<exists>t \<in> set (g_txs db). tx_chainId t = si_chainId tx \<and> tx_sponsor t = lower (si_sponsor tx) \<and>
        tx_status t = TxSigned
      then recordSignedTx db now tx = (Inr None, db)
      else (\<exists>row. recordSignedTx db now tx = (Inr (Some row), db\<lparr>g_txs := g_txs db @ [row]\<rparr>) \<and>
        tx_status row = TxSigned \<and> tx_rawTx row = si_rawTx tx \<and>
        (\<forall>t \<in> set (g_txs db). tx_chainId t = tx_chainId row \<and> tx_sponsor t = tx_sponsor row \<and>
           tx_status t \<noteq> TxRejected \<longrightarrow> tx_nonce t < tx_nonce row)))"
proof -
  have above: "tx_nonce t < si_nonce tx"
    if "t \<in> set (g_txs db)" "tx_chainId t = si_chainId tx" "tx_sponsor t = lower (si_sponsor tx)"
      "tx_status t \<noteq> TxRejected" for t
    using nextStoredNonce_above [OF that] assms(3) by auto
  then have "\<not> list_ex (same_slot (si_chainId tx) (lower (si_sponsor tx)) (si_nonce tx)) (g_txs db)"
    by (fastforce simp: list_ex_iff same_slot_def)
  moreover have "\<not> list_ex (\<lambda>t. tx_hash t = si_txHash tx) (g_txs db)"
    using assms(2) by (simp add: list_ex_iff)
  ultimately show ?thesis
    using assms(1) above by (auto simp: recordSignedTx_def list_ex_iff Let_def)
qed

definition sample_signed :: signed_input where
  "sample_signed = \<lparr>si_chainId = 5042002, si_reservationId = 0, si_sponsor = ''0xs'', si_nonce = 4,
     si_rawTx = ''raw'', si_txHash = ''0x1'', si_withAuthorization = False\<rparr>"

theorem signed_tx_is_stored_first_witness:
  "\<exists>row. fst (recordSignedTx (snd (reserve empty_gas_db 0 sample_input sample_caps)) 1 sample_signed) = Inr (Some row)"
proof -
  let ?db = "snd (reserve empty_gas_db 0 sample_input sample_caps)"
  have "getReservationById ?db (si_reservationId sample_signed) \<noteq> None"
    by (simp add: sample_reserve getReservationById_def new_reservation_def sample_signed_def)
  moreover have txs: "g_txs ?db = []" unfolding sample_reserve by (simp add: empty_gas_db_def)
  moreover have "si_nonce sample_signed = (case nextStoredNonce ?db (si_chainId sample_signed)
      (si_sponsor sample_signed) of None \<Rightarrow> 4 | Some n \<Rightarrow> n)"
    by (simp add: nextStoredNonce_def txs sample_signed_def)
  ultimately show ?thesis
    using signed_tx_is_stored_first [of ?db sample_signed 4 1] by (auto simp: txs)
qed

section \<open>Handing a task back, again and again\<close>

text \<open>One cycle: reserve, hand back, and the release at the hour.\<close>

definition hand_back_cycle :: "gas_db \<Rightarrow> reserve_input \<Rightarrow> sponsor_caps \<Rightarrow> int \<Rightarrow> bool \<times> gas_db" where
  "hand_back_cycle db inp caps now =
     (let r = reserve db now inp caps in
      case fst r of
        Inl _ \<Rightarrow> (False, snd r)
      | Inr (res, _) \<Rightarrow>
          (True, snd (closeReservation (snd (markReservationReturned (snd r) now (rs_id res)))
                  (now + 1000 * in_ttlSeconds inp) (rs_id res) CloseReleased None)))"

fun hand_back_cycles :: "gas_db \<Rightarrow> reserve_input \<Rightarrow> sponsor_caps \<Rightarrow> int list \<Rightarrow> bool list" where
  "hand_back_cycles db inp caps [] = []"
| "hand_back_cycles db inp caps (t # instants) =
     (let r = hand_back_cycle db inp caps t in fst r # hand_back_cycles (snd r) inp caps instants)"

definition handed_back :: "reserve_input \<Rightarrow> reservation \<Rightarrow> bool" where
  "handed_back inp r \<longleftrightarrow>
     is_prior inp r \<and> rs_status r = RReleased \<and> rs_txHash r = None \<and> rs_costWei r = None"

definition roomy :: "sponsor_caps \<Rightarrow> reserve_input \<Rightarrow> bool" where
  "roomy caps inp \<longleftrightarrow>
     2 \<le> perAgentDaily caps \<and> 2 \<le> perUserDaily caps \<and> 2 \<le> perPosterDaily caps \<and>
     1 \<le> maxStrikes caps \<and> in_budgetWei inp \<le> hourlyBudgetWei caps \<and> in_budgetWei inp \<le> dailyBudgetWei caps"

lemma handed_back_not_refused:
  assumes rs: "g_reservations db = [r]" "handed_back inp r" and rest: "g_strikes db = []"
    and roomy: "roomy caps inp"
  shows "reserve_refusal db now inp caps = None"
proof -
  have "daily_count db now c who \<le> 1" for c who
    by (simp add: daily_count_def rs)
  then have daily: "daily_count db now c who < n" if "2 \<le> n" for c who n
    using that by (meson le_less_trans less_le_trans one_less_numeral_iff semiring_norm(76))
  have "spend_since db c since = 0" for c since
    using rs by (simp add: spend_since_def spend_of_def handed_back_def or_zero_def)
  moreover have "\<not> agent_holds db c w" for c w
    using rs by (simp add: agent_holds_def handed_back_def)
  moreover have "strikeCounts db now c w o' = (0, 0)" for c w o'
    by (simp add: strikeCounts_def rest)
  ultimately show ?thesis
    using roomy daily by (simp add: reserve_refusal_def roomy_def Let_def not_le)
qed

lemma hand_back_again:
  assumes rs: "g_reservations db = [r]" "handed_back inp r" and rest: "g_strikes db = []" "g_controls db = Map.empty"
    and roomy: "roomy caps inp"
  shows "fst (hand_back_cycle db inp caps now) \<and>
    (\<exists>r'. g_reservations (snd (hand_back_cycle db inp caps now)) = [r'] \<and> handed_back inp r') \<and>
    g_strikes (snd (hand_back_cycle db inp caps now)) = [] \<and>
    g_controls (snd (hand_back_cycle db inp caps now)) = Map.empty"
proof -
  have "find (is_prior inp) (g_reservations db) = Some r" using rs by (simp add: handed_back_def)
  moreover have "reserve_refusal db now inp caps = None"
    using handed_back_not_refused [OF rs rest(1) roomy] .
  ultimately have res: "reserve db now inp caps =
      (Inr (retaken inp now r, False), db\<lparr>g_reservations := [retaken inp now r]\<rparr>)"
    using rs rest(2)
    by (simp add: reserve_def paused_chain_def find_reservation_prior handed_back_def update_where_def)
  show ?thesis
    using rs rest
    by (simp add: hand_back_cycle_def res markReservationReturned_def closeReservation_def update_where_def
      held_row_def retaken_def handed_back_def is_prior_def Let_def)
qed

lemma hand_back_first:
  assumes roomy: "roomy caps inp"
  shows "fst (hand_back_cycle empty_gas_db inp caps now) \<and>
    (\<exists>r'. g_reservations (snd (hand_back_cycle empty_gas_db inp caps now)) = [r'] \<and> handed_back inp r') \<and>
    g_strikes (snd (hand_back_cycle empty_gas_db inp caps now)) = [] \<and>
    g_controls (snd (hand_back_cycle empty_gas_db inp caps now)) = Map.empty"
proof -
  have "reserve_refusal empty_gas_db now inp caps = None"
    using roomy by (auto simp: reserve_refusal_def roomy_def agent_holds_def strikeCounts_def daily_count_def
      spend_since_def empty_gas_db_def Let_def)
  then have "reserve empty_gas_db now inp caps = (Inr (new_reservation inp now 0, False),
      empty_gas_db\<lparr>g_reservations := [new_reservation inp now 0]\<rparr>)"
    by (simp add: reserve_def paused_chain_def find_reservation_def empty_gas_db_def Let_def)
  then show ?thesis
    by (simp add: hand_back_cycle_def markReservationReturned_def closeReservation_def update_where_def
      held_row_def new_reservation_def handed_back_def is_prior_def empty_gas_db_def Let_def)
qed

lemma hand_back_cycles_from:
  assumes "g_reservations db = [r]" "handed_back inp r" "g_strikes db = []" "g_controls db = Map.empty" "roomy caps inp"
  shows "hand_back_cycles db inp caps instants = replicate (length instants) True"
  using assms
proof (induction instants arbitrary: db r)
  case (Cons t instants)
  let ?db = "snd (hand_back_cycle db inp caps t)"
  have "fst (hand_back_cycle db inp caps t)" using hand_back_again [OF Cons.prems] by blast
  moreover obtain r' where "g_reservations ?db = [r']" "handed_back inp r'" "g_strikes ?db = []"
    "g_controls ?db = Map.empty"
    using hand_back_again [OF Cons.prems] by blast
  then have "hand_back_cycles ?db inp caps instants = replicate (length instants) True"
    using Cons.IH Cons.prems(5) by blast
  ultimately show ?case by (simp add: Let_def)
qed simp

text \<open>
  The day's caps do not count how often one task is taken and handed back: a reservation
  taken again replaces the row of the one handed back. An agent whose caps are at least 2 can
  take and hand back the same task any number of times, however close together, and is never
  refused, though the header says hand-backs count so that such cycles reach a cap.
\<close>

theorem hand_back_cycles_never_hit_a_cap:
  assumes "roomy caps inp"
  shows "hand_back_cycles empty_gas_db inp caps instants = replicate (length instants) True"
proof (cases instants)
  case (Cons t rest)
  let ?db = "snd (hand_back_cycle empty_gas_db inp caps t)"
  have "fst (hand_back_cycle empty_gas_db inp caps t)" using hand_back_first [OF assms] by blast
  moreover obtain r' where "g_reservations ?db = [r']" "handed_back inp r'" "g_strikes ?db = []"
    "g_controls ?db = Map.empty"
    using hand_back_first [OF assms] by blast
  then have "hand_back_cycles ?db inp caps rest = replicate (length rest) True"
    using hand_back_cycles_from assms by blast
  ultimately show ?thesis using Cons by (simp add: Let_def)
qed simp

theorem hand_back_cycles_never_hit_a_cap_witness:
  "hand_back_cycles empty_gas_db sample_input sample_caps [0, 1, 2, 3] = [True, True, True, True]"
  using hand_back_cycles_never_hit_a_cap [of sample_caps sample_input "[0, 1, 2, 3]"]
  by (simp add: roomy_def sample_caps_def sample_input_def eval_nat_numeral)

end
