(* ===== verification/TaskChain.thy ===== *)
theory TaskChain
  imports TaskStore
begin

text \<open>
  \<open>services/taskChain.ts\<close>: on which chain a task's escrow is. Each chain's index from task hash
  to numeric id is a parameter with the operations of the interface \<open>TaskIndex\<close>; so is the read
  of an escrow's task. \<open>None\<close> is a call that throws, or takes longer than its caller waits.
\<close>

record resolved_task =
  rt_taskId :: string
  rt_chain :: chain_key

record task_index =
  ti_cached :: "string \<Rightarrow> string option"
  ti_resolve :: "string \<Rightarrow> string option option"

section \<open>Which indexes to search\<close>

text \<open>The second argument is whether the Base escrow contract is set up (\<open>baseEscrow\<close>).\<close>

fun index_enabled :: "config \<Rightarrow> bool \<Rightarrow> chain_key \<Rightarrow> bool" where
  "index_enabled cfg baseEscrow Base = baseEscrow"
| "index_enabled cfg baseEscrow Arc = (cc_escrowAddress (settlementChainConfig cfg Arc) \<noteq> None)"

definition SEARCH_ORDER :: "chain_key list" where
  "SEARCH_ORDER = [Base, Arc]"

text \<open>\<open>TaskChain | null | RETIRED\<close>; a recorded chain may be one this code does not know.\<close>

datatype recorded = AnyChain | Retired | OnChain string

definition recordedChain :: "config \<Rightarrow> a2a_db \<Rightarrow> string \<Rightarrow> recorded" where
  "recordedChain cfg db taskHash =
     (case getMeta db taskHash of
        None \<Rightarrow> AnyChain
      | Some m \<Rightarrow>
          if \<not> onCurrentNetwork cfg (chain m) (chainId m) then Retired
          else (case chain m of None \<Rightarrow> AnyChain | Some c \<Rightarrow> OnChain c))"

definition indexesFor :: "config \<Rightarrow> bool \<Rightarrow> recorded \<Rightarrow> chain_key list" where
  "indexesFor cfg baseEscrow rec =
     (if rec = Retired then []
      else filter (\<lambda>c. (rec = AnyChain \<or> rec = OnChain (chain_name c)) \<and>
                       index_enabled cfg baseEscrow c) SEARCH_ORDER)"

section \<open>From a hash to its escrow\<close>

fun cachedLookup :: "(chain_key \<Rightarrow> task_index) \<Rightarrow> string \<Rightarrow> chain_key list \<Rightarrow> resolved_task option" where
  "cachedLookup ix h [] = None"
| "cachedLookup ix h (c # cs) =
     (case truthy (ti_cached (ix c) h) of
        Some i \<Rightarrow> Some \<lparr>rt_taskId = i, rt_chain = c\<rparr>
      | None \<Rightarrow> cachedLookup ix h cs)"

text \<open>The slower lookups, in search order; the outer \<open>None\<close> is a throw.\<close>

fun slow_lookup ::
  "(chain_key \<Rightarrow> task_index) \<Rightarrow> string \<Rightarrow> chain_key list \<Rightarrow> resolved_task option option" where
  "slow_lookup ix h [] = Some None"
| "slow_lookup ix h (c # cs) =
     (case ti_resolve (ix c) h of
        None \<Rightarrow> None
      | Some r \<Rightarrow>
          (case truthy r of
             Some i \<Rightarrow> Some (Some \<lparr>rt_taskId = i, rt_chain = c\<rparr>)
           | None \<Rightarrow> slow_lookup ix h cs))"

definition resolveTaskByHash ::
  "config \<Rightarrow> bool \<Rightarrow> (chain_key \<Rightarrow> task_index) \<Rightarrow> a2a_db \<Rightarrow> string \<Rightarrow> resolved_task option option" where
  "resolveTaskByHash cfg baseEscrow ix db taskHash =
     (let chains = indexesFor cfg baseEscrow (recordedChain cfg db taskHash) in
      case cachedLookup ix taskHash chains of
        Some r \<Rightarrow> Some (Some r)
      | None \<Rightarrow> slow_lookup ix taskHash chains)"

definition resolveCachedTaskByHash ::
  "config \<Rightarrow> bool \<Rightarrow> (chain_key \<Rightarrow> task_index) \<Rightarrow> a2a_db \<Rightarrow> string \<Rightarrow> resolved_task option" where
  "resolveCachedTaskByHash cfg baseEscrow ix db taskHash =
     cachedLookup ix taskHash (indexesFor cfg baseEscrow (recordedChain cfg db taskHash))"

section \<open>From an id and its poster to the chain\<close>

text \<open>\<open>sort\<close> by whether a chain is the posting chain: a stable sort.\<close>

definition posting_first :: "config \<Rightarrow> chain_key list \<Rightarrow> chain_key list" where
  "posting_first cfg cs =
     filter (\<lambda>c. c = postingChain cfg) cs @ filter (\<lambda>c. c \<noteq> postingChain cfg) cs"

text \<open>The first chain whose escrow names one of the callers, and which of them.\<close>

fun poster_on ::
  "(chain_key \<Rightarrow> onchain_task option) \<Rightarrow> string list \<Rightarrow> chain_key list \<Rightarrow> (chain_key \<times> string) option" where
  "poster_on reads wanted [] = None"
| "poster_on reads wanted (c # cs) =
     (case map_option (lower \<circ> oc_agent) (reads c) of
        None \<Rightarrow> poster_on reads wanted cs
      | Some a \<Rightarrow> if a \<in> set wanted then Some (c, a) else poster_on reads wanted cs)"

definition resolvePosterTask ::
  "config \<Rightarrow> bool \<Rightarrow> (chain_key \<Rightarrow> int \<Rightarrow> onchain_task option) \<Rightarrow> int \<Rightarrow> string list \<Rightarrow>
   chain_key option \<Rightarrow> (chain_key \<times> string) option" where
  "resolvePosterTask cfg baseEscrow getTaskOn tid callers chainArg =
     (if callers = [] then None
      else
        let chains = (case chainArg of
              Some c \<Rightarrow> indexesFor cfg baseEscrow (OnChain (chain_name c))
            | None \<Rightarrow> posting_first cfg (indexesFor cfg baseEscrow AnyChain))
        in poster_on (\<lambda>c. getTaskOn c tid) (map lower callers) chains)"

definition resolveTaskChainById ::
  "config \<Rightarrow> bool \<Rightarrow> (chain_key \<Rightarrow> int \<Rightarrow> onchain_task option) \<Rightarrow> int \<Rightarrow> string \<Rightarrow>
   chain_key option \<Rightarrow> chain_key option" where
  "resolveTaskChainById cfg baseEscrow getTaskOn tid caller chainArg =
     map_option fst (resolvePosterTask cfg baseEscrow getTaskOn tid [caller] chainArg)"

section \<open>Whether a task is the one its hash names\<close>

definition isIndexedTask ::
  "config \<Rightarrow> bool \<Rightarrow> (chain_key \<Rightarrow> task_index) \<Rightarrow> a2a_db \<Rightarrow> chain_key \<Rightarrow> string \<Rightarrow> string \<Rightarrow> bool" where
  "isIndexedTask cfg baseEscrow ix db c tid taskHash =
     (case resolveCachedTaskByHash cfg baseEscrow ix db (lower taskHash) of
        None \<Rightarrow> False
      | Some r \<Rightarrow> rt_chain r = c \<and> rt_taskId r = tid)"

definition isListedTask ::
  "config \<Rightarrow> bool \<Rightarrow> (chain_key \<Rightarrow> task_index) \<Rightarrow> a2a_db \<Rightarrow> chain_key \<Rightarrow> string \<Rightarrow> string \<Rightarrow> string \<Rightarrow>
   string option \<Rightarrow> bool" where
  "isListedTask cfg baseEscrow ix db c tid taskHash onChainAgent poster =
     (case resolveCachedTaskByHash cfg baseEscrow ix db (lower taskHash) of
        Some r \<Rightarrow> rt_chain r = c \<and> rt_taskId r = tid
      | None \<Rightarrow> (case truthy poster of None \<Rightarrow> True | Some p \<Rightarrow> lower onChainAgent = lower p))"

section \<open>Laws\<close>

lemma indexesFor_on:
  "c \<in> set (indexesFor cfg b rec) \<Longrightarrow>
   index_enabled cfg b c \<and> (rec = AnyChain \<or> rec = OnChain (chain_name c))"
  by (auto simp: indexesFor_def split: if_splits)

lemma indexesFor_Retired [simp]: "indexesFor cfg b Retired = []"
  by (simp add: indexesFor_def)

lemma cachedLookup_on:
  "cachedLookup ix h cs = Some r \<Longrightarrow>
   rt_chain r \<in> set cs \<and> ti_cached (ix (rt_chain r)) h = Some (rt_taskId r) \<and> rt_taskId r \<noteq> []"
  by (induction cs) (auto simp: truthy_Some_iff split: option.splits)

lemma slow_lookup_on:
  "slow_lookup ix h cs = Some (Some r) \<Longrightarrow>
   rt_chain r \<in> set cs \<and> ti_resolve (ix (rt_chain r)) h = Some (Some (rt_taskId r)) \<and> rt_taskId r \<noteq> []"
  by (induction cs) (auto simp: truthy_Some_iff split: option.splits)

lemma cachedLookup_None:
  "cachedLookup ix h cs = None \<longleftrightarrow> (\<forall>c \<in> set cs. truthy (ti_cached (ix c) h) = None)"
  by (induction cs) (auto split: option.splits)

lemma slow_lookup_None:
  "slow_lookup ix h cs = Some None \<longleftrightarrow>
   (\<forall>c \<in> set cs. \<exists>t. ti_resolve (ix c) h = Some t \<and> truthy t = None)"
  by (induction cs) (auto split: option.splits)

lemma poster_on_Some:
  "poster_on reads wanted cs = Some (c, a) \<Longrightarrow>
   c \<in> set cs \<and> a \<in> set wanted \<and> map_option (lower \<circ> oc_agent) (reads c) = Some a"
  by (induction cs) (auto split: option.splits if_splits)

lemma poster_on_None:
  "poster_on reads wanted cs = None \<longleftrightarrow>
   (\<forall>c \<in> set cs. case reads c of None \<Rightarrow> True | Some t \<Rightarrow> lower (oc_agent t) \<notin> set wanted)"
  by (induction cs) (auto split: option.splits)

lemma recorded_indexes:
  assumes "c \<in> set (indexesFor cfg b (recordedChain cfg db h))"
  shows "index_enabled cfg b c \<and> (case getMeta db h of None \<Rightarrow> True
    | Some m \<Rightarrow> onCurrentNetwork cfg (chain m) (chainId m) \<and>
        (chain m = None \<or> chain m = Some (chain_name c)))"
  using assms indexesFor_on [OF assms]
  by (auto simp: recordedChain_def split: option.splits if_splits)

end
