(* ===== verification/ExpirySweep.thy ===== *)
theory ExpirySweep
  imports TaskChain OpenSweep
begin

text \<open>
  \<open>services/a2aExpirySweep.ts\<close>: the tick that closes open tasks past their deadline and reminds
  posters of the ones near it, the scan for missed deadlines, and the gas-liveness sweep that
  hands back a task whose assignment never landed. The chain and the node are the parameter
  \<open>world\<close>; \<open>None\<close> is a call that throws. \<open>now\<close> is the clock of one pass in milliseconds.
\<close>

section \<open>What the sweeps read\<close>

datatype receipt = Succeeded | Reverted

record world =
  w_cfg :: config
  w_baseEscrow :: bool
  w_index :: "chain_key \<Rightarrow> task_index"
  w_getTaskOn :: "chain_key \<Rightarrow> int \<Rightarrow> onchain_task option"
  w_provider :: "chain_key \<Rightarrow> bool"
  w_receipt :: "chain_key \<Rightarrow> string \<Rightarrow> receipt option option"
  w_known :: "chain_key \<Rightarrow> string \<Rightarrow> bool option"
  w_smartAccount :: "string \<Rightarrow> string option"
  w_sponsorHint :: "task_meta \<Rightarrow> bool"
  w_reconcileMin :: rat
  w_droppedMin :: rat

definition resolve :: "world \<Rightarrow> a2a_db \<Rightarrow> string \<Rightarrow> resolved_task option option" where
  "resolve w db tid = resolveTaskByHash (w_cfg w) (w_baseEscrow w) (w_index w) db tid"

definition resolve_cached :: "world \<Rightarrow> a2a_db \<Rightarrow> string \<Rightarrow> resolved_task option" where
  "resolve_cached w db tid = resolveCachedTaskByHash (w_cfg w) (w_baseEscrow w) (w_index w) db tid"

text \<open>\<open>getTaskOn(resolved.chain, Number(resolved.taskId))\<close>.\<close>

definition read_task :: "world \<Rightarrow> resolved_task \<Rightarrow> onchain_task option" where
  "read_task w r =
     Option.bind (parse_decimal (rt_taskId r)) (\<lambda>i. w_getTaskOn w (rt_chain r) (int i))"

definition SWEEP_INTERVAL_MS :: int where
  "SWEEP_INTERVAL_MS = 60000"

definition EXPIRY_GRACE_SEC :: int where
  "EXPIRY_GRACE_SEC = 60"

definition FIRST_SEEN_CACHE_MAX :: nat where
  "FIRST_SEEN_CACHE_MAX = 50000"

definition MISSED_DEADLINE_SCAN_MS :: int where
  "MISSED_DEADLINE_SCAN_MS = 5 * 60000"

definition MAX_ASSIGN_RECONCILES_PER_TICK :: nat where
  "MAX_ASSIGN_RECONCILES_PER_TICK = 5"

text \<open>\<open>(Number(env) || default) * 60_000\<close>: the setting is 0 when it is unset or no number.\<close>

definition ASSIGN_RECONCILE_AFTER_MS :: "world \<Rightarrow> rat" where
  "ASSIGN_RECONCILE_AFTER_MS w = (if w_reconcileMin w = 0 then 10 else w_reconcileMin w) * 60000"

definition ASSIGN_DROPPED_AFTER_MS :: "world \<Rightarrow> rat" where
  "ASSIGN_DROPPED_AFTER_MS w =
     max ((if w_droppedMin w = 0 then 30 else w_droppedMin w) * 60000) (ASSIGN_RECONCILE_AFTER_MS w)"

section \<open>State\<close>

text \<open>The announcement of a re-opened task: the room it goes to, \<open>None\<close> for every agent's.\<close>

record announcement =
  an_taskId :: string
  an_caps :: "string list"
  an_chain :: "string option"
  an_gasSponsored :: bool
  an_pinnedTo :: "string option"

record reminder_candidate =
  rc_poster :: string
  rc_tid :: string
  rc_deadline :: int
  rc_status :: status
  rc_seen :: int

text \<open>\<open>firstSeenCache\<close> is a \<open>Map\<close>, so a list with one entry per key.\<close>

record expiry_state =
  ex_store :: a2a_db
  ex_notifs :: notif_db
  ex_seenCache :: "(string \<times> int) list"
  ex_heavyAttempted :: "string set"
  ex_inFlight :: bool
  ex_missedInFlight :: bool
  ex_lastMissedScan :: int
  ex_gasInFlight :: bool
  ex_emitted :: "announcement list"

section \<open>Deadline reminders\<close>

definition reminderCandidate ::
  "expiry_state \<Rightarrow> int \<Rightarrow> string option \<Rightarrow> string \<Rightarrow> int \<Rightarrow> int \<Rightarrow> status \<Rightarrow>
   reminder_candidate option \<times> expiry_state" where
  "reminderCandidate s now poster tid dl nowSec st =
     (case truthy poster of
        None \<Rightarrow> (None, s)
      | Some p \<Rightarrow>
          (case map_of (ex_seenCache s) tid of
             Some v \<Rightarrow> (Some \<lparr>rc_poster = p, rc_tid = tid, rc_deadline = dl, rc_status = st, rc_seen = v\<rparr>, s)
           | None \<Rightarrow>
               let r = firstSeenAt (ex_notifs s) now (''remind:'' @ tid) nowSec (dl - nowSec + 86400);
                   s' = s\<lparr>ex_notifs := snd r\<rparr>
               in (case fst r of
                     None \<Rightarrow> (None, s')
                   | Some v \<Rightarrow>
                       let cache = (if FIRST_SEEN_CACHE_MAX \<le> length (ex_seenCache s) then []
                                    else ex_seenCache s)
                       in (Some \<lparr>rc_poster = p, rc_tid = tid, rc_deadline = dl, rc_status = st, rc_seen = v\<rparr>,
                           s'\<lparr>ex_seenCache := (tid, v) # cache\<rparr>))))"

definition remind_key :: "string \<Rightarrow> int \<Rightarrow> string" where
  "remind_key tid window = ''remind:'' @ tid @ '':'' @ show_int window"

definition remind ::
  "notif_db \<Rightarrow> int \<Rightarrow> int \<Rightarrow> (string \<Rightarrow> stamp) \<Rightarrow> reminder_candidate \<Rightarrow> int \<Rightarrow> bool \<times> notif_db" where
  "remind db now nowSec stamps c window =
     (let copy = reminderCopy (reminderKind (rc_status c)) (rc_deadline c - nowSec);
          key = remind_key (rc_tid c) window
      in notifyOnce db now key (rc_poster c)
           (mk_notice NtDeadlineSoon (fst copy) (snd copy) (rc_tid c)) (stamps key))"

text \<open>The marks each poster was reminded of on this call, by lowercased address.\<close>

type_synonym marks = "string \<rightharpoonup> int set"

definition add_mark :: "marks \<Rightarrow> string \<Rightarrow> int \<Rightarrow> marks" where
  "add_mark m poster window =
     m(lower poster \<mapsto> insert window (case m (lower poster) of None \<Rightarrow> {} | Some ws \<Rightarrow> ws))"

text \<open>The first loop: the reminders that are due. It collects the candidates that are not.\<close>

fun remind_due ::
  "notif_db \<Rightarrow> int \<Rightarrow> int \<Rightarrow> (string \<Rightarrow> stamp) \<Rightarrow> marks \<Rightarrow> reminder_candidate list \<Rightarrow>
   marks \<times> reminder_candidate list \<times> notif_db" where
  "remind_due db now nowSec stamps m [] = (m, [], db)"
| "remind_due db now nowSec stamps m (c # cs) =
     (case dueReminderWindow nowSec (rc_deadline c) (rc_seen c) REMINDER_WINDOWS 0 of
        None \<Rightarrow>
          let r = remind_due db now nowSec stamps m cs in (fst r, c # fst (snd r), snd (snd r))
      | Some window \<Rightarrow>
          let r = remind db now nowSec stamps c window in
          remind_due (snd r) now nowSec stamps (if fst r then add_mark m (rc_poster c) window else m) cs)"

text \<open>The second loop: the same marks, a little ahead, for the posters reminded in the first.\<close>

fun remind_ahead ::
  "notif_db \<Rightarrow> int \<Rightarrow> int \<Rightarrow> (string \<Rightarrow> stamp) \<Rightarrow> marks \<Rightarrow> reminder_candidate list \<Rightarrow> notif_db" where
  "remind_ahead db now nowSec stamps m [] = db"
| "remind_ahead db now nowSec stamps m (c # cs) =
     (case m (lower (rc_poster c)) of
        None \<Rightarrow> remind_ahead db now nowSec stamps m cs
      | Some ws \<Rightarrow>
          (case dueReminderWindow nowSec (rc_deadline c) (rc_seen c)
                  (filter (\<lambda>w. rw_sec w \<in> ws) REMINDER_WINDOWS) REMINDER_PULL_AHEAD_SEC of
             None \<Rightarrow> remind_ahead db now nowSec stamps m cs
           | Some window \<Rightarrow>
               remind_ahead (snd (remind db now nowSec stamps c window)) now nowSec stamps m cs))"

definition sendReminders ::
  "notif_db \<Rightarrow> int \<Rightarrow> int \<Rightarrow> (string \<Rightarrow> stamp) \<Rightarrow> reminder_candidate list \<Rightarrow> notif_db" where
  "sendReminders db now nowSec stamps candidates =
     (let r = remind_due db now nowSec stamps Map.empty candidates in
      remind_ahead (snd (snd r)) now nowSec stamps (fst r) (fst (snd r)))"

section \<open>Expired tasks\<close>

text \<open>The state of one tick: what the loop over the open tasks carries.\<close>

record tick =
  tk_state :: expiry_state
  tk_closed :: nat
  tk_backfilled :: nat
  tk_heavyUsed :: bool
  tk_reminders :: "reminder_candidate list"

definition with_db :: "tick \<Rightarrow> a2a_db \<Rightarrow> tick" where
  "with_db t db = t\<lparr>tk_state := (tk_state t)\<lparr>ex_store := db\<rparr>\<rparr>"

definition set_attempted :: "tick \<Rightarrow> string set \<Rightarrow> tick" where
  "set_attempted t H = t\<lparr>tk_state := (tk_state t)\<lparr>ex_heavyAttempted := H\<rparr>\<rparr>"

abbreviation tk_db :: "tick \<Rightarrow> a2a_db" where
  "tk_db t \<equiv> ex_store (tk_state t)"

text \<open>
  The full scan for an unmapped hash, at most once a tick and once a task; a task the full
  scan does not know is closed. \<open>None\<close> is the loop's \<open>continue\<close>.
\<close>

definition heavy_resolve :: "world \<Rightarrow> tick \<Rightarrow> string \<Rightarrow> resolved_task option \<times> tick" where
  "heavy_resolve w t tid =
     (let attempted = ex_heavyAttempted (tk_state t) in
      if tk_heavyUsed t \<or> tid \<in> attempted then (None, t)
      else
        let t1 = (set_attempted t (insert tid attempted))\<lparr>tk_heavyUsed := True\<rparr> in
        (case resolve w (tk_db t) tid of
           None \<Rightarrow> (None, set_attempted t1 (attempted - {tid}))
         | Some None \<Rightarrow>
             let r = tryExpire (tk_db t) tid Unindexed in
             (None, (with_db t1 (snd r))\<lparr>tk_closed := (if won (fst r) then tk_closed t + 1 else tk_closed t)\<rparr>)
         | Some (Some r) \<Rightarrow> (Some r, t1)))"

text \<open>A deadline: of the meta, else cached, else read from the escrow that holds the task.\<close>

definition known_deadline :: "a2a_db \<Rightarrow> int \<Rightarrow> task_meta \<Rightarrow> int" where
  "known_deadline db now m =
     (case deadline m of
        Some d \<Rightarrow> d
      | None \<Rightarrow> (case getCachedDeadline db now (lower (taskId m)) of None \<Rightarrow> 0 | Some d \<Rightarrow> d))"

definition backfill_deadline ::
  "world \<Rightarrow> int \<Rightarrow> tick \<Rightarrow> string \<Rightarrow> resolved_task \<Rightarrow> int option \<times> tick" where
  "backfill_deadline w now t tid r =
     (case read_task w r of
        None \<Rightarrow> (None, t)
      | Some task \<Rightarrow>
          if lower (oc_taskHash task) \<noteq> tid \<or> oc_deadline task = 0 then (None, t)
          else (Some (oc_deadline task),
                (with_db t (cacheDeadline (tk_db t) now tid (oc_deadline task)))
                  \<lparr>tk_backfilled := tk_backfilled t + 1\<rparr>))"

definition find_deadline :: "world \<Rightarrow> int \<Rightarrow> tick \<Rightarrow> task_meta \<Rightarrow> int option \<times> tick" where
  "find_deadline w now t m =
     (let tid = lower (taskId m); d = known_deadline (tk_db t) now m in
      if d \<noteq> 0 then (Some d, t)
      else
        let r = (case resolve_cached w (tk_db t) tid of
                   Some r \<Rightarrow> (Some r, t) | None \<Rightarrow> heavy_resolve w t tid)
        in (case fst r of
              None \<Rightarrow> (None, snd r)
            | Some res \<Rightarrow> backfill_deadline w now (snd r) tid res))"

definition deadline_key :: "string \<Rightarrow> string" where
  "deadline_key tid = ''deadline:'' @ tid"

definition expired_notice :: "string \<Rightarrow> notice" where
  "expired_notice tid =
     mk_notice NtExpired ''Your task expired unclaimed''
       ''No agent took it before the deadline. Its escrow is still yours: open the task to reclaim it.''
       tid"

text \<open>Closing a task past its deadline and grace: the compare-and-set, then the notice and keys.\<close>

definition expire_task :: "int \<Rightarrow> (string \<Rightarrow> stamp) \<Rightarrow> tick \<Rightarrow> task_meta \<Rightarrow> tick" where
  "expire_task now stamps t m =
     (let tid = lower (taskId m); r = tryExpire (tk_db t) tid Expired in
      if \<not> won (fst r) then t
      else
        let s = tk_state t;
            notifs = (case truthy (posterAddress m) of
                        None \<Rightarrow> ex_notifs s
                      | Some p \<Rightarrow> snd (notifyOnce (ex_notifs s) now (deadline_key tid) p
                                     (expired_notice tid) (stamps (deadline_key tid))))
        in t\<lparr>tk_state := s\<lparr>ex_store := clearCascade (clearOffer (snd r) tid) tid, ex_notifs := notifs\<rparr>,
             tk_closed := tk_closed t + 1\<rparr>)"

definition note_candidate ::
  "int \<Rightarrow> int \<Rightarrow> tick \<Rightarrow> string option \<Rightarrow> string \<Rightarrow> int \<Rightarrow> status \<Rightarrow> tick" where
  "note_candidate now nowSec t poster tid dl st =
     (if nowSec < dl then
        let r = reminderCandidate (tk_state t) now poster tid dl nowSec st in
        t\<lparr>tk_state := snd r, tk_reminders := tk_reminders t @
            (case fst r of None \<Rightarrow> [] | Some c \<Rightarrow> [c])\<rparr>
      else t)"

definition sweep_open_task ::
  "world \<Rightarrow> int \<Rightarrow> int \<Rightarrow> (string \<Rightarrow> stamp) \<Rightarrow> task_meta \<times> task_state \<Rightarrow> tick \<Rightarrow> tick" where
  "sweep_open_task w now nowSec stamps e t =
     (let m = fst e; f = find_deadline w now t m in
      case fst f of
        None \<Rightarrow> snd f
      | Some dl \<Rightarrow>
          let t' = note_candidate now nowSec (snd f) (posterAddress m) (lower (taskId m)) dl Open in
          if nowSec < dl + EXPIRY_GRACE_SEC then t' else expire_task now stamps t' m)"

definition start_tick :: "expiry_state \<Rightarrow> tick" where
  "start_tick s =
     \<lparr>tk_state = s, tk_closed = 0, tk_backfilled = 0, tk_heavyUsed = False, tk_reminders = []\<rparr>"

text \<open>
  \<open>keys\<close> is what SCAN returned for the state keys, \<open>ids\<close> what SMEMBERS then returned for the
  open index; \<open>endMs\<close> is the clock once the loop is over, when the reminders are sent.
\<close>

definition sweepExpiredTasks ::
  "bool \<Rightarrow> world \<Rightarrow> int \<Rightarrow> int \<Rightarrow> string list \<Rightarrow> string list \<Rightarrow> (string \<Rightarrow> stamp) \<Rightarrow>
   expiry_state \<Rightarrow> expiry_state" where
  "sweepExpiredTasks writesAllowed w now endMs keys ids stamps s =
     (if \<not> writesAllowed \<or> ex_inFlight s then s
      else
        let db = snd (resyncOpenIndex (ex_store s) keys);
            open_tasks = listOpenTasks db ids;
            t = fold (sweep_open_task w now (now div 1000) stamps) open_tasks
                  (start_tick (s\<lparr>ex_store := db, ex_inFlight := True\<rparr>));
            s' = tk_state t
        in s'\<lparr>ex_notifs := sendReminders (ex_notifs s') endMs (endMs div 1000) stamps (tk_reminders t),
              ex_inFlight := False\<rparr>)"

section \<open>Missed deadlines\<close>

definition missed_notice :: "string \<Rightarrow> notice" where
  "missed_notice tid =
     mk_notice NtExpired ''The agent missed the deadline''
       ''Your task was not delivered in time. Its escrow is still yours: open the task to reclaim it.''
       tid"

text \<open>Assigned, Submitted, Verified: the escrow still holds the money.\<close>

definition escrow_holds :: "escrow_status \<Rightarrow> bool" where
  "escrow_holds st \<longleftrightarrow> escrow_status_num st \<in> {1, 2, 3}"

definition missed_and_held :: "world \<Rightarrow> a2a_db \<Rightarrow> string \<Rightarrow> bool" where
  "missed_and_held w db tid =
     (case Option.bind (resolve_cached w db tid) (read_task w) of
        None \<Rightarrow> False
      | Some task \<Rightarrow> lower (oc_taskHash task) = tid \<and> escrow_holds (oc_status task))"

text \<open>\<open>tk_closed\<close> counts the posters told.\<close>

definition sweep_missed_task ::
  "world \<Rightarrow> int \<Rightarrow> int \<Rightarrow> (string \<Rightarrow> stamp) \<Rightarrow> task_meta \<times> task_state \<Rightarrow> tick \<Rightarrow> tick" where
  "sweep_missed_task w now nowSec stamps e t =
     (let m = fst e; tid = lower (taskId m); dl = known_deadline (tk_db t) now m in
      case truthy (posterAddress m) of
        None \<Rightarrow> t
      | Some p \<Rightarrow>
          if dl = 0 then t
          else
            let t' = note_candidate now nowSec t (Some p) tid dl (status (snd e)) in
            if nowSec < dl + EXPIRY_GRACE_SEC \<or> \<not> missed_and_held w (tk_db t') tid then t'
            else
              let s = tk_state t';
                  r = notifyOnce (ex_notifs s) now (deadline_key tid) p (missed_notice tid)
                        (stamps (deadline_key tid))
              in t'\<lparr>tk_state := s\<lparr>ex_notifs := snd r\<rparr>,
                    tk_closed := (if fst r then tk_closed t' + 1 else tk_closed t')\<rparr>)"

definition sweepMissedDeadlines ::
  "bool \<Rightarrow> world \<Rightarrow> int \<Rightarrow> string list \<Rightarrow> (string \<Rightarrow> stamp) \<Rightarrow> expiry_state \<Rightarrow> nat \<times> expiry_state" where
  "sweepMissedDeadlines writesAllowed w now keys stamps s =
     (if \<not> writesAllowed \<or> ex_missedInFlight s \<or> now - ex_lastMissedScan s < MISSED_DEADLINE_SCAN_MS
      then (0, s)
      else
        let t = fold (sweep_missed_task w now (now div 1000) stamps)
                  (listInProgressTasks (ex_store s) keys)
                  (start_tick (s\<lparr>ex_missedInFlight := True, ex_lastMissedScan := now\<rparr>));
            s' = tk_state t
        in (tk_closed t,
            s'\<lparr>ex_notifs := sendReminders (ex_notifs s') now (now div 1000) stamps (tk_reminders t),
               ex_missedInFlight := False\<rparr>))"

section \<open>Gas liveness\<close>

definition announceReopened :: "world \<Rightarrow> a2a_db \<Rightarrow> string \<Rightarrow> announcement list" where
  "announceReopened w db tid =
     (case getMeta db tid of
        None \<Rightarrow> []
      | Some m \<Rightarrow>
          if targetExecutorType m \<noteq> Agent then []
          else [\<lparr>an_taskId = tid, an_caps = requiredCapabilities m, an_chain = truthy (chain m),
                 an_gasSponsored = w_sponsorHint w m,
                 an_pinnedTo = map_option lower (truthy (targetExecutor m))\<rparr>])"

text \<open>A throw of the release is caught by the sweep's loop, which goes on: no release.\<close>

definition releaseIfUnchanged ::
  "world \<Rightarrow> a2a_db \<Rightarrow> string \<Rightarrow> expected_state \<Rightarrow> bool \<times> a2a_db \<times> announcement list" where
  "releaseIfUnchanged w db tid e =
     (case tryReleaseAccepted db tid e of
        (Inr (Won _), db') \<Rightarrow> (True, db', announceReopened w db' tid)
      | (_, db') \<Rightarrow> (False, db', []))"

text \<open>Whether the escrow's worker is this executor: its own address, or its smart account.\<close>

definition assigned_to :: "world \<Rightarrow> onchain_task \<Rightarrow> string option \<Rightarrow> bool" where
  "assigned_to w task executor \<longleftrightarrow>
     oc_worker task \<noteq> [] \<and>
     (lower_opt executor = Some (lower (oc_worker task)) \<or>
      (case truthy executor of
         None \<Rightarrow> False
       | Some x \<Rightarrow> lower_opt (w_smartAccount w x) = Some (lower (oc_worker task))))"

text \<open>Whether the assign transaction can no longer land, as far as the node says.\<close>

definition tx_is_dead :: "world \<Rightarrow> chain_key \<Rightarrow> string \<Rightarrow> int \<Rightarrow> bool" where
  "tx_is_dead w c tx txAgeMs =
     (if \<not> w_provider w c then False
      else (case w_receipt w c tx of
        None \<Rightarrow> False
      | Some (Some rcpt) \<Rightarrow> rcpt \<noteq> Succeeded
      | Some None \<Rightarrow>
          \<not> of_int txAgeMs < ASSIGN_DROPPED_AFTER_MS w \<and> w_known w c tx = Some False))"

definition read_resolved :: "world \<Rightarrow> a2a_db \<Rightarrow> string \<Rightarrow> (resolved_task \<times> onchain_task) option" where
  "read_resolved w db tid =
     (case resolve w db tid of
        Some (Some r) \<Rightarrow> map_option (Pair r) (read_task w r)
      | _ \<Rightarrow> None)"

definition reconcileBroadcastAssignment ::
  "world \<Rightarrow> a2a_db \<Rightarrow> int \<Rightarrow> string \<Rightarrow> string option \<Rightarrow> string \<Rightarrow> bool \<Rightarrow> int \<Rightarrow>
   bool \<times> a2a_db \<times> announcement list" where
  "reconcileBroadcastAssignment w db now tid executor tx hasAssignError txAgeMs =
     (case read_resolved w db tid of
        None \<Rightarrow> (False, db, [])
      | Some (r, task) \<Rightarrow>
          if oc_status task \<noteq> EsFunded then
            (if assigned_to w task executor \<and> hasAssignError then
               (case updateState db tid [PAssignError None] of
                  Inl _ \<Rightarrow> (False, db, [])
                | Inr (_, db') \<Rightarrow> (False, markAssignReconciled db' now tid tx, []))
             else (False, markAssignReconciled db now tid tx, []))
          else if \<not> tx_is_dead w (rt_chain r) tx txAgeMs then (False, db, [])
          else releaseIfUnchanged w db tid
                 \<lparr>exp_executor = executor, exp_tx = Some tx, exp_status = None\<rparr>)"

text \<open>A task with no recorded transaction: the escrow decides.\<close>

definition reconcile_unsent ::
  "world \<Rightarrow> a2a_db \<Rightarrow> string \<Rightarrow> string option \<Rightarrow> string option \<Rightarrow> bool \<times> a2a_db \<times> announcement list" where
  "reconcile_unsent w db tid stateExecutor listed =
     (case read_resolved w db tid of
        None \<Rightarrow> (False, db, [])
      | Some (r, task) \<Rightarrow>
          if Some (lower (oc_worker task)) = lower_opt listed \<or> oc_status task \<noteq> EsFunded
          then (False, db, [])
          else releaseIfUnchanged w db tid
                 \<lparr>exp_executor = (if stateExecutor = None then listed else stateExecutor),
                  exp_tx = None, exp_status = None\<rparr>)"

record gas_tick =
  gt_db :: a2a_db
  gt_emitted :: "announcement list"
  gt_reverted :: nat
  gt_reconciles :: nat

definition apply_release :: "gas_tick \<Rightarrow> bool \<times> a2a_db \<times> announcement list \<Rightarrow> gas_tick" where
  "apply_release g r =
     g\<lparr>gt_db := fst (snd r), gt_emitted := gt_emitted g @ snd (snd r),
       gt_reverted := (if fst r then gt_reverted g + 1 else gt_reverted g)\<rparr>"

definition accept_age :: "int \<Rightarrow> task_state \<Rightarrow> int" where
  "accept_age now s = now - (case acceptedAt s of None \<Rightarrow> 0 | Some a \<Rightarrow> a)"

definition tx_age :: "a2a_db \<Rightarrow> int \<Rightarrow> string \<Rightarrow> task_state \<Rightarrow> string \<Rightarrow> int" where
  "tx_age db now tid s tx =
     (case getAssignBroadcastAt db now tid tx of None \<Rightarrow> accept_age now s | Some b \<Rightarrow> now - b)"

definition gas_candidate :: "world \<Rightarrow> int \<Rightarrow> string \<times> string option \<Rightarrow> gas_tick \<Rightarrow> gas_tick" where
  "gas_candidate w now e g =
     (let tid = fst e; listed = snd e; db = gt_db g in
      if getSettlementDeadlineTTL db now tid \<noteq> -2 then g
      else (case states db (lower tid) of
        None \<Rightarrow> g
      | Some s \<Rightarrow>
          (case truthy (assignTxHash s) of
             Some tx \<Rightarrow>
               let age = tx_age db now tid s tx in
               if of_int age < ASSIGN_RECONCILE_AFTER_MS w \<or>
                  MAX_ASSIGN_RECONCILES_PER_TICK \<le> gt_reconciles g \<or>
                  isAssignReconciled db now tid tx
               then g
               else apply_release (g\<lparr>gt_reconciles := gt_reconciles g + 1\<rparr>)
                      (reconcileBroadcastAssignment w db now tid
                         (if executorAddress s = None then listed else executorAddress s) tx
                         (truthy (assignError s) \<noteq> None) age)
           | None \<Rightarrow>
               if 5 * 60000 < accept_age now s then g
               else apply_release g (reconcile_unsent w db tid (executorAddress s) listed))))"

definition sweepGasLiveness ::
  "bool \<Rightarrow> world \<Rightarrow> int \<Rightarrow> string list \<Rightarrow> expiry_state \<Rightarrow> expiry_state" where
  "sweepGasLiveness writesAllowed w now keys s =
     (if \<not> writesAllowed \<or> ex_gasInFlight s then s
      else
        let g = fold (gas_candidate w now) (listAcceptedTasks (ex_store s) keys)
                  \<lparr>gt_db = ex_store s, gt_emitted = ex_emitted s, gt_reverted = 0, gt_reconciles = 0\<rparr>
        in s\<lparr>ex_store := gt_db g, ex_emitted := gt_emitted g, ex_gasInFlight := False\<rparr>)"

end
