(* ===== verification/ExpirySweepProps.thy ===== *)
theory ExpirySweepProps
  imports ExpirySweep TaskStoreProps
begin

text \<open>The properties of the hash resolution and of the sweeps.\<close>

section \<open>From a hash to its escrow\<close>

text \<open>
  A hash resolves only through an index that is enabled, and, when the listing recorded a
  chain, only through that chain's: a hash someone escrowed on another chain is never found
  there, and a task listed on a network its chain has moved off resolves to nothing. No answer
  means that no index that may hold the task knows the hash.
\<close>

theorem resolution_stays_on_the_recorded_chain:
  assumes "resolveTaskByHash cfg b ix db h = Some r"
  shows "case r of
      Some t \<Rightarrow> index_enabled cfg b (rt_chain t) \<and>
        (ti_cached (ix (rt_chain t)) h = Some (rt_taskId t) \<or>
         ti_resolve (ix (rt_chain t)) h = Some (Some (rt_taskId t))) \<and>
        (\<forall>m. getMeta db h = Some m \<longrightarrow> onCurrentNetwork cfg (chain m) (chainId m) \<and>
           (chain m = None \<or> chain m = Some (chain_name (rt_chain t))))
    | None \<Rightarrow> \<forall>c \<in> set (indexesFor cfg b (recordedChain cfg db h)).
        truthy (ti_cached (ix c) h) = None \<and> (\<exists>u. ti_resolve (ix c) h = Some u \<and> truthy u = None)"
proof -
  let ?cs = "indexesFor cfg b (recordedChain cfg db h)"
  show ?thesis
  proof (cases r)
    case None
    then have "cachedLookup ix h ?cs = None" "slow_lookup ix h ?cs = Some None"
      using assms by (auto simp: resolveTaskByHash_def Let_def split: option.splits)
    with None show ?thesis by (auto simp: cachedLookup_None slow_lookup_None)
  next
    case (Some t)
    then have "cachedLookup ix h ?cs = Some t \<or> slow_lookup ix h ?cs = Some (Some t)"
      using assms by (auto simp: resolveTaskByHash_def Let_def split: option.splits)
    then have c: "rt_chain t \<in> set ?cs"
      and i: "ti_cached (ix (rt_chain t)) h = Some (rt_taskId t) \<or>
        ti_resolve (ix (rt_chain t)) h = Some (Some (rt_taskId t))"
      using cachedLookup_on slow_lookup_on by blast+
    from recorded_indexes [OF c] i Some show ?thesis by auto
  qed
qed

theorem resolution_stays_on_the_recorded_chain_witness:
  "resolveTaskByHash testnet_config True
     (\<lambda>c. \<lparr>ti_cached = (\<lambda>_. if c = Arc then Some ''7'' else None), ti_resolve = (\<lambda>_. Some None)\<rparr>)
     empty_db ''0xab'' = Some (Some \<lparr>rt_taskId = ''7'', rt_chain = Arc\<rparr>) \<and>
   index_enabled testnet_config True Arc"
proof -
  let ?ix = "\<lambda>c. \<lparr>ti_cached = (\<lambda>_ :: string. if c = Arc then Some ''7'' else None),
      ti_resolve = (\<lambda>_. Some None)\<rparr>"
  have "\<not> isZeroAddress ''0xE2''" by (auto simp: isZeroAddress_def dest: arg_cong [where f = length])
  then have r: "resolveTaskByHash testnet_config True ?ix empty_db ''0xab'' =
      Some (Some \<lparr>rt_taskId = ''7'', rt_chain = Arc\<rparr>)"
    by (simp add: resolveTaskByHash_def recordedChain_def indexesFor_def SEARCH_ORDER_def getMeta_def
      find_meta_def empty_db_def testnet_config_def build_arc_def addressOrNull_def Let_def)
  from resolution_stays_on_the_recorded_chain [OF r] r show ?thesis by simp
qed

section \<open>Expired tasks\<close>

text \<open>What the escrow itself says of a task: its struct carries the task's own hash.\<close>

definition escrow_says :: "world \<Rightarrow> string \<Rightarrow> int \<Rightarrow> bool" where
  "escrow_says w tid dl \<longleftrightarrow>
     (\<exists>r task. read_task w r = Some task \<and> lower (oc_taskHash task) = tid \<and> oc_deadline task = dl)"

definition deadline_known :: "world \<Rightarrow> a2a_db \<Rightarrow> int \<Rightarrow> string \<Rightarrow> int \<Rightarrow> bool" where
  "deadline_known w db now tid dl \<longleftrightarrow>
     (\<exists>m. deadline m = Some dl \<and> lower (taskId m) = tid \<and> m \<in> ran (metas db)) \<or>
     getCachedDeadline db now tid = Some dl \<or> escrow_says w tid dl"

definition closed_state :: "task_state \<Rightarrow> expire_reason \<Rightarrow> task_state" where
  "closed_state s reason =
     (cjson_state s)\<lparr>status := Failed, failedReason := Some (expire_reason_text reason)\<rparr>"

definition may_close :: "world \<Rightarrow> a2a_db \<Rightarrow> int \<Rightarrow> string \<Rightarrow> expire_reason \<Rightarrow> bool" where
  "may_close w db now tid reason \<longleftrightarrow>
     (case reason of
        Expired \<Rightarrow> \<exists>dl. dl \<noteq> 0 \<and> dl + EXPIRY_GRACE_SEC \<le> now div 1000 \<and> deadline_known w db now tid dl
      | Unindexed \<Rightarrow> resolve w db tid = Some None)"

text \<open>What a pass may have done to the store it started from.\<close>

definition closes_only :: "world \<Rightarrow> int \<Rightarrow> a2a_db \<Rightarrow> a2a_db \<Rightarrow> bool" where
  "closes_only w now db db' \<longleftrightarrow>
     metas db' = metas db \<and>
     (\<forall>k d. getCachedDeadline db' now k = Some d \<longrightarrow>
        getCachedDeadline db now k = Some d \<or> escrow_says w (lower k) d) \<and>
     (\<forall>k. states db' k = states db k \<or>
        (\<exists>s reason. states db k = Some s \<and> status s = Open \<and>
           states db' k = Some (closed_state s reason) \<and> may_close w db now k reason))"

lemma closes_only_refl: "closes_only w now db db"
  by (simp add: closes_only_def)

lemma getMeta_cong: "metas db' = metas db \<Longrightarrow> getMeta db' tid = getMeta db tid"
  unfolding getMeta_def find_meta_def by (simp split: option.split)

lemma resolve_cong: "metas db' = metas db \<Longrightarrow> resolve w db' tid = resolve w db tid"
  unfolding resolve_def resolveTaskByHash_def recordedChain_def by (simp only: getMeta_cong [of db' db tid])

lemma tryExpire_lower:
  "lower tid = tid \<Longrightarrow> tryExpire db tid reason =
     (case states db tid of
        None \<Rightarrow> (Lost None, db)
      | Some s \<Rightarrow> if status s \<noteq> Open then (Lost (Some (status s)), db)
          else (Won (), (put_state db tid (closed_state s reason))\<lparr>open_ix := drop_open db tid\<rparr>))"
  by (simp add: tryExpire_def find_state_def closed_state_def Let_def split: option.split)

lemma tryExpire_kept:
  "metas (snd (tryExpire db tid reason)) = metas db"
  "deadlines (snd (tryExpire db tid reason)) = deadlines db"
  by (simp_all add: tryExpire_def put_state_def Let_def split: option.split)

text \<open>A close the evidence allows, and the caching of a deadline the escrow gave.\<close>

lemma closes_only_expire:
  assumes c: "closes_only w now db db'" and tid: "lower tid = tid"
    and ok: "may_close w db now tid reason"
  shows "closes_only w now db (snd (tryExpire db' tid reason))"
proof -
  let ?db = "snd (tryExpire db' tid reason)"
  have "states ?db k = states db k \<or>
      (\<exists>s reason. states db k = Some s \<and> status s = Open \<and>
         states ?db k = Some (closed_state s reason) \<and> may_close w db now k reason)" for k
  proof (cases "k = tid \<and> (\<exists>s. states db' k = Some s \<and> status s = Open)")
    case False
    then have "states ?db k = states db' k"
      by (auto simp: tryExpire_lower [OF tid] put_state_def split: option.split)
    with c show ?thesis by (simp add: closes_only_def)
  next
    case True
    then obtain s where s: "states db' tid = Some s" "status s = Open" and k: "k = tid" by auto
    have new: "states ?db tid = Some (closed_state s reason)"
      using s by (simp add: tryExpire_lower [OF tid] put_state_def)
    have "states db tid = Some s"
      using c s unfolding closes_only_def
      by (elim conjE, elim allE [where x = tid]) (auto simp: closed_state_def)
    with s new ok k show ?thesis by auto
  qed
  with c show ?thesis
    by (simp add: closes_only_def tryExpire_kept getCachedDeadline_def)
qed

lemma getCachedDeadline_cache:
  "getCachedDeadline (cacheDeadline db now tid d) now k =
     (if lower k = lower tid then Some d else getCachedDeadline db now k)"
proof -
  have "0 < 1000 * max (d - now div 1000) 0 + 86400000" by (rule add_nonneg_pos) simp_all
  then show ?thesis by (simp add: getCachedDeadline_def cacheDeadline_def kv_get_setex Let_def)
qed

lemma closes_only_cache:
  assumes "closes_only w now db db'" "escrow_says w (lower tid) d"
  shows "closes_only w now db (cacheDeadline db' now tid d)"
  using assms unfolding closes_only_def getCachedDeadline_cache
  by (simp add: cacheDeadline_def Let_def)

lemma closes_only_cong:
  assumes "closes_only w now db db'" "metas db'' = metas db'" "states db'' = states db'"
    "deadlines db'' = deadlines db'"
  shows "closes_only w now db db''"
  using assms by (simp add: closes_only_def getCachedDeadline_def)

text \<open>The parts of the pass.\<close>

lemma tick_db_simps [simp]:
  "tk_db (with_db t db) = db" "tk_db (set_attempted t H) = tk_db t"
  "tk_db (t\<lparr>tk_heavyUsed := b\<rparr>) = tk_db t" "tk_db (t\<lparr>tk_closed := n\<rparr>) = tk_db t"
  "tk_db (t\<lparr>tk_backfilled := n\<rparr>) = tk_db t"
  by (simp_all add: with_db_def set_attempted_def)

lemma note_candidate_db [simp]: "tk_db (note_candidate now nowSec t p tid dl st) = tk_db t"
  by (simp add: note_candidate_def reminderCandidate_def Let_def split: option.split)

lemma heavy_resolve_closes:
  assumes c: "closes_only w now db (tk_db t)" and tid: "lower tid = tid"
  shows "closes_only w now db (tk_db (snd (heavy_resolve w t tid)))"
proof (cases "resolve w (tk_db t) tid = Some None \<and> \<not> tk_heavyUsed t \<and> tid \<notin> ex_heavyAttempted (tk_state t)")
  case True
  moreover have "resolve w (tk_db t) tid = resolve w db tid"
    using c by (intro resolve_cong) (simp add: closes_only_def)
  ultimately have "may_close w db now tid Unindexed" by (simp add: may_close_def)
  from closes_only_expire [OF c tid this] True show ?thesis
    by (simp add: heavy_resolve_def Let_def)
next
  case False
  with c have "tk_db (snd (heavy_resolve w t tid)) = tk_db t"
    by (auto simp: heavy_resolve_def Let_def split: option.split)
  with c show ?thesis by simp
qed

lemma backfill_closes:
  assumes c: "closes_only w now db (tk_db t)" and tid: "lower tid = tid"
  shows "closes_only w now db (tk_db (snd (backfill_deadline w now t tid r)))"
    and "fst (backfill_deadline w now t tid r) = Some dl \<Longrightarrow> dl \<noteq> 0 \<and> escrow_says w tid dl"
proof -
  show "fst (backfill_deadline w now t tid r) = Some dl \<Longrightarrow> dl \<noteq> 0 \<and> escrow_says w tid dl"
    by (auto simp: backfill_deadline_def escrow_says_def split: option.splits if_splits)
  show "closes_only w now db (tk_db (snd (backfill_deadline w now t tid r)))"
  proof (cases "read_task w r")
    case (Some task)
    then have "lower (oc_taskHash task) = tid \<Longrightarrow> escrow_says w (lower tid) (oc_deadline task)"
      using tid by (auto simp: escrow_says_def)
    with c Some closes_only_cache [OF c] show ?thesis by (simp add: backfill_deadline_def)
  qed (use c in \<open>simp add: backfill_deadline_def\<close>)
qed

lemma find_deadline_closes:
  assumes c: "closes_only w now db (tk_db t)" and m: "m \<in> ran (metas db)"
  shows "closes_only w now db (tk_db (snd (find_deadline w now t m)))"
    and "fst (find_deadline w now t m) = Some dl \<Longrightarrow> dl \<noteq> 0 \<and> deadline_known w db now (lower (taskId m)) dl"
proof -
  let ?tid = "lower (taskId m)"
  let ?r = "case resolve_cached w (tk_db t) ?tid of Some r \<Rightarrow> (Some r, t) | None \<Rightarrow> heavy_resolve w t ?tid"
  have r: "closes_only w now db (tk_db (snd ?r))"
    using c heavy_resolve_closes [OF c, of ?tid] by (simp split: option.split)
  show "closes_only w now db (tk_db (snd (find_deadline w now t m)))"
    using c r backfill_closes(1) [OF r, of ?tid]
    by (simp add: find_deadline_def Let_def split: option.split)
  assume dl: "fst (find_deadline w now t m) = Some dl"
  show "dl \<noteq> 0 \<and> deadline_known w db now ?tid dl"
  proof (cases "known_deadline (tk_db t) now m = 0")
    case True
    then obtain res where "fst (backfill_deadline w now (snd ?r) ?tid res) = Some dl"
      using dl by (auto simp: find_deadline_def Let_def split: option.splits)
    from backfill_closes(2) [OF r _ this] show ?thesis by (simp add: deadline_known_def)
  next
    case False
    with dl have d: "dl = known_deadline (tk_db t) now m" by (simp add: find_deadline_def Let_def)
    then have "deadline m = Some dl \<or> getCachedDeadline (tk_db t) now ?tid = Some dl"
      using False by (auto simp: known_deadline_def split: option.splits)
    then have "deadline_known w db now ?tid dl"
      using c m unfolding closes_only_def deadline_known_def
      by (metis lower_idem)
    with False d show ?thesis by simp
  qed
qed

lemma expire_task_db:
  "tk_db (expire_task now stamps t m) =
     (let r = tryExpire (tk_db t) (lower (taskId m)) Expired in
      if won (fst r) then clearCascade (clearOffer (snd r) (lower (taskId m))) (lower (taskId m)) else tk_db t)"
  by (simp add: expire_task_def Let_def)

lemma sweep_open_closes:
  assumes c: "closes_only w now db (tk_db t)" and m: "m \<in> ran (metas db)"
  shows "closes_only w now db (tk_db (sweep_open_task w now (now div 1000) stamps (m, s) t))"
proof (cases "fst (find_deadline w now t m)")
  case None
  then show ?thesis using find_deadline_closes(1) [OF c m] by (simp add: sweep_open_task_def Let_def)
next
  case (Some dl)
  let ?tid = "lower (taskId m)" and ?f = "find_deadline w now t m"
  let ?t = "note_candidate now (now div 1000) (snd ?f) (posterAddress m) ?tid dl Open"
  have c': "closes_only w now db (tk_db ?t)" using find_deadline_closes(1) [OF c m] by simp
  show ?thesis
  proof (cases "now div 1000 < dl + EXPIRY_GRACE_SEC")
    case True
    with Some c' show ?thesis by (simp add: sweep_open_task_def Let_def)
  next
    case False
    have "may_close w db now ?tid Expired"
      using False find_deadline_closes(2) [OF c m Some] by (auto simp: may_close_def)
    from closes_only_expire [OF c' _ this] have "closes_only w now db (snd (tryExpire (tk_db ?t) ?tid Expired))"
      by simp
    then have "closes_only w now db (tk_db (expire_task now stamps ?t m))"
      using c' unfolding expire_task_db Let_def
      by (auto intro: closes_only_cong simp: clearCascade_def clearOffer_def)
    with Some False show ?thesis by (simp add: sweep_open_task_def Let_def)
  qed
qed

text \<open>The whole pass.\<close>

lemma listed_meta:
  assumes "(m, s) \<in> set (listOpenTasks db ids)" shows "m \<in> ran (metas db)"
proof -
  from assms obtain i where "load_pair (metas db) (states db) (lower i) = Some (m, s)"
    by (auto simp: listOpenTasks_def loadTasksByIndex_def map_filter_def)
  then show ?thesis by (auto simp: load_pair_def ran_def split: option.splits)
qed

lemma fold_closes:
  assumes "closes_only w now db (tk_db t)" "\<forall>e \<in> set es. fst e \<in> ran (metas db)"
  shows "closes_only w now db (tk_db (fold (sweep_open_task w now (now div 1000) stamps) es t))"
  using assms
proof (induction es arbitrary: t)
  case (Cons e es)
  have "fst e \<in> ran (metas db)" using Cons.prems(2) by simp
  with sweep_open_closes [OF Cons.prems(1), of "fst e" stamps "snd e"] Cons show ?case by simp
qed simp

definition not_open :: "a2a_db \<Rightarrow> string \<Rightarrow> bool" where
  "not_open db k \<longleftrightarrow> (\<forall>s. states db k = Some s \<longrightarrow> status s \<noteq> Open)"

lemma closes_only_not_open: "closes_only w now db db' \<Longrightarrow> not_open db k \<Longrightarrow> not_open db' k"
  unfolding closes_only_def not_open_def by (elim conjE allE [where x = k]) auto

lemma expire_task_not_open: "not_open (tk_db (expire_task now stamps t m)) (lower (taskId m))"
  unfolding expire_task_db Let_def
  by (auto simp: tryExpire_lower not_open_def put_state_def clearCascade_def clearOffer_def closed_state_def
      split: option.split)

lemma sweep_open_past:
  assumes "deadline m = Some dl" "dl \<noteq> 0" "dl + EXPIRY_GRACE_SEC \<le> now div 1000"
  shows "not_open (tk_db (sweep_open_task w now (now div 1000) stamps (m, s) t)) (lower (taskId m))"
proof -
  have "find_deadline w now t m = (Some dl, t)"
    using assms by (simp add: find_deadline_def known_deadline_def Let_def)
  with assms expire_task_not_open show ?thesis by (simp add: sweep_open_task_def Let_def)
qed

lemma closes_only_start:
  assumes "closes_only w now db' db''" "metas db' = metas db" "states db' = states db" "deadlines db' = deadlines db"
  shows "closes_only w now db db''"
proof -
  have "may_close w db' now k reason = may_close w db now k reason" for k reason
    using assms by (simp add: may_close_def deadline_known_def getCachedDeadline_def
        resolve_cong [OF assms(2)] split: expire_reason.split)
  with assms show ?thesis by (simp add: closes_only_def getCachedDeadline_def)
qed

lemma sweep_runs:
  assumes "writesAllowed" "\<not> ex_inFlight s"
  shows "ex_store (sweepExpiredTasks writesAllowed w now endMs keys ids stamps s) =
    tk_db (fold (sweep_open_task w now (now div 1000) stamps)
      (listOpenTasks (snd (resyncOpenIndex (ex_store s) keys)) ids)
      (start_tick (s\<lparr>ex_store := snd (resyncOpenIndex (ex_store s) keys), ex_inFlight := True\<rparr>)))"
  using assms by (simp add: sweepExpiredTasks_def Let_def)

lemma resync_kept:
  "metas (snd (resyncOpenIndex db keys)) = metas db" "states (snd (resyncOpenIndex db keys)) = states db"
  "deadlines (snd (resyncOpenIndex db keys)) = deadlines db"
  by (simp_all add: resyncOpenIndex_def Let_def)

text \<open>
  C29. One tick closes exactly what it may. Whatever the chain answers, a state it changes was
  open and is failed after it, and the reason holds: the task's deadline, of its meta, cached or
  read from an escrow entry that carries its own hash, and the grace are over, or the search for
  its escrow came back empty. A tick that runs leaves no listed task open whose meta names a
  deadline that is over.
\<close>

theorem sweep_closes_exactly_what_expired:
  "let db = ex_store s; db' = ex_store (sweepExpiredTasks writesAllowed w now endMs keys ids stamps s) in
    (\<forall>k. states db' k = states db k \<or>
      (\<exists>st reason. states db k = Some st \<and> status st = Open \<and>
         states db' k = Some (closed_state st reason) \<and> may_close w db now k reason)) \<and>
    (writesAllowed \<and> \<not> ex_inFlight s \<longrightarrow>
      (\<forall>(m, st) \<in> set (listOpenTasks (snd (resyncOpenIndex db keys)) ids).
         \<forall>dl. deadline m = Some dl \<and> dl \<noteq> 0 \<and> dl + EXPIRY_GRACE_SEC \<le> now div 1000 \<longrightarrow>
           not_open db' (lower (taskId m))))"
proof (cases "writesAllowed \<and> \<not> ex_inFlight s")
  case False
  then have "ex_store (sweepExpiredTasks writesAllowed w now endMs keys ids stamps s) = ex_store s"
    by (auto simp: sweepExpiredTasks_def)
  with False show ?thesis by (auto simp: Let_def)
next
  case True
  let ?db = "snd (resyncOpenIndex (ex_store s) keys)"
  let ?t = "start_tick (s\<lparr>ex_store := ?db, ex_inFlight := True\<rparr>)"
  let ?es = "listOpenTasks ?db ids" and ?f = "sweep_open_task w now (now div 1000) stamps"
  let ?after = "ex_store (sweepExpiredTasks writesAllowed w now endMs keys ids stamps s)"
  have run: "?after = tk_db (fold ?f ?es ?t)" using True by (simp add: sweep_runs)
  have metas: "\<forall>e \<in> set ?es. fst e \<in> ran (metas ?db)" using listed_meta by force
  have t: "tk_db ?t = ?db" by (simp add: start_tick_def)
  then have "closes_only w now ?db ?after"
    unfolding run using metas by (intro fold_closes) (simp_all add: closes_only_refl)
  then have "closes_only w now (ex_store s) ?after"
    by (rule closes_only_start) (simp_all add: resync_kept)
  moreover have "not_open ?after (lower (taskId m))"
    if e: "(m, st) \<in> set ?es" and dl: "deadline m = Some dl" "dl \<noteq> 0" "dl + EXPIRY_GRACE_SEC \<le> now div 1000"
    for m st dl
  proof -
    from e obtain es1 es2 where es: "?es = es1 @ (m, st) # es2" by (meson split_list)
    let ?u = "?f (m, st) (fold ?f es1 ?t)"
    have "closes_only w now ?db (tk_db ?u)"
      using fold_closes [of w now ?db ?t "es1 @ [(m, st)]" stamps] metas t by (auto simp: es closes_only_refl)
    then have "metas (tk_db ?u) = metas ?db" by (simp add: closes_only_def)
    then have "closes_only w now (tk_db ?u) (tk_db (fold ?f es2 ?u))"
      using metas by (intro fold_closes) (simp_all add: es closes_only_refl)
    with sweep_open_past [OF dl] show ?thesis unfolding run es
      by (simp add: closes_only_not_open)
  qed
  ultimately show ?thesis unfolding Let_def closes_only_def by blast
qed

text \<open>A task to evaluate on: posted with a deadline at second 100, no chain answering.\<close>

definition quiet_world :: world where
  "quiet_world =
     \<lparr>w_cfg = testnet_config, w_baseEscrow = True,
      w_index = (\<lambda>_. \<lparr>ti_cached = (\<lambda>_. None), ti_resolve = (\<lambda>_. None)\<rparr>),
      w_getTaskOn = (\<lambda>_ _. None), w_provider = (\<lambda>_. True), w_receipt = (\<lambda>_ _. None),
      w_known = (\<lambda>_ _. None), w_smartAccount = (\<lambda>_. None), w_sponsorHint = (\<lambda>_. False),
      w_reconcileMin = 0, w_droppedMin = 0\<rparr>"

definition idle :: "a2a_db \<Rightarrow> expiry_state" where
  "idle db =
     \<lparr>ex_store = db, ex_notifs = empty_notif_db, ex_seenCache = [], ex_heavyAttempted = {},
      ex_inFlight = False, ex_missedInFlight = False, ex_lastMissedScan = 0,
      ex_gasInFlight = False, ex_emitted = []\<rparr>"

definition due_db :: a2a_db where
  "due_db = setMeta empty_db (sample_meta\<lparr>deadline := Some 100\<rparr>)"

lemma due_db_sel:
  "states due_db = [''t1'' \<mapsto> bare_state ''t1'' Open]"
  "metas due_db = [''t1'' \<mapsto> sample_meta\<lparr>deadline := Some 100, taskId := ''t1''\<rparr>]"
  by (simp_all add: due_db_def setMeta_def find_state_def empty_db_def Let_def)

theorem sweep_closes_exactly_what_expired_witness:
  "not_open (ex_store (sweepExpiredTasks True quiet_world 160000 160000 [''t1''] [''t1'']
     (\<lambda>_. (''i'', ''t'')) (idle due_db))) ''t1''"
proof -
  let ?e = "(sample_meta\<lparr>deadline := Some 100, taskId := ''t1''\<rparr>, bare_state ''t1'' Open)"
  have "?e \<in> set (listOpenTasks (snd (resyncOpenIndex (ex_store (idle due_db)) [''t1''])) [''t1''])"
    by (simp add: idle_def listOpenTasks_def loadTasksByIndex_def map_filter_def load_pair_def
        resync_kept due_db_sel listable_def)
  with sweep_closes_exactly_what_expired [of "idle due_db" True quiet_world 160000 160000 "[''t1'']"
    "[''t1'']" "\<lambda>_. (''i'', ''t'')"]
  show ?thesis by (force simp: Let_def idle_def EXPIRY_GRACE_SEC_def)
qed

text \<open>
  A task whose chain has since moved to another network, listed without a deadline, is
  closed as never created although no index and no escrow was asked about it.
\<close>

theorem retired_task_closed_unread:
  assumes meta: "metas (tk_db t) (lower (taskId m)) = Some m"
    and retired: "\<not> onCurrentNetwork (w_cfg w) (chain m) (chainId m)"
    and unknown: "known_deadline (tk_db t) now m = 0"
    and opened: "states (tk_db t) (lower (taskId m)) = Some s" "status s = Open"
    and fresh: "\<not> tk_heavyUsed t" "lower (taskId m) \<notin> ex_heavyAttempted (tk_state t)"
  shows "states (tk_db (sweep_open_task w now nowSec stamps (m, s) t)) (lower (taskId m)) =
     Some (closed_state s Unindexed)"
proof -
  let ?k = "lower (taskId m)"
  have "recordedChain (w_cfg w) (tk_db t) ?k = Retired"
    using meta retired by (simp add: recordedChain_def getMeta_def find_meta_def)
  then have "resolve w (tk_db t) ?k = Some None" "resolve_cached w (tk_db t) ?k = None"
    by (simp_all add: resolve_def resolve_cached_def resolveTaskByHash_def resolveCachedTaskByHash_def)
  with unknown fresh opened show ?thesis
    by (simp add: sweep_open_task_def find_deadline_def heavy_resolve_def tryExpire_lower put_state_def Let_def)
qed

definition retired_db :: a2a_db where
  "retired_db = setMeta empty_db (sample_meta\<lparr>chain := Some ''base'', chainId := Some 8453\<rparr>)"

theorem retired_task_closed_unread_witness:
  "states (tk_db (sweep_open_task quiet_world 0 0 (\<lambda>_. (''i'', ''t''))
     (sample_meta\<lparr>chain := Some ''base'', chainId := Some 8453, taskId := ''t1''\<rparr>, bare_state ''t1'' Open)
     (start_tick (idle retired_db)))) ''t1'' = Some (closed_state (bare_state ''t1'' Open) Unindexed)"
proof -
  let ?m = "sample_meta\<lparr>chain := Some ''base'', chainId := Some 8453, taskId := ''t1''\<rparr>"
  let ?t = "start_tick (idle retired_db)"
  have db: "tk_db ?t = retired_db" by (simp add: start_tick_def idle_def)
  have sel: "states retired_db = [''t1'' \<mapsto> bare_state ''t1'' Open]" "metas retired_db = [''t1'' \<mapsto> ?m]"
    "deadlines retired_db = Map.empty"
    by (simp_all add: retired_db_def setMeta_def find_state_def empty_db_def Let_def)
  have "\<not> onCurrentNetwork (w_cfg quiet_world) (chain ?m) (chainId ?m)"
    by (simp add: quiet_world_def onCurrentNetwork_def chain_key_of_def SETTLEMENT_CHAIN_KEYS_def
        testnet_config_def build_base_def Let_def)
  moreover have "known_deadline (tk_db ?t) 0 ?m = 0"
    by (simp add: db known_deadline_def getCachedDeadline_def sel kv_get_def sample_meta_def)
  ultimately show ?thesis
    using retired_task_closed_unread [of ?t ?m quiet_world 0 "bare_state ''t1'' Open" 0 "\<lambda>_. (''i'', ''t'')"]
    unfolding db by (simp add: sel start_tick_def idle_def)
qed

section \<open>Gas liveness\<close>

text \<open>
  What the sweep needs to hand a task back: still funded, and no live transaction. A transaction
  is dead once it has a receipt that is no success, or once the node, asked again after the
  longer time, knows neither a receipt nor the transaction.
\<close>

definition dead_for_the_node :: "world \<Rightarrow> chain_key \<Rightarrow> string \<Rightarrow> int \<Rightarrow> bool" where
  "dead_for_the_node w c tx age \<longleftrightarrow>
     w_provider w c \<and>
     ((\<exists>rcpt. w_receipt w c tx = Some (Some rcpt) \<and> rcpt \<noteq> Succeeded) \<or>
      w_receipt w c tx = Some None \<and> w_known w c tx = Some False \<and>
      ASSIGN_DROPPED_AFTER_MS w \<le> of_int age)"

lemma tx_is_dead_iff: "tx_is_dead w c tx age \<longleftrightarrow> dead_for_the_node w c tx age"
  by (auto simp: tx_is_dead_def dead_for_the_node_def not_less split: option.splits)

definition may_reopen :: "world \<Rightarrow> a2a_db \<Rightarrow> int \<Rightarrow> string \<Rightarrow> task_state \<Rightarrow> bool" where
  "may_reopen w db now k s \<longleftrightarrow>
     status s = Accepted \<and>
     (\<exists>tid r task. lower tid = k \<and> read_resolved w db tid = Some (r, task) \<and> oc_status task = EsFunded \<and>
        (case truthy (assignTxHash s) of
           None \<Rightarrow> accept_age now s \<le> 5 * 60000
         | Some tx \<Rightarrow> ASSIGN_RECONCILE_AFTER_MS w \<le> of_int (tx_age db now tid s tx) \<and>
             dead_for_the_node w (rt_chain r) tx (tx_age db now tid s tx)))"

definition cleared :: "string \<Rightarrow> task_state \<Rightarrow> task_state" where
  "cleared k s = s\<lparr>assignError := None, stateTaskId := k\<rparr>"

definition reopens_only :: "world \<Rightarrow> int \<Rightarrow> a2a_db \<Rightarrow> a2a_db \<Rightarrow> bool" where
  "reopens_only w now db db' \<longleftrightarrow>
     metas db' = metas db \<and> assign_broadcast db' = assign_broadcast db \<and>
     (\<forall>k. states db' k = states db k \<or>
        (\<exists>s. states db k = Some s \<and>
           (states db' k = Some (cleared k s) \<or>
            states db' k = Some (bare_state k Open) \<and> may_reopen w db now k s)))"

lemma find_state_lower: "states db (lower tid) = Some s \<Longrightarrow> find_state db tid = Some (lower tid, s)"
  by (simp add: find_state_def)

lemma release_change:
  fixes w db tid e
  assumes "states db (lower tid) = Some s"
  shows "let db' = fst (snd (releaseIfUnchanged w db tid e)) in
    metas db' = metas db \<and> assign_broadcast db' = assign_broadcast db \<and>
    (states db' = states db \<or>
     unchanged_since e s \<and> states db' = (states db)(lower tid \<mapsto> bare_state (lower tid) Open))"
  using find_state_lower [OF assms]
  by (simp add: releaseIfUnchanged_def tryReleaseAccepted_def release_script_def put_state_def Let_def
      split: option.split)

lemma clear_change:
  assumes "states db (lower tid) = Some s" "updateState db tid [PAssignError None] = Inr (s', db')"
  shows "metas db' = metas db \<and> assign_broadcast db' = assign_broadcast db \<and>
    states db' = (states db)(lower tid \<mapsto> cleared (lower tid) s)"
  using assms(2) find_state_lower [OF assms(1)]
  by (auto simp: updateState_def put_state_def apply_patch_def cleared_def Let_def)

lemma mark_change:
  "metas (markAssignReconciled db now tid tx) = metas db"
  "assign_broadcast (markAssignReconciled db now tid tx) = assign_broadcast db"
  "states (markAssignReconciled db now tid tx) = states db"
  by (simp_all add: markAssignReconciled_def)

text \<open>One candidate: its state is kept, its error cleared, or it is handed back for cause.\<close>

definition one_change :: "world \<Rightarrow> int \<Rightarrow> string \<Rightarrow> task_state \<Rightarrow> a2a_db \<Rightarrow> a2a_db \<Rightarrow> bool" where
  "one_change w now k s db db' \<longleftrightarrow>
     metas db' = metas db \<and> assign_broadcast db' = assign_broadcast db \<and>
     (states db' = states db \<or>
      truthy (assignTxHash s) \<noteq> None \<and> states db' = (states db)(k \<mapsto> cleared k s) \<or>
      may_reopen w db now k s \<and> states db' = (states db)(k \<mapsto> bare_state k Open))"

lemma reconcile_change:
  assumes s: "states db (lower tid) = Some s" and tx: "truthy (assignTxHash s) = Some tx"
    and age: "ASSIGN_RECONCILE_AFTER_MS w \<le> of_int (tx_age db now tid s tx)"
  shows "one_change w now (lower tid) s db
    (fst (snd (reconcileBroadcastAssignment w db now tid ex tx err (tx_age db now tid s tx))))"
proof (cases "read_resolved w db tid")
  case (Some p)
  obtain r task where p: "p = (r, task)" by (cases p)
  show ?thesis
  proof (cases "oc_status task = EsFunded")
    case True
    let ?e = "\<lparr>exp_executor = ex, exp_tx = Some tx, exp_status = None\<rparr>"
    have "may_reopen w db now (lower tid) s"
      if "unchanged_since ?e s" "tx_is_dead w (rt_chain r) tx (tx_age db now tid s tx)"
      using that Some p True tx age
      by (auto simp: tx_is_dead_iff may_reopen_def unchanged_since_def expected_status_def)
    then show ?thesis
      using Some p True release_change [OF s, of w ?e]
      by (auto simp: reconcileBroadcastAssignment_def one_change_def Let_def)
  next
    case False
    show ?thesis
    proof (cases "updateState db tid [PAssignError None]")
      case (Inl x)
      with Some p False show ?thesis
        by (simp add: reconcileBroadcastAssignment_def one_change_def mark_change)
    next
      case (Inr q)
      obtain s' db' where q: "q = (s', db')" by (cases q)
      from clear_change [OF s] Inr q tx Some p False show ?thesis
        by (simp add: reconcileBroadcastAssignment_def one_change_def mark_change)
    qed
  qed
qed (simp add: reconcileBroadcastAssignment_def one_change_def)

lemma unsent_change:
  assumes s: "states db (lower tid) = Some s" and tx: "truthy (assignTxHash s) = None"
    and age: "accept_age now s \<le> 5 * 60000"
  shows "one_change w now (lower tid) s db (fst (snd (reconcile_unsent w db tid ex listed)))"
proof (cases "read_resolved w db tid")
  case (Some p)
  obtain r task where p: "p = (r, task)" by (cases p)
  let ?e = "\<lparr>exp_executor = (if ex = None then listed else ex), exp_tx = None, exp_status = None\<rparr>"
  have "may_reopen w db now (lower tid) s" if "unchanged_since ?e s" "oc_status task = EsFunded"
    using that Some p tx age by (auto simp: tx_is_dead_iff may_reopen_def unchanged_since_def expected_status_def)
  then show ?thesis
    using Some p release_change [OF s, of w ?e]
    by (auto simp: reconcile_unsent_def one_change_def Let_def)
qed (simp add: reconcile_unsent_def one_change_def)

lemma one_change_refl: "one_change w now k s db db"
  by (simp add: one_change_def)

lemma apply_release_db: "gt_db (apply_release g r) = fst (snd r)"
  by (simp add: apply_release_def)

lemma gas_candidate_change:
  assumes s: "states (gt_db g) (lower tid) = Some s"
  shows "one_change w now (lower tid) s (gt_db g) (gt_db (gas_candidate w now (tid, listed) g))"
proof (cases "truthy (assignTxHash s)")
  case None
  then have "gas_candidate w now (tid, listed) g =
      (if getSettlementDeadlineTTL (gt_db g) now tid \<noteq> -2 \<or> 5 * 60000 < accept_age now s then g
       else apply_release g (reconcile_unsent w (gt_db g) tid (executorAddress s) listed))"
    using s by (simp add: gas_candidate_def Let_def)
  with unsent_change [OF s None] show ?thesis
    by (simp add: apply_release_db one_change_refl not_less)
next
  case (Some tx)
  let ?age = "tx_age (gt_db g) now tid s tx"
  define ex where "ex = (if executorAddress s = None then listed else executorAddress s)"
  let ?r = "reconcileBroadcastAssignment w (gt_db g) now tid ex tx (truthy (assignError s) \<noteq> None) ?age"
  have "gas_candidate w now (tid, listed) g =
      (if getSettlementDeadlineTTL (gt_db g) now tid \<noteq> -2 \<or> of_int ?age < ASSIGN_RECONCILE_AFTER_MS w \<or>
          MAX_ASSIGN_RECONCILES_PER_TICK \<le> gt_reconciles g \<or> isAssignReconciled (gt_db g) now tid tx
       then g else apply_release (g\<lparr>gt_reconciles := gt_reconciles g + 1\<rparr>) ?r)"
    using s Some unfolding gas_candidate_def Let_def by (simp add: ex_def)
  moreover have "one_change w now (lower tid) s (gt_db g) (fst (snd ?r))"
    if "\<not> of_int ?age < ASSIGN_RECONCILE_AFTER_MS w"
    using reconcile_change [OF s Some] that by (simp only: not_less)
  ultimately show ?thesis by (simp add: apply_release_db one_change_refl)
qed

lemma tx_age_cong:
  "assign_broadcast db' = assign_broadcast db \<Longrightarrow> tx_age db' now tid s tx = tx_age db now tid s tx"
  by (simp add: tx_age_def getAssignBroadcastAt_def)

lemma read_resolved_cong: "metas db' = metas db \<Longrightarrow> read_resolved w db' tid = read_resolved w db tid"
  unfolding read_resolved_def by (simp only: resolve_cong [of db' db])

lemma may_reopen_cong:
  assumes "metas db' = metas db" "assign_broadcast db' = assign_broadcast db"
    "status s' = status s" "assignTxHash s' = assignTxHash s" "acceptedAt s' = acceptedAt s"
  shows "may_reopen w db' now k s' = may_reopen w db now k s"
proof -
  have "accept_age now s' = accept_age now s" using assms by (simp add: accept_age_def)
  then have "tx_age db' now tid s' tx = tx_age db now tid s tx" for tid tx
    using assms by (simp add: tx_age_def getAssignBroadcastAt_def split: option.split)
  with \<open>accept_age now s' = accept_age now s\<close> assms show ?thesis
    unfolding may_reopen_def by (simp only: read_resolved_cong [OF assms(1)])
qed

lemma reopens_only_step:
  assumes r: "reopens_only w now db db'" and s: "states db' k = Some s" and c: "one_change w now k s db' db''"
  shows "reopens_only w now db db''"
proof -
  have kept: "metas db' = metas db" "assign_broadcast db' = assign_broadcast db"
    using r by (simp_all add: reopens_only_def)
  have "states db'' j = states db j \<or> (\<exists>t. states db j = Some t \<and>
      (states db'' j = Some (cleared j t) \<or> states db'' j = Some (bare_state j Open) \<and> may_reopen w db now j t))" for j
  proof (cases "j = k \<and> states db'' \<noteq> states db'")
    case False
    then have "states db'' j = states db' j" using c by (auto simp: one_change_def)
    with r show ?thesis by (simp add: reopens_only_def)
  next
    case True
    then have j: "j = k" and ch: "truthy (assignTxHash s) \<noteq> None \<and> states db'' k = Some (cleared k s) \<or>
        may_reopen w db' now k s \<and> states db'' k = Some (bare_state k Open)"
      using c by (auto simp: one_change_def)
    from r have "states db' k = states db k \<or> (\<exists>t. states db k = Some t \<and>
      (states db' k = Some (cleared k t) \<or> states db' k = Some (bare_state k Open)))"
      unfolding reopens_only_def by blast
    then obtain t where t: "states db k = Some t" "s = t \<or> s = cleared k t \<or> s = bare_state k Open"
      unfolding s by (metis option.inject)
    from t(2) show ?thesis
    proof (elim disjE)
      assume "s = bare_state k Open"
      with ch show ?thesis by (simp add: may_reopen_def)
    next
      assume [simp]: "s = t"
      show ?thesis using ch t(1) may_reopen_cong [OF kept, of t t] by (auto simp: j)
    next
      assume [simp]: "s = cleared k t"
      have "cleared k s = cleared k t" by (simp add: cleared_def)
      moreover have "may_reopen w db' now k s = may_reopen w db now k t"
        by (rule may_reopen_cong [OF kept]) (simp_all add: cleared_def)
      ultimately show ?thesis using ch t(1) by (auto simp: j)
    qed
  qed
  moreover have "metas db'' = metas db" "assign_broadcast db'' = assign_broadcast db"
    using c kept by (simp_all add: one_change_def)
  ultimately show ?thesis by (simp add: reopens_only_def)
qed

lemma fold_reopens:
  assumes "reopens_only w now db (gt_db g)"
  shows "reopens_only w now db (gt_db (fold (gas_candidate w now) es g))"
  using assms
proof (induction es arbitrary: g)
  case (Cons e es)
  obtain tid listed where e: "e = (tid, listed)" by (cases e)
  have "reopens_only w now db (gt_db (gas_candidate w now e g))"
  proof (cases "states (gt_db g) (lower tid)")
    case None
    then have "gas_candidate w now e g = g" by (simp add: gas_candidate_def e Let_def)
    with Cons.prems show ?thesis by simp
  next
    case (Some s)
    from reopens_only_step [OF Cons.prems Some gas_candidate_change [OF Some]] show ?thesis by (simp add: e)
  qed
  with Cons.IH show ?case by simp
qed simp


section \<open>The indexes\<close>

lemma index_ok_heavy:
  "index_ok (tk_db t) \<Longrightarrow> index_ok (tk_db (snd (heavy_resolve w t tid)))"
  by (simp add: heavy_resolve_def Let_def index_ok_expire split: option.split)

lemma index_ok_cache: "index_ok db \<Longrightarrow> index_ok (cacheDeadline db now tid d)"
  by (erule index_ok_cong) (simp_all add: cacheDeadline_def Let_def)

lemma index_ok_find_deadline:
  assumes "index_ok (tk_db t)" shows "index_ok (tk_db (snd (find_deadline w now t m)))"
  using assms index_ok_heavy [OF assms, of w "lower (taskId m)"]
  by (auto simp: find_deadline_def backfill_deadline_def Let_def index_ok_cache split: option.split)

lemma index_ok_expire_task:
  assumes "index_ok (tk_db t)" shows "index_ok (tk_db (expire_task now stamps t m))"
proof -
  have "index_ok (clearCascade (clearOffer (snd (tryExpire (tk_db t) k Expired)) k) k)" for k
    using index_ok_expire [OF assms, of k Expired]
    by (rule index_ok_cong) (simp_all add: clearCascade_def clearOffer_def)
  with assms show ?thesis by (simp add: expire_task_db Let_def)
qed

lemma index_ok_sweep_open:
  assumes "index_ok (tk_db t)" shows "index_ok (tk_db (sweep_open_task w now nowSec stamps e t))"
  using index_ok_find_deadline [OF assms]
  by (simp add: sweep_open_task_def Let_def index_ok_expire_task split: option.split)

lemma index_ok_releaseIfUnchanged:
  "index_ok db \<Longrightarrow> index_ok (fst (snd (releaseIfUnchanged w db tid e)))"
  using index_ok_release [of db tid e]
  by (auto simp: releaseIfUnchanged_def split: prod.split sum.split cas.split)

lemma index_ok_mark: "index_ok db \<Longrightarrow> index_ok (markAssignReconciled db now tid tx)"
  by (erule index_ok_cong) (simp_all add: mark_change, simp_all add: markAssignReconciled_def)

lemma index_ok_clear_error:
  assumes ok: "index_ok db" and upd: "updateState db tid [PAssignError None] = Inr (s', db')"
  shows "index_ok db'"
proof (rule index_ok_update [OF ok upd])
  fix m s assume m: "metas db (lower tid) = Some m" and s: "states db (lower tid) = Some s"
  from ok s obtain n where "metas db (lower tid) = Some n" "mode_ok n s" "untaken_ok s"
    by (rule index_ok_state)
  with m show "patch_allowed m [PAssignError None] s"
    by (simp add: patch_allowed_def apply_patch_def mode_ok_def untaken_ok_def)
qed

lemma index_ok_reconcile:
  assumes ok: "index_ok db"
  shows "index_ok (fst (snd (reconcileBroadcastAssignment w db now tid ex tx err age)))"
proof (cases "updateState db tid [PAssignError None]")
  case (Inl x)
  then show ?thesis using ok
    by (simp add: reconcileBroadcastAssignment_def index_ok_mark index_ok_releaseIfUnchanged
        split: option.split prod.split)
next
  case (Inr q)
  obtain s' db' where q: "q = (s', db')" by (cases q)
  from ok Inr q have "index_ok db'" by (auto intro: index_ok_clear_error)
  with Inr q ok show ?thesis
    by (simp add: reconcileBroadcastAssignment_def index_ok_mark index_ok_releaseIfUnchanged
        split: option.split prod.split)
qed

lemma index_ok_unsent:
  "index_ok db \<Longrightarrow> index_ok (fst (snd (reconcile_unsent w db tid ex listed)))"
  by (simp add: reconcile_unsent_def index_ok_releaseIfUnchanged split: option.split prod.split)

lemma index_ok_gas_candidate:
  "index_ok (gt_db g) \<Longrightarrow> index_ok (gt_db (gas_candidate w now e g))"
  by (simp add: gas_candidate_def Let_def apply_release_db index_ok_reconcile index_ok_unsent
      split: option.split)

lemma fold_keeps: "P x \<Longrightarrow> (\<And>e x. P x \<Longrightarrow> P (f e x)) \<Longrightarrow> P (fold f es x)"
  by (induction es arbitrary: x) auto

lemma sweep_missed_store: "tk_db (sweep_missed_task w now nowSec stamps e t) = tk_db t"
  by (simp add: sweep_missed_task_def Let_def split: option.split)

text \<open>
  The sweeps keep the store's indexes exact: run on a store whose open and executor indexes
  track its states, with the scan of its state keys the tick asked for, each leaves such a store,
  whatever the chain answers and whichever tasks the index listed. The scan for missed
  deadlines writes nothing to it.
\<close>

theorem sweeps_keep_indexes:
  assumes ok: "index_ok (ex_store s)" and keys: "scan_of (ex_store s) keys"
  shows "index_ok (ex_store (sweepExpiredTasks writesAllowed w now endMs keys ids stamps s)) \<and>
    index_ok (ex_store (sweepGasLiveness writesAllowed w now keys s)) \<and>
    ex_store (snd (sweepMissedDeadlines writesAllowed w now keys stamps s)) = ex_store s"
proof (intro conjI)
  have "index_ok (tk_db (fold (sweep_open_task w now (now div 1000) stamps) es
      (start_tick (s\<lparr>ex_store := ex_store s, ex_inFlight := True\<rparr>))))" for es
    by (rule fold_keeps [where P = "\<lambda>t. index_ok (tk_db t)"])
      (use ok in \<open>simp_all add: start_tick_def index_ok_sweep_open\<close>)
  then show "index_ok (ex_store (sweepExpiredTasks writesAllowed w now endMs keys ids stamps s))"
    using ok sweep_runs [of writesAllowed s w now endMs keys ids stamps]
    by (cases "writesAllowed \<and> \<not> ex_inFlight s")
      (simp add: resync_no_drift [OF ok keys], auto simp: sweepExpiredTasks_def)
  have "index_ok (gt_db (fold (gas_candidate w now) es
      \<lparr>gt_db = ex_store s, gt_emitted = ex_emitted s, gt_reverted = 0, gt_reconciles = 0\<rparr>))" for es
    by (rule fold_keeps [where P = "\<lambda>g. index_ok (gt_db g)"])
      (use ok in \<open>simp_all add: index_ok_gas_candidate\<close>)
  then show "index_ok (ex_store (sweepGasLiveness writesAllowed w now keys s))"
    using ok by (simp add: sweepGasLiveness_def Let_def)
  have "tk_db (fold (sweep_missed_task w now (now div 1000) stamps) es
      (start_tick (s\<lparr>ex_missedInFlight := True, ex_lastMissedScan := now\<rparr>))) = ex_store s" for es
    by (rule fold_keeps [where P = "\<lambda>t. tk_db t = ex_store s"])
      (simp_all add: start_tick_def sweep_missed_store)
  then show "ex_store (snd (sweepMissedDeadlines writesAllowed w now keys stamps s)) = ex_store s"
    by (simp add: sweepMissedDeadlines_def Let_def)
qed

theorem sweeps_keep_indexes_witness:
  "index_ok (ex_store (sweepGasLiveness True quiet_world 200000 [''t1''] (idle accepted_db)))"
proof -
  have "index_ok (ex_store (idle accepted_db))" "scan_of (ex_store (idle accepted_db)) [''t1'']"
    using reachable_index_ok [OF accepted_db_reachable]
    by (auto simp: idle_def scan_of_def accepted_db_def snd_tryAccept accept_script_def posted_db_find
        put_state_def posted_db_sel Let_def)
  from sweeps_keep_indexes [OF this] show ?thesis by blast
qed

section \<open>Reminders\<close>

definition sent :: "notif_db \<Rightarrow> int \<Rightarrow> string \<Rightarrow> bool" where
  "sent db now k \<longleftrightarrow> kv_get now (once db) k \<noteq> None"

definition due :: "int \<Rightarrow> reminder_candidate \<Rightarrow> int \<Rightarrow> bool" where
  "due nowSec c window \<longleftrightarrow>
     dueReminderWindow nowSec (rc_deadline c) (rc_seen c) REMINDER_WINDOWS 0 = Some window"

definition nearly_due :: "int \<Rightarrow> reminder_candidate \<Rightarrow> int \<Rightarrow> bool" where
  "nearly_due nowSec c window \<longleftrightarrow>
     0 < rc_deadline c - nowSec \<and> rc_deadline c - nowSec \<le> window + REMINDER_PULL_AHEAD_SEC \<and>
     rc_seen c < rc_deadline c - window"

definition key_of :: "reminder_candidate \<Rightarrow> int \<Rightarrow> string" where
  "key_of c window = remind_key (rc_tid c) window"

lemma remind_sent:
  "fst (remind db now nowSec stamps c window) \<longleftrightarrow> \<not> sent db now (key_of c window)"
  "sent (snd (remind db now nowSec stamps c window)) now k \<longleftrightarrow> sent db now k \<or> k = key_of c window"
  by (auto simp: remind_def notifyOnce_def claim_once_def sent_def key_of_def notify_def push_def
      kv_setnx_def kv_get_def FEED_TTL_S_def Let_def split: if_splits option.splits)

definition marks_of :: "marks \<Rightarrow> string \<Rightarrow> int set" where
  "marks_of m p = (case m p of None \<Rightarrow> {} | Some ws \<Rightarrow> ws)"

lemma marks_of_add: "marks_of (add_mark m p w) q = (if q = lower p then insert w (marks_of m q) else marks_of m q)"
  by (simp add: marks_of_def add_mark_def)

lemma remind_due_spec:
  "(\<forall>k. sent (snd (snd (remind_due db now nowSec stamps m cs))) now k \<longleftrightarrow>
      sent db now k \<or> (\<exists>c \<in> set cs. \<exists>w. due nowSec c w \<and> k = key_of c w)) \<and>
   set (fst (snd (remind_due db now nowSec stamps m cs))) \<subseteq> set cs \<and>
   (\<forall>p w. w \<in> marks_of (fst (remind_due db now nowSec stamps m cs)) p \<longrightarrow>
      w \<in> marks_of m p \<or>
      (\<exists>c \<in> set cs. lower (rc_poster c) = p \<and> due nowSec c w \<and> \<not> sent db now (key_of c w)))"
proof (induction db now nowSec stamps m cs rule: remind_due.induct)
  case (2 db now nowSec stamps m c cs)
  show ?case
  proof (cases "dueReminderWindow nowSec (rc_deadline c) (rc_seen c) REMINDER_WINDOWS 0")
    case None
    from 2(1) [OF None] None show ?thesis by (fastforce simp: due_def Let_def)
  next
    case (Some w)
    have d: "due nowSec c v \<longleftrightarrow> v = w" for v using Some by (auto simp: due_def)
    let ?r = "remind db now nowSec stamps c w"
    let ?m = "if fst ?r then add_mark m (rc_poster c) w else m"
    have eq: "remind_due db now nowSec stamps m (c # cs) = remind_due (snd ?r) now nowSec stamps ?m cs"
      by (simp add: Some Let_def)
    have mk: "v \<in> marks_of ?m p \<Longrightarrow>
        v \<in> marks_of m p \<or> lower (rc_poster c) = p \<and> due nowSec c v \<and> \<not> sent db now (key_of c v)" for v p
      by (auto simp: d marks_of_add remind_sent split: if_splits)
    note IH = 2(2) [OF Some refl]
    show ?thesis unfolding eq
    proof (intro conjI)
      show "\<forall>k. sent (snd (snd (remind_due (snd ?r) now nowSec stamps ?m cs))) now k \<longleftrightarrow>
          sent db now k \<or> (\<exists>c \<in> set (c # cs). \<exists>w. due nowSec c w \<and> k = key_of c w)"
        using IH by (simp add: remind_sent d)
      show "set (fst (snd (remind_due (snd ?r) now nowSec stamps ?m cs))) \<subseteq> set (c # cs)"
        using IH by auto
      have more: "\<not> sent (snd ?r) now k \<Longrightarrow> \<not> sent db now k" for k by (simp add: remind_sent)
      show "\<forall>p v. v \<in> marks_of (fst (remind_due (snd ?r) now nowSec stamps ?m cs)) p \<longrightarrow>
          v \<in> marks_of m p \<or> (\<exists>c \<in> set (c # cs). lower (rc_poster c) = p \<and> due nowSec c v \<and>
            \<not> sent db now (key_of c v))"
        using IH mk more by (meson list.set_intros)
    qed
  qed
qed simp

lemma window_loop_ahead:
  "window_loop remaining dl t0 ahead ws = Some w \<Longrightarrow>
   w \<in> rw_sec ` set ws \<and> remaining \<le> w + ahead \<and> t0 < dl - w"
  by (induction ws) (auto split: if_splits)

lemma remind_ahead_spec:
  "(\<forall>k. sent db now k \<longrightarrow> sent (remind_ahead db now nowSec stamps m cs) now k) \<and>
   (\<forall>k. sent (remind_ahead db now nowSec stamps m cs) now k \<longrightarrow>
      sent db now k \<or> (\<exists>c \<in> set cs. \<exists>w \<in> marks_of m (lower (rc_poster c)).
         nearly_due nowSec c w \<and> k = key_of c w))"
proof (induction db now nowSec stamps m cs rule: remind_ahead.induct)
  case (2 db now nowSec stamps m c cs)
  show ?case
  proof (cases "m (lower (rc_poster c))")
    case None
    from 2(1) [OF None] None show ?thesis by (fastforce simp: Let_def)
  next
    case (Some ws)
    let ?ws = "filter (\<lambda>w. rw_sec w \<in> ws) REMINDER_WINDOWS"
    show ?thesis
    proof (cases "dueReminderWindow nowSec (rc_deadline c) (rc_seen c) ?ws REMINDER_PULL_AHEAD_SEC")
      case None
      from 2(2) [OF Some None] Some None show ?thesis by (fastforce simp: Let_def)
    next
      case (Some w)
      then have "w \<in> rw_sec ` set ?ws \<and> nearly_due nowSec c w"
        by (auto simp: dueReminderWindow_def nearly_due_def Let_def dest: window_loop_ahead split: if_splits)
      then have w: "w \<in> marks_of m (lower (rc_poster c))" "nearly_due nowSec c w"
        using \<open>m (lower (rc_poster c)) = Some ws\<close> by (auto simp: marks_of_def)
      from 2(3) [OF \<open>m (lower (rc_poster c)) = Some ws\<close> Some] Some \<open>m (lower (rc_poster c)) = Some ws\<close> w
      show ?thesis by (auto simp: remind_sent)
    qed
  qed
qed simp

text \<open>
  One call reminds every poster of every mark that is due, and of nothing else early: a
  reminder newly recorded as sent is of a due mark, or of a mark at most a quarter of an hour
  away whose task the same poster owns and for which, on this very call, the same mark of
  another of their tasks was due and not yet reminded.
\<close>

theorem reminders_go_out_when_due:
  "let db' = sendReminders db now nowSec stamps cs in
   (\<forall>c \<in> set cs. \<forall>w. due nowSec c w \<longrightarrow> sent db' now (key_of c w)) \<and>
   (\<forall>k. sent db' now k \<and> \<not> sent db now k \<longrightarrow>
      (\<exists>c \<in> set cs. \<exists>w. k = key_of c w \<and>
         (due nowSec c w \<or>
          nearly_due nowSec c w \<and>
          (\<exists>d \<in> set cs. lower (rc_poster d) = lower (rc_poster c) \<and> due nowSec d w \<and>
             \<not> sent db now (key_of d w)))))"
proof -
  let ?r = "remind_due db now nowSec stamps Map.empty cs"
  have empty: "w \<notin> marks_of Map.empty p" for w p by (simp add: marks_of_def)
  note r = remind_due_spec [of db now nowSec stamps Map.empty cs]
  note a = remind_ahead_spec [of "snd (snd ?r)" now nowSec stamps "fst ?r" "fst (snd ?r)"]
  have s: "sendReminders db now nowSec stamps cs =
      remind_ahead (snd (snd ?r)) now nowSec stamps (fst ?r) (fst (snd ?r))"
    by (simp add: sendReminders_def Let_def)
  have "\<exists>c \<in> set cs. \<exists>w. k = key_of c w \<and> (due nowSec c w \<or> nearly_due nowSec c w \<and>
      (\<exists>d \<in> set cs. lower (rc_poster d) = lower (rc_poster c) \<and> due nowSec d w \<and> \<not> sent db now (key_of d w)))"
    if "sent (sendReminders db now nowSec stamps cs) now k" "\<not> sent db now k" for k
  proof (cases "sent (snd (snd ?r)) now k")
    case True
    with r that(2) show ?thesis by blast
  next
    case False
    with a that(1) obtain c w where c: "c \<in> set (fst (snd ?r))" "w \<in> marks_of (fst ?r) (lower (rc_poster c))"
      "nearly_due nowSec c w" "k = key_of c w"
      unfolding s by blast
    with r empty have "c \<in> set cs" "\<exists>d \<in> set cs. lower (rc_poster d) = lower (rc_poster c) \<and>
        due nowSec d w \<and> \<not> sent db now (key_of d w)"
      by blast+
    with c show ?thesis by blast
  qed
  moreover have "sent (sendReminders db now nowSec stamps cs) now (key_of c w)"
    if "c \<in> set cs" "due nowSec c w" for c w
    using r a that unfolding s by blast
  ultimately show ?thesis unfolding Let_def by blast
qed

theorem reminders_go_out_when_due_witness:
  "sent (sendReminders empty_notif_db 0 0 (\<lambda>_. (''i'', ''t''))
     [\<lparr>rc_poster = ''0xA'', rc_tid = ''t1'', rc_deadline = 3600, rc_status = Open, rc_seen = -1\<rparr>])
     0 (remind_key ''t1'' 3600)"
proof -
  let ?c = "\<lparr>rc_poster = ''0xA'', rc_tid = ''t1'', rc_deadline = 3600, rc_status = Open, rc_seen = -1\<rparr>"
  have "due 0 ?c 3600" by (simp add: due_def dueReminderWindow_def REMINDER_WINDOWS_def)
  with reminders_go_out_when_due [of empty_notif_db 0 0 "\<lambda>_. (''i'', ''t'')" "[?c]"]
  show ?thesis by (auto simp: Let_def key_of_def)
qed

end
