(* ===== verification/Identity.thy ===== *)
theory Identity
  imports Chains
begin

text \<open>
  \<open>services/deploymentIdentity.ts\<close>: which deployment owns this Redis, and whether this process may
  write shared state on its own initiative. The Redis is the identity record, readable or not,
  and the index keys the check looks at. What other processes write between a read and the SET
  NX that follows it is an argument. A reason is which sentence the code reports, with the keys
  it names; a chain list is kept in the order it has in the JSON text. A check that times out
  writes nothing more: the one SET it may already have sent to Redis is not modelled.
\<close>

section \<open>Records\<close>

text \<open>A chain's key, its chain id and its escrow.\<close>

type_synonym chain_facts = "(string \<times> int \<times> string) list"

record deployment_facts =
  df_tier :: "tier option"
  df_chains :: chain_facts

record identity_record =
  ir_id :: string
  ir_facts :: deployment_facts
  ir_stoppable :: "bool option"
  ir_claimedAt :: string
  ir_updatedAt :: string

datatype identity_role = Owner | NotOwner | Unset | Unknown

datatype reason =
    OtherChains string
  | OtherNetworkIndex "string list"
  | Unvouched "string list"
  | ClaimInvalid string
  | ClaimOfProduction string
  | ClaimOfBareHistory
  | ClaimMismatch string "string option"
  | Claimed string "string option"
  | TookBack string
  | OtherDeployment string
  | UnderProductionId string
  | DriftedProduction string
  | MovedChains string "string list"
  | RecordedMove "string list"
  | OtherIndex "string list"
  | BareHistory "string list"
  | Unreadable
  | ClaimedDespite "string list"
  | ClaimedHistory "string list"
  | NoAnswer
  | ProductionNeverStopped

record identity_status =
  is_deploymentId :: "string option"
  is_role :: identity_role
  is_owner :: "string option"
  is_writersAllowed :: bool
  is_stoppable :: bool
  is_reason :: "reason list"

text \<open>\<open>Self\<close>: who this process is.\<close>

record self_info =
  se_deploymentId :: "string option"
  se_facts :: deployment_facts
  se_stoppable :: bool
  se_claim :: "string option"

text \<open>The value of the identity key: a record this release reads, or anything else.\<close>

datatype stored = Readable identity_record | Garbage

record id_store =
  st_identity :: "stored option"
  st_keys :: "string \<rightharpoonup> string"

fun parseRecord :: "stored option \<Rightarrow> identity_record option" where
  "parseRecord (Some (Readable r)) = Some r"
| "parseRecord _ = None"

definition put_record :: "id_store \<Rightarrow> identity_record \<Rightarrow> id_store" where
  "put_record st r = st\<lparr>st_identity := Some (Readable r)\<rparr>"

section \<open>This process\<close>

definition claim_char :: "char \<Rightarrow> bool" where
  "claim_char c \<longleftrightarrow> c \<in> set ''abcdefghijklmnopqrstuvwxyz0123456789''"

text \<open>\<open>/^[a-z0-9][a-z0-9._-]{0,63}$/\<close>, and not a word that only says yes or no.\<close>

definition isValidClaim :: "string \<Rightarrow> bool" where
  "isValidClaim claim \<longleftrightarrow>
     lower claim \<notin> set [''true'', ''false'', ''yes'', ''no'', ''1'', ''0''] \<and>
     (case claim of
        [] \<Rightarrow> False
      | c # cs \<Rightarrow> claim_char c \<and> length cs \<le> 63 \<and>
          list_all (\<lambda>d. claim_char d \<or> d \<in> set ''._-'') cs)"

definition currentFacts :: "config \<Rightarrow> tier option \<Rightarrow> deployment_facts" where
  "currentFacts cfg t =
     \<lparr>df_tier = t,
      df_chains = List.map_filter (\<lambda>e. map_option (\<lambda>a. (chain_name (cc_key e), cc_chainId e, lower a))
        (cc_escrowAddress e)) (settlementChainConfigs cfg)\<rparr>"

text \<open>The arguments are the settings \<open>deploymentSet\<close>, \<open>settlementTier\<close>, \<open>nodeEnv\<close> and \<open>ogChainId\<close>.\<close>

definition isStoppable :: "string \<Rightarrow> tier option \<Rightarrow> string \<Rightarrow> int \<Rightarrow> bool" where
  "isStoppable deploymentSet t nodeEnv ogChainId \<longleftrightarrow>
     deploymentSet \<noteq> [] \<or> t = Some Testnet \<or> nodeEnv \<noteq> ''production'' \<or>
     ogChainId \<noteq> mainnet_id (TIER_CHAIN_IDS Key0G)"

section \<open>Comparing\<close>

definition movedChains :: "deployment_facts \<Rightarrow> deployment_facts \<Rightarrow> string list" where
  "movedChains rec facts =
     map fst (filter (\<lambda>(key, c). case map_of (df_chains facts) key of
        None \<Rightarrow> False | Some mine \<Rightarrow> fst mine \<noteq> fst c) (df_chains rec))"

definition sameChains :: "deployment_facts \<Rightarrow> deployment_facts \<Rightarrow> bool" where
  "sameChains rec facts \<longleftrightarrow>
     length (df_chains facts) = length (df_chains rec) \<and>
     list_all (\<lambda>(key, c). map_of (df_chains rec) key = Some c) (df_chains facts)"

text \<open>Without a DEPLOYMENT_ID: some chain is on another network, or its escrow is not the record's.\<close>

definition differs_from :: "deployment_facts \<Rightarrow> deployment_facts \<Rightarrow> bool" where
  "differs_from rec facts \<longleftrightarrow>
     movedChains rec facts \<noteq> [] \<or>
     list_ex (\<lambda>(key, c). case map_of (df_chains rec) key of
        None \<Rightarrow> True | Some theirs \<Rightarrow> snd theirs \<noteq> snd c) (df_chains facts)"

section \<open>Index state of another deployment\<close>

record foreign =
  fo_key :: string
  fo_sameChain :: bool
  fo_otherNetwork :: bool

definition fingerprintKey :: "chain_key \<Rightarrow> int \<Rightarrow> string" where
  "fingerprintKey c chainId = chainScope_at c chainId @ '':events:escrow''"

definition indexCheckpointKey :: "chain_key \<Rightarrow> int \<Rightarrow> string" where
  "indexCheckpointKey c chainId = chainScope_at c chainId @ '':events:checkpoint''"

definition fingerprint_of :: "int \<times> string \<Rightarrow> string" where
  "fingerprint_of c = show_int (fst c) @ '':'' @ snd c"

definition starts_with :: "string \<Rightarrow> string \<Rightarrow> bool" where
  "starts_with s p \<longleftrightarrow> take (length p) s = p"

text \<open>One network of one chain: its fingerprint, else its checkpoint with no fingerprint.\<close>

definition own_network_state ::
  "config \<Rightarrow> id_store \<Rightarrow> deployment_facts \<Rightarrow> chain_key \<Rightarrow> foreign list \<times> foreign list" where
  "own_network_state cfg st facts c =
     (let i = cc_chainId (settlementChainConfig cfg c);
          mine = map_of (df_chains facts) (chain_name c);
          key = fingerprintKey c i; checkpoint = indexCheckpointKey c i
      in case st_keys st key of
           Some fp \<Rightarrow>
             (if Some fp = map_option fingerprint_of mine then []
              else [\<lparr>fo_key = key,
                     fo_sameChain = (case mine of None \<Rightarrow> False
                       | Some m \<Rightarrow> starts_with fp (show_int (fst m) @ '':'')),
                     fo_otherNetwork = False\<rparr>], [])
         | None \<Rightarrow>
             ([], if st_keys st checkpoint \<noteq> None
                  then [\<lparr>fo_key = checkpoint, fo_sameChain = False, fo_otherNetwork = False\<rparr>] else []))"

definition other_network_state ::
  "id_store \<Rightarrow> chain_key \<Rightarrow> int \<Rightarrow> foreign list \<times> foreign list" where
  "other_network_state st c i =
     (let key = fingerprintKey c i; checkpoint = indexCheckpointKey c i;
          found = (\<lambda>k. [\<lparr>fo_key = k, fo_sameChain = False, fo_otherNetwork = True\<rparr>])
      in if st_keys st key \<noteq> None then (found key, [])
         else if st_keys st checkpoint \<noteq> None then ([], found checkpoint)
         else ([], []))"

definition foreignIndexState ::
  "config \<Rightarrow> id_store \<Rightarrow> deployment_facts \<Rightarrow> bool \<Rightarrow> foreign list \<times> foreign list" where
  "foreignIndexState cfg st facts otherNetworks =
     (let parts = concat (map (\<lambda>c. own_network_state cfg st facts c #
            (if otherNetworks then map (other_network_state st c) (otherNetworkIds cfg c) else []))
          SETTLEMENT_CHAIN_KEYS)
      in (concat (map fst parts), concat (map snd parts)))"

definition keys_of :: "foreign list \<Rightarrow> string list" where
  "keys_of fs = map fo_key fs"

section \<open>The decision\<close>

definition allowed :: "self_info \<Rightarrow> identity_role \<Rightarrow> string option \<Rightarrow> reason list \<Rightarrow> identity_status" where
  "allowed self role owner rs =
     \<lparr>is_deploymentId = se_deploymentId self, is_role = role, is_owner = owner,
      is_writersAllowed = True, is_stoppable = se_stoppable self, is_reason = rs\<rparr>"

definition unknown_status :: "self_info \<Rightarrow> reason \<Rightarrow> identity_status" where
  "unknown_status self r =
     \<lparr>is_deploymentId = se_deploymentId self, is_role = Unknown, is_owner = None,
      is_writersAllowed = (\<not> se_stoppable self), is_stoppable = se_stoppable self, is_reason = [r]\<rparr>"

definition disagree :: "self_info \<Rightarrow> string option \<Rightarrow> reason \<Rightarrow> identity_status" where
  "disagree self owner r =
     \<lparr>is_deploymentId = se_deploymentId self, is_role = NotOwner, is_owner = owner,
      is_writersAllowed = (\<not> se_stoppable self), is_stoppable = se_stoppable self,
      is_reason = (if se_stoppable self then [r] else [r, ProductionNeverStopped])\<rparr>"

definition recordFor :: "self_info \<Rightarrow> string \<Rightarrow> string \<Rightarrow> identity_record" where
  "recordFor self stampAt i =
     \<lparr>ir_id = i, ir_facts = se_facts self, ir_stoppable = Some (se_stoppable self),
      ir_claimedAt = stampAt, ir_updatedAt = stampAt\<rparr>"

definition no_id_status :: "config \<Rightarrow> id_store \<Rightarrow> self_info \<Rightarrow> identity_status" where
  "no_id_status cfg st self =
     (case parseRecord (st_identity st) of
        Some r \<Rightarrow>
          if differs_from (ir_facts r) (se_facts self)
          then disagree self (Some (ir_id r)) (OtherChains (ir_id r))
          else allowed self Unset (Some (ir_id r)) []
      | None \<Rightarrow>
          let f = foreignIndexState cfg st (se_facts self) (se_stoppable self);
              otherChain = filter (\<lambda>x. \<not> fo_sameChain x) (fst f) @ filter fo_otherNetwork (snd f);
              keys = keys_of (fst f @ snd f)
          in if otherChain \<noteq> [] then disagree self None (OtherNetworkIndex keys)
             else allowed self Unset None (if keys \<noteq> [] then [Unvouched keys] else []))"

text \<open>DEPLOYMENT_CLAIM: it takes the Redis over (\<open>Inl\<close>), or leaves a note, or says nothing.\<close>

definition claim_result_of ::
  "config \<Rightarrow> id_store \<Rightarrow> self_info \<Rightarrow> string \<Rightarrow> bool \<Rightarrow> string + reason list" where
  "claim_result_of cfg st self did first =
     (case (if se_stoppable self then truthy (se_claim self) else None) of
        None \<Rightarrow> Inr []
      | Some claim \<Rightarrow>
          let rec = parseRecord (st_identity st) in
          if \<not> isValidClaim claim then Inr [ClaimInvalid claim]
          else if \<not> first then Inr []
          else if Option.bind rec ir_stoppable = Some False then Inr [ClaimOfProduction claim]
          else
            let f = foreignIndexState cfg st (se_facts self) True;
                unclaimed = (claim = ''unclaimed'')
            in if unclaimed \<and> rec = None \<and> fst f = [] \<and> snd f \<noteq> [] then Inr [ClaimOfBareHistory]
               else if (if unclaimed then rec = None else map_option ir_id rec = Some claim) then Inl claim
               else Inr [ClaimMismatch claim (map_option ir_id rec)])"

definition with_note :: "reason list \<Rightarrow> identity_status \<Rightarrow> identity_status" where
  "with_note note s = s\<lparr>is_reason := is_reason s @ note\<rparr>"

text \<open>A Redis with a readable record, for a process with a DEPLOYMENT_ID.\<close>

definition recorded_status ::
  "id_store \<Rightarrow> self_info \<Rightarrow> string \<Rightarrow> string \<Rightarrow> identity_record \<Rightarrow> reason list \<Rightarrow>
   identity_status \<times> id_store" where
  "recorded_status st self did stampAt r note =
     (if ir_id r \<noteq> did then
        (if \<not> se_stoppable self
         then (allowed self Owner (Some did) [TookBack (ir_id r)], put_record st (recordFor self stampAt did))
         else (with_note note (disagree self (Some (ir_id r)) (OtherDeployment (ir_id r))), st))
      else if se_stoppable self \<and> ir_stoppable r = Some False then
        (if \<not> sameChains (ir_facts r) (se_facts self)
         then (with_note note (disagree self (Some (ir_id r)) (UnderProductionId (ir_id r))), st)
         else (with_note note (allowed self Owner (Some (ir_id r)) [DriftedProduction (ir_id r)]), st))
      else
        let moved = movedChains (ir_facts r) (se_facts self) in
        if moved \<noteq> [] \<and> se_stoppable self
        then (with_note note (disagree self (Some (ir_id r)) (MovedChains (ir_id r) moved)), st)
        else (with_note note (allowed self Owner (Some (ir_id r)) (if moved \<noteq> [] then [RecordedMove moved] else [])),
              if (ir_facts r, ir_stoppable r) \<noteq> (se_facts self, Some (se_stoppable self))
              then put_record st (r\<lparr>ir_facts := se_facts self, ir_stoppable := Some (se_stoppable self),
                     ir_updatedAt := stampAt\<rparr>)
              else st))"

text \<open>Why a process may not claim a Redis with no readable record; \<open>None\<close>: it may.\<close>

definition claim_barrier :: "config \<Rightarrow> id_store \<Rightarrow> self_info \<Rightarrow> reason option" where
  "claim_barrier cfg st self =
     (let f = foreignIndexState cfg st (se_facts self) (se_stoppable self) in
      if se_stoppable self \<and> fst f \<noteq> [] then Some (OtherIndex (keys_of (fst f @ snd f)))
      else if se_stoppable self \<and> snd f \<noteq> [] then Some (BareHistory (keys_of (snd f)))
      else None)"

definition claimed_reason :: "config \<Rightarrow> id_store \<Rightarrow> self_info \<Rightarrow> reason list" where
  "claimed_reason cfg st self =
     (let f = foreignIndexState cfg st (se_facts self) (se_stoppable self) in
      if fst f \<noteq> [] then [ClaimedDespite (keys_of (fst f))]
      else if snd f \<noteq> [] then [ClaimedHistory (keys_of (snd f))] else [])"

text \<open>
  \<open>resolveIdentity\<close>. \<open>others\<close> is what other processes do to the Redis between the read of an
  absent record and the SET NX, once per round: a lost SET NX is followed by another round.
\<close>

fun resolveIdentity ::
  "config \<Rightarrow> self_info \<Rightarrow> string \<Rightarrow> bool \<Rightarrow> (id_store \<Rightarrow> id_store) list \<Rightarrow> id_store \<Rightarrow>
   identity_status \<times> id_store" where
  "resolveIdentity cfg self stampAt first others st =
     (case truthy (se_deploymentId self) of
        None \<Rightarrow> (no_id_status cfg st self, st)
      | Some did \<Rightarrow>
          (case claim_result_of cfg st self did first of
             Inl claim \<Rightarrow>
               (allowed self Owner (Some did) [Claimed claim
                  (case parseRecord (st_identity st) of None \<Rightarrow> None
                   | Some r \<Rightarrow> if ir_id r \<noteq> did then Some (ir_id r) else None)],
                put_record st (recordFor self stampAt did))
           | Inr note \<Rightarrow>
               (case parseRecord (st_identity st) of
                  Some r \<Rightarrow> recorded_status st self did stampAt r note
                | None \<Rightarrow>
                    (case claim_barrier cfg st self of
                       Some why \<Rightarrow> (with_note note (disagree self None why), st)
                     | None \<Rightarrow>
                         let st' = (case others of [] \<Rightarrow> st | f # _ \<Rightarrow> f st) in
                         if st_identity st' = None
                         then (allowed self Owner (Some did) (claimed_reason cfg st self),
                               put_record st' (recordFor self stampAt did))
                         else if parseRecord (st_identity st') = None
                         then (unknown_status self Unreadable, st')
                         else (case others of
                                 [] \<Rightarrow> (unknown_status self Unreadable, st')
                               | _ # fs \<Rightarrow> resolveIdentity cfg self stampAt first fs st')))))"

declare resolveIdentity.simps [simp del]

section \<open>The check, run again and again\<close>

record process =
  pr_status :: "identity_status option"
  pr_firstPending :: bool
  pr_answered :: bool

definition started :: process where
  "started = \<lparr>pr_status = None, pr_firstPending = False, pr_answered = False\<rparr>"

definition backgroundWritesAllowed :: "process \<Rightarrow> bool" where
  "backgroundWritesAllowed p =
     (case pr_status p of Some s \<Rightarrow> is_writersAllowed s | None \<Rightarrow> \<not> pr_firstPending p)"

text \<open>A check in flight, and what it reports when it ends: an answer, or none in time.\<close>

definition check_begin :: "self_info \<Rightarrow> process \<Rightarrow> process" where
  "check_begin self p =
     (if pr_status p = None \<and> se_stoppable self then p\<lparr>pr_firstPending := True\<rparr> else p)"

datatype notified = StopListeners | ResumeListeners

definition check_end ::
  "self_info \<Rightarrow> process \<Rightarrow> identity_status option \<Rightarrow> notified list \<times> process" where
  "check_end self p answer =
     (let previous = pr_status p;
          s = (case answer of Some a \<Rightarrow> a | None \<Rightarrow> unknown_status self NoAnswer);
          stops = (is_role s = NotOwner \<and> \<not> is_writersAllowed s \<and>
                   map_option is_role previous \<noteq> Some NotOwner);
          resumes = (is_writersAllowed s \<and> map_option is_writersAllowed previous = Some False)
      in ((if stops then [StopListeners] else []) @ (if resumes then [ResumeListeners] else []),
          \<lparr>pr_status = Some s, pr_firstPending = False, pr_answered = pr_answered p \<or> answer \<noteq> None\<rparr>))"

text \<open>
  \<open>checkDeploymentIdentity\<close>: a check that answers in time, over the Redis it finds; or one that
  does not (\<open>None\<close>), which writes nothing then or later.
\<close>

definition checkDeploymentIdentity ::
  "config \<Rightarrow> self_info \<Rightarrow> string \<Rightarrow> (id_store \<Rightarrow> id_store) list option \<Rightarrow> process \<Rightarrow> id_store \<Rightarrow>
   notified list \<times> process \<times> id_store" where
  "checkDeploymentIdentity cfg self stampAt answer p st =
     (let p1 = check_begin self p in
      case answer of
        None \<Rightarrow> let e = check_end self p1 None in (fst e, snd e, st)
      | Some others \<Rightarrow>
          let r = resolveIdentity cfg self stampAt (\<not> pr_answered p) others st;
              e = check_end self p1 (Some (fst r))
          in (fst e, snd e, snd r))"

end
