(* ===== verification/IdentityProps.thy ===== *)
theory IdentityProps
  imports Identity ChainsProps
begin

text \<open>
  The properties of the ownership check: production is never stopped, nothing a stoppable
  process does touches production's record, an owner is the deployment the Redis names, and a
  stoppable process writes only where its check said so.
\<close>

section \<open>What each answer says\<close>

lemma status_sel [simp]:
  "is_writersAllowed (allowed self role owner rs)" "is_role (allowed self role owner rs) = role"
  "is_role (disagree self owner r) = NotOwner" "is_role (unknown_status self r) = Unknown"
  "is_writersAllowed (disagree self owner r) \<longleftrightarrow> \<not> se_stoppable self"
  "is_writersAllowed (unknown_status self r) \<longleftrightarrow> \<not> se_stoppable self"
  "is_role (with_note n s) = is_role s" "is_writersAllowed (with_note n s) = is_writersAllowed s"
  by (simp_all add: allowed_def disagree_def unknown_status_def with_note_def)

text \<open>A status is sound for a process: it allows writes exactly as its role and kind say.\<close>

definition status_sound :: "self_info \<Rightarrow> identity_status \<Rightarrow> bool" where
  "status_sound self s \<longleftrightarrow>
     is_writersAllowed s = (\<not> se_stoppable self \<or> is_role s = Owner \<or> is_role s = Unset)"

lemma status_sound_simps [simp]:
  "status_sound self (disagree self owner r)" "status_sound self (unknown_status self r)"
  "status_sound self (with_note n s) = status_sound self s"
  "status_sound self (allowed self Owner owner rs)" "status_sound self (allowed self Unset owner rs)"
  by (simp_all add: status_sound_def)

lemma status_sound_recorded: "status_sound self (fst (recorded_status st self did stampAt r note))"
  by (simp add: recorded_status_def Let_def)

lemma status_sound_no_id: "status_sound self (no_id_status cfg st self)"
  by (simp add: no_id_status_def Let_def split: option.split)

text \<open>A property of every round of the decision, by the branch it ends in.\<close>

lemma resolve_rule [case_names no_id claim recorded barred fresh unreadable again]:
  fixes P :: "(id_store \<Rightarrow> id_store) list \<Rightarrow> id_store \<Rightarrow> identity_status \<times> id_store \<Rightarrow> bool"
  assumes no_id: "\<And>others st. truthy (se_deploymentId self) = None \<Longrightarrow>
      P others st (no_id_status cfg st self, st)"
    and claim: "\<And>others st did c prev. truthy (se_deploymentId self) = Some did \<Longrightarrow>
      claim_result_of cfg st self did first = Inl c \<Longrightarrow>
      P others st (allowed self Owner (Some did) [Claimed c prev], put_record st (recordFor self stampAt did))"
    and recorded: "\<And>others st did note r. truthy (se_deploymentId self) = Some did \<Longrightarrow>
      claim_result_of cfg st self did first = Inr note \<Longrightarrow> parseRecord (st_identity st) = Some r \<Longrightarrow>
      P others st (recorded_status st self did stampAt r note)"
    and barred: "\<And>others st did note why. truthy (se_deploymentId self) = Some did \<Longrightarrow>
      parseRecord (st_identity st) = None \<Longrightarrow> claim_barrier cfg st self = Some why \<Longrightarrow>
      P others st (with_note note (disagree self None why), st)"
    and fresh: "\<And>others st st' did. truthy (se_deploymentId self) = Some did \<Longrightarrow>
      parseRecord (st_identity st) = None \<Longrightarrow> claim_barrier cfg st self = None \<Longrightarrow>
      st' = (case others of [] \<Rightarrow> st | f # _ \<Rightarrow> f st) \<Longrightarrow> st_identity st' = None \<Longrightarrow>
      P others st (allowed self Owner (Some did) (claimed_reason cfg st self),
        put_record st' (recordFor self stampAt did))"
    and unreadable: "\<And>others st st' did. truthy (se_deploymentId self) = Some did \<Longrightarrow>
      parseRecord (st_identity st) = None \<Longrightarrow> claim_barrier cfg st self = None \<Longrightarrow>
      st' = (case others of [] \<Rightarrow> st | f # _ \<Rightarrow> f st) \<Longrightarrow> st_identity st' \<noteq> None \<Longrightarrow>
      others = [] \<or> parseRecord (st_identity st') = None \<Longrightarrow>
      P others st (unknown_status self Unreadable, st')"
    and again: "\<And>f fs st did r x. truthy (se_deploymentId self) = Some did \<Longrightarrow>
      parseRecord (st_identity st) = None \<Longrightarrow> claim_barrier cfg st self = None \<Longrightarrow>
      parseRecord (st_identity (f st)) = Some r \<Longrightarrow> P fs (f st) x \<Longrightarrow> P (f # fs) st x"
  shows "P others st (resolveIdentity cfg self stampAt first others st)"
proof (induction others arbitrary: st)
  case Nil
  show ?case
    using assms(1-4) fresh [where others = "[]"] unreadable [where others = "[]"]
    by (simp add: resolveIdentity.simps Let_def split: option.split sum.split)
next
  case (Cons f fs)
  have again': "P (f # fs) st (resolveIdentity cfg self stampAt first fs (f st))"
    if "truthy (se_deploymentId self) = Some did" "parseRecord (st_identity st) = None"
      "claim_barrier cfg st self = None" "parseRecord (st_identity (f st)) \<noteq> None" for did
    using again [where f = f and fs = fs, OF that(1-3)] Cons.IH [of "f st"] that(4) by blast
  show ?case
    using assms(1-4) fresh [where others = "f # fs"] unreadable [where others = "f # fs"] again'
    by (subst resolveIdentity.simps) (simp add: Let_def split: option.split sum.split)
qed

lemma resolve_sound: "status_sound self (fst (resolveIdentity cfg self stampAt first others st))"
  by (rule resolve_rule [where P = "\<lambda>_ _ x. status_sound self (fst x)"])
    (simp_all add: status_sound_recorded status_sound_no_id)

section \<open>Owners\<close>

lemma claim_needs_stoppable: "claim_result_of cfg st self did first = Inl c \<Longrightarrow> se_stoppable self"
  by (auto simp: claim_result_of_def split: if_splits)

lemma claim_spares_production:
  assumes "claim_result_of cfg st self did first = Inl c"
  shows "Option.bind (parseRecord (st_identity st)) ir_stoppable \<noteq> Some False"
  using assms by (auto simp: claim_result_of_def Let_def split: if_splits option.splits)

lemma parse_put [simp]: "parseRecord (st_identity (put_record st r)) = Some r"
  by (simp add: put_record_def)

definition names :: "id_store \<Rightarrow> string \<Rightarrow> bool" where
  "names st did \<longleftrightarrow> map_option ir_id (parseRecord (st_identity st)) = Some did"

lemma names_put [simp]: "names (put_record st r) did \<longleftrightarrow> ir_id r = did"
  by (simp add: names_def)

lemma recordFor_sel [simp]:
  "ir_id (recordFor self stampAt did) = did" "ir_stoppable (recordFor self stampAt did) = Some (se_stoppable self)"
  by (simp_all add: recordFor_def)

lemma names_recorded:
  assumes "parseRecord (st_identity st) = Some r"
    "is_role (fst (recorded_status st self did stampAt r note)) = Owner"
  shows "names (snd (recorded_status st self did stampAt r note)) did"
  using assms by (auto simp: recorded_status_def Let_def names_def split: if_splits)

lemma no_id_never_owner: "is_role (no_id_status cfg st self) \<noteq> Owner"
  by (simp add: no_id_status_def Let_def split: option.split)

lemma id_store_parse_some: "parseRecord x = Some r \<longleftrightarrow> x = Some (Readable r)"
  by (cases x rule: parseRecord.cases) auto

text \<open>What a check leaves of a Redis that held a readable record: the same, or its answer to it.\<close>

lemma resolve_recorded:
  assumes "parseRecord (st_identity st) = Some r" "truthy (se_deploymentId self) = Some did"
  shows "resolveIdentity cfg self stampAt first others st =
    (case claim_result_of cfg st self did first of
       Inl c \<Rightarrow> (allowed self Owner (Some did) [Claimed c (if ir_id r \<noteq> did then Some (ir_id r) else None)],
                 put_record st (recordFor self stampAt did))
     | Inr note \<Rightarrow> recorded_status st self did stampAt r note)"
  using assms by (simp add: resolveIdentity.simps split: sum.split)

lemma resolve_no_id:
  "truthy (se_deploymentId self) = None \<Longrightarrow>
    resolveIdentity cfg self stampAt first others st = (no_id_status cfg st self, st)"
  by (simp add: resolveIdentity.simps)

lemma production_claim:
  assumes "parseRecord (st_identity st) = Some r" "ir_stoppable r = Some False"
  obtains words where "claim_result_of cfg st self did first = Inr words"
proof (cases "claim_result_of cfg st self did first")
  case (Inl c)
  from claim_spares_production [OF this] assms show ?thesis by simp
next
  case (Inr words)
  then show ?thesis by (rule that)
qed

lemma claim_names_the_owner:
  assumes "claim_result_of cfg st self did first = Inl c" "parseRecord (st_identity st) = Some r"
  shows "first \<and> se_claim self = Some (ir_id r) \<and> isValidClaim (ir_id r) \<and> ir_stoppable r \<noteq> Some False"
  using assms by (auto simp: claim_result_of_def Let_def truthy_Some_iff split: if_splits option.splits)

text \<open>A staging stack, production, and the Redis production signed.\<close>

definition no_facts :: deployment_facts where
  "no_facts = \<lparr>df_tier = None, df_chains = []\<rparr>"

definition staging :: "string option \<Rightarrow> self_info" where
  "staging c = \<lparr>se_deploymentId = Some ''staging'', se_facts = no_facts, se_stoppable = True, se_claim = c\<rparr>"

definition production :: self_info where
  "production = \<lparr>se_deploymentId = Some ''live'', se_facts = no_facts, se_stoppable = False, se_claim = None\<rparr>"

definition unsigned :: id_store where
  "unsigned = \<lparr>st_identity = None, st_keys = Map.empty\<rparr>"

definition signed_by :: "self_info \<Rightarrow> string \<Rightarrow> id_store" where
  "signed_by self i = put_record unsigned (recordFor self [] i)"

lemma processes_sel [simp]:
  "truthy (se_deploymentId (staging c)) = Some ''staging''" "truthy (se_deploymentId production) = Some ''live''"
  "se_facts (staging c) = no_facts" "se_facts production = no_facts"
  "se_stoppable (staging c)" "\<not> se_stoppable production" "se_claim (staging c) = c" "se_claim production = None"
  "st_identity unsigned = None" "st_keys unsigned = Map.empty"
  "parseRecord (st_identity (signed_by self i)) = Some (recordFor self [] i)"
  "st_identity (signed_by self i) \<noteq> Some Garbage" "st_keys (signed_by self i) = Map.empty"
  by (simp_all add: staging_def production_def unsigned_def signed_by_def put_record_def)

text \<open>
  Who an owner is. When a check makes the process the owner of a Redis, the process has a
  DEPLOYMENT_ID and the Redis then names that deployment, whoever wrote to it meanwhile.
\<close>

theorem owner_is_the_named_deployment:
  assumes "is_role (fst (resolveIdentity cfg self stampAt first others st)) = Owner"
  shows "\<exists>did. truthy (se_deploymentId self) = Some did \<and>
    names (snd (resolveIdentity cfg self stampAt first others st)) did"
proof -
  have "is_role (fst (resolveIdentity cfg self stampAt first others st)) = Owner \<longrightarrow>
      (\<exists>did. truthy (se_deploymentId self) = Some did \<and>
        names (snd (resolveIdentity cfg self stampAt first others st)) did)"
    by (rule resolve_rule [where P = "\<lambda>_ _ x. is_role (fst x) = Owner \<longrightarrow>
        (\<exists>did. truthy (se_deploymentId self) = Some did \<and> names (snd x) did)"])
      (simp_all add: no_id_never_owner names_recorded)
  with assms show ?thesis by blast
qed

theorem owner_is_the_named_deployment_witness:
  "\<exists>did. truthy (se_deploymentId production) = Some did \<and>
    names (snd (resolveIdentity testnet_config production [] True [] (signed_by (staging None) ''staging''))) did"
  by (rule owner_is_the_named_deployment)
    (simp add: resolve_recorded [where did = "''live''"] claim_result_of_def recorded_status_def)

text \<open>
  C33. Production's record. A stoppable process that finds a Redis whose record says it cannot
  be stopped leaves the Redis exactly as it was, with or without DEPLOYMENT_CLAIM, and keeps
  writing only under production's own id with production's escrows on production's chains (an
  environment that drifted), or with no id and nothing that differs from the record.
\<close>

theorem production_record_survives:
  assumes "se_stoppable self" "parseRecord (st_identity st) = Some r" "ir_stoppable r = Some False"
  shows "snd (resolveIdentity cfg self stampAt first others st) = st \<and>
    is_writersAllowed (fst (resolveIdentity cfg self stampAt first others st)) =
      (case truthy (se_deploymentId self) of
         None \<Rightarrow> \<not> differs_from (ir_facts r) (se_facts self)
       | Some did \<Rightarrow> ir_id r = did \<and> sameChains (ir_facts r) (se_facts self))"
proof (cases "truthy (se_deploymentId self)")
  case None
  then show ?thesis using assms by (simp add: resolve_no_id no_id_status_def)
next
  case (Some did)
  obtain words where n: "claim_result_of cfg st self did first = Inr words"
    by (rule production_claim [OF assms(2,3)])
  show ?thesis
    using assms Some by (simp add: resolve_recorded [OF assms(2) Some] n recorded_status_def)
qed

theorem production_record_survives_witness:
  "snd (resolveIdentity testnet_config (staging (Some ''live'')) [] True [] (signed_by production ''live'')) =
    signed_by production ''live''"
  using production_record_survives [of "staging (Some ''live'')" "signed_by production ''live''"
      "recordFor production [] ''live''" testnet_config "[]" True "[]"]
  by simp

text \<open>
  A takeover is claimed. A stoppable process puts its own deployment's name on a Redis that
  names another one only on a first check, with a valid DEPLOYMENT_CLAIM that is exactly the
  other's id, and never when the other is production.
\<close>

theorem takeover_is_claimed:
  assumes "se_stoppable self" "parseRecord (st_identity st) = Some r"
    and "\<not> names (snd (resolveIdentity cfg self stampAt first others st)) (ir_id r)"
  shows "first \<and> se_claim self = Some (ir_id r) \<and> isValidClaim (ir_id r) \<and> ir_stoppable r \<noteq> Some False"
proof (cases "truthy (se_deploymentId self)")
  case None
  then show ?thesis using assms by (simp add: resolve_no_id names_def)
next
  case (Some did)
  show ?thesis
  proof (cases "claim_result_of cfg st self did first")
    case (Inl c)
    show ?thesis by (rule claim_names_the_owner [OF Inl assms(2)])
  next
    case (Inr words)
    from assms have "names (snd (recorded_status st self did stampAt r words)) (ir_id r)"
      by (auto simp: recorded_status_def Let_def names_def)
    with assms(3) show ?thesis by (simp add: resolve_recorded [OF assms(2) Some] Inr)
  qed
qed

theorem takeover_is_claimed_witness:
  "isValidClaim ''old''"
proof -
  have "isValidClaim ''old''" by code_simp
  then have "claim_result_of testnet_config (signed_by (staging None) ''old'') (staging (Some ''old'')) ''staging'' True = Inl ''old''"
    by (simp add: claim_result_of_def)
  then have "\<not> names (snd (resolveIdentity testnet_config (staging (Some ''old'')) [] True []
      (signed_by (staging None) ''old''))) (ir_id (recordFor (staging None) [] ''old''))"
    by (simp add: resolve_recorded [where did = "''staging''"])
  from takeover_is_claimed [OF _ _ this] show ?thesis by simp
qed

section \<open>A Redis nobody has signed\<close>

text \<open>No chain has index state of another deployment, network or release in this Redis.\<close>

definition index_is_ours :: "config \<Rightarrow> id_store \<Rightarrow> deployment_facts \<Rightarrow> chain_key \<Rightarrow> bool" where
  "index_is_ours cfg st facts c \<longleftrightarrow>
     (let i = cc_chainId (settlementChainConfig cfg c) in
      (case st_keys st (fingerprintKey c i) of
         None \<Rightarrow> st_keys st (indexCheckpointKey c i) = None
       | Some fp \<Rightarrow> Some fp = map_option fingerprint_of (map_of (df_chains facts) (chain_name c))) \<and>
      (\<forall>j \<in> set (otherNetworkIds cfg c).
         st_keys st (fingerprintKey c j) = None \<and> st_keys st (indexCheckpointKey c j) = None))"

lemma concat_pairs_Nil:
  "(concat (map fst ps), concat (map snd ps)) = ([], []) \<longleftrightarrow> (\<forall>p \<in> set ps. p = ([], []))"
  by (auto simp: prod_eq_iff)

lemma own_network_Nil:
  "own_network_state cfg st facts c = ([], []) \<longleftrightarrow>
     (case st_keys st (fingerprintKey c (cc_chainId (settlementChainConfig cfg c))) of
        None \<Rightarrow> st_keys st (indexCheckpointKey c (cc_chainId (settlementChainConfig cfg c))) = None
      | Some fp \<Rightarrow> Some fp = map_option fingerprint_of (map_of (df_chains facts) (chain_name c)))"
  by (simp add: own_network_state_def Let_def split: option.split)

lemma other_network_Nil:
  "other_network_state st c j = ([], []) \<longleftrightarrow>
     st_keys st (fingerprintKey c j) = None \<and> st_keys st (indexCheckpointKey c j) = None"
  by (simp add: other_network_state_def Let_def)

lemma foreign_index_Nil:
  "foreignIndexState cfg st facts True = ([], []) \<longleftrightarrow>
     (\<forall>c \<in> set SETTLEMENT_CHAIN_KEYS. index_is_ours cfg st facts c)"
  unfolding foreignIndexState_def Let_def concat_pairs_Nil
  by (simp add: own_network_Nil other_network_Nil index_is_ours_def Let_def ball_Un)

lemma barrier_iff:
  "se_stoppable self \<Longrightarrow> claim_barrier cfg st self = None \<longleftrightarrow>
     (\<forall>c \<in> set SETTLEMENT_CHAIN_KEYS. index_is_ours cfg st (se_facts self) c)"
  unfolding foreign_index_Nil [symmetric]
  by (cases "foreignIndexState cfg st (se_facts self) True") (simp add: claim_barrier_def Let_def)

text \<open>
  Who may sign an unsigned Redis. A stoppable process with a DEPLOYMENT_ID and no
  DEPLOYMENT_CLAIM that finds no record, and nobody signing meanwhile, signs the Redis exactly
  when every chain's index state in it is its own (its escrow's fingerprint, or nothing, on its
  network, and nothing on any other); otherwise the Redis is unchanged and it may not write.
\<close>

theorem unsigned_redis_needs_a_clean_index:
  assumes "se_stoppable self" "truthy (se_deploymentId self) = Some did" "truthy (se_claim self) = None"
    and "st_identity st = None"
  shows "let r = resolveIdentity cfg self stampAt first [] st;
             ours = (\<forall>c \<in> set SETTLEMENT_CHAIN_KEYS. index_is_ours cfg st (se_facts self) c)
         in is_writersAllowed (fst r) = ours \<and>
            snd r = (if ours then put_record st (recordFor self stampAt did) else st)"
proof (cases "claim_barrier cfg st self")
  case None
  with assms barrier_iff [OF assms(1), of cfg st] show ?thesis
    by (simp add: resolveIdentity.simps claim_result_of_def Let_def)
next
  case (Some why)
  with barrier_iff [OF assms(1), of cfg st]
  have "(\<forall>c \<in> set SETTLEMENT_CHAIN_KEYS. index_is_ours cfg st (se_facts self) c) = False" by simp
  moreover have "resolveIdentity cfg self stampAt first [] st = (with_note [] (disagree self None why), st)"
    using assms Some by (simp add: resolveIdentity.simps claim_result_of_def)
  ultimately show ?thesis using assms(1) by (simp only: Let_def fst_conv snd_conv status_sel if_False simp_thms)
qed

theorem unsigned_redis_needs_a_clean_index_witness:
  "snd (resolveIdentity testnet_config (staging None) [] True [] unsigned) =
    put_record unsigned (recordFor (staging None) [] ''staging'')"
proof -
  have "index_is_ours testnet_config unsigned no_facts c" for c by (simp add: index_is_ours_def)
  with unsigned_redis_needs_a_clean_index [of "staging None" "''staging''" unsigned testnet_config "[]" True]
  show ?thesis by (simp add: Let_def)
qed

section \<open>Production takes its Redis back\<close>

lemma production_signs:
  assumes "\<not> se_stoppable live" "truthy (se_deploymentId live) = Some pid" "st_identity st \<noteq> Some Garbage"
  obtains r where "parseRecord (st_identity (snd (resolveIdentity cfg live stampAt first [] st))) = Some r"
    "ir_id r = pid" "ir_stoppable r = Some False"
proof (cases "st_identity st")
  case None
  with assms have "snd (resolveIdentity cfg live stampAt first [] st) = put_record st (recordFor live stampAt pid)"
    by (simp add: resolveIdentity.simps claim_result_of_def claim_barrier_def Let_def)
  with assms(1) show ?thesis by (intro that [of "recordFor live stampAt pid"]) simp_all
next
  case (Some x)
  with assms(3) obtain r where r: "st_identity st = Some (Readable r)" by (cases x) auto
  have c: "claim_result_of cfg st live pid first = Inr []" using assms(1) by (simp add: claim_result_of_def)
  have "parseRecord (st_identity st) = Some r" by (simp add: r)
  then have e: "resolveIdentity cfg live stampAt first [] st = recorded_status st live pid stampAt r []"
    using assms(2) by (simp add: resolve_recorded c)
  show ?thesis
  proof (cases "ir_id r \<noteq> pid \<or> (ir_facts r, ir_stoppable r) \<noteq> (se_facts live, Some False)")
    case True
    have "\<exists>r'. parseRecord (st_identity (snd (recorded_status st live pid stampAt r []))) = Some r' \<and>
        ir_id r' = pid \<and> ir_stoppable r' = Some False"
      using True assms(1) by (auto simp: recorded_status_def Let_def)
    then show ?thesis unfolding e using that [unfolded e] by blast
  next
    case False
    then have "snd (recorded_status st live pid stampAt r []) = st"
      using assms(1) by (simp add: recorded_status_def Let_def)
    with False r show ?thesis by (intro that [of r, unfolded e]) simp_all
  qed
qed

lemma other_id_is_stopped:
  assumes "se_stoppable self" "truthy (se_deploymentId self) = Some sid"
    "parseRecord (st_identity st) = Some r" "ir_id r \<noteq> sid" "ir_stoppable r = Some False"
  shows "snd (resolveIdentity cfg self stampAt first others st) = st"
    "is_role (fst (resolveIdentity cfg self stampAt first others st)) = NotOwner"
    "\<not> is_writersAllowed (fst (resolveIdentity cfg self stampAt first others st))"
proof -
  obtain words where n: "claim_result_of cfg st self sid first = Inr words"
    by (rule production_claim [OF assms(3,5)])
  show "snd (resolveIdentity cfg self stampAt first others st) = st"
    "is_role (fst (resolveIdentity cfg self stampAt first others st)) = NotOwner"
    "\<not> is_writersAllowed (fst (resolveIdentity cfg self stampAt first others st))"
    using assms by (simp_all add: resolve_recorded [OF assms(3,2)] n recorded_status_def)
qed

text \<open>
  Production takes its Redis back. Whatever record another deployment left, once production's
  check has answered undisturbed the Redis names production; the next check of a stoppable
  process with another DEPLOYMENT_ID, with any DEPLOYMENT_CLAIM, changes nothing, turns that
  process's background writes off, and stops its workers unless the check before had already.
\<close>

theorem production_takes_it_back:
  assumes "\<not> se_stoppable live" "truthy (se_deploymentId live) = Some pid" "st_identity st \<noteq> Some Garbage"
    and "se_stoppable stg" "truthy (se_deploymentId stg) = Some sid" "sid \<noteq> pid"
  shows "let st1 = snd (snd (checkDeploymentIdentity cfg live t1 (Some []) p st));
             e = checkDeploymentIdentity cfg stg t2 (Some others) q st1
         in names st1 pid \<and> snd (snd e) = st1 \<and> \<not> backgroundWritesAllowed (fst (snd e)) \<and>
            (fst e = [StopListeners] \<longleftrightarrow> map_option is_role (pr_status q) \<noteq> Some NotOwner)"
proof -
  define st1 where "st1 = snd (resolveIdentity cfg live t1 (\<not> pr_answered p) [] st)"
  obtain r where r: "parseRecord (st_identity st1) = Some r" "ir_id r = pid" "ir_stoppable r = Some False"
    unfolding st1_def by (rule production_signs [OF assms(1-3)])
  have st1: "snd (snd (checkDeploymentIdentity cfg live t1 (Some []) p st)) = st1"
    by (simp add: checkDeploymentIdentity_def Let_def st1_def)
  from r(2) assms(6) have "ir_id r \<noteq> sid" by simp
  note stopped = other_id_is_stopped [OF assms(4,5) r(1) this r(3)]
  have "pr_status (check_begin stg q) = pr_status q" by (simp add: check_begin_def)
  then show ?thesis unfolding st1
    by (simp add: checkDeploymentIdentity_def check_end_def backgroundWritesAllowed_def Let_def
        stopped names_def r)
qed

theorem production_takes_it_back_witness:
  "let st1 = snd (snd (checkDeploymentIdentity testnet_config production [] (Some []) started
         (signed_by (staging None) ''staging'')))
   in names st1 ''live'' \<and>
      fst (checkDeploymentIdentity testnet_config (staging None) [] (Some []) started st1) = [StopListeners]"
  using production_takes_it_back [of production "''live''" "signed_by (staging None) ''staging''"
      "staging None" "''staging''" testnet_config "[]" started "[]" "[]" started]
  by (simp add: Let_def started_def)

section \<open>Every process, over its life\<close>

text \<open>A process and the Redis it shares: its checks begin and end, and anyone else may write.\<close>

inductive identity_run :: "config \<Rightarrow> self_info \<Rightarrow> process \<Rightarrow> id_store \<Rightarrow> bool" for cfg self where
  boot: "identity_run cfg self started st"
| begun: "identity_run cfg self p st \<Longrightarrow> identity_run cfg self (check_begin self p) st"
| checked: "identity_run cfg self p st \<Longrightarrow>
    checkDeploymentIdentity cfg self stampAt answer p st = (ns, p', st') \<Longrightarrow> identity_run cfg self p' st'"
| elsewhere: "identity_run cfg self p st \<Longrightarrow> identity_run cfg self p st'"

definition process_sound :: "self_info \<Rightarrow> process \<Rightarrow> bool" where
  "process_sound self p \<longleftrightarrow>
     (\<forall>s. pr_status p = Some s \<longrightarrow> status_sound self s) \<and> (pr_firstPending p \<longrightarrow> se_stoppable self)"

lemma check_begin_sound: "process_sound self p \<Longrightarrow> process_sound self (check_begin self p)"
  by (simp add: check_begin_def process_sound_def)

lemma check_end_sound:
  "(case answer of None \<Rightarrow> True | Some s \<Rightarrow> status_sound self s) \<Longrightarrow>
    process_sound self (snd (check_end self p answer))"
  by (simp add: check_end_def process_sound_def Let_def split: option.splits)

lemma check_sound: "process_sound self (fst (snd (checkDeploymentIdentity cfg self stampAt answer p st)))"
  by (simp add: checkDeploymentIdentity_def Let_def check_end_sound resolve_sound split: option.split)

lemma identity_run_sound: "identity_run cfg self p st \<Longrightarrow> process_sound self p"
proof (induction rule: identity_run.induct)
  case (boot st)
  show ?case by (simp add: process_sound_def started_def)
next
  case (checked p st stampAt answer ns p' st')
  then show ?case by (metis check_sound fst_conv snd_conv)
qed (simp_all add: check_begin_sound)

text \<open>
  Who writes. In every state a process can come to, its background writes run exactly when
  it is production, or its last check said owner or unset, or no check has run yet: a process
  configured as production is never stopped, and a stoppable one never writes on another
  deployment's Redis, on no answer, or while its first check is in flight.
\<close>

theorem writes_run_iff:
  assumes "identity_run cfg self p st"
  shows "backgroundWritesAllowed p \<longleftrightarrow>
    \<not> se_stoppable self \<or>
    (case pr_status p of
       None \<Rightarrow> \<not> pr_firstPending p
     | Some s \<Rightarrow> is_role s = Owner \<or> is_role s = Unset)"
  using identity_run_sound [OF assms]
  by (auto simp: process_sound_def backgroundWritesAllowed_def status_sound_def split: option.split)

theorem writes_run_iff_witness:
  "\<not> backgroundWritesAllowed (check_begin (staging None) started)"
  using writes_run_iff [OF identity_run.begun [OF identity_run.boot [of testnet_config "staging None" unsigned]]]
  by (simp add: check_begin_def started_def)

end
