(* ===== verification/StuckTasks.thy ===== *)
theory StuckTasks
  imports ExpirySweep
begin

text \<open>
  \<open>services/stuckTasks.ts\<close>: triage of the tasks stranded off-chain, the forced release and the
  rewind of a submission whose evidence never landed. The chain is the parameter \<open>world\<close>; the
  agent registry is a function from a wallet to its agent. \<open>others\<close> is what other requests
  write to the store between the guards and the write. Audit logs are left out.
\<close>

section \<open>Errors\<close>

text \<open>\<open>AppError\<close> with its HTTP status and code; a store call or a lookup that throws.\<close>

datatype app_error =
    AppError int string
  | StoreThrew store_error
  | LookupThrew

fun lift_store :: "store_error + 'a \<Rightarrow> app_error + 'a" where
  "lift_store (Inl e) = Inl (StoreThrew e)"
| "lift_store (Inr x) = Inr x"

section \<open>Who the escrow assigned\<close>

definition isOwnedOnChain :: "world \<Rightarrow> string \<Rightarrow> string \<Rightarrow> bool" where
  "isOwnedOnChain w executor onChainWorker \<longleftrightarrow>
     lower onChainWorker = lower executor \<or>
     (case truthy (w_smartAccount w executor) of
        None \<Rightarrow> False
      | Some sa \<Rightarrow> lower onChainWorker = lower sa)"

section \<open>Diagnosis\<close>

datatype verdict = SafeToRelease | OwnedOnChain | Unmapped | ChainUnreachable

record stuck_agent =
  sa_id :: string
  sa_name :: string
  sa_status :: string
  sa_lastActiveAt :: "int option"
  sa_smartAccount :: "string option"

record stuck_row =
  sr_taskId :: string
  sr_status :: status
  sr_acceptedAt :: "int option"
  sr_ageMs :: "int option"
  sr_executor :: "string option"
  sr_submitter :: "string option"
  sr_chain :: "string option"
  sr_agent :: "stuck_agent option"
  sr_assignTx :: "string option"
  sr_onChainId :: "string option"
  sr_onChainStatus :: "int option"
  sr_onChainWorker :: "string option"
  sr_verdict :: verdict

definition chain_evidence ::
  "world \<Rightarrow> a2a_db \<Rightarrow> string \<Rightarrow> string option \<times> int option \<times> string option \<times> verdict" where
  "chain_evidence w db tid =
     (case resolve_cached w db tid of
        None \<Rightarrow> (None, None, None, Unmapped)
      | Some r \<Rightarrow>
          (case read_task w r of
             None \<Rightarrow> (Some (rt_taskId r), None, None, ChainUnreachable)
           | Some t \<Rightarrow>
               (Some (rt_taskId r), Some (escrow_status_num (oc_status t)), Some (oc_worker t),
                if escrow_status_num (oc_status t) = 0 then SafeToRelease else OwnedOnChain)))"

definition stuck_row_of ::
  "world \<Rightarrow> (string \<Rightarrow> stuck_agent option) \<Rightarrow> a2a_db \<Rightarrow> int \<Rightarrow> string \<times> task_state \<Rightarrow> stuck_row" where
  "stuck_row_of w agentOf db now e =
     (let s = snd e;
          executor = executorAddress s;
          agent = Option.bind (truthy executor) agentOf;
          c = chain_evidence w db (fst e)
      in \<lparr>sr_taskId = fst e, sr_status = status s, sr_acceptedAt = acceptedAt s,
          sr_ageMs = (case acceptedAt s of None \<Rightarrow> None | Some a \<Rightarrow> if a = 0 then None else Some (now - a)),
          sr_executor = executor,
          sr_submitter = (case truthy (Option.bind agent sa_smartAccount) of
             Some a \<Rightarrow> Some a | None \<Rightarrow> truthy executor),
          sr_chain = Option.bind (getMeta db (fst e)) chain,
          sr_agent = agent, sr_assignTx = assignTxHash s,
          sr_onChainId = fst c, sr_onChainStatus = fst (snd c),
          sr_onChainWorker = fst (snd (snd c)), sr_verdict = snd (snd (snd c))\<rparr>)"

text \<open>Oldest first; \<open>sort\<close> is stable, and a row without an age counts as \<open>-1\<close>.\<close>

definition age_or :: "stuck_row \<Rightarrow> int" where
  "age_or r = (case sr_ageMs r of None \<Rightarrow> -1 | Some a \<Rightarrow> a)"

definition diagnoseStuckTasks ::
  "world \<Rightarrow> (string \<Rightarrow> stuck_agent option) \<Rightarrow> a2a_db \<Rightarrow> int \<Rightarrow> string list \<Rightarrow> stuck_row list" where
  "diagnoseStuckTasks w agentOf db now keys =
     sort_key (\<lambda>r. - age_or r) (map (stuck_row_of w agentOf db now) (listStuckCandidates db keys))"

section \<open>Reading the escrow under a guard\<close>

text \<open>The escrow's task: \<open>None\<close> inside for a hash nobody maps, an error when it cannot be read.\<close>

definition onChainTask_of :: "world \<Rightarrow> a2a_db \<Rightarrow> string \<Rightarrow> app_error + onchain_task option" where
  "onChainTask_of w db taskHash =
     (case resolve w db taskHash of
        None \<Rightarrow> Inl LookupThrew
      | Some None \<Rightarrow> Inr None
      | Some (Some r) \<Rightarrow>
          if rt_taskId r = [] then Inr None
          else (case read_task w r of
             None \<Rightarrow> Inl (AppError 503 ''ON_CHAIN_CHECK_FAILED'')
           | Some t \<Rightarrow> Inr (Some t)))"

definition NOT_FOUND :: app_error where
  "NOT_FOUND = AppError 404 ''NOT_FOUND''"

definition INVALID_STATE :: app_error where
  "INVALID_STATE = AppError 409 ''INVALID_STATE''"

definition clear_routing :: "a2a_db \<Rightarrow> string \<Rightarrow> a2a_db" where
  "clear_routing db taskHash = clearCascade (clearOffer db taskHash) taskHash"

section \<open>Forced release\<close>

datatype release_result = AlreadyOpen | Forced

definition forceReleaseTask ::
  "world \<Rightarrow> (a2a_db \<Rightarrow> a2a_db) \<Rightarrow> a2a_db \<Rightarrow> string \<Rightarrow> (app_error + release_result) \<times> a2a_db" where
  "forceReleaseTask w others db taskHash =
     (if getMeta db taskHash = None then (Inl NOT_FOUND, db)
      else (case getState db taskHash of
        None \<Rightarrow> (Inl NOT_FOUND, db)
      | Some s \<Rightarrow>
          if status s = Open then (Inr AlreadyOpen, db)
          else if status s \<notin> {Accepted, InProgress, Submitted} then (Inl INVALID_STATE, db)
          else (case onChainTask_of w db taskHash of
             Inl e \<Rightarrow> (Inl e, db)
           | Inr t \<Rightarrow>
               if (case t of None \<Rightarrow> False | Some t \<Rightarrow> escrow_status_num (oc_status t) \<noteq> 0)
               then (Inl (AppError 409 ''ON_CHAIN_LOCKED''), db)
               else (case lift_store (releaseToOpen (others db) taskHash) of
                  Inl e \<Rightarrow> (Inl e, others db)
                | Inr db' \<Rightarrow> (Inr Forced, clear_routing db' taskHash)))))"

section \<open>Rewinding a submission\<close>

definition rewindSubmittedTask ::
  "world \<Rightarrow> (a2a_db \<Rightarrow> a2a_db) \<Rightarrow> a2a_db \<Rightarrow> string \<Rightarrow> (app_error + unit) \<times> a2a_db" where
  "rewindSubmittedTask w others db taskHash =
     (if getMeta db taskHash = None then (Inl NOT_FOUND, db)
      else (case getState db taskHash of
        None \<Rightarrow> (Inl NOT_FOUND, db)
      | Some s \<Rightarrow>
          if status s \<noteq> Submitted then (Inl INVALID_STATE, db)
          else (case truthy (executorAddress s) of
             None \<Rightarrow> (Inl INVALID_STATE, db)
           | Some executor \<Rightarrow>
               (case onChainTask_of w db taskHash of
                  Inl e \<Rightarrow> (Inl e, db)
                | Inr None \<Rightarrow> (Inl (AppError 409 ''UNMAPPED''), db)
                | Inr (Some t) \<Rightarrow>
                    if escrow_status_num (oc_status t) \<noteq> 1 \<or> \<not> isOwnedOnChain w executor (oc_worker t)
                    then (Inl (AppError 409 ''NOT_REWINDABLE''), db)
                    else (case lift_store (updateState (others db) taskHash [PStatus Accepted]) of
                       Inl e \<Rightarrow> (Inl e, others db)
                     | Inr (_, db') \<Rightarrow> (Inr (), clear_routing db' taskHash))))))"

fun_cases lift_store_InrE: "lift_store x = Inr y"

section \<open>Laws\<close>

lemma clear_routing_sel [simp]:
  "states (clear_routing db h) = states db" "metas (clear_routing db h) = metas db"
  "open_ix (clear_routing db h) = open_ix db" "executor_ix (clear_routing db h) = executor_ix db"
  "verifier_ix (clear_routing db h) = verifier_ix db"
  by (simp_all add: clear_routing_def clearCascade_def clearOffer_def)

lemma clear_routing_clears [simp]:
  "getOffer (clear_routing db h) now h = (None, clear_routing db h)"
  "getCascade (clear_routing db h) now h = None"
  by (simp_all add: clear_routing_def clearCascade_def clearOffer_def getOffer_def getCascade_def
      kv_get_def kv_del_def)

lemma getState_clear [simp]: "getState (clear_routing db h) k = getState db k"
  by (simp add: getState_def find_state_def cong: option.case_cong)

end
