(* ===== verification/StuckTasksProps.thy ===== *)
theory StuckTasksProps
  imports StuckTasks ExpirySweepProps
begin

text \<open>
  The properties of the stuck-task triage: what a forced release and a rewind change and what
  they leave alone, that the diagnosis says beforehand what a release will do, and the two
  cases its guard does not see.
\<close>

section \<open>Releasing\<close>

lemma index_ok_clear: "index_ok db \<Longrightarrow> index_ok (clear_routing db h)"
  by (rule index_ok_cong) simp_all

lemma getState_ok: "index_ok db \<Longrightarrow> getState db h = states db (lower h)"
  by (simp add: getState_def index_ok_find option.map_comp comp_def option.map_ident)

lemma getMeta_ok: "index_ok db \<Longrightarrow> getMeta db h = metas db (lower h)"
  by (simp add: getMeta_def index_ok_find_meta option.map_comp comp_def option.map_ident)

lemma index_ok_not_open_submission:
  "index_ok db \<Longrightarrow> states db k = Some s \<Longrightarrow> metas db k = Some m \<Longrightarrow>
    status s \<in> {Accepted, InProgress, Submitted} \<Longrightarrow> submissionMode m \<noteq> Some OpenSubmission"
  by (auto simp: mode_ok_def terminal_def elim!: index_ok_state)

text \<open>A release, when a task has a meta and a state that is not open.\<close>

lemma releaseToOpen_taken:
  assumes "index_ok db" "metas db (lower h) = Some m" "states db (lower h) = Some s" "status s \<noteq> Open"
  shows "releaseToOpen db h = Inr ((put_state db (lower h) (bare_state (lower h) Open))\<lparr>
      open_ix := (if targetExecutorType m = Agent then insert (lower h) (open_ix db) else open_ix db),
      executor_ix := (case truthy (executorAddress s) of None \<Rightarrow> executor_ix db
        | Some a \<Rightarrow> ix_rem (executor_ix db) (lower a) (lower h))\<rparr>)"
  using assms by (simp add: releaseToOpen_def index_ok_find meta_of_state_def)

text \<open>What the guards let through.\<close>

definition may_force :: "world \<Rightarrow> a2a_db \<Rightarrow> string \<Rightarrow> bool" where
  "may_force w db h \<longleftrightarrow>
     (\<exists>s. getState db h = Some s \<and> status s \<in> {Accepted, InProgress, Submitted}) \<and>
     (onChainTask_of w db h = Inr None \<or>
      (\<exists>t. onChainTask_of w db h = Inr (Some t) \<and> oc_status t = EsFunded))"

lemma escrow_num_0: "escrow_status_num x = 0 \<longleftrightarrow> x = EsFunded"
  by (cases x) simp_all

lemma escrow_num_1: "escrow_status_num x = 1 \<longleftrightarrow> x = EsAssigned"
  by (cases x) simp_all

lemma force_refused:
  assumes "\<not> may_force w db h"
  shows "snd (forceReleaseTask w others db h) = db \<and> fst (forceReleaseTask w others db h) \<noteq> Inr Forced"
  using assms by (auto simp: forceReleaseTask_def may_force_def escrow_num_0 split: option.split sum.split)

lemma force_allowed:
  assumes "may_force w db h" "getMeta db h \<noteq> None"
  shows "forceReleaseTask w others db h =
    (case lift_store (releaseToOpen (others db) h) of
       Inl e \<Rightarrow> (Inl e, others db)
     | Inr db' \<Rightarrow> (Inr Forced, clear_routing db' h))"
  using assms by (auto simp: forceReleaseTask_def may_force_def escrow_num_0)

lemma reachable_meta:
  assumes "a2a_reachable db" "getState db h = Some s"
  obtains m where "metas db (lower h) = Some m" "states db (lower h) = Some s"
proof -
  have ok: "index_ok db" by (rule reachable_index_ok [OF assms(1)])
  then have "states db (lower h) = Some s" using assms(2) by (simp add: getState_ok)
  with ok that show ?thesis by (metis index_ok_state)
qed

lemma forced_release_iff:
  assumes "a2a_reachable db"
  shows "fst (forceReleaseTask w (\<lambda>d. d) db h) = Inr Forced \<longleftrightarrow> may_force w db h"
proof (cases "may_force w db h")
  case False
  with force_refused [OF False, of "\<lambda>d. d"] show ?thesis by simp
next
  case True
  have ok: "index_ok db" by (rule reachable_index_ok [OF assms])
  from True obtain s where s: "getState db h = Some s" "status s \<noteq> Open" by (auto simp: may_force_def)
  obtain m where m: "metas db (lower h) = Some m" "states db (lower h) = Some s"
    by (rule reachable_meta [OF assms s(1)])
  show ?thesis
    using True m(1) by (simp add: force_allowed getMeta_ok [OF ok] releaseToOpen_taken [OF ok m s(2)])
qed

lemma cached_resolves:
  "resolve_cached w db h = Some r \<Longrightarrow> resolve w db h = Some (Some r)"
  by (simp add: resolve_cached_def resolveCachedTaskByHash_def resolve_def resolveTaskByHash_def Let_def)

text \<open>A chain that maps every hash to task 7, assigned to \<open>0xB\<close> in the given status.\<close>

definition mapped_world :: "escrow_status \<Rightarrow> world" where
  "mapped_world es = quiet_world\<lparr>
     w_index := (\<lambda>_. \<lparr>ti_cached = (\<lambda>_. Some ''7''), ti_resolve = (\<lambda>_. None)\<rparr>),
     w_getTaskOn := (\<lambda>_ _. Some \<lparr>oc_agent = ''0xA'', oc_worker = ''0xB'', oc_token = ''0xC2'', oc_amount = 1000, oc_taskHash = [],
       oc_status = es, oc_deadline = 0, oc_submissionAttempts = 0\<rparr>)\<rparr>"

definition submitted_db :: a2a_db where
  "submitted_db = (case updateState accepted_db ''T1'' [PStatus Submitted] of
     Inl _ \<Rightarrow> empty_db | Inr (_, db) \<Rightarrow> db)"

lemma seven: "parse_decimal ''7'' = Some 7"
  by code_simp

lemma mapped_cached:
  assumes "getMeta db h = Some m" "chain m = None" "chainId m = None"
  shows "resolve_cached (mapped_world es) db h = Some \<lparr>rt_taskId = ''7'', rt_chain = Base\<rparr>"
  using assms
  by (simp add: resolve_cached_def resolveCachedTaskByHash_def recordedChain_def onCurrentNetwork_def
      indexesFor_def SEARCH_ORDER_def mapped_world_def quiet_world_def)

lemma mapped_read:
  "read_task (mapped_world es) \<lparr>rt_taskId = ''7'', rt_chain = Base\<rparr> =
    Some \<lparr>oc_agent = ''0xA'', oc_worker = ''0xB'', oc_token = ''0xC2'', oc_amount = 1000, oc_taskHash = [], oc_status = es, oc_deadline = 0, oc_submissionAttempts = 0\<rparr>"
  by (simp add: read_task_def seven mapped_world_def quiet_world_def)

lemma mapped_task:
  assumes "getMeta db h = Some m" "chain m = None" "chainId m = None"
  shows "onChainTask_of (mapped_world es) db h =
    Inr (Some \<lparr>oc_agent = ''0xA'', oc_worker = ''0xB'', oc_token = ''0xC2'', oc_amount = 1000, oc_taskHash = [], oc_status = es, oc_deadline = 0, oc_submissionAttempts = 0\<rparr>)"
  using cached_resolves [OF mapped_cached [OF assms]] by (simp add: onChainTask_of_def mapped_read)

lemma accepted_db_facts:
  "index_ok accepted_db" "metas accepted_db = [''t1'' \<mapsto> sample_meta\<lparr>taskId := ''t1''\<rparr>]"
  "states accepted_db ''t1'' = Some ((bare_state ''t1'' Open)\<lparr>status := Accepted, executorAddress := Some ''0xB'',
     acceptedAt := Some 5\<rparr>)"
proof -
  show ok: "index_ok accepted_db" by (rule reachable_index_ok [OF accepted_db_reachable])
  show "metas accepted_db = [''t1'' \<mapsto> sample_meta\<lparr>taskId := ''t1''\<rparr>]"
    by (simp add: accepted_db_def snd_tryAccept accept_script_def posted_db_find put_state_def Let_def posted_db_sel)
  show "states accepted_db ''t1'' = Some ((bare_state ''t1'' Open)\<lparr>status := Accepted, executorAddress := Some ''0xB'',
     acceptedAt := Some 5\<rparr>)"
    using accepted_db_find by (simp add: index_ok_find [OF ok])
qed

lemma accepted_forceable: "may_force (mapped_world EsFunded) accepted_db ''T1''"
  by (simp add: may_force_def getState_ok accepted_db_facts
      mapped_task [of _ _ "sample_meta\<lparr>taskId := ''t1''\<rparr>"] getMeta_ok sample_meta_def)

lemma submitted_db_facts:
  "a2a_reachable submitted_db" "metas submitted_db = [''t1'' \<mapsto> sample_meta\<lparr>taskId := ''t1''\<rparr>]"
  "states submitted_db ''t1'' = Some ((bare_state ''t1'' Open)\<lparr>status := Submitted, executorAddress := Some ''0xB'',
     acceptedAt := Some 5\<rparr>)"
proof -
  let ?s = "(bare_state ''t1'' Open)\<lparr>status := Submitted, executorAddress := Some ''0xB'', acceptedAt := Some 5\<rparr>"
  have upd: "updateState accepted_db ''T1'' [PStatus Submitted] = Inr (?s, put_state accepted_db ''t1'' ?s)"
    by (simp add: updateState_def accepted_db_find accepted_db_facts apply_patch_def meta_of_state_def
        move_executor_def bare_state_def put_state_def Let_def sample_meta_def)
  have db: "submitted_db = put_state accepted_db ''t1'' ?s" by (simp add: submitted_db_def upd)
  have "a2a_step accepted_db submitted_db"
    unfolding db by (rule a2a_step.update [OF upd])
      (auto simp: accepted_db_facts patch_allowed_def mode_ok_def untaken_ok_def apply_patch_def Let_def sample_meta_def)
  with accepted_db_reachable show "a2a_reachable submitted_db"
    unfolding a2a_reachable_def by (rule rtranclp.rtrancl_into_rtrancl)
  show "metas submitted_db = [''t1'' \<mapsto> sample_meta\<lparr>taskId := ''t1''\<rparr>]" "states submitted_db ''t1'' = Some ?s"
    by (simp_all add: db put_state_def accepted_db_facts)
qed



text \<open>
  Rewinding a submission, with nothing written meanwhile. It goes through exactly when the
  task is submitted by a recorded executor and its escrow, mapped and readable, is assigned to
  that executor or its smart account. Then only its status moves, back to accepted: the
  executor, the times, the result and every index stay, and no offer or cascade names it.
\<close>

theorem rewind_only_moves_the_status:
  assumes reach: "a2a_reachable db" and s: "getState db h = Some s"
  shows "let r = rewindSubmittedTask w (\<lambda>d. d) db h; db' = snd r;
      allowed = (status s = Submitted \<and>
        (\<exists>x t. truthy (executorAddress s) = Some x \<and> onChainTask_of w db h = Inr (Some t) \<and>
           oc_status t = EsAssigned \<and> isOwnedOnChain w x (oc_worker t)))
    in (fst r = Inr () \<longleftrightarrow> allowed) \<and>
       (if allowed
        then states db' = (states db)(lower h \<mapsto> s\<lparr>status := Accepted\<rparr>) \<and> metas db' = metas db \<and>
          open_ix db' = open_ix db \<and> executor_ix db' = executor_ix db \<and>
          verifier_ix db' = verifier_ix db \<and>
          fst (getOffer db' now h) = None \<and> getCascade db' now h = None
        else db' = db)"
proof -
  have ok: "index_ok db" by (rule reachable_index_ok [OF reach])
  obtain m where m: "metas db (lower h) = Some m" "states db (lower h) = Some s"
    by (rule reachable_meta [OF reach s])
  define allowed where "allowed \<longleftrightarrow> status s = Submitted \<and>
    (\<exists>x t. truthy (executorAddress s) = Some x \<and> onChainTask_of w db h = Inr (Some t) \<and>
       oc_status t = EsAssigned \<and> isOwnedOnChain w x (oc_worker t))"
  have "(fst (rewindSubmittedTask w (\<lambda>d. d) db h) = Inr () \<longleftrightarrow> allowed) \<and>
    (let db' = snd (rewindSubmittedTask w (\<lambda>d. d) db h) in
     if allowed
     then states db' = (states db)(lower h \<mapsto> s\<lparr>status := Accepted\<rparr>) \<and> metas db' = metas db \<and>
       open_ix db' = open_ix db \<and> executor_ix db' = executor_ix db \<and> verifier_ix db' = verifier_ix db \<and>
       fst (getOffer db' now h) = None \<and> getCascade db' now h = None
     else db' = db)"
  proof (cases allowed)
    case True
    then obtain x t where a: "status s = Submitted" "truthy (executorAddress s) = Some x"
      "onChainTask_of w db h = Inr (Some t)" "escrow_status_num (oc_status t) = 1"
      "isOwnedOnChain w x (oc_worker t)"
      unfolding allowed_def escrow_num_1 by blast
    have id: "s\<lparr>status := Accepted, stateTaskId := lower h\<rparr> = s\<lparr>status := Accepted\<rparr>"
      using index_ok_state [OF ok m(2)] by (metis task_state.surjective task_state.update_convs(1,2))
    define d where "d = put_state db (lower h) (s\<lparr>status := Accepted\<rparr>)"
    have "updateState db h [PStatus Accepted] = Inr (s\<lparr>status := Accepted\<rparr>, d)"
      using a(1) m
      by (simp add: updateState_def index_ok_find [OF ok] apply_patch_def id move_executor_def d_def
          put_state_def Let_def split: option.split)
    then have "rewindSubmittedTask w (\<lambda>d. d) db h = (Inr (), clear_routing d h)"
      using a s m(1) by (simp add: rewindSubmittedTask_def getMeta_ok [OF ok])
    then show ?thesis using True by (simp add: d_def put_state_def)
  next
    case False
    then show ?thesis using s
      by (auto simp: rewindSubmittedTask_def allowed_def escrow_num_1 Let_def split: option.split sum.split)
  qed
  then show ?thesis unfolding Let_def allowed_def [symmetric] by simp
qed

theorem rewind_only_moves_the_status_witness:
  "states (snd (rewindSubmittedTask (mapped_world EsAssigned) (\<lambda>d. d) submitted_db ''T1'')) ''t1'' =
     Some ((bare_state ''t1'' Open)\<lparr>status := Accepted, executorAddress := Some ''0xB'', acceptedAt := Some 5\<rparr>)"
proof -
  let ?s = "(bare_state ''t1'' Open)\<lparr>status := Submitted, executorAddress := Some ''0xB'', acceptedAt := Some 5\<rparr>"
  have ok: "index_ok submitted_db" by (rule reachable_index_ok [OF submitted_db_facts(1)])
  have s: "getState submitted_db ''T1'' = Some ?s" by (simp add: getState_ok [OF ok] submitted_db_facts)
  have "getMeta submitted_db ''T1'' = Some (sample_meta\<lparr>taskId := ''t1''\<rparr>)"
    by (simp add: getMeta_ok [OF ok] submitted_db_facts)
  note t = mapped_task [OF this]
  show ?thesis
    using rewind_only_moves_the_status [OF submitted_db_facts(1) s, of "mapped_world EsAssigned"]
    by (simp add: t sample_meta_def isOwnedOnChain_def Let_def)
qed

section \<open>Diagnosis\<close>

lemma cached_id: "resolve_cached w db h = Some r \<Longrightarrow> rt_taskId r \<noteq> []"
  unfolding resolve_cached_def resolveCachedTaskByHash_def using cachedLookup_on by blast

lemma stuck_candidates:
  "e \<in> set (listStuckCandidates db keys) \<longleftrightarrow>
    fst e \<in> set keys \<and> states db (fst e) = Some (snd e) \<and> status (snd e) \<in> {Accepted, InProgress, Submitted}"
proof (induction keys)
  case (Cons k ks)
  then show ?case
    by (cases "states db k"; cases e) (auto simp: listStuckCandidates_def map_filter_simps)
qed (simp add: listStuckCandidates_def map_filter_simps)

lemma diagnosed_row:
  assumes "r \<in> set (diagnoseStuckTasks w agentOf db now keys)"
  obtains k s where "states db k = Some s" "status s \<in> {Accepted, InProgress, Submitted}"
    "r = stuck_row_of w agentOf db now (k, s)"
proof -
  obtain e where e: "e \<in> set (listStuckCandidates db keys)" and r: "r = stuck_row_of w agentOf db now e"
    using assms unfolding diagnoseStuckTasks_def set_sort set_map by blast
  have "states db (fst e) = Some (snd e)" "status (snd e) \<in> {Accepted, InProgress, Submitted}"
    using e unfolding stuck_candidates by blast+
  with r show ?thesis by (intro that [of "fst e" "snd e"]) simp_all
qed

lemma sr_sel [simp]:
  "sr_taskId (stuck_row_of w agentOf db now e) = fst e"
  "sr_verdict (stuck_row_of w agentOf db now e) = snd (snd (snd (chain_evidence w db (fst e))))"
  by (simp_all add: stuck_row_of_def Let_def)

lemma diagnosed_ids:
  "sr_taskId ` set (diagnoseStuckTasks w agentOf db now keys) =
    {k \<in> set keys. \<exists>s. states db k = Some s \<and> status s \<in> {Accepted, InProgress, Submitted}}"
proof -
  have "sr_taskId ` set (diagnoseStuckTasks w agentOf db now keys) = fst ` set (listStuckCandidates db keys)"
    by (simp add: diagnoseStuckTasks_def image_image)
  also have "\<dots> = {k \<in> set keys. \<exists>s. states db k = Some s \<and> status s \<in> {Accepted, InProgress, Submitted}}"
  proof (intro set_eqI iffI)
    fix k assume "k \<in> fst ` set (listStuckCandidates db keys)"
    then obtain e where e: "e \<in> set (listStuckCandidates db keys)" and k: "k = fst e" by blast
    from e show "k \<in> {k \<in> set keys. \<exists>s. states db k = Some s \<and> status s \<in> {Accepted, InProgress, Submitted}}"
      unfolding stuck_candidates k by blast
  next
    fix k assume "k \<in> {k \<in> set keys. \<exists>s. states db k = Some s \<and> status s \<in> {Accepted, InProgress, Submitted}}"
    then obtain s where "k \<in> set keys" "states db k = Some s" "status s \<in> {Accepted, InProgress, Submitted}"
      by blast
    then have "(k, s) \<in> set (listStuckCandidates db keys)" unfolding stuck_candidates by simp
    then show "k \<in> fst ` set (listStuckCandidates db keys)" by force
  qed
  finally show ?thesis .
qed



section \<open>What the guard does not see\<close>

text \<open>
  A task whose recorded chain moved to another network is released without any escrow
  being read: no index is asked, so the guard finds no on-chain id and nothing to refuse.
\<close>

theorem forced_release_skips_a_retired_chain:
  assumes reach: "a2a_reachable db"
    and m: "getMeta db h = Some m" "\<not> onCurrentNetwork (w_cfg w) (chain m) (chainId m)"
    and s: "getState db h = Some s" "status s \<in> {Accepted, InProgress, Submitted}"
  shows "fst (forceReleaseTask w (\<lambda>d. d) db h) = Inr Forced"
proof -
  have "recordedChain (w_cfg w) db h = Retired" using m by (simp add: recordedChain_def)
  then have "onChainTask_of w db h = Inr None"
    by (simp add: onChainTask_of_def resolve_def resolveTaskByHash_def Let_def)
  with s have "may_force w db h" by (simp add: may_force_def)
  with forced_release_iff [OF reach] show ?thesis by simp
qed

definition retired_accepted_db :: a2a_db where
  "retired_accepted_db = snd (tryAccept retired_db ''T1'' ''0xB'' 5)"

lemma retired_accepted_facts:
  "a2a_reachable retired_accepted_db"
  "metas retired_accepted_db = [''t1'' \<mapsto> sample_meta\<lparr>chain := Some ''base'', chainId := Some 8453, taskId := ''t1''\<rparr>]"
  "\<exists>s. states retired_accepted_db ''t1'' = Some s \<and> status s = Accepted"
proof -
  have sel: "states retired_db = [''t1'' \<mapsto> bare_state ''t1'' Open]"
    "metas retired_db = [''t1'' \<mapsto> sample_meta\<lparr>chain := Some ''base'', chainId := Some 8453, taskId := ''t1''\<rparr>]"
    by (simp_all add: retired_db_def setMeta_def find_state_def empty_db_def Let_def)
  have find: "find_state retired_db ''T1'' = Some (''t1'', bare_state ''t1'' Open)"
    by (simp add: find_state_def sel)
  have "a2a_step empty_db retired_db"
    unfolding retired_db_def by (rule a2a_step.post) (simp add: empty_db_def)
  moreover have "a2a_step retired_db retired_accepted_db"
    unfolding retired_accepted_db_def by (rule a2a_step.accept) simp
  ultimately show "a2a_reachable retired_accepted_db" unfolding a2a_reachable_def by simp
  show "metas retired_accepted_db = [''t1'' \<mapsto> sample_meta\<lparr>chain := Some ''base'', chainId := Some 8453, taskId := ''t1''\<rparr>]"
    "\<exists>s. states retired_accepted_db ''t1'' = Some s \<and> status s = Accepted"
    by (simp_all add: retired_accepted_db_def snd_tryAccept accept_script_def find put_state_def Let_def sel)
qed

theorem forced_release_skips_a_retired_chain_witness:
  "fst (forceReleaseTask (mapped_world EsAssigned) (\<lambda>d. d) retired_accepted_db ''T1'') = Inr Forced"
proof -
  have ok: "index_ok retired_accepted_db" by (rule reachable_index_ok [OF retired_accepted_facts(1)])
  obtain s where "states retired_accepted_db ''t1'' = Some s" "status s = Accepted"
    using retired_accepted_facts(3) by blast
  then show ?thesis
    by (intro forced_release_skips_a_retired_chain [OF retired_accepted_facts(1), of _
          "sample_meta\<lparr>chain := Some ''base'', chainId := Some 8453, taskId := ''t1''\<rparr>" _ s])
      (simp_all add: getMeta_ok [OF ok] getState_ok [OF ok] retired_accepted_facts mapped_world_def quiet_world_def
        onCurrentNetwork_def chain_key_of_def SETTLEMENT_CHAIN_KEYS_def testnet_config_def build_base_def Let_def)
qed

text \<open>
  A forced release does not look again. Whatever another request made of the task between
  the guard and the write, a submission or a settled result included, the release puts the
  empty open state over it.
\<close>

theorem forced_release_overwrites_what_happened_meanwhile:
  assumes ok: "may_force w db h" "getMeta db h \<noteq> None"
    and after: "index_ok (others db)" "metas (others db) (lower h) = Some m"
      "states (others db) (lower h) = Some s'" "status s' \<noteq> Open"
  shows "fst (forceReleaseTask w others db h) = Inr Forced \<and>
    states (snd (forceReleaseTask w others db h)) (lower h) = Some (bare_state (lower h) Open)"
  by (simp add: force_allowed [OF ok] releaseToOpen_taken [OF after] put_state_def)

theorem forced_release_overwrites_what_happened_meanwhile_witness:
  "states (snd (forceReleaseTask (mapped_world EsFunded) (\<lambda>_. submitted_db) accepted_db ''T1'')) ''t1'' =
     Some (bare_state ''t1'' Open)"
proof -
  have "getMeta accepted_db ''T1'' \<noteq> None" by (simp add: getMeta_ok accepted_db_facts)
  from forced_release_overwrites_what_happened_meanwhile [OF accepted_forceable this, of "\<lambda>_. submitted_db"]
  show ?thesis using reachable_index_ok [OF submitted_db_facts(1)] by (simp add: submitted_db_facts)
qed

end
