(* ===== verification/RateLimit.thy ===== *)
theory RateLimit
  imports Prelude
begin

text \<open>
  \<open>middleware/rateLimit.ts\<close>: the token buckets that budget the posting routes, what a request
  weighs and whose bucket it spends. Times are integer milliseconds; tokens are exact rationals
  where the code computes in floating point, so its rounding is not modelled. The windowed
  limiters of the file are the package express-rate-limit's, and only their skip test is here.
\<close>

section \<open>A bucket per key\<close>

record bucket =
  bk_tokens :: rat
  bk_at :: int

record budget =
  bu_perMinute :: nat
  bu_maxBuckets :: nat

text \<open>\<open>Map\<close> keeps insertion order: the least recently used bucket comes first.\<close>

record limiter =
  lm_buckets :: "(string \<times> bucket) list"
  lm_lastSweep :: int

definition MAX_BUCKETS :: nat where
  "MAX_BUCKETS = 20000"

definition capacity :: "budget \<Rightarrow> rat" where
  "capacity bu = of_nat (bu_perMinute bu)"

definition refillPerMs :: "budget \<Rightarrow> rat" where
  "refillPerMs bu = of_nat (bu_perMinute bu) / 60000"

definition start_limiter :: "int \<Rightarrow> limiter" where
  "start_limiter now = \<lparr>lm_buckets = [], lm_lastSweep = now\<rparr>"

definition put :: "budget \<Rightarrow> (string \<times> bucket) list \<Rightarrow> string \<Rightarrow> bucket \<Rightarrow> (string \<times> bucket) list" where
  "put bu bs k b =
     (let new = filter (\<lambda>e. fst e \<noteq> k) bs @ [(k, b)] in drop (length new - bu_maxBuckets bu) new)"

definition has_refilled :: "budget \<Rightarrow> int \<Rightarrow> bucket \<Rightarrow> bool" where
  "has_refilled bu now b \<longleftrightarrow> capacity bu \<le> bk_tokens b + of_int (now - bk_at b) * refillPerMs bu"

definition drop_refilled :: "budget \<Rightarrow> int \<Rightarrow> limiter \<Rightarrow> limiter" where
  "drop_refilled bu now lm =
     (if now - lm_lastSweep lm > 60000
      then \<lparr>lm_buckets = filter (\<lambda>e. \<not> has_refilled bu now (snd e)) (lm_buckets lm), lm_lastSweep = now\<rparr>
      else lm)"

definition available :: "budget \<Rightarrow> int \<Rightarrow> (string \<times> bucket) list \<Rightarrow> string \<Rightarrow> rat" where
  "available bu now bs k =
     (case map_of bs k of
        None \<Rightarrow> capacity bu
      | Some b \<Rightarrow> min (capacity bu) (bk_tokens b + of_int (now - bk_at b) * refillPerMs bu))"

text \<open>The weight is \<open>None\<close> when it is not a finite number.\<close>

definition cost_of :: "budget \<Rightarrow> rat option \<Rightarrow> rat" where
  "cost_of bu raw =
     min (capacity bu) (max 1 (case raw of None \<Rightarrow> 1 | Some x \<Rightarrow> of_int \<lfloor>x\<rfloor>))"

definition retry_after :: "budget \<Rightarrow> rat \<Rightarrow> int" where
  "retry_after bu missing = max 1 \<lceil>missing / refillPerMs bu / 1000\<rceil>"

text \<open>The headers a reply carries: what remains, and for a refusal the seconds to wait.\<close>

datatype reply = Passed int | TooMany int int

definition createTokenBucket ::
  "budget \<Rightarrow> int \<Rightarrow> string \<Rightarrow> rat option \<Rightarrow> limiter \<Rightarrow> reply \<times> limiter" where
  "createTokenBucket bu now k raw lm0 =
     (let lm = drop_refilled bu now lm0;
          cost = cost_of bu raw;
          tokens = available bu now (lm_buckets lm) k
      in if tokens < cost
         then (TooMany \<lfloor>tokens\<rfloor> (retry_after bu (cost - tokens)),
               lm\<lparr>lm_buckets := put bu (lm_buckets lm) k \<lparr>bk_tokens = tokens, bk_at = now\<rparr>\<rparr>)
         else (Passed \<lfloor>tokens - cost\<rfloor>,
               lm\<lparr>lm_buckets := put bu (lm_buckets lm) k \<lparr>bk_tokens = tokens - cost, bk_at = now\<rparr>\<rparr>))"

section \<open>Whose bucket, and how much\<close>

text \<open>A JSON body's \<open>tasks\<close> and \<open>items\<close>: \<open>None\<close> when absent or no array.\<close>

record http_request =
  rq_method :: string
  rq_baseUrl :: string
  rq_path :: string
  rq_apiKey :: "string option"
  rq_authorization :: "string option"
  rq_ip :: "string option"
  rq_user :: "(string option \<times> string option \<times> string option) option"
  rq_tasks :: "json list option"
  rq_items :: "json list option"

definition POSTING_ROUTES :: "string list" where
  "POSTING_ROUTES =
     [''/api/v1/tasks'', ''/api/v1/tasks/batch'', ''/api/v1/a2a/tasks/index'',
      ''/api/v1/a2a/tasks/index-batch'', ''/api/v1/storage/upload'', ''/api/v1/storage/upload-batch'']"

definition presentsCredentials :: "http_request \<Rightarrow> bool" where
  "presentsCredentials r \<longleftrightarrow>
     truthy (rq_apiKey r) \<noteq> None \<or>
     (case rq_authorization r of
        None \<Rightarrow> False
      | Some a \<Rightarrow> take 7 a = ''Bearer '' \<and> drop 7 a \<noteq> [])"

text \<open>\<open>.replace(/\/+$/, '')\<close>.\<close>

definition strip_slashes :: "string \<Rightarrow> string" where
  "strip_slashes s = rev (dropWhile (\<lambda>c. c = CHR ''/'') (rev s))"

definition isCredentialedPosting :: "http_request \<Rightarrow> bool" where
  "isCredentialedPosting r \<longleftrightarrow>
     rq_method r = ''POST'' \<and>
     strip_slashes (lower (rq_baseUrl r @ rq_path r)) \<in> set POSTING_ROUTES \<and>
     presentsCredentials r"

definition ip_key :: "http_request \<Rightarrow> string" where
  "ip_key r = ''ip:'' @ (case rq_ip r of None \<Rightarrow> ''unknown'' | Some i \<Rightarrow> i)"

text \<open>The user is the address, the token's type and the agent's owner.\<close>

definition wallet_key :: "http_request \<Rightarrow> string" where
  "wallet_key r =
     (case Option.bind (rq_user r) (\<lambda>u. truthy (map_option lower (fst u))) of
        Some a \<Rightarrow> ''wallet:'' @ a
      | None \<Rightarrow> ip_key r)"

definition posting_ip_key :: "http_request \<Rightarrow> string" where
  "posting_ip_key r =
     (case Option.bind (rq_user r)
             (\<lambda>(_, typ, owner). if typ = Some ''agent-platform'' then truthy owner else None) of
        Some owner \<Rightarrow> ''owner:'' @ lower owner
      | None \<Rightarrow> ip_key r)"

definition batch_length :: "json list option \<Rightarrow> rat option" where
  "batch_length l = Some (case l of None \<Rightarrow> 1 | Some xs \<Rightarrow> of_nat (length xs))"

definition posting_ip_weight :: "http_request \<Rightarrow> rat option" where
  "posting_ip_weight r = batch_length (case rq_tasks r of Some ts \<Rightarrow> Some ts | None \<Rightarrow> rq_items r)"

definition IP_POSTING_BUDGET_PER_MIN :: nat where
  "IP_POSTING_BUDGET_PER_MIN = 600"

definition createWalletBudget ::
  "nat \<Rightarrow> (http_request \<Rightarrow> rat option) \<Rightarrow> int \<Rightarrow> http_request \<Rightarrow> limiter \<Rightarrow> reply \<times> limiter" where
  "createWalletBudget perMinute weight now r =
     createTokenBucket \<lparr>bu_perMinute = perMinute, bu_maxBuckets = MAX_BUCKETS\<rparr> now (wallet_key r) (weight r)"

definition createPostingIpBudget :: "int \<Rightarrow> http_request \<Rightarrow> limiter \<Rightarrow> reply \<times> limiter" where
  "createPostingIpBudget now r =
     createTokenBucket \<lparr>bu_perMinute = IP_POSTING_BUDGET_PER_MIN, bu_maxBuckets = MAX_BUCKETS\<rparr> now
       (posting_ip_key r) (posting_ip_weight r)"

text \<open>
  The two budgets on a posting route, in the order they are mounted: a wallet over its own
  budget is refused before it can spend the budget it shares.
\<close>

definition posting_budgets ::
  "nat \<Rightarrow> (http_request \<Rightarrow> rat option) \<Rightarrow> int \<Rightarrow> http_request \<Rightarrow> limiter \<times> limiter \<Rightarrow>
   reply \<times> limiter \<times> limiter" where
  "posting_budgets perMinute weight now r lms =
     (let w = createWalletBudget perMinute weight now r (fst lms) in
      case fst w of
        TooMany _ _ \<Rightarrow> (fst w, snd w, snd lms)
      | Passed _ \<Rightarrow>
          let i = createPostingIpBudget now r (snd lms) in (fst i, snd w, snd i))"

end
