(* ===== verification/RateLimitProps.thy ===== *)
theory RateLimitProps
  imports RateLimit
begin

text \<open>
  What the token buckets promise: over any stretch of time a key is served at most a full bucket
  and what refilled meanwhile, and a client that waits as long as it was told is served. The
  contract of a meter is a locale; the code's buckets are its interpretation.
\<close>

section \<open>Meters\<close>

text \<open>
  A level per key that refills at a constant rate up to a cap. \<open>safe s t\<close> is what a state last
  used at \<open>t\<close> satisfies; a spend serves a request of its cost or changes no level.
\<close>

locale meter =
  fixes level :: "'s \<Rightarrow> int \<Rightarrow> 'k \<Rightarrow> rat"
    and spend :: "'s \<Rightarrow> int \<Rightarrow> 'k \<Rightarrow> rat \<Rightarrow> bool \<times> 's"
    and safe :: "'s \<Rightarrow> int \<Rightarrow> bool"
    and users :: "'k set"
    and cap rate :: rat
  assumes level_nonneg: "safe s t \<Longrightarrow> t \<le> t' \<Longrightarrow> 0 \<le> level s t' k"
    and level_cap: "level s t k \<le> cap"
    and refills: "safe s t \<Longrightarrow> t \<le> t' \<Longrightarrow> t' \<le> t'' \<Longrightarrow>
      level s t'' k = min cap (level s t' k + of_int (t'' - t') * rate)"
    and spend_safe: "safe s t \<Longrightarrow> t \<le> now \<Longrightarrow> k \<in> users \<Longrightarrow> 0 \<le> c \<Longrightarrow> safe (snd (spend s now k c)) now"
    and spend_level: "safe s t \<Longrightarrow> t \<le> now \<Longrightarrow> k \<in> users \<Longrightarrow> 0 \<le> c \<Longrightarrow>
      level (snd (spend s now k c)) now j =
        level s now j - (if j = k \<and> fst (spend s now k c) then c else 0)"
    and rate_nonneg: "0 \<le> rate"
begin

text \<open>What a key was served over a list of requests, each with its time, key and cost.\<close>

fun served :: "'s \<Rightarrow> 'k \<Rightarrow> (int \<times> 'k \<times> rat) list \<Rightarrow> rat \<times> 's" where
  "served s j [] = (0, s)"
| "served s j ((now, k, c) # rs) =
     (let r = spend s now k c; rest = served (snd r) j rs
      in ((if j = k \<and> fst r then c else 0) + fst rest, snd rest))"

fun in_order :: "int \<Rightarrow> (int \<times> 'k \<times> rat) list \<Rightarrow> bool" where
  "in_order t [] = True"
| "in_order t ((now, k, c) # rs) \<longleftrightarrow> t \<le> now \<and> k \<in> users \<and> 0 \<le> c \<and> in_order now rs"

fun last_time :: "int \<Rightarrow> (int \<times> 'k \<times> rat) list \<Rightarrow> int" where
  "last_time t [] = t"
| "last_time t ((now, k, c) # rs) = last_time now rs"

lemma last_time_ge: "in_order t rs \<Longrightarrow> t \<le> last_time t rs"
  by (induction t rs rule: last_time.induct) auto

text \<open>Nothing is created: what was served, and what is left, came from the level or the refill.\<close>

lemma conservation:
  "safe s t \<Longrightarrow> in_order t rs \<Longrightarrow>
    safe (snd (served s j rs)) (last_time t rs) \<and>
    fst (served s j rs) + level (snd (served s j rs)) (last_time t rs) j
      \<le> level s t j + of_int (last_time t rs - t) * rate"
proof (induction s j rs arbitrary: t rule: served.induct)
  case (2 s j now k c rs)
  let ?r = "spend s now k c"
  from "2.prems" have o: "t \<le> now" "k \<in> users" "0 \<le> c" "in_order now rs" by simp_all
  have safe: "safe (snd ?r) now" by (rule spend_safe [OF "2.prems"(1) o(1-3)])
  note IH = "2.IH" [OF refl safe o(4)]
  have "level s now j \<le> level s t j + of_int (now - t) * rate"
    unfolding refills [OF "2.prems"(1) order_refl o(1)] by simp
  moreover have "level (snd ?r) now j = level s now j - (if j = k \<and> fst ?r then c else 0)"
    by (rule spend_level [OF "2.prems"(1) o(1-3)])
  ultimately show ?case using IH by (simp add: Let_def algebra_simps)
qed simp

lemma window_bound:
  assumes "safe s t" "in_order t rs"
  shows "fst (served s j rs) \<le> cap + of_int (last_time t rs - t) * rate"
proof -
  note c = conservation [OF assms, of j]
  have "0 \<le> level (snd (served s j rs)) (last_time t rs) j"
    by (rule level_nonneg [OF conjunct1 [OF c] order_refl])
  with conjunct2 [OF c] level_cap [of s t j] show ?thesis by linarith
qed

text \<open>While a key sends nothing, its level only refills.\<close>

lemma undisturbed:
  "safe s t \<Longrightarrow> in_order t rs \<Longrightarrow> (\<forall>r \<in> set rs. fst (snd r) \<noteq> j) \<Longrightarrow>
    level (snd (served s j rs)) (last_time t rs) j =
      min cap (level s t j + of_int (last_time t rs - t) * rate)"
proof (induction s j rs arbitrary: t rule: served.induct)
  case (1 s j)
  then show ?case using refills [OF "1.prems"(1) order_refl order_refl, of j] by simp
next
  case (2 s j now k c rs)
  from "2.prems" have o: "t \<le> now" "k \<in> users" "0 \<le> c" "in_order now rs" "j \<noteq> k" "\<forall>r \<in> set rs. fst (snd r) \<noteq> j"
    by auto
  let ?s = "snd (spend s now k c)" and ?u = "last_time now rs"
  have safe: "safe ?s now" by (rule spend_safe [OF "2.prems"(1) o(1-3)])
  have "level ?s now j = level s now j"
    unfolding spend_level [OF "2.prems"(1) o(1-3)] using o(5) by simp
  then have "level (snd (served ?s j rs)) ?u j = min cap (level s now j + of_int (?u - now) * rate)"
    using "2.IH" [OF refl safe o(4,6)] by simp
  also have "\<dots> = level s ?u j"
    by (rule refills [OF "2.prems"(1) o(1) last_time_ge [OF o(4)], symmetric])
  also have "\<dots> = min cap (level s t j + of_int (?u - t) * rate)"
    by (rule refills [OF "2.prems"(1) order_refl]) (use o(1) last_time_ge [OF o(4)] in simp)
  finally show ?case by (simp add: Let_def)
qed

end

section \<open>The code's buckets are a meter\<close>

definition sound_bucket :: "budget \<Rightarrow> int \<Rightarrow> bucket \<Rightarrow> bool" where
  "sound_bucket bu t b \<longleftrightarrow> 0 \<le> bk_tokens b \<and> bk_tokens b \<le> capacity bu \<and> bk_at b \<le> t"

text \<open>
  A limiter whose keys all fit: each key once, no bucket from the future, none below empty or
  above full, and room for every key of \<open>ks\<close>.
\<close>

definition sound :: "budget \<Rightarrow> string set \<Rightarrow> limiter \<Rightarrow> int \<Rightarrow> bool" where
  "sound bu ks lm t \<longleftrightarrow>
     finite ks \<and> card ks \<le> bu_maxBuckets bu \<and>
     distinct (map fst (lm_buckets lm)) \<and> fst ` set (lm_buckets lm) \<subseteq> ks \<and>
     (\<forall>e \<in> set (lm_buckets lm). sound_bucket bu t (snd e))"

definition level_of :: "budget \<Rightarrow> limiter \<Rightarrow> int \<Rightarrow> string \<Rightarrow> rat" where
  "level_of bu lm t k = available bu t (lm_buckets lm) k"

definition passed :: "reply \<Rightarrow> bool" where
  "passed r \<longleftrightarrow> (case r of Passed _ \<Rightarrow> True | TooMany _ _ \<Rightarrow> False)"

lemma passed_simps [simp]: "passed (Passed n)" "\<not> passed (TooMany n m)"
  by (simp_all add: passed_def)

text \<open>A request of a given cost: the weight as it is, for a cost between one and the capacity.\<close>

definition charge :: "budget \<Rightarrow> limiter \<Rightarrow> int \<Rightarrow> string \<Rightarrow> rat \<Rightarrow> bool \<times> limiter" where
  "charge bu lm now k c =
     (let lm' = drop_refilled bu now lm; tokens = available bu now (lm_buckets lm') k in
      (c \<le> tokens,
       lm'\<lparr>lm_buckets := put bu (lm_buckets lm') k
             \<lparr>bk_tokens = (if c \<le> tokens then tokens - c else tokens), bk_at = now\<rparr>\<rparr>))"

lemma bucket_charges:
  "(passed (fst (createTokenBucket bu now k raw lm)), snd (createTokenBucket bu now k raw lm)) =
    charge bu lm now k (cost_of bu raw)"
  by (simp add: createTokenBucket_def charge_def Let_def)

lemma capacity_nonneg [simp]: "0 \<le> capacity bu"
  by (simp add: capacity_def)

lemma refill_nonneg [simp]: "0 \<le> refillPerMs bu"
  by (simp add: refillPerMs_def)

lemma sound_bucket_of:
  "sound bu ks lm t \<Longrightarrow> map_of (lm_buckets lm) k = Some b \<Longrightarrow> sound_bucket bu t b"
  unfolding sound_def using map_of_SomeD by fastforce

lemma refill_twice:
  fixes x r c :: rat
  assumes "0 \<le> r" "0 \<le> a" "0 \<le> b"
  shows "min c (x + (a + b) * r) = min c (min c (x + a * r) + b * r)"
proof -
  have "0 \<le> b * r" using assms by simp
  then show ?thesis by (auto simp: min_def algebra_simps)
qed

lemma level_refills:
  assumes "sound bu ks lm t" "t \<le> t'" "t' \<le> t''"
  shows "level_of bu lm t'' k = min (capacity bu) (level_of bu lm t' k + of_int (t'' - t') * refillPerMs bu)"
proof (cases "map_of (lm_buckets lm) k")
  case None
  then show ?thesis using assms(3) by (simp add: level_of_def available_def)
next
  case (Some b)
  then have "bk_at b \<le> t" using sound_bucket_of [OF assms(1)] by (simp add: sound_bucket_def)
  then have "0 \<le> (of_int (t' - bk_at b) :: rat)" "0 \<le> (of_int (t'' - t') :: rat)" using assms by simp_all
  from refill_twice [OF refill_nonneg [of bu] this, of "capacity bu" "bk_tokens b"] Some show ?thesis
    by (simp add: level_of_def available_def)
qed

lemma level_of_nonneg:
  assumes "sound bu ks lm t" "t \<le> t'"
  shows "0 \<le> level_of bu lm t' k"
proof (cases "map_of (lm_buckets lm) k")
  case (Some b)
  then have "sound_bucket bu t b" by (rule sound_bucket_of [OF assms(1)])
  with assms(2) have "0 \<le> bk_tokens b" "0 \<le> of_int (t' - bk_at b) * refillPerMs bu"
    by (simp_all add: sound_bucket_def)
  with Some show ?thesis by (simp add: level_of_def available_def)
qed (simp add: level_of_def available_def)

text \<open>Dropping the buckets that have refilled changes no level from then on.\<close>

lemma map_of_filter_kept:
  "distinct (map fst xs) \<Longrightarrow>
    map_of (filter (\<lambda>e. P (snd e)) xs) k = (case map_of xs k of None \<Rightarrow> None | Some v \<Rightarrow> if P v then Some v else None)"
  by (induction xs) (auto split: option.splits dest: map_of_SomeD simp: image_iff)

lemma drop_refilled_level:
  assumes "sound bu ks lm t" "t \<le> now"
  shows "available bu now (lm_buckets (drop_refilled bu now lm)) k = level_of bu lm now k"
proof -
  have "distinct (map fst (lm_buckets lm))" using assms by (simp add: sound_def)
  note kept = map_of_filter_kept [OF this, of "\<lambda>b. \<not> has_refilled bu now b" k]
  show ?thesis
  proof (cases "now - lm_lastSweep lm > 60000")
    case True
    then have "lm_buckets (drop_refilled bu now lm) =
        filter (\<lambda>e. \<not> has_refilled bu now (snd e)) (lm_buckets lm)"
      by (simp add: drop_refilled_def)
    then have "map_of (lm_buckets (drop_refilled bu now lm)) k =
        (case map_of (lm_buckets lm) k of None \<Rightarrow> None | Some b \<Rightarrow> if \<not> has_refilled bu now b then Some b else None)"
      by (simp only: kept)
    then show ?thesis
      by (cases "map_of (lm_buckets lm) k") (simp_all add: level_of_def available_def has_refilled_def)
  qed (simp add: drop_refilled_def level_of_def)
qed

lemma drop_refilled_sound:
  assumes "sound bu ks lm t" "t \<le> now"
  shows "sound bu ks (drop_refilled bu now lm) now"
proof -
  have d: "distinct (map fst (lm_buckets lm))" using assms by (simp add: sound_def)
  then have "distinct (map fst (filter (\<lambda>e. P e) (lm_buckets lm)))" for P by (rule distinct_map_filter)
  with assms show ?thesis
    by (auto simp: sound_def drop_refilled_def sound_bucket_def)
qed

text \<open>Putting a bucket back, when every key fits.\<close>

lemma map_of_put: "map_of (filter (\<lambda>e. fst e \<noteq> k) bs @ [(k, b)]) j = (if j = k then Some b else map_of bs j)"
  by (induction bs) auto

lemma available_put:
  "available bu now (filter (\<lambda>e. fst e \<noteq> k) bs @ [(k, b)]) j =
    (if j = k then min (capacity bu) (bk_tokens b + of_int (now - bk_at b) * refillPerMs bu)
     else available bu now bs j)"
  unfolding available_def map_of_put by simp

lemma put_fits:
  assumes "distinct (map fst bs)" "fst ` set bs \<subseteq> ks" "k \<in> ks" "finite ks" "card ks \<le> bu_maxBuckets bu"
  shows "put bu bs k b = filter (\<lambda>e. fst e \<noteq> k) bs @ [(k, b)]"
proof -
  let ?new = "filter (\<lambda>e. fst e \<noteq> k) bs @ [(k, b)]"
  have "distinct (map fst ?new)" using assms(1) by (simp add: distinct_map_filter image_iff)
  then have "length ?new = card (set (map fst ?new))" by (metis distinct_card length_map)
  also have "\<dots> \<le> card ks" using assms by (intro card_mono) auto
  finally show ?thesis using assms(5) by (simp add: put_def Let_def)
qed

lemma charge_sound:
  assumes "sound bu ks lm t" "t \<le> now" "k \<in> ks" "0 \<le> c"
  shows "sound bu ks (snd (charge bu lm now k c)) now"
    and "level_of bu (snd (charge bu lm now k c)) now j =
      level_of bu lm now j - (if j = k \<and> fst (charge bu lm now k c) then c else 0)"
proof -
  let ?lm = "drop_refilled bu now lm"
  let ?x = "available bu now (lm_buckets ?lm) k"
  let ?b = "\<lparr>bk_tokens = (if c \<le> ?x then ?x - c else ?x), bk_at = now\<rparr>"
  have s: "sound bu ks ?lm now" by (rule drop_refilled_sound [OF assms(1,2)])
  then have f: "put bu (lm_buckets ?lm) k ?b = filter (\<lambda>e. fst e \<noteq> k) (lm_buckets ?lm) @ [(k, ?b)]"
    using assms(3) by (intro put_fits [where ks = ks]) (simp_all add: sound_def)
  have lev: "available bu now (lm_buckets ?lm) i = level_of bu lm now i" for i
    by (rule drop_refilled_level [OF assms(1,2)])
  have x: "0 \<le> ?x" "?x \<le> capacity bu"
    using level_of_nonneg [OF assms(1,2), of k] unfolding lev
    by (simp_all add: level_of_def available_def split: option.split)
  have b: "sound_bucket bu now ?b" using x assms(4) by (simp add: sound_bucket_def)
  have r: "snd (charge bu lm now k c) = ?lm\<lparr>lm_buckets := filter (\<lambda>e. fst e \<noteq> k) (lm_buckets ?lm) @ [(k, ?b)]\<rparr>"
    "fst (charge bu lm now k c) \<longleftrightarrow> c \<le> ?x"
    by (simp_all only: charge_def Let_def f fst_conv snd_conv)
  show "sound bu ks (snd (charge bu lm now k c)) now"
    using s b assms(3) unfolding r sound_def
    by (auto simp: distinct_map_filter image_iff)
  show "level_of bu (snd (charge bu lm now k c)) now j =
      level_of bu lm now j - (if j = k \<and> fst (charge bu lm now k c) then c else 0)"
    unfolding lev [symmetric] r using x assms(4) by (simp add: available_put level_of_def)
qed

text \<open>The buckets of a budget are a meter for any keys that all fit in its map.\<close>

interpretation buckets: meter "level_of bu" "charge bu" "sound bu ks" ks "capacity bu" "refillPerMs bu"
  for bu ks
proof unfold_locales
  show "level_of bu lm t k \<le> capacity bu" for lm t k
    by (simp add: level_of_def available_def split: option.split)
  show "0 \<le> refillPerMs bu" by simp
qed (rule level_of_nonneg level_refills charge_sound; assumption)+

section \<open>What a run of requests is served\<close>

text \<open>The items one key is let through, over a list of requests: time, key and weight.\<close>

fun spent :: "budget \<Rightarrow> string \<Rightarrow> (int \<times> string \<times> rat option) list \<Rightarrow> limiter \<Rightarrow> rat \<times> limiter" where
  "spent bu j [] lm = (0, lm)"
| "spent bu j ((now, k, raw) # rs) lm =
     (let r = createTokenBucket bu now k raw lm; rest = spent bu j rs (snd r)
      in ((if j = k \<and> passed (fst r) then cost_of bu raw else 0) + fst rest, snd rest))"

text \<open>Times do not run backwards and every key is one of \<open>ks\<close>.\<close>

fun orderly :: "string set \<Rightarrow> int \<Rightarrow> (int \<times> string \<times> rat option) list \<Rightarrow> bool" where
  "orderly ks t [] = True"
| "orderly ks t ((now, k, raw) # rs) \<longleftrightarrow> t \<le> now \<and> k \<in> ks \<and> orderly ks now rs"

fun end_time :: "int \<Rightarrow> (int \<times> string \<times> rat option) list \<Rightarrow> int" where
  "end_time t [] = t"
| "end_time t ((now, k, raw) # rs) = end_time now rs"

definition charges :: "budget \<Rightarrow> (int \<times> string \<times> rat option) list \<Rightarrow> (int \<times> string \<times> rat) list" where
  "charges bu rs = map (\<lambda>(now, k, raw). (now, k, cost_of bu raw)) rs"

lemma cost_nonneg [simp]: "0 \<le> cost_of bu raw"
  by (simp add: cost_of_def)

lemma cost_le_capacity [simp]: "cost_of bu raw \<le> capacity bu"
  by (simp add: cost_of_def)

lemma bucket_is_charge:
  "passed (fst (createTokenBucket bu now k raw lm)) = fst (charge bu lm now k (cost_of bu raw))"
  "snd (createTokenBucket bu now k raw lm) = snd (charge bu lm now k (cost_of bu raw))"
  using bucket_charges [of bu now k raw lm] by (simp_all add: prod_eq_iff)

lemma spent_is_served: "spent bu j rs lm = buckets.served bu lm j (charges bu rs)"
  by (induction bu j rs lm rule: spent.induct)
    (simp_all add: charges_def bucket_is_charge Let_def)

lemma charges_in_order: "buckets.in_order ks t (charges bu rs) = orderly ks t rs"
  by (induction ks t rs rule: orderly.induct) (simp_all add: charges_def)

lemma charges_last: "buckets.last_time t (charges bu rs) = end_time t rs"
  by (induction t rs rule: end_time.induct) (simp_all add: charges_def)

lemma sound_start: "finite ks \<Longrightarrow> card ks \<le> bu_maxBuckets bu \<Longrightarrow> sound bu ks (start_limiter t) t"
  by (simp add: sound_def start_limiter_def)

text \<open>
  C36. A budget is kept. From any point of a process's life, as long as the keys it sees fit in
  its map, what one key is let through over any stretch of time is at most one full bucket and
  what refills in that time, whatever the others send; and the stretch leaves a limiter of which
  the same holds.
\<close>

theorem budget_is_kept:
  assumes "sound bu ks lm t" "orderly ks t rs"
  shows "fst (spent bu j rs lm) \<le>
      of_nat (bu_perMinute bu) + of_int (end_time t rs - t) * of_nat (bu_perMinute bu) / 60000 \<and>
    sound bu ks (snd (spent bu j rs lm)) (end_time t rs)"
proof -
  have o: "buckets.in_order ks t (charges bu rs)" using assms(2) by (simp add: charges_in_order)
  show ?thesis
    using buckets.window_bound [OF assms(1) o, of j] buckets.conservation [OF assms(1) o, of j]
    unfolding spent_is_served charges_last by (simp add: capacity_def refillPerMs_def)
qed

theorem budget_is_kept_witness:
  "fst (spent \<lparr>bu_perMinute = 2, bu_maxBuckets = 5\<rparr> ''a''
      [(0, ''a'', None), (0, ''a'', None), (0, ''a'', None), (30000, ''a'', None)] (start_limiter 0)) \<le> 3"
  using budget_is_kept [of "\<lparr>bu_perMinute = 2, bu_maxBuckets = 5\<rparr>" "{''a''}" "start_limiter 0" 0
      "[(0, ''a'', None), (0, ''a'', None), (0, ''a'', None), (30000, ''a'', None)]" "''a''"]
  by (simp add: sound_start)

text \<open>
  Retry-After is enough. A request refused with a number of seconds is let through when it
  comes again that many seconds later, if its key sent nothing in between, whatever the others
  sent.
\<close>

theorem retry_after_is_enough:
  assumes safe: "sound bu ks lm t" "t \<le> now" "j \<in> ks" "0 < bu_perMinute bu"
    and refused: "createTokenBucket bu now j raw lm = (TooMany left wait, lm1)"
    and others: "orderly ks now rs" "\<forall>r \<in> set rs. fst (snd r) \<noteq> j"
    and later: "end_time now rs \<le> now'" "now + 1000 * wait \<le> now'"
  shows "passed (fst (createTokenBucket bu now' j raw (snd (spent bu j rs lm1))))"
proof -
  let ?c = "cost_of bu raw" and ?r = "refillPerMs bu" and ?lm2 = "snd (spent bu j rs lm1)"
  let ?u = "end_time now rs"
  have r: "0 < ?r" using safe(4) by (simp add: refillPerMs_def)
  have lm1: "lm1 = snd (charge bu lm now j ?c)" using bucket_is_charge(2) [of bu now j raw lm] refused by simp
  have s1: "sound bu ks lm1 now" unfolding lm1 by (rule charge_sound [OF safe(1-3)]) simp
  have "\<not> fst (charge bu lm now j ?c)" using bucket_is_charge(1) [of bu now j raw lm] refused by simp
  then have l1: "level_of bu lm1 now j = level_of bu lm now j"
    unfolding lm1 using charge_sound(2) [OF safe(1-3) cost_nonneg] by simp
  have wait: "wait = retry_after bu (?c - level_of bu lm now j)"
    using refused drop_refilled_level [OF safe(1,2)]
    by (simp add: createTokenBucket_def Let_def split: if_splits)
  have o: "buckets.in_order ks now (charges bu rs)" using others(1) by (simp add: charges_in_order)
  have q: "\<forall>r \<in> set (charges bu rs). fst (snd r) \<noteq> j" using others(2) by (auto simp: charges_def)
  have s2: "sound bu ks ?lm2 ?u"
    using buckets.conservation [OF s1 o, of j] unfolding spent_is_served charges_last by blast
  have u: "now \<le> ?u" using buckets.last_time_ge [OF o] by (simp add: charges_last)
  have "level_of bu ?lm2 ?u j = min (capacity bu) (level_of bu lm1 now j + of_int (?u - now) * ?r)"
    using buckets.undisturbed [OF s1 o q] unfolding spent_is_served charges_last .
  also have "\<dots> = level_of bu lm1 ?u j" by (rule level_refills [OF s1 order_refl u, symmetric])
  finally have same: "level_of bu ?lm2 ?u j = level_of bu lm1 ?u j" .
  have "level_of bu ?lm2 now' j = min (capacity bu) (level_of bu lm1 ?u j + of_int (now' - ?u) * ?r)"
    unfolding same [symmetric] by (rule level_refills [OF s2 order_refl later(1)])
  also have "\<dots> = level_of bu lm1 now' j" by (rule level_refills [OF s1 u later(1), symmetric])
  also have "\<dots> = min (capacity bu) (level_of bu lm now j + of_int (now' - now) * ?r)"
    unfolding l1 [symmetric] by (rule level_refills [OF s1 order_refl]) (use u later(1) in simp)
  finally have l2: "level_of bu ?lm2 now' j = min (capacity bu) (level_of bu lm now j + of_int (now' - now) * ?r)" .
  have "(?c - level_of bu lm now j) / ?r / 1000 \<le> of_int wait"
    unfolding wait retry_after_def by (rule order_trans [OF le_of_int_ceiling]) simp
  then have "?c - level_of bu lm now j \<le> of_int (1000 * wait) * ?r"
    using r by (simp add: divide_le_eq mult_ac)
  also have "\<dots> \<le> of_int (now' - now) * ?r"
    using later(2) by (intro mult_right_mono refill_nonneg) linarith
  finally have "?c \<le> level_of bu ?lm2 now' j" unfolding l2 by simp
  moreover have "available bu now' (lm_buckets (drop_refilled bu now' ?lm2)) j = level_of bu ?lm2 now' j"
    by (rule drop_refilled_level [OF s2 later(1)])
  ultimately show ?thesis by (simp add: bucket_is_charge(1) charge_def Let_def)
qed

theorem retry_after_is_enough_witness:
  "let bu = \<lparr>bu_perMinute = 1, bu_maxBuckets = 5\<rparr>;
       lm = \<lparr>lm_buckets = [(''a'', \<lparr>bk_tokens = 0, bk_at = 0\<rparr>)], lm_lastSweep = 0\<rparr>
   in createTokenBucket bu 0 ''a'' None lm = (TooMany 0 60, lm) \<and>
      passed (fst (createTokenBucket bu 60000 ''a'' None (snd (spent bu ''a'' [(7, ''b'', None)] lm))))"
proof -
  let ?bu = "\<lparr>bu_perMinute = 1, bu_maxBuckets = 5\<rparr>"
  let ?lm = "\<lparr>lm_buckets = [(''a'', \<lparr>bk_tokens = 0, bk_at = 0\<rparr>)], lm_lastSweep = 0\<rparr>"
  have r: "createTokenBucket ?bu 0 ''a'' None ?lm = (TooMany 0 60, ?lm)"
    by (simp add: createTokenBucket_def drop_refilled_def available_def capacity_def cost_of_def
        retry_after_def refillPerMs_def put_def Let_def)
  have "sound ?bu {''a'', ''b''} ?lm 0" by (simp add: sound_def sound_bucket_def capacity_def)
  from retry_after_is_enough [OF this order_refl _ _ r, of "[(7, ''b'', None)]" 60000]
  show ?thesis using r by (simp add: Let_def)
qed

end
