(* ===== verification/Rubric.thy ===== *)
theory Rubric
  imports Prelude
begin

text \<open>
  \<open>services/rubricEngine.ts\<close>: the guard against regular expressions that backtrack
  exponentially, the plain rubrics, and the two ways of combining rubrics into a score. A rubric
  is a function from an output to a score or the message it throws; scores are exact rationals
  where the code computes in floating point. The rubrics over JSON found in prose and over
  labels, and the timed regex test, are not modelled.
\<close>

section \<open>Rubrics\<close>

type_synonym rubric_fn = "string \<Rightarrow> string + rat"

text \<open>\<open>safe\<close>: a score is clamped; a throw scores 0 and leaves a message.\<close>

definition safe :: "rubric_fn \<Rightarrow> string \<Rightarrow> string \<Rightarrow> rat \<times> string option" where
  "safe f name output =
     (case f output of
        Inr s \<Rightarrow> (min 1 (max 0 s), None)
      | Inl msg \<Rightarrow> (0, Some (name @ '': '' @ msg)))"

definition ContainsKeywords :: "string list \<Rightarrow> rubric_fn" where
  "ContainsKeywords keywords output =
     Inr (if keywords = [] then 1
          else of_nat (length (filter (\<lambda>k. contains (lower output) (lower k)) keywords)) /
               of_nat (length keywords))"

text \<open>The maximum is \<open>None\<close> for \<open>Infinity\<close>.\<close>

definition LengthBetween :: "rat \<Rightarrow> rat option \<Rightarrow> rubric_fn" where
  "LengthBetween minLen maxLen output =
     (let len = of_nat (length output) in
      Inr (if len < minLen then min 1 (len / minLen)
           else (case maxLen of
                   None \<Rightarrow> 1
                 | Some m \<Rightarrow> if len > m then min 1 (m / len) else 1)))"

definition NoForbiddenPhrases :: "string list \<Rightarrow> rubric_fn" where
  "NoForbiddenPhrases phrases output =
     Inr (if phrases = [] then 1
          else if list_ex (\<lambda>p. contains (lower output) (lower p)) phrases then 0 else 1)"

text \<open>\<open>hasContent\<close> of a JSON value; \<open>None\<close> is \<open>undefined\<close>.\<close>

fun hasContent :: "json option \<Rightarrow> bool" where
  "hasContent None = False"
| "hasContent (Some JNull) = False"
| "hasContent (Some (JStr s)) = (trim s \<noteq> [])"
| "hasContent (Some (JArr xs)) = (xs \<noteq> [])"
| "hasContent (Some (JObj kvs)) = (kvs \<noteq> [])"
| "hasContent (Some _) = True"

section \<open>Combining rubrics\<close>

text \<open>A rubric's entry: the function, its weight and its name, if it has one.\<close>

record rubric_entry =
  re_fn :: rubric_fn
  re_weight :: rat
  re_name :: "string option"

record rubric_result =
  rr_name :: string
  rr_score :: rat
  rr_weight :: rat
  rr_reason :: string
  rr_error :: "string option"

text \<open>The score is \<open>None\<close> when it is \<open>NaN\<close>.\<close>

record score_result =
  sc_score :: "rat option"
  sc_passed :: bool
  sc_breakdown :: "rubric_result list"
  sc_errors :: "string \<rightharpoonup> string"

definition named :: "rubric_entry list \<Rightarrow> (rubric_fn \<times> rat \<times> string) list" where
  "named rs = map (\<lambda>(i, r). (re_fn r, re_weight r,
     case re_name r of Some n \<Rightarrow> n | None \<Rightarrow> ''rubric_'' @ show_nat i)) (enumerate 0 rs)"

definition add_error :: "string \<Rightarrow> string option \<Rightarrow> (string \<rightharpoonup> string) \<Rightarrow> (string \<rightharpoonup> string)" where
  "add_error name e m = (case truthy e of None \<Rightarrow> m | Some msg \<Rightarrow> m(name \<mapsto> msg))"

text \<open>\<open>Math.round(x * 1000) / 1000\<close>.\<close>

definition round3 :: "rat \<Rightarrow> rat" where
  "round3 x = of_int \<lfloor>x * 1000 + 1 / 2\<rfloor> / 1000"

definition weighted_entry :: "string \<Rightarrow> rubric_fn \<times> rat \<times> string \<Rightarrow> rubric_result" where
  "weighted_entry output r =
     (let (f, w, name) = r; s = safe f name output in
      \<lparr>rr_name = name, rr_score = fst s, rr_weight = w,
       rr_reason = (if truthy (snd s) \<noteq> None then ''CRASHED'' else []), rr_error = snd s\<rparr>)"

text \<open>The loop: breakdown, errors, weighted sum and total weight.\<close>

fun weigh ::
  "string \<Rightarrow> (rubric_fn \<times> rat \<times> string) list \<Rightarrow>
   rubric_result list \<times> (string \<rightharpoonup> string) \<times> rat \<times> rat \<Rightarrow>
   rubric_result list \<times> (string \<rightharpoonup> string) \<times> rat \<times> rat" where
  "weigh output [] acc = acc"
| "weigh output (r # rs) (bs, es, s, t) =
     (let b = weighted_entry output r in
      weigh output rs
        (bs @ [b], add_error (rr_name b) (rr_error b) es, s + rr_score b * rr_weight b, t + rr_weight b))"

definition WeightedRubric_score :: "rubric_entry list \<Rightarrow> string \<Rightarrow> rat \<Rightarrow> score_result" where
  "WeightedRubric_score rs output passThreshold =
     (case weigh output (named rs) ([], Map.empty, 0, 0) of
        (bs, es, s, t) \<Rightarrow>
          let final = (if t > 0 then s / t else 0) in
          \<lparr>sc_score = Some (round3 final), sc_passed = (final \<ge> passThreshold),
           sc_breakdown = bs, sc_errors = es\<rparr>)"

text \<open>The strict mode.\<close>

definition strict_passes :: "rat \<Rightarrow> rat \<times> string option \<Rightarrow> bool" where
  "strict_passes threshold s \<longleftrightarrow> truthy (snd s) = None \<and> fst s \<ge> threshold"

definition strict_entry :: "nat \<Rightarrow> rat \<Rightarrow> string \<Rightarrow> rubric_fn \<times> rat \<times> string \<Rightarrow> rubric_result" where
  "strict_entry n threshold output r =
     (let (f, _, name) = r; s = safe f name output in
      \<lparr>rr_name = name, rr_score = fst s, rr_weight = 1 / of_nat n,
       rr_reason = (if truthy (snd s) \<noteq> None then ''CRASHED''
                    else if strict_passes threshold s then ''PASS'' else ''BELOW_THRESHOLD''),
       rr_error = snd s\<rparr>)"

definition AllRubric_score :: "rubric_entry list \<Rightarrow> rat \<Rightarrow> string \<Rightarrow> score_result" where
  "AllRubric_score rs threshold output =
     (let bs = map (strict_entry (length rs) threshold output) (named rs);
          total = sum_list (map rr_score bs)
      in \<lparr>sc_score = (if bs = [] then None else Some (round3 (total / of_nat (length bs)))),
          sc_passed = list_all (\<lambda>b. truthy (rr_error b) = None \<and> rr_score b \<ge> threshold) bs,
          sc_breakdown = bs,
          sc_errors = fold (\<lambda>b. add_error (rr_name b) (rr_error b)) bs Map.empty\<rparr>)"

section \<open>Regular expressions that may backtrack\<close>

definition is_digit :: "char \<Rightarrow> bool" where
  "is_digit c \<longleftrightarrow> c \<in> set ''0123456789''"

text \<open>\<open>/^\{\d*,?\d*\}/\<close> on a text that starts with the brace given.\<close>

definition brace_quantifier :: "string \<Rightarrow> bool" where
  "brace_quantifier s \<longleftrightarrow>
     (case s of
        [] \<Rightarrow> False
      | c # cs \<Rightarrow> c = CHR ''{'' \<and>
          (let ds = dropWhile is_digit cs;
               ds' = (case ds of [] \<Rightarrow> [] | d # r \<Rightarrow> if d = CHR '','' then r else d # r);
               es = dropWhile is_digit ds'
           in (case es of [] \<Rightarrow> False | e # _ \<Rightarrow> e = CHR ''}'')))"

text \<open>The quantifier test at a position: \<open>src.slice(i, i + 12)\<close> for a brace.\<close>

definition is_quant :: "string \<Rightarrow> bool" where
  "is_quant s \<longleftrightarrow>
     (case s of
        [] \<Rightarrow> False
      | c # _ \<Rightarrow> c = CHR ''*'' \<or> c = CHR ''+'' \<or> (c = CHR ''{'' \<and> brace_quantifier (take 12 s)))"

text \<open>The rest of a character class, after its closing bracket.\<close>

fun skip_class :: "string \<Rightarrow> string" where
  "skip_class [] = []"
| "skip_class (c # cs) =
     (if c = CHR '']'' then cs
      else if c = CHR 0x5C then (case cs of [] \<Rightarrow> [] | _ # r \<Rightarrow> skip_class r)
      else skip_class cs)"

lemma skip_class_length: "length (skip_class s) \<le> length s"
proof (induction s rule: skip_class.induct)
  case (2 c cs)
  then show ?case by (cases cs) (simp_all add: le_SucI)
qed simp

text \<open>\<open>groupHasQuant\<close> is a stack; here its last element comes first.\<close>

definition mark_top :: "bool list \<Rightarrow> bool list" where
  "mark_top stk = (case stk of [] \<Rightarrow> [] | _ # r \<Rightarrow> True # r)"

datatype char_role = Escape | ClassOpen | GroupOpen | GroupClose | Plain

definition role_of :: "char \<Rightarrow> char_role" where
  "role_of c =
     (if c = CHR 0x5C then Escape else if c = CHR ''['' then ClassOpen
      else if c = CHR ''('' then GroupOpen else if c = CHR '')'' then GroupClose else Plain)"

function scan :: "string \<Rightarrow> bool list \<Rightarrow> bool \<Rightarrow> bool \<Rightarrow> bool" where
  "scan [] stk closedHad prevClose = True"
| "scan (c # cs) stk closedHad prevClose =
     (case role_of c of
        Escape \<Rightarrow> scan (drop 1 cs) stk closedHad False
      | ClassOpen \<Rightarrow> scan (skip_class cs) stk closedHad False
      | GroupOpen \<Rightarrow> scan cs (False # stk) closedHad False
      | GroupClose \<Rightarrow>
          let had = (case stk of [] \<Rightarrow> False | h # _ \<Rightarrow> h); rest = drop 1 stk in
          scan cs (if had then mark_top rest else rest) had True
      | Plain \<Rightarrow>
          if is_quant (c # cs) then
            (if prevClose \<and> closedHad then False else scan cs (mark_top stk) closedHad False)
          else scan cs stk closedHad False)"
  by pat_completeness auto
termination
  by (relation "measure (\<lambda>(s, _). length s)") (auto simp: le_imp_less_Suc skip_class_length)

definition isSafeRegexSource :: "string \<Rightarrow> bool" where
  "isSafeRegexSource src \<longleftrightarrow> length src \<le> 200 \<and> scan src [] False False"

end
