(* ===== verification/RubricProps.thy ===== *)
theory RubricProps
  imports Rubric
begin

text \<open>
  The properties of the rubric engine: what the regular-expression guard refuses, as a statement
  about the expression's structure rather than its text, and what a weighted score can be and
  how a rubric that throws enters it.
\<close>

section \<open>The regular-expression guard\<close>

text \<open>
  The expressions the guard is about, as a sequence of pieces: a literal, an escape, a character
  class or a group, each with an optional quantifier, then the rest.
\<close>

datatype quantifier = Star | Plus | Count string "string option"

datatype regex =
    Done
  | Lit char "quantifier option" regex
  | Escaped char "quantifier option" regex
  | Class string "quantifier option" regex
  | Group regex "quantifier option" regex

fun print_quant :: "quantifier option \<Rightarrow> string" where
  "print_quant None = []"
| "print_quant (Some Star) = ''*''"
| "print_quant (Some Plus) = ''+''"
| "print_quant (Some (Count a None)) = ''{'' @ a @ ''}''"
| "print_quant (Some (Count a (Some b))) = ''{'' @ a @ '','' @ b @ ''}''"

fun print_regex :: "regex \<Rightarrow> string" where
  "print_regex Done = []"
| "print_regex (Lit c q r) = c # print_quant q @ print_regex r"
| "print_regex (Escaped c q r) = CHR 0x5C # c # print_quant q @ print_regex r"
| "print_regex (Class s q r) = ''['' @ s @ '']'' @ print_quant q @ print_regex r"
| "print_regex (Group g q r) = ''('' @ print_regex g @ '')'' @ print_quant q @ print_regex r"

text \<open>A plain literal, and a count the guard's twelve characters can hold.\<close>

definition plain :: "char \<Rightarrow> bool" where
  "plain c \<longleftrightarrow> role_of c = Plain \<and> c \<noteq> CHR ''*'' \<and> c \<noteq> CHR ''+'' \<and> c \<noteq> CHR ''{''"

fun quant_ok :: "quantifier option \<Rightarrow> bool" where
  "quant_ok (Some (Count a b)) \<longleftrightarrow>
     list_all is_digit a \<and> (case b of None \<Rightarrow> True | Some b \<Rightarrow> list_all is_digit b) \<and>
     length (print_quant (Some (Count a b))) \<le> 12"
| "quant_ok _ = True"

fun regex_ok :: "regex \<Rightarrow> bool" where
  "regex_ok Done = True"
| "regex_ok (Lit c q r) \<longleftrightarrow> plain c \<and> quant_ok q \<and> regex_ok r"
| "regex_ok (Escaped c q r) \<longleftrightarrow> quant_ok q \<and> regex_ok r"
| "regex_ok (Class s q r) \<longleftrightarrow> CHR '']'' \<notin> set s \<and> CHR 0x5C \<notin> set s \<and> quant_ok q \<and> regex_ok r"
| "regex_ok (Group g q r) \<longleftrightarrow> regex_ok g \<and> quant_ok q \<and> regex_ok r"

text \<open>A quantifier somewhere inside, and a quantifier on a group that has one inside.\<close>

fun quantified :: "regex \<Rightarrow> bool" where
  "quantified Done = False"
| "quantified (Lit _ q r) \<longleftrightarrow> q \<noteq> None \<or> quantified r"
| "quantified (Escaped _ q r) \<longleftrightarrow> q \<noteq> None \<or> quantified r"
| "quantified (Class _ q r) \<longleftrightarrow> q \<noteq> None \<or> quantified r"
| "quantified (Group g q r) \<longleftrightarrow> q \<noteq> None \<or> quantified g \<or> quantified r"

fun nested :: "regex \<Rightarrow> bool" where
  "nested Done = False"
| "nested (Lit _ _ r) = nested r"
| "nested (Escaped _ _ r) = nested r"
| "nested (Class _ _ r) = nested r"
| "nested (Group g q r) \<longleftrightarrow> (q \<noteq> None \<and> quantified g) \<or> nested g \<or> nested r"

text \<open>How the scan moves over each kind of character.\<close>

declare scan.simps(2) [simp del]

lemma role_simps [simp]:
  "role_of (CHR 0x5C) = Escape" "role_of (CHR ''['') = ClassOpen"
  "role_of (CHR ''('') = GroupOpen" "role_of (CHR '')'') = GroupClose"
  "role_of (CHR ''*'') = Plain" "role_of (CHR ''+'') = Plain" "role_of (CHR ''{'') = Plain"
  "role_of (CHR ''}'') = Plain" "role_of (CHR '','') = Plain"
  by (simp_all add: role_of_def)

lemma is_quant_simps [simp]:
  "\<not> is_quant []" "is_quant (CHR ''*'' # s)" "is_quant (CHR ''+'' # s)" "plain c \<Longrightarrow> \<not> is_quant (c # s)"
  "\<not> is_quant (CHR 0x5C # s)" "\<not> is_quant (CHR ''['' # s)" "\<not> is_quant (CHR ''('' # s)"
  "\<not> is_quant (CHR '')'' # s)"
  by (simp_all add: is_quant_def plain_def)

lemma plain_digit [simp]: "is_digit c \<Longrightarrow> plain c"
  by (auto simp: is_digit_def plain_def role_of_def)

lemma plain_simps [simp]: "plain (CHR ''}'')" "plain (CHR '','')"
  by (simp_all add: plain_def)

lemma scan_plain [simp]: "plain c \<Longrightarrow> scan (c # cs) stk ch pv = scan cs stk ch False"
  by (simp add: scan.simps(2) plain_def is_quant_def)

lemma scan_steps [simp]:
  "scan (CHR 0x5C # c # cs) stk ch pv = scan cs stk ch False"
  "scan (CHR ''['' # cs) stk ch pv = scan (skip_class cs) stk ch False"
  "scan (CHR ''('' # cs) stk ch pv = scan cs (False # stk) ch False"
  "scan (CHR '')'' # cs) (h # stk) ch pv = scan cs (if h then mark_top stk else stk) h True"
  by (simp_all add: scan.simps(2) Let_def)

lemma scan_quant_char:
  "is_quant (c # cs) \<Longrightarrow> role_of c = Plain \<Longrightarrow>
    scan (c # cs) stk ch pv = (if pv \<and> ch then False else scan cs (mark_top stk) ch False)"
  by (simp add: scan.simps(2))

lemma scan_plains: "list_all plain ds \<Longrightarrow> scan (ds @ cs) stk ch False = scan cs stk ch False"
  by (induction ds) simp_all

text \<open>What the last closed group held only matters right after it.\<close>

lemma scan_closed_irrelevant: "scan s stk ch False = scan s stk ch' False"
proof (induction "length s" arbitrary: s stk ch ch' rule: less_induct)
  case less
  show ?case
  proof (cases s)
    case (Cons c cs)
    have skip: "scan (skip_class cs) stk ch False = scan (skip_class cs) stk ch' False"
      using skip_class_length [of cs] by (intro less) (simp add: Cons)
    have "scan (drop 1 cs) stk ch False = scan (drop 1 cs) stk ch' False"
      "scan cs (False # stk) ch False = scan cs (False # stk) ch' False"
      "scan cs (mark_top stk) ch False = scan cs (mark_top stk) ch' False"
      "scan cs stk ch False = scan cs stk ch' False"
      by (intro less; simp add: Cons)+
    with skip show ?thesis unfolding Cons by (simp add: scan.simps(2) split: char_role.split)
  qed simp
qed

lemma scan_fresh: "\<not> is_quant s \<Longrightarrow> scan s stk ch pv = scan s stk False False"
proof (cases s)
  case (Cons c cs)
  assume "\<not> is_quant s"
  then have q: "\<not> is_quant (c # cs)" by (simp add: Cons)
  have "scan t stk' ch False = scan t stk' False False" for t stk' by (rule scan_closed_irrelevant)
  with q show ?thesis unfolding Cons by (simp add: scan.simps(2) split: char_role.split)
qed simp

lemma mark_top_twice [simp]: "mark_top (mark_top stk) = mark_top stk"
  by (cases stk) (simp_all add: mark_top_def)

lemma mark_top_Cons [simp]: "mark_top (h # stk) = True # stk"
  by (simp add: mark_top_def)

lemma dropWhile_digits: "list_all is_digit a \<Longrightarrow> dropWhile is_digit (a @ s) = dropWhile is_digit s"
  by (induction a) simp_all

lemma not_digits [simp]: "\<not> is_digit (CHR ''}'')" "\<not> is_digit (CHR '','')"
  by (simp_all add: is_digit_def)

lemma brace_count:
  "quant_ok (Some (Count a b)) \<Longrightarrow> brace_quantifier (print_quant (Some (Count a b)) @ t)"
  by (cases b) (simp_all add: brace_quantifier_def dropWhile_digits Let_def)

lemma count_is_quant:
  assumes "quant_ok (Some (Count a b))"
  shows "is_quant (print_quant (Some (Count a b)) @ s)"
proof -
  let ?q = "print_quant (Some (Count a b))"
  have "take 12 (?q @ s) = ?q @ take (12 - length ?q) s" using assms by (simp add: take_all)
  then have "brace_quantifier (take 12 (?q @ s))" by (simp only: brace_count [OF assms])
  moreover have "?q @ s = CHR ''{'' # tl ?q @ s" by (cases b) simp_all
  ultimately show ?thesis by (simp only: is_quant_def list.case simp_thms)
qed

lemma digits_plain: "list_all is_digit a \<Longrightarrow> list_all plain a"
  by (simp add: list_all_iff)

lemma scan_quant:
  assumes "quant_ok q" "\<not> is_quant s"
  shows "scan (print_quant q @ s) stk ch pv =
    (if q \<noteq> None \<and> pv \<and> ch then False else scan s (if q \<noteq> None then mark_top stk else stk) False False)"
proof (cases q)
  case None
  then show ?thesis using scan_fresh [OF assms(2)] by simp
next
  case (Some x)
  note fresh = scan_closed_irrelevant [of s "mark_top stk" ch False]
  show ?thesis
  proof (cases x)
    case (Count a b)
    obtain t where t: "print_quant q = CHR ''{'' # t" "list_all plain t"
      using assms(1) by (cases b) (simp_all add: Some Count digits_plain)
    have "is_quant (CHR ''{'' # t @ s)" using count_is_quant [of a b s] assms(1) t(1) by (simp add: Some Count)
    then show ?thesis using t fresh by (simp add: Some scan_plains scan_quant_char)
  qed (use fresh in \<open>simp_all add: Some scan_quant_char\<close>)
qed

lemma print_not_quant: "regex_ok r \<Longrightarrow> \<not> is_quant s \<Longrightarrow> \<not> is_quant (print_regex r @ s)"
  by (cases r) simp_all

lemma skip_class_done: "CHR '']'' \<notin> set s \<Longrightarrow> CHR 0x5C \<notin> set s \<Longrightarrow> skip_class (s @ CHR '']'' # t) = t"
proof (induction s)
  case (Cons c s)
  have "c \<noteq> CHR '']''" "c \<noteq> CHR 0x5C" using Cons.prems by (metis list.set_intros(1))+
  with Cons show ?case by simp
qed simp

lemma scan_regex:
  "regex_ok r \<Longrightarrow> \<not> is_quant s \<Longrightarrow>
    scan (print_regex r @ s) stk ch pv =
      (\<not> nested r \<and> scan s (if quantified r then mark_top stk else stk) False False)"
proof (induction r arbitrary: s stk ch pv)
  case Done
  show ?case using scan_fresh [OF Done(2), of stk ch pv] by simp
next
  case (Lit c q r)
  then show ?case by (simp add: scan_quant print_not_quant)
next
  case (Escaped c q r)
  then show ?case by (simp add: scan_quant print_not_quant)
next
  case (Class t q r)
  then show ?case by (simp add: scan_quant print_not_quant skip_class_done)
next
  case (Group g q r)
  then show ?case by (auto simp: scan_quant print_not_quant)
qed



text \<open>
  A count of more than twelve characters hides a nested quantifier: the guard looks at
  twelve characters from the brace, finds no closing one, and reads the count as literals.
\<close>

theorem regex_guard_misses_long_counts:
  "isSafeRegexSource ''(a+){2,1000000000}'' \<and> \<not> isSafeRegexSource ''(a+){2,100}''"
  by code_simp

section \<open>Weighted scores\<close>

text \<open>A rubric's score does not depend on its name.\<close>

definition score_of :: "rubric_fn \<Rightarrow> string \<Rightarrow> rat" where
  "score_of f output = fst (safe f [] output)"

lemma safe_score [simp]: "fst (safe f name output) = score_of f output"
  by (simp add: score_of_def safe_def split: sum.split)

lemma weigh_fold:
  "weigh output rs (bs, es, s, t) =
    (bs @ map (weighted_entry output) rs,
     fold (\<lambda>b. add_error (rr_name b) (rr_error b)) (map (weighted_entry output) rs) es,
     s + sum_list (map (\<lambda>r. rr_score (weighted_entry output r) * rr_weight (weighted_entry output r)) rs),
     t + sum_list (map (\<lambda>r. rr_weight (weighted_entry output r)) rs))"
  by (induction rs arbitrary: bs es s t) (simp_all add: Let_def add.assoc)

lemma entry_weight [simp]: "rr_weight (weighted_entry output r) = fst (snd r)"
  by (simp add: weighted_entry_def Let_def split: prod.split)

lemma entry_score [simp]: "rr_score (weighted_entry output r) = score_of (fst r) output"
  by (simp add: weighted_entry_def Let_def split: prod.split)

text \<open>The weighted sum, the total weight, and the aggregate before rounding.\<close>

definition weight_sum :: "rubric_entry list \<Rightarrow> rat" where
  "weight_sum rs = sum_list (map re_weight rs)"

definition score_sum :: "rubric_entry list \<Rightarrow> string \<Rightarrow> rat" where
  "score_sum rs output = sum_list (map (\<lambda>r. score_of (re_fn r) output * re_weight r) rs)"

lemma named_sums:
  "sum_list (map (\<lambda>r. score_of (fst r) output * fst (snd r)) (named rs)) = score_sum rs output"
  "sum_list (map (\<lambda>r. fst (snd r)) (named rs)) = weight_sum rs"
proof -
  have "sum_list (map (\<lambda>r. score_of (fst r) output * fst (snd r)) (named rs)) =
      sum_list (map (\<lambda>r. score_of (re_fn r) output * re_weight r) (map snd (enumerate 0 rs)))"
    unfolding named_def map_map
    by (intro arg_cong [where f = sum_list] map_cong refl) (simp split: prod.split)
  then show "sum_list (map (\<lambda>r. score_of (fst r) output * fst (snd r)) (named rs)) = score_sum rs output"
    by (simp add: score_sum_def)
  have "sum_list (map (\<lambda>r. fst (snd r)) (named rs)) = sum_list (map re_weight (map snd (enumerate 0 rs)))"
    unfolding named_def map_map
    by (intro arg_cong [where f = sum_list] map_cong refl) (simp split: prod.split)
  then show "sum_list (map (\<lambda>r. fst (snd r)) (named rs)) = weight_sum rs"
    by (simp add: weight_sum_def)
qed

lemma weighted_score:
  "WeightedRubric_score rs output th =
    (let final = (if weight_sum rs > 0 then score_sum rs output / weight_sum rs else 0) in
     \<lparr>sc_score = Some (round3 final), sc_passed = (th \<le> final),
      sc_breakdown = map (weighted_entry output) (named rs),
      sc_errors = fold (\<lambda>b. add_error (rr_name b) (rr_error b)) (map (weighted_entry output) (named rs)) Map.empty\<rparr>)"
  by (simp add: WeightedRubric_score_def weigh_fold named_sums)

lemma round3_mono: "x \<le> y \<Longrightarrow> round3 x \<le> round3 y"
  by (simp add: round3_def divide_right_mono floor_mono)

lemma mean_bounds:
  fixes ws :: "'a \<Rightarrow> rat"
  assumes "\<forall>r \<in> set rs. 0 \<le> ws r" "\<forall>r \<in> set rs. lo \<le> xs r \<and> xs r \<le> hi"
  shows "lo * sum_list (map ws rs) \<le> sum_list (map (\<lambda>r. xs r * ws r) rs) \<and>
    sum_list (map (\<lambda>r. xs r * ws r) rs) \<le> hi * sum_list (map ws rs)"
  using assms
proof (induction rs)
  case (Cons r rs)
  then have "lo * ws r \<le> xs r * ws r" "xs r * ws r \<le> hi * ws r"
    by (auto intro: mult_right_mono)
  with Cons show ?case by (simp add: distrib_left)
qed simp

text \<open>A keyword rubric of weight 3 and a length rubric of weight 1.\<close>

definition sample_rubrics :: "rubric_entry list" where
  "sample_rubrics =
     [\<lparr>re_fn = ContainsKeywords [''ok'', ''no''], re_weight = 3, re_name = None\<rparr>,
      \<lparr>re_fn = LengthBetween 1 None, re_weight = 1, re_name = Some ''length''\<rparr>]"

text \<open>
  A weighted score is a mean. With weights that are not negative and not all zero, the
  score lies between the least and the greatest of its rubrics' scores (rounded to thousandths),
  a rubric that throws counting as zero; it passes exactly when the mean before rounding reaches
  the threshold, so always when every rubric does and never when none does.
\<close>

theorem weighted_score_is_a_mean:
  assumes weights: "\<forall>r \<in> set rs. 0 \<le> re_weight r" "0 < weight_sum rs"
    and scores: "\<forall>r \<in> set rs. lo \<le> score_of (re_fn r) output \<and> score_of (re_fn r) output \<le> hi"
  shows "\<exists>x. sc_score (WeightedRubric_score rs output th) = Some x \<and>
    round3 lo \<le> x \<and> x \<le> round3 hi \<and>
    (th \<le> lo \<longrightarrow> sc_passed (WeightedRubric_score rs output th)) \<and>
    (hi < th \<longrightarrow> \<not> sc_passed (WeightedRubric_score rs output th))"
proof -
  let ?m = "score_sum rs output / weight_sum rs"
  have "lo * weight_sum rs \<le> score_sum rs output \<and> score_sum rs output \<le> hi * weight_sum rs"
    unfolding weight_sum_def score_sum_def by (rule mean_bounds [OF weights(1) scores])
  then have "lo \<le> ?m" "?m \<le> hi" using weights(2) by (simp_all add: le_divide_eq divide_le_eq)
  then show ?thesis
    using weights(2) by (auto simp: weighted_score Let_def intro: round3_mono)
qed

theorem weighted_score_is_a_mean_witness:
  "sc_passed (WeightedRubric_score sample_rubrics ''ok'' (1 / 2))"
proof -
  have "score_of (ContainsKeywords [''ok'', ''no'']) ''ok'' = 1 / 2" by code_simp
  moreover have "score_of (LengthBetween 1 None) ''ok'' = 1" by code_simp
  ultimately show ?thesis
    using weighted_score_is_a_mean [of sample_rubrics "1 / 2" "''ok''" 1 "1 / 2"]
    by (auto simp: sample_rubrics_def weight_sum_def)
qed

text \<open>
  A rubric that throws is isolated. It counts exactly as one that scores zero: the score,
  the verdict and every other rubric's entry are the same, and its own entry says it crashed.
\<close>

theorem throwing_rubric_scores_zero:
  assumes "i < length rs"
  shows "let crash = WeightedRubric_score (rs[i := (rs ! i)\<lparr>re_fn := (\<lambda>_. Inl msg)\<rparr>]) output th;
             zero = WeightedRubric_score (rs[i := (rs ! i)\<lparr>re_fn := (\<lambda>_. Inr 0)\<rparr>]) output th
    in sc_score crash = sc_score zero \<and> sc_passed crash = sc_passed zero \<and>
       rr_reason (sc_breakdown crash ! i) = ''CRASHED'' \<and>
       (\<forall>j < length rs. j \<noteq> i \<longrightarrow> sc_breakdown crash ! j = sc_breakdown zero ! j)"
proof -
  let ?c = "(rs ! i)\<lparr>re_fn := (\<lambda>_. Inl msg)\<rparr>" and ?z = "(rs ! i)\<lparr>re_fn := (\<lambda>_. Inr 0)\<rparr>"
  have pair: "map (\<lambda>r. (score_of (re_fn r) output, re_weight r)) (rs[i := ?c]) =
      map (\<lambda>r. (score_of (re_fn r) output, re_weight r)) (rs[i := ?z])"
    by (simp add: map_update score_of_def safe_def)
  have s: "score_sum (rs[i := ?c]) output = score_sum (rs[i := ?z]) output"
    "weight_sum (rs[i := ?c]) = weight_sum (rs[i := ?z])"
    using arg_cong [OF pair, of "\<lambda>ps. sum_list (map (\<lambda>p. fst p * snd p) ps)"]
      arg_cong [OF pair, of "\<lambda>ps. sum_list (map snd ps)"]
    by (simp_all add: score_sum_def weight_sum_def comp_def)
  have len: "length (named ts) = length ts" for ts by (simp add: named_def)
  have nth: "j < length ts \<Longrightarrow> named ts ! j = (re_fn (ts ! j), re_weight (ts ! j),
      case re_name (ts ! j) of Some n \<Rightarrow> n | None \<Rightarrow> ''rubric_'' @ show_nat j)" for j ts
    by (simp add: named_def nth_enumerate_eq)
  have crashed: "rr_reason (weighted_entry output (named (rs[i := ?c]) ! i)) = ''CRASHED''"
    using assms by (simp add: nth weighted_entry_def safe_def truthy_Some_iff not_None_eq)
  have others: "weighted_entry output (named (rs[i := ?c]) ! j) = weighted_entry output (named (rs[i := ?z]) ! j)"
    if "j < length rs" "j \<noteq> i" for j
    using that by (simp add: nth)
  show ?thesis
    using assms crashed others by (simp add: weighted_score s len Let_def)
qed

theorem throwing_rubric_scores_zero_witness:
  "rr_reason (sc_breakdown (WeightedRubric_score
     (sample_rubrics[1 := (sample_rubrics ! 1)\<lparr>re_fn := (\<lambda>_. Inl ''boom'')\<rparr>]) ''ok'' 0) ! 1) = ''CRASHED''"
  using throwing_rubric_scores_zero [of 1 sample_rubrics "''boom''" "''ok''" 0]
  by (simp add: Let_def) (simp add: sample_rubrics_def)

end
