(* ===== verification/Matching.thy ===== *)
theory Matching
  imports TaskStore
begin

text \<open>
  Which agents a task may be offered to, and in which order: \<open>services/agentScorer.ts\<close>,
  \<open>services/delegationGuard.ts\<close>, \<open>services/verifierDuty.ts\<close> and the ranking part of
  \<open>services/semanticMatch.ts\<close>. The agent registry and the hosted agents are lists, \<open>None\<close> when
  they cannot be read; badges, decayed reputation, reviews and the embedding search are
  functions. Scores are exact rationals where the code computes in floating point; the breakdown
  of a score, which is only shown, is left out.
\<close>

section \<open>Agents\<close>

record agent_executor =
  ax_address :: string
  ax_displayName :: string
  ax_capabilities :: "string list"
  ax_preferred :: "string list option"
  ax_minReward :: "string option"
  ax_tasksCompleted :: nat
  ax_publicKey :: "string option"
  ax_supportedChains :: "string list option"

record deployed_agent =
  da_wallet :: string
  da_smartAccount :: "string option"
  da_owner :: string
  da_authorizedOwners :: "string list option"
  da_delegationEnabled :: "bool option"
  da_verifierEnabled :: "bool option"
  da_running :: bool
  da_rawPrivateKey :: "string option"
  da_privyUserId :: "string option"

text \<open>A candidate of the embedding search, with its rerank score when the reranker ran.\<close>

record semantic_candidate =
  sm_address :: string
  sm_displayName :: string
  sm_similarity :: rat
  sm_rerank :: "rat option"

record reputation =
  rp_decayed :: rat
  rp_tasks :: nat
  rp_disputes :: nat

record market =
  mk_cfg :: config
  mk_registry :: "agent_executor list option"
  mk_hosted :: "deployed_agent list option"
  mk_badges :: "string \<Rightarrow> (string \<times> string) list"
  mk_rep :: "string \<Rightarrow> reputation"
  mk_reviews :: "string \<Rightarrow> rat \<times> nat"
  mk_executorIds :: "string \<Rightarrow> string list"
  mk_search :: "string \<Rightarrow> semantic_candidate list option"
  mk_live :: "string \<Rightarrow> bool"
  mk_semanticRouting :: bool
  mk_cascadeEnabled :: bool
  mk_maxPositions :: rat

section \<open>Hosted agents and their owners\<close>

definition hex_digit :: "char \<Rightarrow> bool" where
  "hex_digit c \<longleftrightarrow> c \<in> set ''0123456789abcdefABCDEF''"

text \<open>\<open>/^0x[0-9a-fA-F]{40}$/\<close>.\<close>

definition is_address :: "string \<Rightarrow> bool" where
  "is_address a \<longleftrightarrow> take 2 a = ''0x'' \<and> length a = 42 \<and> list_all hex_digit (drop 2 a)"

definition loadAgentByWallet :: "deployed_agent list \<Rightarrow> string \<Rightarrow> deployed_agent option" where
  "loadAgentByWallet ds a = find (\<lambda>d. lower (da_wallet d) = lower a) ds"

definition loadAgentBySmartAccount :: "deployed_agent list \<Rightarrow> string \<Rightarrow> deployed_agent option" where
  "loadAgentBySmartAccount ds a = find (\<lambda>d. map_option lower (da_smartAccount d) = Some (lower a)) ds"

definition hosted_by :: "deployed_agent list \<Rightarrow> string \<Rightarrow> deployed_agent option" where
  "hosted_by ds a =
     (case loadAgentByWallet ds a of Some d \<Rightarrow> Some d | None \<Rightarrow> loadAgentBySmartAccount ds a)"

definition hostedAgent :: "deployed_agent list \<Rightarrow> string \<Rightarrow> deployed_agent option" where
  "hostedAgent ds a = (if is_address a then hosted_by ds a else None)"

text \<open>\<open>True\<close>: refused with 403 DELEGATION_DISABLED.\<close>

definition refuseUnapprovedDelegation :: "deployed_agent list \<Rightarrow> string \<Rightarrow> bool" where
  "refuseUnapprovedDelegation ds poster =
     (case hostedAgent ds poster of
        None \<Rightarrow> False
      | Some d \<Rightarrow> da_delegationEnabled d \<noteq> Some True)"

definition ownersOf :: "deployed_agent \<Rightarrow> string list" where
  "ownersOf d =
     map lower (da_owner d # (case da_authorizedOwners d of None \<Rightarrow> [] | Some os \<Rightarrow> os))"

definition walletsOfOwners :: "deployed_agent list \<Rightarrow> string list \<Rightarrow> string list" where
  "walletsOfOwners ds owners =
     (let want = map lower owners in
      concat (map (\<lambda>d.
        (if da_wallet d \<noteq> [] then [lower (da_wallet d)] else []) @
        (case truthy (da_smartAccount d) of None \<Rightarrow> [] | Some a \<Rightarrow> [lower a]))
        (filter (\<lambda>d. list_ex (\<lambda>o'. o' \<in> set want) (ownersOf d)) ds)))"

definition sameOwnerAddresses :: "deployed_agent list \<Rightarrow> string \<Rightarrow> string list" where
  "sameOwnerAddresses ds poster =
     (case hostedAgent ds poster of
        None \<Rightarrow> []
      | Some d \<Rightarrow> ownersOf d @ walletsOfOwners ds (ownersOf d))"

definition sameOwnerSubtask :: "deployed_agent list \<Rightarrow> string \<Rightarrow> string \<Rightarrow> bool" where
  "sameOwnerSubtask ds poster executor \<longleftrightarrow> lower executor \<in> set (sameOwnerAddresses ds poster)"

definition ownAgentOf :: "deployed_agent list \<Rightarrow> string \<Rightarrow> string list \<Rightarrow> bool" where
  "ownAgentOf ds executor owners =
     (case hostedAgent ds executor of
        None \<Rightarrow> False
      | Some d \<Rightarrow> list_ex (\<lambda>o'. lower o' \<in> set (ownersOf d)) owners)"

text \<open>\<open>verifierDuty.ts\<close>.\<close>

definition hostedVerifierNotOptedIn :: "deployed_agent list \<Rightarrow> string \<Rightarrow> bool" where
  "hostedVerifierNotOptedIn ds a =
     (case hosted_by ds a of None \<Rightarrow> False | Some d \<Rightarrow> da_verifierEnabled d \<noteq> Some True)"

definition getAgent :: "agent_executor list \<Rightarrow> string \<Rightarrow> agent_executor option" where
  "getAgent reg a = find (\<lambda>x. ax_address x = lower a) reg"

definition verifierChainUnsupported :: "agent_executor list \<Rightarrow> string \<Rightarrow> string \<Rightarrow> bool" where
  "verifierChainUnsupported reg a c =
     (case getAgent reg a of None \<Rightarrow> False | Some x \<Rightarrow> \<not> supportsChain (ax_supportedChains x) (Some c))"

definition activeHostedVerifiers :: "deployed_agent list \<Rightarrow> (string \<rightharpoonup> deployed_agent)" where
  "activeHostedVerifiers ds =
     fold (\<lambda>d m.
        if da_verifierEnabled d \<noteq> Some True \<or> \<not> da_running d then m
        else fold (\<lambda>a m. m(lower a \<mapsto> d))
               ((if da_wallet d \<noteq> [] then [da_wallet d] else []) @
                (case truthy (da_smartAccount d) of None \<Rightarrow> [] | Some a \<Rightarrow> [a])) m)
       ds Map.empty"

section \<open>Scoring\<close>

definition EXPLORATION_RATE :: rat where "EXPLORATION_RATE = 15 / 100"
definition EXPLORATION_RATE_BALANCED :: rat where "EXPLORATION_RATE_BALANCED = 45 / 100"
definition EXPERIENCE_THRESHOLD :: nat where "EXPERIENCE_THRESHOLD = 10"
definition DOMINANCE_WINDOW_DAYS :: int where "DOMINANCE_WINDOW_DAYS = 7"
definition DOMINANCE_CAP :: nat where "DOMINANCE_CAP = 20"
definition DOMINANCE_PENALTY :: rat where "DOMINANCE_PENALTY = 7 / 10"

text \<open>\<open>Math.round(x * 100) / 100\<close>.\<close>

definition round2 :: "rat \<Rightarrow> rat" where
  "round2 x = of_int \<lfloor>x * 100 + 1 / 2\<rfloor> / 100"

definition capability_overlap :: "agent_executor \<Rightarrow> string list \<Rightarrow> string list" where
  "capability_overlap a required =
     (let caps = (case ax_preferred a of
            Some (c # cs) \<Rightarrow> c # cs | _ \<Rightarrow> ax_capabilities a)
      in filter (\<lambda>c. c \<in> set caps) required)"

definition badge_bonus :: "(string \<times> string) list \<Rightarrow> string list \<Rightarrow> rat" where
  "badge_bonus badges overlap =
     sum_list (map (\<lambda>c. case map_of (rev badges) c of
        None \<Rightarrow> 0
      | Some ty \<Rightarrow> if ty = ''earned'' then 1 else if ty \<noteq> [] then 2 else 0) overlap)"

definition raw_score :: "market \<Rightarrow> agent_executor \<Rightarrow> string list \<Rightarrow> rat" where
  "raw_score mk a required =
     (let addr = lower (ax_address a);
          overlap = capability_overlap a required;
          badge = (if overlap \<noteq> [] then badge_bonus (mk_badges mk addr) overlap else 0);
          rep = mk_rep mk addr;
          rating = (if snd (mk_reviews mk addr) > 0 then fst (mk_reviews mk addr) / 5 * (15 / 10) else 6 / 10);
          tasks = (if rp_tasks rep \<noteq> 0 then rp_tasks rep else ax_tasksCompleted a);
          experience = (if tasks = 0 then 3 / 10 else of_nat tasks / (of_nat tasks + 10));
          penalty = of_nat (rp_disputes rep) / (of_nat tasks + of_nat (rp_disputes rep) + 1) * 2
      in of_nat (length overlap) * 3 + badge + rp_decayed rep / 100 * 2 + rating + experience - penalty)"

definition scoreAgent :: "market \<Rightarrow> agent_executor \<Rightarrow> string list \<Rightarrow> cascade_entry" where
  "scoreAgent mk a required =
     \<lparr>ce_address = lower (ax_address a),
      ce_score = round2 (max 0 (min 100 (raw_score mk a required))),
      ce_displayName = ax_displayName a\<rparr>"

definition hasAllCapabilities :: "agent_executor \<Rightarrow> string list \<Rightarrow> bool" where
  "hasAllCapabilities a required = list_all (\<lambda>c. c \<in> set (ax_capabilities a)) required"

definition barredFromTask :: "deployed_agent list \<Rightarrow> task_meta \<Rightarrow> string list" where
  "barredFromTask ds m =
     List.map_filter (\<lambda>a. map_option lower (truthy a)) [posterAddress m, verifierAddress m] @
     (case truthy (posterAddress m) of None \<Rightarrow> [] | Some p \<Rightarrow> sameOwnerAddresses ds p)"

definition dominanceMultiplier :: "market \<Rightarrow> a2a_db \<Rightarrow> int \<Rightarrow> string \<Rightarrow> rat" where
  "dominanceMultiplier mk db now addr =
     (let cutoff = now - DOMINANCE_WINDOW_DAYS * 24 * 60 * 60 * 1000;
          recent = length (filter (\<lambda>e. case acceptedAt (snd e) of None \<Rightarrow> False | Some t \<Rightarrow> t > cutoff)
                     (getExecutorTasks db (mk_executorIds mk (lower addr))))
      in if recent > DOMINANCE_CAP then DOMINANCE_PENALTY else 1)"

definition taper :: "rat \<Rightarrow> cascade_entry \<Rightarrow> cascade_entry" where
  "taper mult e = (if mult < 1 then e\<lparr>ce_score := round2 (ce_score e * mult)\<rparr> else e)"

definition best_first :: "cascade_entry list \<Rightarrow> cascade_entry list" where
  "best_first es = sort_key (\<lambda>e. - ce_score e) es"

definition eligible :: "market \<Rightarrow> agent_executor \<Rightarrow> task_reward option \<Rightarrow> string option \<Rightarrow> bool" where
  "eligible mk a r c \<longleftrightarrow>
     meetsRewardFloor (mk_cfg mk) (ax_minReward a) r \<and> supportsChain (ax_supportedChains a) c"

definition rankAgents ::
  "market \<Rightarrow> a2a_db \<Rightarrow> int \<Rightarrow> string list \<Rightarrow> task_reward option \<Rightarrow> string option \<Rightarrow> cascade_entry list option" where
  "rankAgents mk db now required r c =
     map_option (\<lambda>reg. best_first
        (map (\<lambda>a. taper (dominanceMultiplier mk db now (lower (ax_address a))) (scoreAgent mk a required))
          (filter (\<lambda>a. eligible mk a r c) reg)))
       (mk_registry mk)"

text \<open>The two draws of \<open>rng\<close>: whether to explore, and which of the new agents.\<close>

definition explorable ::
  "market \<Rightarrow> string list \<Rightarrow> string list \<Rightarrow> task_reward option \<Rightarrow> string option \<Rightarrow> agent_executor \<Rightarrow> bool" where
  "explorable mk barred required r c a \<longleftrightarrow>
     lower (ax_address a) \<notin> set barred \<and> hasAllCapabilities a required \<and> eligible mk a r c \<and>
     ax_tasksCompleted a < EXPERIENCE_THRESHOLD"

definition pickExplorationAgent ::
  "market \<Rightarrow> string list \<Rightarrow> selection_mode \<Rightarrow> task_reward option \<Rightarrow> rat \<times> rat \<Rightarrow> string option \<Rightarrow> string list \<Rightarrow>
   cascade_entry option option" where
  "pickExplorationAgent mk required mode r draws c barred =
     (if fst draws \<ge> (case mode of Balanced \<Rightarrow> EXPLORATION_RATE_BALANCED | Merit \<Rightarrow> EXPLORATION_RATE)
      then Some None
      else map_option (\<lambda>reg.
        let new = filter (explorable mk barred required r c) reg in
        if new = [] then None
        else Some (scoreAgent mk (new ! nat \<lfloor>snd draws * of_nat (length new)\<rfloor>) required))
        (mk_registry mk))"

section \<open>Ranking by meaning\<close>

definition nonblank :: "string option \<Rightarrow> string option" where
  "nonblank x = truthy (map_option trim x)"

fun join_comma :: "string list \<Rightarrow> string" where
  "join_comma [] = []"
| "join_comma [x] = x"
| "join_comma (x # y # ys) = x @ '', '' @ join_comma (y # ys)"

definition buildTaskRoutingText :: "task_meta \<Rightarrow> string" where
  "buildTaskRoutingText m =
     (case nonblank (publicBrief m) of
        Some t \<Rightarrow> t
      | None \<Rightarrow> (case nonblank (routingSummary m) of
          Some t \<Rightarrow> t
        | None \<Rightarrow> if requiredCapabilities m \<noteq> []
                  then ''Task requiring: '' @ join_comma (requiredCapabilities m) else []))"

definition semanticRoutingEligible :: "market \<Rightarrow> task_meta \<Rightarrow> bool" where
  "semanticRoutingEligible mk m \<longleftrightarrow>
     mk_semanticRouting mk \<and> truthy (targetExecutor m) = None \<and> buildTaskRoutingText m \<noteq> []"

definition toCascadeScore :: "semantic_candidate \<Rightarrow> rat" where
  "toCascadeScore c =
     (let raw = (case sm_rerank c of Some s \<Rightarrow> if s > 0 then s else sm_similarity c | None \<Rightarrow> sm_similarity c)
      in of_int \<lfloor>min 1 (max 0 raw) * 100 * 100 + 1 / 2\<rfloor> / 100)"

definition sealed :: "task_meta \<Rightarrow> bool" where
  "sealed m \<longleftrightarrow> privacy m \<noteq> Some Public \<and> truthy (rootHash m) \<noteq> None \<and> skipKeyWrap m \<noteq> Some True"

definition can_unwrap :: "task_meta \<Rightarrow> agent_executor \<Rightarrow> string \<Rightarrow> bool" where
  "can_unwrap m a addr \<longleftrightarrow>
     (case wrappedKeys m of None \<Rightarrow> False | Some w \<Rightarrow> truthy (w addr) \<noteq> None) \<or>
     (keyCustodyBlob m \<noteq> None \<and> truthy (ax_publicKey a) \<noteq> None)"

definition semantic_entry ::
  "market \<Rightarrow> task_meta \<Rightarrow> task_reward option \<Rightarrow> string list \<Rightarrow> agent_executor list \<Rightarrow>
   semantic_candidate \<Rightarrow> cascade_entry option" where
  "semantic_entry mk m r barred reg c =
     (case getAgent reg (sm_address c) of
        None \<Rightarrow> None
      | Some a \<Rightarrow>
          let addr = lower (sm_address c) in
          if addr \<in> set barred \<or> (sealed m \<and> \<not> can_unwrap m a addr) \<or> \<not> eligible mk a r (chain m)
          then None
          else Some \<lparr>ce_address = sm_address c, ce_score = toCascadeScore c, ce_displayName = sm_displayName c\<rparr>)"

text \<open>\<open>None\<close>: no usable ranking, the caller falls back to the tags.\<close>

definition semanticCascadeRanking ::
  "market \<Rightarrow> a2a_db \<Rightarrow> int \<Rightarrow> task_meta \<Rightarrow> task_reward option \<Rightarrow> string list \<Rightarrow> cascade_entry list option" where
  "semanticCascadeRanking mk db now m r barred =
     (if \<not> semanticRoutingEligible mk m then None
      else (case mk_search mk (buildTaskRoutingText m) of
        None \<Rightarrow> None
      | Some cs \<Rightarrow>
          let reg = (case mk_registry mk of None \<Rightarrow> [] | Some reg \<Rightarrow> reg);
              es = List.map_filter (semantic_entry mk m r barred reg) cs
          in if es = [] then None
             else Some (best_first (map (\<lambda>e. taper (dominanceMultiplier mk db now (ce_address e)) e) es))))"

end
