(* ===== verification/Cascade.thy ===== *)
theory Cascade
  imports Matching StuckTasks
begin

text \<open>
  The cascade of exclusive offers of \<open>routes/a2a.ts\<close>: how a listed task is dispatched, the queue
  it is offered along, the timer that closes an offer's window and the decline that closes it
  early. The socket messages and the timers an operation sets are its result. The task store's
  writes are taken to succeed; the code ignores their failure.
\<close>

section \<open>Effects\<close>

text \<open>A broadcast (\<open>None\<close>: to every agent), an offer with its deadline, a timer with its position.\<close>

datatype dispatch_effect =
    Available "string option"
  | OfferedTo string rat int
  | Armed int nat

definition CASCADE_OFFER_MS :: int where
  "CASCADE_OFFER_MS = 12000"

definition CASCADE_MAX_POSITIONS :: "market \<Rightarrow> rat" where
  "CASCADE_MAX_POSITIONS mk = max 1 (if mk_maxPositions mk = 0 then 8 else mk_maxPositions mk)"

section \<open>The offer queue\<close>

fun live_from :: "market \<Rightarrow> nat \<Rightarrow> cascade_entry list \<Rightarrow> cascade_entry list" where
  "live_from mk n [] = []"
| "live_from mk n (e # es) =
     (if of_nat n \<ge> CASCADE_MAX_POSITIONS mk then []
      else if mk_live mk (ce_address e) then e # live_from mk (n + 1) es
      else live_from mk n es)"

definition liveCascadeEntries :: "market \<Rightarrow> cascade_entry list \<Rightarrow> cascade_entry list" where
  "liveCascadeEntries mk es = live_from mk 0 es"

definition seen_in :: "cascade_entry list \<Rightarrow> cascade_entry \<Rightarrow> bool" where
  "seen_in es e \<longleftrightarrow> list_ex (\<lambda>x. lower (ce_address x) = lower (ce_address e)) es"

text \<open>\<open>None\<close>: the ranking threw. The flag says whether the meaning ranked the front.\<close>

definition rankedEntries ::
  "market \<Rightarrow> a2a_db \<Rightarrow> int \<Rightarrow> string list \<Rightarrow> task_meta \<Rightarrow> task_reward \<Rightarrow> string list \<Rightarrow>
   (cascade_entry list \<times> bool) option" where
  "rankedEntries mk db now required m r barred =
     (let tags = rankAgents mk db now required (Some r) (chain m);
          finish = (\<lambda>es. liveCascadeEntries mk (filter (\<lambda>e. lower (ce_address e) \<notin> set barred) es))
      in case semanticCascadeRanking mk db now m (Some r) barred of
           Some es \<Rightarrow>
             Some (finish (case tags of None \<Rightarrow> es | Some tagged \<Rightarrow> es @ filter (\<lambda>e. \<not> seen_in es e) tagged), True)
         | None \<Rightarrow> map_option (\<lambda>tagged. (finish tagged, False)) tags)"

section \<open>Dispatch\<close>

definition offer_to :: "a2a_db \<Rightarrow> int \<Rightarrow> string \<Rightarrow> cascade_entry \<Rightarrow> a2a_db" where
  "offer_to db now h e =
     setOffer db now h \<lparr>offer_address = ce_address e, offer_score = ce_score e,
       expiresAt = now + CASCADE_OFFER_MS\<rparr>"

definition offer_effects :: "int \<Rightarrow> cascade_entry \<Rightarrow> nat \<Rightarrow> dispatch_effect list" where
  "offer_effects now e pos =
     [OfferedTo (ce_address e) (ce_score e) (now + CASCADE_OFFER_MS), Armed (now + CASCADE_OFFER_MS) pos]"

definition startRankedCascade ::
  "market \<Rightarrow> a2a_db \<Rightarrow> int \<Rightarrow> string \<Rightarrow> string list \<Rightarrow> task_meta \<Rightarrow> task_reward \<Rightarrow> string list \<Rightarrow>
   (dispatch_effect list \<times> a2a_db) option" where
  "startRankedCascade mk db now h required m r barred =
     map_option (\<lambda>(es, _). case es of
         [] \<Rightarrow> ([Available (targetExecutor m)], db)
       | best # _ \<Rightarrow> (offer_effects now best 0, offer_to (setCascade db now h es) now h best))
       (rankedEntries mk db now required m r barred)"

definition or_broadcast ::
  "task_meta \<Rightarrow> a2a_db \<Rightarrow> (dispatch_effect list \<times> a2a_db) option \<Rightarrow> dispatch_effect list \<times> a2a_db" where
  "or_broadcast m db r = (case r of None \<Rightarrow> ([Available (targetExecutor m)], db) | Some x \<Rightarrow> x)"

text \<open>The exploration slot: the picked agent is offered first, the ranking follows behind it.\<close>

definition explore ::
  "market \<Rightarrow> a2a_db \<Rightarrow> int \<Rightarrow> string \<Rightarrow> string list \<Rightarrow> task_meta \<Rightarrow> task_reward \<Rightarrow> string list \<Rightarrow>
   cascade_entry \<Rightarrow> dispatch_effect list \<times> a2a_db" where
  "explore mk db now h required m r barred pick =
     (let db1 = offer_to db now h pick in
      (offer_effects now pick 0,
       case rankedEntries mk db1 now required m r barred of
         None \<Rightarrow> db1
       | Some (es, _) \<Rightarrow> setCascade db1 now h (withExplorationHead pick es)))"

definition dispatchTask ::
  "market \<Rightarrow> a2a_db \<Rightarrow> int \<Rightarrow> string \<Rightarrow> task_meta \<Rightarrow> task_reward \<Rightarrow> rat \<times> rat \<Rightarrow>
   dispatch_effect list \<times> a2a_db" where
  "dispatchTask mk db now h m r draws =
     (let required = requiredCapabilities m in
      if \<not> mk_cascadeEnabled mk \<or> truthy (targetExecutor m) \<noteq> None \<or>
         (required = [] \<and> \<not> semanticRoutingEligible mk m)
      then ([Available (targetExecutor m)], db)
      else (case mk_hosted mk of
        None \<Rightarrow> ([Available (targetExecutor m)], db)
      | Some ds \<Rightarrow>
          let barred = barredFromTask ds m;
              ranked = or_broadcast m db (startRankedCascade mk db now h required m r barred)
          in if required = [] then ranked
             else (case pickExplorationAgent mk required
                     (case agentSelectionMode m of None \<Rightarrow> Merit | Some md \<Rightarrow> md) (Some r) draws (chain m) barred of
                Some (Some pick) \<Rightarrow>
                  if mk_live mk (ce_address pick) then explore mk db now h required m r barred pick else ranked
              | _ \<Rightarrow> ranked)))"

section \<open>Moving on\<close>

definition offerNextInCascade :: "a2a_db \<Rightarrow> int \<Rightarrow> string \<Rightarrow> dispatch_effect list \<times> a2a_db" where
  "offerNextInCascade db now h =
     (case advanceCascade db now h of
        (None, db') \<Rightarrow> ([Available None], db')
      | (Some (e, pos), db') \<Rightarrow> (offer_effects now e pos, offer_to db' now h e))"

text \<open>The timer of a position's window, when it fires.\<close>

definition cascade_timer :: "a2a_db \<Rightarrow> int \<Rightarrow> string \<Rightarrow> nat \<Rightarrow> dispatch_effect list \<times> a2a_db" where
  "cascade_timer db now h pos =
     (case getState db h of
        None \<Rightarrow> ([], db)
      | Some s \<Rightarrow>
          if status s \<noteq> Open then ([], db)
          else if (case getCascade db now h of Some c \<Rightarrow> position c \<noteq> pos | None \<Rightarrow> pos > 0) then ([], db)
          else offerNextInCascade db now h)"

definition declineOffer ::
  "a2a_db \<Rightarrow> int \<Rightarrow> string \<Rightarrow> string \<Rightarrow> (app_error + dispatch_effect list) \<times> a2a_db" where
  "declineOffer db now h caller =
     (if getMeta db h = None then (Inl NOT_FOUND, db)
      else if map_option status (getState db h) \<noteq> Some Open then (Inl INVALID_STATE, db)
      else
        let o' = getOffer db now h in
        if map_option (lower \<circ> offer_address) (fst o') \<noteq> Some (lower caller)
        then (Inl (AppError 409 ''NOT_OFFER_HOLDER''), snd o')
        else let r = offerNextInCascade (clearOffer (snd o') h) now h in (Inr (fst r), snd r))"

end
