(* ===== verification/CascadeProps.thy ===== *)
theory CascadeProps
  imports Cascade StuckTasksProps
begin

text \<open>
  The properties of the offer cascade: who can be offered a task, who is sure of a place in the
  queue, and what becomes of a window that was closed early.
\<close>

section \<open>The queue\<close>

lemma live_from_set: "set (live_from mk n es) \<subseteq> {e \<in> set es. mk_live mk (ce_address e)}"
  by (induction mk n es rule: live_from.induct) auto

lemma live_from_length:
  "of_nat n < CASCADE_MAX_POSITIONS mk + 1 \<Longrightarrow>
    of_nat (n + length (live_from mk n es)) < CASCADE_MAX_POSITIONS mk + 1"
proof (induction mk n es rule: live_from.induct)
  case (2 mk n e es)
  show ?case
  proof (cases "of_nat n \<ge> CASCADE_MAX_POSITIONS mk")
    case False
    then have "of_nat (n + 1) < CASCADE_MAX_POSITIONS mk + 1" by simp
    with 2 False show ?thesis by simp
  qed (use 2 in simp)
qed simp

lemma live_from_covers:
  "e \<in> set es \<Longrightarrow> mk_live mk (ce_address e) \<Longrightarrow>
    e \<in> set (live_from mk n es) \<or> CASCADE_MAX_POSITIONS mk \<le> of_nat (n + length (live_from mk n es))"
proof (induction mk n es rule: live_from.induct)
  case (2 mk n e' es)
  then show ?case by (cases "of_nat n \<ge> CASCADE_MAX_POSITIONS mk") auto
qed simp

lemma live_from_sorted: "sorted_wrt P es \<Longrightarrow> sorted_wrt P (live_from mk n es)"
proof (induction mk n es rule: live_from.induct)
  case (2 mk n e es)
  then show ?case using live_from_set [of mk "n + 1" es] by auto
qed simp

text \<open>An entry that may be offered: a registered agent's, eligible, and nobody barred.\<close>

definition fit ::
  "market \<Rightarrow> task_meta \<Rightarrow> task_reward \<Rightarrow> string list \<Rightarrow> cascade_entry \<Rightarrow> bool" where
  "fit mk m r barred e \<longleftrightarrow>
     mk_live mk (ce_address e) \<and> lower (ce_address e) \<notin> set barred \<and>
     0 \<le> ce_score e \<and> ce_score e \<le> 100 \<and>
     (\<exists>reg x. mk_registry mk = Some reg \<and> x \<in> set reg \<and> lower (ax_address x) = lower (ce_address e) \<and>
        eligible mk x (Some r) (chain m))"

definition ranked_for :: "market \<Rightarrow> task_meta \<Rightarrow> task_reward \<Rightarrow> cascade_entry \<Rightarrow> bool" where
  "ranked_for mk m r e \<longleftrightarrow>
     0 \<le> ce_score e \<and> ce_score e \<le> 100 \<and>
     (\<exists>reg x. mk_registry mk = Some reg \<and> x \<in> set reg \<and> lower (ax_address x) = lower (ce_address e) \<and>
        eligible mk x (Some r) (chain m))"

lemma round2_range: "0 \<le> x \<Longrightarrow> x \<le> 100 \<Longrightarrow> 0 \<le> round2 x \<and> round2 x \<le> 100"
proof -
  assume x: "0 \<le> x" "x \<le> 100"
  have "\<lfloor>x * 100 + 1 / 2\<rfloor> \<le> \<lfloor>10000 + 1 / 2 :: rat\<rfloor>" using x by (intro floor_mono) simp
  also have "\<lfloor>10000 + 1 / 2 :: rat\<rfloor> = 10000" by (rule floor_unique) simp_all
  finally have "(of_int \<lfloor>x * 100 + 1 / 2\<rfloor> :: rat) \<le> of_int 10000" by (simp only: of_int_le_iff)
  then show ?thesis using x by (simp add: round2_def)
qed

lemma taper_range:
  assumes "0 \<le> ce_score e" "ce_score e \<le> 100" "0 \<le> mult"
  shows "0 \<le> ce_score (taper mult e) \<and> ce_score (taper mult e) \<le> 100"
proof (cases "mult < 1")
  case True
  then have "0 \<le> ce_score e * mult" "ce_score e * mult \<le> 100"
    using assms mult_mono [of "ce_score e" 100 mult 1] by simp_all
  then show ?thesis using True round2_range by (simp add: taper_def)
qed (use assms in \<open>simp add: taper_def\<close>)

lemma taper_sel [simp]: "ce_address (taper mult e) = ce_address e"
  by (simp add: taper_def)

lemma dominance_nonneg [simp]: "0 \<le> dominanceMultiplier mk db now a"
  by (simp add: dominanceMultiplier_def DOMINANCE_PENALTY_def Let_def)

lemma scoreAgent_range: "0 \<le> ce_score (scoreAgent mk a required) \<and> ce_score (scoreAgent mk a required) \<le> 100"
  by (simp add: scoreAgent_def round2_range)

lemma toCascadeScore_range: "0 \<le> toCascadeScore c \<and> toCascadeScore c \<le> 100"
proof -
  define x where "x = min 1 (max 0 (case sm_rerank c of
      Some s \<Rightarrow> if s > 0 then s else sm_similarity c | None \<Rightarrow> sm_similarity c)) * 100"
  have "0 \<le> x" "x \<le> 100" by (simp_all add: x_def)
  from round2_range [OF this] show ?thesis by (simp add: toCascadeScore_def x_def round2_def Let_def)
qed

lemma set_best_first [simp]: "set (best_first es) = set es"
  by (simp add: best_first_def)

lemma best_first_sorted: "sorted_wrt (\<lambda>a b. ce_score b \<le> ce_score a) (best_first es)"
proof -
  have "sorted (map (\<lambda>e. - ce_score e) (best_first es))" by (simp add: best_first_def)
  then show ?thesis by (simp add: sorted_map)
qed

lemma tag_entries_ranked:
  assumes "rankAgents mk db now required (Some r) (chain m) = Some es" "e \<in> set es"
  shows "ranked_for mk m r e"
proof -
  obtain reg where reg: "mk_registry mk = Some reg"
    and es: "es = best_first (map (\<lambda>a. taper (dominanceMultiplier mk db now (lower (ax_address a)))
      (scoreAgent mk a required)) (filter (\<lambda>a. eligible mk a (Some r) (chain m)) reg))"
    using assms(1) by (auto simp: rankAgents_def)
  obtain x where x: "x \<in> set reg" "eligible mk x (Some r) (chain m)"
    "e = taper (dominanceMultiplier mk db now (lower (ax_address x))) (scoreAgent mk x required)"
    using assms(2) unfolding es by auto
  have "ce_address e = lower (ax_address x)" by (simp add: x(3) scoreAgent_def)
  moreover have "0 \<le> ce_score e \<and> ce_score e \<le> 100"
    unfolding x(3) using scoreAgent_range by (intro taper_range) simp_all
  ultimately show ?thesis using reg x by (auto simp: ranked_for_def)
qed

lemma set_map_filter: "y \<in> set (List.map_filter f xs) \<longleftrightarrow> (\<exists>x \<in> set xs. f x = Some y)"
  by (force simp: map_filter_def)

lemma semantic_entry_from:
  assumes "semanticCascadeRanking mk db now m (Some r) barred = Some es" "e \<in> set es"
  obtains reg x where "mk_registry mk = Some reg" "x \<in> set reg" "ax_address x = lower (ce_address e)"
    "eligible mk x (Some r) (chain m)" "sealed m \<Longrightarrow> can_unwrap m x (lower (ce_address e))"
    "0 \<le> ce_score e \<and> ce_score e \<le> 100"
proof -
  define reg where "reg = (case mk_registry mk of None \<Rightarrow> [] | Some reg \<Rightarrow> reg)"
  obtain cs where es: "es = best_first (map (\<lambda>e. taper (dominanceMultiplier mk db now (ce_address e)) e)
      (List.map_filter (semantic_entry mk m (Some r) barred reg) cs))"
    using assms(1) by (auto simp: semanticCascadeRanking_def Let_def reg_def split: if_splits option.splits)
  obtain e' where e': "e' \<in> set (List.map_filter (semantic_entry mk m (Some r) barred reg) cs)"
    and e: "e = taper (dominanceMultiplier mk db now (ce_address e')) e'"
    using assms(2) unfolding es by auto
  obtain c where c: "semantic_entry mk m (Some r) barred reg c = Some e'"
    using e' by (auto simp: set_map_filter)
  obtain x where x: "getAgent reg (sm_address c) = Some x" "eligible mk x (Some r) (chain m)"
      "sealed m \<Longrightarrow> can_unwrap m x (lower (sm_address c))"
    and f: "e' = \<lparr>ce_address = sm_address c, ce_score = toCascadeScore c, ce_displayName = sm_displayName c\<rparr>"
    using c by (auto simp: semantic_entry_def Let_def split: option.splits if_splits)
  from x(1) have xin: "x \<in> set reg" "ax_address x = lower (sm_address c)"
    by (auto simp: getAgent_def find_Some_iff)
  then have "mk_registry mk = Some reg" by (cases "mk_registry mk") (simp_all add: reg_def)
  moreover have "0 \<le> ce_score e \<and> ce_score e \<le> 100"
    unfolding e using toCascadeScore_range by (intro taper_range) (simp_all add: f)
  ultimately show ?thesis using xin x(2,3) by (intro that [of reg x]) (simp_all add: e f)
qed

lemma semantic_entries_ranked:
  assumes "semanticCascadeRanking mk db now m (Some r) barred = Some es" "e \<in> set es"
  shows "ranked_for mk m r e"
proof -
  obtain reg x where "mk_registry mk = Some reg" "x \<in> set reg" "ax_address x = lower (ce_address e)"
    "eligible mk x (Some r) (chain m)" "0 \<le> ce_score e \<and> ce_score e \<le> 100"
    using semantic_entry_from [OF assms] by metis
  then show ?thesis unfolding ranked_for_def by (metis lower_idem)
qed

text \<open>What a build of the queue starts from: the ranking before the barred and the dead go.\<close>

lemma rankedEntries_from:
  assumes "rankedEntries mk db now required m r barred = Some (q, sem)"
  obtains es where "q = liveCascadeEntries mk (filter (\<lambda>e. lower (ce_address e) \<notin> set barred) es)"
    "\<And>e. e \<in> set es \<Longrightarrow> ranked_for mk m r e"
    "\<And>tagged e. rankAgents mk db now required (Some r) (chain m) = Some tagged \<Longrightarrow> e \<in> set tagged \<Longrightarrow>
       \<exists>x \<in> set es. lower (ce_address x) = lower (ce_address e)"
    "\<not> sem \<Longrightarrow> sorted_wrt (\<lambda>a b. ce_score b \<le> ce_score a) es"
proof (cases "semanticCascadeRanking mk db now m (Some r) barred")
  case None
  then obtain tagged where t: "rankAgents mk db now required (Some r) (chain m) = Some tagged"
    and q: "q = liveCascadeEntries mk (filter (\<lambda>e. lower (ce_address e) \<notin> set barred) tagged)"
    using assms by (auto simp: rankedEntries_def Let_def)
  have "sorted_wrt (\<lambda>a b. ce_score b \<le> ce_score a) tagged"
    using t best_first_sorted by (auto simp: rankAgents_def)
  then show ?thesis using q t tag_entries_ranked [OF t] by (intro that [of tagged]) auto
next
  case (Some es)
  note sem = semantic_entries_ranked [OF Some]
  show ?thesis
  proof (cases "rankAgents mk db now required (Some r) (chain m)")
    case None
    then show ?thesis using assms Some sem by (intro that [of es]) (auto simp: rankedEntries_def Let_def)
  next
    case t: (Some tagged)
    let ?all = "es @ filter (\<lambda>e. \<not> seen_in es e) tagged"
    have "q = liveCascadeEntries mk (filter (\<lambda>e. lower (ce_address e) \<notin> set barred) ?all)" "sem"
      using assms Some t by (simp_all add: rankedEntries_def Let_def)
    moreover have "\<exists>x \<in> set ?all. lower (ce_address x) = lower (ce_address e)" if "e \<in> set tagged" for e
      using that by (cases "seen_in es e") (auto simp: seen_in_def list_ex_iff)
    ultimately show ?thesis using sem tag_entries_ranked [OF t] t by (intro that [of ?all]) auto
  qed
qed

lemma queue_fit:
  assumes "rankedEntries mk db now required m r barred = Some (q, sem)" "e \<in> set q"
  shows "fit mk m r barred e"
proof -
  obtain es where q: "q = liveCascadeEntries mk (filter (\<lambda>e. lower (ce_address e) \<notin> set barred) es)"
    and es: "\<And>e. e \<in> set es \<Longrightarrow> ranked_for mk m r e"
    by (rule rankedEntries_from [OF assms(1)]) blast
  have "e \<in> set es" "mk_live mk (ce_address e)" "lower (ce_address e) \<notin> set barred"
    using assms(2) live_from_set unfolding q liveCascadeEntries_def by fastforce+
  with es show ?thesis by (simp add: fit_def ranked_for_def)
qed

lemma eligible_covered:
  assumes q: "rankedEntries mk db now required m r barred = Some (q, sem)"
    and x: "mk_registry mk = Some reg" "x \<in> set reg" "eligible mk x (Some r) (chain m)"
      "lower (ax_address x) \<notin> set barred"
    and live: "\<forall>a. lower a = lower (ax_address x) \<longrightarrow> mk_live mk a"
  shows "(\<exists>e \<in> set q. lower (ce_address e) = lower (ax_address x)) \<or>
    CASCADE_MAX_POSITIONS mk \<le> of_nat (length q)"
proof -
  obtain es where es: "q = liveCascadeEntries mk (filter (\<lambda>e. lower (ce_address e) \<notin> set barred) es)"
    and tags: "\<And>tagged e. rankAgents mk db now required (Some r) (chain m) = Some tagged \<Longrightarrow> e \<in> set tagged \<Longrightarrow>
       \<exists>x \<in> set es. lower (ce_address x) = lower (ce_address e)"
    by (rule rankedEntries_from [OF q]) blast
  let ?e = "taper (dominanceMultiplier mk db now (lower (ax_address x))) (scoreAgent mk x required)"
  obtain tagged where t: "rankAgents mk db now required (Some r) (chain m) = Some tagged"
    and e: "?e \<in> set tagged"
    using x(1-3) by (auto simp: rankAgents_def)
  obtain y where y: "y \<in> set es" "lower (ce_address y) = lower (ax_address x)"
    using tags [OF t e] by (auto simp: scoreAgent_def)
  have "y \<in> set (filter (\<lambda>e. lower (ce_address e) \<notin> set barred) es)" using y x(4) by simp
  then have "y \<in> set q \<or> CASCADE_MAX_POSITIONS mk \<le> of_nat (0 + length q)"
    unfolding es liveCascadeEntries_def using live y(2) by (intro live_from_covers) simp_all
  then show ?thesis using y(2) by auto
qed

lemma tag_queue_sorted:
  assumes "rankedEntries mk db now required m r barred = Some (q, False)"
  shows "sorted_wrt (\<lambda>a b. ce_score b \<le> ce_score a) q"
proof -
  obtain es where es: "q = liveCascadeEntries mk (filter (\<lambda>e. lower (ce_address e) \<notin> set barred) es)"
    and sorted: "sorted_wrt (\<lambda>a b. ce_score b \<le> ce_score a) es"
    by (rule rankedEntries_from [OF assms]) blast
  show ?thesis unfolding es liveCascadeEntries_def by (intro live_from_sorted sorted_wrt_filter sorted)
qed

text \<open>A market of two agents, of whom only the first has a public key, and a task for them.\<close>

definition agent_of :: "string \<Rightarrow> string option \<Rightarrow> agent_executor" where
  "agent_of a key =
     \<lparr>ax_address = a, ax_displayName = a, ax_capabilities = [''code''], ax_preferred = None,
      ax_minReward = None, ax_tasksCompleted = 0, ax_publicKey = key, ax_supportedChains = None\<rparr>"

definition small_market :: "bool \<Rightarrow> market" where
  "small_market meaning =
     \<lparr>mk_cfg = testnet_config, mk_registry = Some [agent_of ''0xb'' (Some ''k''), agent_of ''0xc'' None],
      mk_hosted = Some [], mk_badges = (\<lambda>_. []), mk_rep = (\<lambda>_. \<lparr>rp_decayed = 0, rp_tasks = 0, rp_disputes = 0\<rparr>),
      mk_reviews = (\<lambda>_. (0, 0)), mk_executorIds = (\<lambda>_. []),
      mk_search = (\<lambda>_. Some [\<lparr>sm_address = ''0xb'', sm_displayName = ''b'', sm_similarity = 1, sm_rerank = None\<rparr>]),
      mk_live = (\<lambda>_. True), mk_semanticRouting = meaning, mk_cascadeEnabled = True, mk_maxPositions = 0\<rparr>"

definition coding_task :: task_meta where
  "coding_task = sample_meta\<lparr>requiredCapabilities := [''code''], rootHash := Some ''r'',
     keyCustodyBlob := Some (''c'', ''v'')\<rparr>"

definition coding_reward :: task_reward where
  "coding_reward = \<lparr>reward_amount = 5, reward_unit = USDC_UNIT\<rparr>"

lemma small_market_sel [simp]:
  "mk_registry (small_market b) = Some [agent_of ''0xb'' (Some ''k''), agent_of ''0xc'' None]"
  "mk_hosted (small_market b) = Some []" "mk_live (small_market b) a" "mk_cascadeEnabled (small_market b)"
  "mk_semanticRouting (small_market b) = b" "CASCADE_MAX_POSITIONS (small_market b) = 8"
  by (simp_all add: small_market_def CASCADE_MAX_POSITIONS_def)

lemma coding_task_sel [simp]:
  "requiredCapabilities coding_task = [''code'']" "chain coding_task = None" "targetExecutor coding_task = None"
  "agentSelectionMode coding_task = None"
  "sealed coding_task" "wrappedKeys coding_task = None"
  by (simp_all add: coding_task_def sample_meta_def sealed_def truthy_Some_iff)

lemma agent_of_sel [simp]: "ax_address (agent_of a k) = a" "ax_publicKey (agent_of a k) = k"
  by (simp_all add: agent_of_def)

lemma agent_eligible [simp]: "eligible mk (agent_of a k) r None"
  by (simp add: eligible_def agent_of_def meetsRewardFloor_def supportsChain_def split: option.split)

lemma lower_agents [simp]: "lower ''0xb'' = ''0xb''" "lower ''0xc'' = ''0xc''"
  by (simp_all add: lower_eval)

lemma small_market_ranked:
  "\<exists>q. rankedEntries (small_market False) empty_db 0 [''code''] coding_task coding_reward barred = Some (q, False)"
  by (simp add: rankedEntries_def semanticCascadeRanking_def semanticRoutingEligible_def rankAgents_def Let_def)

text \<open>
  A place for everyone eligible. Whatever ranks the front, every registered agent that is
  live, not barred, accepts the reward and signs for the chain has a position in the offer
  queue, or the queue is full; and a queue ranked by tags alone runs from the best score down.
\<close>

theorem eligible_agents_get_a_position:
  assumes q: "rankedEntries mk db now required m r barred = Some (q, sem)"
    and x: "mk_registry mk = Some reg" "x \<in> set reg" "eligible mk x (Some r) (chain m)"
      "lower (ax_address x) \<notin> set barred"
    and live: "\<forall>a. lower a = lower (ax_address x) \<longrightarrow> mk_live mk a"
  shows "((\<exists>e \<in> set q. lower (ce_address e) = lower (ax_address x)) \<or>
      CASCADE_MAX_POSITIONS mk \<le> of_nat (length q)) \<and>
    (\<not> sem \<longrightarrow> sorted_wrt (\<lambda>a b. ce_score b \<le> ce_score a) q)"
  using eligible_covered [OF assms] tag_queue_sorted q by (cases sem) simp_all

theorem eligible_agents_get_a_position_witness:
  "\<exists>q. rankedEntries (small_market False) empty_db 0 [''code''] coding_task coding_reward [''0xc''] = Some (q, False) \<and>
    ((\<exists>e \<in> set q. lower (ce_address e) = ''0xb'') \<or> 8 \<le> (of_nat (length q) :: rat))"
proof -
  obtain q where q: "rankedEntries (small_market False) empty_db 0 [''code''] coding_task coding_reward [''0xc''] =
      Some (q, False)"
    using small_market_ranked by blast
  from eligible_agents_get_a_position [OF q, of _ "agent_of ''0xb'' (Some ''k'')"] q
  show ?thesis by simp
qed

section \<open>Offers\<close>

lemma getCascade_set:
  "getCascade (setCascade db now h es) now h = Some \<lparr>ranked = es, position = 0, startedAt = now\<rparr>"
  by (simp add: getCascade_def setCascade_def kv_get_def kv_setex_def ceil_sec_def CASCADE_TTL_MS_def)

lemma getCascade_offer [simp]: "getCascade (offer_to db now h e) t k = getCascade db t k"
  by (simp add: getCascade_def offer_to_def setOffer_def)

lemma explored_fit:
  assumes "pickExplorationAgent mk required mode (Some r) draws (chain m) barred = Some (Some pick)"
    and "0 \<le> snd draws" "snd draws < 1" "mk_live mk (ce_address pick)"
  shows "fit mk m r barred pick"
proof -
  obtain reg where reg: "mk_registry mk = Some reg"
    and ne: "filter (explorable mk barred required (Some r) (chain m)) reg \<noteq> []"
    and pick: "pick = scoreAgent mk (filter (explorable mk barred required (Some r) (chain m)) reg !
        nat \<lfloor>snd draws * of_nat (length (filter (explorable mk barred required (Some r) (chain m)) reg))\<rfloor>) required"
    using assms(1) by (auto simp: pickExplorationAgent_def Let_def split: if_splits)
  define new where "new = filter (explorable mk barred required (Some r) (chain m)) reg"
  define i where "i = nat \<lfloor>snd draws * of_nat (length new)\<rfloor>"
  have "0 < length new" using ne by (simp add: new_def)
  then have "snd draws * of_nat (length new) < of_nat (length new)" using assms(3) by simp
  then have "i < length new" using assms(2) unfolding i_def by (simp add: nat_less_iff floor_less_iff)
  then have "new ! i \<in> set new" by simp
  then have "new ! i \<in> set reg" "explorable mk barred required (Some r) (chain m) (new ! i)"
    by (auto simp: new_def)
  moreover have "pick = scoreAgent mk (new ! i) required" unfolding pick new_def i_def ..
  ultimately show ?thesis using reg assms(4) scoreAgent_range
    by (auto simp: fit_def explorable_def scoreAgent_def)
qed

lemma start_offers_fit:
  assumes "startRankedCascade mk db now h required m r barred = Some (effs, db')" "OfferedTo a sc till \<in> set effs"
  shows "\<exists>c. getCascade db' now h = Some c \<and> position c = 0 \<and> ranked c \<noteq> [] \<and>
    ce_address (hd (ranked c)) = a \<and> (\<forall>e \<in> set (ranked c). fit mk m r barred e)"
proof -
  obtain q sem where q: "rankedEntries mk db now required m r barred = Some (q, sem)"
    and r: "(effs, db') = (case q of [] \<Rightarrow> ([Available (targetExecutor m)], db)
       | best # _ \<Rightarrow> (offer_effects now best 0, offer_to (setCascade db now h q) now h best))"
    using assms(1) by (auto simp: startRankedCascade_def)
  then obtain best es where "q = best # es" using assms(2) by (cases q) auto
  with r assms(2) queue_fit [OF q] show ?thesis
    by (auto simp: getCascade_set offer_effects_def)
qed

text \<open>
  Only fit agents are offered a task. When a dispatch makes an exclusive offer, the task is
  not pinned, and the agent offered heads a stored queue of which every entry is live, is a
  registered agent that accepts the reward and signs for the chain, is not the poster, the
  verifier or an agent of the poster's owner, and has a score from 0 to 100.
\<close>

theorem only_fit_agents_are_offered:
  assumes d: "dispatchTask mk db now h m r draws = (effs, db')" and a: "OfferedTo a sc till \<in> set effs"
    and draws: "0 \<le> snd draws" "snd draws < 1"
  shows "truthy (targetExecutor m) = None \<and>
    (\<exists>ds c. mk_hosted mk = Some ds \<and> getCascade db' now h = Some c \<and> position c = 0 \<and>
       ranked c \<noteq> [] \<and> ce_address (hd (ranked c)) = a \<and>
       (\<forall>e \<in> set (ranked c). fit mk m r (barredFromTask ds m) e))"
proof -
  let ?req = "requiredCapabilities m"
  have go: "\<not> (\<not> mk_cascadeEnabled mk \<or> truthy (targetExecutor m) \<noteq> None \<or>
      (?req = [] \<and> \<not> semanticRoutingEligible mk m))" (is "\<not> ?skip")
  proof
    assume ?skip
    then have "effs = [Available (targetExecutor m)]"
      using d unfolding dispatchTask_def Let_def by (simp only: if_True prod.inject)
    with a show False by simp
  qed
  obtain ds where ds: "mk_hosted mk = Some ds"
  proof (cases "mk_hosted mk")
    case None
    then have "effs = [Available (targetExecutor m)]"
      using d go unfolding dispatchTask_def Let_def by (simp only: if_False option.case prod.inject)
    with a show ?thesis by simp
  qed (rule that)
  let ?b = "barredFromTask ds m"
  let ?mode = "case agentSelectionMode m of None \<Rightarrow> Merit | Some md \<Rightarrow> md"
  let ?ranked = "or_broadcast m db (startRankedCascade mk db now h ?req m r ?b)"
  have ranked: "\<exists>c. getCascade db' now h = Some c \<and> position c = 0 \<and> ranked c \<noteq> [] \<and>
      ce_address (hd (ranked c)) = a \<and> (\<forall>e \<in> set (ranked c). fit mk m r ?b e)"
    if "?ranked = (effs, db')"
    using that a start_offers_fit [of mk db now h ?req m r ?b effs db' a sc till]
    by (auto simp: or_broadcast_def split: option.splits)
  have dis: "(effs, db') = (if ?req = [] then ?ranked
      else case pickExplorationAgent mk ?req ?mode (Some r) draws (chain m) ?b of
        Some (Some pick) \<Rightarrow>
          if mk_live mk (ce_address pick) then explore mk db now h ?req m r ?b pick else ?ranked
      | _ \<Rightarrow> ?ranked)"
    using go unfolding d [symmetric] dispatchTask_def Let_def ds by (simp only: if_False option.case)
  have "\<exists>c. getCascade db' now h = Some c \<and> position c = 0 \<and> ranked c \<noteq> [] \<and>
      ce_address (hd (ranked c)) = a \<and> (\<forall>e \<in> set (ranked c). fit mk m r ?b e)"
  proof (cases "?ranked = (effs, db')")
    case False
    then obtain pick where p: "pickExplorationAgent mk ?req ?mode (Some r) draws (chain m) ?b = Some (Some pick)"
      and l: "mk_live mk (ce_address pick)" and ex: "explore mk db now h ?req m r ?b pick = (effs, db')"
      using dis by (auto split: if_splits option.splits)
    have fp: "fit mk m r ?b pick" by (rule explored_fit [OF p draws l])
    then obtain reg where "mk_registry mk = Some reg" by (auto simp: fit_def)
    then obtain q sem where q: "rankedEntries mk (offer_to db now h pick) now ?req m r ?b = Some (q, sem)"
      by (cases "semanticCascadeRanking mk (offer_to db now h pick) now m (Some r) ?b")
        (auto simp: rankedEntries_def rankAgents_def Let_def)
    have "a = ce_address pick" using ex a by (auto simp: explore_def Let_def offer_effects_def)
    moreover have "db' = setCascade (offer_to db now h pick) now h (withExplorationHead pick q)"
      using ex q by (simp add: explore_def Let_def)
    ultimately show ?thesis using fp queue_fit [OF q]
      by (auto simp: getCascade_set withExplorationHead_def)
  qed (rule ranked)
  with go ds show ?thesis by blast
qed

theorem only_fit_agents_are_offered_witness:
  "\<exists>effs db' a sc till. dispatchTask (small_market False) empty_db 0 ''t1'' coding_task coding_reward (1, 0) = (effs, db') \<and>
    OfferedTo a sc till \<in> set effs \<and>
    (\<exists>c. getCascade db' 0 ''t1'' = Some c \<and> ranked c \<noteq> [] \<and> ce_address (hd (ranked c)) = a)"
proof -
  let ?mk = "small_market False" and ?b = "barredFromTask [] coding_task"
  obtain q where q: "rankedEntries ?mk empty_db 0 [''code''] coding_task coding_reward ?b = Some (q, False)"
    using small_market_ranked by blast
  have b: "?b = [''0xa'']"
    by (simp add: barredFromTask_def coding_task_def sample_meta_def map_filter_def sameOwnerAddresses_def
        hostedAgent_def is_address_def truthy_Some_iff)
  have "(\<exists>e \<in> set q. lower (ce_address e) = ''0xb'') \<or> 8 \<le> (of_nat (length q) :: rat)"
    using eligible_covered [OF q, of _ "agent_of ''0xb'' (Some ''k'')"] by (simp add: b)
  then have "q \<noteq> []" by auto
  then obtain best es where qs: "q = best # es" by (cases q) auto
  have "startRankedCascade ?mk empty_db 0 ''t1'' [''code''] coding_task coding_reward ?b =
      Some (offer_effects 0 best 0, offer_to (setCascade empty_db 0 ''t1'' q) 0 ''t1'' best)"
    by (simp add: startRankedCascade_def q qs)
  then have d: "dispatchTask ?mk empty_db 0 ''t1'' coding_task coding_reward (1, 0) =
      (offer_effects 0 best 0, offer_to (setCascade empty_db 0 ''t1'' q) 0 ''t1'' best)"
    by (simp add: dispatchTask_def pickExplorationAgent_def EXPLORATION_RATE_def or_broadcast_def Let_def)
  have a: "OfferedTo (ce_address best) (ce_score best) (0 + CASCADE_OFFER_MS) \<in> set (offer_effects 0 best 0)"
    by (simp add: offer_effects_def)
  from only_fit_agents_are_offered [OF d a] show ?thesis using d a by (simp, blast)
qed

section \<open>Windows\<close>

lemma next_offer:
  assumes "getCascade db now h = Some c" "now \<le> now'" "now' < now + CASCADE_TTL_MS"
  shows "if position c + 1 < length (ranked c)
    then fst (offerNextInCascade db now h) = offer_effects now (ranked c ! (position c + 1)) (position c + 1) \<and>
      getCascade (snd (offerNextInCascade db now h)) now' h = Some (c\<lparr>position := position c + 1\<rparr>)
    else fst (offerNextInCascade db now h) = [Available None] \<and>
      getCascade (snd (offerNextInCascade db now h)) now' h = None"
proof -
  have c: "kv_get now (cascades db) (lower h) = Some c" using assms(1) by (simp add: getCascade_def)
  show ?thesis
  proof (cases "position c + 1 < length (ranked c)")
    case True
    then show ?thesis using c assms(2,3)
      by (simp add: offerNextInCascade_def advanceCascade_def not_le Let_def)
        (simp add: getCascade_def kv_get_def kv_setex_def ceil_sec_def CASCADE_TTL_MS_def)
  next
    case False
    then show ?thesis using c
      by (simp add: offerNextInCascade_def advanceCascade_def Let_def)
        (simp add: getCascade_def kv_get_def kv_del_def)
  qed
qed

lemma getOffer_cascade: "getCascade (snd (getOffer db now h)) t k = getCascade db t k"
  by (simp add: getOffer_def getCascade_def split: option.split)

text \<open>
  A window closed early stays closed. When the holder declines, the next agent in the queue
  is offered the task, or everyone when there is none; and the timer the declined window had set,
  firing while the queue is kept, then changes nothing, so the next agent keeps its full window.
\<close>

theorem declined_window_stays_closed:
  assumes d: "declineOffer db now h caller = (Inr effs, db')" and c: "getCascade db now h = Some c"
    and t: "now \<le> now'" "now' < now + CASCADE_TTL_MS"
    and more: "0 < position c \<or> position c + 1 < length (ranked c)"
  shows "cascade_timer db' now' h (position c) = ([], db') \<and>
    effs = (if position c + 1 < length (ranked c)
            then offer_effects now (ranked c ! (position c + 1)) (position c + 1) else [Available None])"
proof -
  define db1 where "db1 = clearOffer (snd (getOffer db now h)) h"
  have r: "effs = fst (offerNextInCascade db1 now h)" "db' = snd (offerNextInCascade db1 now h)"
    using d by (auto simp: declineOffer_def db1_def Let_def split: if_splits)
  have "getCascade db1 now h = Some c"
    using c getOffer_cascade [of db now h now h] by (simp add: db1_def clearOffer_def getCascade_def)
  note n = next_offer [OF this t]
  show ?thesis
  proof (cases "position c + 1 < length (ranked c)")
    case True
    with n show ?thesis unfolding r cascade_timer_def by (simp split: option.split)
  next
    case False
    with n more show ?thesis unfolding r cascade_timer_def by (simp split: option.split)
  qed
qed

text \<open>An open task whose queue has two agents, the first of whom holds the offer.\<close>

definition entry_of :: "string \<Rightarrow> cascade_entry" where
  "entry_of a = \<lparr>ce_address = a, ce_score = 1, ce_displayName = a\<rparr>"

definition offered_db :: a2a_db where
  "offered_db = offer_to (setCascade posted_db 0 ''t1'' [entry_of ''0xb'', entry_of ''0xc'']) 0 ''t1'' (entry_of ''0xb'')"

theorem declined_window_stays_closed_witness:
  "cascade_timer (snd (declineOffer offered_db 5 ''t1'' ''0xb'')) 12000 ''t1'' 0 =
    ([], snd (declineOffer offered_db 5 ''t1'' ''0xb''))"
proof -
  have c: "getCascade offered_db 5 ''t1'' =
      Some \<lparr>ranked = [entry_of ''0xb'', entry_of ''0xc''], position = 0, startedAt = 0\<rparr>"
    by (simp add: offered_db_def getCascade_def setCascade_def offer_to_def setOffer_def redis_simps
        ceil_sec_def CASCADE_TTL_MS_def)
  have s: "states offered_db = states posted_db" "metas offered_db = metas posted_db"
    by (simp_all add: offered_db_def offer_to_def setOffer_def setCascade_def)
  have g: "getMeta offered_db ''t1'' \<noteq> None" "map_option status (getState offered_db ''t1'') = Some Open"
    by (simp_all add: getMeta_def find_meta_def getState_def find_state_def s posted_db_sel)
  have o': "getOffer offered_db 5 ''t1'' =
      (Some \<lparr>offer_address = ''0xb'', offer_score = 1, expiresAt = 12000\<rparr>, offered_db)"
    by (simp add: getOffer_def offered_db_def offer_to_def setOffer_def redis_simps entry_of_def
        ceil_sec_def OFFER_TTL_MS_def CASCADE_OFFER_MS_def)
  obtain effs db' where d: "declineOffer offered_db 5 ''t1'' ''0xb'' = (Inr effs, db')"
    using g o' by (simp add: declineOffer_def Let_def)
  from declined_window_stays_closed [OF d c, of 12000] d show ?thesis by (simp add: CASCADE_TTL_MS_def)
qed

section \<open>What the remainder brings back\<close>

text \<open>
  The tag remainder brings back agents the ranking by meaning dropped. An agent that cannot
  unwrap a sealed brief has no place in a ranking by meaning, yet when it is live, eligible and
  not barred it is in the queue behind it, with an exclusive window of its own, unless the queue
  is full.
\<close>

theorem remainder_readmits_sealed_out:
  assumes s: "semanticCascadeRanking mk db now m (Some r) barred = Some es"
    and seal: "sealed m" "\<And>y. y \<in> set reg \<Longrightarrow> ax_address y = lower (ax_address x) \<Longrightarrow>
      \<not> can_unwrap m y (lower (ax_address x))"
    and q: "rankedEntries mk db now required m r barred = Some (q, sem)"
    and x: "mk_registry mk = Some reg" "x \<in> set reg" "eligible mk x (Some r) (chain m)"
      "lower (ax_address x) \<notin> set barred"
    and live: "\<forall>a. lower a = lower (ax_address x) \<longrightarrow> mk_live mk a"
    and room: "of_nat (length q) < CASCADE_MAX_POSITIONS mk"
  shows "(\<forall>e \<in> set es. lower (ce_address e) \<noteq> lower (ax_address x)) \<and>
    (\<exists>e \<in> set q. lower (ce_address e) = lower (ax_address x))"
proof
  show "\<forall>e \<in> set es. lower (ce_address e) \<noteq> lower (ax_address x)"
  proof
    fix e assume "e \<in> set es"
    from semantic_entry_from [OF s this] obtain reg' y where y: "mk_registry mk = Some reg'" "y \<in> set reg'"
      "ax_address y = lower (ce_address e)" "sealed m \<Longrightarrow> can_unwrap m y (lower (ce_address e))"
      by metis
    from y(1) x(1) have "reg' = reg" by simp
    with y seal show "lower (ce_address e) \<noteq> lower (ax_address x)" by auto
  qed
  show "\<exists>e \<in> set q. lower (ce_address e) = lower (ax_address x)"
    using eligible_covered [OF q x live] room by simp
qed

lemma live_from_short: "length (live_from mk n es) \<le> length es"
  by (induction mk n es rule: live_from.induct) auto

theorem remainder_readmits_sealed_out_witness:
  "\<exists>q sem. rankedEntries (small_market True) empty_db 0 [''code''] coding_task coding_reward [] = Some (q, sem) \<and>
    (\<exists>e \<in> set q. lower (ce_address e) = ''0xc'')"
proof -
  let ?mk = "small_market True"
  have routed: "buildTaskRoutingText coding_task \<noteq> []"
    by (simp add: buildTaskRoutingText_def split: option.split) (simp add: nonblank_def truthy_Some_iff)
  have g: "getAgent [agent_of ''0xb'' (Some ''k''), agent_of ''0xc'' None] ''0xb'' = Some (agent_of ''0xb'' (Some ''k''))"
    by (simp add: getAgent_def)
  have u: "can_unwrap coding_task (agent_of ''0xb'' (Some ''k'')) ''0xb''" "\<not> can_unwrap coding_task (agent_of ''0xc'' None) ''0xc''"
    by (simp_all add: can_unwrap_def truthy_Some_iff) (simp add: coding_task_def)
  have "\<exists>es. semanticCascadeRanking ?mk empty_db 0 coding_task (Some coding_reward) [] = Some es \<and> length es = 1"
    using routed g u(1)
    by (simp add: semanticCascadeRanking_def semanticRoutingEligible_def small_market_def map_filter_simps
        semantic_entry_def best_first_def Let_def)
  then obtain es where es: "semanticCascadeRanking ?mk empty_db 0 coding_task (Some coding_reward) [] = Some es"
    "length es = 1" by blast
  obtain tagged where tagged: "rankAgents ?mk empty_db 0 [''code''] (Some coding_reward) None = Some tagged" "length tagged = 2"
    by (simp add: rankAgents_def best_first_def)
  let ?all = "es @ filter (\<lambda>e. \<not> seen_in es e) tagged"
  have q: "rankedEntries ?mk empty_db 0 [''code''] coding_task coding_reward [] = Some (live_from ?mk 0 ?all, True)"
    by (simp add: rankedEntries_def es tagged liveCascadeEntries_def Let_def)
  have "length (live_from ?mk 0 ?all) \<le> 3"
    using live_from_short [of ?mk 0 ?all] es(2) tagged(2) length_filter_le [of "\<lambda>e. \<not> seen_in es e" tagged] by simp
  then have "of_nat (length (live_from ?mk 0 ?all)) < (8 :: rat)" by simp
  moreover have "\<not> can_unwrap coding_task y (lower (ax_address (agent_of ''0xc'' None)))"
    if "y \<in> set [agent_of ''0xb'' (Some ''k''), agent_of ''0xc'' None]"
      "ax_address y = lower (ax_address (agent_of ''0xc'' None))" for y
    using that u(2) by auto
  ultimately have "\<exists>e \<in> set (live_from ?mk 0 ?all). lower (ce_address e) = lower (ax_address (agent_of ''0xc'' None))"
    by (intro conjunct2 [OF remainder_readmits_sealed_out [OF es(1) coding_task_sel(5) _ q,
          of "[agent_of ''0xb'' (Some ''k''), agent_of ''0xc'' None]"]]) simp_all
  then have "\<exists>e \<in> set (live_from ?mk 0 ?all). lower (ce_address e) = ''0xc''" by simp
  with q show ?thesis by blast
qed

end
