(* ===== verification/Payouts.thy ===== *)
theory Payouts
  imports TaskTypes KeyValue
begin

text \<open>
  \<open>services/workerPayout.ts\<close> with the writes it makes: \<open>services/creditLedger.ts\<close>, the earnings
  and reputation columns of \<open>services/agentStore.ts\<close>, \<open>services/reputationDecay.ts\<close>, the sold
  count of \<open>services/serviceStore.ts\<close> and the rows of \<open>services/accountingService.ts\<close>. What a
  settled task credits its worker with, and what a failed round costs it.

  Every call to Redis, Postgres or the escrow may fail, before or after it took effect: the answer
  each gets is an argument. A column of digits is the number it holds. The tables are Postgres's;
  the SQLite fallback, the columns \<open>updated_at\<close> and \<open>created_at\<close>, and the skill statistics, badges
  and shadow rows that are written without waiting for them are left out.
\<close>

section \<open>Tables and keys\<close>

record executor_row =
  er_reputation :: int
  er_tasksCompleted :: int
  er_totalEarned :: int
  er_totalEarnedUsdc :: int

record history_row =
  hr_rawScore :: int
  hr_tasksCompleted :: int
  hr_disputes :: int
  hr_lastTaskAt :: "int option"

record reputation_event =
  re_address :: string
  re_taskId :: string
  re_type :: string
  re_scoreDelta :: int

record ledger_row =
  lr_address :: string
  lr_role :: string
  lr_taskId :: "string option"
  lr_type :: string
  lr_amount :: rat
  lr_fee :: rat
  lr_net :: rat
  lr_unit :: "string option"
  lr_status :: string
  lr_txHash :: "string option"

record parked_payout =
  pp_chain :: string
  pp_token :: string
  pp_taskHash :: string
  pp_onChainId :: string
  pp_executor :: string
  pp_grossAmount :: int

text \<open>\<open>pd_credited\<close> is \<open>credited_payouts\<close>: by task hash, the chain and the executor.\<close>

record pay_db =
  pd_executors :: "string \<rightharpoonup> executor_row"
  pd_credited :: "string \<rightharpoonup> string \<times> string"
  pd_marker :: "string kv"
  pd_rounds :: "string kv"
  pd_parked :: "string \<rightharpoonup> parked_payout"
  pd_parkedAll :: "string set"
  pd_history :: "string \<rightharpoonup> history_row"
  pd_events :: "reputation_event list"
  pd_ledger :: "ledger_row list"
  pd_sold :: "int \<rightharpoonup> int"
  pd_feeBps :: "chain_key \<rightharpoonup> int"

section \<open>Answers\<close>

text \<open>A call that answers, one that fails with nothing done, one done whose answer is lost.\<close>

datatype answer = Answers | Refuses | LosesReply

definition done_if :: "answer \<Rightarrow> 'a \<Rightarrow> 'a \<Rightarrow> 'a" where
  "done_if a after before = (if a = Refuses then before else after)"

record payout_io =
  io_park :: answer
  io_parkAll :: answer
  io_marker :: answer
  io_feeBps :: "int option"
  io_credit :: answer
  io_sold :: answer
  io_ledger :: answer
  io_history :: answer
  io_event :: answer
  io_isCredited :: bool
  io_undo :: answer

record dispute_io =
  do_claim :: answer
  do_reputation :: answer
  do_history :: answer
  do_event :: answer
  do_giveBack :: answer

section \<open>The executor's row\<close>

datatype earnings_column = TotalEarned | TotalEarnedUsdc

definition EARNINGS_COLUMN :: "string \<Rightarrow> (earnings_column \<times> int) option" where
  "EARNINGS_COLUMN s =
     (if s = ''0G'' then Some (TotalEarned, 18)
      else if s = ''USDC'' then Some (TotalEarnedUsdc, 6) else None)"

definition hasEarningsTotal :: "unit_rec \<Rightarrow> bool" where
  "hasEarningsTotal u =
     (case EARNINGS_COLUMN (symbol u) of None \<Rightarrow> False | Some (_, d) \<Rightarrow> d = decimals u)"

fun add_earned :: "earnings_column \<Rightarrow> int \<Rightarrow> executor_row \<Rightarrow> executor_row" where
  "add_earned TotalEarned x e = e\<lparr>er_totalEarned := er_totalEarned e + x\<rparr>"
| "add_earned TotalEarnedUsdc x e = e\<lparr>er_totalEarnedUsdc := er_totalEarnedUsdc e + x\<rparr>"

definition pgCreditSql :: "earnings_column \<Rightarrow> int \<Rightarrow> executor_row \<Rightarrow> executor_row" where
  "pgCreditSql col x e =
     add_earned col x (e\<lparr>er_tasksCompleted := er_tasksCompleted e + 1,
                         er_reputation := min 100 (er_reputation e + 1)\<rparr>)"

definition CLAIM_CREDIT_SQL :: "pay_db \<Rightarrow> string \<Rightarrow> string \<Rightarrow> string \<Rightarrow> pay_db option" where
  "CLAIM_CREDIT_SQL db hash ch addr =
     (if pd_credited db hash \<noteq> None then None
      else Some (db\<lparr>pd_credited := (pd_credited db)(hash \<mapsto> (ch, addr))\<rparr>))"

datatype credit_outcome = Credited | Duplicate | Unregistered

text \<open>The transaction, as it commits: the claim and the credit, or neither.\<close>

definition credit_transaction ::
  "pay_db \<Rightarrow> string \<Rightarrow> string \<Rightarrow> string \<Rightarrow> earnings_column \<Rightarrow> int \<Rightarrow> credit_outcome \<times> pay_db" where
  "credit_transaction db hash ch addr col x =
     (case CLAIM_CREDIT_SQL db hash ch addr of
        None \<Rightarrow> (Duplicate, db)
      | Some claimed \<Rightarrow>
          (case pd_executors db addr of
             None \<Rightarrow> (Unregistered, db)
           | Some e \<Rightarrow>
               (Credited, claimed\<lparr>pd_executors := (pd_executors db)(addr \<mapsto> pgCreditSql col x e)\<rparr>)))"

text \<open>\<open>None\<close>: it throws.\<close>

definition creditPayoutOnce ::
  "pay_db \<Rightarrow> answer \<Rightarrow> string \<Rightarrow> string \<Rightarrow> string \<Rightarrow> unit_rec \<Rightarrow> int \<Rightarrow> credit_outcome option \<times> pay_db" where
  "creditPayoutOnce db a taskHash ch address u x =
     (case EARNINGS_COLUMN (symbol u) of
        None \<Rightarrow> (None, db)
      | Some (col, d) \<Rightarrow>
          if d \<noteq> decimals u then (None, db)
          else
            let r = credit_transaction db (lower taskHash) ch (lower address) col x in
            (if a = Answers then Some (fst r) else None, done_if a (snd r) db))"

definition adjustReputation :: "pay_db \<Rightarrow> string \<Rightarrow> int \<Rightarrow> bool \<times> pay_db" where
  "adjustReputation db address delta =
     (case pd_executors db (lower address) of
        None \<Rightarrow> (False, db)
      | Some e \<Rightarrow>
          (True, db\<lparr>pd_executors := (pd_executors db)(lower address \<mapsto>
                     e\<lparr>er_reputation := min 100 (max 0 (er_reputation e + delta))\<rparr>)\<rparr>))"

text \<open>The counters in \<open>registerAgent\<close>: a first registration starts them, a later one leaves them.\<close>

definition registerExecutor :: "pay_db \<Rightarrow> string \<Rightarrow> pay_db" where
  "registerExecutor db address =
     (case pd_executors db (lower address) of
        Some _ \<Rightarrow> db
      | None \<Rightarrow> db\<lparr>pd_executors := (pd_executors db)(lower address \<mapsto>
                  \<lparr>er_reputation = 50, er_tasksCompleted = 0, er_totalEarned = 0,
                   er_totalEarnedUsdc = 0\<rparr>)\<rparr>)"

definition isCredited :: "pay_db \<Rightarrow> string \<Rightarrow> bool" where
  "isCredited db taskHash \<longleftrightarrow> pd_credited db (lower taskHash) \<noteq> None"

section \<open>Reputation history\<close>

definition bump_completion :: "pay_db \<Rightarrow> int \<Rightarrow> string \<Rightarrow> int \<Rightarrow> pay_db" where
  "bump_completion db now addr delta =
     db\<lparr>pd_history := (pd_history db)(addr \<mapsto>
       (case pd_history db addr of
          None \<Rightarrow> \<lparr>hr_rawScore = delta, hr_tasksCompleted = 1, hr_disputes = 0, hr_lastTaskAt = Some now\<rparr>
        | Some h \<Rightarrow> h\<lparr>hr_rawScore := hr_rawScore h + delta,
                      hr_tasksCompleted := hr_tasksCompleted h + 1, hr_lastTaskAt := Some now\<rparr>))\<rparr>"

definition bump_dispute :: "pay_db \<Rightarrow> string \<Rightarrow> pay_db" where
  "bump_dispute db addr =
     db\<lparr>pd_history := (pd_history db)(addr \<mapsto>
       (case pd_history db addr of
          None \<Rightarrow> \<lparr>hr_rawScore = 0, hr_tasksCompleted = 0, hr_disputes = 1, hr_lastTaskAt = None\<rparr>
        | Some h \<Rightarrow> h\<lparr>hr_disputes := hr_disputes h + 1\<rparr>))\<rparr>"

definition add_event :: "pay_db \<Rightarrow> reputation_event \<Rightarrow> pay_db" where
  "add_event db e = db\<lparr>pd_events := pd_events db @ [e]\<rparr>"

text \<open>Two statements; the first flag is whether both answered.\<close>

definition recordTaskCompletion ::
  "pay_db \<Rightarrow> int \<Rightarrow> answer \<Rightarrow> answer \<Rightarrow> string \<Rightarrow> string \<Rightarrow> int \<Rightarrow> bool \<times> pay_db" where
  "recordTaskCompletion db now a1 a2 address tid delta =
     (let db1 = done_if a1 (bump_completion db now (lower address) delta) db in
      if a1 \<noteq> Answers then (False, db1)
      else (a2 = Answers,
            done_if a2 (add_event db1 \<lparr>re_address = lower address, re_taskId = tid,
              re_type = ''task_completed'', re_scoreDelta = delta\<rparr>) db1))"

definition recordDispute ::
  "pay_db \<Rightarrow> answer \<Rightarrow> answer \<Rightarrow> string \<Rightarrow> string \<Rightarrow> bool \<times> pay_db" where
  "recordDispute db a1 a2 address tid =
     (let db1 = done_if a1 (bump_dispute db (lower address)) db in
      if a1 \<noteq> Answers then (False, db1)
      else (a2 = Answers,
            done_if a2 (add_event db1 \<lparr>re_address = lower address, re_taskId = tid,
              re_type = ''dispute'', re_scoreDelta = 0\<rparr>) db1))"

section \<open>The payout\<close>

definition getFeeBps :: "pay_db \<Rightarrow> int option \<Rightarrow> chain_key \<Rightarrow> int \<times> pay_db" where
  "getFeeBps db read ch =
     (case pd_feeBps db ch of
        Some bps \<Rightarrow> (bps, db)
      | None \<Rightarrow>
          let bps = (case read of None \<Rightarrow> 1000 | Some b \<Rightarrow> b) in
          (bps, db\<lparr>pd_feeBps := (pd_feeBps db)(ch \<mapsto> bps)\<rparr>))"

text \<open>Millionths of a USDC to the token's units; an absent cost is 0.\<close>

definition computeCostChain :: "unit_rec \<Rightarrow> rat option \<Rightarrow> int" where
  "computeCostChain u cost =
     (let c = (case cost of None \<Rightarrow> 0 | Some c \<Rightarrow> c) in
      if decimals u = 6 then \<lfloor>c\<rfloor> else \<lfloor>c * 10 ^ 12\<rfloor>)"

definition afterComputeCost :: "int \<Rightarrow> int \<Rightarrow> int" where
  "afterComputeCost gross cost = (if gross > cost then gross - cost else 0)"

definition platformFee :: "int \<Rightarrow> int \<Rightarrow> int" where
  "platformFee amount bps = bigint_div (amount * bps) 10000"

definition workerShare :: "int \<Rightarrow> int \<Rightarrow> int" where
  "workerShare amount bps = amount - platformFee amount bps"

definition incrementSoldCount :: "pay_db \<Rightarrow> int \<Rightarrow> pay_db" where
  "incrementSoldCount db sid =
     db\<lparr>pd_sold := (case pd_sold db sid of None \<Rightarrow> pd_sold db | Some n \<Rightarrow> (pd_sold db)(sid \<mapsto> n + 1))\<rparr>"

definition worker_payment :: "string \<Rightarrow> string \<Rightarrow> unit_rec \<Rightarrow> int \<Rightarrow> int \<Rightarrow> int \<Rightarrow> ledger_row" where
  "worker_payment executor onChainId u gross fee share =
     (let d = 10 ^ nat (decimals u) in
      \<lparr>lr_address = lower executor, lr_role = ''worker'', lr_taskId = Some onChainId,
       lr_type = ''payment'', lr_amount = of_int gross / d, lr_fee = of_int fee / d,
       lr_net = of_int share / d, lr_unit = Some (symbol u), lr_status = ''confirmed'',
       lr_txHash = None\<rparr>)"

record payout_opts =
  op_rethrow :: bool
  op_serviceId :: "int option"
  op_computeCost :: "rat option"

text \<open>What follows a credit: each write on its own, none of them passing on a failure.\<close>

definition after_credit ::
  "pay_db \<Rightarrow> int \<Rightarrow> payout_io \<Rightarrow> payout_opts \<Rightarrow> string \<Rightarrow> string \<Rightarrow> ledger_row \<Rightarrow> pay_db" where
  "after_credit db now io opts taskHash executor payment =
     (let db1 = (case op_serviceId opts of None \<Rightarrow> db
                 | Some sid \<Rightarrow> done_if (io_sold io) (incrementSoldCount db sid) db);
          db2 = done_if (io_ledger io) (db1\<lparr>pd_ledger := pd_ledger db1 @ [payment]\<rparr>) db1
      in snd (recordTaskCompletion db2 now (io_history io) (io_event io) executor taskHash 10))"

text \<open>The catch: the marker goes when this call set it, or when no row stands behind it.\<close>

definition undo_marker :: "pay_db \<Rightarrow> payout_io \<Rightarrow> bool option \<Rightarrow> string \<Rightarrow> pay_db" where
  "undo_marker db io markerSet taskHash =
     (if markerSet = Some True \<or> markerSet = None \<and> io_isCredited io \<and> \<not> isCredited db taskHash
      then done_if (io_undo io) (db\<lparr>pd_marker := kv_del (pd_marker db) (lower taskHash)\<rparr>) db
      else db)"

definition park ::
  "pay_db \<Rightarrow> payout_io \<Rightarrow> string \<Rightarrow> parked_payout \<Rightarrow> pay_db" where
  "park db io taskHash p =
     (let db1 = done_if (io_park io) (db\<lparr>pd_parked := (pd_parked db)(lower taskHash \<mapsto> p)\<rparr>) db in
      if io_park io \<noteq> Answers then db1
      else done_if (io_parkAll io) (db1\<lparr>pd_parkedAll := insert (lower taskHash) (pd_parkedAll db1)\<rparr>) db1)"

text \<open>
  The fast path: whether the call goes on, what is known of who wrote the marker, and the marker.
  \<open>Some False\<close> with no leave to go on is the key that was already there.
\<close>

definition take_marker :: "pay_db \<Rightarrow> int \<Rightarrow> answer \<Rightarrow> string \<Rightarrow> string \<Rightarrow> (bool \<times> bool option) \<times> pay_db" where
  "take_marker db now a taskHash executor =
     (let r = kv_setnx now (pd_marker db) (lower taskHash) None (lower executor);
          db' = done_if a (db\<lparr>pd_marker := snd r\<rparr>) db
      in if a \<noteq> Answers then ((True, None), db') else ((fst r, Some (fst r)), db'))"

text \<open>The first flag: the error is passed on.\<close>

definition recordWorkerPayout ::
  "config \<Rightarrow> pay_db \<Rightarrow> int \<Rightarrow> payout_io \<Rightarrow> string \<Rightarrow> string \<Rightarrow> string \<Rightarrow> int \<Rightarrow> chain_key \<times> string \<Rightarrow>
   payout_opts \<Rightarrow> bool \<times> pay_db" where
  "recordWorkerPayout cfg db now io taskHash executor onChainId gross settlement opts =
     (let ch = chain_name (fst settlement);
          parked = (\<lambda>_. (False, park db io taskHash
            \<lparr>pp_chain = ch, pp_token = snd settlement, pp_taskHash = taskHash,
             pp_onChainId = onChainId, pp_executor = lower executor, pp_grossAmount = gross\<rparr>))
      in case payoutCurrency cfg ch (snd settlement) of
           None \<Rightarrow> parked ()
         | Some u \<Rightarrow>
             if \<not> hasEarningsTotal u then parked ()
             else
               let m = take_marker db now (io_marker io) taskHash executor; db1 = snd m in
               if \<not> fst (fst m) then (False, db1)
               else
                 let f = getFeeBps db1 (io_feeBps io) (fst settlement);
                     amount = afterComputeCost gross (computeCostChain u (op_computeCost opts));
                     share = workerShare amount (fst f);
                     c = creditPayoutOnce (snd f) (io_credit io) taskHash ch executor u share
                 in case fst c of
                      None \<Rightarrow> (op_rethrow opts, undo_marker (snd c) io (snd (fst m)) taskHash)
                    | Some Duplicate \<Rightarrow> (False, snd c)
                    | Some Unregistered \<Rightarrow>
                        (False,
                         if snd (fst m) \<noteq> Some False
                         then done_if (io_undo io)
                           ((snd c)\<lparr>pd_marker := kv_del (pd_marker (snd c)) (lower taskHash)\<rparr>) (snd c)
                         else snd c)
                    | Some Credited \<Rightarrow>
                        (False, after_credit (snd c) now io opts taskHash executor
                           (worker_payment executor onChainId u gross (platformFee amount (fst f)) share)))"

section \<open>The dispute\<close>

datatype attempt = Attempt int | Ruling

fun attempt_text :: "attempt \<Rightarrow> string" where
  "attempt_text (Attempt n) = show_int n"
| "attempt_text Ruling = ''ruling''"

record failed_round =
  fr_chain :: chain_key
  fr_taskId :: string
  fr_attempt :: attempt

definition round_key :: "config \<Rightarrow> failed_round \<Rightarrow> string" where
  "round_key cfg r =
     chainScope cfg (fr_chain r) @ '':'' @ fr_taskId r @ '':'' @ attempt_text (fr_attempt r)"

text \<open>\<open>None\<close>: it throws (with \<open>rethrow\<close>); else whether this call recorded the dispute.\<close>

definition recordWorkerDispute ::
  "config \<Rightarrow> pay_db \<Rightarrow> int \<Rightarrow> dispute_io \<Rightarrow> string \<Rightarrow> string \<Rightarrow> failed_round \<Rightarrow> bool \<Rightarrow>
   bool option \<times> pay_db" where
  "recordWorkerDispute cfg db now io taskHash executor r rethrow =
     (let k = round_key cfg r;
          s = kv_setnx now (pd_rounds db) k None (lower executor);
          db1 = done_if (do_claim io) (db\<lparr>pd_rounds := snd s\<rparr>) db;
          failed = (if rethrow then None else Some False);
          give_back = (\<lambda>db. done_if (do_giveBack io) (db\<lparr>pd_rounds := kv_del (pd_rounds db) k\<rparr>) db)
      in if do_claim io \<noteq> Answers then (failed, db1)
         else if \<not> fst s then (Some False, db1)
         else
           let db2 = done_if (do_reputation io) (snd (adjustReputation db1 executor (-10))) db1 in
           if do_reputation io \<noteq> Answers then (failed, give_back db2)
           else
             let h = recordDispute db2 (do_history io) (do_event io) executor taskHash in
             if \<not> fst h then (failed, give_back (snd h))
             else (Some True, snd h))"

end
