(* ===== verification/PayoutsProps.thy ===== *)
theory PayoutsProps
  imports Payouts ChainsProps
begin

text \<open>
  What the payout accounting promises, whatever fails: a task credits its worker once, wholly or
  not at all; a failed call can be made again; a round is docked once. Then the two ways a fault
  gets past it.
\<close>

section \<open>What a call may change\<close>

lemmas pay_frame = take_marker_def getFeeBps_def park_def undo_marker_def after_credit_def
  incrementSoldCount_def recordTaskCompletion_def bump_completion_def add_event_def done_if_def

lemma take_marker_frame [simp]:
  "pd_executors (snd (take_marker db now a h e)) = pd_executors db"
  "pd_credited (snd (take_marker db now a h e)) = pd_credited db"
  "pd_rounds (snd (take_marker db now a h e)) = pd_rounds db"
  "pd_feeBps (snd (take_marker db now a h e)) = pd_feeBps db"
  by (simp_all add: pay_frame Let_def)

lemma getFeeBps_frame [simp]:
  "pd_executors (snd (getFeeBps db r c)) = pd_executors db"
  "pd_credited (snd (getFeeBps db r c)) = pd_credited db"
  "pd_rounds (snd (getFeeBps db r c)) = pd_rounds db"
  "pd_marker (snd (getFeeBps db r c)) = pd_marker db"
  by (simp_all add: getFeeBps_def Let_def split: option.split)

lemma park_frame [simp]:
  "pd_executors (park db io h p) = pd_executors db" "pd_credited (park db io h p) = pd_credited db"
  "pd_rounds (park db io h p) = pd_rounds db"
  by (simp_all add: park_def done_if_def Let_def)

lemma undo_marker_frame [simp]:
  "pd_executors (undo_marker db io m h) = pd_executors db"
  "pd_credited (undo_marker db io m h) = pd_credited db"
  "pd_rounds (undo_marker db io m h) = pd_rounds db"
  by (simp_all add: undo_marker_def done_if_def)

lemma recordTaskCompletion_frame [simp]:
  "pd_executors (snd (recordTaskCompletion db now a1 a2 e h d)) = pd_executors db"
  "pd_credited (snd (recordTaskCompletion db now a1 a2 e h d)) = pd_credited db"
  "pd_rounds (snd (recordTaskCompletion db now a1 a2 e h d)) = pd_rounds db"
  "pd_marker (snd (recordTaskCompletion db now a1 a2 e h d)) = pd_marker db"
  by (simp_all add: recordTaskCompletion_def bump_completion_def add_event_def done_if_def Let_def)

lemma after_credit_frame [simp]:
  "pd_executors (after_credit db now io opts h e p) = pd_executors db"
  "pd_credited (after_credit db now io opts h e p) = pd_credited db"
  "pd_rounds (after_credit db now io opts h e p) = pd_rounds db"
  "pd_marker (after_credit db now io opts h e p) = pd_marker db"
  by (simp_all add: after_credit_def incrementSoldCount_def done_if_def Let_def split: option.split)

text \<open>The row and the credit of one task, or nothing.\<close>

definition credit_applied ::
  "pay_db \<Rightarrow> pay_db \<Rightarrow> string \<Rightarrow> string \<Rightarrow> string \<Rightarrow> earnings_column \<Rightarrow> int \<Rightarrow> bool" where
  "credit_applied db db' h c e col x \<longleftrightarrow>
     pd_credited db (lower h) = None \<and>
     pd_credited db' = (pd_credited db)(lower h \<mapsto> (c, lower e)) \<and>
     (\<exists>row. pd_executors db (lower e) = Some row \<and>
        pd_executors db' = (pd_executors db)(lower e \<mapsto> pgCreditSql col x row))"

definition same_credits :: "pay_db \<Rightarrow> pay_db \<Rightarrow> bool" where
  "same_credits db db' \<longleftrightarrow> pd_credited db' = pd_credited db \<and> pd_executors db' = pd_executors db"

lemma credit_transaction_cases:
  obtains (none) "fst (credit_transaction db (lower h) c (lower e) col x) \<noteq> Credited"
      "snd (credit_transaction db (lower h) c (lower e) col x) = db"
    | (credited) "fst (credit_transaction db (lower h) c (lower e) col x) = Credited"
      "credit_applied db (snd (credit_transaction db (lower h) c (lower e) col x)) h c e col x"
  by (cases "pd_credited db (lower h)"; cases "pd_executors db (lower e)")
    (auto simp: credit_transaction_def CLAIM_CREDIT_SQL_def credit_applied_def)

lemma creditPayoutOnce_cases:
  assumes "EARNINGS_COLUMN (symbol u) = Some (col, decimals u)"
  shows "creditPayoutOnce db a h c e u x =
    (let r = credit_transaction db (lower h) c (lower e) col x in
     (if a = Answers then Some (fst r) else None, done_if a (snd r) db))"
  using assms by (simp add: creditPayoutOnce_def)

lemma creditPayoutOnce_frame [simp]:
  "pd_rounds (snd (creditPayoutOnce db a h c e u x)) = pd_rounds db"
  "pd_marker (snd (creditPayoutOnce db a h c e u x)) = pd_marker db"
  by (auto simp: creditPayoutOnce_def credit_transaction_def CLAIM_CREDIT_SQL_def done_if_def Let_def
      split: option.splits)

text \<open>What one call credits: the worker's share of what is left after the compute cost.\<close>

definition share_due :: "int \<Rightarrow> rat option \<Rightarrow> unit_rec \<Rightarrow> int \<Rightarrow> int" where
  "share_due gross cost u bps = workerShare (afterComputeCost gross (computeCostChain u cost)) bps"

definition fee_used :: "pay_db \<Rightarrow> payout_io \<Rightarrow> chain_key \<Rightarrow> int" where
  "fee_used db io c = (case pd_feeBps db c of Some b \<Rightarrow> b
     | None \<Rightarrow> (case io_feeBps io of None \<Rightarrow> 1000 | Some b \<Rightarrow> b))"

lemma fst_getFeeBps: "fst (getFeeBps db (io_feeBps io) c) = fee_used db io c"
  by (simp add: getFeeBps_def fee_used_def Let_def split: option.split)

lemma fee_used_cong: "pd_feeBps db' = pd_feeBps db \<Longrightarrow> fee_used db' io c = fee_used db io c"
  by (simp add: fee_used_def)

lemma payout_currency_unit: "payoutCurrency cfg c tok = Some u \<Longrightarrow> u = USDC_UNIT"
  by (auto simp: payoutCurrency_def Let_def split: option.splits if_splits)

lemma usdc_column [simp]:
  "EARNINGS_COLUMN (symbol USDC_UNIT) = Some (TotalEarnedUsdc, decimals USDC_UNIT)"
  "hasEarningsTotal USDC_UNIT"
  by (simp_all add: EARNINGS_COLUMN_def USDC_UNIT_def hasEarningsTotal_def)

text \<open>A call that goes past the marker, in terms of its transaction.\<close>

lemma payout_past_marker:
  fixes cfg db now io h e oid g st opts
  defines "m \<equiv> take_marker db now (io_marker io) h e"
  defines "f \<equiv> getFeeBps (snd m) (io_feeBps io) (fst st)"
  defines "x \<equiv> share_due g (op_computeCost opts) USDC_UNIT (fee_used db io (fst st))"
  defines "t \<equiv> credit_transaction (snd f) (lower h) (chain_name (fst st)) (lower e) TotalEarnedUsdc x"
  assumes "payoutCurrency cfg (chain_name (fst st)) (snd st) \<noteq> None" "fst (fst m)"
  shows "recordWorkerPayout cfg db now io h e oid g st opts =
    (let db2 = done_if (io_credit io) (snd t) (snd f) in
     if io_credit io \<noteq> Answers then (op_rethrow opts, undo_marker db2 io (snd (fst m)) h)
     else (case fst t of
         Duplicate \<Rightarrow> (False, db2)
       | Unregistered \<Rightarrow> (False, if snd (fst m) \<noteq> Some False
           then done_if (io_undo io) (db2\<lparr>pd_marker := kv_del (pd_marker db2) (lower h)\<rparr>) db2 else db2)
       | Credited \<Rightarrow> (False, after_credit db2 now io opts h e
           (worker_payment e oid USDC_UNIT g
              (platformFee (afterComputeCost g (computeCostChain USDC_UNIT (op_computeCost opts)))
                 (fee_used db io (fst st))) x))))"
proof -
  obtain u where u: "payoutCurrency cfg (chain_name (fst st)) (snd st) = Some u" using assms(5) by blast
  have u': "u = USDC_UNIT" by (rule payout_currency_unit [OF u])
  have fee: "fst f = fee_used db io (fst st)"
    unfolding f_def fst_getFeeBps by (rule fee_used_cong) (simp add: m_def)
  show ?thesis
    using assms(6) unfolding recordWorkerPayout_def Let_def u u' option.case usdc_column(2)
    by (simp add: m_def [symmetric] f_def [symmetric] fee x_def [symmetric] Let_def
        share_due_def [symmetric] creditPayoutOnce_cases [OF usdc_column(1)] t_def [symmetric]
        split: credit_outcome.split)
qed

lemma payout_no_currency:
  assumes "payoutCurrency cfg (chain_name (fst st)) (snd st) = None"
  shows "fst (recordWorkerPayout cfg db now io h e oid g st opts) = False"
    "same_credits db (snd (recordWorkerPayout cfg db now io h e oid g st opts))"
  using assms by (simp_all add: recordWorkerPayout_def same_credits_def Let_def)

lemma payout_marked:
  assumes "\<not> fst (fst (take_marker db now (io_marker io) h e))"
    "payoutCurrency cfg (chain_name (fst st)) (snd st) \<noteq> None"
  shows "recordWorkerPayout cfg db now io h e oid g st opts =
    (False, snd (take_marker db now (io_marker io) h e))"
  using assms payout_currency_unit [of cfg "chain_name (fst st)" "snd st"]
  by (auto simp: recordWorkerPayout_def Let_def)


lemma credit_applied_cong:
  "pd_credited db1 = pd_credited db \<Longrightarrow> pd_executors db1 = pd_executors db \<Longrightarrow>
   credit_applied db1 db' h c e col x = credit_applied db db' h c e col x"
  by (simp add: credit_applied_def)

lemma credit_applied_frame:
  "pd_credited db2 = pd_credited db' \<Longrightarrow> pd_executors db2 = pd_executors db' \<Longrightarrow>
   credit_applied db db2 h c e col x = credit_applied db db' h c e col x"
  by (simp add: credit_applied_def)

lemma payout_all_or_nothing:
  "same_credits db (snd (recordWorkerPayout cfg db now io h e oid g st opts)) \<or>
   credit_applied db (snd (recordWorkerPayout cfg db now io h e oid g st opts)) h (chain_name (fst st)) e
     TotalEarnedUsdc (share_due g (op_computeCost opts) USDC_UNIT (fee_used db io (fst st)))"
proof -
  let ?m = "take_marker db now (io_marker io) h e"
  let ?x = "share_due g (op_computeCost opts) USDC_UNIT (fee_used db io (fst st))"
  let ?f = "snd (getFeeBps (snd ?m) (io_feeBps io) (fst st))"
  let ?t = "credit_transaction ?f (lower h) (chain_name (fst st)) (lower e) TotalEarnedUsdc ?x"
  let ?r = "recordWorkerPayout cfg db now io h e oid g st opts"
  show ?thesis
  proof (cases "payoutCurrency cfg (chain_name (fst st)) (snd st) \<noteq> None \<and> fst (fst ?m)")
    case False
    then have "same_credits db (snd ?r)"
      using payout_no_currency(2) [of cfg st db now io h e oid g opts]
      by (cases "payoutCurrency cfg (chain_name (fst st)) (snd st) = None")
        (simp_all add: payout_marked same_credits_def)
    then show ?thesis by blast
  next
    case True
    then have frame: "pd_credited (snd ?r) = pd_credited (done_if (io_credit io) (snd ?t) ?f) \<and>
        pd_executors (snd ?r) = pd_executors (done_if (io_credit io) (snd ?t) ?f)"
      by (simp add: payout_past_marker Let_def done_if_def split: credit_outcome.split)
    show ?thesis
    proof (cases rule: credit_transaction_cases [of ?f h "chain_name (fst st)" e TotalEarnedUsdc ?x])
      case none
      then show ?thesis using frame by (simp add: same_credits_def done_if_def)
    next
      case credited
      then have "credit_applied db (snd ?t) h (chain_name (fst st)) e TotalEarnedUsdc ?x"
        by (simp add: credit_applied_cong [of db ?f])
      then show ?thesis
        using frame by (cases "io_credit io = Refuses")
          (simp_all add: same_credits_def done_if_def credit_applied_frame [of "snd ?r" "snd ?t"])
    qed
  qed
qed


section \<open>Any order of calls\<close>

definition empty_pay_db :: pay_db where
  "empty_pay_db =
     \<lparr>pd_executors = Map.empty, pd_credited = Map.empty, pd_marker = Map.empty, pd_rounds = Map.empty,
      pd_parked = Map.empty, pd_parkedAll = {}, pd_history = Map.empty, pd_events = [], pd_ledger = [],
      pd_sold = Map.empty, pd_feeBps = Map.empty\<rparr>"

text \<open>A call by any route, listener or registration; a restart forgets the fees it read.\<close>

inductive pay_call :: "config \<Rightarrow> pay_db \<Rightarrow> pay_db \<Rightarrow> bool" for cfg where
  payout: "pay_call cfg db (snd (recordWorkerPayout cfg db now io h e oid g st opts))"
| dispute: "pay_call cfg db (snd (recordWorkerDispute cfg db now dio h e r rethrow))"
| register: "pay_call cfg db (registerExecutor db a)"
| restart: "pay_call cfg db (db\<lparr>pd_feeBps := Map.empty\<rparr>)"

text \<open>Redis may also be flushed, or restored to what it held at another time.\<close>

inductive pay_step :: "config \<Rightarrow> pay_db \<Rightarrow> pay_db \<Rightarrow> bool" for cfg where
  call: "pay_call cfg db db' \<Longrightarrow> pay_step cfg db db'"
| restore: "pay_step cfg db (db\<lparr>pd_marker := mk, pd_rounds := rk, pd_parked := pk, pd_parkedAll := pa\<rparr>)"

inductive_cases pay_callE: "pay_call cfg db db'"
inductive_cases pay_stepE: "pay_step cfg db db'"

definition rows_of :: "pay_db \<Rightarrow> string \<Rightarrow> string set" where
  "rows_of db a = {h. \<exists>c. pd_credited db h = Some (c, a)}"

definition pay_ok :: "pay_db \<Rightarrow> bool" where
  "pay_ok db \<longleftrightarrow>
     finite (dom (pd_credited db)) \<and>
     (\<forall>h c a. pd_credited db h = Some (c, a) \<longrightarrow> pd_executors db a \<noteq> None) \<and>
     (\<forall>a e. pd_executors db a = Some e \<longrightarrow>
        er_tasksCompleted e = int (card (rows_of db a)) \<and> 0 \<le> er_reputation e \<and> er_reputation e \<le> 100)"

lemma finite_rows: "finite (dom (pd_credited db)) \<Longrightarrow> finite (rows_of db a)"
  by (rule finite_subset [of _ "dom (pd_credited db)"]) (auto simp: rows_of_def)

lemma rows_of_cong: "pd_credited db' = pd_credited db \<Longrightarrow> rows_of db' a = rows_of db a"
  by (simp add: rows_of_def)

lemma pgCreditSql_sel [simp]:
  "er_tasksCompleted (pgCreditSql col x e) = er_tasksCompleted e + 1"
  "er_reputation (pgCreditSql col x e) = min 100 (er_reputation e + 1)"
  "er_totalEarned (pgCreditSql TotalEarnedUsdc x e) = er_totalEarned e"
  "er_totalEarnedUsdc (pgCreditSql TotalEarnedUsdc x e) = er_totalEarnedUsdc e + x"
  by (cases col; simp add: pgCreditSql_def)+

lemma rows_of_credit:
  assumes "pd_credited db (lower h) = None" "pd_credited db' = (pd_credited db)(lower h \<mapsto> (c, lower e))"
  shows "rows_of db' a = (if a = lower e then insert (lower h) (rows_of db a) else rows_of db a)"
  using assms by (auto simp: rows_of_def)

lemma pay_ok_same: "same_credits db db' \<Longrightarrow> pay_ok db \<Longrightarrow> pay_ok db'"
  by (simp add: same_credits_def pay_ok_def rows_of_def)

lemma pay_ok_credit:
  assumes ok: "pay_ok db" and c: "credit_applied db db' h c e col x"
  shows "pay_ok db'"
proof -
  obtain row where new: "pd_credited db (lower h) = None"
      "pd_credited db' = (pd_credited db)(lower h \<mapsto> (c, lower e))"
      "pd_executors db (lower e) = Some row"
      "pd_executors db' = (pd_executors db)(lower e \<mapsto> pgCreditSql col x row)"
    using c by (auto simp: credit_applied_def)
  have "lower h \<notin> rows_of db (lower e)" using new(1) by (simp add: rows_of_def)
  moreover have "finite (rows_of db (lower e))" using ok finite_rows by (simp add: pay_ok_def)
  ultimately have "card (rows_of db' (lower e)) = card (rows_of db (lower e)) + 1"
    by (simp add: rows_of_credit [OF new(1,2)])
  moreover have "rows_of db' a = rows_of db a" if "a \<noteq> lower e" for a
    using that by (simp add: rows_of_credit [OF new(1,2)])
  ultimately show ?thesis using ok new by (auto simp: pay_ok_def)
qed

text \<open>A dispute and a registration.\<close>

lemma recordDispute_frame [simp]:
  "pd_executors (snd (recordDispute db a1 a2 e h)) = pd_executors db"
  "pd_credited (snd (recordDispute db a1 a2 e h)) = pd_credited db"
  "pd_rounds (snd (recordDispute db a1 a2 e h)) = pd_rounds db"
  by (simp_all add: recordDispute_def bump_dispute_def add_event_def done_if_def Let_def)

lemma adjustReputation_frame [simp]:
  "pd_credited (snd (adjustReputation db a d)) = pd_credited db"
  "pd_rounds (snd (adjustReputation db a d)) = pd_rounds db"
  by (simp_all add: adjustReputation_def split: option.split)

definition docked :: "pay_db \<Rightarrow> pay_db \<Rightarrow> string \<Rightarrow> bool" where
  "docked db db' e \<longleftrightarrow>
     pd_executors db' = pd_executors (snd (adjustReputation db e (-10)))"

lemma dispute_executors:
  "pd_credited (snd (recordWorkerDispute cfg db now dio h e r rethrow)) = pd_credited db"
  "pd_executors (snd (recordWorkerDispute cfg db now dio h e r rethrow)) = pd_executors db \<or>
   docked db (snd (recordWorkerDispute cfg db now dio h e r rethrow)) e"
  by (auto simp: recordWorkerDispute_def docked_def adjustReputation_def done_if_def Let_def
      split: option.splits)

lemma pay_ok_docked:
  assumes "pay_ok db" "pd_credited db' = pd_credited db" "docked db db' e"
  shows "pay_ok db'"
  using assms by (auto simp: pay_ok_def docked_def rows_of_def adjustReputation_def split: option.splits if_splits)

lemma pay_ok_register:
  assumes "pay_ok db"
  shows "pay_ok (registerExecutor db a)"
proof (cases "pd_executors db (lower a)")
  case None
  then have no: "pd_credited db h \<noteq> Some (c, lower a)" for h c
    using assms unfolding pay_ok_def by blast
  then have "rows_of db (lower a) = {}" by (simp add: rows_of_def)
  moreover have "rows_of (registerExecutor db a) b = rows_of db b" for b
    by (rule rows_of_cong) (simp add: registerExecutor_def split: option.split)
  ultimately show ?thesis using None assms unfolding pay_ok_def by (simp add: registerExecutor_def)
qed (use assms in \<open>simp add: registerExecutor_def\<close>)

lemma pay_call_ok: "pay_call cfg db db' \<Longrightarrow> pay_ok db \<Longrightarrow> pay_ok db'"
proof (erule pay_callE)
  fix now io h e oid g st opts
  assume ok: "pay_ok db" and s: "db' = snd (recordWorkerPayout cfg db now io h e oid g st opts)"
  show "pay_ok db'"
    using payout_all_or_nothing [of db cfg now io h e oid g st opts] pay_ok_same [OF _ ok] pay_ok_credit [OF ok]
    unfolding s by blast
next
  fix now dio h e r rethrow
  assume ok: "pay_ok db" and s: "db' = snd (recordWorkerDispute cfg db now dio h e r rethrow)"
  have "pd_credited db' = pd_credited db" unfolding s by (rule dispute_executors)
  then show "pay_ok db'"
    using dispute_executors(2) [of cfg db now dio h e r rethrow] ok pay_ok_docked [OF ok, of db' e]
      pay_ok_same [of db db'] by (auto simp: s same_credits_def)
qed (simp_all add: pay_ok_register, simp add: pay_ok_def rows_of_def)

lemma pay_step_ok: "pay_step cfg db db' \<Longrightarrow> pay_ok db \<Longrightarrow> pay_ok db'"
  by (erule pay_stepE) (blast intro: pay_call_ok, simp add: pay_ok_def rows_of_def)

lemma pay_steps_ok: "(pay_step cfg)\<^sup>*\<^sup>* db db' \<Longrightarrow> pay_ok db \<Longrightarrow> pay_ok db'"
  by (induction rule: rtranclp_induct) (auto intro: pay_step_ok)

lemma empty_pay_ok: "pay_ok empty_pay_db"
  by (simp add: pay_ok_def empty_pay_db_def)

lemma pay_step_rows:
  "pay_step cfg db db' \<Longrightarrow> pd_credited db h = Some r \<Longrightarrow> pd_credited db' h = Some r"
proof (erule pay_stepE, erule pay_callE)
  fix now io k e oid g st opts
  assume "pd_credited db h = Some r" "db' = snd (recordWorkerPayout cfg db now io k e oid g st opts)"
  then show "pd_credited db' h = Some r"
    using payout_all_or_nothing [of db cfg now io k e oid g st opts]
    by (auto simp: same_credits_def credit_applied_def)
qed (auto simp: dispute_executors registerExecutor_def split: option.split)

lemma pay_steps_rows:
  "(pay_step cfg)\<^sup>*\<^sup>* db db' \<Longrightarrow> pd_credited db h = Some r \<Longrightarrow> pd_credited db' h = Some r"
  by (induction rule: rtranclp_induct) (auto intro: pay_step_rows)


text \<open>
  C27. A task credits its worker once. Whatever payouts, disputes, registrations, restarts and
  restores of Redis have run, and whatever of their calls failed, an executor's completed tasks
  are the rows of \<open>credited_payouts\<close> that name it, its reputation is between 0 and 100, and a row,
  once written, is never changed.
\<close>

theorem each_task_credits_once:
  assumes "(pay_step cfg)\<^sup>*\<^sup>* empty_pay_db db" and later: "(pay_step cfg)\<^sup>*\<^sup>* db db'"
  shows "(pd_credited db h = Some r \<longrightarrow> pd_credited db' h = Some r) \<and>
    (\<forall>a e. pd_executors db a = Some e \<longrightarrow>
       er_tasksCompleted e = int (card {h. \<exists>c. pd_credited db h = Some (c, a)}) \<and>
       0 \<le> er_reputation e \<and> er_reputation e \<le> 100)"
  using pay_steps_ok [OF assms(1) empty_pay_ok] pay_steps_rows [OF later]
  by (simp add: pay_ok_def rows_of_def)

text \<open>
  C38. A credit is whole or not made. Whatever fails in a payout, it leaves every executor and
  every row as they were, or it adds the one row of its task, which had none, and to the one
  executor one completed task, one point of reputation up to 100, and the worker's share of what
  the escrow held after the compute cost.
\<close>

theorem payout_is_whole:
  "let db' = snd (recordWorkerPayout cfg db now io h e oid g st opts);
       c = chain_name (fst st);
       amount = afterComputeCost g (computeCostChain USDC_UNIT (op_computeCost opts));
       bps = (case pd_feeBps db (fst st) of Some b \<Rightarrow> b
              | None \<Rightarrow> (case io_feeBps io of None \<Rightarrow> 1000 | Some b \<Rightarrow> b))
   in pd_credited db' = pd_credited db \<and> pd_executors db' = pd_executors db \<or>
      pd_credited db (lower h) = None \<and> pd_credited db' = (pd_credited db)(lower h \<mapsto> (c, lower e)) \<and>
      (\<exists>row. pd_executors db (lower e) = Some row \<and>
         pd_executors db' = (pd_executors db)(lower e \<mapsto>
           row\<lparr>er_tasksCompleted := er_tasksCompleted row + 1, er_reputation := min 100 (er_reputation row + 1),
               er_totalEarnedUsdc := er_totalEarnedUsdc row + workerShare amount bps\<rparr>))"
  using payout_all_or_nothing [of db cfg now io h e oid g st opts]
  unfolding same_credits_def credit_applied_def share_due_def fee_used_def pgCreditSql_def add_earned.simps Let_def
  by simp

text \<open>
  The split is the escrow's. Of an amount, the platform's fee is its basis points rounded
  down, the worker's share is all the rest, and neither is negative; the compute cost takes at
  most everything.
\<close>

theorem payout_split:
  assumes "0 \<le> gross" "0 \<le> cost" "0 \<le> bps" "bps \<le> 10000"
  shows "let amount = afterComputeCost gross cost; fee = platformFee amount bps; share = workerShare amount bps in
    0 \<le> amount \<and> amount \<le> gross \<and> 0 \<le> fee \<and> 0 \<le> share \<and> share + fee = amount \<and>
    10000 * fee \<le> amount * bps \<and> amount * bps < 10000 * (fee + 1)"
proof -
  define a where "a = afterComputeCost gross cost"
  have a: "0 \<le> a" "a \<le> gross" using assms by (simp_all add: a_def afterComputeCost_def)
  have fee: "platformFee a bps = a * bps div 10000"
    using a assms by (simp add: platformFee_def bigint_div_nonneg)
  have "a * bps \<le> a * 10000" using a(1) assms(4) by (rule mult_left_mono [rotated])
  then have "a * bps div 10000 \<le> a" by linarith
  moreover have "0 \<le> a * bps div 10000" using a assms by (simp add: pos_imp_zdiv_nonneg_iff)
  ultimately show ?thesis
    unfolding Let_def a_def [symmetric] workerShare_def fee using a by auto
qed

theorem payout_split_witness:
  "workerShare (afterComputeCost 2000005 5) 1000 + platformFee (afterComputeCost 2000005 5) 1000 = 2000000"
  using payout_split [of 2000005 5 1000] by (simp add: Let_def afterComputeCost_def)


section \<open>After a failure\<close>

lemma take_marker_free:
  assumes "kv_get now (pd_marker db) (lower h) = None"
  shows "fst (fst (take_marker db now a h e))"
    "snd (fst (take_marker db now a h e)) = (if a = Answers then Some True else None)"
  using assms by (simp_all add: take_marker_def Let_def kv_setnx_def)

lemma answered_payout_credits:
  assumes "payoutCurrency cfg (chain_name (fst st)) (snd st) \<noteq> None"
    and "kv_get now (pd_marker db) (lower h) = None" "pd_credited db (lower h) = None"
    and "pd_executors db (lower e) = Some row" "io_credit io = Answers"
  shows "\<exists>x. credit_applied db (snd (recordWorkerPayout cfg db now io h e oid g st opts)) h
     (chain_name (fst st)) e TotalEarnedUsdc x"
  using assms
  by (auto simp: payout_past_marker take_marker_free(1) Let_def done_if_def credit_transaction_def
      CLAIM_CREDIT_SQL_def credit_applied_def)

lemma failed_payout_frees_marker:
  assumes cur: "payoutCurrency cfg (chain_name (fst st)) (snd st) \<noteq> None"
    and free: "kv_get now (pd_marker db) (lower h) = None" and row: "pd_credited db (lower h) = None"
    and io: "io_credit io \<noteq> Answers" "io_undo io \<noteq> Refuses" "io_marker io = Answers \<or> io_isCredited io"
    and same: "same_credits db (snd (recordWorkerPayout cfg db now io h e oid g st opts))"
  shows "pd_marker (snd (recordWorkerPayout cfg db now io h e oid g st opts)) (lower h) = None"
proof -
  let ?f = "snd (getFeeBps (snd (take_marker db now (io_marker io) h e)) (io_feeBps io) (fst st))"
  let ?m = "snd (fst (take_marker db now (io_marker io) h e))"
  obtain db2 where r: "snd (recordWorkerPayout cfg db now io h e oid g st opts) = undo_marker db2 io ?m h"
    using io(1) by (simp add: payout_past_marker [OF cur take_marker_free(1) [OF free]] Let_def)
  have "\<not> isCredited db2 h" using same row unfolding r by (simp add: same_credits_def isCredited_def)
  then show ?thesis
    unfolding r using io(2,3) by (auto simp: undo_marker_def take_marker_free(2) [OF free] done_if_def kv_del_def)
qed

text \<open>
  A failed payout can be made again. A payout whose transaction fails reports it to a caller
  that asks for it; unless the marker it set could not be taken away, a later call whose
  transaction answers leaves the task credited to its executor exactly once, whether the first
  transaction had committed or not.
\<close>

theorem failed_payout_can_be_made_again:
  fixes cfg db now now' io io' h e oid g st opts
  defines "first_try \<equiv> recordWorkerPayout cfg db now io h e oid g st opts"
  defines "retry \<equiv> snd (recordWorkerPayout cfg (snd first_try) now' io' h e oid g st opts)"
  assumes cur: "payoutCurrency cfg (chain_name (fst st)) (snd st) \<noteq> None"
    and new: "kv_get now (pd_marker db) (lower h) = None" "pd_credited db (lower h) = None"
    and row: "pd_executors db (lower e) = Some row"
    and fails: "io_credit io \<noteq> Answers" "io_undo io \<noteq> Refuses" "io_marker io = Answers \<or> io_isCredited io"
    and answers: "io_credit io' = Answers"
  shows "fst first_try = op_rethrow opts \<and>
    pd_credited retry (lower h) = Some (chain_name (fst st), lower e) \<and>
    (\<exists>row'. pd_executors retry (lower e) = Some row' \<and>
       er_tasksCompleted row' = er_tasksCompleted row + 1)"
proof
  show "fst first_try = op_rethrow opts"
    using fails(1) unfolding first_try_def
    by (simp add: payout_past_marker [OF cur take_marker_free(1) [OF new(1)]] Let_def)
  note second = payout_all_or_nothing [of "snd first_try" cfg now' io' h e oid g st opts]
  have "(\<exists>x. credit_applied db retry h (chain_name (fst st)) e TotalEarnedUsdc x)"
    using payout_all_or_nothing [of db cfg now io h e oid g st opts]
  proof
    assume same: "same_credits db (snd (recordWorkerPayout cfg db now io h e oid g st opts))"
    then have "kv_get now' (pd_marker (snd first_try)) (lower h) = None"
      using failed_payout_frees_marker [OF cur new fails same] by (simp add: first_try_def kv_get_def)
    from answered_payout_credits [OF cur this _ _ answers]
    show ?thesis
      using same new(2) row credit_applied_cong [of "snd first_try" db]
      by (simp add: first_try_def retry_def same_credits_def)
  next
    assume a: "credit_applied db (snd (recordWorkerPayout cfg db now io h e oid g st opts)) h
        (chain_name (fst st)) e TotalEarnedUsdc (share_due g (op_computeCost opts) USDC_UNIT (fee_used db io (fst st)))"
    then have "same_credits (snd first_try) retry"
      using second by (auto simp: credit_applied_def first_try_def retry_def)
    with a show ?thesis by (auto simp: same_credits_def credit_applied_def first_try_def)
  qed
  with row show "pd_credited retry (lower h) = Some (chain_name (fst st), lower e) \<and>
    (\<exists>row'. pd_executors retry (lower e) = Some row' \<and> er_tasksCompleted row' = er_tasksCompleted row + 1)"
    by (auto simp: credit_applied_def)
qed

text \<open>
  A payout that cannot take its marker back is lost. The marker was set, the transaction
  failed with nothing done and the delete failed too (a process that dies in between leaves the
  same): no row stands behind the marker, and every later payout for the task passes as already
  credited.
\<close>

theorem lost_undo_loses_the_payout:
  fixes cfg db now now' io io' h e e' oid oid' g g' st st' opts opts'
  defines "db' \<equiv> snd (recordWorkerPayout cfg db now io h e oid g st opts)"
  assumes cur: "payoutCurrency cfg (chain_name (fst st)) (snd st) \<noteq> None"
      "payoutCurrency cfg (chain_name (fst st')) (snd st') \<noteq> None"
    and new: "kv_get now (pd_marker db) (lower h) = None" "pd_credited db (lower h) = None"
    and io: "io_marker io = Answers" "io_credit io = Refuses" "io_undo io = Refuses" "io_marker io' = Answers"
  shows "recordWorkerPayout cfg db' now' io' h e' oid' g' st' opts' = (False, db') \<and>
    pd_credited db' (lower h) = None"
proof -
  have m: "pd_marker db' (lower h) = Some (lower e, None)" and c: "pd_credited db' (lower h) = None"
    using new io
    by (simp_all add: db'_def payout_past_marker [OF cur(1) take_marker_free(1) [OF new(1)]]
        undo_marker_def done_if_def Let_def take_marker_def kv_setnx_def)
  have "take_marker db' now' (io_marker io') h e' = ((False, Some False), db')"
    using m io(4) by (simp add: take_marker_def kv_setnx_def kv_get_def done_if_def Let_def)
  with c show ?thesis by (simp add: payout_marked [OF _ cur(2)])
qed


section \<open>Rounds\<close>

lemma payout_rounds: "pd_rounds (snd (recordWorkerPayout cfg db now io h e oid g st opts)) = pd_rounds db"
proof (cases "payoutCurrency cfg (chain_name (fst st)) (snd st) = None")
  case True
  then show ?thesis by (simp add: recordWorkerPayout_def Let_def)
next
  case cur: False
  show ?thesis
  proof (cases "fst (fst (take_marker db now (io_marker io) h e))")
    case True
    have t: "pd_rounds (snd (credit_transaction d k c a col x)) = pd_rounds d" for d k c a col x
      by (auto simp: credit_transaction_def CLAIM_CREDIT_SQL_def split: option.split)
    show ?thesis
      by (simp add: payout_past_marker [OF cur True] Let_def done_if_def t split: credit_outcome.split)
  qed (simp add: payout_marked cur)
qed

text \<open>While its key stands, a round is not recorded again, and the key stands.\<close>

lemma recorded_round:
  assumes "pd_rounds db (round_key cfg r) = Some (a, None)"
  shows "snd (recordWorkerDispute cfg db now dio h e r rethrow) = db"
    "fst (recordWorkerDispute cfg db now dio h e r rethrow) \<noteq> Some True"
  using assms by (auto simp: recordWorkerDispute_def Let_def kv_setnx_def kv_get_def done_if_def)

lemma other_round:
  assumes "k \<noteq> round_key cfg r"
  shows "pd_rounds (snd (recordWorkerDispute cfg db now dio h e r rethrow)) k = pd_rounds db k"
  using assms by (auto simp: recordWorkerDispute_def Let_def kv_setnx_def kv_del_def done_if_def)

lemma dispute_keeps_round:
  "pd_rounds db k = Some (a, None) \<Longrightarrow>
   pd_rounds (snd (recordWorkerDispute cfg db now dio h e r rethrow)) k = Some (a, None)"
  by (cases "k = round_key cfg r") (simp_all add: recorded_round other_round)

lemma pay_call_keeps_round:
  "pay_call cfg db db' \<Longrightarrow> pd_rounds db k = Some (a, None) \<Longrightarrow> pd_rounds db' k = Some (a, None)"
  by (erule pay_callE)
    (simp_all add: payout_rounds dispute_keeps_round registerExecutor_def split: option.split)

lemma pay_calls_keep_round:
  "(pay_call cfg)\<^sup>*\<^sup>* db db' \<Longrightarrow> pd_rounds db k = Some (a, None) \<Longrightarrow> pd_rounds db' k = Some (a, None)"
  by (induction rule: rtranclp_induct) (auto intro: pay_call_keeps_round)

lemma recorded_leaves_key:
  assumes "fst (recordWorkerDispute cfg db now dio h e r rethrow) = Some True"
  shows "pd_rounds (snd (recordWorkerDispute cfg db now dio h e r rethrow)) (round_key cfg r) =
    Some (lower e, None)"
  using assms
  by (auto simp: recordWorkerDispute_def Let_def kv_setnx_def done_if_def split: if_splits)

text \<open>
  C37. A round is docked once. After a call recorded a round's dispute, and as long as Redis is
  not restored to an earlier time, another observer of the same round changes nothing and is
  told it recorded nothing, whatever ran in between.
\<close>

theorem round_is_docked_once:
  assumes "recordWorkerDispute cfg db now dio h e r rethrow = (Some True, db1)"
    and "(pay_call cfg)\<^sup>*\<^sup>* db1 db2"
  shows "snd (recordWorkerDispute cfg db2 now' dio' h' e' r rethrow') = db2 \<and>
    fst (recordWorkerDispute cfg db2 now' dio' h' e' r rethrow') \<noteq> Some True"
proof -
  have "pd_rounds db1 (round_key cfg r) = Some (lower e, None)"
    using recorded_leaves_key [of cfg db now dio h e r rethrow] assms(1) by simp
  from recorded_round [OF pay_calls_keep_round [OF assms(2) this]] show ?thesis by blast
qed

text \<open>
  A dispute that fails halfway is docked twice. The reputation is taken first; when the
  history cannot be written then, the round is given back, the reputation is not, and the next
  observer of the same round takes it again.
\<close>

theorem half_recorded_round_is_docked_twice:
  assumes "kv_get now (pd_rounds db) (round_key cfg r) = None"
    and "pd_executors db (lower e) = Some row" "20 \<le> er_reputation row" "er_reputation row \<le> 100"
    and "do_claim dio = Answers" "do_reputation dio = Answers" "do_history dio = Refuses" "do_giveBack dio = Answers"
    and "do_claim dio' = Answers" "do_reputation dio' = Answers" "do_history dio' = Answers" "do_event dio' = Answers"
  shows "let r1 = recordWorkerDispute cfg db now dio h e r False;
             r2 = recordWorkerDispute cfg (snd r1) now' dio' h e r False
         in fst r1 = Some False \<and> fst r2 = Some True \<and>
            map_option er_reputation (pd_executors (snd r2) (lower e)) = Some (er_reputation row - 20)"
proof -
  have free: "kv_get now' (kv_del (snd (kv_setnx now (pd_rounds db) (round_key cfg r) None (lower e)))
      (round_key cfg r)) (round_key cfg r) = None" by (simp add: redis_simps)
  show ?thesis
    using assms free
    by (simp add: recordWorkerDispute_def Let_def kv_setnx_fst done_if_def recordDispute_def adjustReputation_def
        bump_dispute_def add_event_def)
qed

section \<open>Examples\<close>

definition all_answer :: payout_io where
  "all_answer =
     \<lparr>io_park = Answers, io_parkAll = Answers, io_marker = Answers, io_feeBps = Some 1000, io_credit = Answers,
      io_sold = Answers, io_ledger = Answers, io_history = Answers, io_event = Answers, io_isCredited = True,
      io_undo = Answers\<rparr>"

definition plain_opts :: payout_opts where
  "plain_opts = \<lparr>op_rethrow = True, op_serviceId = None, op_computeCost = None\<rparr>"

definition one_agent :: pay_db where
  "one_agent = registerExecutor empty_pay_db ''0xb''"

lemma one_agent_sel:
  "pd_executors one_agent =
     [''0xb'' \<mapsto> \<lparr>er_reputation = 50, er_tasksCompleted = 0, er_totalEarned = 0, er_totalEarnedUsdc = 0\<rparr>]"
  "pd_credited one_agent = Map.empty" "pd_marker one_agent = Map.empty" "pd_rounds one_agent = Map.empty"
  "pd_feeBps one_agent = Map.empty"
  by (simp_all add: one_agent_def registerExecutor_def empty_pay_db_def lower_eval)

lemma testnet_token: "payoutCurrency testnet_config (chain_name Arc) ''0xC2'' = Some USDC_UNIT"
  by (simp add: payoutCurrency_def chain_key_of_def SETTLEMENT_CHAIN_KEYS_def testnet_config_def build_arc_def
      Let_def)


lemma one_payout:
  "\<exists>x. credit_applied one_agent (snd (recordWorkerPayout testnet_config one_agent 0 all_answer ''0xh'' ''0xB''
     ''1'' 1000 (Arc, ''0xC2'') plain_opts)) ''0xh'' (chain_name Arc) ''0xB'' TotalEarnedUsdc x"
  using answered_payout_credits [of testnet_config "(Arc, ''0xC2'')" 0 one_agent "''0xh''" "''0xB''" _ all_answer
      "''1''" 1000 plain_opts] testnet_token
  by (simp add: one_agent_sel kv_get_def all_answer_def lower_eval)

theorem each_task_credits_once_witness:
  "let db = snd (recordWorkerPayout testnet_config one_agent 0 all_answer ''0xh'' ''0xB'' ''1'' 1000
              (Arc, ''0xC2'') plain_opts);
       db' = snd (recordWorkerPayout testnet_config db 0 all_answer ''0xH'' ''0xB'' ''1'' 1000
              (Arc, ''0xC2'') plain_opts)
   in pd_credited db' ''0xh'' = Some (''arc'', ''0xb'') \<and>
      map_option er_tasksCompleted (pd_executors db ''0xb'') = Some 1"
proof -
  let ?db = "snd (recordWorkerPayout testnet_config one_agent 0 all_answer ''0xh'' ''0xB'' ''1'' 1000
      (Arc, ''0xC2'') plain_opts)"
  let ?db' = "snd (recordWorkerPayout testnet_config ?db 0 all_answer ''0xH'' ''0xB'' ''1'' 1000
      (Arc, ''0xC2'') plain_opts)"
  have c: "pd_credited ?db = [''0xh'' \<mapsto> (''arc'', ''0xb'')]" "pd_executors ?db ''0xb'' \<noteq> None"
    using one_payout by (auto simp: credit_applied_def one_agent_sel lower_eval)
  have "pay_step testnet_config empty_pay_db one_agent"
    unfolding one_agent_def by (intro call register)
  moreover have "pay_step testnet_config one_agent ?db" "pay_step testnet_config ?db ?db'"
    by (intro call payout)+
  ultimately have s: "(pay_step testnet_config)\<^sup>*\<^sup>* empty_pay_db ?db" "(pay_step testnet_config)\<^sup>*\<^sup>* ?db ?db'"
    by (auto intro: rtranclp.rtrancl_into_rtrancl)
  from each_task_credits_once [OF s, of "''0xh''" "(''arc'', ''0xb'')"] c show ?thesis
    by (auto simp: Let_def)
qed

theorem failed_payout_can_be_made_again_witness:
  "pd_credited (snd (recordWorkerPayout testnet_config
      (snd (recordWorkerPayout testnet_config one_agent 0 (all_answer\<lparr>io_credit := LosesReply\<rparr>) ''0xh'' ''0xB'' ''1''
        1000 (Arc, ''0xC2'') plain_opts)) 5 all_answer ''0xh'' ''0xB'' ''1'' 1000 (Arc, ''0xC2'') plain_opts)) ''0xh''
    = Some (''arc'', ''0xb'')"
proof -
  have l: "lower ''0xh'' = ''0xh''" "lower ''0xB'' = ''0xb''" by (simp_all add: lower_eval)
  show ?thesis
    using failed_payout_can_be_made_again [of testnet_config "(Arc, ''0xC2'')" 0 one_agent "''0xh''" "''0xB''" _
        "all_answer\<lparr>io_credit := LosesReply\<rparr>" all_answer "''1''" 1000 plain_opts 5] testnet_token
    by (simp add: l one_agent_sel kv_get_def all_answer_def)
qed

theorem lost_undo_loses_the_payout_witness:
  "let db = snd (recordWorkerPayout testnet_config one_agent 0
              (all_answer\<lparr>io_credit := Refuses, io_undo := Refuses\<rparr>) ''0xh'' ''0xB'' ''1'' 1000
              (Arc, ''0xC2'') plain_opts)
   in recordWorkerPayout testnet_config db 5 all_answer ''0xh'' ''0xB'' ''1'' 1000 (Arc, ''0xC2'') plain_opts = (False, db)"
  using lost_undo_loses_the_payout [of testnet_config "(Arc, ''0xC2'')" "(Arc, ''0xC2'')" 0 one_agent "''0xh''"
      "all_answer\<lparr>io_credit := Refuses, io_undo := Refuses\<rparr>" all_answer "''0xB''" "''1''" 1000 plain_opts 5 "''0xB''" "''1''" 1000
      plain_opts] testnet_token
  by (simp add: one_agent_sel kv_get_def all_answer_def Let_def)

definition dispute_answers :: dispute_io where
  "dispute_answers =
     \<lparr>do_claim = Answers, do_reputation = Answers, do_history = Answers, do_event = Answers, do_giveBack = Answers\<rparr>"

definition first_round :: failed_round where
  "first_round = \<lparr>fr_chain = Arc, fr_taskId = ''7'', fr_attempt = Attempt 1\<rparr>"

theorem round_is_docked_once_witness:
  "let db = snd (recordWorkerDispute testnet_config one_agent 0 dispute_answers ''0xh'' ''0xB'' first_round False)
   in snd (recordWorkerDispute testnet_config db 9 dispute_answers ''0xh'' ''0xB'' first_round True) = db"
proof -
  let ?r = "recordWorkerDispute testnet_config one_agent 0 dispute_answers ''0xh'' ''0xB'' first_round False"
  have "fst ?r = Some True"
    by (simp add: recordWorkerDispute_def dispute_answers_def Let_def one_agent_sel redis_simps kv_get_def
        recordDispute_def)
  then have "?r = (Some True, snd ?r)" by (simp add: prod_eq_iff)
  from round_is_docked_once [OF this rtranclp.rtrancl_refl] show ?thesis by (simp add: Let_def)
qed

theorem half_recorded_round_is_docked_twice_witness:
  "let db = snd (recordWorkerDispute testnet_config one_agent 0 (dispute_answers\<lparr>do_history := Refuses\<rparr>) ''0xh''
              ''0xB'' first_round False)
   in map_option er_reputation (pd_executors (snd (recordWorkerDispute testnet_config db 9 dispute_answers ''0xh''
        ''0xB'' first_round False)) ''0xb'') = Some 30"
proof -
  have l: "lower ''0xB'' = ''0xb''" by (simp add: lower_eval)
  show ?thesis
    using half_recorded_round_is_docked_twice [of 0 one_agent testnet_config first_round "''0xB''" _
        "dispute_answers\<lparr>do_history := Refuses\<rparr>" dispute_answers "''0xh''" 9]
    by (simp add: l one_agent_sel kv_get_def dispute_answers_def Let_def)
qed

end
