(* ===== verification/Settlement.thy ===== *)
theory Settlement
  imports StuckTasks
begin

text \<open>
  \<open>services/a2aSettlement.ts\<close>: the bridge that turns an accepted task into an assignment on its
  escrow, and a verdict into a settlement. The escrow, its signer and the node are the parameter
  \<open>bridge\<close>: what each call answers, \<open>Inl\<close> with the message of what it throws. So is what other
  requests write to the task store while the bridge waits, at the two points where it does: until
  its first write, and while the transaction it sent confirms. The signer's queue only orders
  what is sent. The socket message of a settled task is left out.
\<close>

section \<open>The escrow as the bridge sees it\<close>

datatype wait_answer = Mined bool | RevertedOnChain string | NotConfirmed string

record bridge =
  br_world :: world
  br_ready :: "chain_key \<Rightarrow> bool"
  br_isAddress :: "string \<Rightarrow> bool"
  br_lookupError :: string
  br_polls :: "(chain_key \<Rightarrow> task_index) list"
  br_read :: "chain_key \<Rightarrow> string \<Rightarrow> nat \<Rightarrow> string + onchain_task"
  br_tryAssign :: "chain_key \<Rightarrow> string \<Rightarrow> string \<Rightarrow> string option"
  br_assign :: "chain_key \<Rightarrow> string \<Rightarrow> string \<Rightarrow> string + string"
  br_complete :: "bool \<Rightarrow> chain_key \<Rightarrow> string \<Rightarrow> bool \<Rightarrow> string + string"
  br_wait :: "string \<Rightarrow> wait_answer"
  br_after :: "chain_key \<Rightarrow> string \<Rightarrow> string + onchain_task"
  br_teeSigner :: "chain_key \<Rightarrow> string option"
  br_isHexString :: "string \<Rightarrow> bool"
  br_hexlify :: "string \<Rightarrow> string"
  br_recover :: "string \<Rightarrow> string \<Rightarrow> string option"
  br_teeSignerAddress :: "string option"
  br_entryPoint :: "string option"
  br_bundlerUrl :: "string option"
  br_meanwhile :: "a2a_db \<Rightarrow> a2a_db"
  br_whileConfirming :: "a2a_db \<Rightarrow> a2a_db"

text \<open>What the bridge sent to an escrow.\<close>

datatype escrow_call =
    MarketplaceAssign chain_key string string
  | CompleteVerification bool chain_key string bool

record settle_result =
  sr_success :: bool
  sr_error :: "string option"
  sr_txHash :: "string option"
  sr_alreadySettled :: bool
  sr_expired :: bool
  sr_workerMismatch :: bool
  sr_onChainWorker :: "string option"
  sr_cancelled :: bool
  sr_chain :: "chain_key option"
  sr_pending :: bool
  sr_escrowMismatch :: bool

definition settle_failed :: "string option \<Rightarrow> settle_result" where
  "settle_failed e =
     \<lparr>sr_success = False, sr_error = e, sr_txHash = None, sr_alreadySettled = False, sr_expired = False,
      sr_workerMismatch = False, sr_onChainWorker = None, sr_cancelled = False, sr_chain = None,
      sr_pending = False, sr_escrowMismatch = False\<rparr>"

definition settle_done :: settle_result where
  "settle_done = (settle_failed None)\<lparr>sr_success := True\<rparr>"

section \<open>Messages\<close>

definition em_dash :: string where
  "em_dash = [CHR '' '', CHR 0xE2, CHR 0x80, CHR 0x94, CHR '' '']"

definition ellipsis :: string where
  "ellipsis = [CHR 0xE2, CHR 0x80, CHR 0xA6]"

definition short :: "string \<Rightarrow> string" where
  "short h = take 10 h @ ellipsis"

text \<open>
  UTF-16 units of a UTF-8 text, counted on the byte a character starts with: two for one of four
  bytes, else one. \<open>slice(0, n)\<close> keeps the characters that start within the first \<open>n\<close> units.
\<close>

definition utf16_units :: "char \<Rightarrow> nat" where
  "utf16_units c =
     (let n = of_char c :: nat in if 128 \<le> n \<and> n < 192 then 0 else if 240 \<le> n then 2 else 1)"

definition js_length :: "string \<Rightarrow> nat" where
  "js_length s = sum_list (map utf16_units s)"

fun js_take :: "nat \<Rightarrow> string \<Rightarrow> string" where
  "js_take n [] = []"
| "js_take n (c # cs) = (if n < utf16_units c then [] else c # js_take (n - utf16_units c) cs)"

definition truncate_msg :: "string \<Rightarrow> string" where
  "truncate_msg s = (if js_length s > 240 then js_take 240 s @ ellipsis else s)"

section \<open>Bookkeeping that never throws\<close>

definition safely :: "a2a_db \<Rightarrow> store_error + task_state \<times> a2a_db \<Rightarrow> a2a_db" where
  "safely db r = (case r of Inl _ \<Rightarrow> db | Inr (_, db') \<Rightarrow> db')"

definition safePersistAssignError :: "a2a_db \<Rightarrow> string \<Rightarrow> string \<Rightarrow> a2a_db" where
  "safePersistAssignError db h msg = safely db (updateState db h [PAssignError (Some (truncate_msg msg))])"

definition safePersistVerifyError :: "a2a_db \<Rightarrow> string \<Rightarrow> string \<Rightarrow> a2a_db" where
  "safePersistVerifyError db h msg = safely db (updateState db h [PVerifyError (Some (truncate_msg msg))])"

definition safeClearAssignError :: "a2a_db \<Rightarrow> string \<Rightarrow> a2a_db" where
  "safeClearAssignError db h =
     (case getState db h of
        None \<Rightarrow> db
      | Some s \<Rightarrow>
          if truthy (assignError s) = None then db
          else safely db (updateState db h [PAssignError None]))"

section \<open>Finding and reading the escrow task\<close>

text \<open>One poll for each index in the list, and the deadline after the last; \<open>None\<close>: a poll throws.\<close>

fun waitForResolvedTask ::
  "world \<Rightarrow> a2a_db \<Rightarrow> string \<Rightarrow> (chain_key \<Rightarrow> task_index) list \<Rightarrow> resolved_task option option" where
  "waitForResolvedTask w db h [] = Some None"
| "waitForResolvedTask w db h (ix # ixs) =
     (case resolveTaskByHash (w_cfg w) (w_baseEscrow w) ix db h of
        None \<Rightarrow> None
      | Some None \<Rightarrow> waitForResolvedTask w db h ixs
      | Some (Some r) \<Rightarrow> Some (Some r))"

definition EMPTY_TASK_HASH :: string where
  "EMPTY_TASK_HASH = ''0x'' @ replicate 64 (CHR ''0'')"

definition TASK_READS :: nat where
  "TASK_READS = 3"

datatype escrow_read = ReadOk onchain_task | ReadRefused bool string

text \<open>The loop over the reads still left, with the reason the last one gave.\<close>

fun read_again ::
  "(nat \<Rightarrow> string + onchain_task) \<Rightarrow> chain_key \<Rightarrow> string \<Rightarrow> string \<Rightarrow> nat \<Rightarrow> string \<Rightarrow> escrow_read" where
  "read_again rd c tid h 0 reason = ReadRefused False reason"
| "read_again rd c tid h (Suc left) reason =
     (case rd (TASK_READS - left) of
        Inl msg \<Rightarrow>
          read_again rd c tid h left
            (''could not read '' @ chain_name c @ '' escrow task '' @ tid @
             '' to check it is this task: '' @ msg)
      | Inr t \<Rightarrow>
          let onChain = lower (oc_taskHash t) in
          if onChain = lower h then ReadOk t
          else if onChain \<noteq> EMPTY_TASK_HASH
          then ReadRefused True
            (chain_name c @ '' escrow task '' @ tid @ '' carries hash '' @ short onChain @
             '', not this task's '' @ short h @
             '': the hash index names another task, so nothing was sent'')
          else read_again rd c tid h left
            (chain_name c @ '' escrow task '' @ tid @ '' reads as empty, not as this task's '' @
             short h @ '', so nothing was sent''))"

definition readEscrowTask :: "bridge \<Rightarrow> chain_key \<Rightarrow> string \<Rightarrow> string \<Rightarrow> escrow_read" where
  "readEscrowTask b c tid h = read_again (br_read b c tid) c tid h TASK_READS []"

definition escrowTaskMismatch :: "bridge \<Rightarrow> chain_key \<Rightarrow> string \<Rightarrow> string \<Rightarrow> string option" where
  "escrowTaskMismatch b c tid h =
     (case readEscrowTask b c tid h of ReadOk _ \<Rightarrow> None | ReadRefused _ reason \<Rightarrow> Some reason)"

definition ZERO_ADDRESS :: string where
  "ZERO_ADDRESS = ''0x'' @ replicate 40 (CHR ''0'')"

definition smartAccountSubmitUsable :: "bridge \<Rightarrow> bool" where
  "smartAccountSubmitUsable b \<longleftrightarrow> truthy (br_entryPoint b) \<noteq> None \<and> truthy (br_bundlerUrl b) \<noteq> None"

definition resolveAssignee :: "bridge \<Rightarrow> string \<Rightarrow> chain_key \<Rightarrow> string" where
  "resolveAssignee b executor c =
     (if \<not> cc_aa (settlementChainConfig (w_cfg (br_world b)) c) then executor
      else if \<not> smartAccountSubmitUsable b then executor
      else (case truthy (w_smartAccount (br_world b) executor) of None \<Rightarrow> executor | Some a \<Rightarrow> a))"

definition verificationWorkerMismatch ::
  "bridge \<Rightarrow> onchain_task \<Rightarrow> chain_key \<Rightarrow> string \<Rightarrow> string option \<Rightarrow> string option" where
  "verificationWorkerMismatch b t c tid executor =
     (case truthy executor of
        None \<Rightarrow> None
      | Some e \<Rightarrow>
          if lower (oc_worker t) = lower e then None
          else if map_option lower (truthy (w_smartAccount (br_world b) e)) = Some (lower (oc_worker t)) then None
          else Some (chain_name c @ '' escrow task '' @ tid @ '' is assigned to '' @ oc_worker t @
                     '', not this task's executor '' @ e @ '', so nothing was sent''))"

definition isAlreadySettled :: "string \<Rightarrow> bool" where
  "isAlreadySettled msg \<longleftrightarrow> contains msg ''InvalidStatus''"

definition isDeadlineReached :: "string \<Rightarrow> bool" where
  "isDeadlineReached msg \<longleftrightarrow> contains msg ''DeadlineReached''"

section \<open>Assignment\<close>

definition confirmAssignedWorker ::
  "bridge \<Rightarrow> a2a_db \<Rightarrow> string \<Rightarrow> string \<Rightarrow> string \<Rightarrow> chain_key \<Rightarrow> string \<Rightarrow> settle_result \<times> a2a_db" where
  "confirmAssignedWorker b db tid assignee h c executor =
     (case br_after b c tid of
        Inl err \<Rightarrow>
          let msg = ''task '' @ tid @ '' reverted InvalidStatus and the follow-up worker read failed: '' @ err
          in (settle_failed (Some msg), safePersistAssignError db h msg)
      | Inr t \<Rightarrow>
          let w = oc_worker t in
          if lower w = lower assignee \<or> lower w = lower executor
          then (settle_done\<lparr>sr_alreadySettled := True, sr_onChainWorker := Some w, sr_chain := Some c\<rparr>,
                safeClearAssignError db h)
          else if lower w = ZERO_ADDRESS then ((settle_failed None)\<lparr>sr_cancelled := True\<rparr>, db)
          else ((settle_failed (Some (''task '' @ tid @ '' is already assigned on-chain to '' @ w @
                   '', not '' @ assignee)))\<lparr>sr_workerMismatch := True, sr_onChainWorker := Some w\<rparr>, db))"

definition settleUnconfirmedAssignment ::
  "bridge \<Rightarrow> a2a_db \<Rightarrow> string \<Rightarrow> string \<Rightarrow> string \<Rightarrow> string \<Rightarrow> chain_key \<Rightarrow> string \<Rightarrow> bool \<Rightarrow> string \<Rightarrow>
   settle_result \<times> a2a_db" where
  "settleUnconfirmedAssignment b db h tid assignee executor c tx reverted reason =
     (case (case br_after b c tid of
          Inl _ \<Rightarrow> None
        | Inr t \<Rightarrow> if lower (oc_worker t) = lower assignee \<or> lower (oc_worker t) = lower executor
                   then Some t else None) of
        Some t \<Rightarrow>
          (if reverted
           then settle_done\<lparr>sr_alreadySettled := True, sr_onChainWorker := Some (oc_worker t), sr_chain := Some c\<rparr>
           else settle_done\<lparr>sr_txHash := Some tx, sr_chain := Some c\<rparr>,
           safeClearAssignError db h)
      | None \<Rightarrow>
          if reverted
          then let msg = ''marketplaceAssign tx '' @ tx @ '' reverted on chain''
               in ((settle_failed (Some msg))\<lparr>sr_txHash := Some tx\<rparr>, safePersistAssignError db h msg)
          else ((settle_failed (Some (''marketplaceAssign tx '' @ tx @ '' not confirmed after 60s: '' @ reason)))
                  \<lparr>sr_pending := True, sr_txHash := Some tx\<rparr>, db))"

definition deadline_passed :: settle_result where
  "deadline_passed = (settle_failed (Some ''Task deadline has passed''))\<lparr>sr_expired := True\<rparr>"

text \<open>What a revert of \<open>marketplaceAssign\<close>, tried or sent, comes to.\<close>

definition assign_refused ::
  "bridge \<Rightarrow> a2a_db \<Rightarrow> string \<Rightarrow> string \<Rightarrow> string \<Rightarrow> chain_key \<Rightarrow> string \<Rightarrow> string \<Rightarrow> settle_result \<times> a2a_db" where
  "assign_refused b db tid assignee h c executor msg =
     (if isAlreadySettled msg then confirmAssignedWorker b db tid assignee h c executor
      else if isDeadlineReached msg then (deadline_passed, db)
      else (settle_failed (Some msg), safePersistAssignError db h msg))"

text \<open>From the broadcast on. \<open>Inl\<close>: the state is gone, and recording the hash throws.\<close>

definition after_broadcast ::
  "bridge \<Rightarrow> a2a_db \<Rightarrow> int \<Rightarrow> string \<Rightarrow> string \<Rightarrow> string \<Rightarrow> chain_key \<Rightarrow> string \<Rightarrow> string \<Rightarrow>
   (store_error + settle_result) \<times> a2a_db" where
  "after_broadcast b db now tid assignee h c executor tx =
     (case updateState db h [PAssignTxHash (Some tx), PAssignError None] of
        Inl e \<Rightarrow> (Inl e, db)
      | Inr (_, db1) \<Rightarrow>
          let db2 = br_whileConfirming b (markAssignBroadcast db1 now h tx now);
              r = (case br_wait b tx of
                  Mined ok \<Rightarrow>
                    if ok then (settle_done\<lparr>sr_txHash := Some tx, sr_chain := Some c\<rparr>, db2)
                    else let msg = ''marketplaceAssign tx '' @ tx @ '' reverted on chain''
                         in ((settle_failed (Some msg))\<lparr>sr_txHash := Some tx\<rparr>, safePersistAssignError db2 h msg)
                | RevertedOnChain reason \<Rightarrow>
                    settleUnconfirmedAssignment b db2 h tid assignee executor c tx True reason
                | NotConfirmed reason \<Rightarrow>
                    settleUnconfirmedAssignment b db2 h tid assignee executor c tx False reason)
          in (Inr (fst r), snd r))"

text \<open>From the read of the escrow task on: the result, what was sent to the escrow, and the store.\<close>

definition send_assignment ::
  "bridge \<Rightarrow> a2a_db \<Rightarrow> int \<Rightarrow> string \<Rightarrow> string \<Rightarrow> chain_key \<Rightarrow> string \<Rightarrow>
   (app_error + settle_result) \<times> escrow_call list \<times> a2a_db" where
  "send_assignment b db now h executor c tid =
     (let assignee = resolveAssignee b executor c;
          refused = (\<lambda>msg. let r = assign_refused b db tid assignee h c executor msg in (Inr (fst r), [], snd r))
      in case br_tryAssign b c tid assignee of
           Some msg \<Rightarrow> refused msg
         | None \<Rightarrow>
             (case br_assign b c tid assignee of
                Inl msg \<Rightarrow> refused msg
              | Inr tx \<Rightarrow>
                  let r = after_broadcast b db now tid assignee h c executor tx in
                  (case fst r of Inl e \<Rightarrow> Inl (StoreThrew e) | Inr s \<Rightarrow> Inr s,
                   [MarketplaceAssign c tid assignee], snd r)))"

definition settleAssignment ::
  "bridge \<Rightarrow> a2a_db \<Rightarrow> int \<Rightarrow> string \<Rightarrow> string \<Rightarrow> (app_error + settle_result) \<times> escrow_call list \<times> a2a_db" where
  "settleAssignment b db0 now h executor =
     (let quiet = (\<lambda>r. (Inr (fst r), [], snd r));
          refuse = (\<lambda>db msg. quiet (settle_failed (Some msg), safePersistAssignError db h msg));
          db = br_meanwhile b db0
      in if \<not> br_isAddress b executor
         then refuse db0 (''Executor address is not a valid EVM address: '' @ executor)
         else (case waitForResolvedTask (br_world b) db0 h (br_polls b) of
           None \<Rightarrow> (Inl LookupThrew, [], db)
         | Some None \<Rightarrow>
             refuse db (''hash2id lookup timed out'' @ em_dash @
               ''createTask event never seen by indexer on either chain (taskHash='' @ short h @ '')'')
         | Some (Some res) \<Rightarrow>
             let c = rt_chain res; tid = rt_taskId res;
                 entry = settlementChainConfig (w_cfg (br_world b)) c
             in if \<not> br_ready b c
                then refuse db (''Bridge disabled for '' @ chain_name c @ '': signer not configured'' @ em_dash @
                  cc_label entry @ '' ('' @ cc_signerEnv entry @ '')'')
                else (case readEscrowTask b c tid h of
                  ReadRefused lasting reason \<Rightarrow>
                    if lasting
                    then quiet ((settle_failed (Some reason))\<lparr>sr_escrowMismatch := True\<rparr>,
                                safePersistAssignError db h reason)
                    else quiet (settle_failed (Some reason), db)
                | ReadOk _ \<Rightarrow> send_assignment b db now h executor c tid)))"

section \<open>Verification\<close>

record tee_attestation =
  tee_signature :: "string option"
  tee_signedText :: "string option"

text \<open>The attestation as a state stores it; a field that is no string fails the check below.\<close>

definition json_string :: "json \<Rightarrow> string \<Rightarrow> string option" where
  "json_string j k =
     (case j of
        JObj kvs \<Rightarrow> (case map_of kvs k of Some (JStr s) \<Rightarrow> Some s | _ \<Rightarrow> None)
      | _ \<Rightarrow> None)"

definition tee_of :: "json option \<Rightarrow> tee_attestation option" where
  "tee_of j = map_option (\<lambda>j. \<lparr>tee_signature = json_string j ''signature'',
                             tee_signedText = json_string j ''signedText''\<rparr>) j"

definition normalizeSignedText :: "bridge \<Rightarrow> string \<Rightarrow> string" where
  "normalizeSignedText b t = (if br_isHexString b t then t else br_hexlify b t)"

definition isTeeAttestationValid :: "bridge \<Rightarrow> tee_attestation option \<Rightarrow> bool" where
  "isTeeAttestationValid b att =
     (case att of
        None \<Rightarrow> False
      | Some a \<Rightarrow>
          (case (truthy (tee_signature a), truthy (tee_signedText a), truthy (br_teeSignerAddress b)) of
             (Some sig, Some t, Some expected) \<Rightarrow>
               map_option lower (br_recover b (normalizeSignedText b t) sig) = Some (lower expected)
           | _ \<Rightarrow> False))"

definition TEE_READY_TTL_MS :: int where
  "TEE_READY_TTL_MS = 5 * 60000"

text \<open>The signer each escrow reported, \<open>None\<close> when the read failed, and when it was read.\<close>

type_synonym tee_cache = "chain_key \<rightharpoonup> string option \<times> int"

definition teeSettlementReady :: "bridge \<Rightarrow> tee_cache \<Rightarrow> int \<Rightarrow> chain_key \<Rightarrow> bool \<times> tee_cache" where
  "teeSettlementReady b cache now c =
     (case map_option lower (truthy (br_teeSignerAddress b)) of
        None \<Rightarrow> (False, cache)
      | Some expected \<Rightarrow>
          let r = (case cache c of
                Some (s, at_ms) \<Rightarrow>
                  if now - at_ms < TEE_READY_TTL_MS then (s, cache)
                  else (map_option lower (br_teeSigner b c), cache(c \<mapsto> (map_option lower (br_teeSigner b c), now)))
              | None \<Rightarrow> (map_option lower (br_teeSigner b c), cache(c \<mapsto> (map_option lower (br_teeSigner b c), now))))
          in (fst r \<noteq> None \<and> fst r \<noteq> Some ZERO_ADDRESS \<and> fst r = Some expected, snd r))"

text \<open>Every failure is kept as the state's \<open>verifyError\<close>.\<close>

definition verify_failed :: "a2a_db \<Rightarrow> string \<Rightarrow> string \<Rightarrow> settle_result \<times> a2a_db" where
  "verify_failed db h msg = (settle_failed (Some msg), safePersistVerifyError db h msg)"

fun store_error_text :: "store_error \<Rightarrow> string" where
  "store_error_text (NoState tid) = ''No A2A state for task '' @ tid"
| "store_error_text (NoMeta tid) = ''No A2A meta for task '' @ tid"

text \<open>\<open>completeVerification\<close> reverted: already settled, with this outcome or the other.\<close>

definition completion_refused ::
  "bridge \<Rightarrow> a2a_db \<Rightarrow> string \<Rightarrow> chain_key \<Rightarrow> string \<Rightarrow> bool \<Rightarrow> string \<Rightarrow> settle_result \<times> a2a_db" where
  "completion_refused b db h c tid passed msg =
     (if \<not> isAlreadySettled msg then verify_failed db h msg
      else (case br_after b c tid of
        Inl err \<Rightarrow>
          verify_failed db h
            (''task '' @ tid @ '' reverted InvalidStatus and the follow-up status read failed: '' @ err)
      | Inr t \<Rightarrow>
          let n = escrow_status_num (oc_status t) in
          if n = (if passed then 4 else 3) then (settle_done\<lparr>sr_alreadySettled := True\<rparr>, db)
          else verify_failed db h
            (''task '' @ tid @ '' already settled with status='' @ show_int n @
             '', which does not match passed='' @ (if passed then ''true'' else ''false''))))"

definition after_completion ::
  "bridge \<Rightarrow> a2a_db \<Rightarrow> string \<Rightarrow> chain_key \<Rightarrow> string \<Rightarrow> settle_result \<times> a2a_db" where
  "after_completion b db h c tx =
     (case updateState db h [PVerifyTxHash (Some tx), PVerifyError None] of
        Inl e \<Rightarrow> verify_failed db h (store_error_text e)
      | Inr (_, db1) \<Rightarrow>
          let db2 = br_whileConfirming b db1 in
          (case br_wait b tx of
             Mined ok \<Rightarrow>
               if ok then (settle_done\<lparr>sr_txHash := Some tx\<rparr>, db2)
               else let r = verify_failed db2 h
                      (''completeVerification tx '' @ tx @ '' reverted on the '' @ chain_name c @ '' chain'')
                    in ((fst r)\<lparr>sr_txHash := Some tx\<rparr>, snd r)
           | RevertedOnChain reason \<Rightarrow> verify_failed db2 h reason
           | NotConfirmed reason \<Rightarrow> verify_failed db2 h reason))"

text \<open>From the lookup on, for an executor whose address is valid or absent.\<close>

definition settle_verified ::
  "bridge \<Rightarrow> tee_cache \<Rightarrow> a2a_db \<Rightarrow> int \<Rightarrow> string \<Rightarrow> bool \<Rightarrow> tee_attestation option \<Rightarrow> string option \<Rightarrow>
   settle_result \<times> escrow_call list \<times> tee_cache \<times> a2a_db" where
  "settle_verified b cache db0 now h passed att executor =
     (let db = br_meanwhile b db0;
          refuse = (\<lambda>msg. let r = verify_failed db h msg in (fst r, [], cache, snd r))
      in case waitForResolvedTask (br_world b) db0 h (br_polls b) of
           None \<Rightarrow> refuse (br_lookupError b)
         | Some None \<Rightarrow>
             refuse (''hash2id lookup timed out'' @ em_dash @
               ''createTask event never seen by indexer on either chain (taskHash='' @ short h @ '')'')
         | Some (Some res) \<Rightarrow>
             let c = rt_chain res; tid = rt_taskId res;
                 entry = settlementChainConfig (w_cfg (br_world b)) c
             in if \<not> br_ready b c
                then refuse (''Verification bridge disabled for '' @ chain_name c @ '': signer not configured'' @
                  em_dash @ cc_label entry @ '' ('' @ cc_signerEnv entry @ '')'')
                else (case readEscrowTask b c tid h of
                  ReadRefused _ reason \<Rightarrow> refuse reason
                | ReadOk t \<Rightarrow>
                    (case verificationWorkerMismatch b t c tid executor of
                       Some reason \<Rightarrow> refuse reason
                     | None \<Rightarrow>
                         let ready = (if isTeeAttestationValid b att then teeSettlementReady b cache now c
                                      else (False, cache));
                             useTEE = fst ready
                         in case br_complete b useTEE c tid passed of
                              Inl msg \<Rightarrow>
                                let r = completion_refused b db h c tid passed msg in (fst r, [], snd ready, snd r)
                            | Inr tx \<Rightarrow>
                                let r = after_completion b db h c tx in
                                (fst r, [CompleteVerification useTEE c tid passed], snd ready, snd r))))"

definition settleVerification ::
  "bridge \<Rightarrow> tee_cache \<Rightarrow> a2a_db \<Rightarrow> int \<Rightarrow> string \<Rightarrow> bool \<Rightarrow> tee_attestation option \<Rightarrow>
   settle_result \<times> escrow_call list \<times> tee_cache \<times> a2a_db" where
  "settleVerification b cache db0 now h passed att =
     (let quiet = (\<lambda>r. (fst r, [], cache, snd r));
          executor = Option.bind (getState db0 h) executorAddress
      in case truthy executor of
           Some e \<Rightarrow> if br_isAddress b e then settle_verified b cache db0 now h passed att executor
                      else quiet (verify_failed db0 h (''Executor address is not a valid EVM address: '' @ e))
         | None \<Rightarrow> settle_verified b cache db0 now h passed att executor)"

end
