(* ===== verification/SettlementProps.thy ===== *)
theory SettlementProps
  imports Settlement ExpirySweepProps
begin

text \<open>
  What the bridge promises the routes: it never acts on an escrow task that carries another hash,
  or pays a worker the state does not name; a success is the escrow's word that the executor is
  the worker; and it leaves an error on the state exactly where the worker must not go on.
\<close>

section \<open>Reading before acting\<close>

lemma read_again_ok:
  "read_again rd c tid h left reason = ReadOk t \<Longrightarrow> \<exists>n. rd n = Inr t \<and> lower (oc_taskHash t) = lower h"
proof (induction left arbitrary: reason)
  case (Suc left)
  show ?case
  proof (cases "rd (TASK_READS - left)")
    case (Inr t')
    with Suc show ?thesis by (cases "lower (oc_taskHash t') = lower h") (auto simp: Let_def split: if_splits)
  qed (use Suc in auto)
qed simp

lemma readEscrowTask_ok:
  "readEscrowTask b c tid h = ReadOk t \<Longrightarrow> \<exists>n. br_read b c tid n = Inr t \<and> lower (oc_taskHash t) = lower h"
  unfolding readEscrowTask_def by (rule read_again_ok)

lemma worker_matches:
  assumes "verificationWorkerMismatch b t c tid executor = None"
  shows "case truthy executor of None \<Rightarrow> True
    | Some e \<Rightarrow> lower (oc_worker t) = lower e \<or>
        map_option lower (truthy (w_smartAccount (br_world b) e)) = Some (lower (oc_worker t))"
  using assms by (auto simp: verificationWorkerMismatch_def split: option.splits if_splits)

lemma resolveAssignee_cases:
  "resolveAssignee b e c = e \<or> truthy (w_smartAccount (br_world b) e) = Some (resolveAssignee b e c)"
  by (auto simp: resolveAssignee_def split: option.split)

section \<open>Assignments\<close>

text \<open>The escrow, asked again, names the executor or the account that submits for it.\<close>

definition escrow_names :: "bridge \<Rightarrow> chain_key \<Rightarrow> string \<Rightarrow> string \<Rightarrow> string \<Rightarrow> bool" where
  "escrow_names b c tid assignee executor \<longleftrightarrow>
     (\<exists>t. br_after b c tid = Inr t \<and> (lower (oc_worker t) = lower assignee \<or> lower (oc_worker t) = lower executor))"

lemma confirm_success:
  "sr_success (fst (confirmAssignedWorker b db tid assignee h c e)) \<Longrightarrow> escrow_names b c tid assignee e"
  by (auto simp: confirmAssignedWorker_def escrow_names_def settle_failed_def settle_done_def Let_def
      split: sum.splits if_splits)

lemma unconfirmed_success:
  "sr_success (fst (settleUnconfirmedAssignment b db h tid assignee e c tx rv reason)) \<Longrightarrow>
   escrow_names b c tid assignee e"
  by (auto simp: settleUnconfirmedAssignment_def escrow_names_def settle_failed_def settle_done_def Let_def
      split: sum.splits if_splits)

lemma refused_success:
  "sr_success (fst (assign_refused b db tid assignee h c e msg)) \<Longrightarrow> escrow_names b c tid assignee e"
  by (auto simp: assign_refused_def deadline_passed_def settle_failed_def dest: confirm_success split: if_splits)

lemma broadcast_success:
  assumes "fst (after_broadcast b db now tid assignee h c e tx) = Inr r" "sr_success r"
  shows "br_wait b tx = Mined True \<or> escrow_names b c tid assignee e"
proof (cases "updateState db h [PAssignTxHash (Some tx), PAssignError None]")
  case (Inr p)
  show ?thesis
  proof (cases "br_wait b tx")
    case (Mined ok)
    with Inr assms show ?thesis
      by (cases p; cases ok) (auto simp: after_broadcast_def settle_failed_def Let_def)
  qed (use Inr assms unconfirmed_success in \<open>cases p, force simp: after_broadcast_def Let_def\<close>)+
qed (use assms in \<open>simp add: after_broadcast_def\<close>)

text \<open>The shape of a run that gets as far as the escrow.\<close>

definition escrow_task_of :: "bridge \<Rightarrow> a2a_db \<Rightarrow> string \<Rightarrow> resolved_task \<Rightarrow> onchain_task \<Rightarrow> bool" where
  "escrow_task_of b db h res t \<longleftrightarrow>
     waitForResolvedTask (br_world b) db h (br_polls b) = Some (Some res) \<and>
     (\<exists>n. br_read b (rt_chain res) (rt_taskId res) n = Inr t) \<and> lower (oc_taskHash t) = lower h"

lemma send_assignment_cases:
  obtains (refused) msg where
      "send_assignment b db now h e c tid =
         (let r = assign_refused b db tid (resolveAssignee b e c) h c e msg in (Inr (fst r), [], snd r))"
  | (sent) tx where "br_assign b c tid (resolveAssignee b e c) = Inr tx"
      "send_assignment b db now h e c tid =
         (let r = after_broadcast b db now tid (resolveAssignee b e c) h c e tx
          in (case fst r of Inl x \<Rightarrow> Inl (StoreThrew x) | Inr s \<Rightarrow> Inr s,
              [MarketplaceAssign c tid (resolveAssignee b e c)], snd r))"
proof (cases "br_tryAssign b c tid (resolveAssignee b e c)")
  case None
  show ?thesis
  proof (cases "br_assign b c tid (resolveAssignee b e c)")
    case (Inl msg)
    with None show ?thesis by (intro refused [of msg]) (simp add: send_assignment_def Let_def)
  next
    case (Inr tx)
    with None show ?thesis by (intro sent [OF Inr]) (simp add: send_assignment_def Let_def)
  qed
next
  case (Some msg)
  then show ?thesis by (intro refused [of msg]) (simp add: send_assignment_def Let_def)
qed

lemma settleAssignment_cases:
  obtains (early) r db' where "settleAssignment b db now h e = (r, [], db')" "\<And>s. r = Inr s \<Longrightarrow> \<not> sr_success s"
  | (acts) res t where "escrow_task_of b db h res t"
      "settleAssignment b db now h e =
         send_assignment b (br_meanwhile b db) now h e (rt_chain res) (rt_taskId res)"
proof (cases "\<exists>res t. escrow_task_of b db h res t \<and> readEscrowTask b (rt_chain res) (rt_taskId res) h = ReadOk t \<and>
    br_isAddress b e \<and> br_ready b (rt_chain res)")
  case True
  then obtain res t where t: "escrow_task_of b db h res t"
      "readEscrowTask b (rt_chain res) (rt_taskId res) h = ReadOk t" "br_isAddress b e" "br_ready b (rt_chain res)"
    by blast
  then show ?thesis
    by (intro acts [OF t(1)]) (simp add: settleAssignment_def escrow_task_of_def Let_def)
next
  case no: False
  have "\<exists>r db'. settleAssignment b db now h e = (r, [], db') \<and> (\<forall>s. r = Inr s \<longrightarrow> \<not> sr_success s)"
  proof (cases "\<exists>res t. br_isAddress b e \<and> waitForResolvedTask (br_world b) db h (br_polls b) = Some (Some res) \<and>
      br_ready b (rt_chain res) \<and> readEscrowTask b (rt_chain res) (rt_taskId res) h = ReadOk t")
    case True
    then obtain res t where t: "br_isAddress b e" "br_ready b (rt_chain res)"
        "waitForResolvedTask (br_world b) db h (br_polls b) = Some (Some res)"
        "readEscrowTask b (rt_chain res) (rt_taskId res) h = ReadOk t" by blast
    have "escrow_task_of b db h res t" using t(3) readEscrowTask_ok [OF t(4)] by (simp add: escrow_task_of_def)
    with no t show ?thesis by blast
  next
    case False
    then show ?thesis
      by (auto simp: settleAssignment_def settle_failed_def Let_def split: option.split escrow_read.split)
  qed
  then show ?thesis using early by blast
qed


lemma settled_assignment:
  assumes run: "settleAssignment b db now h e = (r, calls, db')"
  shows "(\<forall>s. r = Inr s \<and> sr_success s \<longrightarrow>
      (\<exists>res t. escrow_task_of b db h res t \<and>
        (let w = resolveAssignee b e (rt_chain res) in
         escrow_names b (rt_chain res) (rt_taskId res) w e \<or>
         calls = [MarketplaceAssign (rt_chain res) (rt_taskId res) w] \<and>
           (\<exists>tx. br_assign b (rt_chain res) (rt_taskId res) w = Inr tx \<and> br_wait b tx = Mined True)))) \<and>
    (calls = [] \<or> (\<exists>res t. escrow_task_of b db h res t \<and>
        calls = [MarketplaceAssign (rt_chain res) (rt_taskId res) (resolveAssignee b e (rt_chain res))]))"
proof (cases rule: settleAssignment_cases [of b db now h e])
  case (early r' d)
  with run show ?thesis by auto
next
  case (acts res t)
  let ?c = "rt_chain res" and ?id = "rt_taskId res" and ?db = "br_meanwhile b db"
  let ?w = "resolveAssignee b e ?c"
  show ?thesis
  proof (cases rule: send_assignment_cases [of b ?db now h e ?c ?id])
    case (refused msg)
    have "calls = []" "r = Inr (fst (assign_refused b ?db ?id ?w h ?c e msg))"
      using run unfolding acts(2) refused by (simp_all add: Let_def)
    moreover have "escrow_names b ?c ?id ?w e" if "r = Inr s" "sr_success s" for s
      using that refused_success calculation(2) by auto
    ultimately show ?thesis using acts(1) by (auto simp: Let_def)
  next
    case (sent tx)
    let ?r = "after_broadcast b ?db now ?id ?w h ?c e tx"
    have calls: "calls = [MarketplaceAssign ?c ?id ?w]" and r: "r = (case fst ?r of Inl x \<Rightarrow> Inl (StoreThrew x) | Inr s \<Rightarrow> Inr s)"
      using run unfolding acts(2) sent(2) by (simp_all add: Let_def)
    have "br_wait b tx = Mined True \<or> escrow_names b ?c ?id ?w e" if "r = Inr s" "sr_success s" for s
      using broadcast_success [of b ?db now ?id ?w h ?c e tx s] that r by (simp split: sum.splits)
    with calls acts(1) sent(1) show ?thesis by (auto simp: Let_def)
  qed
qed

text \<open>
  C24. A successful assignment is the escrow's. When the bridge reports success, the escrow task
  it acted on carries this task's hash, and either the assignment it sent was mined, or the
  escrow, asked afterwards, names the executor, or the smart account that submits for it, as the
  worker. Whatever it answers, it sent at most one assignment, on that task, to that worker.
\<close>

theorem assignment_success_is_the_escrows:
  assumes run: "settleAssignment b db now h e = (r, calls, db')"
  shows "(\<forall>s. r = Inr s \<and> sr_success s \<longrightarrow>
      (\<exists>res t. escrow_task_of b db h res t \<and>
        (let w = resolveAssignee b e (rt_chain res) in
         escrow_names b (rt_chain res) (rt_taskId res) w e \<or>
         calls = [MarketplaceAssign (rt_chain res) (rt_taskId res) w] \<and>
           (\<exists>tx. br_assign b (rt_chain res) (rt_taskId res) w = Inr tx \<and> br_wait b tx = Mined True)))) \<and>
    (calls = [] \<or> (\<exists>res t. escrow_task_of b db h res t \<and>
        calls = [MarketplaceAssign (rt_chain res) (rt_taskId res) (resolveAssignee b e (rt_chain res))]))"
  by (rule settled_assignment [OF run])

section \<open>Verifications\<close>

text \<open>The worker the escrow names is the executor of the state, or the account it submits from.\<close>

definition pays_executor :: "bridge \<Rightarrow> onchain_task \<Rightarrow> string option \<Rightarrow> bool" where
  "pays_executor b t executor \<longleftrightarrow>
     (case truthy executor of None \<Rightarrow> True
      | Some e \<Rightarrow> lower (oc_worker t) = lower e \<or>
          map_option lower (truthy (w_smartAccount (br_world b) e)) = Some (lower (oc_worker t)))"

lemma verify_failed_sel [simp]: "\<not> sr_success (fst (verify_failed db h msg))"
  by (simp add: verify_failed_def settle_failed_def)

lemma completion_refused_success:
  "sr_success (fst (completion_refused b db h c tid passed msg)) \<Longrightarrow>
   \<exists>t. br_after b c tid = Inr t \<and> oc_status t = (if passed then EsCompleted else EsVerified)"
proof -
  have n: "escrow_status_num s = 4 \<Longrightarrow> s = EsCompleted" "escrow_status_num s = 3 \<Longrightarrow> s = EsVerified" for s
    by (cases s; simp)+
  assume "sr_success (fst (completion_refused b db h c tid passed msg))"
  with n show ?thesis
    by (auto simp: completion_refused_def Let_def split: if_splits sum.splits)
qed

lemma after_completion_success:
  "sr_success (fst (after_completion b db h c tx)) \<Longrightarrow> br_wait b tx = Mined True"
  by (auto simp: after_completion_def Let_def split: sum.splits wait_answer.splits if_splits)

lemma settle_verified_cases:
  obtains (early) "fst (snd (settle_verified b cache db now h passed att ex)) = []"
      "\<not> sr_success (fst (settle_verified b cache db now h passed att ex))"
  | (acts) res t tee cache' where "escrow_task_of b db h res t" "pays_executor b t ex"
      "tee \<longrightarrow> isTeeAttestationValid b att"
      "settle_verified b cache db now h passed att ex =
        (case br_complete b tee (rt_chain res) (rt_taskId res) passed of
           Inl msg \<Rightarrow>
             let r = completion_refused b (br_meanwhile b db) h (rt_chain res) (rt_taskId res) passed msg
             in (fst r, [], cache', snd r)
         | Inr tx \<Rightarrow>
             let r = after_completion b (br_meanwhile b db) h (rt_chain res) tx
             in (fst r, [CompleteVerification tee (rt_chain res) (rt_taskId res) passed], cache', snd r))"
proof (cases "\<exists>res t. waitForResolvedTask (br_world b) db h (br_polls b) = Some (Some res) \<and>
    br_ready b (rt_chain res) \<and> readEscrowTask b (rt_chain res) (rt_taskId res) h = ReadOk t \<and>
    verificationWorkerMismatch b t (rt_chain res) (rt_taskId res) ex = None")
  case True
  then obtain res t where t: "waitForResolvedTask (br_world b) db h (br_polls b) = Some (Some res)"
      "br_ready b (rt_chain res)" "readEscrowTask b (rt_chain res) (rt_taskId res) h = ReadOk t"
      "verificationWorkerMismatch b t (rt_chain res) (rt_taskId res) ex = None" by blast
  let ?ready = "if isTeeAttestationValid b att then teeSettlementReady b cache now (rt_chain res) else (False, cache)"
  show ?thesis
  proof (rule acts [of res t "fst ?ready" "snd ?ready"])
    show "escrow_task_of b db h res t" using t(1) readEscrowTask_ok [OF t(3)] by (simp add: escrow_task_of_def)
    show "pays_executor b t ex" using worker_matches [OF t(4)] by (simp add: pays_executor_def)
    show "fst ?ready \<longrightarrow> isTeeAttestationValid b att" by simp
  qed (simp add: settle_verified_def t Let_def)
next
  case False
  then show ?thesis
    by (intro early) (auto simp: settle_verified_def Let_def split: option.split escrow_read.split)
qed


lemma settled_verdict:
  fixes b cache db now h passed att
  defines "ex \<equiv> Option.bind (getState db h) executorAddress"
  assumes run: "settleVerification b cache db now h passed att = (r, calls, cache', db')"
  shows "(calls = [] \<or> (\<exists>res t tee. escrow_task_of b db h res t \<and> pays_executor b t ex \<and>
        (tee \<longrightarrow> isTeeAttestationValid b att) \<and>
        calls = [CompleteVerification tee (rt_chain res) (rt_taskId res) passed])) \<and>
    (sr_success r \<longrightarrow> (\<exists>res t. escrow_task_of b db h res t \<and> pays_executor b t ex \<and>
        ((\<exists>tx tee. br_complete b tee (rt_chain res) (rt_taskId res) passed = Inr tx \<and> br_wait b tx = Mined True) \<or>
         (\<exists>t'. br_after b (rt_chain res) (rt_taskId res) = Inr t' \<and>
            oc_status t' = (if passed then EsCompleted else EsVerified)))))"
proof (cases "\<exists>e. truthy ex = Some e \<and> \<not> br_isAddress b e")
  case True
  then show ?thesis using run by (auto simp: settleVerification_def ex_def [symmetric] Let_def split: option.splits)
next
  case False
  then have v: "settle_verified b cache db now h passed att ex = (r, calls, cache', db')"
    using run by (auto simp: settleVerification_def ex_def [symmetric] Let_def split: option.splits if_splits)
  show ?thesis
  proof (cases rule: settle_verified_cases [of b cache db now h passed att ex])
    case early
    with v show ?thesis by simp
  next
    case (acts res t tee cache1)
    let ?c = "rt_chain res" and ?id = "rt_taskId res"
    show ?thesis
    proof (cases "br_complete b tee ?c ?id passed")
      case (Inl msg)
      have "calls = []" "r = fst (completion_refused b (br_meanwhile b db) h ?c ?id passed msg)"
        using v unfolding acts(4) Inl by (simp_all add: Let_def)
      with acts(1,2) completion_refused_success [of b _ h ?c ?id passed msg] show ?thesis by blast
    next
      case (Inr tx)
      have c: "calls = [CompleteVerification tee ?c ?id passed]"
        and r: "r = fst (after_completion b (br_meanwhile b db) h ?c tx)"
        using v unfolding acts(4) Inr by (simp_all add: Let_def)
      have "br_wait b tx = Mined True" if "sr_success r"
        using after_completion_success that unfolding r .
      with acts(1-3) c Inr show ?thesis by blast
    qed
  qed
qed

text \<open>
  C28. A verdict settles this task and pays its executor. What the bridge sends to settle one is
  at most one call, with that verdict, on an escrow task that carries this task's hash and whose
  worker is the executor the state names, or its smart account; by the enclave's path only with
  an attestation the configured signer made. When it reports success, the transaction was mined,
  or the escrow had already settled with this outcome.
\<close>

theorem verdict_settles_the_executors_task:
  fixes b cache db now h passed att
  defines "ex \<equiv> Option.bind (getState db h) executorAddress"
  assumes run: "settleVerification b cache db now h passed att = (r, calls, cache', db')"
  shows "(calls = [] \<or> (\<exists>res t tee. escrow_task_of b db h res t \<and> pays_executor b t ex \<and>
        (tee \<longrightarrow> isTeeAttestationValid b att) \<and>
        calls = [CompleteVerification tee (rt_chain res) (rt_taskId res) passed])) \<and>
    (sr_success r \<longrightarrow> (\<exists>res t. escrow_task_of b db h res t \<and> pays_executor b t ex \<and>
        ((\<exists>tx tee. br_complete b tee (rt_chain res) (rt_taskId res) passed = Inr tx \<and> br_wait b tx = Mined True) \<or>
         (\<exists>t'. br_after b (rt_chain res) (rt_taskId res) = Inr t' \<and>
            oc_status t' = (if passed then EsCompleted else EsVerified)))))"
  using settled_verdict [OF run [unfolded ex_def]] unfolding ex_def .

section \<open>What the state keeps\<close>

text \<open>With no other writer, an error field is all a bridge write touches.\<close>

definition quiet :: "bridge \<Rightarrow> bool" where
  "quiet b \<longleftrightarrow> br_meanwhile b = (\<lambda>db. db) \<and> br_whileConfirming b = (\<lambda>db. db)"

fun bridge_field :: "patch_field \<Rightarrow> bool" where
  "bridge_field (PAssignError _) = True"
| "bridge_field (PAssignTxHash _) = True"
| "bridge_field (PVerifyError _) = True"
| "bridge_field (PVerifyTxHash _) = True"
| "bridge_field _ = False"

text \<open>Nothing of the record changed but those fields (and the id it carries, to its key).\<close>

definition bridge_only :: "task_state \<Rightarrow> task_state \<Rightarrow> bool" where
  "bridge_only s s' \<longleftrightarrow>
     s'\<lparr>assignError := assignError s, assignTxHash := assignTxHash s, verifyError := verifyError s,
        verifyTxHash := verifyTxHash s, stateTaskId := stateTaskId s\<rparr> = s"

lemma bridge_only_sel:
  assumes "bridge_only s s'"
  shows "status s' = status s" "executorAddress s' = executorAddress s" "failedReason s' = failedReason s"
    "acceptedAt s' = acceptedAt s" "submittedAt s' = submittedAt s" "submissionRound s' = submissionRound s"
    "resultData s' = resultData s" "verificationResult s' = verificationResult s"
    "teeAttestation s' = teeAttestation s"
  using assms unfolding bridge_only_def by (cases s; cases s'; simp)+

lemma bridge_only_refl [simp]: "bridge_only s s"
  by (simp add: bridge_only_def)

lemma bridge_only_trans: "bridge_only s s' \<Longrightarrow> bridge_only s' s'' \<Longrightarrow> bridge_only s s''"
  unfolding bridge_only_def by (cases s; cases s'; cases s'') simp

lemma bridge_only_field: "bridge_field p \<Longrightarrow> bridge_only s (apply_field p s)"
  by (cases p; cases s) (simp_all add: bridge_only_def)

lemma apply_bridge_fields: "list_all bridge_field ps \<Longrightarrow> bridge_only s (apply_patch ps s)"
proof (induction ps arbitrary: s)
  case (Cons p ps)
  then have "bridge_only (apply_field p s) (apply_patch ps (apply_field p s))" by simp
  with Cons.prems show ?case
    by (auto simp: apply_patch_def intro: bridge_only_trans [OF bridge_only_field])
qed (simp add: apply_patch_def)

text \<open>The task's record, so changed, and nothing else of the store.\<close>

definition same_task :: "a2a_db \<Rightarrow> a2a_db \<Rightarrow> string \<Rightarrow> task_state \<Rightarrow> task_state \<Rightarrow> bool" where
  "same_task db db' h s s' \<longleftrightarrow>
     (\<exists>k. find_state db h = Some (k, s) \<and> find_state db' h = Some (k, s') \<and>
       states db' = (states db)(k \<mapsto> s') \<and> stateTaskId s' \<in> {stateTaskId s, k}) \<and>
     bridge_only s s' \<and> metas db' = metas db \<and>
     open_ix db' = open_ix db \<and> executor_ix db' = executor_ix db \<and> verifier_ix db' = verifier_ix db \<and>
     accept_locks db' = accept_locks db"

lemma update_bridge_fields:
  assumes s: "find_state db h = Some (k, s)" and ps: "list_all bridge_field ps"
  obtains u db' where "updateState db h ps = Inr (u, db')"
    "u = (apply_patch ps s)\<lparr>stateTaskId := k\<rparr>" "same_task db db' h s u"
proof -
  let ?u = "(apply_patch ps s)\<lparr>stateTaskId := k\<rparr>"
  have b: "bridge_only s ?u" using apply_bridge_fields [OF ps, of s] by (simp add: bridge_only_def)
  note f = bridge_only_sel(1,2) [OF b]
  obtain db' where u: "updateState db h ps = Inr (?u, db')" "states db' = (states db)(k \<mapsto> ?u)"
      "metas db' = metas db" "open_ix db' = open_ix db" "executor_ix db' = executor_ix db" "verifier_ix db' = verifier_ix db"
      "accept_locks db' = accept_locks db"
    using s f by (auto simp: updateState_def move_executor_def put_state_def Let_def split: option.splits)
  have "find_state db' h = Some (k, ?u)"
    using find_state_put [OF s] find_state_cong [of db' "put_state db k ?u"] u(2) by (simp add: put_state_def)
  with that [OF u(1) refl] s b u show ?thesis by (auto simp: same_task_def)
qed

lemma same_task_refl: "find_state db h = Some (k, s) \<Longrightarrow> same_task db db h s s"
  using find_state_key [of db h k s] by (auto simp: same_task_def)

lemma same_task_trans: "same_task db db1 h s s1 \<Longrightarrow> same_task db1 db2 h s1 s2 \<Longrightarrow> same_task db db2 h s s2"
  by (auto simp: same_task_def intro: bridge_only_trans)

lemma same_task_mark: "same_task db db' h s s' \<Longrightarrow> same_task db (markAssignBroadcast db' now t tx at') h s s'"
  using find_state_cong [of "markAssignBroadcast db' now t tx at'" db' h]
  by (simp add: same_task_def markAssignBroadcast_def)


text \<open>The safe writes, each in terms of the error it leaves.\<close>

lemma safe_persist:
  assumes "find_state db h = Some (k, s)"
  shows "\<exists>s'. same_task db (safePersistAssignError db h msg) h s s' \<and> assignError s' = Some (truncate_msg msg) \<and>
    assignTxHash s' = assignTxHash s"
  by (rule update_bridge_fields [OF assms, of "[PAssignError (Some (truncate_msg msg))]"])
    (auto simp: safePersistAssignError_def safely_def apply_patch_def)

lemma safe_clear:
  assumes "find_state db h = Some (k, s)"
  shows "\<exists>s'. same_task db (safeClearAssignError db h) h s s' \<and> truthy (assignError s') = None \<and>
    assignTxHash s' = assignTxHash s"
proof (cases "truthy (assignError s) = None")
  case True
  then show ?thesis
    using assms same_task_refl [OF assms] by (auto simp: safeClearAssignError_def getState_def)
next
  case False
  show ?thesis
    by (rule update_bridge_fields [OF assms, of "[PAssignError None]"])
      (use False assms in \<open>auto simp: safeClearAssignError_def getState_def safely_def apply_patch_def\<close>)
qed

text \<open>Which results leave the worker free to go on, and which keep the error as it was.\<close>

definition clears_error :: "settle_result \<Rightarrow> bool" where
  "clears_error r \<longleftrightarrow> sr_success r \<or> sr_pending r"

text \<open>A failed run leaves on the state the transaction it reports, or the one before.\<close>

definition tx_follows :: "task_state \<Rightarrow> task_state \<Rightarrow> settle_result \<Rightarrow> bool" where
  "tx_follows s s' r \<longleftrightarrow>
     (\<not> sr_success r \<longrightarrow> assignTxHash s' = (case sr_txHash r of None \<Rightarrow> assignTxHash s | Some tx \<Rightarrow> Some tx))"

definition bookkept :: "a2a_db \<Rightarrow> a2a_db \<Rightarrow> string \<Rightarrow> task_state \<Rightarrow> settle_result \<Rightarrow> bool" where
  "bookkept db db' h s r \<longleftrightarrow>
     (\<exists>s'. same_task db db' h s s' \<and> (clears_error r \<longrightarrow> truthy (assignError s') = None) \<and> tx_follows s s' r)"

lemma bookkeptI: "same_task db db' h s s' \<Longrightarrow> (clears_error r \<Longrightarrow> truthy (assignError s') = None) \<Longrightarrow>
    tx_follows s s' r \<Longrightarrow> bookkept db db' h s r"
  by (auto simp: bookkept_def)

lemma tx_kept: "sr_success r \<or> sr_txHash r = None \<or> sr_txHash r = assignTxHash s \<Longrightarrow> assignTxHash s' = assignTxHash s \<Longrightarrow>
    tx_follows s s' r"
  by (auto simp: tx_follows_def split: option.split)

lemma bookkept_failed:
  assumes "find_state db h = Some (k, s)" "\<not> clears_error r" "sr_success r \<or> sr_txHash r = None \<or> sr_txHash r = assignTxHash s"
  shows "bookkept db db h s r" "bookkept db (safePersistAssignError db h msg) h s r"
  using assms same_task_refl [OF assms(1)] safe_persist [OF assms(1), of msg] tx_kept [OF assms(3)]
  by (auto simp: bookkept_def)

lemma bookkept_cleared:
  assumes "find_state db h = Some (k, s)" "sr_success r"
  shows "bookkept db (safeClearAssignError db h) h s r"
  using safe_clear [OF assms(1)] assms(2) by (auto simp: bookkept_def tx_follows_def)

lemma settle_failed_clears [simp]: "\<not> clears_error (settle_failed e)" "sr_txHash (settle_failed e) = None"
  by (simp_all add: clears_error_def settle_failed_def)

lemma bookkept_confirm:
  assumes "find_state db h = Some (k, s)"
  shows "bookkept db (snd (confirmAssignedWorker b db tid a h c e)) h s (fst (confirmAssignedWorker b db tid a h c e))"
  using bookkept_failed [OF assms] bookkept_cleared [OF assms]
  by (simp add: confirmAssignedWorker_def Let_def clears_error_def settle_done_def settle_failed_def split: sum.split)

lemma bookkept_refused:
  assumes "find_state db h = Some (k, s)"
  shows "bookkept db (snd (assign_refused b db tid a h c e msg)) h s (fst (assign_refused b db tid a h c e msg))"
  using bookkept_failed [OF assms] bookkept_confirm [OF assms]
  by (simp add: assign_refused_def deadline_passed_def clears_error_def settle_failed_def)

lemma bookkept_trans:
  "same_task db db1 h s s1 \<Longrightarrow> bookkept db1 db2 h s1 r \<Longrightarrow> sr_success r \<or> sr_txHash r \<noteq> None \<Longrightarrow> bookkept db db2 h s r"
  by (auto simp: bookkept_def tx_follows_def intro: same_task_trans)

lemma same_task_found: "same_task db db' h s s' \<Longrightarrow> \<exists>k. find_state db' h = Some (k, s')"
  by (auto simp: same_task_def)

lemma bookkept_unconfirmed:
  assumes "find_state db h = Some (k, s)" "truthy (assignError s) = None" "assignTxHash s = Some tx"
  shows "bookkept db (snd (settleUnconfirmedAssignment b db h tid a e c tx rv reason)) h s
     (fst (settleUnconfirmedAssignment b db h tid a e c tx rv reason))"
  using bookkept_failed [OF assms(1)] bookkept_cleared [OF assms(1)] bookkeptI [OF same_task_refl [OF assms(1)] assms(2) tx_kept]
    assms(3)
  by (simp add: settleUnconfirmedAssignment_def Let_def clears_error_def settle_done_def settle_failed_def split: option.split)

lemma unconfirmed_reports:
  "sr_success (fst (settleUnconfirmedAssignment b db h tid a e c tx rv reason)) \<or>
   sr_txHash (fst (settleUnconfirmedAssignment b db h tid a e c tx rv reason)) \<noteq> None"
  by (simp add: settleUnconfirmedAssignment_def settle_done_def Let_def split: option.split)

lemma bookkept_broadcast:
  assumes q: "quiet b" and s: "find_state db h = Some (k, s)"
  obtains r db' where "after_broadcast b db now tid a h c e tx = (Inr r, db')" "bookkept db db' h s r"
proof -
  obtain u db1 where u: "updateState db h [PAssignTxHash (Some tx), PAssignError None] = Inr (u, db1)"
      "u = (apply_patch [PAssignTxHash (Some tx), PAssignError None] s)\<lparr>stateTaskId := k\<rparr>" "same_task db db1 h s u"
    by (rule update_bridge_fields [OF s, of "[PAssignTxHash (Some tx), PAssignError None]"]) auto
  let ?db2 = "markAssignBroadcast db1 now h tx now"
  have st: "same_task db ?db2 h s u" using u(3) by (rule same_task_mark)
  obtain k' where k': "find_state ?db2 h = Some (k', u)" using same_task_found [OF st] by blast
  have none: "truthy (assignError u) = None" "assignTxHash u = Some tx" using u(2) by (simp_all add: apply_patch_def)
  note f = bookkept_failed [OF k'] and i = bookkeptI [OF same_task_refl [OF k'] none(1) tx_kept]
    and c = bookkept_unconfirmed [OF k' none]
  let ?r = "after_broadcast b db now tid a h c e tx"
  have "\<exists>r. fst ?r = Inr r \<and> bookkept ?db2 (snd ?r) h u r \<and> (sr_success r \<or> sr_txHash r \<noteq> None)"
    using q f i c none(2) unconfirmed_reports
    by (simp add: after_broadcast_def u(1) quiet_def Let_def clears_error_def settle_failed_def settle_done_def
        split: wait_answer.split)
  then show ?thesis using that bookkept_trans [OF st] by (metis prod.collapse)
qed

lemma bookkept_send:
  assumes "quiet b" "find_state db h = Some (k, s)" "send_assignment b db now h e c tid = (Inr r, calls, db')"
  shows "bookkept db db' h s r"
proof (cases rule: send_assignment_cases [of b db now h e c tid])
  case (refused msg)
  with assms(3) bookkept_refused [OF assms(2)] show ?thesis by (auto simp: Let_def)
next
  case (sent tx)
  obtain r' d where "after_broadcast b db now tid (resolveAssignee b e c) h c e tx = (Inr r', d)" "bookkept db d h s r'"
    by (rule bookkept_broadcast [OF assms(1,2)])
  with assms(3) sent(2) show ?thesis by (simp add: Let_def)
qed

lemma bookkept_settle:
  assumes q: "quiet b" and s: "find_state db h = Some (k, s)"
    and run: "settleAssignment b db now h e = (Inr r, calls, db')"
  shows "bookkept db db' h s r"
proof (cases "br_isAddress b e")
  case False
  then show ?thesis using run bookkept_failed [OF s] by (auto simp: settleAssignment_def Let_def)
next
  case a: True
  note f = bookkept_failed [OF s] and n = q [unfolded quiet_def]
  show ?thesis
  proof (cases "waitForResolvedTask (br_world b) db h (br_polls b)")
    case None
    with run a show ?thesis by (simp add: settleAssignment_def Let_def)
  next
    case (Some found)
    show ?thesis
    proof (cases found)
      case None
      with run a Some n f show ?thesis by (auto simp: settleAssignment_def Let_def)
    next
      case res: (Some res)
      show ?thesis
      proof (cases "br_ready b (rt_chain res)")
        case False
        with run a Some res n f show ?thesis by (auto simp: settleAssignment_def Let_def)
      next
        case True
        show ?thesis
        proof (cases "readEscrowTask b (rt_chain res) (rt_taskId res) h")
          case (ReadOk t)
          with run a Some res True n show ?thesis
            by (intro bookkept_send [OF q s]) (simp add: settleAssignment_def Let_def)
        next
          case (ReadRefused lasting reason)
          have m: "\<not> clears_error (settle_failed (Some reason)\<lparr>sr_escrowMismatch := True\<rparr>)"
              "sr_txHash (settle_failed (Some reason)\<lparr>sr_escrowMismatch := True\<rparr>) = None"
            by (simp_all add: clears_error_def settle_failed_def)
          show ?thesis
            using run a Some res True n ReadRefused f bookkept_failed(2) [OF s m(1)] m(2)
            by (auto simp: settleAssignment_def Let_def split: if_splits)
        qed
      qed
    qed
  qed
qed

text \<open>
  The error a worker stops on is the bridge's last word. With no other writer, an assignment
  run changes nothing of the task but the bridge's own transactions and errors; and when it
  reports success, or a transaction that may still confirm, no error is left on the state, so the
  worker's submit is not refused for a failure that is over.
\<close>

theorem no_stale_assign_error:
  assumes q: "quiet b" and s: "find_state db h = Some (k, s)"
    and run: "settleAssignment b db now h e = (Inr r, calls, db')"
  shows "\<exists>s'. same_task db db' h s s' \<and> (sr_success r \<or> sr_pending r \<longrightarrow> truthy (assignError s') = None)"
  using bookkept_settle [OF assms] unfolding bookkept_def clears_error_def by blast

text \<open>A verification run touches nothing but the verify transaction and the verify error.\<close>

lemma same_verify_failed:
  assumes "find_state db h = Some (k, s)"
  shows "\<exists>s'. same_task db (snd (verify_failed db h msg)) h s s'"
  by (rule update_bridge_fields [OF assms, of "[PVerifyError (Some (truncate_msg msg))]"])
    (auto simp: verify_failed_def safePersistVerifyError_def safely_def)

lemma same_completion_refused:
  assumes "find_state db h = Some (k, s)"
  shows "\<exists>s'. same_task db (snd (completion_refused b db h c tid passed msg)) h s s'"
  using same_verify_failed [OF assms] same_task_refl [OF assms]
  by (auto simp: completion_refused_def Let_def split: sum.split)

lemma same_after_completion:
  assumes q: "quiet b" and s: "find_state db h = Some (k, s)"
  shows "\<exists>s'. same_task db (snd (after_completion b db h c tx)) h s s'"
proof -
  obtain u db1 where u: "updateState db h [PVerifyTxHash (Some tx), PVerifyError None] = Inr (u, db1)"
      "same_task db db1 h s u"
    by (rule update_bridge_fields [OF s, of "[PVerifyTxHash (Some tx), PVerifyError None]"]) auto
  obtain k' where k': "find_state db1 h = Some (k', u)" using same_task_found [OF u(2)] by blast
  have "\<exists>s'. same_task db1 (snd (after_completion b db h c tx)) h u s'"
    using same_verify_failed [OF k'] same_task_refl [OF k'] q
    by (auto simp: after_completion_def u(1) quiet_def Let_def split: wait_answer.split)
  with u(2) show ?thesis by (blast intro: same_task_trans)
qed

lemma settleVerification_cases:
  obtains (kept) msg where "snd (snd (snd (settleVerification b cache db now h passed att))) = snd (verify_failed db h msg)"
    | (later) ex where "settleVerification b cache db now h passed att = settle_verified b cache db now h passed att ex"
proof (cases "truthy (Option.bind (getState db h) executorAddress)")
  case None
  then show ?thesis by (intro later) (simp add: settleVerification_def Let_def)
next
  case (Some e)
  show ?thesis
  proof (cases "br_isAddress b e")
    case True
    with Some show ?thesis by (intro later) (simp add: settleVerification_def Let_def)
  next
    case False
    with Some show ?thesis by (intro kept) (simp add: settleVerification_def Let_def)
  qed
qed

lemma same_settle_verified:
  assumes q: "quiet b" and s: "find_state db h = Some (k, s)"
  shows "\<exists>s'. same_task db (snd (snd (snd (settle_verified b cache db now h passed att ex)))) h s s'"
proof -
  note f = same_verify_failed [OF s] and n = q [unfolded quiet_def]
  show ?thesis
  proof (cases "waitForResolvedTask (br_world b) db h (br_polls b)")
    case None
    with f n show ?thesis by (auto simp: settle_verified_def Let_def)
  next
    case (Some found)
    show ?thesis
    proof (cases found)
      case None
      with Some f n show ?thesis by (auto simp: settle_verified_def Let_def)
    next
      case (Some res)
      with \<open>_ = Some found\<close> f n same_completion_refused [OF s] same_after_completion [OF q s]
      show ?thesis
        by (auto simp: settle_verified_def Let_def split: escrow_read.split option.split sum.split)
    qed
  qed
qed

lemma same_settleVerification:
  assumes "quiet b" "find_state db h = Some (k, s)"
  shows "\<exists>s'. same_task db (snd (snd (snd (settleVerification b cache db now h passed att)))) h s s'"
proof (cases rule: settleVerification_cases [of b cache db now h passed att])
  case (kept msg)
  with same_verify_failed [OF assms(2)] show ?thesis by simp
next
  case (later ex)
  with same_settle_verified [OF assms] show ?thesis by simp
qed

section \<open>A bridge to evaluate on\<close>

text \<open>Arc's index knows the task as its seventh; the node mines what it is sent.\<close>

definition arc_index :: "chain_key \<Rightarrow> task_index" where
  "arc_index = (\<lambda>c. \<lparr>ti_cached = (\<lambda>_. if c = Arc then Some ''7'' else None), ti_resolve = (\<lambda>_. Some None)\<rparr>)"

definition the_task :: onchain_task where
  "the_task =
     \<lparr>oc_agent = ''0xa'', oc_worker = ''0xb'', oc_token = ''0xC2'', oc_amount = 1000, oc_taskHash = ''0xh'',
      oc_status = EsAssigned, oc_deadline = 0, oc_submissionAttempts = 1\<rparr>"

definition arc_bridge :: bridge where
  "arc_bridge =
     \<lparr>br_world = quiet_world\<lparr>w_index := arc_index\<rparr>, br_ready = (\<lambda>_. True), br_isAddress = (\<lambda>_. True),
      br_lookupError = [], br_polls = [arc_index], br_read = (\<lambda>_ _ _. Inr the_task),
      br_tryAssign = (\<lambda>_ _ _. None), br_assign = (\<lambda>_ _ _. Inr ''0xt''),
      br_complete = (\<lambda>_ _ _ _. Inr ''0xv''), br_wait = (\<lambda>_. Mined True), br_after = (\<lambda>_ _. Inr the_task),
      br_teeSigner = (\<lambda>_. None), br_isHexString = (\<lambda>_. True), br_hexlify = (\<lambda>t. t),
      br_recover = (\<lambda>_ _. None), br_teeSignerAddress = None, br_entryPoint = None, br_bundlerUrl = None,
      br_meanwhile = (\<lambda>db. db), br_whileConfirming = (\<lambda>db. db)\<rparr>"

definition held_db :: a2a_db where
  "held_db = empty_db\<lparr>states := [''0xh'' \<mapsto> (bare_state ''0xh'' Accepted)\<lparr>executorAddress := Some ''0xb''\<rparr>]\<rparr>"

lemma lower_h: "lower ''0xh'' = ''0xh''" "lower ''0xb'' = ''0xb''"
  by (simp_all add: lower_eval)

lemma arc_found:
  "waitForResolvedTask (br_world arc_bridge) held_db ''0xh'' (br_polls arc_bridge) =
     Some (Some \<lparr>rt_taskId = ''7'', rt_chain = Arc\<rparr>)"
proof -
  have "\<not> isZeroAddress ''0xE2''" by (auto simp: isZeroAddress_def dest: arg_cong [where f = length])
  then show ?thesis
    by (simp add: arc_bridge_def quiet_world_def arc_index_def held_db_def resolveTaskByHash_def recordedChain_def
        indexesFor_def SEARCH_ORDER_def getMeta_def find_meta_def empty_db_def testnet_config_def build_arc_def
        addressOrNull_def Let_def)
qed

lemma arc_read: "readEscrowTask arc_bridge Arc ''7'' ''0xh'' = ReadOk the_task"
  by (simp add: readEscrowTask_def TASK_READS_def eval_nat_numeral arc_bridge_def the_task_def)

lemma held_state:
  "find_state held_db ''0xh'' = Some (''0xh'', (bare_state ''0xh'' Accepted)\<lparr>executorAddress := Some ''0xb''\<rparr>)"
  by (simp add: held_db_def find_state_def lower_h)

lemma arc_quiet: "quiet arc_bridge"
  by (simp add: quiet_def arc_bridge_def)

lemma arc_assigns:
  obtains r db' where "settleAssignment arc_bridge held_db 5 ''0xh'' ''0xb'' =
     (Inr r, [MarketplaceAssign Arc ''7'' ''0xb''], db')" "sr_success r"
proof -
  have a: "br_isAddress arc_bridge ''0xb''" "br_ready arc_bridge Arc" "br_meanwhile arc_bridge held_db = held_db"
    "br_tryAssign arc_bridge Arc ''7'' ''0xb'' = None" "br_assign arc_bridge Arc ''7'' ''0xb'' = Inr ''0xt''"
    "br_wait arc_bridge ''0xt'' = Mined True"
    by (simp_all add: arc_bridge_def)
  have w: "resolveAssignee arc_bridge ''0xb'' Arc = ''0xb''"
    by (simp add: resolveAssignee_def smartAccountSubmitUsable_def arc_bridge_def)
  obtain u db1 where u: "updateState held_db ''0xh'' [PAssignTxHash (Some ''0xt''), PAssignError None] = Inr (u, db1)"
    by (rule update_bridge_fields [OF held_state, of "[PAssignTxHash (Some ''0xt''), PAssignError None]"]) auto
  have "settleAssignment arc_bridge held_db 5 ''0xh'' ''0xb'' =
     (Inr (settle_done\<lparr>sr_txHash := Some ''0xt'', sr_chain := Some Arc\<rparr>), [MarketplaceAssign Arc ''7'' ''0xb''],
      br_whileConfirming arc_bridge (markAssignBroadcast db1 5 ''0xh'' ''0xt'' 5))"
    by (simp add: settleAssignment_def arc_found arc_read a w send_assignment_def after_broadcast_def u Let_def)
  then show ?thesis by (rule that) (simp add: settle_done_def)
qed

theorem assignment_success_is_the_escrows_witness:
  "\<exists>r calls db'. settleAssignment arc_bridge held_db 5 ''0xh'' ''0xb'' = (Inr r, calls, db') \<and> sr_success r \<and>
     (\<exists>res t. escrow_task_of arc_bridge held_db ''0xh'' res t)"
proof -
  obtain r db' where r: "settleAssignment arc_bridge held_db 5 ''0xh'' ''0xb'' =
     (Inr r, [MarketplaceAssign Arc ''7'' ''0xb''], db')" "sr_success r"
    by (rule arc_assigns)
  from assignment_success_is_the_escrows [OF r(1)] r show ?thesis by blast
qed

theorem no_stale_assign_error_witness:
  "\<exists>s s' db'. same_task held_db db' ''0xh'' s s' \<and> truthy (assignError s') = None"
proof -
  obtain r db' where r: "settleAssignment arc_bridge held_db 5 ''0xh'' ''0xb'' =
     (Inr r, [MarketplaceAssign Arc ''7'' ''0xb''], db')" "sr_success r"
    by (rule arc_assigns)
  from no_stale_assign_error [OF arc_quiet held_state r(1)] r(2) show ?thesis by blast
qed

lemma arc_verifies:
  obtains r db' where "settleVerification arc_bridge Map.empty held_db 5 ''0xh'' True None =
     (r, [CompleteVerification False Arc ''7'' True], Map.empty, db')" "sr_success r"
proof -
  have a: "br_isAddress arc_bridge ''0xb''" "br_ready arc_bridge Arc" "br_meanwhile arc_bridge held_db = held_db"
    "br_complete arc_bridge False Arc ''7'' True = Inr ''0xv''" "br_wait arc_bridge ''0xv'' = Mined True"
    by (simp_all add: arc_bridge_def)
  have m: "verificationWorkerMismatch arc_bridge the_task Arc ''7'' (Some ''0xb'') = None"
    by (simp add: verificationWorkerMismatch_def the_task_def)
  have e: "Option.bind (getState held_db ''0xh'') executorAddress = Some ''0xb''"
    by (simp add: getState_def held_state)
  have t: "\<not> isTeeAttestationValid arc_bridge None" by (simp add: isTeeAttestationValid_def)
  obtain u db1 where u: "updateState held_db ''0xh'' [PVerifyTxHash (Some ''0xv''), PVerifyError None] = Inr (u, db1)"
    by (rule update_bridge_fields [OF held_state, of "[PVerifyTxHash (Some ''0xv''), PVerifyError None]"]) auto
  have "settleVerification arc_bridge Map.empty held_db 5 ''0xh'' True None =
     (settle_done\<lparr>sr_txHash := Some ''0xv''\<rparr>, [CompleteVerification False Arc ''7'' True], Map.empty,
      br_whileConfirming arc_bridge db1)"
    by (simp add: settleVerification_def settle_verified_def arc_found arc_read a m e t after_completion_def u Let_def)
  then show ?thesis by (rule that) (simp add: settle_done_def)
qed

theorem verdict_settles_the_executors_task_witness:
  "\<exists>r calls c db'. settleVerification arc_bridge Map.empty held_db 5 ''0xh'' True None = (r, calls, c, db') \<and>
     (\<exists>res t. escrow_task_of arc_bridge held_db ''0xh'' res t \<and> pays_executor arc_bridge t (Some ''0xb''))"
proof -
  obtain r db' where r: "settleVerification arc_bridge Map.empty held_db 5 ''0xh'' True None =
     (r, [CompleteVerification False Arc ''7'' True], Map.empty, db')" "sr_success r"
    by (rule arc_verifies)
  have "Option.bind (getState held_db ''0xh'') executorAddress = Some ''0xb''"
    by (simp add: getState_def held_state)
  with verdict_settles_the_executors_task [OF r(1)] r show ?thesis by auto
qed

end
