(* ===== verification/Bids.thy ===== *)
theory Bids
  imports KeyValue
begin

text \<open>
  \<open>services/bidsStore.ts\<close>: who asked to take a task whose brief is not wrapped to them yet. One
  Redis hash per task, from the lowercased address to the bid, kept for a hundred days from the
  last bid.
\<close>

record bid =
  bid_address :: string
  bid_publicKey :: string
  bid_capabilities :: "string list"
  bid_at :: int

type_synonym bids = "(string \<rightharpoonup> bid) kv"

definition BIDS_TTL_SECONDS :: int where
  "BIDS_TTL_SECONDS = 100 * 24 * 60 * 60"

definition bids_of :: "bids \<Rightarrow> int \<Rightarrow> string \<Rightarrow> (string \<rightharpoonup> bid)" where
  "bids_of b now h = (case kv_get now b (lower h) of None \<Rightarrow> Map.empty | Some m \<Rightarrow> m)"

definition addBid :: "bids \<Rightarrow> int \<Rightarrow> string \<Rightarrow> bid \<Rightarrow> bids" where
  "addBid b now h x =
     kv_setex now b (lower h) BIDS_TTL_SECONDS
       ((bids_of b now h)(lower (bid_address x) \<mapsto> x\<lparr>bid_address := lower (bid_address x)\<rparr>))"

text \<open>HGETALL answers in no fixed order: the list is the set of its bids.\<close>

definition listBids :: "bids \<Rightarrow> int \<Rightarrow> string \<Rightarrow> bid set" where
  "listBids b now h = ran (bids_of b now h)"

definition hasBid :: "bids \<Rightarrow> int \<Rightarrow> string \<Rightarrow> string \<Rightarrow> bool" where
  "hasBid b now h addr \<longleftrightarrow> bids_of b now h (lower addr) \<noteq> None"

definition clearBids :: "bids \<Rightarrow> string \<Rightarrow> bids" where
  "clearBids b h = kv_del b (lower h)"

lemma bids_after_add:
  "0 \<le> now' - now \<Longrightarrow> now' - now < 1000 * BIDS_TTL_SECONDS \<Longrightarrow>
   bids_of (addBid b now h x) now' g =
     (if lower g = lower h then (bids_of b now h)(lower (bid_address x) \<mapsto> x\<lparr>bid_address := lower (bid_address x)\<rparr>)
      else bids_of b now' g)"
  by (simp add: bids_of_def addBid_def redis_simps)

lemma bids_cleared [simp]: "bids_of (clearBids b h) now g = (if lower g = lower h then Map.empty else bids_of b now g)"
  by (simp add: bids_of_def clearBids_def redis_simps)

end
