(* ===== verification/Lifecycle.thy ===== *)
theory Lifecycle
  imports Settlement Payouts GasSponsor Notifications Bids
begin

text \<open>
  The handlers of \<open>routes/a2a.ts\<close> that take an accepted task to its end: \<open>/submit\<close>,
  \<open>/rebroadcast\<close>, \<open>/release\<close>, \<open>/finalize\<close>, \<open>/verify\<close> and \<open>/verdict\<close>, on the task store, the
  payout tables, the gas-sponsor tables and the bridge. A handler is a function of the server's
  state and of what the request meets outside it: the escrow's answers, one for each read the
  request makes, the clock, the rubric, and \<open>rq_meanwhile\<close>, what other requests write to the task
  store between this one's last check and its write. An error is its HTTP status and code; its
  text, the logs and the webhooks are left out. A refused request leaves the writes of others
  to them: the state it returns is its own.
\<close>

section \<open>The server and a request\<close>

record server =
  sv_db :: a2a_db
  sv_pay :: pay_db
  sv_costs :: "string \<rightharpoonup> rat"
  sv_tee :: tee_cache
  sv_gas :: gas_db
  sv_bids :: bids
  sv_sent :: "escrow_call list"
  sv_told :: "(string \<times> lifecycle_event) list"
  sv_reopened :: "announcement list"

record route_env =
  rq_bridge :: bridge
  rq_now :: int
  rq_read :: "nat \<Rightarrow> chain_key \<Rightarrow> string \<Rightarrow> string + onchain_task"
  rq_verifierOn :: "chain_key \<Rightarrow> string \<Rightarrow> string option"
  rq_autoVerify :: "json \<Rightarrow> criteria \<Rightarrow> verification"
  rq_evidenceHash :: "json \<Rightarrow> string"
  rq_buildSubmit :: "chain_key \<Rightarrow> string \<Rightarrow> string \<Rightarrow> string \<Rightarrow> string option"
  rq_payout :: payout_io
  rq_dispute :: dispute_io
  rq_gasChain :: "int option"
  rq_meanwhile :: "a2a_db \<Rightarrow> a2a_db"

definition rq_world :: "route_env \<Rightarrow> world" where
  "rq_world e = br_world (rq_bridge e)"

definition FORBIDDEN :: app_error where
  "FORBIDDEN = AppError 403 ''FORBIDDEN''"

definition is_executor :: "task_state \<Rightarrow> string \<Rightarrow> bool" where
  "is_executor s addr \<longleftrightarrow> lower_opt (executorAddress s) = Some (lower addr)"

text \<open>The escrow id and chain of a task, \<open>None\<close> while it is not indexed; the error of the throw.\<close>

definition on_chain_id :: "route_env \<Rightarrow> a2a_db \<Rightarrow> string \<Rightarrow> app_error \<Rightarrow> app_error + (chain_key \<times> string) option" where
  "on_chain_id e db h err =
     (case resolve (rq_world e) db h of
        None \<Rightarrow> Inl err
      | Some None \<Rightarrow> Inr None
      | Some (Some r) \<Rightarrow> Inr (if rt_taskId r = [] then None else Some (rt_chain r, rt_taskId r)))"

definition NOT_INDEXED :: app_error where
  "NOT_INDEXED = AppError 503 ''NOT_INDEXED''"

text \<open>The escrow's task, with \<open>err\<close> for a lookup or a read that throws.\<close>

definition indexed_task ::
  "route_env \<Rightarrow> a2a_db \<Rightarrow> string \<Rightarrow> app_error \<Rightarrow> app_error + chain_key \<times> string \<times> onchain_task" where
  "indexed_task e db h err =
     (case on_chain_id e db h err of
        Inl x \<Rightarrow> Inl x
      | Inr None \<Rightarrow> Inl NOT_INDEXED
      | Inr (Some (c, tid)) \<Rightarrow>
          (case rq_read e 0 c tid of Inl _ \<Rightarrow> Inl err | Inr t \<Rightarrow> Inr (c, tid, t)))"

section \<open>Submitting\<close>

definition is_recorded_worker :: "route_env \<Rightarrow> chain_key \<Rightarrow> string \<Rightarrow> onchain_task \<Rightarrow> bool" where
  "is_recorded_worker e c addr t \<longleftrightarrow>
     lower (oc_worker t) = lower addr \<or> lower (oc_worker t) = lower (resolveAssignee (rq_bridge e) addr c)"

text \<open>The attempts of the escrow task once it names the caller: one more read when it does not.\<close>

definition assigned_attempts ::
  "route_env \<Rightarrow> a2a_db \<Rightarrow> string \<Rightarrow> string \<Rightarrow> chain_key \<Rightarrow> string \<Rightarrow> app_error + int" where
  "assigned_attempts e db h addr c tid =
     (case rq_read e 0 c tid of
        Inl _ \<Rightarrow> Inl LookupThrew
      | Inr t \<Rightarrow>
          if is_recorded_worker e c addr t then Inr (oc_submissionAttempts t)
          else (case rq_read e 1 c tid of
            Inl _ \<Rightarrow> Inl LookupThrew
          | Inr t \<Rightarrow>
              if is_recorded_worker e c addr t then Inr (oc_submissionAttempts t)
              else if Option.bind (getState (rq_meanwhile e db) h) (truthy \<circ> assignError) \<noteq> None
              then Inl (AppError 503 ''BRIDGE_FAILED'')
              else Inl (AppError 503 ''NOT_ASSIGNED_YET'')))"

text \<open>\<open>BigInt(Math.floor(Date.now() / 1000)) >= deadline\<close>.\<close>

definition past_deadline :: "route_env \<Rightarrow> onchain_task \<Rightarrow> bool" where
  "past_deadline e t \<longleftrightarrow> oc_deadline t \<le> rq_now e div 1000"

definition DEADLINE_REACHED :: app_error where
  "DEADLINE_REACHED = AppError 409 ''DEADLINE_REACHED''"

text \<open>A retry after a failed verification: only what the contract will take.\<close>

definition retry_attempts :: "route_env \<Rightarrow> chain_key \<Rightarrow> string \<Rightarrow> app_error + int" where
  "retry_attempts e c tid =
     (case rq_read e 2 c tid of
        Inl _ \<Rightarrow> Inl LookupThrew
      | Inr t \<Rightarrow>
          if oc_status t \<noteq> EsVerified then Inl (AppError 409 ''NOT_RETRYABLE'')
          else if oc_submissionAttempts t \<ge> 3 then Inl (AppError 409 ''MAX_ATTEMPTS_REACHED'')
          else if past_deadline e t then Inl DEADLINE_REACHED
          else Inr (oc_submissionAttempts t))"

definition submit_checks ::
  "route_env \<Rightarrow> a2a_db \<Rightarrow> string \<Rightarrow> string \<Rightarrow> task_state \<Rightarrow> app_error + chain_key \<times> string \<times> int" where
  "submit_checks e db h addr s =
     (case on_chain_id e db h LookupThrew of
        Inl x \<Rightarrow> Inl x
      | Inr None \<Rightarrow> Inl NOT_INDEXED
      | Inr (Some (c, tid)) \<Rightarrow>
          if truthy (assignError s) \<noteq> None then Inl (AppError 503 ''BRIDGE_FAILED'')
          else (case assigned_attempts e db h addr c tid of
            Inl x \<Rightarrow> Inl x
          | Inr n \<Rightarrow>
              (case (if status s = Failed then retry_attempts e c tid else Inr n) of
                 Inl x \<Rightarrow> Inl x
               | Inr m \<Rightarrow> Inr (c, tid, m))))"

record evidence =
  ev_onChainTaskId :: string
  ev_chain :: chain_key
  ev_hash :: string
  ev_unsignedTx :: "string option"

text \<open>The evidence hash, and the transaction to sign; \<open>None\<close> when building it throws.\<close>

definition build_evidence :: "route_env \<Rightarrow> string \<Rightarrow> chain_key \<Rightarrow> string \<Rightarrow> json \<Rightarrow> evidence option" where
  "build_evidence e addr c tid data =
     (let hash = rq_evidenceHash e data;
          reply = \<lparr>ev_onChainTaskId = tid, ev_chain = c, ev_hash = hash, ev_unsignedTx = None\<rparr>
      in if \<not> br_isAddress (rq_bridge e) addr then Some reply
         else map_option (\<lambda>tx. reply\<lparr>ev_unsignedTx := Some tx\<rparr>) (rq_buildSubmit e c addr tid hash))"

record submission_body =
  sb_resultData :: json
  sb_teeAttestation :: "json option"
  sb_rootHash :: "string option"

definition submit_patch :: "route_env \<Rightarrow> submission_body \<Rightarrow> int \<Rightarrow> patch_field list" where
  "submit_patch e body attempts =
     [PStatus Submitted, PResultData (Some (sb_resultData body)), PSubmittedAt (Some (rq_now e)),
      PVerificationResult None, PSubmissionRound (Some (attempts + 1))] @
     (case sb_teeAttestation body of None \<Rightarrow> [] | Some a \<Rightarrow> [PTeeAttestation (Some a)]) @
     (case truthy (sb_rootHash body) of None \<Rightarrow> [] | Some r \<Rightarrow> [POutputRootHash (Some r)])"

text \<open>A lifecycle notice is sent without waiting for it; \<open>Notifications\<close> says to whom.\<close>

definition tell :: "string \<Rightarrow> lifecycle_event \<Rightarrow> server \<Rightarrow> server" where
  "tell h ev sv = sv\<lparr>sv_told := sv_told sv @ [(h, ev)]\<rparr>"

definition submitTask ::
  "route_env \<Rightarrow> server \<Rightarrow> string \<Rightarrow> string \<Rightarrow> submission_body \<Rightarrow> (app_error + evidence) \<times> server" where
  "submitTask e sv h addr body =
     (if getMeta (sv_db sv) h = None then (Inl NOT_FOUND, sv)
      else (case getState (sv_db sv) h of
        None \<Rightarrow> (Inl FORBIDDEN, sv)
      | Some s \<Rightarrow>
          if \<not> is_executor s addr then (Inl FORBIDDEN, sv)
          else if status s \<notin> {Accepted, InProgress, Failed} then (Inl INVALID_STATE, sv)
          else (case submit_checks e (sv_db sv) h addr s of
            Inl x \<Rightarrow> (Inl x, sv)
          | Inr (c, tid, attempts) \<Rightarrow>
              (case build_evidence e addr c tid (sb_resultData body) of
                 None \<Rightarrow> (Inl LookupThrew, sv)
               | Some ev \<Rightarrow>
                   (case updateState (rq_meanwhile e (sv_db sv)) h (submit_patch e body attempts) of
                      Inl x \<Rightarrow> (Inl (StoreThrew x), sv)
                    | Inr (_, db') \<Rightarrow> (Inr ev, tell h EvSubmitted (sv\<lparr>sv_db := db'\<rparr>)))))))"

definition rebroadcastTask :: "route_env \<Rightarrow> server \<Rightarrow> string \<Rightarrow> string \<Rightarrow> app_error + evidence" where
  "rebroadcastTask e sv h addr =
     (if getMeta (sv_db sv) h = None then Inl NOT_FOUND
      else (case getState (sv_db sv) h of
        None \<Rightarrow> Inl FORBIDDEN
      | Some s \<Rightarrow>
          if \<not> is_executor s addr then Inl FORBIDDEN
          else if status s \<noteq> Submitted then Inl INVALID_STATE
          else (case resultData s of
            None \<Rightarrow> Inl (AppError 400 ''NO_RESULT_DATA'')
          | Some data \<Rightarrow>
              (case indexed_task e (sv_db sv) h LookupThrew of
                 Inl x \<Rightarrow> Inl x
               | Inr (c, tid, t) \<Rightarrow>
                   if oc_status t \<noteq> EsAssigned then Inl (AppError 409 ''ALREADY_SUBMITTED'')
                   else if past_deadline e t then Inl DEADLINE_REACHED
                   else if \<not> is_recorded_worker e c addr t then Inl (AppError 503 ''NOT_ASSIGNED_YET'')
                   else (case build_evidence e addr c tid data of
                     None \<Rightarrow> Inl LookupThrew
                   | Some ev \<Rightarrow> Inr ev)))))"

section \<open>Releasing\<close>

text \<open>The release that announces: a lost compare-and-set announces nothing.\<close>

definition announce_available :: "world \<Rightarrow> string \<Rightarrow> task_meta \<Rightarrow> announcement" where
  "announce_available w h m =
     \<lparr>an_taskId = h, an_caps = requiredCapabilities m, an_chain = truthy (chain m),
      an_gasSponsored = w_sponsorHint w m, an_pinnedTo = targetExecutor m\<rparr>"

definition releaseAndAnnounce ::
  "route_env \<Rightarrow> server \<Rightarrow> string \<Rightarrow> task_meta \<Rightarrow> expected_state \<Rightarrow> (store_error + unit cas) \<times> server" where
  "releaseAndAnnounce e sv h m expected =
     (let r = tryReleaseAccepted (sv_db sv) h expected; sv' = sv\<lparr>sv_db := snd r\<rparr>
      in (fst r,
          case fst r of
            Inr (Won _) \<Rightarrow> sv'\<lparr>sv_reopened := sv_reopened sv @ [announce_available (rq_world e) h m]\<rparr>
          | _ \<Rightarrow> sv'))"

text \<open>\<open>heldSubmit\<close>: the submit reservation the executor holds for the task on Arc.\<close>

definition heldSubmit :: "route_env \<Rightarrow> server \<Rightarrow> string \<Rightarrow> string \<Rightarrow> reservation option" where
  "heldSubmit e sv h executor =
     (case (rq_gasChain e, resolve (rq_world e) (sv_db sv) h) of
        (Some gas, Some (Some r)) \<Rightarrow>
          if rt_chain r \<noteq> Arc then None
          else Option.bind (parse_decimal (rt_taskId r)) (\<lambda>i.
            Option.bind (getReservation (sv_gas sv) gas (int i) KSubmit) (\<lambda>res.
              if rs_status res = RReserved \<and> rs_agentWallet res = lower executor then Some res else None))
      | _ \<Rightarrow> None)"

definition markHandedBack :: "route_env \<Rightarrow> server \<Rightarrow> string \<Rightarrow> string \<Rightarrow> server" where
  "markHandedBack e sv h executor =
     (case heldSubmit e sv h executor of
        None \<Rightarrow> sv
      | Some r \<Rightarrow> sv\<lparr>sv_gas := snd (markReservationReturned (sv_gas sv) (rq_now e) (rs_id r))\<rparr>)"

definition releaseOnReopen :: "route_env \<Rightarrow> server \<Rightarrow> string \<Rightarrow> string \<Rightarrow> server" where
  "releaseOnReopen e sv h executor =
     (case heldSubmit e sv h executor of
        None \<Rightarrow> sv
      | Some r \<Rightarrow>
          if list_ex (\<lambda>t. tx_status t \<in> {TxSigned, TxSent}) (txsForReservation (sv_gas sv) (rs_id r)) then sv
          else sv\<lparr>sv_gas := snd (closeReservation (sv_gas sv) (rq_now e) (rs_id r) CloseReleased None)\<rparr>)"

definition releasable :: "status \<Rightarrow> release_from option" where
  "releasable st =
     (if st = Accepted then Some FromAccepted
      else if st = InProgress then Some FromInProgress
      else if st = Submitted then Some FromSubmitted else None)"

text \<open>Whether the escrow still has the task as funded: \<open>None\<close> when nothing is indexed.\<close>

definition funded_on_chain :: "route_env \<Rightarrow> a2a_db \<Rightarrow> string \<Rightarrow> app_error + bool" where
  "funded_on_chain e db h =
     (case on_chain_id e db h LookupThrew of
        Inl x \<Rightarrow> Inl x
      | Inr None \<Rightarrow> Inr True
      | Inr (Some (c, tid)) \<Rightarrow>
          (case rq_read e 0 c tid of
             Inl _ \<Rightarrow> Inl (AppError 503 ''ON_CHAIN_CHECK_FAILED'')
           | Inr t \<Rightarrow> Inr (oc_status t = EsFunded)))"

datatype released = AlreadyListed | Relisted

definition releaseTask ::
  "route_env \<Rightarrow> server \<Rightarrow> string \<Rightarrow> string \<Rightarrow> (app_error + released) \<times> server" where
  "releaseTask e sv h addr =
     (case (getMeta (sv_db sv) h, getState (sv_db sv) h) of
        (Some m, Some s) \<Rightarrow>
          if \<not> is_executor s addr \<and> lower_opt (posterAddress m) \<noteq> Some (lower addr) then (Inl FORBIDDEN, sv)
          else if status s = Open then (Inr AlreadyListed, sv)
          else (case releasable (status s) of
            None \<Rightarrow> (Inl INVALID_STATE, sv)
          | Some from_st \<Rightarrow>
              (case funded_on_chain e (sv_db sv) h of
                 Inl x \<Rightarrow> (Inl x, sv)
               | Inr False \<Rightarrow>
                   (Inl (AppError 409 ''ON_CHAIN_LOCKED''),
                    if is_executor s addr then markHandedBack e sv h addr else sv)
               | Inr True \<Rightarrow>
                   let r = releaseAndAnnounce e (sv\<lparr>sv_db := rq_meanwhile e (sv_db sv)\<rparr>) h m
                             \<lparr>exp_executor = executorAddress s, exp_tx = assignTxHash s, exp_status = Some from_st\<rparr>
                   in (case fst r of
                         Inl x \<Rightarrow> (Inl (StoreThrew x), snd r)
                       | Inr (Won _) \<Rightarrow>
                           (Inr Relisted,
                            case truthy (executorAddress s) of
                              None \<Rightarrow> snd r
                            | Some a \<Rightarrow> releaseOnReopen e (snd r) h a)
                       | Inr (Lost cur) \<Rightarrow>
                           (if cur = Some Open then Inr AlreadyListed
                            else Inl (AppError 409 ''STATE_CHANGED''), snd r))))
      | _ \<Rightarrow> (Inl NOT_FOUND, sv))"

section \<open>Recording what was settled\<close>

definition getPendingCost :: "server \<Rightarrow> string \<Rightarrow> rat" where
  "getPendingCost sv h = (case sv_costs sv h of None \<Rightarrow> 0 | Some c \<Rightarrow> c)"

definition consumePendingCost :: "server \<Rightarrow> string \<Rightarrow> server" where
  "consumePendingCost sv h =
     (if getPendingCost sv h > 0 then sv\<lparr>sv_costs := (sv_costs sv)(h := None)\<rparr> else sv)"

text \<open>The escrow task a verdict is about: its chain, its id and what was read of it.\<close>

type_synonym settled = "chain_key \<times> string \<times> onchain_task"

definition creditSettledPass ::
  "route_env \<Rightarrow> server \<Rightarrow> string \<Rightarrow> string \<Rightarrow> settled \<Rightarrow> int option \<Rightarrow> (app_error + unit) \<times> server" where
  "creditSettledPass e sv h executor p service =
     (let t = snd (snd p);
          r = recordWorkerPayout (w_cfg (rq_world e)) (sv_pay sv) (rq_now e) (rq_payout e) h executor
                (fst (snd p)) (oc_amount t) (fst p, oc_token t)
                \<lparr>op_rethrow = True, op_serviceId = service, op_computeCost = Some (getPendingCost sv h)\<rparr>;
          sv' = sv\<lparr>sv_pay := snd r\<rparr>
      in if fst r then (Inl (AppError 503 ''CREDIT_FAILED''), sv') else (Inr (), consumePendingCost sv' h))"

definition disputeSettledFail :: "route_env \<Rightarrow> server \<Rightarrow> string \<Rightarrow> string \<Rightarrow> settled \<Rightarrow> server" where
  "disputeSettledFail e sv h executor p =
     sv\<lparr>sv_pay := snd (recordWorkerDispute (w_cfg (rq_world e)) (sv_pay sv) (rq_now e) (rq_dispute e) h executor
          \<lparr>fr_chain = fst p, fr_taskId = fst (snd p), fr_attempt = Attempt (oc_submissionAttempts (snd (snd p)))\<rparr> False)\<rparr>"

definition verdict_status :: "bool \<Rightarrow> status" where
  "verdict_status passed = (if passed then Verified else Failed)"

text \<open>
  The same tail in \<open>/finalize\<close>, \<open>/verify\<close> and \<open>/verdict\<close>: credit a pass, write the state, dock a
  fail, tell the parties.
\<close>

definition record_settled ::
  "route_env \<Rightarrow> server \<Rightarrow> string \<Rightarrow> string option \<Rightarrow> settled \<Rightarrow> int option \<Rightarrow> verification \<Rightarrow>
   (app_error + unit) \<times> server" where
  "record_settled e sv h executor p service v =
     (let credit = (if vr_passed v
                    then (case executor of None \<Rightarrow> (Inr (), sv) | Some a \<Rightarrow> creditSettledPass e sv h a p service)
                    else (Inr (), sv));
          sv1 = snd credit
      in case fst credit of
           Inl x \<Rightarrow> (Inl x, sv1)
         | Inr _ \<Rightarrow>
             (case updateState (sv_db sv1) h [PStatus (verdict_status (vr_passed v)), PVerificationResult (Some v)] of
                Inl x \<Rightarrow> (Inl (StoreThrew x), sv1)
              | Inr (_, db') \<Rightarrow>
                  let sv2 = sv1\<lparr>sv_db := db'\<rparr>;
                      sv3 = (if vr_passed v then sv2
                             else (case executor of None \<Rightarrow> sv2 | Some a \<Rightarrow> disputeSettledFail e sv2 h a p))
                  in (Inr (), tell h (if vr_passed v then EvCompleted else EvFailed) sv3)))"

text \<open>The bridge's verdict, its calls and its cache, kept on the server.\<close>

definition settle_on_chain ::
  "route_env \<Rightarrow> server \<Rightarrow> string \<Rightarrow> bool \<Rightarrow> tee_attestation option \<Rightarrow> settle_result \<times> server" where
  "settle_on_chain e sv h passed att =
     (case settleVerification (rq_bridge e) (sv_tee sv) (sv_db sv) (rq_now e) h passed att of
        (r, calls, tee, db') \<Rightarrow> (r, sv\<lparr>sv_db := db', sv_tee := tee, sv_sent := sv_sent sv @ calls\<rparr>))"

text \<open>The evidence of the recorded round is not on chain yet.\<close>

definition round_pending :: "task_state \<Rightarrow> onchain_task \<Rightarrow> bool" where
  "round_pending s t = (case submissionRound s of None \<Rightarrow> False | Some n \<Rightarrow> oc_submissionAttempts t < n)"

definition NOT_SUBMITTED_ON_CHAIN :: app_error where
  "NOT_SUBMITTED_ON_CHAIN = AppError 503 ''NOT_SUBMITTED_ON_CHAIN''"

definition settled_outcome :: "onchain_task \<Rightarrow> bool option" where
  "settled_outcome t =
     (if oc_status t = EsCompleted then Some True else if oc_status t = EsVerified then Some False else None)"

section \<open>Finalizing\<close>

datatype finalized = Parked string | AwaitsPoster | Judged status verification bool

definition ON_CHAIN_CHECK_FAILED :: app_error where
  "ON_CHAIN_CHECK_FAILED = AppError 503 ''ON_CHAIN_CHECK_FAILED''"

definition park_for_verifier ::
  "route_env \<Rightarrow> server \<Rightarrow> string \<Rightarrow> task_meta \<Rightarrow> task_state \<Rightarrow> (app_error + finalized) \<times> server" where
  "park_for_verifier e sv h m s =
     (case truthy (verifierAddress m) of
        None \<Rightarrow> (Inl (AppError 409 ''NO_VERIFIER''), sv)
      | Some v \<Rightarrow>
          (case indexed_task e (sv_db sv) h ON_CHAIN_CHECK_FAILED of
             Inl x \<Rightarrow> (Inl x, sv)
           | Inr (c, tid, t) \<Rightarrow>
               if round_pending s t \<or> oc_status t \<notin> {EsSubmitted, EsVerified, EsCompleted}
               then (Inl NOT_SUBMITTED_ON_CHAIN, sv)
               else (case updateState (rq_meanwhile e (sv_db sv)) h [PStatus AwaitingVerification] of
                 Inl x \<Rightarrow> (Inl (StoreThrew x), sv)
               | Inr (_, db') \<Rightarrow> (Inr (Parked v), sv\<lparr>sv_db := db'\<rparr>))))"

definition reconciled :: "bool \<Rightarrow> verification" where
  "reconciled passed =
     \<lparr>vr_passed = passed, vr_score = None,
      vr_reasons = JArr [JStr ''Reconciled from on-chain settlement''], vr_breakdown = None, vr_errors = None\<rparr>"

definition judged ::
  "verification \<Rightarrow> bool \<Rightarrow> (app_error + unit) \<times> server \<Rightarrow> (app_error + finalized) \<times> server" where
  "judged v again r =
     ((case fst r of Inl x \<Rightarrow> Inl x | Inr _ \<Rightarrow> Inr (Judged (verdict_status (vr_passed v)) v again)), snd r)"

definition finalize_auto ::
  "route_env \<Rightarrow> server \<Rightarrow> string \<Rightarrow> string \<Rightarrow> task_meta \<Rightarrow> task_state \<Rightarrow> verification \<Rightarrow>
   (app_error + finalized) \<times> server" where
  "finalize_auto e sv h addr m s v =
     (case indexed_task e (sv_db sv) h ON_CHAIN_CHECK_FAILED of
        Inl x \<Rightarrow> (Inl x, sv)
      | Inr (c, tid, t) \<Rightarrow>
          if round_pending s t then (Inl NOT_SUBMITTED_ON_CHAIN, sv)
          else
            let sv0 = sv\<lparr>sv_db := rq_meanwhile e (sv_db sv)\<rparr> in
            (case settled_outcome t of
               Some passed \<Rightarrow>
                 let v' = (if vr_passed v = passed then v else reconciled passed)
                 in judged v' True (record_settled e sv0 h (Some addr) (c, tid, t) (serviceId m) v')
             | None \<Rightarrow>
                 if oc_status t \<noteq> EsSubmitted then (Inl NOT_SUBMITTED_ON_CHAIN, sv)
                 else
                   let r = settle_on_chain e sv0 h (vr_passed v) (tee_of (teeAttestation s)) in
                   if \<not> sr_success (fst r) then (Inl (AppError 503 ''SETTLEMENT_FAILED''), snd r)
                   else judged v False (record_settled e (snd r) h (Some addr) (c, tid, t) (serviceId m) v)))"

definition finalizeTask ::
  "route_env \<Rightarrow> server \<Rightarrow> string \<Rightarrow> string \<Rightarrow> (app_error + finalized) \<times> server" where
  "finalizeTask e sv h addr =
     (case getMeta (sv_db sv) h of
        None \<Rightarrow> (Inl NOT_FOUND, sv)
      | Some m \<Rightarrow>
          (case getState (sv_db sv) h of
             None \<Rightarrow> (Inl FORBIDDEN, sv)
           | Some s \<Rightarrow>
               if \<not> is_executor s addr then (Inl FORBIDDEN, sv)
               else if status s \<noteq> Submitted then (Inl INVALID_STATE, sv)
               else (case resultData s of
                 None \<Rightarrow> (Inl (AppError 400 ''NO_RESULT_DATA''), sv)
               | Some data \<Rightarrow>
                   if verificationMode m = AgentReview then park_for_verifier e sv h m s
                   else (case (if verificationMode m = Auto then verificationCriteria m else None) of
                     None \<Rightarrow> (Inr AwaitsPoster, sv)
                   | Some cr \<Rightarrow> finalize_auto e sv h addr m s (rq_autoVerify e data cr)))))"

section \<open>The poster's and the verifier's verdict\<close>

definition verdict_of :: "bool \<Rightarrow> json \<Rightarrow> verification" where
  "verdict_of passed reasons =
     \<lparr>vr_passed = passed, vr_score = None, vr_reasons = reasons, vr_breakdown = None, vr_errors = None\<rparr>"

text \<open>The answer to both: the status, the result, and whether it had been recorded before.\<close>

type_synonym judgement = "status \<times> verification \<times> bool"

definition verdict_answer ::
  "verification \<Rightarrow> (app_error + unit) \<times> server \<Rightarrow> (app_error + judgement) \<times> server" where
  "verdict_answer v r =
     ((case fst r of Inl x \<Rightarrow> Inl x | Inr _ \<Rightarrow> Inr (verdict_status (vr_passed v), v, False)), snd r)"

definition verifyTask ::
  "route_env \<Rightarrow> server \<Rightarrow> string \<Rightarrow> string \<Rightarrow> bool \<Rightarrow> json \<Rightarrow> (app_error + judgement) \<times> server" where
  "verifyTask e sv h addr passed reasons =
     (case getMeta (sv_db sv) h of
        None \<Rightarrow> (Inl NOT_FOUND, sv)
      | Some m \<Rightarrow>
          if map_option lower (truthy (posterAddress m)) \<noteq> Some (lower addr)
          then (Inl (AppError 403 ''NOT_POSTER''), sv)
          else if verificationMode m \<noteq> Manual then (Inl (AppError 409 ''WRONG_MODE''), sv)
          else (case getState (sv_db sv) h of
            None \<Rightarrow> (Inl INVALID_STATE, sv)
          | Some s \<Rightarrow>
              if status s \<noteq> Submitted then (Inl INVALID_STATE, sv)
              else (case indexed_task e (sv_db sv) h LookupThrew of
                Inl x \<Rightarrow> (Inl x, sv)
              | Inr (c, tid, t) \<Rightarrow>
                  if round_pending s t then (Inl NOT_SUBMITTED_ON_CHAIN, sv)
                  else
                    let v = verdict_of passed reasons;
                        sv0 = sv\<lparr>sv_db := rq_meanwhile e (sv_db sv)\<rparr>;
                        record = (\<lambda>sv. verdict_answer v
                          (record_settled e sv h (truthy (executorAddress s)) (c, tid, t) None v))
                    in (case settled_outcome t of
                          Some outcome \<Rightarrow>
                            if passed \<noteq> outcome then (Inl (AppError 409 ''ALREADY_SETTLED''), sv)
                            else record sv0
                        | None \<Rightarrow>
                            if oc_status t \<noteq> EsSubmitted then (Inl NOT_SUBMITTED_ON_CHAIN, sv)
                            else
                              let r = settle_on_chain e sv0 h passed None in
                              if \<not> sr_success (fst r) then (Inl (AppError 503 ''SETTLEMENT_FAILED''), snd r)
                              else record (snd r)))))"

definition not_settled :: "route_env \<Rightarrow> chain_key \<Rightarrow> string \<Rightarrow> app_error" where
  "not_settled e c tid =
     (case rq_verifierOn e c tid of
        None \<Rightarrow> LookupThrew
      | Some v \<Rightarrow>
          AppError 409 (if v = ZERO_ADDRESS then ''NO_ONCHAIN_VERIFIER'' else ''NOT_SETTLED_ON_CHAIN''))"

definition already_recorded :: "task_state option \<Rightarrow> judgement option" where
  "already_recorded s =
     (case s of
        None \<Rightarrow> None
      | Some s \<Rightarrow>
          if status s \<in> {Verified, Failed}
          then map_option (\<lambda>v. (status s, v, True)) (verificationResult s) else None)"

definition verdictTask ::
  "route_env \<Rightarrow> server \<Rightarrow> string \<Rightarrow> string \<Rightarrow> bool \<Rightarrow> json \<Rightarrow> (app_error + judgement) \<times> server" where
  "verdictTask e sv h addr passed reasons =
     (case getMeta (sv_db sv) h of
        None \<Rightarrow> (Inl NOT_FOUND, sv)
      | Some m \<Rightarrow>
          if verificationMode m \<noteq> AgentReview then (Inl (AppError 409 ''WRONG_MODE''), sv)
          else if map_option lower (truthy (verifierAddress m)) \<noteq> Some (lower addr)
          then (Inl (AppError 403 ''NOT_VERIFIER''), sv)
          else (case already_recorded (getState (sv_db sv) h) of
            Some j \<Rightarrow> (Inr j, sv)
          | None \<Rightarrow>
              (case getState (sv_db sv) h of
                 None \<Rightarrow> (Inl INVALID_STATE, sv)
               | Some s \<Rightarrow>
                   if status s \<notin> {AwaitingVerification, Submitted} then (Inl INVALID_STATE, sv)
                   else if map_option lower (truthy (executorAddress s)) = lower_opt (verifierAddress m)
                   then (Inl (AppError 409 ''SELF_VERIFICATION''), sv)
                   else (case indexed_task e (sv_db sv) h LookupThrew of
                     Inl x \<Rightarrow> (Inl x, sv)
                   | Inr (c, tid, t) \<Rightarrow>
                       (case settled_outcome t of
                          None \<Rightarrow> (Inl (not_settled e c tid), sv)
                        | Some outcome \<Rightarrow>
                            if round_pending s t then (Inl (AppError 409 ''STALE_VERDICT''), sv)
                            else if passed \<noteq> outcome then (Inl (AppError 409 ''VERDICT_MISMATCH''), sv)
                            else
                              let v = verdict_of passed reasons
                              in verdict_answer v
                                   (record_settled e (sv\<lparr>sv_db := rq_meanwhile e (sv_db sv)\<rparr>) h
                                      (truthy (executorAddress s)) (c, tid, t) None v))))))"

end
