(* ===== verification/LifecycleProps.thy ===== *)
theory LifecycleProps
  imports Lifecycle SettlementProps PayoutsProps TaskStoreSteps
begin

text \<open>
  What the handlers promise together: a verdict is recorded only on what the escrow settled for
  the recorded round, after its worker was credited; only the party entitled to it records it;
  a refused request leaves the task as it was; a settled pass can always be finished.
\<close>

section \<open>One verdict\<close>

lemma server_simps [simp]:
  "sv_db (tell h ev sv) = sv_db sv" "sv_pay (tell h ev sv) = sv_pay sv" "sv_sent (tell h ev sv) = sv_sent sv"
  "sv_gas (tell h ev sv) = sv_gas sv" "sv_db (consumePendingCost sv h) = sv_db sv"
  "sv_pay (consumePendingCost sv h) = sv_pay sv" "sv_sent (consumePendingCost sv h) = sv_sent sv"
  "sv_db (disputeSettledFail e sv h a p) = sv_db sv" "sv_sent (disputeSettledFail e sv h a p) = sv_sent sv"
  by (simp_all add: tell_def consumePendingCost_def disputeSettledFail_def)

lemma creditSettledPass_kept [simp]:
  "sv_db (snd (creditSettledPass e sv h a p sid)) = sv_db sv"
  "sv_sent (snd (creditSettledPass e sv h a p sid)) = sv_sent sv"
  by (simp_all add: creditSettledPass_def Let_def)

text \<open>The credit of a pass, as the payout makes it.\<close>

definition payout_of :: "route_env \<Rightarrow> server \<Rightarrow> string \<Rightarrow> string \<Rightarrow> settled \<Rightarrow> int option \<Rightarrow> bool \<times> pay_db" where
  "payout_of e sv h a p sid =
     recordWorkerPayout (w_cfg (rq_world e)) (sv_pay sv) (rq_now e) (rq_payout e) h a (fst (snd p))
       (oc_amount (snd (snd p))) (fst p, oc_token (snd (snd p)))
       \<lparr>op_rethrow = True, op_serviceId = sid, op_computeCost = Some (getPendingCost sv h)\<rparr>"

lemma creditSettledPass_payout:
  "fst (creditSettledPass e sv h a p sid) = Inr () \<longleftrightarrow> \<not> fst (payout_of e sv h a p sid)"
  "sv_pay (snd (creditSettledPass e sv h a p sid)) = snd (payout_of e sv h a p sid)"
  by (simp_all add: creditSettledPass_def payout_of_def Let_def)

text \<open>What a verdict leaves: the state written, a pass paid out first, a fail docked for its round.\<close>

definition outcome_recorded ::
  "route_env \<Rightarrow> server \<Rightarrow> string \<Rightarrow> string option \<Rightarrow> settled \<Rightarrow> int option \<Rightarrow> verification \<Rightarrow> server \<Rightarrow> bool" where
  "outcome_recorded e sv h ex p sid v sv' \<longleftrightarrow>
     (\<exists>u. updateState (sv_db sv) h [PStatus (verdict_status (vr_passed v)), PVerificationResult (Some v)] =
        Inr (u, sv_db sv')) \<and>
     sv_sent sv' = sv_sent sv \<and>
     (case ex of
        None \<Rightarrow> sv_pay sv' = sv_pay sv
      | Some a \<Rightarrow>
          if vr_passed v then \<not> fst (payout_of e sv h a p sid) \<and> sv_pay sv' = snd (payout_of e sv h a p sid)
          else sv_pay sv' = snd (recordWorkerDispute (w_cfg (rq_world e)) (sv_pay sv) (rq_now e) (rq_dispute e) h a
            \<lparr>fr_chain = fst p, fr_taskId = fst (snd p), fr_attempt = Attempt (oc_submissionAttempts (snd (snd p)))\<rparr>
            False))"

lemma record_settled_ok:
  assumes "record_settled e sv h ex p sid v = (Inr x, sv')"
  shows "outcome_recorded e sv h ex p sid v sv'"
proof (cases "vr_passed v \<and> (\<exists>a. ex = Some a)")
  case True
  then obtain a where a: "ex = Some a" "vr_passed v" by blast
  let ?c = "creditSettledPass e sv h a p sid"
  have c: "fst ?c = Inr ()" using assms a by (auto simp: record_settled_def Let_def split: sum.splits)
  with assms a show ?thesis
    using creditSettledPass_payout [of e sv h a p sid]
    by (auto simp: record_settled_def outcome_recorded_def Let_def split: sum.splits)
next
  case False
  with assms show ?thesis
    by (auto simp: record_settled_def outcome_recorded_def disputeSettledFail_def Let_def
        split: sum.splits option.splits if_splits)
qed

text \<open>A settlement of the outcome stands: the escrow shows it, or the bridge's call succeeded.\<close>

definition settled_by :: "route_env \<Rightarrow> server \<Rightarrow> string \<Rightarrow> onchain_task \<Rightarrow> bool \<Rightarrow> server \<Rightarrow> bool" where
  "settled_by e sv h t passed sv1 \<longleftrightarrow>
     settled_outcome t = Some passed \<and> sv1 = sv\<lparr>sv_db := rq_meanwhile e (sv_db sv)\<rparr> \<or>
     oc_status t = EsSubmitted \<and>
       (\<exists>att r. settle_on_chain e (sv\<lparr>sv_db := rq_meanwhile e (sv_db sv)\<rparr>) h passed att = (r, sv1) \<and> sr_success r)"

text \<open>The three handlers that record a verdict, with who called and the verdict that stands.\<close>

inductive verdict_recorded ::
  "route_env \<Rightarrow> server \<Rightarrow> string \<Rightarrow> string \<Rightarrow> status \<Rightarrow> verification \<Rightarrow> server \<Rightarrow> bool" for e sv h addr where
  by_rubric: "finalizeTask e sv h addr = (Inr (Judged st v again), sv') \<Longrightarrow> verdict_recorded e sv h addr st v sv'"
| by_poster: "verifyTask e sv h addr passed reasons = (Inr (st, v, again), sv') \<Longrightarrow>
    verdict_recorded e sv h addr st v sv'"
| by_verifier: "verdictTask e sv h addr passed reasons = (Inr (st, v, False), sv') \<Longrightarrow>
    verdict_recorded e sv h addr st v sv'"

inductive_cases verdict_recordedE: "verdict_recorded e sv h addr st v sv'"

text \<open>Who may record one, by the task's mode.\<close>

definition entitled :: "task_meta \<Rightarrow> task_state \<Rightarrow> string \<Rightarrow> bool" where
  "entitled m s addr \<longleftrightarrow>
     (case verificationMode m of
        Manual \<Rightarrow> lower_opt (posterAddress m) = Some (lower addr)
      | Auto \<Rightarrow> is_executor s addr
      | AgentReview \<Rightarrow> lower_opt (verifierAddress m) = Some (lower addr) \<and> \<not> is_executor s addr
      | Oracle \<Rightarrow> False)"

definition verdict_run ::
  "route_env \<Rightarrow> server \<Rightarrow> string \<Rightarrow> string \<Rightarrow> status \<Rightarrow> verification \<Rightarrow> server \<Rightarrow> bool" where
  "verdict_run e sv h addr st v sv' \<longleftrightarrow>
     (\<exists>m s c tid t err sv1 ex sid.
        getMeta (sv_db sv) h = Some m \<and> getState (sv_db sv) h = Some s \<and> entitled m s addr \<and>
        status s \<in> {Submitted, AwaitingVerification} \<and>
        indexed_task e (sv_db sv) h err = Inr (c, tid, t) \<and> \<not> round_pending s t \<and>
        settled_by e sv h t (vr_passed v) sv1 \<and> outcome_recorded e sv1 h ex (c, tid, t) sid v sv' \<and>
        st = verdict_status (vr_passed v) \<and> (ex = None \<longrightarrow> truthy (executorAddress s) = None) \<and>
        (\<forall>a. ex = Some a \<longrightarrow> is_executor s a))"

lemma judged_ok: "judged v again r = (Inr (Judged st v' again'), sv') \<Longrightarrow>
    \<exists>x. r = (Inr x, sv') \<and> st = verdict_status (vr_passed v) \<and> v' = v"
  by (cases r) (auto simp: judged_def split: sum.splits)

lemma recorded_ok: "verdict_answer v r = (Inr (st, v', again), sv') \<Longrightarrow>
    \<exists>x. r = (Inr x, sv') \<and> st = verdict_status (vr_passed v) \<and> v' = v \<and> \<not> again"
  by (cases r) (auto simp: verdict_answer_def split: sum.splits)

lemma finalize_auto_run:
  assumes run: "finalize_auto e sv h addr m s v0 = (Inr (Judged st v again), sv')"
  obtains c tid t sv1 where "indexed_task e (sv_db sv) h ON_CHAIN_CHECK_FAILED = Inr (c, tid, t)"
    "\<not> round_pending s t" "settled_by e sv h t (vr_passed v) sv1"
    "outcome_recorded e sv1 h (Some addr) (c, tid, t) (serviceId m) v sv'" "st = verdict_status (vr_passed v)"
proof -
  obtain c tid t where i: "indexed_task e (sv_db sv) h ON_CHAIN_CHECK_FAILED = Inr (c, tid, t)"
    using run by (auto simp: finalize_auto_def split: sum.splits prod.splits)
  have p: "\<not> round_pending s t" using run by (simp add: finalize_auto_def i split: if_splits)
  let ?sv0 = "sv\<lparr>sv_db := rq_meanwhile e (sv_db sv)\<rparr>"
  show thesis
  proof (cases "settled_outcome t")
    case (Some passed)
    let ?v = "if vr_passed v0 = passed then v0 else reconciled passed"
    have "judged ?v True (record_settled e ?sv0 h (Some addr) (c, tid, t) (serviceId m) ?v) =
        (Inr (Judged st v again), sv')"
      using run by (simp add: finalize_auto_def i p Some Let_def)
    from judged_ok [OF this] obtain x where
      r: "record_settled e ?sv0 h (Some addr) (c, tid, t) (serviceId m) v = (Inr x, sv')"
      and v: "st = verdict_status (vr_passed v)" "v = ?v" by auto
    have "vr_passed v = passed" unfolding v(2) by (simp add: reconciled_def)
    with Some have "settled_by e sv h t (vr_passed v) ?sv0" by (simp add: settled_by_def)
    from that [OF i p this record_settled_ok [OF r] v(1)] show thesis .
  next
    case None
    have sub: "oc_status t = EsSubmitted" using run by (simp add: finalize_auto_def i p None Let_def split: if_splits)
    let ?r = "settle_on_chain e ?sv0 h (vr_passed v0) (tee_of (teeAttestation s))"
    have ok: "sr_success (fst ?r)"
      using run by (simp add: finalize_auto_def i p None sub Let_def split: if_splits)
    have "judged v0 False (record_settled e (snd ?r) h (Some addr) (c, tid, t) (serviceId m) v0) =
        (Inr (Judged st v again), sv')"
      using run by (simp add: finalize_auto_def i p None sub ok Let_def)
    from judged_ok [OF this] obtain x where
      r: "record_settled e (snd ?r) h (Some addr) (c, tid, t) (serviceId m) v = (Inr x, sv')"
      and v: "st = verdict_status (vr_passed v)" "v = v0" by auto
    have "settled_by e sv h t (vr_passed v) (snd ?r)"
      using sub ok prod.collapse [of ?r] unfolding settled_by_def v(2) by (metis prod.collapse)
    from that [OF i p this record_settled_ok [OF r] v(1)] show thesis .
  qed
qed

lemma finalize_run:
  assumes run: "finalizeTask e sv h addr = (Inr (Judged st v again), sv')"
  shows "verdict_run e sv h addr st v sv'"
proof -
  obtain m s where ms: "getMeta (sv_db sv) h = Some m" "getState (sv_db sv) h = Some s"
      "is_executor s addr" "status s = Submitted"
    using run by (auto simp: finalizeTask_def split: option.splits if_splits)
  obtain v0 where a: "finalize_auto e sv h addr m s v0 = (Inr (Judged st v again), sv')" and auto: "verificationMode m = Auto"
    using run ms
    by (auto simp: finalizeTask_def park_for_verifier_def split: option.splits if_splits sum.splits prod.splits)
  show ?thesis
    by (rule finalize_auto_run [OF a]) (use ms auto in \<open>force simp: verdict_run_def entitled_def\<close>)
qed

lemma truthy_executor:
  "truthy (executorAddress s) = Some a \<Longrightarrow> is_executor s a"
  by (auto simp: is_executor_def truthy_Some_iff)

lemma verify_run:
  assumes run: "verifyTask e sv h addr passed reasons = (Inr (st, v, again), sv')"
  shows "verdict_run e sv h addr st v sv'"
proof -
  obtain m s where ms: "getMeta (sv_db sv) h = Some m" "getState (sv_db sv) h = Some s" "status s = Submitted"
      "map_option lower (truthy (posterAddress m)) = Some (lower addr)" "verificationMode m = Manual"
    using run by (auto simp: verifyTask_def split: option.splits if_splits)
  obtain c tid t where i: "indexed_task e (sv_db sv) h LookupThrew = Inr (c, tid, t)"
    using run ms by (auto simp: verifyTask_def split: sum.splits prod.splits)
  have p: "\<not> round_pending s t" using run ms by (simp add: verifyTask_def i split: if_splits)
  let ?sv0 = "sv\<lparr>sv_db := rq_meanwhile e (sv_db sv)\<rparr>" and ?v = "verdict_of passed reasons"
  let ?ex = "truthy (executorAddress s)"
  have "\<exists>sv1. settled_by e sv h t passed sv1 \<and>
      verdict_answer ?v (record_settled e sv1 h ?ex (c, tid, t) None ?v) = (Inr (st, v, again), sv')"
  proof (cases "settled_outcome t")
    case (Some outcome)
    with run ms i p show ?thesis
      by (auto simp: verifyTask_def settled_by_def Let_def split: if_splits)
  next
    case None
    have sub: "oc_status t = EsSubmitted" using run ms i p None by (simp add: verifyTask_def Let_def split: if_splits)
    let ?r = "settle_on_chain e ?sv0 h passed None"
    have ok: "sr_success (fst ?r)" using run ms i p None sub by (simp add: verifyTask_def Let_def split: if_splits)
    then have "settled_by e sv h t passed (snd ?r)"
      using sub unfolding settled_by_def by (metis prod.collapse)
    with run ms i p None sub ok show ?thesis by (auto simp: verifyTask_def Let_def)
  qed
  then obtain sv1 x where r: "settled_by e sv h t passed sv1"
      "record_settled e sv1 h ?ex (c, tid, t) None ?v = (Inr x, sv')" "st = verdict_status (vr_passed ?v)" "v = ?v"
    by (auto dest: recorded_ok)
  have "vr_passed ?v = passed" by (simp add: verdict_of_def)
  moreover have "entitled m s addr" using ms(4,5) by (auto simp: entitled_def truthy_Some_iff)
  ultimately show ?thesis
    using ms i p r record_settled_ok [OF r(2)] truthy_executor unfolding verdict_run_def
    by (intro exI [of _ m] exI [of _ s] exI [of _ c] exI [of _ tid] exI [of _ t] exI [of _ LookupThrew]
        exI [of _ sv1] exI [of _ ?ex] exI [of _ None]) simp
qed

lemma verdict_task_run:
  assumes run: "verdictTask e sv h addr passed reasons = (Inr (st, v, False), sv')"
  shows "verdict_run e sv h addr st v sv'"
proof -
  obtain m where m: "getMeta (sv_db sv) h = Some m" "verificationMode m = AgentReview"
      "map_option lower (truthy (verifierAddress m)) = Some (lower addr)"
    using run by (auto simp: verdictTask_def split: option.splits if_splits)
  have new: "already_recorded (getState (sv_db sv) h) = None"
    using run m by (auto simp: verdictTask_def already_recorded_def split: option.splits if_splits)
  obtain s where s: "getState (sv_db sv) h = Some s" "status s \<in> {AwaitingVerification, Submitted}"
      "map_option lower (truthy (executorAddress s)) \<noteq> lower_opt (verifierAddress m)"
    using run m new by (auto simp: verdictTask_def split: option.splits if_splits)
  obtain c tid t where i: "indexed_task e (sv_db sv) h LookupThrew = Inr (c, tid, t)"
    using run m new s by (auto simp: verdictTask_def split: sum.splits prod.splits)
  have o: "settled_outcome t = Some passed" "\<not> round_pending s t"
    using run m new s i by (auto simp: verdictTask_def split: option.splits if_splits)
  let ?v = "verdict_of passed reasons" and ?sv0 = "sv\<lparr>sv_db := rq_meanwhile e (sv_db sv)\<rparr>"
  let ?ex = "truthy (executorAddress s)"
  have "verdict_answer ?v (record_settled e ?sv0 h ?ex (c, tid, t) None ?v) = (Inr (st, v, False), sv')"
    using run m new s i o by (auto simp: verdictTask_def Let_def)
  from recorded_ok [OF this] obtain x where r:
      "record_settled e ?sv0 h ?ex (c, tid, t) None ?v = (Inr x, sv')" "st = verdict_status (vr_passed ?v)" "v = ?v"
    by auto
  have p: "vr_passed ?v = passed" by (simp add: verdict_of_def)
  have by_o: "settled_by e sv h t passed ?sv0" using o by (simp add: settled_by_def)
  have "\<not> is_executor s addr"
  proof
    assume "is_executor s addr"
    then obtain x where x: "executorAddress s = Some x" "lower x = lower addr" by (auto simp: is_executor_def)
    obtain w where w: "verifierAddress m = Some w" "w \<noteq> []" "lower w = lower addr"
      using m(3) by (auto simp: truthy_Some_iff)
    then have "x \<noteq> []" using x(2) by (metis lower_eq_Nil_iff)
    with x w s(3) show False by (simp add: truthy_Some_iff [THEN iffD2])
  qed
  then have "entitled m s addr" using m by (auto simp: entitled_def truthy_Some_iff)
  with p m s(1,2) i o r record_settled_ok [OF r(1)] truthy_executor by_o show ?thesis unfolding verdict_run_def
    by (intro exI [of _ m] exI [of _ s] exI [of _ c] exI [of _ tid] exI [of _ t] exI [of _ LookupThrew]
        exI [of _ ?sv0] exI [of _ ?ex] exI [of _ None]) auto
qed

lemma verdict_recorded_run: "verdict_recorded e sv h addr st v sv' \<Longrightarrow> verdict_run e sv h addr st v sv'"
  by (erule verdict_recordedE) (auto intro: finalize_run verify_run verdict_task_run)

section \<open>What a verdict stands on\<close>

lemma indexed_task_read:
  assumes "indexed_task e db h err = Inr (c, tid, t)"
  shows "\<exists>r. resolve (rq_world e) db h = Some (Some r) \<and> rt_chain r = c \<and> rt_taskId r = tid" "rq_read e 0 c tid = Inr t"
  using assms by (auto simp: indexed_task_def on_chain_id_def split: sum.splits option.splits if_splits)

lemma settle_on_chain_kept:
  assumes "settle_on_chain e sv h passed att = (r, sv1)"
  shows "sv_pay sv1 = sv_pay sv" "sv_costs sv1 = sv_costs sv" "sv_gas sv1 = sv_gas sv"
  using assms by (auto simp: settle_on_chain_def split: prod.splits)

text \<open>The escrow's own settlement, as the bridge saw it happen.\<close>

definition bridge_settled :: "bridge \<Rightarrow> a2a_db \<Rightarrow> string \<Rightarrow> bool \<Rightarrow> bool" where
  "bridge_settled b db h passed \<longleftrightarrow>
     (\<exists>res t. escrow_task_of b db h res t \<and>
        pays_executor b t (Option.bind (getState db h) executorAddress) \<and>
        ((\<exists>tx tee. br_complete b tee (rt_chain res) (rt_taskId res) passed = Inr tx \<and> br_wait b tx = Mined True) \<or>
         (\<exists>t'. br_after b (rt_chain res) (rt_taskId res) = Inr t' \<and>
            oc_status t' = (if passed then EsCompleted else EsVerified))))"

lemma settle_on_chain_settled:
  assumes "settle_on_chain e sv h passed att = (r, sv1)" "sr_success r"
  shows "bridge_settled (rq_bridge e) (sv_db sv) h passed"
proof -
  obtain calls tee db' where
    "settleVerification (rq_bridge e) (sv_tee sv) (sv_db sv) (rq_now e) h passed att = (r, calls, tee, db')"
    using assms(1) by (auto simp: settle_on_chain_def split: prod.splits)
  from settled_verdict [OF this] assms(2) show ?thesis unfolding bridge_settled_def by blast
qed

lemma settled_by_escrow:
  assumes "settled_by e sv h t passed sv1"
  shows "oc_status t = (if passed then EsCompleted else EsVerified) \<or>
    oc_status t = EsSubmitted \<and> bridge_settled (rq_bridge e) (rq_meanwhile e (sv_db sv)) h passed"
  using assms settle_on_chain_settled [of e "sv\<lparr>sv_db := rq_meanwhile e (sv_db sv)\<rparr>"]
  by (auto simp: settled_by_def settled_outcome_def split: if_splits)

text \<open>
  C1. A verdict stands on the escrow. Whoever records one, the rubric, the poster or the
  verifier, was the party the task's mode entitles, the verifier never being the executor; the
  escrow task the hash resolves to has seen the evidence of the round on record; and it showed
  that outcome, or showed the work as submitted and the bridge then settled that outcome for
  this task and its executor.
\<close>

theorem verdict_stands_on_the_escrow:
  assumes "verdict_recorded e sv h addr st v sv'"
  shows "\<exists>m s r t. getMeta (sv_db sv) h = Some m \<and> getState (sv_db sv) h = Some s \<and> entitled m s addr \<and>
    status s \<in> {Submitted, AwaitingVerification} \<and> st = (if vr_passed v then Verified else Failed) \<and>
    resolve (rq_world e) (sv_db sv) h = Some (Some r) \<and> rq_read e 0 (rt_chain r) (rt_taskId r) = Inr t \<and>
    (\<forall>n. submissionRound s = Some n \<longrightarrow> n \<le> oc_submissionAttempts t) \<and>
    (oc_status t = (if vr_passed v then EsCompleted else EsVerified) \<or>
     oc_status t = EsSubmitted \<and> bridge_settled (rq_bridge e) (rq_meanwhile e (sv_db sv)) h (vr_passed v))"
proof -
  obtain m s c tid t err sv1 where r: "getMeta (sv_db sv) h = Some m" "getState (sv_db sv) h = Some s" "entitled m s addr"
      "status s \<in> {Submitted, AwaitingVerification}" "indexed_task e (sv_db sv) h err = Inr (c, tid, t)"
      "\<not> round_pending s t" "settled_by e sv h t (vr_passed v) sv1" "st = verdict_status (vr_passed v)"
    using verdict_recorded_run [OF assms] unfolding verdict_run_def by blast
  obtain res where "resolve (rq_world e) (sv_db sv) h = Some (Some res)" "rt_chain res = c" "rt_taskId res = tid"
    using indexed_task_read(1) [OF r(5)] by blast
  with r indexed_task_read(2) [OF r(5)] settled_by_escrow [OF r(7)] show ?thesis
    by (intro exI [of _ m] exI [of _ s] exI [of _ res] exI [of _ t])
      (auto simp: round_pending_def verdict_status_def split: option.splits)
qed

lemma settled_by_pay:
  assumes "settled_by e sv h t passed sv1"
  shows "sv_pay sv1 = sv_pay sv" "payout_of e sv1 h a p sid = payout_of e sv h a p sid"
  using assms settle_on_chain_kept
  by (force simp: settled_by_def payout_of_def getPendingCost_def)+


section \<open>What a refused request leaves\<close>

text \<open>Nobody else writes while the request runs.\<close>

definition alone :: "route_env \<Rightarrow> bool" where
  "alone e \<longleftrightarrow> quiet (rq_bridge e) \<and> rq_meanwhile e = (\<lambda>db. db)"

definition kept :: "a2a_db \<Rightarrow> a2a_db \<Rightarrow> string \<Rightarrow> bool" where
  "kept db db' h \<longleftrightarrow> db' = db \<or> (\<exists>s s'. same_task db db' h s s')"

lemma kept_refl [simp]: "kept db db h"
  by (simp add: kept_def)

lemma getState_find: "getState db h = Some s \<Longrightarrow> \<exists>k. find_state db h = Some (k, s)"
  by (auto simp: getState_def)

lemma settle_on_chain_same:
  assumes "alone e" "getState (sv_db sv) h = Some s"
  shows "\<exists>s'. same_task (sv_db sv) (sv_db (snd (settle_on_chain e sv h passed att))) h s s'"
proof -
  obtain k where k: "find_state (sv_db sv) h = Some (k, s)" using getState_find [OF assms(2)] by blast
  from same_settleVerification [OF _ k, of "rq_bridge e" "sv_tee sv" "rq_now e" passed att] assms(1)
  show ?thesis by (auto simp: settle_on_chain_def alone_def split: prod.splits)
qed

lemma settle_on_chain_keeps: "alone e \<Longrightarrow> getState (sv_db sv) h = Some s \<Longrightarrow>
    kept (sv_db sv) (sv_db (snd (settle_on_chain e sv h passed att))) h"
  using settle_on_chain_same unfolding kept_def by blast

lemma update_found:
  assumes "find_state db h = Some (k, s)"
  obtains db' where "updateState db h ps = Inr ((apply_patch ps s)\<lparr>stateTaskId := k\<rparr>, db')"
  using assms by (auto simp: updateState_def Let_def)

lemma record_settled_refused:
  assumes run: "record_settled e sv h ex p sid v = (Inl x, sv')" and s: "find_state (sv_db sv) h = Some (k, s)"
  shows "sv_db sv' = sv_db sv \<and> vr_passed v \<and> x = AppError 503 ''CREDIT_FAILED'' \<and>
    (\<exists>a. ex = Some a \<and> payout_of e sv h a p sid = (True, sv_pay sv'))"
proof -
  obtain db' where u: "updateState (sv_db sv) h [PStatus (verdict_status (vr_passed v)), PVerificationResult (Some v)] =
      Inr ((apply_patch [PStatus (verdict_status (vr_passed v)), PVerificationResult (Some v)] s)\<lparr>stateTaskId := k\<rparr>, db')"
    by (rule update_found [OF s])
  show ?thesis
  proof (cases "vr_passed v \<and> (\<exists>a. ex = Some a)")
    case True
    then obtain a where a: "ex = Some a" "vr_passed v" by blast
    show ?thesis
    proof (cases "fst (payout_of e sv h a p sid)")
      case True
      with run a show ?thesis
        by (auto simp: record_settled_def creditSettledPass_def payout_of_def [symmetric] Let_def prod_eq_iff)
    next
      case False
      with run a u show ?thesis
        by (auto simp: record_settled_def creditSettledPass_def payout_of_def [symmetric] consumePendingCost_def Let_def
            split: if_splits)
    qed
  next
    case False
    with run u show ?thesis by (auto simp: record_settled_def Let_def split: if_splits option.splits)
  qed
qed

text \<open>The two ways a verdict may have reached the escrow and still be refused.\<close>

definition refused_late :: "route_env \<Rightarrow> server \<Rightarrow> string \<Rightarrow> app_error \<Rightarrow> server \<Rightarrow> bool" where
  "refused_late e sv h x sv' \<longleftrightarrow>
     x = AppError 503 ''SETTLEMENT_FAILED'' \<and> sv_pay sv' = sv_pay sv \<or>
     x = AppError 503 ''CREDIT_FAILED'' \<and>
       (\<exists>a p sid t err. indexed_task e (sv_db sv) h err = Inr p \<and> t = snd (snd p) \<and>
          payout_of e sv h a p sid = (True, sv_pay sv'))"

definition refused_clean :: "route_env \<Rightarrow> server \<Rightarrow> string \<Rightarrow> app_error \<Rightarrow> server \<Rightarrow> bool" where
  "refused_clean e sv h x sv' \<longleftrightarrow> sv' = sv \<or> kept (sv_db sv) (sv_db sv') h \<and> refused_late e sv h x sv'"

lemma record_after_settle_refused:
  assumes run: "record_settled e sv1 h ex (c, tid, t) sid v = (Inl x, sv')"
    and alone: "alone e" and s: "getState (sv_db sv) h = Some s"
    and i: "indexed_task e (sv_db sv) h err = Inr (c, tid, t)"
    and from_sv: "sv1 = sv \<or> (\<exists>att r. settle_on_chain e sv h passed att = (r, sv1))"
  shows "refused_clean e sv h x sv'"
proof -
  obtain k where k: "find_state (sv_db sv) h = Some (k, s)" using getState_find [OF s] by blast
  have kept: "kept (sv_db sv) (sv_db sv1) h \<and> (\<exists>k s. find_state (sv_db sv1) h = Some (k, s)) \<and>
      payout_of e sv1 h a (c, tid, t) sid = payout_of e sv h a (c, tid, t) sid" for a
    using from_sv
  proof
    assume "\<exists>att r. settle_on_chain e sv h passed att = (r, sv1)"
    then obtain att r where q: "settle_on_chain e sv h passed att = (r, sv1)" by blast
    obtain s' where "same_task (sv_db sv) (sv_db sv1) h s s'"
      using settle_on_chain_same [OF alone s, of passed att] q by auto
    with settle_on_chain_kept [OF q] show ?thesis
      unfolding kept_def payout_of_def getPendingCost_def by (metis same_task_found)
  qed (use k in auto)
  then obtain k' s' where "find_state (sv_db sv1) h = Some (k', s')" by blast
  from record_settled_refused [OF run this] kept i show ?thesis
    unfolding refused_clean_def refused_late_def by force
qed

lemma refused_clean_refl [simp]: "refused_clean e sv h x sv"
  by (simp add: refused_clean_def)

lemma refused_settlement:
  assumes "alone e" "getState (sv_db sv) h = Some s"
  shows "refused_clean e sv h (AppError 503 ''SETTLEMENT_FAILED'') (snd (settle_on_chain e sv h passed att))"
  using settle_on_chain_keeps [OF assms] settle_on_chain_kept(1) [of e sv h passed att]
  by (auto simp: refused_clean_def refused_late_def prod_eq_iff)

lemma alone_server: "alone e \<Longrightarrow> sv\<lparr>sv_db := rq_meanwhile e (sv_db sv)\<rparr> = sv"
  by (simp add: alone_def)

lemma judged_refused: "judged v again r = (Inl x, sv') \<Longrightarrow> r = (Inl x, sv')"
  by (cases r) (auto simp: judged_def split: sum.splits)

lemma recorded_refused: "verdict_answer v r = (Inl x, sv') \<Longrightarrow> r = (Inl x, sv')"
  by (cases r) (auto simp: verdict_answer_def split: sum.splits)

lemma finalize_auto_refused:
  assumes run: "finalize_auto e sv h addr m s v0 = (Inl x, sv')" and a: "alone e" "getState (sv_db sv) h = Some s"
  shows "refused_clean e sv h x sv'"
proof (cases "indexed_task e (sv_db sv) h ON_CHAIN_CHECK_FAILED")
  case (Inl y)
  with run show ?thesis by (simp add: finalize_auto_def)
next
  case (Inr p)
  obtain c tid t where p: "p = (c, tid, t)" by (cases p)
  note i = Inr [unfolded p]
  show ?thesis
  proof (cases "round_pending s t")
    case True
    with run i show ?thesis by (simp add: finalize_auto_def)
  next
    case np: False
    show ?thesis
    proof (cases "settled_outcome t")
      case (Some passed)
      with run i np alone_server [OF a(1), of sv]
      have "record_settled e sv h (Some addr) (c, tid, t) (serviceId m)
          (if vr_passed v0 = passed then v0 else reconciled passed) = (Inl x, sv')"
        by (auto simp: finalize_auto_def Let_def dest!: judged_refused)
      from record_after_settle_refused [OF this a i] show ?thesis by simp
    next
      case None
      let ?r = "settle_on_chain e sv h (vr_passed v0) (tee_of (teeAttestation s))"
      show ?thesis
      proof (cases "oc_status t = EsSubmitted \<and> sr_success (fst ?r)")
        case True
        with run i np None alone_server [OF a(1), of sv]
        have "record_settled e (snd ?r) h (Some addr) (c, tid, t) (serviceId m) v0 = (Inl x, sv')"
          by (auto simp: finalize_auto_def Let_def dest!: judged_refused)
        from record_after_settle_refused [OF this a i] show ?thesis by (metis prod.collapse)
      next
        case False
        with run i np None alone_server [OF a(1), of sv] refused_settlement [OF a, of "vr_passed v0"]
        show ?thesis by (auto simp: finalize_auto_def Let_def split: if_splits)
      qed
    qed
  qed
qed

lemma finalize_refused:
  assumes "finalizeTask e sv h addr = (Inl x, sv')" "alone e"
  shows "refused_clean e sv h x sv'"
proof (cases "\<exists>m s v0. getState (sv_db sv) h = Some s \<and> finalizeTask e sv h addr = finalize_auto e sv h addr m s v0")
  case True
  with finalize_auto_refused assms show ?thesis by metis
next
  case False
  with assms(1) have "sv' = sv"
    by (auto simp: finalizeTask_def park_for_verifier_def split: option.splits if_splits sum.splits prod.splits) metis
  then show ?thesis by simp
qed

lemma verify_refused:
  assumes run: "verifyTask e sv h addr passed reasons = (Inl x, sv')" and a: "alone e"
  shows "refused_clean e sv h x sv'"
proof (cases "\<exists>m s. getMeta (sv_db sv) h = Some m \<and> getState (sv_db sv) h = Some s \<and> status s = Submitted \<and>
    map_option lower (truthy (posterAddress m)) = Some (lower addr) \<and> verificationMode m = Manual")
  case False
  with run show ?thesis by (auto simp: verifyTask_def split: option.splits if_splits)
next
  case True
  then obtain m s where ms: "getMeta (sv_db sv) h = Some m" "getState (sv_db sv) h = Some s" "status s = Submitted"
      "map_option lower (truthy (posterAddress m)) = Some (lower addr)" "verificationMode m = Manual" by blast
  show ?thesis
  proof (cases "indexed_task e (sv_db sv) h LookupThrew")
    case (Inl y)
    with run ms show ?thesis by (simp add: verifyTask_def)
  next
    case (Inr p)
    obtain c tid t where p: "p = (c, tid, t)" by (cases p)
    note i = Inr [unfolded p]
    let ?v = "verdict_of passed reasons" and ?r = "settle_on_chain e sv h passed None"
    let ?ex = "truthy (executorAddress s)"
    consider "sv' = sv" | "record_settled e sv h ?ex (c, tid, t) None ?v = (Inl x, sv')"
      | "record_settled e (snd ?r) h ?ex (c, tid, t) None ?v = (Inl x, sv')"
      | "x = AppError 503 ''SETTLEMENT_FAILED''" "sv' = snd ?r"
      using run ms i alone_server [OF a, of sv]
      by (auto simp: verifyTask_def Let_def dest!: recorded_refused split: if_splits option.splits)
    then show ?thesis
    proof cases
      case 2
      from record_after_settle_refused [OF this a ms(2) i] show ?thesis by simp
    next
      case 3
      from record_after_settle_refused [OF this a ms(2) i] show ?thesis by (metis prod.collapse)
    next
      case 4
      then show ?thesis using refused_settlement [OF a ms(2)] by simp
    qed simp
  qed
qed

lemma verdict_task_refused:
  assumes run: "verdictTask e sv h addr passed reasons = (Inl x, sv')" and a: "alone e"
  shows "refused_clean e sv h x sv'"
proof (cases "\<exists>s c tid t. getState (sv_db sv) h = Some s \<and> indexed_task e (sv_db sv) h LookupThrew = Inr (c, tid, t) \<and>
    record_settled e sv h (truthy (executorAddress s)) (c, tid, t) None (verdict_of passed reasons) = (Inl x, sv')")
  case True
  then show ?thesis using record_after_settle_refused [OF _ a] by metis
next
  case False
  with run alone_server [OF a, of sv] have "sv' = sv"
    by (auto simp: verdictTask_def Let_def dest!: recorded_refused split: option.splits if_splits sum.splits prod.splits)
  then show ?thesis by simp
qed

inductive verdict_refused :: "route_env \<Rightarrow> server \<Rightarrow> string \<Rightarrow> string \<Rightarrow> app_error \<Rightarrow> server \<Rightarrow> bool"
  for e sv h addr where
  finalize_refuses: "finalizeTask e sv h addr = (Inl x, sv') \<Longrightarrow> verdict_refused e sv h addr x sv'"
| verify_refuses: "verifyTask e sv h addr passed reasons = (Inl x, sv') \<Longrightarrow> verdict_refused e sv h addr x sv'"
| verdict_refuses: "verdictTask e sv h addr passed reasons = (Inl x, sv') \<Longrightarrow> verdict_refused e sv h addr x sv'"

inductive_cases verdict_refusedE: "verdict_refused e sv h addr x sv'"

lemma verdict_refused_clean: "verdict_refused e sv h addr x sv' \<Longrightarrow> alone e \<Longrightarrow> refused_clean e sv h x sv'"
  by (erule verdict_refusedE) (auto intro: finalize_refused verify_refused verdict_task_refused)

text \<open>
  A refused verdict can be made again. When a handler that would record one answers with an
  error and nobody else wrote, either nothing changed, or the error says that the settlement or
  the credit failed: then the task's state is what it was but for the bridge's own transactions
  and errors, and the payout tables changed only if it was the credit that failed.
\<close>

theorem refused_verdict_leaves_the_task:
  assumes "verdict_refused e sv h addr x sv'" "alone e"
  shows "sv' = sv \<or>
    (sv_db sv' = sv_db sv \<or> (\<exists>s s'. same_task (sv_db sv) (sv_db sv') h s s')) \<and>
    (x = AppError 503 ''SETTLEMENT_FAILED'' \<and> sv_pay sv' = sv_pay sv \<or> x = AppError 503 ''CREDIT_FAILED'')"
  using verdict_refused_clean [OF assms] unfolding refused_clean_def refused_late_def kept_def by blast

section \<open>Finishing a settled pass\<close>

lemma updateState_getState:
  assumes "updateState db h ps = Inr (u, db')"
  shows "getState db' h = Some u"
proof -
  obtain k s where k: "find_state db h = Some (k, s)"
    using assms by (auto simp: updateState_def split: option.splits)
  then have u: "u = (apply_patch ps s)\<lparr>stateTaskId := k\<rparr>" "states db' = states (put_state db k u)"
    using assms by (auto simp: updateState_def put_state_def Let_def)
  show ?thesis
    using find_state_put [OF k, of u] find_state_cong [OF u(2)] by (simp add: getState_def)
qed

lemma same_task_getMeta:
  assumes "same_task db db' h s s'"
  shows "getMeta db' g = getMeta db g"
proof -
  have "metas db' = metas db" using assms by (simp add: same_task_def)
  then show ?thesis by (rule getMeta_cong)
qed

lemma kept_meta: "kept db db' h \<Longrightarrow> getMeta db' g = getMeta db g"
  using same_task_getMeta unfolding kept_def by blast

lemma kept_state:
  assumes "kept db db' h" "getState db h = Some s"
  shows "\<exists>s'. getState db' h = Some s' \<and> bridge_only s s'"
  using assms unfolding kept_def same_task_def getState_def by fastforce

text \<open>What makes a pass final at its next call: the escrow completed, the payout answering.\<close>

definition credit_ready :: "route_env \<Rightarrow> pay_db \<Rightarrow> string \<Rightarrow> string \<Rightarrow> chain_key \<Rightarrow> onchain_task \<Rightarrow> bool" where
  "credit_ready e pd h addr c t \<longleftrightarrow>
     payoutCurrency (w_cfg (rq_world e)) (chain_name c) (oc_token t) \<noteq> None \<and>
     kv_get (rq_now e) (pd_marker pd) (lower h) = None \<and> pd_credited pd (lower h) = None \<and>
     pd_executors pd (lower addr) \<noteq> None \<and> io_credit (rq_payout e) = Answers"

lemma credit_answers:
  assumes "credit_ready e (sv_pay sv) h a (fst p) (snd (snd p))"
  shows "\<not> fst (payout_of e sv h a p sid) \<and>
    pd_credited (snd (payout_of e sv h a p sid)) (lower h) = Some (chain_name (fst p), lower a)"
proof -
  obtain row where row: "pd_executors (sv_pay sv) (lower a) = Some row" using assms by (auto simp: credit_ready_def)
  note c = assms [unfolded credit_ready_def]
  have "\<not> fst (payout_of e sv h a p sid)"
    using c row unfolding payout_of_def
    by (auto simp: payout_past_marker take_marker_free(1) Let_def credit_transaction_def CLAIM_CREDIT_SQL_def
        split: credit_outcome.split)
  moreover have "\<exists>x. credit_applied (sv_pay sv) (snd (payout_of e sv h a p sid)) h (chain_name (fst p)) a TotalEarnedUsdc x"
    unfolding payout_of_def using answered_payout_credits [of _ "(fst p, oc_token (snd (snd p)))"] c row by simp
  ultimately show ?thesis by (auto simp: credit_applied_def)
qed

lemma record_settled_ready:
  assumes s: "getState (sv_db sv) h = Some s"
    and ready: "\<And>a. ex = Some a \<Longrightarrow> credit_ready e (sv_pay sv) h a (fst p) (snd (snd p))"
  obtains sv' where "record_settled e sv h ex p sid v = (Inr (), sv')"
proof (cases "record_settled e sv h ex p sid v")
  case (Pair x sv')
  obtain k where k: "find_state (sv_db sv) h = Some (k, s)" using getState_find [OF s] by blast
  have "x = Inr ()"
  proof (cases x)
    case (Inl y)
    from record_settled_refused [OF Pair [unfolded Inl] k] obtain a where
      "ex = Some a" "payout_of e sv h a p sid = (True, sv_pay sv')" by blast
    with credit_answers [OF ready, of a sid] show ?thesis by simp
  qed simp
  with Pair that show thesis by blast
qed

lemma finalize_completes:
  assumes a: "alone e" and m: "getMeta (sv_db sv) h = Some m" "verificationMode m = Auto" "verificationCriteria m = Some cr"
    and s: "getState (sv_db sv) h = Some s" "status s = Submitted" "is_executor s addr" "resultData s = Some data"
    and t: "indexed_task e (sv_db sv) h ON_CHAIN_CHECK_FAILED = Inr (c, tid, t)" "oc_status t = EsCompleted" "\<not> round_pending s t"
    and ready: "credit_ready e (sv_pay sv) h addr c t"
  shows "\<exists>v sv'. finalizeTask e sv h addr = (Inr (Judged Verified v True), sv') \<and> vr_passed v \<and>
    (\<exists>u. getState (sv_db sv') h = Some u \<and> status u = Verified) \<and>
    pd_credited (sv_pay sv') (lower h) = Some (chain_name c, lower addr)"
proof -
  let ?v0 = "rq_autoVerify e data cr"
  let ?v = "if vr_passed ?v0 = True then ?v0 else reconciled True"
  have v: "vr_passed ?v" by (simp add: reconciled_def)
  obtain k where k: "find_state (sv_db sv) h = Some (k, s)" using getState_find [OF s(1)] by blast
  note pay = credit_answers [of e sv h addr "(c, tid, t)" "serviceId m", simplified, OF ready]
  obtain sv' where r: "record_settled e sv h (Some addr) (c, tid, t) (serviceId m) ?v = (Inr (), sv')"
    by (rule record_settled_ready [OF s(1), of "Some addr" e "(c, tid, t)"]) (use ready in auto)
  have "settled_outcome t = Some True" using t(2) by (simp add: settled_outcome_def)
  then have "finalizeTask e sv h addr = judged ?v True (record_settled e sv h (Some addr) (c, tid, t) (serviceId m) ?v)"
    using m s t alone_server [OF a, of sv] by (simp add: finalizeTask_def finalize_auto_def Let_def)
  then have f: "finalizeTask e sv h addr = (Inr (Judged Verified ?v True), sv')"
    using r v by (simp add: judged_def verdict_status_def)
  have o: "outcome_recorded e sv h (Some addr) (c, tid, t) (serviceId m) ?v sv'" by (rule record_settled_ok [OF r])
  then obtain u where u: "updateState (sv_db sv) h [PStatus Verified, PVerificationResult (Some ?v)] = Inr (u, sv_db sv')"
    and p: "sv_pay sv' = snd (payout_of e sv h addr (c, tid, t) (serviceId m))"
    using v by (auto simp: outcome_recorded_def verdict_status_def)
  have "status u = Verified" using u k by (auto simp: updateState_def apply_patch_def Let_def)
  with f v updateState_getState [OF u] p pay show ?thesis by auto
qed


section \<open>The evidence\<close>

lemma submit_run:
  assumes "submitTask e sv h addr body = (Inr ev, sv')"
  obtains m s c tid attempts u where "getMeta (sv_db sv) h = Some m" "getState (sv_db sv) h = Some s" "is_executor s addr"
    "status s \<in> {Accepted, InProgress, Failed}" "submit_checks e (sv_db sv) h addr s = Inr (c, tid, attempts)"
    "build_evidence e addr c tid (sb_resultData body) = Some ev"
    "updateState (rq_meanwhile e (sv_db sv)) h (submit_patch e body attempts) = Inr (u, sv_db sv')"
proof -
  obtain m s where ms: "getMeta (sv_db sv) h = Some m" "getState (sv_db sv) h = Some s" "is_executor s addr"
      "status s \<in> {Accepted, InProgress, Failed}"
    using assms by (auto simp: submitTask_def split: option.splits if_splits)
  then obtain c tid attempts where c: "submit_checks e (sv_db sv) h addr s = Inr (c, tid, attempts)"
    using assms by (auto simp: submitTask_def split: sum.splits)
  have b: "build_evidence e addr c tid (sb_resultData body) = Some ev"
    using assms ms c by (auto simp: submitTask_def split: option.splits sum.splits)
  obtain u where "updateState (rq_meanwhile e (sv_db sv)) h (submit_patch e body attempts) = Inr (u, sv_db sv')"
    using assms ms c b by (auto simp: submitTask_def split: sum.splits)
  from that [OF ms c b this] show thesis .
qed

lemma submit_checks_id:
  assumes "submit_checks e db h addr s = Inr (c, tid, n)"
  shows "on_chain_id e db h LookupThrew = Inr (Some (c, tid))"
  using assms by (auto simp: submit_checks_def split: sum.splits option.splits if_splits)

lemma on_chain_id_cong:
  assumes "rq_bridge e' = rq_bridge e" "metas db' = metas db"
  shows "on_chain_id e' db' h err = on_chain_id e db h err"
  using resolve_cong [OF assms(2)] assms(1) by (simp add: on_chain_id_def rq_world_def)

lemma submit_patch_sel [simp]:
  "status (apply_patch (submit_patch e body n) s) = Submitted"
  "resultData (apply_patch (submit_patch e body n) s) = Some (sb_resultData body)"
  "submittedAt (apply_patch (submit_patch e body n) s) = Some (rq_now e)"
  "submissionRound (apply_patch (submit_patch e body n) s) = Some (n + 1)"
  "verificationResult (apply_patch (submit_patch e body n) s) = None"
  "executorAddress (apply_patch (submit_patch e body n) s) = executorAddress s"
  by (simp_all add: apply_patch_def submit_patch_def split: option.split)

lemma updateState_sel:
  assumes "updateState db h ps = Inr (u, db')" "getState db h = Some s"
  shows "\<exists>k. u = (apply_patch ps s)\<lparr>stateTaskId := k\<rparr>" "metas db' = metas db"
  using assms by (auto simp: updateState_def put_state_def getState_def Let_def)

text \<open>
  C31. A rebroadcast is the submission again. While the escrow has not seen the evidence,
  \<open>/rebroadcast\<close> answers what \<open>/submit\<close> answered: the same evidence hash, escrow task, chain and
  transaction to sign, from the result the state kept.
\<close>

theorem rebroadcast_is_the_submission:
  assumes sub: "submitTask e sv h addr body = (Inr ev, sv')" and "rq_meanwhile e = (\<lambda>db. db)"
    and again: "rebroadcastTask e' sv' h addr = Inr ev'"
    and same: "rq_bridge e' = rq_bridge e" "rq_evidenceHash e' = rq_evidenceHash e" "rq_buildSubmit e' = rq_buildSubmit e"
  shows "ev' = ev"
proof -
  obtain m s c tid n u where r: "getState (sv_db sv) h = Some s" "submit_checks e (sv_db sv) h addr s = Inr (c, tid, n)"
      "build_evidence e addr c tid (sb_resultData body) = Some ev"
      "updateState (sv_db sv) h (submit_patch e body n) = Inr (u, sv_db sv')"
    using submit_run [OF sub] assms(2) by (metis (no_types, lifting))
  have u: "resultData u = Some (sb_resultData body)" "getState (sv_db sv') h = Some u"
    using updateState_sel(1) [OF r(4,1)] updateState_getState [OF r(4)] by auto
  have id: "on_chain_id e' (sv_db sv') h LookupThrew = Inr (Some (c, tid))"
    using on_chain_id_cong [OF same(1) updateState_sel(2) [OF r(4,1)], of h LookupThrew] submit_checks_id [OF r(2)] by simp
  have "build_evidence e' addr c tid (sb_resultData body) = Some ev'"
    using again u id by (auto simp: rebroadcastTask_def indexed_task_def split: option.splits if_splits sum.splits)
  moreover have "build_evidence e' addr c tid (sb_resultData body) = build_evidence e addr c tid (sb_resultData body)"
    unfolding build_evidence_def same ..
  ultimately show ?thesis using r(3) by simp
qed

lemma released_state:
  assumes w: "fst (release_script db h x b) = Won ()"
  shows "\<exists>k. getState (snd (release_script db h x b)) h = Some (bare_state k Open)"
proof -
  obtain k s where k: "find_state db h = Some (k, s)" using w by (auto simp: release_script_def split: option.splits)
  then have "states (snd (release_script db h x b)) = states (put_state db k (bare_state k Open))"
    using w by (auto simp: release_script_def put_state_def split: if_splits)
  from find_state_cong [OF this, of h] find_state_put [OF k, of "bare_state k Open"] show ?thesis
    unfolding getState_def by (intro exI [of _ k]) simp
qed

text \<open>
  A submission overwrites a release it did not see. \<open>/submit\<close> decides from the state it read
  before it waited on the escrow and then writes without comparing. When the task was released in
  between, it is left submitted with nobody as its executor: it is not listed, and no caller can
  submit or finalize it.
\<close>

theorem submission_overwrites_a_release:
  assumes sub: "submitTask e sv h addr body = (Inr ev, sv')"
    and released: "rq_meanwhile e (sv_db sv) = snd (tryReleaseAccepted (sv_db sv) h x)"
      "fst (tryReleaseAccepted (sv_db sv) h x) = Inr (Won ())"
  shows "\<exists>u. getState (sv_db sv') h = Some u \<and> status u = Submitted \<and> executorAddress u = None \<and>
    (\<forall>e' a. fst (finalizeTask e' sv' h a) \<in> {Inl NOT_FOUND, Inl FORBIDDEN}) \<and>
    (\<forall>e' a body'. fst (submitTask e' sv' h a body') \<in> {Inl NOT_FOUND, Inl FORBIDDEN})"
proof -
  obtain n u where u: "updateState (rq_meanwhile e (sv_db sv)) h (submit_patch e body n) = Inr (u, sv_db sv')"
    using submit_run [OF sub] by metis
  have "\<exists>k. getState (rq_meanwhile e (sv_db sv)) h = Some (bare_state k Open)"
    using released released_state by (fastforce simp: tryReleaseAccepted_def Let_def split: option.splits)
  then obtain k where k: "getState (rq_meanwhile e (sv_db sv)) h = Some (bare_state k Open)" by blast
  have "status u = Submitted" "executorAddress u = None" "getState (sv_db sv') h = Some u"
    using updateState_sel(1) [OF u k] updateState_getState [OF u] by auto
  then show ?thesis
    by (intro exI [of _ u]) (auto simp: finalizeTask_def submitTask_def is_executor_def split: option.split)
qed


section \<open>A server to evaluate on\<close>

text \<open>One task of Arc, accepted by an agent that is registered for payouts.\<close>

definition life_meta :: task_meta where
  "life_meta = sample_meta\<lparr>taskId := ''0xh'', chain := Some ''arc'', chainId := Some 5042002\<rparr>"

definition held :: "status \<Rightarrow> task_state" where
  "held st = (bare_state ''0xh'' st)\<lparr>executorAddress := Some ''0xb'', resultData := Some (JObj []), submissionRound := Some 1\<rparr>"

definition life_server :: "task_meta \<Rightarrow> task_state \<Rightarrow> server" where
  "life_server m s =
     \<lparr>sv_db = empty_db\<lparr>metas := [''0xh'' \<mapsto> m], states := [''0xh'' \<mapsto> s]\<rparr>, sv_pay = one_agent, sv_costs = Map.empty,
      sv_tee = Map.empty, sv_gas = empty_gas_db, sv_bids = Map.empty, sv_sent = [], sv_told = [], sv_reopened = []\<rparr>"

definition life_env :: "onchain_task \<Rightarrow> route_env" where
  "life_env t =
     \<lparr>rq_bridge = arc_bridge, rq_now = 5, rq_read = (\<lambda>_ _ _. Inr t), rq_verifierOn = (\<lambda>_ _. None),
      rq_autoVerify = (\<lambda>_ _. reconciled True), rq_evidenceHash = (\<lambda>_. ''0xe''),
      rq_buildSubmit = (\<lambda>_ _ _ _. Some ''tx''), rq_payout = all_answer, rq_dispute = dispute_answers,
      rq_gasChain = None, rq_meanwhile = (\<lambda>db. db)\<rparr>"

definition completed_task :: onchain_task where
  "completed_task = the_task\<lparr>oc_status := EsCompleted\<rparr>"

lemma life_meta_sel [simp]:
  "chain life_meta = Some ''arc''" "chainId life_meta = Some 5042002" "verificationMode life_meta = Manual"
  "posterAddress life_meta = Some ''0xA''"
  by (simp_all add: life_meta_def sample_meta_def)

lemma held_sel [simp]:
  "status (held st) = st" "executorAddress (held st) = Some ''0xb''" "resultData (held st) = Some (JObj [])"
  "submissionRound (held st) = Some 1" "assignError (held st) = None"
  by (simp_all add: held_def bare_state_def)

lemma life_found [simp]:
  "getMeta (sv_db (life_server m s)) ''0xh'' = Some m" "getState (sv_db (life_server m s)) ''0xh'' = Some s"
  "find_state (sv_db (life_server m s)) ''0xh'' = Some (''0xh'', s)" "sv_pay (life_server m s) = one_agent"
  by (simp_all add: life_server_def getMeta_def find_meta_def getState_def find_state_def lower_h)

lemma life_env_sel [simp]:
  "rq_bridge (life_env t) = arc_bridge" "rq_read (life_env t) n c i = Inr t" "rq_payout (life_env t) = all_answer"
  "rq_meanwhile (life_env t) = (\<lambda>db. db)" "rq_now (life_env t) = 5" "w_cfg (rq_world (life_env t)) = testnet_config"
  by (simp_all add: life_env_def rq_world_def arc_bridge_def quiet_world_def)

lemma life_alone: "alone (life_env t)"
  by (simp add: alone_def arc_quiet)

lemma life_resolve:
  assumes "getMeta db ''0xh'' = Some m" "chain m = Some ''arc''" "chainId m = Some 5042002"
  shows "resolve (rq_world (life_env t)) db ''0xh'' = Some (Some \<lparr>rt_taskId = ''7'', rt_chain = Arc\<rparr>)"
proof -
  have "\<not> isZeroAddress ''0xE2''" by (auto simp: isZeroAddress_def dest: arg_cong [where f = length])
  with assms show ?thesis
    by (simp add: resolve_def life_env_def rq_world_def arc_bridge_def quiet_world_def arc_index_def
        resolveTaskByHash_def recordedChain_def indexesFor_def SEARCH_ORDER_def testnet_config_def build_arc_def
        addressOrNull_def onCurrentNetwork_def chain_key_of_def SETTLEMENT_CHAIN_KEYS_def Let_def)
qed

lemma life_indexed:
  assumes "getMeta db ''0xh'' = Some m" "chain m = Some ''arc''" "chainId m = Some 5042002"
  shows "on_chain_id (life_env t) db ''0xh'' err = Inr (Some (Arc, ''7''))"
    "indexed_task (life_env t) db ''0xh'' err = Inr (Arc, ''7'', t)"
  by (simp_all add: indexed_task_def on_chain_id_def life_resolve [OF assms])

lemma life_credit: "credit_ready (life_env t) one_agent ''0xh'' ''0xb'' Arc completed_task"
  using testnet_token
  by (simp add: credit_ready_def completed_task_def the_task_def one_agent_sel kv_get_def lower_h all_answer_def)

lemma life_verified:
  obtains v sv' where "verifyTask (life_env completed_task) (life_server life_meta (held Submitted)) ''0xh'' ''0xA'' True (JArr []) =
    (Inr (Verified, v, False), sv')" "vr_passed v"
proof -
  let ?e = "life_env completed_task" and ?sv = "life_server life_meta (held Submitted)"
  let ?v = "verdict_of True (JArr [])"
  obtain sv' where r: "record_settled ?e ?sv ''0xh'' (Some ''0xb'') (Arc, ''7'', completed_task) None ?v = (Inr (), sv')"
    by (rule record_settled_ready [of ?sv "''0xh''" "held Submitted" "Some ''0xb''" ?e "(Arc, ''7'', completed_task)"])
      (use life_credit in auto)
  have t: "settled_outcome completed_task = Some True" "\<not> round_pending (held Submitted) completed_task"
    by (simp_all add: settled_outcome_def round_pending_def completed_task_def the_task_def)
  have i: "indexed_task ?e (sv_db ?sv) ''0xh'' LookupThrew = Inr (Arc, ''7'', completed_task)"
    by (rule life_indexed [of _ life_meta]) simp_all
  have "verifyTask ?e ?sv ''0xh'' ''0xA'' True (JArr []) = (Inr (Verified, ?v, False), sv')"
    using r t i alone_server [OF life_alone, of completed_task ?sv]
    by (simp add: verifyTask_def verdict_answer_def verdict_status_def verdict_of_def Let_def)
  then show thesis by (rule that) (simp add: verdict_of_def)
qed

theorem verdict_stands_on_the_escrow_witness:
  "\<exists>r t. resolve (rq_world (life_env completed_task)) (sv_db (life_server life_meta (held Submitted))) ''0xh'' = Some (Some r) \<and>
     rq_read (life_env completed_task) 0 (rt_chain r) (rt_taskId r) = Inr t \<and> oc_status t = EsCompleted"
proof -
  obtain v sv' where v: "verifyTask (life_env completed_task) (life_server life_meta (held Submitted)) ''0xh'' ''0xA'' True (JArr []) =
    (Inr (Verified, v, False), sv')" "vr_passed v" by (rule life_verified)
  from verdict_stands_on_the_escrow [OF by_poster [OF v(1)]] v(2) show ?thesis
    by (auto simp: completed_task_def)
qed


theorem refused_verdict_leaves_the_task_witness:
  "\<exists>x sv'. verifyTask (life_env (completed_task\<lparr>oc_status := EsVerified\<rparr>)) (life_server life_meta (held Submitted)) ''0xh''
       ''0xA'' True (JArr []) = (Inl x, sv') \<and> sv_pay sv' = one_agent"
proof -
  let ?t = "completed_task\<lparr>oc_status := EsVerified\<rparr>"
  let ?e = "life_env ?t" and ?sv = "life_server life_meta (held Submitted)"
  have i: "indexed_task ?e (sv_db ?sv) ''0xh'' LookupThrew = Inr (Arc, ''7'', ?t)"
    by (rule life_indexed [of _ life_meta]) simp_all
  have "settled_outcome ?t = Some False" "\<not> round_pending (held Submitted) ?t"
    by (simp_all add: settled_outcome_def round_pending_def completed_task_def the_task_def)
  then have "verifyTask ?e ?sv ''0xh'' ''0xA'' True (JArr []) = (Inl (AppError 409 ''ALREADY_SETTLED''), ?sv)"
    by (simp add: verifyTask_def i Let_def)
  from refused_verdict_leaves_the_task [OF verify_refuses [OF this] life_alone] this show ?thesis by auto
qed

definition auto_meta :: task_meta where
  "auto_meta = life_meta\<lparr>verificationMode := Auto, verificationCriteria := Some sample_criteria\<rparr>"

lemma auto_meta_sel [simp]:
  "chain auto_meta = Some ''arc''" "chainId auto_meta = Some 5042002" "verificationMode auto_meta = Auto"
  "verificationCriteria auto_meta = Some sample_criteria"
  by (simp_all add: auto_meta_def)


definition done_body :: submission_body where
  "done_body = \<lparr>sb_resultData = JObj [(''text'', JStr ''done'')], sb_teeAttestation = None, sb_rootHash = None\<rparr>"

definition open_task :: onchain_task where
  "open_task = the_task\<lparr>oc_deadline := 9\<rparr>"

definition life_evidence :: evidence where
  "life_evidence = \<lparr>ev_onChainTaskId = ''7'', ev_chain = Arc, ev_hash = ''0xe'', ev_unsignedTx = Some ''tx''\<rparr>"

lemma life_submit:
  fixes mw
  defines "e \<equiv> (life_env open_task)\<lparr>rq_meanwhile := mw\<rparr>" and "sv \<equiv> life_server life_meta (held Accepted)"
  assumes found: "find_state (mw (sv_db sv)) ''0xh'' = Some (k, s)"
  obtains sv' where "submitTask e sv ''0xh'' ''0xb'' done_body = (Inr life_evidence, sv')"
    "updateState (mw (sv_db sv)) ''0xh'' (submit_patch e done_body 1) =
       Inr ((apply_patch (submit_patch e done_body 1) s)\<lparr>stateTaskId := k\<rparr>, sv_db sv')"
proof -
  have x: "is_executor (held Accepted) ''0xb''" by (simp add: is_executor_def)
  have "on_chain_id e (sv_db sv) ''0xh'' LookupThrew = Inr (Some (Arc, ''7''))"
    using life_indexed(1) [of "sv_db sv" life_meta open_task LookupThrew]
      on_chain_id_cong [of e "life_env open_task" "sv_db sv" "sv_db sv" "''0xh''" LookupThrew]
    by (simp add: e_def sv_def)
  then have c: "submit_checks e (sv_db sv) ''0xh'' ''0xb'' (held Accepted) = Inr (Arc, ''7'', 1)"
    by (simp add: submit_checks_def assigned_attempts_def is_recorded_worker_def e_def open_task_def the_task_def)
  have b: "build_evidence e ''0xb'' Arc ''7'' (sb_resultData done_body) = Some life_evidence"
    by (simp add: build_evidence_def e_def life_env_def arc_bridge_def life_evidence_def Let_def)
  obtain db' where u: "updateState (mw (sv_db sv)) ''0xh'' (submit_patch e done_body 1) =
      Inr ((apply_patch (submit_patch e done_body 1) s)\<lparr>stateTaskId := k\<rparr>, db')"
    by (rule update_found [OF found])
  have m: "rq_meanwhile e = mw" by (simp add: e_def)
  have "submitTask e sv ''0xh'' ''0xb'' done_body = (Inr life_evidence, tell ''0xh'' EvSubmitted (sv\<lparr>sv_db := db'\<rparr>))"
    using x c b u m by (simp add: submitTask_def sv_def)
  then show thesis by (rule that) (simp add: u)
qed

theorem rebroadcast_is_the_submission_witness:
  "\<exists>sv. submitTask (life_env open_task) (life_server life_meta (held Accepted)) ''0xh'' ''0xb'' done_body =
       (Inr life_evidence, sv) \<and> rebroadcastTask (life_env open_task) sv ''0xh'' ''0xb'' = Inr life_evidence"
proof -
  let ?e = "life_env open_task" and ?sv = "life_server life_meta (held Accepted)"
  obtain sv' where s: "submitTask (?e\<lparr>rq_meanwhile := \<lambda>db. db\<rparr>) ?sv ''0xh'' ''0xb'' done_body = (Inr life_evidence, sv')"
    "updateState (sv_db ?sv) ''0xh'' (submit_patch (?e\<lparr>rq_meanwhile := \<lambda>db. db\<rparr>) done_body 1) =
       Inr ((apply_patch (submit_patch (?e\<lparr>rq_meanwhile := \<lambda>db. db\<rparr>) done_body 1) (held Accepted))
         \<lparr>stateTaskId := ''0xh''\<rparr>, sv_db sv')"
    by (rule life_submit [where mw = "\<lambda>db. db" and k = "''0xh''" and s = "held Accepted"]) auto
  have e: "?e\<lparr>rq_meanwhile := \<lambda>db. db\<rparr> = ?e" by (simp add: life_env_def)
  note s = s [unfolded e]
  have g: "getMeta (sv_db sv') ''0xh'' = Some life_meta"
    using getMeta_cong [OF updateState_sel(2) [OF s(2) life_found(2)]] by simp
  have "indexed_task ?e (sv_db sv') ''0xh'' LookupThrew = Inr (Arc, ''7'', open_task)"
    by (rule life_indexed [OF g]) simp_all
  then obtain ev where "rebroadcastTask ?e sv' ''0xh'' ''0xb'' = Inr ev"
    using g updateState_getState [OF s(2)]
    by (auto simp: rebroadcastTask_def is_executor_def open_task_def the_task_def past_deadline_def
        is_recorded_worker_def build_evidence_def life_env_def arc_bridge_def done_body_def Let_def)
  with rebroadcast_is_the_submission [OF s(1) _ this] s show ?thesis by simp
qed

theorem submission_overwrites_a_release_witness:
  "\<exists>e sv u. submitTask e (life_server life_meta (held Accepted)) ''0xh'' ''0xb'' done_body = (Inr life_evidence, sv) \<and>
     getState (sv_db sv) ''0xh'' = Some u \<and> status u = Submitted \<and> executorAddress u = None"
proof -
  let ?sv = "life_server life_meta (held Accepted)"
  let ?x = "\<lparr>exp_executor = Some ''0xb'', exp_tx = None, exp_status = Some FromAccepted\<rparr>"
  let ?mw = "\<lambda>db. snd (tryReleaseAccepted db ''0xh'' ?x)"
  let ?e = "(life_env open_task)\<lparr>rq_meanwhile := ?mw\<rparr>"
  have u: "unchanged_since ?x (held Accepted)"
    by (simp add: unchanged_since_def expected_status_def) (simp add: held_def bare_state_def)
  have w: "fst (tryReleaseAccepted (sv_db ?sv) ''0xh'' ?x) = Inr (Won ())"
    using u by (simp add: tryReleaseAccepted_def release_script_def Let_def)
  then have "\<exists>k. getState (?mw (sv_db ?sv)) ''0xh'' = Some (bare_state k Open)"
    using released_state by (fastforce simp: tryReleaseAccepted_def Let_def split: option.splits)
  then obtain k s where "find_state (?mw (sv_db ?sv)) ''0xh'' = Some (k, s)" using getState_find by blast
  from life_submit [of ?mw, OF this] obtain sv' where
    s: "submitTask ?e ?sv ''0xh'' ''0xb'' done_body = (Inr life_evidence, sv')" by blast
  from submission_overwrites_a_release [OF s _ w] s show ?thesis by (auto simp: life_env_def)
qed

end
