(* ===== verification/LifecycleTypes.thy ===== *)
theory LifecycleTypes
  imports LifecycleProps
begin

text \<open>
  The shape of a task's state: which properties a status comes with. Every request that runs
  alone, and every script of the store, keeps it, together with the indexes.
\<close>

section \<open>The shape of a state\<close>

definition state_typed :: "task_state \<Rightarrow> bool" where
  "state_typed s \<longleftrightarrow>
     (case status s of
        Accepted \<Rightarrow> executorAddress s \<noteq> None
      | InProgress \<Rightarrow> executorAddress s \<noteq> None
      | Submitted \<Rightarrow> executorAddress s \<noteq> None \<and> resultData s \<noteq> None \<and> submittedAt s \<noteq> None \<and> submissionRound s \<noteq> None
      | AwaitingVerification \<Rightarrow>
          executorAddress s \<noteq> None \<and> resultData s \<noteq> None \<and> submittedAt s \<noteq> None \<and> submissionRound s \<noteq> None
      | Verified \<Rightarrow> (\<exists>v. verificationResult s = Some v \<and> vr_passed v)
      | Failed \<Rightarrow> failedReason s \<noteq> None \<or> (\<exists>v. verificationResult s = Some v \<and> \<not> vr_passed v)
      | _ \<Rightarrow> True)"

text \<open>A task many may answer has an executor only once its winner is paid.\<close>

definition fits_mode :: "task_meta \<Rightarrow> task_state \<Rightarrow> bool" where
  "fits_mode m s \<longleftrightarrow> (submissionMode m = Some OpenSubmission \<and> executorAddress s \<noteq> None \<longrightarrow> status s = Completed)"

definition store_typed :: "a2a_db \<Rightarrow> bool" where
  "store_typed db \<longleftrightarrow> index_ok db \<and>
     (\<forall>k s. states db k = Some s \<longrightarrow> state_typed s \<and> (\<forall>m. metas db k = Some m \<longrightarrow> fits_mode m s))"

lemma state_typed_bare [simp]: "st = Open \<or> st = Collecting \<Longrightarrow> state_typed (bare_state k st)"
  by (auto simp: state_typed_def)

lemma state_typed_key [simp]: "state_typed (s\<lparr>stateTaskId := k\<rparr>) = state_typed s"
  by (cases "status s") (simp_all add: state_typed_def)

lemma store_typed_empty: "store_typed empty_db"
  by (simp add: store_typed_def index_ok_empty) (simp add: empty_db_def)

lemma store_typed_put:
  assumes "store_typed db" "index_ok db'" "states db' = (states db)(k \<mapsto> u)" "metas db' = metas db"
    and "state_typed u" "\<And>m. metas db k = Some m \<Longrightarrow> fits_mode m u"
  shows "store_typed db'"
  using assms by (auto simp: store_typed_def)

lemma store_typed_find:
  assumes ok: "store_typed db" and s: "getState db h = Some s"
  obtains m where "states db (lower h) = Some s" "metas db (lower h) = Some m" "find_state db h = Some (lower h, s)"
    "state_typed s" "fits_mode m s" "mode_ok m s" "untaken_ok s" "lower (lower h) = lower h"
proof -
  have i: "index_ok db" using ok by (simp add: store_typed_def)
  have st: "states db (lower h) = Some s" "find_state db h = Some (lower h, s)"
    using s by (auto simp: getState_def index_ok_find [OF i])
  obtain m where "metas db (lower h) = Some m" "mode_ok m s" "untaken_ok s" "stateTaskId s = lower h"
    by (rule index_ok_state [OF i st(1)])
  with st ok that show thesis by (auto simp: store_typed_def)
qed

section \<open>The store's scripts\<close>

inductive store_call :: "a2a_db \<Rightarrow> a2a_db \<Rightarrow> bool" where
  posts: "states db (lower (taskId m)) = None \<Longrightarrow> store_call db (setMeta db m)"
| wraps: "store_call db (snd (mergeWrappedKeys db tid adds))"
| accepts: "executor \<noteq> [] \<Longrightarrow> store_call db (snd (tryAccept db tid executor atMs))"
| expires: "store_call db (snd (tryExpire db tid reason))"
| closes: "store_call db (snd (tryCloseOnChainTerminal db tid creason))"
| closes_open: "store_call db (snd (closeOpenSubmissionTask db tid outcome))"
| releases: "store_call db (snd (tryReleaseAccepted db tid e))"

inductive_cases store_callE: "store_call db db'"

lemma store_call_step: "store_call db db' \<Longrightarrow> a2a_step db db'"
  by (erule store_callE) (auto intro: a2a_step.intros)

lemma typed_cjson [simp]:
  "executorAddress (cjson_state s) = executorAddress s" "failedReason (cjson_state s) = failedReason s"
  by simp_all

text \<open>What a script writes: nothing, or one state of its own shape.\<close>

definition writes_one :: "a2a_db \<Rightarrow> a2a_db \<Rightarrow> bool" where
  "writes_one db db' \<longleftrightarrow> metas db' = metas db \<and>
     (states db' = states db \<or>
      (\<exists>k s u. states db k = Some s \<and> states db' = (states db)(k \<mapsto> u) \<and> state_typed u \<and>
         (\<forall>m. metas db k = Some m \<longrightarrow> mode_ok m s \<longrightarrow> fits_mode m s \<longrightarrow> fits_mode m u)))"

lemma store_typed_writes:
  assumes ok: "store_typed db" and w: "writes_one db db'" and i: "index_ok db'"
  shows "store_typed db'"
  using w unfolding writes_one_def
proof (elim conjE disjE exE)
  fix k s u assume m: "metas db' = metas db" and k: "states db k = Some s" "states db' = (states db)(k \<mapsto> u)" "state_typed u"
    and f: "\<forall>m. metas db k = Some m \<longrightarrow> mode_ok m s \<longrightarrow> fits_mode m s \<longrightarrow> fits_mode m u"
  have "index_ok db" using ok by (simp add: store_typed_def)
  from index_ok_state [OF this k(1)] obtain m where "metas db k = Some m" "mode_ok m s" by metis
  with f ok k(1) have "\<And>m. metas db k = Some m \<Longrightarrow> fits_mode m u" by (auto simp: store_typed_def)
  from store_typed_put [OF ok i k(2) m k(3) this] show ?thesis .
qed (use ok i in \<open>simp add: store_typed_def\<close>)

lemma writes_same: "metas db' = metas db \<Longrightarrow> states db' = states db \<Longrightarrow> writes_one db db'"
  by (simp add: writes_one_def)

lemma writes_put:
  assumes "states db k = Some s" "metas db' = metas db" "states db' = (states db)(k \<mapsto> u)" "state_typed u"
    and "\<And>m. mode_ok m s \<Longrightarrow> fits_mode m s \<Longrightarrow> fits_mode m u"
  shows "writes_one db db'"
  using assms unfolding writes_one_def by blast

lemma writes_accept:
  assumes "index_ok db"
  shows "writes_one db (snd (tryAccept db tid executor atMs))"
proof (cases "\<exists>s. states db (lower tid) = Some s \<and> status s = Open")
  case True
  then obtain s where s: "states db (lower tid) = Some s" "status s = Open" by blast
  show ?thesis
    by (rule writes_put [OF s(1), where u = "(cjson_state s)\<lparr>status := Accepted, executorAddress := Some executor,
        acceptedAt := Some atMs\<rparr>"])
      (use s in \<open>auto simp: snd_tryAccept accept_script_def index_ok_find [OF assms] put_state_def Let_def
        state_typed_def fits_mode_def mode_ok_def terminal_def\<close>)
next
  case False
  then show ?thesis
    by (intro writes_same)
      (auto simp: snd_tryAccept accept_script_def index_ok_find [OF assms] put_state_def Let_def split: option.split)
qed

lemma writes_expire:
  assumes "index_ok db"
  shows "writes_one db (snd (tryExpire db tid reason))"
proof (cases "\<exists>s. states db (lower tid) = Some s \<and> status s = Open")
  case True
  then obtain s where s: "states db (lower tid) = Some s" "status s = Open" by blast
  show ?thesis
    by (rule writes_put [OF s(1), where u = "(cjson_state s)\<lparr>status := Failed,
        failedReason := Some (expire_reason_text reason)\<rparr>"])
      (use s in \<open>auto simp: tryExpire_def index_ok_find [OF assms] put_state_def Let_def
        state_typed_def fits_mode_def mode_ok_def terminal_def\<close>)
next
  case False
  then show ?thesis
    by (intro writes_same)
      (auto simp: tryExpire_def index_ok_find [OF assms] put_state_def Let_def split: option.split)
qed

lemma writes_close:
  assumes "index_ok db"
  shows "writes_one db (snd (tryCloseOnChainTerminal db tid reason))"
proof (cases "\<exists>s. states db (lower tid) = Some s \<and> \<not> terminal (status s)")
  case True
  then obtain s where s: "states db (lower tid) = Some s" "\<not> terminal (status s)" by blast
  show ?thesis
    by (rule writes_put [OF s(1), where u = "(cjson_state s)\<lparr>status := Failed,
        failedReason := Some (close_reason_text reason)\<rparr>"])
      (use s in \<open>auto simp: tryCloseOnChainTerminal_def close_script_def index_ok_find [OF assms] put_state_def Let_def
        state_typed_def fits_mode_def mode_ok_def terminal_def\<close>)
next
  case False
  then show ?thesis
    by (intro writes_same)
      (auto simp: tryCloseOnChainTerminal_def close_script_def index_ok_find [OF assms] put_state_def Let_def
        split: option.split)
qed

lemma writes_close_open: "writes_one db (snd (closeOpenSubmissionTask db tid outcome))"
proof (cases "\<exists>s. states db (lower tid) = Some s \<and> status s = Collecting")
  case True
  then obtain s where s: "states db (lower tid) = Some s" "status s = Collecting" by blast
  let ?w = "case outcome of WinnerPaid w \<Rightarrow> lower w | Voided \<Rightarrow> []"
  show ?thesis
    by (rule writes_put [OF s(1), where u = "if ?w \<noteq> [] then (cjson_state s)\<lparr>status := Completed, executorAddress := Some ?w\<rparr>
        else (cjson_state s)\<lparr>status := Failed, failedReason := Some ''voided''\<rparr>"])
      (use s in \<open>auto simp: closeOpenSubmissionTask_def put_state_def Let_def state_typed_def fits_mode_def
        mode_ok_def terminal_def\<close>)
next
  case False
  then show ?thesis
    by (intro writes_same) (auto simp: closeOpenSubmissionTask_def put_state_def Let_def split: option.split)
qed

lemma writes_release:
  assumes "index_ok db"
  shows "writes_one db (snd (tryReleaseAccepted db tid e))"
proof (cases "\<exists>m s. getMeta db tid = Some m \<and> states db (lower tid) = Some s \<and> unchanged_since e s")
  case True
  then obtain m s where s: "getMeta db tid = Some m" "states db (lower tid) = Some s" "unchanged_since e s" by blast
  show ?thesis
    by (rule writes_put [OF s(2), where u = "bare_state (lower tid) Open"])
      (use s in \<open>auto simp: tryReleaseAccepted_def release_script_def index_ok_find [OF assms] put_state_def Let_def
        fits_mode_def\<close>)
next
  case False
  then show ?thesis
    by (intro writes_same)
      (auto simp: tryReleaseAccepted_def release_script_def index_ok_find [OF assms] put_state_def Let_def
        split: option.split)
qed

lemma typed_post:
  assumes "store_typed db" "states db (lower (taskId m)) = None" "index_ok (setMeta db m)"
  shows "store_typed (setMeta db m)"
proof -
  have i: "index_ok db" using assms(1) by (simp add: store_typed_def)
  have f: "states (setMeta db m) = (states db)(lower (taskId m) \<mapsto>
      bare_state (lower (taskId m)) (if submissionMode m = Some OpenSubmission then Collecting else Open))"
    "metas (setMeta db m) = (metas db)(lower (taskId m) \<mapsto> m\<lparr>taskId := lower (taskId m)\<rparr>)"
    using assms(2) by (simp_all add: setMeta_def index_ok_find [OF i] Let_def)
  show ?thesis using assms(1,3) unfolding store_typed_def f by (auto simp: fits_mode_def)
qed

lemma typed_wrap:
  assumes "store_typed db" "index_ok (snd (mergeWrappedKeys db tid adds))"
  shows "store_typed (snd (mergeWrappedKeys db tid adds))"
proof (cases "find_meta db tid")
  case None
  with assms show ?thesis by (simp add: mergeWrappedKeys_def)
next
  case (Some p)
  obtain k m where p: "p = (k, m)" by (cases p)
  have m: "metas db k = Some m" using Some p by (auto simp: find_meta_def split: option.splits if_splits)
  obtain w where f: "states (snd (mergeWrappedKeys db tid adds)) = states db"
    "metas (snd (mergeWrappedKeys db tid adds)) = (metas db)(k \<mapsto> m\<lparr>wrappedKeys := w\<rparr>)"
    using Some p by (auto simp: mergeWrappedKeys_def Let_def)
  show ?thesis using assms m unfolding store_typed_def f by (auto simp: fits_mode_def)
qed

lemma store_call_typed: "store_call db db' \<Longrightarrow> store_typed db \<Longrightarrow> store_typed db'"
proof -
  assume c: "store_call db db'" and t: "store_typed db"
  have i: "index_ok db" using t by (simp add: store_typed_def)
  have i': "index_ok db'" using a2a_step_index_ok [OF store_call_step [OF c] i] .
  from c show "store_typed db'"
    by cases (use t i i' in \<open>auto intro: typed_post typed_wrap store_typed_writes writes_accept writes_expire writes_close
      writes_close_open writes_release\<close>)
qed

section \<open>The requests\<close>

lemma state_typed_bridge:
  assumes "bridge_only s s'"
  shows "state_typed s' = state_typed s" "fits_mode m s' = fits_mode m s" "mode_ok m s' = mode_ok m s"
    "untaken_ok s' = untaken_ok s" "executor_of s' = executor_of s" "in_open_index m s' = in_open_index m s"
  unfolding state_typed_def fits_mode_def mode_ok_def untaken_ok_def executor_of_def in_open_index_def bridge_only_sel [OF assms]
  by (rule refl)+

lemma typed_same:
  assumes ok: "store_typed db" and same: "same_task db db' h s s'"
  shows "store_typed db'"
proof -
  have i: "index_ok db" using ok by (simp add: store_typed_def)
  obtain k where k: "find_state db h = Some (k, s)" "states db' = (states db)(k \<mapsto> s')" "stateTaskId s' \<in> {stateTaskId s, k}"
    using same by (auto simp: same_task_def)
  have b: "bridge_only s s'" "metas db' = metas db" "open_ix db' = open_ix db" "executor_ix db' = executor_ix db"
    using same by (auto simp: same_task_def)
  have s: "states db k = Some s" using find_state_key [OF k(1)] by simp
  obtain m where m: "metas db k = Some m" "mode_ok m s" "untaken_ok s" "stateTaskId s = k"
    by (rule index_ok_state [OF i s])
  note t = state_typed_bridge [OF b(1)]
  have i': "index_ok db'" using i s m k(3) t b(2-4) unfolding index_ok_def k(2) by auto
  show ?thesis
    by (rule store_typed_put [OF ok i' k(2) b(2)]) (use ok s t in \<open>auto simp: store_typed_def\<close>)
qed

lemma typed_kept: "store_typed db \<Longrightarrow> kept db db' h \<Longrightarrow> store_typed db'"
  using typed_same unfolding kept_def by blast

text \<open>A patch of a task somebody holds, to a status that is neither open nor collecting.\<close>

lemma typed_update:
  assumes ok: "store_typed db" and u: "updateState db h ps = Inr (u, db')" and s: "getState db h = Some s"
    and ex: "executorAddress s \<noteq> None" "executorAddress (apply_patch ps s) = executorAddress s" "status s \<noteq> Completed"
    and st: "status (apply_patch ps s) \<notin> {Open, Collecting}" "state_typed (apply_patch ps s)"
  shows "store_typed db'"
proof -
  have i: "index_ok db" using ok by (simp add: store_typed_def)
  obtain m where m: "states db (lower h) = Some s" "metas db (lower h) = Some m" "find_state db h = Some (lower h, s)"
      "state_typed s" "fits_mode m s" "mode_ok m s" "untaken_ok s"
    by (rule store_typed_find [OF ok s])
  have mode: "submissionMode m \<noteq> Some OpenSubmission" using m(5) ex by (auto simp: fits_mode_def)
  have "patch_allowed m' ps s'" if "metas db (lower h) = Some m'" "states db (lower h) = Some s'" for m' s'
    using that m mode st ex by (simp add: patch_allowed_def mode_ok_def untaken_ok_def Let_def)
  from index_ok_update [OF i u this] have i': "index_ok db'" .
  have f: "states db' = (states db)(lower h \<mapsto> u)" "metas db' = metas db" "u = (apply_patch ps s)\<lparr>stateTaskId := lower h\<rparr>"
    using u m(3) by (auto simp: updateState_def put_state_def Let_def)
  show ?thesis
    by (rule store_typed_put [OF ok i' f(1,2)]) (use m(2) mode st(2) in \<open>simp_all add: f(3) state_typed_key fits_mode_def\<close>)
qed

lemma typed_taken:
  assumes "store_typed db" "getState db h = Some s" "status s \<in> {Accepted, InProgress, Submitted, AwaitingVerification}"
  shows "executorAddress s \<noteq> None"
  by (rule store_typed_find [OF assms(1,2)]) (use assms(3) in \<open>auto simp: state_typed_def\<close>)

lemma typed_submit:
  assumes ok: "store_typed (sv_db sv)" and a: "alone e"
  shows "store_typed (sv_db (snd (submitTask e sv h addr body)))"
proof (cases "submitTask e sv h addr body")
  case (Pair r sv')
  show ?thesis
  proof (cases r)
    case (Inl x)
    with Pair a have "sv' = sv"
      by (auto simp: submitTask_def alone_def split: option.splits if_splits sum.splits prod.splits)
    with Pair ok show ?thesis by simp
  next
    case (Inr ev)
    obtain s n u where r: "getState (sv_db sv) h = Some s" "is_executor s addr" "status s \<in> {Accepted, InProgress, Failed}"
        "updateState (sv_db sv) h (submit_patch e body n) = Inr (u, sv_db sv')"
      using submit_run [OF Pair [unfolded Inr]] a by (metis alone_def)
    then show ?thesis
      using Pair by (auto intro!: typed_update [OF ok r(4,1)] simp: is_executor_def state_typed_def)
  qed
qed

lemma typed_verdict:
  assumes ok: "store_typed (sv_db sv)" and a: "alone e" and run: "verdict_run e sv h addr st v sv'"
  shows "store_typed (sv_db sv')"
proof -
  obtain m s c tid t sv1 ex sid where r: "getState (sv_db sv) h = Some s"
      "status s \<in> {Submitted, AwaitingVerification}" "settled_by e sv h t (vr_passed v) sv1"
      "outcome_recorded e sv1 h ex (c, tid, t) sid v sv'"
    using run unfolding verdict_run_def by blast
  have ex: "executorAddress s \<noteq> None" using typed_taken [OF ok r(1)] r(2) by blast
  have "\<exists>s1. getState (sv_db sv1) h = Some s1 \<and> bridge_only s s1 \<and> store_typed (sv_db sv1)"
  proof -
    have "sv1 = sv \<or> (\<exists>att r. settle_on_chain e sv h (vr_passed v) att = (r, sv1))"
      using r(3) alone_server [OF a, of sv] by (auto simp: settled_by_def)
    then have "kept (sv_db sv) (sv_db sv1) h" using settle_on_chain_keeps [OF a r(1)] by (auto simp: prod_eq_iff)
    with kept_state [OF this r(1)] typed_kept [OF ok this] show ?thesis by blast
  qed
  then obtain s1 where s1: "getState (sv_db sv1) h = Some s1" "bridge_only s s1" "store_typed (sv_db sv1)" by blast
  obtain u where u: "updateState (sv_db sv1) h [PStatus (verdict_status (vr_passed v)), PVerificationResult (Some v)] =
      Inr (u, sv_db sv')" using r(4) unfolding outcome_recorded_def by blast
  show ?thesis
    by (rule typed_update [OF s1(3) u s1(1)])
      (use bridge_only_sel [OF s1(2)] ex r(2) in \<open>auto simp: apply_patch_def verdict_status_def state_typed_def\<close>)
qed


lemma typed_finalize:
  assumes ok: "store_typed (sv_db sv)" and a: "alone e"
  shows "store_typed (sv_db (snd (finalizeTask e sv h addr)))"
proof (cases "finalizeTask e sv h addr")
  case (Pair r sv')
  show ?thesis
  proof (cases r)
    case (Inl x)
    from finalize_refused [OF Pair [unfolded Inl] a] have "kept (sv_db sv) (sv_db sv') h"
      by (auto simp: refused_clean_def)
    from typed_kept [OF ok this] Pair show ?thesis by simp
  next
    case (Inr f)
    show ?thesis
    proof (cases f)
      case (Judged st v again)
      from typed_verdict [OF ok a finalize_run [OF Pair [unfolded Inr Judged]]] Pair show ?thesis by simp
    next
      case AwaitsPoster
      with Pair Inr have "sv' = sv"
        by (auto simp: finalizeTask_def park_for_verifier_def finalize_auto_def judged_def Let_def
            split: option.splits if_splits sum.splits prod.splits)
      with Pair ok show ?thesis by simp
    next
      case (Parked w)
      obtain m s where s: "getState (sv_db sv) h = Some s" "status s = Submitted"
          "park_for_verifier e sv h m s = (Inr (Parked w), sv')"
        using Pair Inr Parked by (auto simp: finalizeTask_def finalize_auto_def judged_def Let_def
            split: option.splits if_splits sum.splits prod.splits)
      obtain u where u: "updateState (sv_db sv) h [PStatus AwaitingVerification] = Inr (u, sv_db sv')"
        using s(3) a by (auto simp: park_for_verifier_def alone_def split: option.splits if_splits sum.splits prod.splits)
      have t: "state_typed s" by (rule store_typed_find [OF ok s(1)])
      have "store_typed (sv_db sv')"
        by (rule typed_update [OF ok u s(1)]) (use s(2) t in \<open>auto simp: apply_patch_def state_typed_def\<close>)
      with Pair show ?thesis by simp
    qed
  qed
qed

lemma typed_verify:
  assumes ok: "store_typed (sv_db sv)" and a: "alone e"
  shows "store_typed (sv_db (snd (verifyTask e sv h addr passed reasons)))"
proof (cases "verifyTask e sv h addr passed reasons")
  case (Pair r sv')
  show ?thesis
  proof (cases r)
    case (Inl x)
    from verify_refused [OF Pair [unfolded Inl] a] have "kept (sv_db sv) (sv_db sv') h"
      by (auto simp: refused_clean_def)
    from typed_kept [OF ok this] Pair show ?thesis by simp
  next
    case (Inr f)
    obtain st v again where f: "f = (st, v, again)" by (cases f)
    from typed_verdict [OF ok a verify_run [OF Pair [unfolded Inr f]]] Pair show ?thesis by simp
  qed
qed

lemma verdict_repeated:
  assumes "verdictTask e sv h addr passed reasons = (Inr (st, v, True), sv')"
  shows "sv' = sv"
  using assms
  by (auto simp: verdictTask_def verdict_answer_def Let_def split: option.splits if_splits sum.splits prod.splits)

lemma typed_verdict_task:
  assumes ok: "store_typed (sv_db sv)" and a: "alone e"
  shows "store_typed (sv_db (snd (verdictTask e sv h addr passed reasons)))"
proof (cases "verdictTask e sv h addr passed reasons")
  case (Pair r sv')
  show ?thesis
  proof (cases r)
    case (Inl x)
    from verdict_task_refused [OF Pair [unfolded Inl] a] have "kept (sv_db sv) (sv_db sv') h"
      by (auto simp: refused_clean_def)
    from typed_kept [OF ok this] Pair show ?thesis by simp
  next
    case (Inr f)
    obtain st v again where f: "f = (st, v, again)" by (cases f)
    show ?thesis
    proof (cases again)
      case True
      then have "sv' = sv" using verdict_repeated [of e sv h addr passed reasons st v sv'] Pair Inr f by simp
      with Pair ok show ?thesis by simp
    next
      case False
      then have "verdictTask e sv h addr passed reasons = (Inr (st, v, False), sv')" using Pair Inr f by simp
      from typed_verdict [OF ok a verdict_task_run [OF this]] Pair show ?thesis by simp
    qed
  qed
qed

lemma reopen_db [simp]:
  "sv_db (markHandedBack e sv h a) = sv_db sv" "sv_db (releaseOnReopen e sv h a) = sv_db sv"
  "sv_db (snd (releaseAndAnnounce e sv h m x)) = snd (tryReleaseAccepted (sv_db sv) h x)"
  by (auto simp: markHandedBack_def releaseOnReopen_def releaseAndAnnounce_def Let_def
      split: option.split sum.split cas.split)

lemma release_db:
  assumes "alone e"
  shows "sv_db (snd (releaseTask e sv h addr)) = sv_db sv \<or>
    (\<exists>x. sv_db (snd (releaseTask e sv h addr)) = snd (tryReleaseAccepted (sv_db sv) h x))"
  using alone_server [OF assms, of sv]
  by (auto simp: releaseTask_def Let_def split: option.split sum.split cas.split bool.split)

lemma typed_release:
  assumes ok: "store_typed (sv_db sv)" and a: "alone e"
  shows "store_typed (sv_db (snd (releaseTask e sv h addr)))"
  using release_db [OF a, of sv h addr] ok store_call_typed [OF store_call.releases ok] by auto

lemma settle_threw_db: "settleAssignment b db now h e = (Inl x, calls, db') \<Longrightarrow> quiet b \<Longrightarrow> getState db h = Some s \<Longrightarrow>
    kept db db' h"
proof -
  assume run: "settleAssignment b db now h e = (Inl x, calls, db')" and q: "quiet b" and s: "getState db h = Some s"
  obtain k where k: "find_state db h = Some (k, s)" using getState_find [OF s] by blast
  show ?thesis
  proof (cases "waitForResolvedTask (br_world b) db h (br_polls b)")
    case None
    with run q show ?thesis by (auto simp: settleAssignment_def quiet_def Let_def split: if_splits)
  next
    case (Some found)
    then have "\<exists>res :: resolved_task. send_assignment b db now h e (rt_chain res) (rt_taskId res) = (Inl x, calls, db')"
      using run q
      by (auto simp: settleAssignment_def quiet_def Let_def split: option.splits if_splits escrow_read.splits)
    then obtain res :: resolved_task where r: "send_assignment b db now h e (rt_chain res) (rt_taskId res) = (Inl x, calls, db')" ..
    show ?thesis
    proof (cases rule: send_assignment_cases [of b db now h e "rt_chain res" "rt_taskId res"])
      case (sent tx)
      obtain y db1 where "after_broadcast b db now (rt_taskId res) (resolveAssignee b e (rt_chain res)) h (rt_chain res) e tx =
          (Inr y, db1)" by (rule bookkept_broadcast [OF q k])
      with sent(2) r show ?thesis by (simp add: Let_def)
    qed (use r in \<open>simp add: Let_def\<close>)
  qed
qed

lemma typed_settle:
  assumes ok: "store_typed db" and q: "quiet b" and s: "getState db h = Some s"
    and run: "settleAssignment b db now h executor = (r, calls, db')"
  shows "store_typed db'"
proof (cases r)
  case (Inl x)
  from typed_kept [OF ok settle_threw_db [OF run [unfolded Inl] q s]] show ?thesis .
next
  case (Inr y)
  obtain k where k: "find_state db h = Some (k, s)" using getState_find [OF s] by blast
  from bookkept_settle [OF q k run [unfolded Inr]] obtain s' where "same_task db db' h s s'"
    by (auto simp: bookkept_def)
  from typed_same [OF ok this] show ?thesis .
qed

section \<open>Serving\<close>

text \<open>
  The server's steps, one at a time: a script of the store, a request of the life cycle, or the
  bridge's assignment of a task the store has.
\<close>

inductive serve :: "server \<Rightarrow> server \<Rightarrow> bool" where
  store: "store_call (sv_db sv) db' \<Longrightarrow> serve sv (sv\<lparr>sv_db := db'\<rparr>)"
| assigns: "quiet b \<Longrightarrow> getState (sv_db sv) h = Some s \<Longrightarrow>
    settleAssignment b (sv_db sv) now h executor = (r, calls, db') \<Longrightarrow>
    serve sv (sv\<lparr>sv_db := db', sv_sent := sv_sent sv @ calls\<rparr>)"
| submits: "alone e \<Longrightarrow> serve sv (snd (submitTask e sv h addr body))"
| gives_back: "alone e \<Longrightarrow> serve sv (snd (releaseTask e sv h addr))"
| finalizes: "alone e \<Longrightarrow> serve sv (snd (finalizeTask e sv h addr))"
| poster_judges: "alone e \<Longrightarrow> serve sv (snd (verifyTask e sv h addr passed reasons))"
| verifier_judges: "alone e \<Longrightarrow> serve sv (snd (verdictTask e sv h addr passed reasons))"

inductive_cases serveE: "serve sv sv'"

lemma serve_typed: "serve sv sv' \<Longrightarrow> store_typed (sv_db sv) \<Longrightarrow> store_typed (sv_db sv')"
  by (erule serveE)
    (auto intro: store_call_typed typed_settle typed_submit typed_release typed_finalize typed_verify typed_verdict_task)

definition empty_server :: server where
  "empty_server =
     \<lparr>sv_db = empty_db, sv_pay = empty_pay_db, sv_costs = Map.empty, sv_tee = Map.empty, sv_gas = empty_gas_db, sv_bids = Map.empty,
      sv_sent = [], sv_told = [], sv_reopened = []\<rparr>"

lemma served_typed: "serve\<^sup>*\<^sup>* empty_server sv \<Longrightarrow> store_typed (sv_db sv)"
  by (induction rule: rtranclp_induct) (auto simp: empty_server_def store_typed_empty intro: serve_typed)

text \<open>
  C17. A task's state has the shape of its status. However many scripts of the store, requests
  of the life cycle and assignments are served from an empty server, one at a time, a task that
  is accepted, in progress, submitted or awaiting its verifier names its executor, a submitted
  one holds its result, time and round, a verified one a passing verdict, a failed one a reason
  or a failing verdict, an open or collecting one no executor, and a task many may answer has an
  executor only when completed; and the indexes mirror the states.
\<close>

theorem served_states_keep_their_type:
  assumes "serve\<^sup>*\<^sup>* empty_server sv"
  shows "index_ok (sv_db sv) \<and> (\<forall>k s. states (sv_db sv) k = Some s \<longrightarrow> state_typed s \<and> untaken_ok s \<and>
    (\<exists>m. metas (sv_db sv) k = Some m \<and> fits_mode m s))"
proof -
  have t: "store_typed (sv_db sv)" by (rule served_typed [OF assms])
  then have i: "index_ok (sv_db sv)" by (simp add: store_typed_def)
  show ?thesis using t i index_ok_state [OF i] unfolding store_typed_def by metis
qed

theorem served_states_keep_their_type_witness:
  "\<exists>sv s. serve\<^sup>*\<^sup>* empty_server sv \<and> states (sv_db sv) ''t1'' = Some s \<and> status s = Accepted \<and> executorAddress s \<noteq> None"
proof -
  let ?sv1 = "empty_server\<lparr>sv_db := posted_db\<rparr>" and ?sv2 = "empty_server\<lparr>sv_db := accepted_db\<rparr>"
  have "serve empty_server ?sv1"
    using serve.store [OF store_call.posts [of "sv_db empty_server" sample_meta]]
    by (simp add: posted_db_def empty_server_def) (simp add: empty_db_def)
  moreover have "serve ?sv1 ?sv2"
    using serve.store [OF store_call.accepts [of "''0xB''" "sv_db ?sv1" "''T1''" 5]] by (simp add: accepted_db_def)
  ultimately have r: "serve\<^sup>*\<^sup>* empty_server ?sv2" by (meson r_into_rtranclp rtranclp_trans)
  obtain s where s: "states accepted_db ''t1'' = Some s" "status s = Accepted"
    using accepted_db_find by (auto simp: find_state_def lower_eval split: option.splits if_splits)
  with served_states_keep_their_type [OF r] have "state_typed s" by auto
  with s r show ?thesis by (intro exI [of _ ?sv2] exI [of _ s]) (simp add: state_typed_def)
qed

end
