(* ===== verification/Eligibility.thy ===== *)
theory Eligibility
  imports TaskChain Matching GasSponsor
begin

text \<open>
  Who and what may have gas sponsored: \<open>services/gasSponsorEligibility.ts\<close>, the checks of
  \<open>services/gasSponsorConfig.ts\<close> that decide whether sponsorship may act, and the reservation
  \<open>/accept\<close> makes (\<open>services/gasSponsorAccept.ts\<close>). The wallet of a key, the node's answers, the
  escrow's reads are parameters; \<open>None\<close> is a call that throws.
  The settings are the record the configuration is built into; its parsing is left out.
\<close>

section \<open>Settings\<close>

definition RESERVATION_TTL_SECONDS :: int where "RESERVATION_TTL_SECONDS = 3600"
definition MAX_SETUP_ATTEMPTS :: nat where "MAX_SETUP_ATTEMPTS = 2"

record sponsor_settings =
  ss_chain :: chain_cfg
  ss_chainId :: int
  ss_escrow :: string
  ss_delegate :: string
  ss_sponsor :: string
  ss_minTaskRaw :: int
  ss_caps :: sponsor_caps
  ss_maxGas :: int
  ss_maxFeeWei :: int
  ss_maxFailuresPerHour :: nat
  ss_stuckMs :: int

text \<open>The escrow's roles, each read once, and the escrow the delegate names.\<close>

datatype sponsor_role = RoleVerifier | RoleTreasury | RoleAdmin

datatype role_problem = NoEscrowContract | BoundElsewhere string | Unreadable | IsRole sponsor_role

type_synonym role_memo = "(string \<times> string \<times> string) \<times> role_problem option"

record sponsor_io =
  so_settings :: "string + sponsor_settings"
  so_drain :: "string + sponsor_settings"
  so_enabled :: bool
  so_escrowContract :: bool
  so_boundEscrow :: "string option"
  so_role :: "sponsor_role \<Rightarrow> string option"
  so_writesAllowed :: bool
  so_writer :: bool
  so_hosted :: "deployed_agent list option"
  so_walletOf :: "string \<Rightarrow> string option"
  so_delegated :: "string \<Rightarrow> bool"
  so_maxFeePerGas :: "int option"
  so_gasPrice :: "int option"
  so_balance :: "string \<Rightarrow> int option"
  so_verifierOn :: "string \<Rightarrow> string option"
  so_getTask :: "string \<Rightarrow> onchain_task option"

fun first_role :: "sponsor_io \<Rightarrow> string \<Rightarrow> sponsor_role list \<Rightarrow> role_problem option" where
  "first_role io sponsor [] = None"
| "first_role io sponsor (r # rs) =
     (case so_role io r of
        None \<Rightarrow> Some Unreadable
      | Some a \<Rightarrow> if lower a = sponsor then Some (IsRole r) else first_role io sponsor rs)"

definition role_key :: "sponsor_settings \<Rightarrow> string \<times> string \<times> string" where
  "role_key s = (lower (ss_sponsor s), lower (ss_delegate s), lower (ss_escrow s))"

text \<open>The problem, if any, and what the process remembers: an unreadable value is asked again.\<close>

definition checkSponsorRoles ::
  "sponsor_io \<Rightarrow> role_memo option \<Rightarrow> sponsor_settings \<Rightarrow> role_problem option \<times> role_memo option" where
  "checkSponsorRoles io memo s =
     (let key = role_key s in
      if map_option fst memo = Some key then (snd (the memo), memo)
      else if \<not> so_escrowContract io then (Some NoEscrowContract, memo)
      else (case so_boundEscrow io of
        None \<Rightarrow> (Some Unreadable, memo)
      | Some bound \<Rightarrow>
          if lower bound \<noteq> lower (ss_escrow s)
          then (Some (BoundElsewhere bound), Some (key, Some (BoundElsewhere bound)))
          else (case first_role io (lower (ss_sponsor s)) [RoleVerifier, RoleTreasury, RoleAdmin] of
            Some Unreadable \<Rightarrow> (Some Unreadable, memo)
          | p \<Rightarrow> (p, Some (key, p)))))"

datatype not_runnable = Off string | RoleClash role_problem | OtherDeployment

definition may_run ::
  "sponsor_io \<Rightarrow> role_memo option \<Rightarrow> sponsor_settings \<Rightarrow> (not_runnable + sponsor_settings) \<times> role_memo option" where
  "may_run io memo s =
     (let r = checkSponsorRoles io memo s in
      (case fst r of
         Some p \<Rightarrow> Inl (RoleClash p)
       | None \<Rightarrow> if \<not> so_writesAllowed io then Inl OtherDeployment else Inr s, snd r))"

definition runnableSettings ::
  "sponsor_io \<Rightarrow> role_memo option \<Rightarrow> (not_runnable + sponsor_settings) \<times> role_memo option" where
  "runnableSettings io memo =
     (case so_settings io of Inl reason \<Rightarrow> (Inl (Off reason), memo) | Inr s \<Rightarrow> may_run io memo s)"

text \<open>\<open>True\<close>: sponsorship is on; \<open>False\<close>: draining, nothing new is signed.\<close>

definition drainableSettings ::
  "sponsor_io \<Rightarrow> role_memo option \<Rightarrow> (not_runnable + bool \<times> sponsor_settings) \<times> role_memo option" where
  "drainableSettings io memo =
     (let tag = (\<lambda>on r. (map_sum id (Pair on) (fst r), snd r)) in
      if so_enabled io then tag True (runnableSettings io memo)
      else (case so_drain io of Inl reason \<Rightarrow> (Inl (Off reason), memo) | Inr s \<Rightarrow> tag False (may_run io memo s)))"

section \<open>Eligibility\<close>

datatype agent_ineligible = NotHosted | KeyMismatch | NoPrivyUser | KeyExported | Strikes | SetupLimit
datatype task_ineligible = WrongToken | BelowMinimum | VerifierNotReady

definition with_0x :: "string \<Rightarrow> string" where
  "with_0x k = (if take 2 k = ''0x'' then k else ''0x'' @ k)"

definition keyDerivesWallet :: "sponsor_io \<Rightarrow> deployed_agent \<Rightarrow> bool" where
  "keyDerivesWallet io a =
     (case truthy (da_rawPrivateKey a) of
        None \<Rightarrow> False
      | Some k \<Rightarrow> map_option lower (so_walletOf io (with_0x k)) = Some (lower (da_wallet a)))"

definition agentEligibility ::
  "sponsor_io \<Rightarrow> gas_db \<Rightarrow> int \<Rightarrow> sponsor_settings \<Rightarrow> deployed_agent option \<Rightarrow> agent_ineligible + string" where
  "agentEligibility io db now s agent =
     (case agent of
        None \<Rightarrow> Inl NotHosted
      | Some a \<Rightarrow>
          if \<not> keyDerivesWallet io a then Inl KeyMismatch
          else (case truthy (da_privyUserId a) of
            None \<Rightarrow> Inl NoPrivyUser
          | Some owner \<Rightarrow>
              if walletKeyExported db (da_wallet a) then Inl KeyExported
              else
                let strikes = strikeCounts db now (ss_chainId s) (da_wallet a) (Some owner) in
                if maxStrikes (ss_caps s) \<le> fst strikes \<or> maxStrikes (ss_caps s) \<le> snd strikes then Inl Strikes
                else if MAX_SETUP_ATTEMPTS \<le> setupAttempts db (ss_chainId s) (da_wallet a) \<and>
                  \<not> so_delegated io (da_wallet a)
                then Inl SetupLimit
                else Inr owner))"

text \<open>\<open>fee?.maxFeePerGas ?? fee?.gasPrice\<close>; zero is falsy.\<close>

definition gateWei :: "sponsor_io \<Rightarrow> sponsor_settings \<Rightarrow> int option" where
  "gateWei io s =
     (let perGas = (case so_maxFeePerGas io of None \<Rightarrow> so_gasPrice io | p \<Rightarrow> p)
      in case perGas of
           None \<Rightarrow> None
         | Some p \<Rightarrow> if p = 0 then None else Some (workerTxGasLimit (cc_gas (ss_chain s)) * p))"

definition verifierCanRule :: "sponsor_io \<Rightarrow> sponsor_settings \<Rightarrow> deployed_agent list \<Rightarrow> string \<Rightarrow> bool" where
  "verifierCanRule io s ds verifier =
     (case hosted_by ds verifier of
        None \<Rightarrow> False
      | Some d \<Rightarrow>
          da_verifierEnabled d = Some True \<and> da_running d \<and>
          (case (gateWei io s, so_balance io verifier) of
             (Some gate, Some balance) \<Rightarrow> gate \<le> balance | _ \<Rightarrow> False))"

text \<open>\<open>/^0x0{40}$/i\<close>.\<close>

definition is_zero_address :: "string \<Rightarrow> bool" where
  "is_zero_address a \<longleftrightarrow> lower a = ''0x'' @ replicate 40 CHR ''0''"

text \<open>\<open>None\<close>: the escrow's verifier could not be read, or the hosted agents could not.\<close>

definition taskEligibility ::
  "sponsor_io \<Rightarrow> sponsor_settings \<Rightarrow> string \<Rightarrow> onchain_task \<Rightarrow> bool \<Rightarrow> (task_ineligible option) option" where
  "taskEligibility io s tid t checkVerifier =
     (if map_option lower (truthy (token_address (cc_token (ss_chain s)))) \<noteq> Some (lower (oc_token t))
      then Some (Some WrongToken)
      else if oc_amount t < ss_minTaskRaw s then Some (Some BelowMinimum)
      else if \<not> checkVerifier then Some None
      else (case so_verifierOn io tid of
        None \<Rightarrow> None
      | Some v \<Rightarrow>
          if v = [] \<or> is_zero_address v then Some None
          else (case so_hosted io of
            None \<Rightarrow> None
          | Some ds \<Rightarrow> Some (if verifierCanRule io s ds v then None else Some VerifierNotReady))))"

section \<open>The hint and the owner's view\<close>

definition HINT_TTL_MS :: int where "HINT_TTL_MS = 15000"

record hint_memo =
  hm_budget :: "(int \<times> int \<times> bool) option"
  hm_agents :: "(int \<times> string) \<rightharpoonup> (int \<times> bool)"

definition budget_open :: "gas_db \<Rightarrow> int \<Rightarrow> sponsor_settings \<Rightarrow> bool" where
  "budget_open db now s \<longleftrightarrow>
     (let c = getControls db (ss_chainId s); u = usage db now (ss_chainId s)
      in \<not> sc_paused c \<and> \<not> sc_killed c \<and> spentLastHourWei u < hourlyBudgetWei (ss_caps s) \<and>
         spentLastDayWei u < dailyBudgetWei (ss_caps s))"

definition budgetLikelyOpen :: "gas_db \<Rightarrow> int \<Rightarrow> sponsor_settings \<Rightarrow> hint_memo \<Rightarrow> bool \<times> hint_memo" where
  "budgetLikelyOpen db now s memo =
     (let fresh = (let b = budget_open db now s in (b, memo\<lparr>hm_budget := Some (now, ss_chainId s, b)\<rparr>)) in
      case hm_budget memo of
        None \<Rightarrow> fresh
      | Some (t0, c, b) \<Rightarrow> if c = ss_chainId s \<and> now - t0 < HINT_TTL_MS then (b, memo) else fresh)"

definition agent_now :: "sponsor_io \<Rightarrow> gas_db \<Rightarrow> int \<Rightarrow> sponsor_settings \<Rightarrow> string \<Rightarrow> bool" where
  "agent_now io db now s wallet =
     (case so_hosted io of
        None \<Rightarrow> False
      | Some ds \<Rightarrow> (case agentEligibility io db now s (loadAgentByWallet ds wallet) of Inl _ \<Rightarrow> False | Inr _ \<Rightarrow> True))"

definition agentLikelyEligible ::
  "sponsor_io \<Rightarrow> gas_db \<Rightarrow> int \<Rightarrow> sponsor_settings \<Rightarrow> string \<Rightarrow> hint_memo \<Rightarrow> bool \<times> hint_memo" where
  "agentLikelyEligible io db now s wallet memo =
     (let key = (ss_chainId s, lower wallet);
          fresh = (let b = agent_now io db now s wallet in (b, memo\<lparr>hm_agents := (hm_agents memo)(key \<mapsto> (now, b))\<rparr>))
      in case hm_agents memo key of
           None \<Rightarrow> fresh
         | Some (t0, b) \<Rightarrow> if now - t0 < HINT_TTL_MS then (b, memo) else fresh)"

definition sponsorHint ::
  "sponsor_io \<Rightarrow> gas_db \<Rightarrow> int \<Rightarrow> task_meta \<Rightarrow> string option \<Rightarrow> hint_memo \<Rightarrow> bool \<times> hint_memo" where
  "sponsorHint io db now m wallet memo =
     (case so_settings io of
        Inl _ \<Rightarrow> (False, memo)
      | Inr s \<Rightarrow>
          if chain m \<noteq> Some ''arc'' then (False, memo)
          else (case reward m of
            None \<Rightarrow> (False, memo)
          | Some r \<Rightarrow>
              if decimals (reward_unit r) \<noteq> decimals (token_unit (cc_token (ss_chain s))) \<or>
                reward_amount r < ss_minTaskRaw s
              then (False, memo)
              else
                let b = budgetLikelyOpen db now s memo in
                if \<not> fst b then (False, snd b)
                else (case truthy wallet of
                  None \<Rightarrow> (True, snd b)
                | Some w \<Rightarrow> agentLikelyEligible io db now s w (snd b))))"

datatype sponsorship = SponsorOff | SponsorPaused | Sponsored | NotEligible agent_ineligible

definition sponsorshipStatus :: "sponsor_io \<Rightarrow> gas_db \<Rightarrow> int \<Rightarrow> deployed_agent \<Rightarrow> sponsorship" where
  "sponsorshipStatus io db now a =
     (case so_settings io of
        Inl _ \<Rightarrow> SponsorOff
      | Inr s \<Rightarrow>
          (case agentEligibility io db now s (Some a) of
             Inl why \<Rightarrow> NotEligible why
           | Inr _ \<Rightarrow>
               let c = getControls db (ss_chainId s)
               in if sc_paused c \<or> sc_killed c then SponsorPaused else Sponsored))"

section \<open>The reservation an accept makes\<close>

text \<open>Why 409 GAS_SPONSOR_UNAVAILABLE; \<open>ReserveThrew\<close> is any other error.\<close>

datatype unavailable = UnOff not_runnable | UnNotWriter | UnChain | UnNotIndexed | UnNotOpen |
  UnAgent agent_ineligible | UnTask task_ineligible | UnBudget refusal | ReserveThrew

definition GAS_LIMIT_MARGIN_PERCENT :: int where "GAS_LIMIT_MARGIN_PERCENT = 115"

text \<open>What one call costs at most at today's fees; a failed read of the fees counts as the cap.\<close>

definition reservationBudgetWei :: "sponsor_io \<Rightarrow> sponsor_settings \<Rightarrow> int" where
  "reservationBudgetWei io s =
     bigint_div (ss_maxGas s * GAS_LIMIT_MARGIN_PERCENT *
        (case so_maxFeePerGas io of None \<Rightarrow> ss_maxFeeWei s
         | Some p \<Rightarrow> if p < ss_maxFeeWei s then p else ss_maxFeeWei s)) 100"

definition reserveForAccept ::
  "sponsor_io \<Rightarrow> role_memo option \<Rightarrow> (string \<Rightarrow> resolved_task option option) \<Rightarrow> gas_db \<Rightarrow> int \<Rightarrow> string \<Rightarrow> task_meta \<Rightarrow>
   string \<Rightarrow> (unavailable + reservation) \<times> gas_db" where
  "reserveForAccept io memo resolves db now h m executor =
     (case fst (runnableSettings io memo) of
        Inl why \<Rightarrow> (Inl (UnOff why), db)
      | Inr s \<Rightarrow>
          if \<not> so_writer io then (Inl UnNotWriter, db)
          else if chain m \<noteq> Some ''arc'' then (Inl UnChain, db)
          else (case resolves h of
            None \<Rightarrow> (Inl ReserveThrew, db)
          | Some None \<Rightarrow> (Inl UnNotIndexed, db)
          | Some (Some r) \<Rightarrow>
              if rt_chain r \<noteq> Arc then (Inl UnNotIndexed, db)
              else (case (parse_decimal (rt_taskId r), so_getTask io (rt_taskId r), so_hosted io) of
                (Some i, Some t, Some ds) \<Rightarrow>
                  if oc_status t \<noteq> EsFunded then (Inl UnNotOpen, db)
                  else (case agentEligibility io db now s (loadAgentByWallet ds executor) of
                    Inl why \<Rightarrow> (Inl (UnAgent why), db)
                  | Inr owner \<Rightarrow>
                      (case taskEligibility io s (rt_taskId r) t True of
                         None \<Rightarrow> (Inl ReserveThrew, db)
                       | Some (Some why) \<Rightarrow> (Inl (UnTask why), db)
                       | Some None \<Rightarrow>
                           let out = reserve db now
                                 \<lparr>in_chainId = ss_chainId s, in_taskId = int i, in_kind = KSubmit,
                                  in_taskHash = h, in_agentWallet = executor, in_ownerDid = owner,
                                  in_poster = oc_agent t, in_budgetWei = reservationBudgetWei io s,
                                  in_ttlSeconds = RESERVATION_TTL_SECONDS\<rparr> (ss_caps s)
                           in (case fst out of Inl why \<Rightarrow> Inl (UnBudget why) | Inr p \<Rightarrow> Inr (fst p), snd out)))
              | _ \<Rightarrow> (Inl ReserveThrew, db))))"

definition releaseAcceptReservation :: "gas_db \<Rightarrow> int \<Rightarrow> reservation \<Rightarrow> gas_db" where
  "releaseAcceptReservation db now r = snd (closeReservation db now (rs_id r) CloseReleased None)"

definition startReservationAfterAssign :: "gas_db \<Rightarrow> int \<Rightarrow> reservation \<Rightarrow> gas_db" where
  "startReservationAfterAssign db now r = startReservationClock db now (rs_id r) RESERVATION_TTL_SECONDS"

definition holdsReservation ::
  "sponsor_io \<Rightarrow> (string \<Rightarrow> resolved_task option option) \<Rightarrow> gas_db \<Rightarrow> string \<Rightarrow> string \<Rightarrow> bool" where
  "holdsReservation io resolves db h executor =
     (case (so_drain io, resolves h) of
        (Inr s, Some (Some r)) \<Rightarrow>
          rt_chain r = Arc \<and>
          (case Option.bind (parse_decimal (rt_taskId r)) (\<lambda>i. getReservation db (ss_chainId s) (int i) KSubmit) of
             None \<Rightarrow> False
           | Some res \<Rightarrow> rs_status res = RReserved \<and> rs_agentWallet res = lower executor)
      | _ \<Rightarrow> False)"

end
