(* ===== verification/EligibilityProps.thy ===== *)
theory EligibilityProps
  imports Eligibility GasSponsorProps ChainsProps TaskStoreProps
begin

text \<open>
  What sponsored gas asks of an agent and a task before it reserves: the properties of
  \<open>Eligibility\<close>.
\<close>

section \<open>The sponsor's wallet\<close>

text \<open>A sponsor with a wallet of its own: no role of the escrow, on a delegate of that escrow.\<close>

definition own_wallet :: "sponsor_io \<Rightarrow> sponsor_settings \<Rightarrow> bool" where
  "own_wallet io s \<longleftrightarrow>
     map_option lower (so_boundEscrow io) = Some (lower (ss_escrow s)) \<and>
     (\<forall>r a. so_role io r = Some a \<longrightarrow> lower a \<noteq> lower (ss_sponsor s))"

lemma first_role_None: "first_role io a rs = None \<Longrightarrow> r \<in> set rs \<Longrightarrow> \<exists>x. so_role io r = Some x \<and> lower x \<noteq> a"
  by (induction rs) (auto split: option.splits if_splits)

lemma roles_cleared:
  assumes "fst (checkSponsorRoles io memo s) = None"
  shows "memo = Some (role_key s, None) \<or> own_wallet io s"
proof (cases "map_option fst memo = Some (role_key s)")
  case True
  then obtain p where "memo = Some (role_key s, p)" by auto
  with assms show ?thesis by (simp add: checkSponsorRoles_def)
next
  case False
  obtain bound where b: "so_boundEscrow io = Some bound" "lower bound = lower (ss_escrow s)"
      "first_role io (lower (ss_sponsor s)) [RoleVerifier, RoleTreasury, RoleAdmin] = None"
    using assms unfolding checkSponsorRoles_def Let_def if_not_P [OF False]
    by (auto simp del: first_role.simps split: if_splits option.splits role_problem.splits)
  have "lower a \<noteq> lower (ss_sponsor s)" if "so_role io r = Some a" for r a
    using first_role_None [OF b(3), of r] that by (cases r) auto
  with b show ?thesis by (simp add: own_wallet_def)
qed

section \<open>Who is sponsored\<close>

definition agent_qualifies ::
  "sponsor_io \<Rightarrow> gas_db \<Rightarrow> int \<Rightarrow> sponsor_settings \<Rightarrow> deployed_agent \<Rightarrow> string \<Rightarrow> bool" where
  "agent_qualifies io db now s a owner \<longleftrightarrow>
     (\<exists>k. da_rawPrivateKey a = Some k \<and> k \<noteq> [] \<and> map_option lower (so_walletOf io (with_0x k)) = Some (lower (da_wallet a))) \<and>
     da_privyUserId a = Some owner \<and> owner \<noteq> [] \<and> \<not> walletKeyExported db (da_wallet a) \<and>
     fst (strikeCounts db now (ss_chainId s) (da_wallet a) (Some owner)) < maxStrikes (ss_caps s) \<and>
     snd (strikeCounts db now (ss_chainId s) (da_wallet a) (Some owner)) < maxStrikes (ss_caps s) \<and>
     (setupAttempts db (ss_chainId s) (da_wallet a) < MAX_SETUP_ATTEMPTS \<or> so_delegated io (da_wallet a))"

lemma agentEligibility_iff:
  "agentEligibility io db now s agent = Inr owner \<longleftrightarrow> (\<exists>a. agent = Some a \<and> agent_qualifies io db now s a owner)"
  by (auto simp: agentEligibility_def agent_qualifies_def keyDerivesWallet_def truthy_Some_iff truthy_None_iff Let_def
      split: option.splits if_splits)

definition verifier_ready :: "sponsor_io \<Rightarrow> sponsor_settings \<Rightarrow> string \<Rightarrow> bool" where
  "verifier_ready io s v \<longleftrightarrow>
     (\<exists>ds d gate balance. so_hosted io = Some ds \<and> hosted_by ds v = Some d \<and> da_verifierEnabled d = Some True \<and>
        da_running d \<and> gateWei io s = Some gate \<and> so_balance io v = Some balance \<and> gate \<le> balance)"

lemma verifierCanRule_ready: "verifierCanRule io s ds v \<Longrightarrow> so_hosted io = Some ds \<Longrightarrow> verifier_ready io s v"
  by (auto simp: verifierCanRule_def verifier_ready_def split: option.splits)

definition task_qualifies :: "sponsor_io \<Rightarrow> sponsor_settings \<Rightarrow> string \<Rightarrow> onchain_task \<Rightarrow> bool" where
  "task_qualifies io s tid t \<longleftrightarrow>
     map_option lower (token_address (cc_token (ss_chain s))) = Some (lower (oc_token t)) \<and>
     ss_minTaskRaw s \<le> oc_amount t \<and>
     (\<exists>v. so_verifierOn io tid = Some v \<and> (v = [] \<or> is_zero_address v \<or> verifier_ready io s v))"

lemma taskEligibility_ok:
  assumes "taskEligibility io s tid t True = Some None"
  shows "task_qualifies io s tid t"
  using assms
  by (auto simp: taskEligibility_def task_qualifies_def truthy_Some_iff dest: verifierCanRule_ready
      split: if_splits option.splits)

lemma closed_reservation_found:
  "reserve db now inp caps = (Inr (r, held), db') \<Longrightarrow>
   rs_status r = RReserved \<and> rs_agentWallet r = lower (in_agentWallet inp) \<and> r \<in> set (g_reservations db')"
  by (auto simp: reserve_def retaken_def new_reservation_def find_reservation_def update_where_def is_prior_def Let_def
      find_Some_iff split: if_splits option.splits)

text \<open>What a reservation went through.\<close>

lemma reserveForAccept_steps:
  assumes run: "reserveForAccept io memo resolves db now h m executor = (Inr r, db')"
  obtains s res i t ds owner had where
    "fst (runnableSettings io memo) = Inr s" "so_writer io" "resolves h = Some (Some res)" "rt_chain res = Arc"
    "parse_decimal (rt_taskId res) = Some i" "so_getTask io (rt_taskId res) = Some t" "so_hosted io = Some ds"
    "oc_status t = EsFunded" "agentEligibility io db now s (loadAgentByWallet ds executor) = Inr owner"
    "taskEligibility io s (rt_taskId res) t True = Some None"
    "reserve db now \<lparr>in_chainId = ss_chainId s, in_taskId = int i, in_kind = KSubmit, in_taskHash = h,
      in_agentWallet = executor, in_ownerDid = owner, in_poster = oc_agent t, in_budgetWei = reservationBudgetWei io s,
      in_ttlSeconds = RESERVATION_TTL_SECONDS\<rparr> (ss_caps s) = (Inr (r, had), db')"
proof -
  obtain s where s: "fst (runnableSettings io memo) = Inr s"
    using run by (auto simp: reserveForAccept_def split: sum.splits)
  obtain res where res: "resolves h = Some (Some res)" "rt_chain res = Arc"
    using run s by (auto simp: reserveForAccept_def split: if_splits option.splits)
  obtain i t ds where t: "parse_decimal (rt_taskId res) = Some i" "so_getTask io (rt_taskId res) = Some t" "so_hosted io = Some ds"
      "oc_status t = EsFunded"
    using run s res by (auto simp: reserveForAccept_def split: if_splits option.splits)
  obtain owner where o: "agentEligibility io db now s (loadAgentByWallet ds executor) = Inr owner"
    using run s res t by (auto simp: reserveForAccept_def split: if_splits sum.splits)
  have b: "taskEligibility io s (rt_taskId res) t True = Some None"
    using run s res t o by (auto simp: reserveForAccept_def split: if_splits option.splits)
  have w: "so_writer io" using run s by (auto simp: reserveForAccept_def split: if_splits)
  obtain had where "reserve db now \<lparr>in_chainId = ss_chainId s, in_taskId = int i, in_kind = KSubmit, in_taskHash = h,
      in_agentWallet = executor, in_ownerDid = owner, in_poster = oc_agent t, in_budgetWei = reservationBudgetWei io s,
      in_ttlSeconds = RESERVATION_TTL_SECONDS\<rparr> (ss_caps s) = (Inr (r, had), db')"
    using run s res t o b
    by (auto simp: reserveForAccept_def Let_def prod_eq_iff split: if_splits sum.splits)
  with s w res t o b show thesis by (rule that)
qed

text \<open>
  C25. A reservation is made only for who and what qualifies. When \<open>/accept\<close> gets one, sponsorship may
  act here with a wallet that is no role of the escrow; the task is funded on Arc, pays the
  settlement token and at least the minimum, and its verifier, if it has one, can rule; the agent
  is hosted under its own key, was deployed by a Privy user, never had its key exported, is under
  the strike cap with its owner, and can be set up; and the reservation is held for that agent.
\<close>

theorem only_who_qualifies_is_sponsored:
  assumes run: "reserveForAccept io memo resolves db now h m executor = (Inr r, db')"
  shows "\<exists>s tid t ds a owner.
    so_settings io = Inr s \<and> so_writesAllowed io \<and> so_writer io \<and> (memo = Some (role_key s, None) \<or> own_wallet io s) \<and>
    resolves h = Some (Some \<lparr>rt_taskId = tid, rt_chain = Arc\<rparr>) \<and> so_getTask io tid = Some t \<and> oc_status t = EsFunded \<and>
    task_qualifies io s tid t \<and> so_hosted io = Some ds \<and> loadAgentByWallet ds executor = Some a \<and>
    agent_qualifies io db now s a owner \<and>
    rs_status r = RReserved \<and> rs_agentWallet r = lower executor \<and> r \<in> set (g_reservations db')"
  using run
proof (cases rule: reserveForAccept_steps)
  case (1 s res i t ds owner had)
  have res: "res = \<lparr>rt_taskId = rt_taskId res, rt_chain = Arc\<rparr>" using 1(4) by (cases res) simp
  from closed_reservation_found [OF 1(11)] have held: "rs_status r = RReserved" "rs_agentWallet r = lower executor"
    "r \<in> set (g_reservations db')" by auto
  have "so_settings io = Inr s" "so_writesAllowed io" "fst (checkSponsorRoles io memo s) = None"
    using 1(1) by (auto simp: runnableSettings_def may_run_def Let_def split: sum.splits option.splits if_splits)
  with 1 roles_cleared res taskEligibility_ok [OF 1(10)] held show ?thesis
    unfolding agentEligibility_iff by metis
qed

section \<open>A sponsored agent to evaluate on\<close>

definition arc_settings :: sponsor_settings where
  "arc_settings =
     \<lparr>ss_chain = build_arc testnet_config, ss_chainId = 5042002, ss_escrow = ''0xE2'', ss_delegate = ''0xD'',
      ss_sponsor = ''0x5'', ss_minTaskRaw = 10,
      ss_caps = \<lparr>perAgentDaily = 3, perUserDaily = 3, perPosterDaily = 3, hourlyBudgetWei = 1000, dailyBudgetWei = 1000,
        maxStrikes = 3\<rparr>,
      ss_maxGas = 100, ss_maxFeeWei = 1, ss_maxFailuresPerHour = 5, ss_stuckMs = 600000\<rparr>"

definition hosted_b :: deployed_agent where
  "hosted_b =
     \<lparr>da_wallet = ''0xb'', da_smartAccount = None, da_owner = ''0xo'', da_authorizedOwners = None,
      da_delegationEnabled = None, da_verifierEnabled = None, da_running = True, da_rawPrivateKey = Some ''0xk'',
      da_privyUserId = Some ''did''\<rparr>"

definition arc_sponsor :: "onchain_task \<Rightarrow> sponsor_io" where
  "arc_sponsor t =
     \<lparr>so_settings = Inr arc_settings, so_drain = Inr arc_settings, so_enabled = True, so_escrowContract = True,
      so_boundEscrow = Some ''0xE2'', so_role = (\<lambda>_. Some ''0x9''), so_writesAllowed = True, so_writer = True,
      so_hosted = Some [hosted_b], so_walletOf = (\<lambda>_. Some ''0xb''), so_delegated = (\<lambda>_. False),
      so_maxFeePerGas = None, so_gasPrice = None, so_balance = (\<lambda>_. None), so_verifierOn = (\<lambda>_. Some []),
      so_getTask = (\<lambda>_. Some t)\<rparr>"

definition funded_task :: onchain_task where
  "funded_task =
     \<lparr>oc_agent = ''0xa'', oc_worker = [], oc_token = ''0xC2'', oc_amount = 1000, oc_taskHash = ''0xh'',
      oc_status = EsFunded, oc_deadline = 9, oc_submissionAttempts = 0\<rparr>"


definition arc_meta :: task_meta where
  "arc_meta = sample_meta\<lparr>chain := Some ''arc''\<rparr>"

lemma arc_may_run: "fst (runnableSettings (arc_sponsor t) None) = Inr arc_settings"
  by (simp add: runnableSettings_def may_run_def checkSponsorRoles_def arc_sponsor_def arc_settings_def lower_eval Let_def)

lemma hosted_eligible: "agentEligibility (arc_sponsor t) empty_gas_db now arc_settings (loadAgentByWallet [hosted_b] ''0xB'') = Inr ''did''"
proof -
  have "loadAgentByWallet [hosted_b] ''0xB'' = Some hosted_b"
    by (simp add: loadAgentByWallet_def hosted_b_def lower_eval)
  then show ?thesis
    by (simp add: agentEligibility_def keyDerivesWallet_def hosted_b_def arc_sponsor_def arc_settings_def
        walletKeyExported_def strikeCounts_def setupAttempts_def empty_gas_db_def MAX_SETUP_ATTEMPTS_def Let_def)
qed

lemma funded_eligible: "taskEligibility (arc_sponsor t) arc_settings ''7'' funded_task True = Some None"
  by (simp add: taskEligibility_def arc_settings_def arc_sponsor_def funded_task_def build_arc_def testnet_config_def Let_def)

lemma arc_reserves:
  obtains r db where "reserveForAccept (arc_sponsor funded_task) None (\<lambda>_. Some (Some \<lparr>rt_taskId = ''7'', rt_chain = Arc\<rparr>))
    empty_gas_db 0 ''0xh'' arc_meta ''0xB'' = (Inr r, db)"
proof -
  have d: "parse_decimal ''7'' = Some 7" by (simp add: parse_decimal_def digit_val_def)
  have c: "so_writer (arc_sponsor funded_task)" "chain arc_meta = Some ''arc''" "so_getTask (arc_sponsor funded_task) i = Some funded_task"
    "so_hosted (arc_sponsor funded_task) = Some [hosted_b]" "oc_status funded_task = EsFunded" for i
    by (simp_all add: arc_sponsor_def arc_meta_def funded_task_def)
  show thesis
    by (rule that, simp add: reserveForAccept_def arc_may_run c d hosted_eligible funded_eligible Let_def,
        simp add: reserve_def paused_chain_def reserve_refusal_def find_reservation_def agent_holds_def strikeCounts_def
          daily_count_def spend_since_def empty_gas_db_def arc_settings_def reservationBudgetWei_def arc_sponsor_def
          GAS_LIMIT_MARGIN_PERCENT_def bigint_div_def Let_def)
qed

theorem only_who_qualifies_is_sponsored_witness:
  "agent_qualifies (arc_sponsor funded_task) empty_gas_db 0 arc_settings hosted_b ''did''"
proof -
  obtain r db where r: "reserveForAccept (arc_sponsor funded_task) None (\<lambda>_. Some (Some \<lparr>rt_taskId = ''7'', rt_chain = Arc\<rparr>))
    empty_gas_db 0 ''0xh'' arc_meta ''0xB'' = (Inr r, db)" by (rule arc_reserves)
  have "so_settings (arc_sponsor funded_task) = Inr arc_settings" "so_hosted (arc_sponsor funded_task) = Some [hosted_b]"
    "loadAgentByWallet [hosted_b] ''0xB'' = Some hosted_b"
    by (simp_all add: arc_sponsor_def loadAgentByWallet_def hosted_b_def lower_eval)
  with only_who_qualifies_is_sponsored [OF r] have "\<exists>o'. agent_qualifies (arc_sponsor funded_task) empty_gas_db 0 arc_settings hosted_b o'"
    by auto
  then show ?thesis by (auto simp: agent_qualifies_def hosted_b_def)
qed

end
