(* ===== verification/Accept.thy ===== *)
theory Accept
  imports Lifecycle Eligibility ExpirySweep
begin

text \<open>
  Taking a task: \<open>/accept\<close>, \<open>/bid\<close>, \<open>/bids\<close> and \<open>/wrap-to\<close> of \<open>routes/a2a.ts\<close>. The request is the one of
  \<open>Lifecycle\<close> with what an accept meets besides: the agent registries, the key custody, the gas
  sponsor, its lock token, and what others write before it holds the lock, before its
  compare-and-set and while it re-wraps a key. The timer that extends the lock is left out; the
  lock may lapse while the settlement waits, and \<open>ac_done\<close> is the clock when it answered.
\<close>

section \<open>The request\<close>

text \<open>\<open>None\<close> for the active key or a re-wrap is a call that throws.\<close>

record custody =
  cu_activeKey :: "string option"
  cu_rewrap :: "string \<Rightarrow> string \<Rightarrow> string option \<Rightarrow> string option"

record accept_env =
  ac_req :: route_env
  ac_registry :: "agent_executor list option"
  ac_hosted :: "deployed_agent list option"
  ac_custody :: "custody option"
  ac_sponsor :: sponsor_io
  ac_roles :: "role_memo option"
  ac_token :: string
  ac_sponsorGas :: bool
  ac_kept :: nat
  ac_done :: int
  ac_beforeLock :: "a2a_db \<Rightarrow> a2a_db"
  ac_beforeCas :: "a2a_db \<Rightarrow> a2a_db"
  ac_whileRewrapping :: "a2a_db \<Rightarrow> a2a_db"

record accept_reply =
  ar_rootHash :: "string option"
  ar_wrappedKey :: "string option"
  ar_privacy :: "privacy option"
  ar_chain :: "string option"
  ar_alreadySettled :: bool
  ar_assignTxHash :: "string option"
  ar_gasSponsored :: bool

text \<open>\<open>/^0x[0-9a-fA-F]{64}$/\<close>.\<close>

definition is_task_hash :: "string \<Rightarrow> bool" where
  "is_task_hash h \<longleftrightarrow> take 2 h = ''0x'' \<and> length h = 66 \<and> list_all hex_digit (drop 2 h)"

definition ac_now :: "accept_env \<Rightarrow> int" where
  "ac_now e = rq_now (ac_req e)"

definition log_attempt :: "accept_env \<Rightarrow> server \<Rightarrow> string \<Rightarrow> string \<Rightarrow> string \<Rightarrow> server" where
  "log_attempt e sv h addr what =
     sv\<lparr>sv_db := logAcceptAttempt (sv_db sv) (ac_now e) h addr what (ac_kept e)\<rparr>"

section \<open>The executor's minimum reward\<close>

definition hasRewardFloor :: "agent_executor \<Rightarrow> bool" where
  "hasRewardFloor a =
     (case bigint_of (case truthy (ax_minReward a) of None \<Rightarrow> ''0'' | Some r \<Rightarrow> r) of
        None \<Rightarrow> False | Some n \<Rightarrow> 0 < n)"

definition rewardForFloor :: "route_env \<Rightarrow> a2a_db \<Rightarrow> string \<Rightarrow> task_meta \<Rightarrow> task_reward option" where
  "rewardForFloor e db h m =
     (case reward m of
        Some r \<Rightarrow> Some r
      | None \<Rightarrow>
          (case resolve (rq_world e) db h of
             Some (Some r) \<Rightarrow>
               (case rq_read e 0 (rt_chain r) (rt_taskId r) of
                  Inl _ \<Rightarrow> None
                | Inr t \<Rightarrow>
                    Some (case payoutCurrency (w_cfg (rq_world e)) (chain_name (rt_chain r)) (oc_token t) of
                      Some u \<Rightarrow> \<lparr>reward_amount = oc_amount t, reward_unit = u\<rparr>
                    | None \<Rightarrow> \<lparr>reward_amount = 0, reward_unit = pricingUnit (w_cfg (rq_world e))\<rparr>))
           | _ \<Rightarrow> None))"

text \<open>A refusal: the attempt it logs, if any, and the error.\<close>

type_synonym refused = "string option \<times> app_error"

definition precheck :: "int \<Rightarrow> string \<Rightarrow> refused" where
  "precheck code c = (Some ''rejected_precheck'', AppError code c)"

definition refuseUnfitExecutor ::
  "route_env \<Rightarrow> a2a_db \<Rightarrow> string \<Rightarrow> agent_executor \<Rightarrow> task_meta \<Rightarrow> refused option" where
  "refuseUnfitExecutor e db h a m =
     (if \<not> supportsTaskChain (ax_supportedChains a) (chain m) then Some (precheck 409 ''CHAIN_UNSUPPORTED'')
      else if \<not> (hasRewardFloor a \<and> serviceId m = None) then None
      else (case rewardForFloor e db h m of
        None \<Rightarrow> Some (Some ''error'', AppError 503 ''REWARD_UNAVAILABLE'')
      | Some r \<Rightarrow>
          if meetsRewardFloor (w_cfg (rq_world e)) (ax_minReward a) (Some r) then None
          else Some (precheck 403 ''BELOW_MIN_REWARD'')))"

section \<open>The brief's key\<close>

definition own_slice :: "task_meta \<Rightarrow> string \<Rightarrow> string option" where
  "own_slice m addr = Option.bind (wrappedKeys m) (\<lambda>w. w (lower addr))"

definition active_key :: "accept_env \<Rightarrow> task_meta \<Rightarrow> string option" where
  "active_key e m =
     (case (keyCustodyBlob m, ac_custody e) of (Some _, Some cu) \<Rightarrow> cu_activeKey cu | _ \<Rightarrow> None)"

definition can_self_heal :: "accept_env \<Rightarrow> task_meta \<Rightarrow> string \<Rightarrow> bool" where
  "can_self_heal e m addr \<longleftrightarrow>
     truthy (rootHash m) \<noteq> None \<and> truthy (own_slice m addr) = None \<and>
     (case keyCustodyBlob m of None \<Rightarrow> False | Some (k, _) \<Rightarrow> active_key e m = Some k)"

definition needs_wrap :: "accept_env \<Rightarrow> task_meta \<Rightarrow> agent_executor \<Rightarrow> string \<Rightarrow> bool" where
  "needs_wrap e m a addr \<longleftrightarrow>
     skipKeyWrap m \<noteq> Some True \<and>
     (privacy m \<noteq> Some Public \<and> truthy (rootHash m) \<noteq> None \<and> truthy (own_slice m addr) = None \<and>
        \<not> can_self_heal e m addr \<or>
      can_self_heal e m addr \<and> truthy (ax_publicKey a) = None)"

section \<open>The prechecks\<close>

text \<open>\<open>sameOwnerSubtask\<close>: the hosted agents are read only for a poster that is an address.\<close>

definition same_owner :: "accept_env \<Rightarrow> task_meta \<Rightarrow> string \<Rightarrow> bool option" where
  "same_owner e m addr =
     (case truthy (posterAddress m) of
        None \<Rightarrow> Some False
      | Some p \<Rightarrow> if is_address p then map_option (\<lambda>ds. sameOwnerSubtask ds p addr) (ac_hosted e) else Some False)"

definition caller_gate :: "accept_env \<Rightarrow> task_meta \<Rightarrow> string \<Rightarrow> refused + agent_executor" where
  "caller_gate e m addr =
     (if map_option lower (truthy (posterAddress m)) = Some (lower addr) then Inl (precheck 403 ''SELF_ACCEPT'')
      else if map_option lower (truthy (verifierAddress m)) = Some (lower addr) then Inl (precheck 403 ''IS_VERIFIER'')
      else (case ac_registry e of
        None \<Rightarrow> Inl (None, LookupThrew)
      | Some reg \<Rightarrow>
          (case getAgent reg addr of
             None \<Rightarrow> Inl (precheck 403 ''NOT_REGISTERED'')
           | Some a \<Rightarrow>
               if map_option lower (truthy (targetExecutor m)) \<notin> {None, Some (lower addr)}
               then Inl (precheck 403 ''NOT_TARGET_EXECUTOR'')
               else (case same_owner e m addr of
                 None \<Rightarrow> Inl (None, LookupThrew)
               | Some True \<Rightarrow> Inl (precheck 403 ''SAME_OWNER'')
               | Some False \<Rightarrow>
                   if needs_wrap e m a addr then Inl (precheck 403 ''NEEDS_WRAP'') else Inr a))))"

definition holdsTask :: "task_state option \<Rightarrow> string \<Rightarrow> bool" where
  "holdsTask s addr =
     (case s of None \<Rightarrow> False | Some s \<Rightarrow> is_executor s addr \<and> status s \<in> {Accepted, InProgress})"

definition refuse_accept :: "accept_env \<Rightarrow> server \<Rightarrow> string \<Rightarrow> string \<Rightarrow> refused \<Rightarrow> (app_error + 'a) \<times> server" where
  "refuse_accept e sv h addr r =
     (Inl (snd r), case fst r of None \<Rightarrow> sv | Some what \<Rightarrow> log_attempt e sv h addr what)"

definition past_deadline_of :: "accept_env \<Rightarrow> task_meta \<Rightarrow> int \<Rightarrow> bool" where
  "past_deadline_of e m grace \<longleftrightarrow>
     (case deadline m of None \<Rightarrow> False | Some d \<Rightarrow> d \<noteq> 0 \<and> d + grace \<le> ac_now e div 1000)"

definition accept_prechecks ::
  "accept_env \<Rightarrow> server \<Rightarrow> string \<Rightarrow> string \<Rightarrow> (app_error + task_meta \<times> agent_executor \<times> bool) \<times> server" where
  "accept_prechecks e sv h addr =
     (case getMeta (sv_db sv) h of
        None \<Rightarrow> (Inl NOT_FOUND, sv)
      | Some m \<Rightarrow>
          if submissionMode m = Some OpenSubmission then (Inl (AppError 409 ''OPEN_SUBMISSION_TASK''), sv)
          else if past_deadline_of e m 0 then
            refuse_accept e
              (if past_deadline_of e m EXPIRY_GRACE_SEC then sv\<lparr>sv_db := snd (tryExpire (sv_db sv) h Expired)\<rparr> else sv)
              h addr (precheck 409 ''TASK_EXPIRED'')
          else (case caller_gate e m addr of
            Inl r \<Rightarrow> refuse_accept e sv h addr r
          | Inr a \<Rightarrow>
              let o' = getOffer (sv_db sv) (ac_now e) h; sv1 = sv\<lparr>sv_db := snd o'\<rparr> in
              if map_option (lower \<circ> offer_address) (fst o') \<notin> {None, Some (lower addr)}
              then refuse_accept e sv1 h addr (precheck 409 ''OFFER_HELD'')
              else if holdsTask (getState (sv_db sv1) h) addr then (Inr (m, a, True), sv1)
              else (case refuseUnfitExecutor (ac_req e) (sv_db sv1) h a m of
                Some r \<Rightarrow> refuse_accept e sv1 h addr r
              | None \<Rightarrow> (Inr (m, a, False), sv1))))"

section \<open>Under the lock\<close>

definition settle_for :: "accept_env \<Rightarrow> server \<Rightarrow> string \<Rightarrow> string \<Rightarrow> (app_error + settle_result) \<times> server" where
  "settle_for e sv h addr =
     (case settleAssignment (rq_bridge (ac_req e)) (sv_db sv) (ac_now e) h addr of
        (r, calls, db') \<Rightarrow> (r, sv\<lparr>sv_db := db', sv_sent := sv_sent sv @ calls\<rparr>))"

definition reply_chain :: "settle_result \<Rightarrow> string option \<Rightarrow> string option" where
  "reply_chain s c = (case sr_chain s of None \<Rightarrow> c | Some k \<Rightarrow> Some (chain_name k))"

text \<open>The caller has the task already: its assignment is confirmed again.\<close>

definition accept_again ::
  "accept_env \<Rightarrow> server \<Rightarrow> string \<Rightarrow> string \<Rightarrow> (app_error + accept_reply) \<times> server" where
  "accept_again e sv h addr =
     (let r = settle_for e sv h addr; sv1 = snd r in
      case fst r of
        Inl x \<Rightarrow> (Inl x, sv1)
      | Inr s \<Rightarrow>
          if \<not> sr_success s then
            refuse_accept e sv1 h addr (Some ''error'',
              if sr_expired s \<or> sr_cancelled s then AppError 409 ''TASK_EXPIRED''
              else if sr_pending s then AppError 503 ''ASSIGNMENT_PENDING''
              else AppError 503 ''SETTLEMENT_FAILED'')
          else
            let m = getMeta (sv_db sv1) h in
            (Inr \<lparr>ar_rootHash = Option.bind m rootHash, ar_wrappedKey = Option.bind m (\<lambda>m. own_slice m addr),
                  ar_privacy = Option.bind m privacy, ar_chain = reply_chain s (Option.bind m chain),
                  ar_alreadySettled = True, ar_assignTxHash = sr_txHash s,
                  ar_gasSponsored = holdsReservation (ac_sponsor e) (resolve (rq_world (ac_req e)) (sv_db sv1))
                    (sv_gas sv1) h addr\<rparr>,
             log_attempt e sv1 h addr ''won''))"

text \<open>An \<open>updateState\<close> whose error is only logged.\<close>

definition best_effort :: "server \<Rightarrow> string \<Rightarrow> patch_field list \<Rightarrow> server" where
  "best_effort sv h ps = sv\<lparr>sv_db := safely (sv_db sv) (updateState (sv_db sv) h ps)\<rparr>"

text \<open>Off-chain an agent is its wallet: the owner of the account the escrow names.\<close>

definition reconcile_to :: "accept_env \<Rightarrow> string \<Rightarrow> string" where
  "reconcile_to e w =
     (case Option.bind (ac_hosted e) (\<lambda>ds. loadAgentBySmartAccount ds (lower w)) of
        None \<Rightarrow> lower w | Some d \<Rightarrow> lower (da_wallet d))"

text \<open>What each failed settlement makes of the task; the flag keeps the gas reservation.\<close>

definition settlement_failed ::
  "accept_env \<Rightarrow> server \<Rightarrow> string \<Rightarrow> string \<Rightarrow> task_meta \<Rightarrow> settle_result \<Rightarrow> app_error \<times> bool \<times> server" where
  "settlement_failed e sv h addr m s =
     (if sr_expired s then
        (AppError 409 ''TASK_EXPIRED'', False,
         best_effort sv h [PStatus Failed, PFailedReason (Some ''expired'')])
      else if sr_cancelled s then
        (AppError 409 ''TASK_CANCELLED'', False,
         best_effort sv h [PStatus Failed, PFailedReason (Some ''cancelled''), PExecutorAddress None])
      else if sr_workerMismatch s then
        (AppError 409 ''ASSIGNED_ELSEWHERE'', False,
         case truthy (sr_onChainWorker s) of
           None \<Rightarrow> sv
         | Some w \<Rightarrow> best_effort sv h [PExecutorAddress (Some (reconcile_to e w))])
      else if sr_escrowMismatch s then
        (AppError 409 ''ESCROW_MISMATCH'', False,
         log_attempt e
           (best_effort sv h [PStatus Failed, PFailedReason (Some ''escrow_mismatch''), PExecutorAddress None])
           h addr ''error'')
      else if sr_pending s then
        (AppError 503 ''ASSIGNMENT_PENDING'', True, log_attempt e sv h addr ''error'')
      else
        (AppError 503 ''SETTLEMENT_FAILED'', False,
         snd (releaseAndAnnounce (ac_req e) sv h m
           \<lparr>exp_executor = Some addr, exp_tx = sr_txHash s, exp_status = None\<rparr>)))"

definition accept_settled ::
  "accept_env \<Rightarrow> server \<Rightarrow> string \<Rightarrow> string \<Rightarrow> task_meta \<Rightarrow> string option \<Rightarrow> reservation option \<Rightarrow>
   (app_error + accept_reply) \<times> bool \<times> server" where
  "accept_settled e sv h addr m slice res =
     (let db1 = startSettlementDeadline (clearCascade (clearOffer (sv_db sv) h) h) (ac_now e) h;
          r = settle_for e (sv\<lparr>sv_db := db1\<rparr>) h addr; sv1 = snd r
      in case fst r of
           Inl x \<Rightarrow> (Inl x, False, sv1)
         | Inr s \<Rightarrow>
             if \<not> sr_success s
             then (let f = settlement_failed e sv1 h addr m s in (Inl (fst f), snd f))
             else
               let sv2 = sv1\<lparr>sv_db := clearSettlementDeadline (sv_db sv1) h,
                             sv_gas := (case res of None \<Rightarrow> sv_gas sv1
                               | Some g \<Rightarrow> startReservationAfterAssign (sv_gas sv1) (ac_done e) g)\<rparr>
               in (Inr \<lparr>ar_rootHash = rootHash m,
                        ar_wrappedKey = (case slice of None \<Rightarrow> own_slice m addr | _ \<Rightarrow> slice),
                        ar_privacy = privacy m, ar_chain = reply_chain s (chain m),
                        ar_alreadySettled = sr_alreadySettled s, ar_assignTxHash = sr_txHash s,
                        ar_gasSponsored = (res \<noteq> None)\<rparr>,
                   True,
                   tell h EvAssigned ((log_attempt e sv2 h addr ''won'')\<lparr>sv_bids := clearBids (sv_bids sv2) h\<rparr>)))"

text \<open>The compare-and-set, and the key re-wrapped for its winner.\<close>

definition accept_won ::
  "accept_env \<Rightarrow> server \<Rightarrow> string \<Rightarrow> string \<Rightarrow> task_meta \<Rightarrow> agent_executor \<Rightarrow> reservation option \<Rightarrow>
   (app_error + accept_reply) \<times> bool \<times> server" where
  "accept_won e sv h addr m a res =
     (if \<not> can_self_heal e m addr then accept_settled e sv h addr m None res
      else
        let sv1 = sv\<lparr>sv_db := ac_whileRewrapping e (sv_db sv)\<rparr> in
        (case (ac_custody e, keyCustodyBlob m) of
           (Some cu, Some (k, blob)) \<Rightarrow>
             (case cu_rewrap cu k blob (ax_publicKey a) of
                None \<Rightarrow>
                  (Inl (AppError 503 ''REWRAP_FAILED''), False,
                   snd (releaseAndAnnounce (ac_req e) sv1 h m
                     \<lparr>exp_executor = Some addr, exp_tx = None, exp_status = None\<rparr>))
              | Some slice \<Rightarrow>
                  accept_settled e (sv1\<lparr>sv_db := snd (mergeWrappedKeys (sv_db sv1) h [(lower addr, slice)])\<rparr>)
                    h addr m (Some slice) res)
         | _ \<Rightarrow> accept_settled e sv h addr m None res))"

definition accept_open ::
  "accept_env \<Rightarrow> server \<Rightarrow> string \<Rightarrow> string \<Rightarrow> task_meta \<Rightarrow> agent_executor \<Rightarrow> reservation option \<Rightarrow>
   (app_error + accept_reply) \<times> bool \<times> server" where
  "accept_open e sv h addr m a res =
     (let c = tryAccept (ac_beforeCas e (sv_db sv)) h addr (ac_now e); sv1 = sv\<lparr>sv_db := snd c\<rparr> in
      case fst c of
        Inl x \<Rightarrow> (Inl (StoreThrew x), False, sv1)
      | Inr (Lost _) \<Rightarrow> (Inl (AppError 409 ''NOT_OPEN''), False, log_attempt e sv1 h addr ''lost_cas'')
      | Inr (Won _) \<Rightarrow> accept_won e sv1 h addr m a res)"

definition unavailable_error :: "unavailable \<Rightarrow> app_error" where
  "unavailable_error u = (if u = ReserveThrew then LookupThrew else AppError 409 ''GAS_SPONSOR_UNAVAILABLE'')"

text \<open>The reservation is given back unless the accept keeps it.\<close>

definition accept_fresh ::
  "accept_env \<Rightarrow> server \<Rightarrow> string \<Rightarrow> string \<Rightarrow> task_meta \<Rightarrow> agent_executor \<Rightarrow> (app_error + accept_reply) \<times> server" where
  "accept_fresh e sv h addr m a =
     (if \<not> ac_sponsorGas e then (let r = accept_open e sv h addr m a None in (fst r, snd (snd r)))
      else
        let g = reserveForAccept (ac_sponsor e) (ac_roles e) (resolve (rq_world (ac_req e)) (sv_db sv)) (sv_gas sv)
                  (ac_now e) h m addr;
            sv1 = sv\<lparr>sv_gas := snd g\<rparr>
        in case fst g of
             Inl u \<Rightarrow> refuse_accept e sv1 h addr (Some ''rejected_precheck'', unavailable_error u)
           | Inr res \<Rightarrow>
               let r = accept_open e sv1 h addr m a (Some res); sv2 = snd (snd r)
               in (fst r,
                   if fst (snd r) then sv2
                   else sv2\<lparr>sv_gas := releaseAcceptReservation (sv_gas sv2) (ac_done e) res\<rparr>))"

definition accept_locked ::
  "accept_env \<Rightarrow> server \<Rightarrow> string \<Rightarrow> string \<Rightarrow> task_meta \<Rightarrow> agent_executor \<Rightarrow> bool \<Rightarrow>
   (app_error + accept_reply) \<times> server" where
  "accept_locked e sv h addr m a held =
     (if holdsTask (getState (sv_db sv) h) addr then accept_again e sv h addr
      else (case (if held then refuseUnfitExecutor (ac_req e) (sv_db sv) h a m else None) of
        Some r \<Rightarrow> refuse_accept e sv h addr r
      | None \<Rightarrow> accept_fresh e sv h addr m a))"

definition acceptTask ::
  "accept_env \<Rightarrow> server \<Rightarrow> string \<Rightarrow> string \<Rightarrow> (app_error + accept_reply) \<times> server" where
  "acceptTask e sv h addr =
     (if \<not> is_task_hash h then (Inl (AppError 400 ''VALIDATION_ERROR''), sv)
      else
        let p = accept_prechecks e sv h addr; sv1 = snd p in
        (case fst p of
           Inl x \<Rightarrow> (Inl x, sv1)
         | Inr (m, a, held) \<Rightarrow>
             let l = acquireAcceptLock (ac_beforeLock e (sv_db sv1)) (ac_now e) h addr (ac_token e);
                 sv2 = sv1\<lparr>sv_db := snd l\<rparr>
             in if \<not> fst l
                then refuse_accept e sv2 h addr (Some ''rejected_locked'', AppError 409 ''ACCEPT_LOCKED'')
                else
                  let r = accept_locked e sv2 h addr m a held; sv3 = snd r
                  in (fst r,
                      sv3\<lparr>sv_db := snd (releaseAcceptLock (sv_db sv3) (ac_done e) h addr (ac_token e))\<rparr>)))"

section \<open>Bids and wrapped keys\<close>

datatype bid_answer = AlreadyWrapped | BidReceived

definition bidTask :: "accept_env \<Rightarrow> server \<Rightarrow> string \<Rightarrow> string \<Rightarrow> (app_error + bid_answer) \<times> server" where
  "bidTask e sv h addr =
     (case getMeta (sv_db sv) h of
        None \<Rightarrow> (Inl NOT_FOUND, sv)
      | Some m \<Rightarrow>
          if map_option lower (truthy (posterAddress m)) = Some (lower addr)
          then (Inl (AppError 403 ''SELF_BID''), sv)
          else (case ac_registry e of
            None \<Rightarrow> (Inl LookupThrew, sv)
          | Some reg \<Rightarrow>
              (case getAgent reg addr of
                 None \<Rightarrow> (Inl (AppError 403 ''NOT_REGISTERED''), sv)
               | Some a \<Rightarrow>
                   (case truthy (ax_publicKey a) of
                      None \<Rightarrow> (Inl (AppError 400 ''NO_PUBKEY''), sv)
                    | Some pk \<Rightarrow>
                        if \<not> supportsTaskChain (ax_supportedChains a) (chain m)
                        then (Inl (AppError 409 ''CHAIN_UNSUPPORTED''), sv)
                        else if truthy (own_slice m addr) \<noteq> None then (Inr AlreadyWrapped, sv)
                        else
                          (Inr BidReceived,
                           sv\<lparr>sv_bids := addBid (sv_bids sv) (ac_now e) h
                             \<lparr>bid_address = lower addr, bid_publicKey = pk, bid_capabilities = ax_capabilities a,
                              bid_at = ac_now e\<rparr>\<rparr>)))))"

definition bidsRoute :: "accept_env \<Rightarrow> server \<Rightarrow> string \<Rightarrow> string \<Rightarrow> app_error + bid set \<times> string set" where
  "bidsRoute e sv h addr =
     (case getMeta (sv_db sv) h of
        None \<Rightarrow> Inl NOT_FOUND
      | Some m \<Rightarrow>
          if map_option lower (truthy (posterAddress m)) \<noteq> Some (lower addr) then Inl (AppError 403 ''NOT_POSTER'')
          else Inr (listBids (sv_bids sv) (ac_now e) h, case wrappedKeys m of None \<Rightarrow> {} | Some w \<Rightarrow> dom w))"

text \<open>The answer: how many keys the task has now, and how many the body had.\<close>

definition wrapTo ::
  "server \<Rightarrow> string \<Rightarrow> string \<Rightarrow> (string \<times> string) list \<Rightarrow> (app_error + nat \<times> nat) \<times> server" where
  "wrapTo sv h addr keys =
     (case getMeta (sv_db sv) h of
        None \<Rightarrow> (Inl NOT_FOUND, sv)
      | Some m \<Rightarrow>
          if map_option lower (truthy (posterAddress m)) \<noteq> Some (lower addr)
          then (Inl (AppError 403 ''NOT_POSTER''), sv)
          else
            let u = mergeWrappedKeys (sv_db sv) h keys in
            (case fst u of
               None \<Rightarrow> (Inl NOT_FOUND, sv)
             | Some m' \<Rightarrow>
                 (Inr (case wrappedKeys m' of None \<Rightarrow> 0 | Some w \<Rightarrow> card (dom w), length keys),
                  sv\<lparr>sv_db := snd u\<rparr>)))"

end
