(* ===== verification/AcceptProps.thy ===== *)
theory AcceptProps
  imports Accept LifecycleTypes EligibilityProps
begin

text \<open>
  What \<open>/accept\<close> promises: only an agent that may take a task gets it, and only once the escrow
  names it; every failed settlement leaves the task where the next accept, or nobody, finds it;
  a refused accept holds no sponsored gas; and the lock is given back.
\<close>

section \<open>Who may take a task\<close>

definition brief_readable :: "accept_env \<Rightarrow> task_meta \<Rightarrow> agent_executor \<Rightarrow> string \<Rightarrow> bool" where
  "brief_readable e m a addr \<longleftrightarrow>
     skipKeyWrap m = Some True \<or> privacy m = Some Public \<or> truthy (rootHash m) = None \<or>
     truthy (own_slice m addr) \<noteq> None \<or>
     (\<exists>k blob pk cu. keyCustodyBlob m = Some (k, blob) \<and> ac_custody e = Some cu \<and> cu_activeKey cu = Some k \<and>
        ax_publicKey a = Some pk \<and> pk \<noteq> [])"

definition may_take :: "accept_env \<Rightarrow> task_meta \<Rightarrow> agent_executor \<Rightarrow> string \<Rightarrow> bool" where
  "may_take e m a addr \<longleftrightarrow>
     submissionMode m \<noteq> Some OpenSubmission \<and>
     (\<forall>d. deadline m = Some d \<and> d \<noteq> 0 \<longrightarrow> ac_now e div 1000 < d) \<and>
     (\<forall>p. posterAddress m = Some p \<and> p \<noteq> [] \<longrightarrow> lower p \<noteq> lower addr) \<and>
     (\<forall>v. verifierAddress m = Some v \<and> v \<noteq> [] \<longrightarrow> lower v \<noteq> lower addr) \<and>
     (\<forall>t. targetExecutor m = Some t \<and> t \<noteq> [] \<longrightarrow> lower t = lower addr) \<and>
     (\<exists>reg. ac_registry e = Some reg \<and> getAgent reg addr = Some a) \<and>
     (\<forall>p ds. posterAddress m = Some p \<and> is_address p \<and> ac_hosted e = Some ds \<longrightarrow> \<not> sameOwnerSubtask ds p addr) \<and>
     brief_readable e m a addr"

text \<open>The chain it can sign on, and its own minimum reward; a rental's price was agreed.\<close>

definition fits_agent :: "accept_env \<Rightarrow> a2a_db \<Rightarrow> string \<Rightarrow> agent_executor \<Rightarrow> task_meta \<Rightarrow> bool" where
  "fits_agent e db h a m \<longleftrightarrow>
     supportsTaskChain (ax_supportedChains a) (chain m) \<and>
     (hasRewardFloor a \<and> serviceId m = None \<longrightarrow>
        (\<exists>r. rewardForFloor (ac_req e) db h m = Some r \<and>
          meetsRewardFloor (w_cfg (rq_world (ac_req e))) (ax_minReward a) (Some r)))"

lemma unfit_None: "refuseUnfitExecutor (ac_req e) db h a m = None \<longleftrightarrow> fits_agent e db h a m"
  by (auto simp: refuseUnfitExecutor_def fits_agent_def split: option.split)

lemma is_address_nonempty: "is_address p \<Longrightarrow> p \<noteq> []"
  by (auto simp: is_address_def)

lemma truthy_nonempty [simp]: "p \<noteq> [] \<Longrightarrow> truthy (Some p) = Some p"
  by (simp add: truthy_Some_iff)

lemma gate_may_take:
  assumes "caller_gate e m addr = Inr a" "submissionMode m \<noteq> Some OpenSubmission" "\<not> past_deadline_of e m 0"
  shows "may_take e m a addr"
proof -
  have g: "map_option lower (truthy (posterAddress m)) \<noteq> Some (lower addr)"
    "map_option lower (truthy (verifierAddress m)) \<noteq> Some (lower addr)"
    using assms(1) by (auto simp: caller_gate_def split: if_splits)
  obtain reg where r: "ac_registry e = Some reg" "getAgent reg addr = Some a"
      "map_option lower (truthy (targetExecutor m)) \<in> {None, Some (lower addr)}" "same_owner e m addr = Some False"
      "\<not> needs_wrap e m a addr"
    using assms(1) g unfolding caller_gate_def by (auto split: option.splits if_splits bool.splits)
  have "brief_readable e m a addr"
    using r(5) by (auto simp: needs_wrap_def brief_readable_def can_self_heal_def active_key_def truthy_None_iff
        split: option.splits prod.splits)
  moreover have "\<not> sameOwnerSubtask ds p addr"
    if "posterAddress m = Some p" "is_address p" "ac_hosted e = Some ds" for p ds
    using r(4) that is_address_nonempty [OF that(2)] by (simp add: same_owner_def)
  moreover have "lower t = lower addr" if "targetExecutor m = Some t" "t \<noteq> []" for t using r(3) that by simp
  moreover have "lower p \<noteq> lower addr" if "posterAddress m = Some p" "p \<noteq> []" for p using g(1) that by simp
  moreover have "lower v \<noteq> lower addr" if "verifierAddress m = Some v" "v \<noteq> []" for v using g(2) that by simp
  moreover have "ac_now e div 1000 < d" if "deadline m = Some d" "d \<noteq> 0" for d
    using assms(3) that by (simp add: past_deadline_of_def)
  ultimately show ?thesis using assms(2) r(1,2) unfolding may_take_def by blast
qed

lemma refuse_not_ok [simp]: "refuse_accept e sv h addr r = (Inr x, sv') \<longleftrightarrow> False"
  by (simp add: refuse_accept_def)

lemma getOffer_db [simp]:
  "states (snd (getOffer db now h)) = states db" "metas (snd (getOffer db now h)) = metas db"
  "accept_locks (snd (getOffer db now h)) = accept_locks db"
  by (auto simp: getOffer_def split: option.split)

lemma rewardForFloor_cong: "metas db' = metas db \<Longrightarrow> rewardForFloor e db' h m = rewardForFloor e db h m"
  unfolding rewardForFloor_def by (simp only: resolve_cong [of db' db])

lemma fits_agent_cong:
  assumes "metas db' = metas db"
  shows "fits_agent e db' h a m = fits_agent e db h a m"
  unfolding fits_agent_def rewardForFloor_cong [OF assms] ..

lemma getState_cong: "states db' = states db \<Longrightarrow> getState db' h = getState db h"
  using find_state_cong [of db' db h] by (simp add: getState_def)

lemma prechecks_passed:
  assumes "accept_prechecks e sv h addr = (Inr (m, a, had), sv')"
  shows "getMeta (sv_db sv) h = Some m \<and> may_take e m a addr \<and> had = holdsTask (getState (sv_db sv) h) addr \<and>
    (\<not> had \<longrightarrow> fits_agent e (sv_db sv) h a m) \<and> sv' = sv\<lparr>sv_db := snd (getOffer (sv_db sv) (ac_now e) h)\<rparr>"
proof -
  obtain m' where m: "getMeta (sv_db sv) h = Some m'"
    using assms by (cases "getMeta (sv_db sv) h") (simp_all add: accept_prechecks_def)
  have o: "submissionMode m' \<noteq> Some OpenSubmission" "\<not> past_deadline_of e m' 0"
    using assms m by (auto simp: accept_prechecks_def split: if_splits)
  obtain a' where c: "caller_gate e m' addr = Inr a'"
    using assms m o by (cases "caller_gate e m' addr") (simp_all add: accept_prechecks_def)
  let ?db = "snd (getOffer (sv_db sv) (ac_now e) h)"
  have st: "getState ?db h = getState (sv_db sv) h" by (rule getState_cong) simp
  have "m' = m \<and> a' = a \<and> had = holdsTask (getState (sv_db sv) h) addr \<and> (\<not> had \<longrightarrow> fits_agent e ?db h a m) \<and>
      sv' = sv\<lparr>sv_db := ?db\<rparr>"
    using assms m o c st unfolding unfit_None [symmetric]
    by (auto simp: accept_prechecks_def Let_def split: option.splits if_splits)
  with m o gate_may_take [OF c o] fits_agent_cong [of ?db "sv_db sv" e h a m] show ?thesis by simp
qed

section \<open>Only what the escrow gives\<close>

definition escrow_gives :: "bridge \<Rightarrow> string \<Rightarrow> string \<Rightarrow> bool" where
  "escrow_gives b h addr \<longleftrightarrow>
     (\<exists>db res t. escrow_task_of b db h res t \<and>
        (let w = resolveAssignee b addr (rt_chain res) in
         escrow_names b (rt_chain res) (rt_taskId res) w addr \<or>
         (\<exists>tx. br_assign b (rt_chain res) (rt_taskId res) w = Inr tx \<and> br_wait b tx = Mined True)))"

lemma settle_for_success:
  assumes "fst (settle_for e sv h addr) = Inr s" "sr_success s"
  shows "escrow_gives (rq_bridge (ac_req e)) h addr"
proof -
  obtain r calls db' where r: "settleAssignment (rq_bridge (ac_req e)) (sv_db sv) (ac_now e) h addr = (r, calls, db')"
    by (cases "settleAssignment (rq_bridge (ac_req e)) (sv_db sv) (ac_now e) h addr")
  with assms(1) have "r = Inr s" by (simp add: settle_for_def)
  with settled_assignment [OF r] assms(2) show ?thesis unfolding escrow_gives_def Let_def by blast
qed

lemma accept_again_success:
  "fst (accept_again e sv h addr) = Inr rep \<Longrightarrow> escrow_gives (rq_bridge (ac_req e)) h addr"
  by (auto simp: accept_again_def refuse_accept_def Let_def split: sum.splits if_splits intro: settle_for_success)

lemma accept_settled_success:
  "fst (accept_settled e sv h addr m slice res) = Inr rep \<Longrightarrow> escrow_gives (rq_bridge (ac_req e)) h addr"
  by (auto simp: accept_settled_def Let_def split: sum.splits if_splits intro: settle_for_success)

lemma accept_open_success:
  "fst (accept_open e sv h addr m a res) = Inr rep \<Longrightarrow> escrow_gives (rq_bridge (ac_req e)) h addr"
  by (auto simp: accept_open_def accept_won_def Let_def split: sum.splits cas.splits if_splits option.splits prod.splits
      intro: accept_settled_success)

lemma accept_fresh_success:
  "fst (accept_fresh e sv h addr m a) = Inr rep \<Longrightarrow> escrow_gives (rq_bridge (ac_req e)) h addr"
  by (auto simp: accept_fresh_def refuse_accept_def Let_def split: sum.splits if_splits intro: accept_open_success)

text \<open>The run of an accept past its prechecks and the lock.\<close>

definition with_lock :: "accept_env \<Rightarrow> server \<Rightarrow> string \<Rightarrow> string \<Rightarrow> bool \<times> server" where
  "with_lock e sv h addr =
     (let db1 = snd (getOffer (sv_db sv) (ac_now e) h);
          l = acquireAcceptLock (ac_beforeLock e db1) (ac_now e) h addr (ac_token e)
      in (fst l, sv\<lparr>sv_db := snd l\<rparr>))"

definition give_lock_back :: "accept_env \<Rightarrow> server \<Rightarrow> string \<Rightarrow> string \<Rightarrow> server" where
  "give_lock_back e sv h addr =
     sv\<lparr>sv_db := snd (releaseAcceptLock (sv_db sv) (ac_done e) h addr (ac_token e))\<rparr>"

lemma acceptTask_cases:
  obtains (refused) x sv' where "accept_prechecks e sv h addr = (Inl x, sv')" "acceptTask e sv h addr = (Inl x, sv')"
  | (no_hash) "\<not> is_task_hash h" "acceptTask e sv h addr = (Inl (AppError 400 ''VALIDATION_ERROR''), sv)"
  | (is_locked) m a had where "accept_prechecks e sv h addr = (Inr (m, a, had), sv\<lparr>sv_db := snd (getOffer (sv_db sv) (ac_now e) h)\<rparr>)"
      "\<not> fst (with_lock e sv h addr)"
      "acceptTask e sv h addr =
         (Inl (AppError 409 ''ACCEPT_LOCKED''), log_attempt e (snd (with_lock e sv h addr)) h addr ''rejected_locked'')"
  | (takes) m a had where "accept_prechecks e sv h addr = (Inr (m, a, had), sv\<lparr>sv_db := snd (getOffer (sv_db sv) (ac_now e) h)\<rparr>)"
      "fst (with_lock e sv h addr)"
      "acceptTask e sv h addr =
         (let r = accept_locked e (snd (with_lock e sv h addr)) h addr m a had
          in (fst r, give_lock_back e (snd r) h addr))"
proof (cases "is_task_hash h")
  case False
  then show ?thesis by (intro no_hash) (simp_all add: acceptTask_def)
next
  case h: True
  show ?thesis
  proof (cases "accept_prechecks e sv h addr")
    case (Pair r sv1)
    show ?thesis
    proof (cases r)
      case (Inl x)
      with h Pair show ?thesis by (intro refused [of x sv1]) (simp_all add: acceptTask_def)
    next
      case (Inr p)
      obtain m a had where p: "p = (m, a, had)" by (cases p)
      note c = Pair [unfolded Inr p]
      from prechecks_passed [OF c] have sv1: "sv1 = sv\<lparr>sv_db := snd (getOffer (sv_db sv) (ac_now e) h)\<rparr>" by simp
      show ?thesis
      proof (cases "fst (with_lock e sv h addr)")
        case True
        then show ?thesis
          by (intro takes [OF c [unfolded sv1]])
            (simp_all add: acceptTask_def h c sv1 with_lock_def give_lock_back_def Let_def)
      next
        case False
        then show ?thesis
          by (intro is_locked [OF c [unfolded sv1]])
            (simp_all add: acceptTask_def h c sv1 with_lock_def refuse_accept_def Let_def)
      qed
    qed
  qed
qed


section \<open>Nobody else\<close>

definition ac_alone :: "accept_env \<Rightarrow> bool" where
  "ac_alone e \<longleftrightarrow> alone (ac_req e) \<and> ac_beforeLock e = (\<lambda>db. db) \<and> ac_beforeCas e = (\<lambda>db. db) \<and>
     ac_whileRewrapping e = (\<lambda>db. db)"

section \<open>The lock\<close>

lemma updateState_locks: "updateState db h ps = Inr (u, db') \<Longrightarrow> accept_locks db' = accept_locks db"
  by (auto simp: updateState_def put_state_def Let_def split: option.splits)

lemma safely_locks [simp]: "accept_locks (safely db (updateState db h ps)) = accept_locks db"
  by (auto simp: safely_def dest: updateState_locks split: sum.splits)

lemma bookkeeping_locks [simp]:
  "accept_locks (safePersistAssignError db h msg) = accept_locks db" "accept_locks (safeClearAssignError db h) = accept_locks db"
  "accept_locks (markAssignBroadcast db now h tx t) = accept_locks db"
  by (simp_all add: safePersistAssignError_def safeClearAssignError_def markAssignBroadcast_def split: option.split)

lemma settle_parts_locks [simp]:
  "accept_locks (snd (confirmAssignedWorker b db tid w h c x)) = accept_locks db"
  "accept_locks (snd (settleUnconfirmedAssignment b db h tid w x c tx rv reason)) = accept_locks db"
  "accept_locks (snd (assign_refused b db tid w h c x msg)) = accept_locks db"
  by (auto simp: confirmAssignedWorker_def settleUnconfirmedAssignment_def assign_refused_def Let_def
      split: sum.split option.split)

lemma broadcast_locks: "quiet b \<Longrightarrow> accept_locks (snd (after_broadcast b db now tid w h c x tx)) = accept_locks db"
  by (auto simp: after_broadcast_def quiet_def Let_def dest: updateState_locks split: sum.split wait_answer.split)

lemma settleAssignment_locks:
  "quiet b \<Longrightarrow> accept_locks (snd (snd (settleAssignment b db now h x))) = accept_locks db"
  by (auto simp: settleAssignment_def send_assignment_def quiet_def [of b] broadcast_locks Let_def
      split: option.split escrow_read.split sum.split)

lemma store_locks [simp]:
  "accept_locks (snd (tryAccept db h x t)) = accept_locks db" "accept_locks (snd (tryExpire db h why)) = accept_locks db"
  "accept_locks (snd (tryReleaseAccepted db h ex)) = accept_locks db"
  "accept_locks (snd (mergeWrappedKeys db h adds)) = accept_locks db"
  "accept_locks (clearOffer db h) = accept_locks db" "accept_locks (clearCascade db h) = accept_locks db"
  "accept_locks (startSettlementDeadline db t h) = accept_locks db"
  "accept_locks (clearSettlementDeadline db h) = accept_locks db"
  "accept_locks (logAcceptAttempt db t h x what k) = accept_locks db"
  by (simp_all add: snd_tryAccept accept_script_def tryExpire_def tryReleaseAccepted_def release_script_def
      mergeWrappedKeys_def clearOffer_def clearCascade_def startSettlementDeadline_def clearSettlementDeadline_def
      logAcceptAttempt_def put_state_def Let_def split: option.split)

definition sv_locks :: "server \<Rightarrow> string kv" where
  "sv_locks sv = accept_locks (sv_db sv)"

lemma sv_locks_parts [simp]:
  "sv_locks (log_attempt e sv h addr what) = sv_locks sv" "sv_locks (tell h ev sv) = sv_locks sv"
  "sv_locks (snd (releaseAndAnnounce r sv h m x)) = sv_locks sv" "sv_locks (best_effort sv h ps) = sv_locks sv"
  "sv_locks (snd (refuse_accept e sv h addr y)) = sv_locks sv"
  "sv_locks (snd (snd (settlement_failed e sv h addr m s))) = sv_locks sv"
  "sv_locks (sv\<lparr>sv_gas := g\<rparr>) = sv_locks sv" "sv_locks (sv\<lparr>sv_bids := bs\<rparr>) = sv_locks sv"
  by (auto simp: sv_locks_def log_attempt_def best_effort_def refuse_accept_def settlement_failed_def
      split: option.split)

lemma settle_for_locks:
  assumes "ac_alone e"
  shows "sv_locks (snd (settle_for e sv h addr)) = sv_locks sv"
  using settleAssignment_locks [of "rq_bridge (ac_req e)" "sv_db sv" "ac_now e" h addr] assms
  by (auto simp: settle_for_def sv_locks_def ac_alone_def alone_def split: prod.split)

lemma accept_settled_locks:
  assumes "ac_alone e"
  shows "sv_locks (snd (snd (accept_settled e sv h addr m slice res))) = sv_locks sv"
proof -
  let ?sv = "sv\<lparr>sv_db := startSettlementDeadline (clearCascade (clearOffer (sv_db sv) h) h) (ac_now e) h\<rparr>"
  have "sv_locks (snd (settle_for e ?sv h addr)) = sv_locks sv"
    unfolding settle_for_locks [OF assms] by (simp add: sv_locks_def)
  then show ?thesis
    by (auto simp: accept_settled_def Let_def split: sum.split) (simp add: sv_locks_def)
qed

lemma accept_open_locks:
  assumes "ac_alone e"
  shows "sv_locks (snd (snd (accept_open e sv h addr m a res))) = sv_locks sv"
  using assms accept_settled_locks [OF assms]
  by (auto simp: accept_open_def accept_won_def ac_alone_def Let_def split: sum.split cas.split option.split prod.split)
    (auto simp: sv_locks_def)

lemma accept_locked_locks:
  assumes "ac_alone e"
  shows "sv_locks (snd (accept_locked e sv h addr m a had)) = sv_locks sv"
proof -
  have "sv_locks (snd (accept_again e sv h addr)) = sv_locks sv"
    using settle_for_locks [OF assms] by (auto simp: accept_again_def Let_def split: sum.split)
  moreover have "sv_locks (snd (accept_fresh e sv h addr m a)) = sv_locks sv"
    using accept_open_locks [OF assms] by (auto simp: accept_fresh_def Let_def split: sum.split)
  ultimately show ?thesis by (auto simp: accept_locked_def split: option.split)
qed

lemma prechecks_locks: "sv_locks (snd (accept_prechecks e sv h addr)) = sv_locks sv"
proof (cases "accept_prechecks e sv h addr")
  case (Pair r sv1)
  show ?thesis
  proof (cases "getMeta (sv_db sv) h")
    case None
    then show ?thesis by (simp add: accept_prechecks_def)
  next
    case (Some m)
    have "sv_locks (sv\<lparr>sv_db := snd (tryExpire (sv_db sv) h Expired)\<rparr>) = sv_locks sv"
      "sv_locks (sv\<lparr>sv_db := snd (getOffer (sv_db sv) (ac_now e) h)\<rparr>) = sv_locks sv"
      by (simp_all add: sv_locks_def)
    with Some show ?thesis
      by (auto simp: accept_prechecks_def Let_def split: sum.split option.split)
  qed
qed

text \<open>A key set only if absent, and deleted only if it is still ours: nothing is left of it.\<close>

lemma kv_set_and_given_back:
  assumes free: "kv_get now L k = None" and t: "done \<le> t" "now \<le> t"
  shows "kv_get t (snd (kv_cad done (L(k \<mapsto> (v, Some (now + 1000 * ttl)))) k v)) g = kv_get t L g"
proof (cases "g = k")
  case True
  have "kv_get t L k = None" by (rule kv_get_later_None [OF free t(2)])
  with True t(1) show ?thesis by (simp add: kv_cad_def kv_del_def kv_get_def)
next
  case False
  then show ?thesis by (simp add: kv_cad_def kv_del_def kv_get_def)
qed

text \<open>
  C26. An accept leaves every lock as it found it. When nobody else writes, the accept locks are
  from the end of the request on what they were: the lock it took is given back or has lapsed,
  another request's is untouched. And while another holds the task's lock it answers an error.
\<close>

theorem accept_leaves_the_locks:
  assumes "ac_alone e" "ac_now e \<le> ac_done e" "ac_done e \<le> t"
  shows "kv_get t (accept_locks (sv_db (snd (acceptTask e sv h addr)))) g = kv_get t (accept_locks (sv_db sv)) g \<and>
    (kv_get (ac_now e) (accept_locks (sv_db sv)) (lower h) \<noteq> None \<longrightarrow> (\<exists>x. fst (acceptTask e sv h addr) = Inl x))"
proof (cases rule: acceptTask_cases [of e sv h addr])
  case (refused x sv')
  with prechecks_locks [of e sv h addr] show ?thesis by (simp add: sv_locks_def)
next
  case (is_locked m a had)
  let ?sv1 = "snd (with_lock e sv h addr)"
  have "sv_locks ?sv1 = sv_locks sv"
    using is_locked(2) assms(1)
    by (auto simp: with_lock_def sv_locks_def ac_alone_def acquireAcceptLock_def kv_setnx_def Let_def split: if_splits)
  with sv_locks_parts(1) [of e ?sv1 h addr "''rejected_locked''"] is_locked(3) show ?thesis by (simp add: sv_locks_def)
next
  case (takes m a had)
  let ?sv1 = "snd (with_lock e sv h addr)" and ?L = "accept_locks (sv_db sv)" and ?v = "acceptLockValue addr (ac_token e)"
  have free: "kv_get (ac_now e) ?L (lower h) = None"
    using takes(2) assms(1) by (simp add: with_lock_def ac_alone_def acquireAcceptLock_def redis_simps Let_def)
  have L1: "accept_locks (sv_db ?sv1) = ?L(lower h \<mapsto> (?v, Some (ac_now e + 1000 * ACCEPT_LOCK_TTL_S)))"
    using free assms(1) by (simp add: with_lock_def ac_alone_def acquireAcceptLock_def kv_setnx_def Let_def)
  have "accept_locks (sv_db (snd (accept_locked e ?sv1 h addr m a had))) = accept_locks (sv_db ?sv1)"
    using accept_locked_locks [OF assms(1)] by (simp add: sv_locks_def)
  with takes(3) L1 have "accept_locks (sv_db (snd (acceptTask e sv h addr))) = snd (kv_cad (ac_done e)
      (?L(lower h \<mapsto> (?v, Some (ac_now e + 1000 * ACCEPT_LOCK_TTL_S)))) (lower h) ?v)"
    by (simp add: Let_def give_lock_back_def releaseAcceptLock_def)
  with kv_set_and_given_back [OF free assms(3)] assms free show ?thesis by simp
qed simp

section \<open>The sponsored budget\<close>

lemma settle_for_gas [simp]: "sv_gas (snd (settle_for e sv h addr)) = sv_gas sv"
  by (simp add: settle_for_def split: prod.split)

lemma gas_parts [simp]:
  "sv_gas (log_attempt e sv h addr what) = sv_gas sv" "sv_gas (best_effort sv h ps) = sv_gas sv"
  "sv_gas (snd (releaseAndAnnounce r sv h m x)) = sv_gas sv" "sv_gas (snd (refuse_accept e sv h addr y)) = sv_gas sv"
  by (auto simp: log_attempt_def best_effort_def refuse_accept_def releaseAndAnnounce_def Let_def
      split: option.split sum.split cas.split)

lemma settlement_failed_gas [simp]: "sv_gas (snd (snd (settlement_failed e sv h addr m s))) = sv_gas sv"
  by (simp add: settlement_failed_def split: option.split)

lemma settlement_failed_keep: "fst (snd (settlement_failed e sv h addr m s)) \<Longrightarrow>
    fst (settlement_failed e sv h addr m s) = AppError 503 ''ASSIGNMENT_PENDING''"
  by (simp add: settlement_failed_def split: option.splits if_splits)

text \<open>Until it is settled an accept leaves the gas tables; then it starts its reservation's hour.\<close>

definition gas_kept ::
  "accept_env \<Rightarrow> server \<Rightarrow> reservation option \<Rightarrow> (app_error + accept_reply) \<times> bool \<times> server \<Rightarrow> bool" where
  "gas_kept e sv res out \<longleftrightarrow>
     (\<forall>x. fst out = Inl x \<longrightarrow> sv_gas (snd (snd out)) = sv_gas sv \<and>
        (fst (snd out) \<longrightarrow> x = AppError 503 ''ASSIGNMENT_PENDING'')) \<and>
     (\<forall>rep. fst out = Inr rep \<longrightarrow> fst (snd out) \<and> (ar_gasSponsored rep \<longleftrightarrow> res \<noteq> None) \<and>
        sv_gas (snd (snd out)) = (case res of None \<Rightarrow> sv_gas sv
          | Some g \<Rightarrow> startReservationAfterAssign (sv_gas sv) (ac_done e) g))"

lemma accept_settled_gas: "gas_kept e sv res (accept_settled e sv h addr m slice res)"
  using settle_for_gas [of e "sv\<lparr>sv_db := startSettlementDeadline (clearCascade (clearOffer (sv_db sv) h) h) (ac_now e) h\<rparr>" h addr]
  by (auto simp: accept_settled_def gas_kept_def tell_def Let_def dest: settlement_failed_keep split: sum.split option.split)

lemma gas_kept_db [simp]: "gas_kept e (sv\<lparr>sv_db := db\<rparr>) res out = gas_kept e sv res out"
  by (cases res) (simp_all add: gas_kept_def)

lemma accept_open_gas: "gas_kept e sv res (accept_open e sv h addr m a res)"
proof -
  have c: "gas_kept e sv res (accept_settled e (sv\<lparr>sv_db := db\<rparr>) h addr m slice res)" for db slice
    using accept_settled_gas [of e "sv\<lparr>sv_db := db\<rparr>" res h addr m slice] by simp
  have w: "gas_kept e sv res (accept_won e (sv\<lparr>sv_db := db\<rparr>) h addr m a res)" for db
    using c by (auto simp: accept_won_def Let_def split: option.split) (simp_all add: gas_kept_def)
  show ?thesis using w
    by (auto simp: accept_open_def Let_def split: sum.split cas.split) (simp_all add: gas_kept_def)
qed

lemma reservation_given_back:
  assumes ok: "gas_ok db" and r: "reserve db now inp caps = (Inr (r, had), db1)"
    and g: "g \<in> set (g_reservations (releaseAcceptReservation db1 t r))" "rs_status g = RReserved"
  shows "g \<in> set (g_reservations db)"
proof -
  have g1: "g \<in> set (g_reservations db1)" "rs_id g \<noteq> rs_id r"
    using g by (auto simp: releaseAcceptReservation_def closeReservation_def set_update_where held_row_def Let_def
        split: option.splits)
  let ?prior = "find_reservation db (in_chainId inp) (in_taskId inp) (in_kind inp)"
  consider "db1 = db" | p where "?prior = Some p" "r = retaken inp now p"
      "db1 = db\<lparr>g_reservations := update_where (is_prior inp) (retaken inp now) (g_reservations db)\<rparr>"
    | "db1 = db\<lparr>g_reservations := g_reservations db @ [r]\<rparr>"
    using r by (auto simp: reserve_def Let_def split: if_splits option.splits)
  then show ?thesis
  proof cases
    case (2 p)
    show ?thesis
    proof (rule ccontr)
      assume "g \<notin> set (g_reservations db)"
      then obtain x where x: "x \<in> set (g_reservations db)" "is_prior inp x" "g = retaken inp now x"
        using g1(1) 2(3) by (auto simp: set_update_where)
      have "filter (is_prior inp) (g_reservations db) = [p]"
        using prior_unique [OF ok] 2(1) by (simp add: find_reservation_prior)
      moreover have "x \<in> set (filter (is_prior inp) (g_reservations db))" using x(1,2) by simp
      ultimately have "x = p" by simp
      with x(3) 2(2) g1(2) show False by simp
    qed
  qed (use g1 in auto)
qed

lemma reserveForAccept_reserves:
  assumes "reserveForAccept io memo resolves db now h m executor = (Inr r, db')"
  shows "\<exists>inp caps had. in_agentWallet inp = executor \<and> reserve db now inp caps = (Inr (r, had), db')"
  using assms by (rule reserveForAccept_steps) (intro exI conjI, assumption?, simp_all)

lemma reserveForAccept_refused: "fst (reserveForAccept io memo resolves db now h m executor) = Inl u \<Longrightarrow>
    snd (reserveForAccept io memo resolves db now h m executor) = db"
  by (auto simp: reserveForAccept_def reserve_def Let_def split: sum.splits if_splits option.splits)

lemma started_clock: "r \<in> set (g_reservations db) \<Longrightarrow> \<exists>g \<in> set (g_reservations (startReservationAfterAssign db t r)).
    rs_status g = rs_status r \<and> rs_agentWallet g = rs_agentWallet r"
  unfolding startReservationAfterAssign_def startReservationClock_def
  by (rule bexI [where x = "if held_row (rs_id r) r then r\<lparr>rs_expiresAt := t + 1000 * RESERVATION_TTL_SECONDS\<rparr> else r"])
    (auto simp: set_update_where)

definition budget_follows :: "server \<Rightarrow> string \<Rightarrow> (app_error + accept_reply) \<Rightarrow> server \<Rightarrow> bool" where
  "budget_follows sv addr r sv' \<longleftrightarrow>
     (\<forall>x. r = Inl x \<and> x \<noteq> AppError 503 ''ASSIGNMENT_PENDING'' \<longrightarrow>
        (\<forall>g \<in> set (g_reservations (sv_gas sv')). rs_status g = RReserved \<longrightarrow> g \<in> set (g_reservations (sv_gas sv)))) \<and>
     (\<forall>rep. r = Inr rep \<and> ar_gasSponsored rep \<longrightarrow>
        (\<exists>g \<in> set (g_reservations (sv_gas sv')). rs_status g = RReserved \<and> rs_agentWallet g = lower addr))"

lemma budget_untouched: "sv_gas sv' = sv_gas sv \<Longrightarrow> budget_follows sv addr (Inl x) sv'"
  by (simp add: budget_follows_def)

lemma fresh_budget:
  assumes ok: "gas_ok (sv_gas sv)"
  shows "budget_follows sv addr (fst (accept_fresh e sv h addr m a)) (snd (accept_fresh e sv h addr m a))"
proof (cases "ac_sponsorGas e")
  case False
  with accept_open_gas [of e sv None h addr m a] show ?thesis
    by (cases "fst (accept_open e sv h addr m a None)")
      (auto simp: accept_fresh_def gas_kept_def budget_follows_def Let_def)
next
  case True
  obtain o' db1 where g: "reserveForAccept (ac_sponsor e) (ac_roles e) (resolve (rq_world (ac_req e)) (sv_db sv)) (sv_gas sv)
      (ac_now e) h m addr = (o', db1)" by (cases "reserveForAccept (ac_sponsor e) (ac_roles e)
      (resolve (rq_world (ac_req e)) (sv_db sv)) (sv_gas sv) (ac_now e) h m addr")
  show ?thesis
  proof (cases o')
    case (Inl u)
    with g reserveForAccept_refused [of "ac_sponsor e" "ac_roles e" "resolve (rq_world (ac_req e)) (sv_db sv)" "sv_gas sv"
        "ac_now e" h m addr u] have "db1 = sv_gas sv" by simp
    with True g Inl show ?thesis
      by (auto simp: accept_fresh_def refuse_accept_def budget_follows_def Let_def)
  next
    case (Inr res)
    obtain inp caps had where r: "in_agentWallet inp = addr" "reserve (sv_gas sv) (ac_now e) inp caps = (Inr (res, had), db1)"
      using reserveForAccept_reserves [OF g [unfolded Inr]] by blast
    note in_db = closed_reservation_found [OF r(2)]
    note k = accept_open_gas [of e "sv\<lparr>sv_gas := db1\<rparr>" "Some res" h addr m a, unfolded gas_kept_def]
    show ?thesis
    proof (cases "fst (accept_open e (sv\<lparr>sv_gas := db1\<rparr>) h addr m a (Some res))")
      case (Inl x)
      with k True g Inr reservation_given_back [OF ok r(2)] show ?thesis
        by (auto simp: accept_fresh_def budget_follows_def Let_def)
    next
      case (Inr rep)
      have "\<exists>g \<in> set (g_reservations (startReservationAfterAssign db1 (ac_done e) res)).
          rs_status g = RReserved \<and> rs_agentWallet g = lower addr"
        using started_clock [of res db1 "ac_done e"] in_db r(1) by simp
      with k True g \<open>o' = Inr res\<close> Inr show ?thesis
        by (auto simp: accept_fresh_def budget_follows_def Let_def)
    qed
  qed
qed

lemma again_budget: "budget_follows sv addr (fst (accept_again e sv h addr)) (snd (accept_again e sv h addr))"
proof (cases "fst (accept_again e sv h addr)")
  case (Inl x)
  then have "sv_gas (snd (accept_again e sv h addr)) = sv_gas sv"
    by (auto simp: accept_again_def Let_def split: sum.splits if_splits)
  with Inl budget_untouched show ?thesis by simp
next
  case (Inr rep)
  then have gas: "sv_gas (snd (accept_again e sv h addr)) = sv_gas sv"
    by (auto simp: accept_again_def Let_def split: sum.splits if_splits)
  have "ar_gasSponsored rep \<Longrightarrow> \<exists>g \<in> set (g_reservations (sv_gas sv)). rs_status g = RReserved \<and> rs_agentWallet g = lower addr"
    using Inr by (auto simp: accept_again_def holdsReservation_def getReservation_def find_reservation_def
        refuse_accept_def Let_def find_Some_iff split: sum.splits if_splits option.splits bind_splits)
  with Inr gas show ?thesis by (auto simp: budget_follows_def)
qed

lemma refused_budget: "budget_follows sv addr (fst (refuse_accept e sv h addr r)) (snd (refuse_accept e sv h addr r))"
  by (simp add: refuse_accept_def budget_follows_def split: option.split)

lemma locked_budget:
  assumes "gas_ok (sv_gas sv)"
  shows "budget_follows sv addr (fst (accept_locked e sv h addr m a had)) (snd (accept_locked e sv h addr m a had))"
  unfolding accept_locked_def
  by (cases "if had then refuseUnfitExecutor (ac_req e) (sv_db sv) h a m else None")
    (simp_all add: again_budget refused_budget fresh_budget [OF assms])

lemma prechecks_gas: "sv_gas (snd (accept_prechecks e sv h addr)) = sv_gas sv"
  by (auto simp: accept_prechecks_def Let_def split: option.split sum.split)

text \<open>
  C18. A refused accept holds no sponsored gas. When \<open>/accept\<close> answers an error, every gas
  reservation that is held afterwards was held before, the one it took for the agent given back;
  only an accept whose assignment may still be mined keeps it. When it answers that the gas is
  sponsored, a reservation is held for that agent.
\<close>

theorem budget_follows_the_accept:
  assumes ok: "gas_ok (sv_gas sv)"
  shows "budget_follows sv addr (fst (acceptTask e sv h addr)) (snd (acceptTask e sv h addr))"
proof (cases rule: acceptTask_cases [of e sv h addr])
  case (refused x sv')
  with prechecks_gas [of e sv h addr] show ?thesis by (simp add: budget_follows_def)
next
  case (is_locked m a had)
  then show ?thesis by (simp add: budget_follows_def with_lock_def Let_def)
next
  case (takes m a had)
  have gas: "sv_gas (snd (with_lock e sv h addr)) = sv_gas sv" by (simp add: with_lock_def Let_def)
  with ok locked_budget [of "snd (with_lock e sv h addr)"] takes(3) show ?thesis
    by (simp add: budget_follows_def give_lock_back_def Let_def)
qed (simp add: budget_follows_def)

end
