(* ===== verification/AcceptOutcome.thy ===== *)
theory AcceptOutcome
  imports AcceptProps
begin

text \<open>
  Where a failed \<open>/accept\<close> leaves an open task when nobody else writes: open for the next agent,
  announced again if it had been taken, failed with the reason the escrow gave, or with whom the
  escrow names or may still name.
\<close>

section \<open>The state each error leaves\<close>

definition untaken :: "task_state \<Rightarrow> bool" where
  "untaken s \<longleftrightarrow> status s = Open \<and> executorAddress s = None"

definition ended :: "string \<Rightarrow> task_state \<Rightarrow> bool" where
  "ended why s \<longleftrightarrow> status s = Failed \<and> failedReason s = Some why"

definition with_agent :: "string \<Rightarrow> task_state \<Rightarrow> bool" where
  "with_agent addr s \<longleftrightarrow> status s = Accepted \<and> executorAddress s = Some addr"

fun left_by :: "string \<Rightarrow> app_error \<Rightarrow> task_state \<Rightarrow> bool" where
  "left_by addr (AppError n c) s \<longleftrightarrow>
     (if c = ''ASSIGNMENT_PENDING'' then with_agent addr s
      else if c = ''ASSIGNED_ELSEWHERE'' then status s = Accepted \<and> executorAddress s \<noteq> None
      else if c = ''TASK_CANCELLED'' then ended ''cancelled'' s \<and> executorAddress s = None
      else if c = ''ESCROW_MISMATCH'' then ended ''escrow_mismatch'' s \<and> executorAddress s = None
      else if c = ''TASK_EXPIRED'' then ended ''expired'' s \<or> untaken s
      else untaken s)"
| "left_by addr x s \<longleftrightarrow> untaken s \<or> with_agent addr s"

definition reopens :: "app_error \<Rightarrow> bool" where
  "reopens x \<longleftrightarrow> x \<in> {AppError 503 ''SETTLEMENT_FAILED'', AppError 503 ''REWRAP_FAILED''}"

definition failed_at :: "route_env \<Rightarrow> string \<Rightarrow> string \<Rightarrow> task_meta \<Rightarrow> app_error \<Rightarrow> server \<Rightarrow> server \<Rightarrow> bool" where
  "failed_at e h addr m x sv sv' \<longleftrightarrow>
     (\<exists>s'. getState (sv_db sv') h = Some s' \<and> left_by addr x s') \<and>
     sv_reopened sv' = sv_reopened sv @ (if reopens x then [announce_available (rq_world e) h m] else [])"

section \<open>What a lost settlement does\<close>

definition taken_at :: "a2a_db \<Rightarrow> string \<Rightarrow> string \<Rightarrow> string option \<Rightarrow> bool" where
  "taken_at db h addr tx \<longleftrightarrow>
     getMeta db h \<noteq> None \<and>
     (\<exists>k s. find_state db h = Some (k, s) \<and> with_agent addr s \<and> or_empty (assignTxHash s) = or_empty tx)"

lemma taken_at_cong:
  assumes "states db' = states db" "metas db' = metas db"
  shows "taken_at db' h addr tx = taken_at db h addr tx"
  unfolding taken_at_def getMeta_def find_state_cong [OF assms(1)] find_meta_cong [OF assms(2)] ..

lemma taken_at_tx: "or_empty tx = or_empty tx' \<Longrightarrow> taken_at db h addr tx = taken_at db h addr tx'"
  by (simp add: taken_at_def)

lemma log_attempt_parts [simp]:
  "states (sv_db (log_attempt e sv h addr what)) = states (sv_db sv)"
  "metas (sv_db (log_attempt e sv h addr what)) = metas (sv_db sv)"
  "sv_reopened (log_attempt e sv h addr what) = sv_reopened sv"
  by (simp_all add: log_attempt_def logAcceptAttempt_def Let_def)

lemma getState_log [simp]: "getState (sv_db (log_attempt e sv h addr what)) g = getState (sv_db sv) g"
  by (rule getState_cong) simp

lemma best_effort_state:
  assumes "find_state (sv_db sv) h = Some (k, s)"
  shows "getState (sv_db (best_effort sv h ps)) h = Some ((apply_patch ps s)\<lparr>stateTaskId := k\<rparr>)"
proof -
  obtain db' where u: "updateState (sv_db sv) h ps = Inr ((apply_patch ps s)\<lparr>stateTaskId := k\<rparr>, db')"
    by (rule update_found [OF assms])
  with updateState_getState [OF u] show ?thesis by (simp add: best_effort_def safely_def)
qed

lemma best_effort_reopened [simp]: "sv_reopened (best_effort sv h ps) = sv_reopened sv"
  by (simp add: best_effort_def)

lemma released_again:
  assumes t: "taken_at (sv_db sv) h addr tx"
    and r: "r = releaseAndAnnounce e sv h m \<lparr>exp_executor = Some addr, exp_tx = tx, exp_status = None\<rparr>"
  shows "\<exists>s'. getState (sv_db (snd r)) h = Some s' \<and> untaken s'"
    and "sv_reopened (snd r) = sv_reopened sv @ [announce_available (rq_world e) h m]"
proof -
  obtain m' k s where k: "getMeta (sv_db sv) h = Some m'" "find_state (sv_db sv) h = Some (k, s)" "with_agent addr s"
      "or_empty (assignTxHash s) = or_empty tx" using t by (auto simp: taken_at_def)
  let ?x = "\<lparr>exp_executor = Some addr, exp_tx = tx, exp_status = None\<rparr>"
  obtain db' where c: "tryReleaseAccepted (sv_db sv) h ?x = (Inr (Won ()), db')"
      "states db' = (states (sv_db sv))(k \<mapsto> bare_state k Open)"
    using k by (auto simp: tryReleaseAccepted_def release_script_def unchanged_since_def expected_status_def with_agent_def
        put_state_def Let_def)
  have "find_state db' h = Some (k, bare_state k Open)"
    using find_state_put [OF k(2)] find_state_cong [of db' "put_state (sv_db sv) k (bare_state k Open)"] c(2)
    by (simp add: put_state_def)
  then show "\<exists>s'. getState (sv_db (snd r)) h = Some s' \<and> untaken s'"
    using c(1) r by (auto simp: releaseAndAnnounce_def getState_def untaken_def Let_def)
  show "sv_reopened (snd r) = sv_reopened sv @ [announce_available (rq_world e) h m]"
    using c(1) r by (simp add: releaseAndAnnounce_def Let_def)
qed

lemma failed_atI: "getState (sv_db sv') h = Some s' \<Longrightarrow> left_by addr x s' \<Longrightarrow> sv_reopened sv' = sv_reopened sv \<Longrightarrow>
    \<not> reopens x \<Longrightarrow> failed_at e h addr m x sv sv'"
  by (auto simp: failed_at_def)

lemma failed_at_written:
  assumes "find_state (sv_db sv) h = Some (k, st)" "states (sv_db sv') = states (sv_db (best_effort sv h ps))"
    "sv_reopened sv' = sv_reopened sv" "left_by addr x ((apply_patch ps st)\<lparr>stateTaskId := k\<rparr>)" "\<not> reopens x"
  shows "failed_at e h addr m x sv sv'"
  using best_effort_state [OF assms(1), of ps] getState_cong [OF assms(2), of h] assms(3-5) by (auto simp: failed_at_def)

lemma failed_settlement:
  assumes t: "taken_at (sv_db sv) h addr (sr_txHash s)"
    and f: "settlement_failed e sv h addr m s = (x, b, sv')"
  shows "failed_at (ac_req e) h addr m x sv sv'"
proof -
  obtain k st where k: "find_state (sv_db sv) h = Some (k, st)" "status st = Accepted" "executorAddress st = Some addr"
    using t by (auto simp: taken_at_def with_agent_def)
  have g: "getState (sv_db sv) h = Some st" using k(1) by (simp add: getState_def)
  note written = failed_at_written [OF k(1)]
  consider (expired) "sr_expired s"
    | (cancelled) "\<not> sr_expired s" "sr_cancelled s"
    | (elsewhere) "\<not> sr_expired s" "\<not> sr_cancelled s" "sr_workerMismatch s"
    | (mismatch) "\<not> sr_expired s" "\<not> sr_cancelled s" "\<not> sr_workerMismatch s" "sr_escrowMismatch s"
    | (pending) "\<not> sr_expired s" "\<not> sr_cancelled s" "\<not> sr_workerMismatch s" "\<not> sr_escrowMismatch s" "sr_pending s"
    | (re) "\<not> sr_expired s" "\<not> sr_cancelled s" "\<not> sr_workerMismatch s" "\<not> sr_escrowMismatch s" "\<not> sr_pending s" by blast
  then show ?thesis
  proof cases
    case expired
    with f show ?thesis
      by (intro written [of sv' "[PStatus Failed, PFailedReason (Some ''expired'')]"])
        (auto simp: settlement_failed_def apply_patch_def ended_def reopens_def)
  next
    case cancelled
    with f show ?thesis
      by (intro written [of sv' "[PStatus Failed, PFailedReason (Some ''cancelled''), PExecutorAddress None]"])
        (auto simp: settlement_failed_def apply_patch_def ended_def reopens_def)
  next
    case elsewhere
    show ?thesis
    proof (cases "truthy (sr_onChainWorker s)")
      case None
      with f elsewhere have "x = AppError 409 ''ASSIGNED_ELSEWHERE''" "sv' = sv" by (simp_all add: settlement_failed_def)
      with g k(2,3) show ?thesis by (intro failed_atI [of sv' h st]) (simp_all add: reopens_def)
    next
      case (Some w)
      with f elsewhere k(2) show ?thesis
        by (intro written [of sv' "[PExecutorAddress (Some (reconcile_to e w))]"])
          (auto simp: settlement_failed_def apply_patch_def reopens_def)
    qed
  next
    case mismatch
    with f show ?thesis
      by (intro written [of sv' "[PStatus Failed, PFailedReason (Some ''escrow_mismatch''), PExecutorAddress None]"])
        (auto simp: settlement_failed_def apply_patch_def ended_def reopens_def)
  next
    case pending
    with f g k(2,3) show ?thesis
      by (intro failed_atI [of sv' h st]) (auto simp: settlement_failed_def with_agent_def reopens_def)
  next
    case re
    with f have "x = AppError 503 ''SETTLEMENT_FAILED''" "sv' = snd (releaseAndAnnounce (ac_req e) sv h m
        \<lparr>exp_executor = Some addr, exp_tx = sr_txHash s, exp_status = None\<rparr>)"
      by (simp_all add: settlement_failed_def)
    with released_again [OF t refl, of "ac_req e" m] show ?thesis by (simp add: failed_at_def reopens_def)
  qed
qed

section \<open>From the compare-and-set on\<close>

lemma settle_threw_kind: "settleAssignment b db now h e = (Inl x, calls, db') \<Longrightarrow> \<forall>n c. x \<noteq> AppError n c"
  by (auto simp: settleAssignment_def send_assignment_def Let_def
      split: option.splits if_splits escrow_read.splits sum.splits)

text \<open>The settlement keeps the task with the agent, and on it the transaction it reports.\<close>

lemma settled_for:
  assumes a: "ac_alone e" and t: "taken_at (sv_db sv) h addr None"
    and run: "settle_for e sv h addr = (r, sv')"
  shows "\<exists>tx. taken_at (sv_db sv') h addr tx \<and> (\<forall>s. r = Inr s \<and> \<not> sr_success s \<longrightarrow> tx = sr_txHash s)"
    and "\<forall>x. r = Inl x \<longrightarrow> (\<forall>n c. x \<noteq> AppError n c)" and "sv_reopened sv' = sv_reopened sv"
proof -
  obtain calls where run': "settleAssignment (rq_bridge (ac_req e)) (sv_db sv) (ac_now e) h addr = (r, calls, sv_db sv')"
      "sv_reopened sv' = sv_reopened sv"
    using run by (auto simp: settle_for_def split: prod.splits)
  obtain k s where k: "getMeta (sv_db sv) h \<noteq> None" "find_state (sv_db sv) h = Some (k, s)" "with_agent addr s"
      "or_empty (assignTxHash s) = []" using t by (auto simp: taken_at_def or_empty_def)
  have q: "quiet (rq_bridge (ac_req e))" using a by (simp add: ac_alone_def alone_def)
  have same: "taken_at (sv_db sv') h addr (assignTxHash s')" if "same_task (sv_db sv) (sv_db sv') h s s'" for s'
    using that k bridge_only_sel(1,2) [of s s'] find_meta_cong [of "sv_db sv'" "sv_db sv" h]
    by (auto simp: taken_at_def same_task_def with_agent_def getMeta_def)
  show "\<exists>tx. taken_at (sv_db sv') h addr tx \<and> (\<forall>s. r = Inr s \<and> \<not> sr_success s \<longrightarrow> tx = sr_txHash s)"
  proof (cases r)
    case (Inl x)
    have "kept (sv_db sv) (sv_db sv') h"
      using settle_threw_db [OF run'(1) [unfolded Inl] q] k(2) by (simp add: getState_def)
    then show ?thesis using Inl t same k(2) by (auto simp: kept_def same_task_def)
  next
    case (Inr y)
    from bookkept_settle [OF q k(2) run'(1) [unfolded Inr]] obtain s' where
      s': "same_task (sv_db sv) (sv_db sv') h s s'" "tx_follows s s' y" by (auto simp: bookkept_def)
    have "taken_at (sv_db sv') h addr (sr_txHash y)" if "\<not> sr_success y"
    proof (cases "sr_txHash y")
      case None
      with same [OF s'(1)] s'(2) that taken_at_tx [of "assignTxHash s" None] k(4) show ?thesis
        by (simp add: tx_follows_def or_empty_def)
    next
      case (Some tx)
      with same [OF s'(1)] s'(2) that show ?thesis by (simp add: tx_follows_def)
    qed
    with Inr same [OF s'(1)] show ?thesis by (cases "sr_success y") auto
  qed
  show "\<forall>x. r = Inl x \<longrightarrow> (\<forall>n c. x \<noteq> AppError n c)" using settle_threw_kind run'(1) by blast
  show "sv_reopened sv' = sv_reopened sv" by (rule run'(2))
qed

lemma failed_at_threw:
  assumes "taken_at (sv_db sv') h addr tx" "\<forall>n c. x \<noteq> AppError n c" "sv_reopened sv' = sv_reopened sv"
  shows "failed_at e h addr m x sv sv'"
  using assms by (cases x) (auto simp: taken_at_def failed_at_def getState_def reopens_def)

lemma failed_at_from: "failed_at e h addr m x sv1 sv' \<Longrightarrow> sv_reopened sv1 = sv_reopened sv \<Longrightarrow> failed_at e h addr m x sv sv'"
  by (simp add: failed_at_def)

lemma accept_settled_failed:
  assumes a: "ac_alone e" and t: "taken_at (sv_db sv) h addr None"
    and run: "accept_settled e sv h addr m slice res = (Inl x, b, sv')"
  shows "failed_at (ac_req e) h addr m x sv sv'"
proof -
  let ?sv = "sv\<lparr>sv_db := startSettlementDeadline (clearCascade (clearOffer (sv_db sv) h) h) (ac_now e) h\<rparr>"
  have t0: "taken_at (sv_db ?sv) h addr None"
    using t taken_at_cong [of "sv_db ?sv" "sv_db sv"]
    by (simp add: startSettlementDeadline_def clearCascade_def clearOffer_def)
  obtain r sv1 where r: "settle_for e ?sv h addr = (r, sv1)" by (cases "settle_for e ?sv h addr")
  note s = settled_for [OF a t0 r]
  have re: "sv_reopened sv1 = sv_reopened sv" using s(3) by simp
  show ?thesis
  proof (cases r)
    case (Inl y)
    with run r have x: "x = y" "sv' = sv1" by (auto simp: accept_settled_def Let_def)
    from s(1) obtain tx where "taken_at (sv_db sv1) h addr tx" by blast
    from failed_at_threw [OF this _ re] s(2) Inl x show ?thesis by blast
  next
    case (Inr y)
    with run r have f: "\<not> sr_success y" "settlement_failed e sv1 h addr m y = (x, b, sv')"
      by (auto simp: accept_settled_def Let_def prod_eq_iff split: if_splits)
    from s(1) Inr f(1) have "taken_at (sv_db sv1) h addr (sr_txHash y)" by blast
    from failed_at_from [OF failed_settlement [OF this f(2)] re] show ?thesis .
  qed
qed

lemma taken_at_merge:
  assumes "taken_at db h addr tx"
  shows "taken_at (snd (mergeWrappedKeys db h adds)) h addr tx"
proof -
  let ?db = "snd (mergeWrappedKeys db h adds)"
  have "states ?db = states db" by (simp add: mergeWrappedKeys_def Let_def split: option.split)
  moreover have "getMeta ?db h \<noteq> None"
    using assms by (auto simp: taken_at_def getMeta_def mergeWrappedKeys_def find_meta_def Let_def
        split: option.splits if_splits)
  ultimately show ?thesis using assms find_state_cong [of ?db db h] by (simp add: taken_at_def)
qed

lemma accept_won_failed:
  assumes a: "ac_alone e" and t: "taken_at (sv_db sv) h addr None"
    and run: "accept_won e sv h addr m ag res = (Inl x, b, sv')"
  shows "failed_at (ac_req e) h addr m x sv sv'"
proof (cases "can_self_heal e m addr")
  case False
  with run have "accept_settled e sv h addr m None res = (Inl x, b, sv')" by (simp add: accept_won_def)
  from accept_settled_failed [OF a t this] show ?thesis .
next
  case True
  then obtain k blob cu where c: "keyCustodyBlob m = Some (k, blob)" "ac_custody e = Some cu"
    by (auto simp: can_self_heal_def active_key_def split: option.splits)
  have alone: "sv\<lparr>sv_db := ac_whileRewrapping e (sv_db sv)\<rparr> = sv" using a by (simp add: ac_alone_def)
  show ?thesis
  proof (cases "cu_rewrap cu k blob (ax_publicKey ag)")
    case None
    with run True c alone have "x = AppError 503 ''REWRAP_FAILED''" "sv' = snd (releaseAndAnnounce (ac_req e) sv h m
        \<lparr>exp_executor = Some addr, exp_tx = None, exp_status = None\<rparr>)"
      by (simp_all add: accept_won_def Let_def)
    with released_again [OF t refl, of "ac_req e" m] show ?thesis by (simp add: failed_at_def reopens_def)
  next
    case (Some slice)
    let ?sv = "sv\<lparr>sv_db := snd (mergeWrappedKeys (sv_db sv) h [(lower addr, slice)])\<rparr>"
    have "accept_settled e ?sv h addr m (Some slice) res = (Inl x, b, sv')"
      using run True c Some alone by (simp add: accept_won_def Let_def)
    from accept_settled_failed [OF a _ this] taken_at_merge [OF t] show ?thesis
      by (auto intro: failed_at_from)
  qed
qed

text \<open>An open task with no assignment on record.\<close>

definition open_at :: "a2a_db \<Rightarrow> string \<Rightarrow> bool" where
  "open_at db h \<longleftrightarrow>
     (\<exists>k s. find_state db h = Some (k, s) \<and> untaken s \<and> or_empty (assignTxHash s) = []) \<and> getMeta db h \<noteq> None"

lemma accept_open_failed:
  assumes a: "ac_alone e" and o: "open_at (sv_db sv) h"
    and run: "accept_open e sv h addr m ag res = (Inl x, b, sv')"
  shows "failed_at (ac_req e) h addr m x sv sv'"
proof -
  obtain k s where k: "find_state (sv_db sv) h = Some (k, s)" "status s = Open" "or_empty (assignTxHash s) = []"
      "getMeta (sv_db sv) h \<noteq> None" using o by (auto simp: open_at_def untaken_def)
  let ?u = "(cjson_state s)\<lparr>status := Accepted, executorAddress := Some addr, acceptedAt := Some (ac_now e)\<rparr>"
  obtain db' where w: "tryAccept (sv_db sv) h addr (ac_now e) = (Inr (Won ?u), db')" "states db' = (states (sv_db sv))(k \<mapsto> ?u)"
      "metas db' = metas (sv_db sv)"
    using k by (auto simp: tryAccept_def accept_script_def put_state_def Let_def)
  have "find_state db' h = Some (k, ?u)"
    using find_state_put [OF k(1)] find_state_cong [of db' "put_state (sv_db sv) k ?u"] w(2) by (simp add: put_state_def)
  then have "taken_at (sv_db (sv\<lparr>sv_db := db'\<rparr>)) h addr None"
    using k(3,4) find_meta_cong [OF w(3), of h] by (auto simp: taken_at_def with_agent_def getMeta_def or_empty_def)
  moreover have "accept_won e (sv\<lparr>sv_db := db'\<rparr>) h addr m ag res = (Inl x, b, sv')"
    using run a w(1) by (simp add: accept_open_def ac_alone_def Let_def)
  ultimately show ?thesis using accept_won_failed [OF a] failed_at_from by fastforce
qed

section \<open>The whole request\<close>

lemma open_at_cong:
  assumes "states db' = states db" "metas db' = metas db"
  shows "open_at db' h = open_at db h"
  unfolding open_at_def getMeta_def find_state_cong [OF assms(1)] find_meta_cong [OF assms(2)] ..

text \<open>An error that leaves an open task open.\<close>

definition plain :: "app_error \<Rightarrow> bool" where
  "plain x \<longleftrightarrow> \<not> reopens x \<and> (\<forall>s addr. untaken s \<longrightarrow> left_by addr x s)"

lemma open_stays:
  assumes "open_at (sv_db sv) h" "states (sv_db sv') = states (sv_db sv)" "sv_reopened sv' = sv_reopened sv" "plain x"
  shows "failed_at e h addr m x sv sv'"
  using assms getState_cong [OF assms(2), of h] by (auto simp: open_at_def failed_at_def plain_def getState_def)

lemma plain_precheck [simp]: "plain LookupThrew" "plain (StoreThrew x)"
  "c \<notin> {''ASSIGNMENT_PENDING'', ''ASSIGNED_ELSEWHERE'', ''TASK_CANCELLED'', ''ESCROW_MISMATCH'', ''SETTLEMENT_FAILED'',
     ''REWRAP_FAILED''} \<Longrightarrow> plain (AppError n c)"
  by (auto simp: plain_def reopens_def)

lemma refuse_accept_parts [simp]:
  "fst (refuse_accept e sv h addr r) = Inl (snd r)"
  "states (sv_db (snd (refuse_accept e sv h addr r))) = states (sv_db sv)"
  "sv_reopened (snd (refuse_accept e sv h addr r)) = sv_reopened sv"
  by (simp_all add: refuse_accept_def split: option.split)

lemma plain_unfit: "refuseUnfitExecutor e db h a m = Some r \<Longrightarrow> plain (snd r)"
  by (auto simp: refuseUnfitExecutor_def precheck_def split: if_splits option.splits)

lemma plain_gate: "caller_gate e m addr = Inl r \<Longrightarrow> plain (snd r)"
  by (auto simp: caller_gate_def precheck_def split: if_splits option.splits bool.splits)

lemma accept_fresh_failed:
  assumes a: "ac_alone e" and o: "open_at (sv_db sv) h" and run: "accept_fresh e sv h addr m ag = (Inl x, sv')"
  shows "failed_at (ac_req e) h addr m x sv sv'"
proof (cases "ac_sponsorGas e")
  case False
  obtain b where "accept_open e sv h addr m ag None = (Inl x, b, sv')"
    using run False by (cases "accept_open e sv h addr m ag None") (auto simp: accept_fresh_def Let_def)
  from accept_open_failed [OF a o this] show ?thesis .
next
  case True
  let ?g = "reserveForAccept (ac_sponsor e) (ac_roles e) (resolve (rq_world (ac_req e)) (sv_db sv)) (sv_gas sv)
      (ac_now e) h m addr"
  show ?thesis
  proof (cases "fst ?g")
    case (Inl u)
    with run True have "x = unavailable_error u" "states (sv_db sv') = states (sv_db sv)" "sv_reopened sv' = sv_reopened sv"
      by (auto simp: accept_fresh_def refuse_accept_def Let_def)
    then show ?thesis using open_stays [OF o] by (simp add: unavailable_error_def)
  next
    case (Inr res)
    let ?r = "accept_open e (sv\<lparr>sv_gas := snd ?g\<rparr>) h addr m ag (Some res)"
    obtain b sv1 where r: "?r = (Inl x, b, sv1)"
      using run True Inr by (cases ?r) (auto simp: accept_fresh_def Let_def)
    have "failed_at (ac_req e) h addr m x (sv\<lparr>sv_gas := snd ?g\<rparr>) sv1"
      using accept_open_failed [OF a _ r] o by simp
    moreover have "sv_db sv' = sv_db sv1" "sv_reopened sv' = sv_reopened sv1"
      using run True Inr r by (auto simp: accept_fresh_def Let_def)
    ultimately show ?thesis by (simp add: failed_at_def)
  qed
qed

lemma accept_locked_failed:
  assumes a: "ac_alone e" and o: "open_at (sv_db sv) h" and run: "accept_locked e sv h addr m ag had = (Inl x, sv')"
  shows "failed_at (ac_req e) h addr m x sv sv'"
proof -
  have n: "\<not> holdsTask (getState (sv_db sv) h) addr"
    using o by (auto simp: open_at_def getState_def holdsTask_def untaken_def)
  show ?thesis
  proof (cases "if had then refuseUnfitExecutor (ac_req e) (sv_db sv) h ag m else None")
    case None
    with n run show ?thesis by (intro accept_fresh_failed [OF a o]) (simp add: accept_locked_def)
  next
    case (Some r)
    with n run have "x = snd r" "sv' = snd (refuse_accept e sv h addr r :: (app_error + accept_reply) \<times> server)"
      by (auto simp: accept_locked_def refuse_accept_def)
    moreover have "plain (snd r)" using plain_unfit Some by (auto split: if_splits)
    ultimately show ?thesis by (intro open_stays [OF o]) simp_all
  qed
qed

lemma expired_now:
  assumes o: "open_at (sv_db sv) h" and s: "states (sv_db sv') = states (snd (tryExpire (sv_db sv) h Expired))"
    "sv_reopened sv' = sv_reopened sv"
  shows "failed_at e h addr m (AppError 409 ''TASK_EXPIRED'') sv sv'"
proof -
  obtain k t where k: "find_state (sv_db sv) h = Some (k, t)" "status t = Open" using o by (auto simp: open_at_def untaken_def)
  obtain u where u: "states (sv_db sv') = (states (sv_db sv))(k \<mapsto> u)" "ended ''expired'' u"
    using k s(1) by (auto simp: tryExpire_def put_state_def ended_def Let_def)
  have "find_state (sv_db sv') h = Some (k, u)"
    using find_state_put [OF k(1)] find_state_cong [of "sv_db sv'" "put_state (sv_db sv) k u"] u(1) by (simp add: put_state_def)
  with u(2) s(2) show ?thesis by (auto simp: failed_at_def getState_def reopens_def)
qed

lemma prechecks_failed:
  assumes o: "open_at (sv_db sv) h" and run: "accept_prechecks e sv h addr = (Inl x, sv')"
    and m: "getMeta (sv_db sv) h = Some m"
  shows "failed_at (ac_req e) h addr m x sv sv'"
proof (cases "submissionMode m = Some OpenSubmission \<or> past_deadline_of e m 0")
  case True
  show ?thesis
  proof (cases "submissionMode m \<noteq> Some OpenSubmission \<and> past_deadline_of e m EXPIRY_GRACE_SEC")
    case True
    with \<open>_ \<or> _\<close> run m show ?thesis
      by (auto simp: accept_prechecks_def precheck_def refuse_accept_def intro!: expired_now [OF o])
  next
    case False
    have "plain x" "states (sv_db sv') = states (sv_db sv)" "sv_reopened sv' = sv_reopened sv"
      using True False run m by (auto simp: accept_prechecks_def precheck_def refuse_accept_def split: if_splits)
    then show ?thesis by (intro open_stays [OF o])
  qed
next
  case live: False
  have "plain x \<and> states (sv_db sv') = states (sv_db sv) \<and> sv_reopened sv' = sv_reopened sv"
  proof (cases "caller_gate e m addr")
    case (Inl r)
    with live run m plain_gate [OF Inl] show ?thesis
      by (auto simp: accept_prechecks_def refuse_accept_def split: option.splits)
  next
    case (Inr ag)
    with live run m show ?thesis
      by (auto simp: accept_prechecks_def refuse_accept_def precheck_def Let_def dest: plain_unfit split: if_splits option.splits)
  qed
  then show ?thesis by (intro open_stays [OF o]) simp_all
qed


section \<open>An accept to evaluate on\<close>

definition some_hash :: string where
  "some_hash = ''0x'' @ replicate 64 (CHR ''a'')"

lemma some_hash_eval [simp]: "is_task_hash some_hash" "lower some_hash = some_hash"
  by (simp_all add: some_hash_def is_task_hash_def hex_digit_def lower_eval map_replicate list_all_iff)

definition offered_meta :: task_meta where
  "offered_meta = arc_meta\<lparr>chainId := Some 5042002\<rparr>"

definition agent_b :: agent_executor where
  "agent_b =
     \<lparr>ax_address = ''0xb'', ax_displayName = ''b'', ax_capabilities = [], ax_preferred = None, ax_minReward = None,
      ax_tasksCompleted = 0, ax_publicKey = None, ax_supportedChains = Some [''arc'']\<rparr>"

definition open_task :: onchain_task where
  "open_task = the_task\<lparr>oc_taskHash := some_hash\<rparr>"

text \<open>The bridge takes the address, or finds it to be none.\<close>

definition taker_bridge :: "bool \<Rightarrow> bridge" where
  "taker_bridge ok = arc_bridge\<lparr>br_isAddress := (\<lambda>_. ok), br_read := (\<lambda>_ _ _. Inr open_task)\<rparr>"

definition taker_env :: "bool \<Rightarrow> accept_env" where
  "taker_env ok =
     \<lparr>ac_req = (life_env open_task)\<lparr>rq_bridge := taker_bridge ok\<rparr>, ac_registry = Some [agent_b], ac_hosted = Some [],
      ac_custody = None, ac_sponsor = arc_sponsor open_task, ac_roles = None, ac_token = ''t'', ac_sponsorGas = False,
      ac_kept = 0, ac_done = 6, ac_beforeLock = (\<lambda>db. db), ac_beforeCas = (\<lambda>db. db),
      ac_whileRewrapping = (\<lambda>db. db)\<rparr>"

definition taker_server :: server where
  "taker_server =
     empty_server\<lparr>sv_db := empty_db\<lparr>metas := [some_hash \<mapsto> offered_meta], states := [some_hash \<mapsto> bare_state some_hash Open]\<rparr>\<rparr>"

lemma taker_sel [simp]:
  "ac_registry (taker_env ok) = Some [agent_b]" "ac_hosted (taker_env ok) = Some []" "ac_custody (taker_env ok) = None"
  "ac_sponsorGas (taker_env ok) = False" "ac_now (taker_env ok) = 5" "ac_done (taker_env ok) = 6"
  "rq_bridge (ac_req (taker_env ok)) = taker_bridge ok"
  by (simp_all add: taker_env_def ac_now_def)

lemma taker_alone: "ac_alone (taker_env ok)"
  using arc_quiet by (simp add: ac_alone_def alone_def quiet_def taker_env_def taker_bridge_def life_env_def)

lemma taker_meta: "getMeta (sv_db taker_server) some_hash = Some offered_meta"
  by (simp add: taker_server_def getMeta_def find_meta_def)

lemma taker_open: "open_at (sv_db taker_server) some_hash"
  using taker_meta
  by (simp add: open_at_def taker_server_def find_state_def untaken_def bare_state_def or_empty_def)

lemma taker_state: "getState (sv_db taker_server) some_hash = Some (bare_state some_hash Open)"
  by (simp add: taker_server_def getState_def find_state_def)

lemma offered_meta_sel [simp]:
  "submissionMode offered_meta = None" "deadline offered_meta = None" "posterAddress offered_meta = Some ''0xA''"
  "verifierAddress offered_meta = None" "targetExecutor offered_meta = None" "rootHash offered_meta = None" "chain offered_meta = Some ''arc''"
  "keyCustodyBlob offered_meta = None" "chainId offered_meta = Some 5042002"
  by (simp_all add: offered_meta_def arc_meta_def sample_meta_def)

lemma agent_b_fits: "\<not> hasRewardFloor agent_b" "supportsTaskChain (ax_supportedChains agent_b) (Some ''arc'')"
  by code_simp+

lemma taker_passes:
  "accept_prechecks (taker_env ok) taker_server some_hash ''0xB'' = (Inr (offered_meta, agent_b, False), taker_server)"
proof -
  have "caller_gate (taker_env ok) offered_meta ''0xB'' = Inr agent_b"
    by (simp add: caller_gate_def getAgent_def agent_b_def same_owner_def needs_wrap_def can_self_heal_def
        is_address_def)
  moreover have "getOffer (sv_db taker_server) 5 some_hash = (None, sv_db taker_server)"
    by (simp add: getOffer_def taker_server_def empty_db_def kv_get_def)
  moreover have "refuseUnfitExecutor (ac_req (taker_env ok)) (sv_db taker_server) some_hash agent_b offered_meta = None"
    using agent_b_fits by (simp add: refuseUnfitExecutor_def)
  ultimately show ?thesis
    by (simp add: accept_prechecks_def taker_meta past_deadline_of_def taker_state holdsTask_def bare_state_def Let_def)
qed

text \<open>With a bad address the settlement sends nothing; with a good one the node mines it.\<close>

abbreviation taker_run :: "bool \<Rightarrow> (app_error + accept_reply) \<times> server" where
  "taker_run ok \<equiv> acceptTask (taker_env ok) taker_server some_hash ''0xB''"

lemma taker_takes:
  shows "fst (with_lock (taker_env ok) taker_server some_hash ''0xB'')"
    and "states (sv_db (snd (with_lock (taker_env ok) taker_server some_hash ''0xB''))) = [some_hash \<mapsto> bare_state some_hash Open]"
    and "metas (sv_db (snd (with_lock (taker_env ok) taker_server some_hash ''0xB''))) = [some_hash \<mapsto> offered_meta]"
  using taker_alone [of ok]
  by (simp_all add: with_lock_def ac_alone_def acquireAcceptLock_def kv_setnx_def kv_get_def taker_server_def empty_db_def
      Let_def)

lemma settle_for_fst:
  "fst (settle_for e sv h addr) = fst (settleAssignment (rq_bridge (ac_req e)) (sv_db sv) (ac_now e) h addr)"
  by (simp add: settle_for_def split: prod.split)

lemma taker_settles:
  assumes st: "states (sv_db sv) = [some_hash \<mapsto> s]" and me: "metas (sv_db sv) = [some_hash \<mapsto> offered_meta]"
  shows "\<exists>r. fst (settle_for (taker_env ok) sv some_hash ''0xB'') = Inr r \<and> sr_success r = ok \<and>
    \<not> sr_expired r \<and> \<not> sr_cancelled r \<and> \<not> sr_workerMismatch r \<and> \<not> sr_escrowMismatch r \<and> \<not> sr_pending r"
proof (cases ok)
  case False
  then show ?thesis
    by (simp add: settle_for_def settleAssignment_def taker_bridge_def settle_failed_def Let_def)
next
  case True
  let ?b = "taker_bridge True"
  have k: "find_state (sv_db sv) some_hash = Some (some_hash, s)" using st by (simp add: find_state_def)
  have "\<not> isZeroAddress ''0xE2''" by (auto simp: isZeroAddress_def dest: arg_cong [where f = length])
  then have f: "waitForResolvedTask (br_world ?b) (sv_db sv) some_hash (br_polls ?b) = Some (Some \<lparr>rt_taskId = ''7'', rt_chain = Arc\<rparr>)"
    using me by (simp add: taker_bridge_def arc_bridge_def quiet_world_def arc_index_def resolveTaskByHash_def recordedChain_def
        indexesFor_def SEARCH_ORDER_def getMeta_def find_meta_def testnet_config_def build_arc_def addressOrNull_def
        onCurrentNetwork_def chain_key_of_def SETTLEMENT_CHAIN_KEYS_def Let_def)
  have rd: "readEscrowTask ?b Arc ''7'' some_hash = ReadOk open_task"
    by (simp add: readEscrowTask_def TASK_READS_def eval_nat_numeral taker_bridge_def open_task_def)
  have a: "br_isAddress ?b ''0xB''" "br_ready ?b Arc" "br_meanwhile ?b (sv_db sv) = sv_db sv"
    "br_tryAssign ?b Arc ''7'' ''0xB'' = None" "br_assign ?b Arc ''7'' ''0xB'' = Inr ''0xt''"
    "br_wait ?b ''0xt'' = Mined True"
    by (simp_all add: taker_bridge_def arc_bridge_def)
  have w: "resolveAssignee ?b ''0xB'' Arc = ''0xB''"
    by (simp add: resolveAssignee_def smartAccountSubmitUsable_def taker_bridge_def arc_bridge_def)
  obtain u db1 where u: "updateState (sv_db sv) some_hash [PAssignTxHash (Some ''0xt''), PAssignError None] = Inr (u, db1)"
    by (rule update_bridge_fields [OF k, of "[PAssignTxHash (Some ''0xt''), PAssignError None]"]) auto
  have "fst (settleAssignment ?b (sv_db sv) 5 some_hash ''0xB'') = Inr (settle_done\<lparr>sr_txHash := Some ''0xt'', sr_chain := Some Arc\<rparr>)"
    by (simp add: settleAssignment_def f rd a w send_assignment_def after_broadcast_def u Let_def)
  with True show ?thesis by (simp add: settle_for_fst settle_done_def settle_failed_def)
qed

text \<open>The task with the caller, and settled or not.\<close>

lemma settled_outcome_of:
  assumes st: "states (sv_db sv) = [some_hash \<mapsto> s]" and me: "metas (sv_db sv) = [some_hash \<mapsto> offered_meta]"
  shows "if ok then \<exists>rep. fst (accept_settled (taker_env ok) sv some_hash ''0xB'' offered_meta None None) = Inr rep
     else fst (accept_settled (taker_env ok) sv some_hash ''0xB'' offered_meta None None) = Inl (AppError 503 ''SETTLEMENT_FAILED'')"
proof -
  let ?sv = "sv\<lparr>sv_db := startSettlementDeadline (clearCascade (clearOffer (sv_db sv) some_hash) some_hash) 5 some_hash\<rparr>"
  have "states (sv_db ?sv) = [some_hash \<mapsto> s]" "metas (sv_db ?sv) = [some_hash \<mapsto> offered_meta]"
    using assms by (simp_all add: startSettlementDeadline_def clearCascade_def clearOffer_def)
  from taker_settles [OF this, of ok] show ?thesis
    by (auto simp: accept_settled_def settlement_failed_def Let_def)
qed

lemma taker_outcome:
  "if ok then \<exists>rep. fst (taker_run ok) = Inr rep else fst (taker_run ok) = Inl (AppError 503 ''SETTLEMENT_FAILED'')"
proof (cases rule: acceptTask_cases [of "taker_env ok" taker_server some_hash "''0xB''"])
  case (takes m a had)
  let ?sv = "snd (with_lock (taker_env ok) taker_server some_hash ''0xB'')"
  have p: "m = offered_meta" "a = agent_b" "\<not> had" using takes(1) taker_passes [of ok] by auto
  have k: "find_state (sv_db ?sv) some_hash = Some (some_hash, bare_state some_hash Open)"
    using taker_takes(2) by (simp add: find_state_def)
  let ?c = "tryAccept (sv_db ?sv) some_hash ''0xB'' 5"
  obtain u where c: "fst ?c = Inr (Won u)" "states (snd ?c) = [some_hash \<mapsto> u]" "metas (snd ?c) = [some_hash \<mapsto> offered_meta]"
    using k taker_takes(2,3) by (simp add: tryAccept_def accept_script_def put_state_def bare_state_def Let_def)
  have "fst (taker_run ok) = fst (accept_settled (taker_env ok) (?sv\<lparr>sv_db := snd ?c\<rparr>) some_hash ''0xB'' offered_meta None None)"
    using takes(3) p k c taker_alone [of ok]
    by (simp add: accept_locked_def getState_def holdsTask_def bare_state_def accept_fresh_def accept_open_def accept_won_def
        can_self_heal_def ac_alone_def Let_def)
  with settled_outcome_of [of "?sv\<lparr>sv_db := snd ?c\<rparr>" u ok] c(2,3) show ?thesis
    by (simp split: if_splits)
qed (use taker_passes [of ok] taker_takes(1) [of ok] in simp_all)



theorem accept_leaves_the_locks_witness:
  "kv_get 6 (accept_locks (sv_db (snd (taker_run True)))) some_hash = None"
  using accept_leaves_the_locks [of "taker_env True" 6 taker_server some_hash "''0xB''" some_hash]
  by (simp add: taker_alone taker_server_def empty_db_def kv_get_def)

theorem budget_follows_the_accept_witness:
  "budget_follows taker_server ''0xB'' (fst (taker_run False)) (snd (taker_run False))"
  by (rule budget_follows_the_accept) (simp add: taker_server_def empty_server_def gas_ok_empty)

end
