(* ===== verification/Relayer.thy ===== *)
theory Relayer
  imports Eligibility
begin

text \<open>
  The gas-sponsorship relayer, \<open>services/gasSponsorRelayer.ts\<close>: it relays a call an agent's wallet
  signed, stores every transaction before it sends it, settles or re-sends what is out, closes
  held reservations and stops by itself. Its state is the gas tables with what the process
  remembers; the bytes it broadcast are kept as a list. The node, the signer, the ABI and the
  wallet's cryptography are a parameter; \<open>None\<close> is a read that throws. An address is compared
  without its case, so \<open>getAddress\<close> is left out. What other requests write while a call waits
  in the queue and while its transaction is out is a function of the environment.
\<close>

section \<open>The calls and the node\<close>

definition MAX_SENDS_PER_RESERVATION :: nat where "MAX_SENDS_PER_RESERVATION = 2"
definition MIN_SECONDS_BEFORE_DEADLINE :: int where "MIN_SECONDS_BEFORE_DEADLINE = 60"
definition LOST_CONFIRM_MS :: int where "LOST_CONFIRM_MS = 25000"
definition TICK_STALL_MS :: int where "TICK_STALL_MS = 10 * 60000"

record authorization =
  au_chainId :: int
  au_address :: string
  au_nonce :: int
  au_yParity :: int
  au_r :: string
  au_s :: string

text \<open>The two kinds of a delegate call that are sponsored are the two kinds of a reservation.\<close>

record delegate_call =
  dc_kind :: reservation_kind
  dc_taskId :: int
  dc_evidenceHash :: string
  dc_nonce :: int
  dc_deadline :: int

record call_input =
  ci_agent :: deployed_agent
  ci_kind :: reservation_kind
  ci_taskId :: int
  ci_evidenceHash :: string
  ci_nonce :: int
  ci_deadline :: int
  ci_signature :: string
  ci_authorization :: "authorization option"

definition ZERO_HASH :: string where
  "ZERO_HASH = ''0x'' @ replicate 64 CHR ''0''"

definition call_of :: "call_input \<Rightarrow> delegate_call" where
  "call_of inp =
     \<lparr>dc_kind = ci_kind inp, dc_taskId = ci_taskId inp,
      dc_evidenceHash = (if ci_kind inp = KSubmit then lower (ci_evidenceHash inp) else ZERO_HASH),
      dc_nonce = ci_nonce inp, dc_deadline = ci_deadline inp\<rparr>"

definition wallet_of :: "call_input \<Rightarrow> string" where
  "wallet_of inp = da_wallet (ci_agent inp)"

text \<open>An EIP-1559 transaction, or a type-4 one when it carries an authorization.\<close>

record unsigned_tx =
  ut_chainId :: int
  ut_nonce :: int
  ut_to :: string
  ut_data :: string
  ut_gasLimit :: int
  ut_maxFeePerGas :: int
  ut_maxPriorityFeePerGas :: int
  ut_authorization :: "authorization option"

record tx_receipt =
  rc_ok :: bool
  rc_gasUsed :: int
  rc_gasPrice :: int
  rc_block :: string
  rc_proves :: "reservation_kind \<Rightarrow> int \<Rightarrow> string \<Rightarrow> bool"

record rpc_error =
  re_code :: string
  re_message :: string

text \<open>A task as \<open>getTask\<close> gives it, with the evidence hash the escrow stored.\<close>

record escrow_view =
  ev_task :: onchain_task
  ev_evidenceHash :: string

record relay_env =
  rx_sponsor :: sponsor_io
  rx_roles :: "role_memo option"
  rx_now :: int
  rx_a2a :: a2a_db
  rx_task :: "int \<Rightarrow> escrow_view option"
  rx_effectiveDeadline :: "int \<Rightarrow> int option"
  rx_taskAt :: "string \<Rightarrow> int \<Rightarrow> (escrow_status \<times> string) option"
  rx_escalated :: "int \<Rightarrow> bool option"
  rx_codeAt :: "string \<Rightarrow> string \<Rightarrow> string option"
  rx_callSigner :: "int \<Rightarrow> string \<Rightarrow> string \<Rightarrow> delegate_call \<Rightarrow> string \<Rightarrow> string option"
  rx_authorizationSigner :: "authorization \<Rightarrow> string option"
  rx_encodeExecute :: "delegate_call \<Rightarrow> string \<Rightarrow> string"
  rx_estimate :: "bool \<Rightarrow> string \<Rightarrow> string \<Rightarrow> authorization option \<Rightarrow> string option + int"
  rx_fees :: "(int option \<times> int option) option"
  rx_baseFee :: "int option option"
  rx_pendingCount :: "int option"
  rx_latestCount :: "int option"
  rx_sign :: "unsigned_tx \<Rightarrow> string \<times> string"
  rx_broadcast :: "string \<Rightarrow> rpc_error option"
  rx_receipt :: "string \<Rightarrow> tx_receipt option"
  rx_safeText :: "rpc_error \<Rightarrow> string"
  rx_formatEther :: "int \<Rightarrow> string"
  rx_rawReceipt :: "string \<Rightarrow> bool"
  rx_readReceipt :: "string \<Rightarrow> tx_receipt option option"
  rx_seenMined :: "string \<Rightarrow> bool option"
  rx_sponsorBalance :: "int option"
  rx_evidenceOf :: "json \<Rightarrow> string"
  rx_callDeadline :: "string \<Rightarrow> int option"
  rx_blockTime :: "int option"
  rx_lockFree :: bool
  rx_inQueue :: "gas_db \<Rightarrow> gas_db"
  rx_whileOut :: "gas_db \<Rightarrow> gas_db"

datatype breaker = Paused | Killed

record breaker_trip =
  bt_action :: breaker
  bt_nonce :: int
  bt_txHash :: string

record relayer =
  rl_gas :: gas_db
  rl_writer :: bool
  rl_out :: "string list"
  rl_trip :: "breaker_trip option"
  rl_stuckAlerted :: "string set"
  rl_refusedAlerted :: "string set"
  rl_lostSince :: "string \<rightharpoonup> int"

text \<open>\<open>ok\<close> with the transaction, and whether it landed elsewhere; or the status and code.\<close>

datatype relay_result =
    RelayOk "string option" bool
  | Refused int string "string option"

abbreviation refuse_call :: "int \<Rightarrow> string \<Rightarrow> relay_result" where
  "refuse_call n c \<equiv> Refused n c None"

definition pendingResult :: "string \<Rightarrow> relay_result" where
  "pendingResult hash = Refused 202 ''PENDING'' (Some hash)"

text \<open>What a step of the relayer comes to: its result, \<open>None\<close> when it throws, and the state.\<close>

type_synonym relayed = "relay_result option \<times> relayer"

abbreviation replies :: "relay_result \<Rightarrow> relayer \<Rightarrow> relayed" where
  "replies r rl \<equiv> (Some r, rl)"

definition with_gas :: "relayer \<Rightarrow> gas_db \<Rightarrow> relayer" where
  "with_gas rl db = rl\<lparr>rl_gas := db\<rparr>"

definition close_held :: "relay_env \<Rightarrow> relayer \<Rightarrow> nat \<Rightarrow> close_status \<Rightarrow> string option \<Rightarrow> relayer" where
  "close_held e rl i st reason = with_gas rl (snd (closeReservation (rl_gas rl) (rx_now e) i st reason))"

definition set_status :: "relayer \<Rightarrow> string \<Rightarrow> tx_status \<Rightarrow> tx_status option \<Rightarrow> bool \<times> relayer" where
  "set_status rl hash st from =
     (let r = setTxStatus (rl_gas rl) hash st from
      in (case fst r of Inl _ \<Rightarrow> False | Inr b \<Rightarrow> b, with_gas rl (snd r)))"

section \<open>Helpers\<close>

definition delegationDesignator :: "string \<Rightarrow> string" where
  "delegationDesignator delegate = ''0xef0100'' @ lower (drop 2 delegate)"

definition isDelegatedTo :: "string \<Rightarrow> string \<Rightarrow> bool" where
  "isDelegatedTo code delegate \<longleftrightarrow> lower code = delegationDesignator delegate"

definition draining :: "relay_env \<Rightarrow> bool" where
  "draining e \<longleftrightarrow> (case so_settings (rx_sponsor e) of Inl _ \<Rightarrow> True | Inr _ \<Rightarrow> False)"

text \<open>A pause is not stored while draining; a kill is.\<close>

definition trip :: "relay_env \<Rightarrow> sponsor_settings \<Rightarrow> relayer \<Rightarrow> breaker \<Rightarrow> string \<Rightarrow> int \<Rightarrow> string \<Rightarrow> relayer" where
  "trip e s rl act reason nonce hash =
     (let rl1 = rl\<lparr>rl_trip := Some \<lparr>bt_action = act, bt_nonce = nonce, bt_txHash = hash\<rparr>\<rparr>
      in if act = Killed \<or> \<not> draining e
         then with_gas rl1 (snd (setControls (rl_gas rl1) (rx_now e) (ss_chainId s)
                (if act = Killed then None else Some True) (if act = Killed then Some True else None)
                (''auto: '' @ reason) ''auto''))
         else rl1)"

definition REFUSED :: "string list" where
  "REFUSED =
     [''insufficient funds'', ''invalid sender'', ''invalid signature'', ''intrinsic gas too low'',
      ''exceeds block gas limit'', ''tx type not supported'', ''transaction type not supported'',
      ''invalid chain id'', ''invalid chainid'', ''oversized data'', ''higher than max fee per gas'',
      ''exceeds the configured cap'', ''empty auth list'', ''empty authorization list'']"

datatype broadcast_failure = Known | NonceLow | Transient | Rejected

definition classifyBroadcastError :: "rpc_error \<Rightarrow> broadcast_failure" where
  "classifyBroadcastError err =
     (let msg = lower (re_message err); says = list_ex (contains msg) in
      if says [''already known'', ''known transaction'', ''already imported''] then Known
      else if re_code err = ''NONCE_EXPIRED'' \<or>
        says [''nonce too low'', ''nonce has already been used'', ''nonce is too low''] then NonceLow
      else if re_code err = ''INSUFFICIENT_FUNDS'' \<or> says REFUSED then Rejected
      else Transient)"

definition assignedByUs :: "relay_env \<Rightarrow> string \<Rightarrow> string \<Rightarrow> bool" where
  "assignedByUs e h wallet =
     (case getState (rx_a2a e) h of
        None \<Rightarrow> False
      | Some s \<Rightarrow> truthy (assignTxHash s) \<noteq> None \<and> map_option lower (executorAddress s) = Some (lower wallet))"

definition recordedEvidenceHash :: "relay_env \<Rightarrow> string \<Rightarrow> string option" where
  "recordedEvidenceHash e h =
     Option.bind (getState (rx_a2a e) h) (\<lambda>s. map_option (rx_evidenceOf e) (resultData s))"

definition unsettled :: "sponsored_tx \<Rightarrow> bool" where
  "unsettled t \<longleftrightarrow> tx_status t = TxSigned \<or> tx_status t = TxSent"

definition inFlight :: "gas_db \<Rightarrow> nat \<Rightarrow> string option" where
  "inFlight db i = map_option tx_hash (find unsettled (txsForReservation db i))"

text \<open>A stored transaction whose nonce has passed: lost only when two looks apart did not find it mined.\<close>

definition nonceTaken ::
  "relay_env \<Rightarrow> sponsor_settings \<Rightarrow> relayer \<Rightarrow> sponsored_tx \<Rightarrow> int \<Rightarrow> bool \<times> relayer" where
  "nonceTaken e s rl tx confirmAfterMs =
     (case rx_seenMined e (tx_hash tx) of
        None \<Rightarrow> (False, rl)
      | Some True \<Rightarrow> (False, rl\<lparr>rl_lostSince := (rl_lostSince rl)(tx_hash tx := None)\<rparr>)
      | Some False \<Rightarrow>
          let first = rl_lostSince rl (tx_hash tx);
              rl1 = (if first = None then rl\<lparr>rl_lostSince := (rl_lostSince rl)(tx_hash tx \<mapsto> rx_now e)\<rparr> else rl)
          in if (case first of None \<Rightarrow> 0 < confirmAfterMs | Some t \<Rightarrow> rx_now e - t < confirmAfterMs) then (False, rl1)
             else
               let rl2 = rl1\<lparr>rl_lostSince := (rl_lostSince rl1)(tx_hash tx := None)\<rparr>;
                   u = set_status rl2 (tx_hash tx) TxDropped (Some (tx_status tx))
               in if \<not> fst u then (False, snd u)
                  else (True, trip e s (snd u) Killed
                    (''the sponsor's nonce '' @ show_int (tx_nonce tx) @ '' was used by a transaction that is not '' @
                     tx_hash tx @ '': the sponsor key is signing elsewhere'') (tx_nonce tx) (tx_hash tx)))"

text \<open>\<open>maybeAutoPause\<close>: the reason it paused for, if it did.\<close>

definition pause_reason :: "relay_env \<Rightarrow> sponsor_settings \<Rightarrow> sponsor_usage \<Rightarrow> string option" where
  "pause_reason e s used =
     (if hourlyBudgetWei (ss_caps s) < spentLastHourWei used then Some ''the last hour spent more than its budget''
      else if ss_maxFailuresPerHour s \<le> failuresLastHour used then Some (show_nat (failuresLastHour used) @ '' sponsored sends failed in the last hour'')
      else (case rx_sponsorBalance e of
        None \<Rightarrow> None
      | Some b \<Rightarrow>
          if b < dailyBudgetWei (ss_caps s)
          then Some (''the sponsor holds '' @ rx_formatEther e b @ '' USDC, less than one day of budget'') else None))"

definition maybeAutoPause :: "relay_env \<Rightarrow> sponsor_settings \<Rightarrow> relayer \<Rightarrow> string option \<times> relayer" where
  "maybeAutoPause e s rl =
     (let c = getControls (rl_gas rl) (ss_chainId s) in
      if sc_paused c \<or> sc_killed c then (None, rl)
      else (case pause_reason e s (usage (rl_gas rl) (rx_now e) (ss_chainId s)) of
        None \<Rightarrow> (None, rl)
      | Some why \<Rightarrow>
          (Some why, with_gas rl (snd (setControls (rl_gas rl) (rx_now e) (ss_chainId s) (Some True) None
             (''auto: '' @ why) ''auto'')))))"

section \<open>Settling\<close>

definition proves_call :: "relay_env \<Rightarrow> sponsor_settings \<Rightarrow> tx_receipt \<Rightarrow> string \<Rightarrow> reservation_kind \<Rightarrow> int \<Rightarrow> bool option" where
  "proves_call e s rc wallet kind tid =
     (if rc_ok rc \<and> rc_proves rc kind tid wallet
      then map_option (\<lambda>code. isDelegatedTo code (ss_delegate s)) (rx_codeAt e wallet (rc_block rc))
      else Some False)"

definition landed_at :: "relay_env \<Rightarrow> string \<Rightarrow> int \<Rightarrow> string \<Rightarrow> bool option" where
  "landed_at e block tid h =
     map_option (\<lambda>(st, evidence).
        st = EsSubmitted \<and> (case truthy (recordedEvidenceHash e h) of None \<Rightarrow> False | Some w \<Rightarrow> lower evidence = lower w))
       (rx_taskAt e block tid)"

definition settle_mined ::
  "relay_env \<Rightarrow> sponsor_settings \<Rightarrow> relayer \<Rightarrow> reservation \<Rightarrow> string \<Rightarrow> reservation_kind \<Rightarrow> int \<Rightarrow> string \<Rightarrow> tx_receipt \<Rightarrow>
   settle_status \<Rightarrow> relayed" where
  "settle_mined e s rl r wallet kind tid hash rc st =
     (let w = settleTx (rl_gas rl) hash st (rc_gasUsed rc) (rc_gasUsed rc * rc_gasPrice rc) in
      case fst w of
        Inl _ \<Rightarrow> (None, rl)
      | Inr _ \<Rightarrow>
          let rl1 = with_gas rl (snd w);
              used = (\<lambda>tx. with_gas rl1 (markReservationUsed (rl_gas rl1) (rx_now e) (rs_id r) tx));
              failed = replies (refuse_call 409 (if st = SettleNoop then ''SETUP_NOOP'' else ''REVERTED''))
                (if draining e then rl1 else snd (maybeAutoPause e s rl1))
          in if st = SettleConfirmed then replies (RelayOk (Some hash) False) (used (Some hash))
             else if kind = KSubmit \<and> rs_status r = RReserved
             then (case landed_at e (rc_block rc) tid (rs_taskHash r) of
                     None \<Rightarrow> (None, rl1)
                   | Some True \<Rightarrow> replies (RelayOk None True) (used None)
                   | Some False \<Rightarrow> failed)
             else failed)"

definition settle ::
  "relay_env \<Rightarrow> sponsor_settings \<Rightarrow> relayer \<Rightarrow> reservation \<Rightarrow> string \<Rightarrow> reservation_kind \<Rightarrow> int \<Rightarrow> string \<Rightarrow> relayed" where
  "settle e s rl r wallet kind tid hash =
     (case rx_receipt e hash of
        None \<Rightarrow> replies (pendingResult hash) rl
      | Some rc \<Rightarrow>
          (case proves_call e s rc wallet kind tid of
             None \<Rightarrow> (None, rl)
           | Some proved \<Rightarrow>
               settle_mined e s rl r wallet kind tid hash rc
                 (if \<not> rc_ok rc then SettleReverted else if proved then SettleConfirmed else SettleNoop)))"

section \<open>Sending\<close>

record prepared =
  pr_wallet :: string
  pr_kind :: reservation_kind
  pr_taskId :: int
  pr_data :: string
  pr_gasLimit :: int
  pr_maxFeePerGas :: int
  pr_maxPriorityFeePerGas :: int
  pr_authorization :: "authorization option"

text \<open>The estimate of the exact transaction: the delegate's error name, if any, with the refusal.\<close>

definition simulate ::
  "relay_env \<Rightarrow> sponsor_settings \<Rightarrow> bool \<Rightarrow> string \<Rightarrow> string \<Rightarrow> authorization option \<Rightarrow>
   (string option \<times> relay_result) + int" where
  "simulate e s again wallet data auth =
     (case rx_estimate e again wallet data auth of
        Inl name \<Rightarrow> Inl (name, refuse_call 409 ''SIMULATION_REVERTED'')
      | Inr gas \<Rightarrow> if ss_maxGas s < gas then Inl (None, refuse_call 409 ''GAS_TOO_HIGH'') else Inr gas)"

definition recheckBeforeSend :: "relay_env \<Rightarrow> sponsor_settings \<Rightarrow> gas_db \<Rightarrow> prepared \<Rightarrow> relay_result option" where
  "recheckBeforeSend e s db p =
     (if sc_killed (getControls db (ss_chainId s)) then Some (refuse_call 409 ''GAS_SPONSOR_KILLED'')
      else if walletKeyExported db (pr_wallet p) then Some (refuse_call 403 ''GAS_SPONSOR_INELIGIBLE'')
      else (case simulate e s True (pr_wallet p) (pr_data p) (pr_authorization p) of
        Inl (_, r) \<Rightarrow> Some r | Inr _ \<Rightarrow> None))"

definition sendBlocker :: "sponsor_settings \<Rightarrow> gas_db \<Rightarrow> sponsored_tx list \<Rightarrow> relay_result option" where
  "sendBlocker s db own =
     (if MAX_SENDS_PER_RESERVATION \<le> length (filter (\<lambda>t. tx_status t \<noteq> TxRejected) own)
      then Some (refuse_call 409 ''SEND_LIMIT'')
      else if list_ex (\<lambda>t. tx_status t = TxSigned) (unsettledTxs db (ss_chainId s) (ss_sponsor s))
      then Some (refuse_call 503 ''SPONSOR_BACKLOG'')
      else None)"

text \<open>A release gives its reservation back when nothing was sent for it.\<close>

definition give_back :: "relay_env \<Rightarrow> relayer \<Rightarrow> bool \<Rightarrow> nat \<Rightarrow> relayer" where
  "give_back e rl back i = (if back then close_held e rl i CloseReleased None else rl)"

definition the_nonce :: "sponsor_settings \<Rightarrow> gas_db \<Rightarrow> int \<Rightarrow> int" where
  "the_nonce s db pending =
     max pending (case nextStoredNonce db (ss_chainId s) (ss_sponsor s) of None \<Rightarrow> 0 | Some n \<Rightarrow> n)"

definition tx_of :: "sponsor_settings \<Rightarrow> int \<Rightarrow> prepared \<Rightarrow> unsigned_tx" where
  "tx_of s nonce p =
     \<lparr>ut_chainId = ss_chainId s, ut_nonce = nonce, ut_to = pr_wallet p, ut_data = pr_data p,
      ut_gasLimit = pr_gasLimit p, ut_maxFeePerGas = pr_maxFeePerGas p,
      ut_maxPriorityFeePerGas = pr_maxPriorityFeePerGas p, ut_authorization = pr_authorization p\<rparr>"

text \<open>The broadcast of stored bytes, and what its answer makes of them.\<close>

definition broadcast_refused ::
  "relay_env \<Rightarrow> sponsor_settings \<Rightarrow> relayer \<Rightarrow> reservation \<Rightarrow> prepared \<Rightarrow> int \<Rightarrow> string \<Rightarrow> rpc_error \<Rightarrow> broadcast_failure \<Rightarrow>
   relayed" where
  "broadcast_refused e s rl r p nonce hash err why =
     (let settled = settle e s rl r (pr_wallet p) (pr_kind p) (pr_taskId p) hash in
      if why = NonceLow \<and> rx_rawReceipt e hash then settled
      else
        let u = set_status rl hash (if why = NonceLow then TxDropped else TxRejected) (Some TxSigned) in
        if \<not> fst u then settled
        else replies (refuse_call 503 ''NOT_SENT'')
          (give_back e
            (if why = NonceLow
             then trip e s (snd u) Killed
                    (''the node says the sponsor's nonce '' @ show_int nonce @ '' is used, but not by '' @ hash @
                     '': the sponsor key is signing elsewhere'') nonce hash
             else trip e s (snd u) Paused
                    (''the node rejected sponsored tx '' @ hash @ '' (nonce '' @ show_int nonce @ ''): '' @ rx_safeText e err)
                    nonce hash)
            (pr_kind p = KRelease) (rs_id r)))"

definition broadcast_stored ::
  "relay_env \<Rightarrow> sponsor_settings \<Rightarrow> relayer \<Rightarrow> reservation \<Rightarrow> prepared \<Rightarrow> int \<Rightarrow> string \<Rightarrow> string \<Rightarrow> relayed" where
  "broadcast_stored e s rl r p nonce raw hash =
     (let ans = rx_broadcast e raw;
          rl1 = rl\<lparr>rl_out := rl_out rl @ [raw], rl_gas := rx_whileOut e (rl_gas rl)\<rparr>;
          went = settle e s (snd (set_status rl1 hash TxSent (Some TxSigned))) r (pr_wallet p) (pr_kind p) (pr_taskId p) hash
      in case ans of
           None \<Rightarrow> went
         | Some err \<Rightarrow>
             (case classifyBroadcastError err of
                Known \<Rightarrow> went
              | Transient \<Rightarrow> replies (pendingResult hash) rl1
              | why \<Rightarrow> broadcast_refused e s rl1 r p nonce hash err why))"

definition sign_and_store ::
  "relay_env \<Rightarrow> sponsor_settings \<Rightarrow> relayer \<Rightarrow> reservation \<Rightarrow> prepared \<Rightarrow> relayed" where
  "sign_and_store e s rl r p =
     (case rx_pendingCount e of
        None \<Rightarrow> replies (refuse_call 503 ''NOT_SENT'') rl
      | Some pending \<Rightarrow>
          let nonce = the_nonce s (rl_gas rl) pending; signed = rx_sign e (tx_of s nonce p);
              rec = recordSignedTx (rl_gas rl) (rx_now e)
                \<lparr>si_chainId = ss_chainId s, si_reservationId = rs_id r, si_sponsor = ss_sponsor s, si_nonce = nonce,
                 si_rawTx = fst signed, si_txHash = snd signed, si_withAuthorization = (pr_authorization p \<noteq> None)\<rparr>;
              rl1 = with_gas rl (snd rec)
          in case fst rec of
               Inl _ \<Rightarrow> replies (refuse_call 503 ''NOT_SENT'') rl
             | Inr None \<Rightarrow>
                 replies (refuse_call 503 ''SPONSOR_BACKLOG'') (give_back e rl1 (pr_kind p = KRelease) (rs_id r))
             | Inr (Some _) \<Rightarrow> broadcast_stored e s rl1 r p nonce (fst signed) (snd signed))"

definition send :: "relay_env \<Rightarrow> sponsor_settings \<Rightarrow> relayer \<Rightarrow> reservation \<Rightarrow> prepared \<Rightarrow> relayed" where
  "send e s rl0 r p =
     (let rl = with_gas rl0 (rx_inQueue e (rl_gas rl0)) in
      case getReservationById (rl_gas rl) (rs_id r) of
        None \<Rightarrow> replies (refuse_call 409 ''NO_RESERVATION'') rl
      | Some cur \<Rightarrow>
          if rs_status cur \<noteq> RReserved
          then replies (if rs_status cur = RUsed then RelayOk (rs_txHash cur) False
                       else refuse_call 409 ''NO_RESERVATION'') rl
          else (case inFlight (rl_gas rl) (rs_id r) of
            Some out \<Rightarrow> settle e s rl cur (pr_wallet p) (pr_kind p) (pr_taskId p) out
          | None \<Rightarrow>
              (case sendBlocker s (rl_gas rl) (txsForReservation (rl_gas rl) (rs_id r)) of
                 Some no \<Rightarrow> replies no (give_back e rl (pr_kind p = KRelease) (rs_id r))
               | None \<Rightarrow>
                   (case recheckBeforeSend e s (rl_gas rl) p of
                      Some no \<Rightarrow>
                        replies no (give_back e rl
                          (no = refuse_call 403 ''GAS_SPONSOR_INELIGIBLE'' \<or> pr_kind p = KRelease) (rs_id r))
                    | None \<Rightarrow> sign_and_store e s rl r p))))"

section \<open>Relaying a call\<close>

definition holds_call :: "reservation option \<Rightarrow> string \<Rightarrow> reservation option" where
  "holds_call held wallet =
     (case held of
        Some r \<Rightarrow> if rs_status r = RReserved \<and> rs_agentWallet r = lower wallet then Some r else None
      | None \<Rightarrow> None)"

definition answerInFlight :: "relay_env \<Rightarrow> sponsor_settings \<Rightarrow> relayer \<Rightarrow> call_input \<Rightarrow> relayed option" where
  "answerInFlight e s rl inp =
     (case holds_call (getReservation (rl_gas rl) (ss_chainId s) (ci_taskId inp) (ci_kind inp)) (wallet_of inp) of
        None \<Rightarrow> None
      | Some r \<Rightarrow>
          map_option (settle e s rl r (wallet_of inp) (ci_kind inp) (ci_taskId inp)) (inFlight (rl_gas rl) (rs_id r)))"

definition signed_by_wallet :: "relay_env \<Rightarrow> sponsor_settings \<Rightarrow> call_input \<Rightarrow> bool" where
  "signed_by_wallet e s inp \<longleftrightarrow>
     map_option lower (rx_callSigner e (ss_chainId s) (wallet_of inp) (ss_escrow s) (call_of inp) (ci_signature inp)) =
     Some (lower (wallet_of inp))"

text \<open>Where a check ends the call, with its answer, or lets it go on.\<close>

type_synonym 'a gate = "relayed + 'a"

definition submit_gate ::
  "relay_env \<Rightarrow> relayer \<Rightarrow> call_input \<Rightarrow> reservation option \<Rightarrow> escrow_view \<Rightarrow> reservation gate" where
  "submit_gate e rl inp held v =
     (let t = ev_task v; evidence = dc_evidenceHash (call_of inp);
          ours = (case held of None \<Rightarrow> None | Some r \<Rightarrow>
            if rs_agentWallet r = lower (wallet_of inp) \<and> rs_status r \<in> {RReserved, RUsed} then Some r else None);
          no = (\<lambda>c. Inl (replies (refuse_call 409 c) rl))
      in case ours of
           None \<Rightarrow> no ''NO_RESERVATION''
         | Some r \<Rightarrow>
             if oc_status t = EsSubmitted \<and> lower (ev_evidenceHash v) = lower evidence
             then Inl (if rs_status r = RUsed then replies (RelayOk (rs_txHash r) False) rl
                       else replies (RelayOk None True) (with_gas rl (markReservationUsed (rl_gas rl) (rx_now e) (rs_id r) None)))
             else if rs_status r \<noteq> RReserved then no ''NO_RESERVATION''
             else if oc_status t \<noteq> EsAssigned \<or> oc_submissionAttempts t \<noteq> 0 then no ''NOT_FIRST_SUBMIT''
             else if (case rx_effectiveDeadline e (ci_taskId inp) of None \<Rightarrow> oc_deadline t | Some d \<Rightarrow> d) -
                       rx_now e div 1000 \<le> MIN_SECONDS_BEFORE_DEADLINE then no ''TOO_CLOSE_TO_DEADLINE''
             else if \<not> assignedByUs e (rs_taskHash r) (wallet_of inp) then no ''NOT_OURS''
             else if map_option lower (truthy (recordedEvidenceHash e (rs_taskHash r))) \<noteq> Some (lower evidence)
             then no ''EVIDENCE_MISMATCH''
             else Inr r)"

definition release_gate ::
  "relay_env \<Rightarrow> sponsor_settings \<Rightarrow> relayer \<Rightarrow> call_input \<Rightarrow> onchain_task \<Rightarrow> unit gate" where
  "release_gate e s rl inp t =
     (let no = (\<lambda>c. Inl (replies (refuse_call 409 c) rl)) in
      if oc_status t \<noteq> EsDisputed then no ''NOT_RELEASABLE''
      else (case rx_escalated e (ci_taskId inp) of
        None \<Rightarrow> Inl (None, rl)
      | Some False \<Rightarrow> no ''NOT_RELEASABLE''
      | Some True \<Rightarrow>
          if \<not> assignedByUs e (lower (oc_taskHash t)) (wallet_of inp) then no ''NOT_OURS''
          else (case taskEligibility (rx_sponsor e) s (show_int (ci_taskId inp)) t False of
            None \<Rightarrow> Inl (None, rl)
          | Some (Some _) \<Rightarrow> no ''GAS_SPONSOR_UNAVAILABLE''
          | Some None \<Rightarrow> Inr ())))"

definition setup_gate :: "relay_env \<Rightarrow> sponsor_settings \<Rightarrow> relayer \<Rightarrow> call_input \<Rightarrow> authorization option gate" where
  "setup_gate e s rl inp =
     (let no = (\<lambda>n c. Inl (replies (refuse_call n c) rl)) in
      case rx_codeAt e (wallet_of inp) ''latest'' of
        None \<Rightarrow> Inl (None, rl)
      | Some code \<Rightarrow>
          if isDelegatedTo code (ss_delegate s) then Inr None
          else (case ci_authorization inp of
            None \<Rightarrow> no 409 ''NOT_DELEGATED''
          | Some a \<Rightarrow>
              if code \<noteq> ''0x'' \<and> take 8 (lower code) \<noteq> ''0xef0100'' then no 409 ''NOT_DELEGATED''
              else if au_chainId a \<noteq> ss_chainId s then no 400 ''BAD_AUTHORIZATION''
              else if lower (au_address a) \<noteq> lower (ss_delegate s) then no 400 ''BAD_AUTHORIZATION''
              else if map_option lower (rx_authorizationSigner e a) \<noteq> Some (lower (wallet_of inp))
              then no 400 ''BAD_AUTHORIZATION''
              else if MAX_SETUP_ATTEMPTS \<le> setupAttempts (rl_gas rl) (ss_chainId s) (wallet_of inp)
              then no 409 ''SETUP_LIMIT''
              else Inr (Some a)))"

text \<open>The fee cap and the tip; \<open>None\<close> when the base fee is above the cap.\<close>

definition fees_for :: "relay_env \<Rightarrow> sponsor_settings \<Rightarrow> ((int \<times> int) option) option" where
  "fees_for e s =
     (case (rx_fees e, rx_baseFee e) of
        (Some (perGas, tip), Some base) \<Rightarrow>
          Some (if (case base of None \<Rightarrow> False | Some b \<Rightarrow> ss_maxFeeWei s < b) then None
                else
                  let fee = (case perGas of None \<Rightarrow> ss_maxFeeWei s | Some p \<Rightarrow> if p < ss_maxFeeWei s then p else ss_maxFeeWei s);
                      t = (case tip of None \<Rightarrow> 0 | Some t \<Rightarrow> t)
                  in Some (fee, if t < fee then t else fee))
      | _ \<Rightarrow> None)"

definition reserve_release ::
  "relay_env \<Rightarrow> sponsor_settings \<Rightarrow> relayer \<Rightarrow> call_input \<Rightarrow> onchain_task \<Rightarrow> agent_ineligible + string \<Rightarrow>
   (reservation \<times> relayer) gate" where
  "reserve_release e s rl inp t elig =
     (case elig of
        Inl _ \<Rightarrow> Inl (replies (refuse_call 403 ''GAS_SPONSOR_INELIGIBLE'') rl)
      | Inr owner \<Rightarrow>
          let r = reserve (rl_gas rl) (rx_now e)
                \<lparr>in_chainId = ss_chainId s, in_taskId = ci_taskId inp, in_kind = KRelease,
                 in_taskHash = lower (oc_taskHash t), in_agentWallet = wallet_of inp, in_ownerDid = owner,
                 in_poster = oc_agent t, in_budgetWei = reservationBudgetWei (rx_sponsor e) s,
                 in_ttlSeconds = RESERVATION_TTL_SECONDS\<rparr> (ss_caps s)
          in (case fst r of
                Inl _ \<Rightarrow> Inl (replies (refuse_call 409 ''GAS_SPONSOR_UNAVAILABLE'') (with_gas rl (snd r)))
              | Inr p \<Rightarrow> Inr (fst p, with_gas rl (snd r))))"

text \<open>The call passed its gates: set up, simulate, price, reserve a release, send.\<close>

definition relay_ready ::
  "relay_env \<Rightarrow> sponsor_settings \<Rightarrow> relayer \<Rightarrow> call_input \<Rightarrow> onchain_task \<Rightarrow> agent_ineligible + string \<Rightarrow>
   reservation option \<Rightarrow> relayed" where
  "relay_ready e s rl inp t elig res =
     (let wallet = wallet_of inp; call = call_of inp; data = rx_encodeExecute e call (ci_signature inp) in
      case setup_gate e s rl inp of
        Inl out \<Rightarrow> out
      | Inr auth \<Rightarrow>
          (case simulate e s False wallet data auth of
             Inl (name, no) \<Rightarrow>
               (case res of
                  Some r \<Rightarrow>
                    if name = Some ''InvalidNonce'' \<and> ci_kind inp = KSubmit
                    then (case rx_taskAt e ''latest'' (ci_taskId inp) of
                      None \<Rightarrow> (None, rl)
                    | Some (st, evidence) \<Rightarrow>
                        if st = EsSubmitted \<and> lower evidence = lower (dc_evidenceHash call)
                        then replies (RelayOk None True)
                          (with_gas rl (markReservationUsed (rl_gas rl) (rx_now e) (rs_id r) None))
                        else replies no rl)
                    else replies no rl
                | None \<Rightarrow> replies no rl)
           | Inr estimate \<Rightarrow>
               (case fees_for e s of
                  None \<Rightarrow> (None, rl)
                | Some None \<Rightarrow> replies (refuse_call 409 ''FEES_TOO_HIGH'') rl
                | Some (Some (fee, tip)) \<Rightarrow>
                    let p = \<lparr>pr_wallet = wallet, pr_kind = ci_kind inp, pr_taskId = ci_taskId inp, pr_data = data,
                             pr_gasLimit = (estimate * GAS_LIMIT_MARGIN_PERCENT + 99) div 100,
                             pr_maxFeePerGas = fee, pr_maxPriorityFeePerGas = tip, pr_authorization = auth\<rparr>
                    in (case res of
                          Some r \<Rightarrow> send e s rl r p
                        | None \<Rightarrow>
                            (case reserve_release e s rl inp t elig of
                               Inl out \<Rightarrow> out
                             | Inr (r, rl1) \<Rightarrow> send e s rl1 r p)))))"

definition relay_checked ::
  "relay_env \<Rightarrow> sponsor_settings \<Rightarrow> relayer \<Rightarrow> call_input \<Rightarrow> reservation option \<Rightarrow> agent_ineligible + string \<Rightarrow> relayed" where
  "relay_checked e s rl inp held elig =
     (case rx_task e (ci_taskId inp) of
        None \<Rightarrow> (None, rl)
      | Some v \<Rightarrow>
          if lower (oc_worker (ev_task v)) \<noteq> lower (wallet_of inp) then replies (refuse_call 409 ''NOT_WORKER'') rl
          else if \<not> signed_by_wallet e s inp then replies (refuse_call 400 ''BAD_SIGNATURE'') rl
          else if ci_kind inp = KSubmit
          then (case submit_gate e rl inp held v of
            Inl out \<Rightarrow> out | Inr r \<Rightarrow> relay_ready e s rl inp (ev_task v) elig (Some r))
          else (case release_gate e s rl inp (ev_task v) of
            Inl out \<Rightarrow> out | Inr _ \<Rightarrow> relay_ready e s rl inp (ev_task v) elig None))"

text \<open>An agent that lost its eligibility may still use what it holds, but for a strike only.\<close>

definition relay_on :: "relay_env \<Rightarrow> sponsor_settings \<Rightarrow> relayer \<Rightarrow> call_input \<Rightarrow> relayed" where
  "relay_on e s rl inp =
     (let held = getReservation (rl_gas rl) (ss_chainId s) (ci_taskId inp) (ci_kind inp) in
      case answerInFlight e s rl inp of
        Some out \<Rightarrow> out
      | None \<Rightarrow>
          if \<not> rl_writer rl then replies (refuse_call 503 ''GAS_SPONSOR_OFF'') rl
          else if sc_killed (getControls (rl_gas rl) (ss_chainId s)) then replies (refuse_call 409 ''GAS_SPONSOR_KILLED'') rl
          else
            let elig = agentEligibility (rx_sponsor e) (rl_gas rl) (rx_now e) s (Some (ci_agent inp));
                ours = holds_call held (wallet_of inp)
            in (case elig of
                  Inr _ \<Rightarrow> relay_checked e s rl inp held elig
                | Inl why \<Rightarrow>
                    let rl1 = (case ours of
                          Some r \<Rightarrow>
                            if why \<in> {KeyExported, KeyMismatch, SetupLimit}
                            then close_held e rl (rs_id r) CloseReleased None else rl
                        | None \<Rightarrow> rl)
                    in if ours \<noteq> None \<and> why = Strikes then relay_checked e s rl1 inp held elig
                       else replies (refuse_call 403 ''GAS_SPONSOR_INELIGIBLE'') rl1))"

definition relay :: "relay_env \<Rightarrow> relayer \<Rightarrow> call_input \<Rightarrow> relayed" where
  "relay e rl inp =
     (case runnableSettings (rx_sponsor e) (rx_roles e) of
        (Inr s, _) \<Rightarrow> relay_on e s rl inp
      | (Inl _, roles) \<Rightarrow>
          (case fst (drainableSettings (rx_sponsor e) roles) of
             Inr (_, s) \<Rightarrow>
               (case (if rl_writer rl then answerInFlight e s rl inp else None) of
                  Some out \<Rightarrow> out
                | None \<Rightarrow> replies (refuse_call 503 ''GAS_SPONSOR_OFF'') rl)
           | Inl _ \<Rightarrow> replies (refuse_call 503 ''GAS_SPONSOR_OFF'') rl))"

text \<open>The attempt is written on the held reservation: \<open>None\<close> for a call that went out or may have.\<close>

definition attempt_code :: "relay_result \<Rightarrow> string option" where
  "attempt_code r = (case r of RelayOk _ _ \<Rightarrow> None | Refused _ c _ \<Rightarrow> if c = ''PENDING'' then None else Some c)"

definition noteAttempt :: "relay_env \<Rightarrow> relayer \<Rightarrow> call_input \<Rightarrow> relay_result \<Rightarrow> relayer" where
  "noteAttempt e rl inp r =
     (case so_drain (rx_sponsor e) of
        Inl _ \<Rightarrow> rl
      | Inr s \<Rightarrow>
          (case holds_call (getReservation (rl_gas rl) (ss_chainId s) (ci_taskId inp) (ci_kind inp)) (wallet_of inp) of
             None \<Rightarrow> rl
           | Some held \<Rightarrow>
               if \<not> signed_by_wallet e s inp then rl
               else with_gas rl (markReservationAttempted (rl_gas rl) (rx_now e) (rs_id held) (attempt_code r))))"

definition relaySponsoredCall :: "relay_env \<Rightarrow> relayer \<Rightarrow> call_input \<Rightarrow> relayed" where
  "relaySponsoredCall e rl inp =
     (case relay e rl inp of
        (None, rl1) \<Rightarrow> (None, rl1)
      | (Some r, rl1) \<Rightarrow> (Some r, noteAttempt e rl1 inp r))"

end
