(* ===== verification/RelayerTick.thy ===== *)
theory RelayerTick
  imports Relayer
begin

text \<open>
  The passes of the relayer's writer (\<open>services/gasSponsorRelayer.ts\<close>): settling and re-sending what
  is stored, sweeping held reservations, the status of a call, the tick that runs them and the
  guard that lets a new pass start when one hangs. A read that throws ends a pass; the tick
  catches it.
\<close>

section \<open>Recovery\<close>

definition settleStored :: "relay_env \<Rightarrow> sponsor_settings \<Rightarrow> relayer \<Rightarrow> sponsored_tx \<Rightarrow> relayed option" where
  "settleStored e s rl tx =
     map_option (\<lambda>r. settle e s rl r (rs_agentWallet r) (rs_kind r) (rs_taskId r) (tx_hash tx))
       (getReservationById (rl_gas rl) (tx_reservationId tx))"

text \<open>The same bytes go out again; a refusal makes them unacknowledged, and is alerted once.\<close>

definition rebroadcast :: "relay_env \<Rightarrow> sponsor_settings \<Rightarrow> relayer \<Rightarrow> sponsored_tx \<Rightarrow> relayer" where
  "rebroadcast e s rl tx =
     (let rl1 = rl\<lparr>rl_out := rl_out rl @ [tx_rawTx tx]\<rparr>;
          acknowledged = (if tx_status tx = TxSigned then snd (set_status rl1 (tx_hash tx) TxSent (Some TxSigned)) else rl1)
      in case rx_broadcast e (tx_rawTx tx) of
           None \<Rightarrow> acknowledged
         | Some err \<Rightarrow>
             (case classifyBroadcastError err of
                Known \<Rightarrow> acknowledged
              | NonceLow \<Rightarrow> acknowledged
              | Rejected \<Rightarrow>
                  let u = (if tx_status tx = TxSent then set_status rl1 (tx_hash tx) TxSigned (Some TxSent) else (True, rl1))
                  in if fst u \<and> tx_hash tx \<notin> rl_refusedAlerted (snd u)
                     then trip e s ((snd u)\<lparr>rl_refusedAlerted := insert (tx_hash tx) (rl_refusedAlerted (snd u))\<rparr>) Paused
                            (''a node refused to take sponsored tx '' @ tx_hash tx @ '' (nonce '' @ show_int (tx_nonce tx) @
                             '') again: '' @ rx_safeText e err @ ''; nothing new is signed until a node takes it'')
                            (tx_nonce tx) (tx_hash tx)
                     else snd u
              | Transient \<Rightarrow> rl1))"

definition stuck_check :: "relay_env \<Rightarrow> sponsor_settings \<Rightarrow> relayer \<Rightarrow> sponsored_tx \<Rightarrow> relayer" where
  "stuck_check e s rl tx =
     (if ss_stuckMs s \<le> rx_now e - tx_createdAt tx \<and> tx_hash tx \<notin> rl_stuckAlerted rl
      then trip e s (rl\<lparr>rl_stuckAlerted := insert (tx_hash tx) (rl_stuckAlerted rl)\<rparr>) Killed
             (''sponsored tx '' @ tx_hash tx @ '' (nonce '' @ show_int (tx_nonce tx) @ '') has not landed in '' @
              show_int ((2 * ss_stuckMs s + 60000) div 120000) @ '' minutes; every later nonce waits behind it'')
             (tx_nonce tx) (tx_hash tx)
      else rl)"

text \<open>One stored transaction; \<open>False\<close> when settling it throws, which ends the pass.\<close>

definition recover_one :: "relay_env \<Rightarrow> sponsor_settings \<Rightarrow> int \<Rightarrow> relayer \<Rightarrow> sponsored_tx \<Rightarrow> bool \<times> relayer" where
  "recover_one e s latest rl tx =
     (case rx_readReceipt e (tx_hash tx) of
        None \<Rightarrow> (True, rl)
      | Some (Some _) \<Rightarrow>
          let rl1 = rl\<lparr>rl_lostSince := (rl_lostSince rl)(tx_hash tx := None)\<rparr> in
          (case settleStored e s rl1 tx of
             None \<Rightarrow> (True, rl1)
           | Some (None, rl2) \<Rightarrow> (False, rl2)
           | Some (Some _, rl2) \<Rightarrow> (True, rl2))
      | Some None \<Rightarrow>
          if tx_nonce tx < latest then (True, snd (nonceTaken e s rl tx LOST_CONFIRM_MS))
          else (True, stuck_check e s (rebroadcast e s rl tx) tx))"

fun recover_all :: "relay_env \<Rightarrow> sponsor_settings \<Rightarrow> int \<Rightarrow> relayer \<Rightarrow> sponsored_tx list \<Rightarrow> bool \<times> relayer" where
  "recover_all e s latest rl [] = (True, rl)"
| "recover_all e s latest rl (tx # txs) =
     (case recover_one e s latest rl tx of
        (False, rl1) \<Rightarrow> (False, rl1)
      | (True, rl1) \<Rightarrow> recover_all e s latest rl1 txs)"

definition recoverSponsorTxs :: "relay_env \<Rightarrow> sponsor_settings \<Rightarrow> relayer \<Rightarrow> bool \<times> relayer" where
  "recoverSponsorTxs e s rl =
     (if \<not> rl_writer rl then (True, rl)
      else (case rx_latestCount e of
        None \<Rightarrow> (False, rl)
      | Some latest \<Rightarrow> recover_all e s latest rl (unsettledTxs (rl_gas rl) (ss_chainId s) (ss_sponsor s))))"

section \<open>The sweep of held reservations\<close>

definition strikes_out :: "relay_env \<Rightarrow> bool \<Rightarrow> gas_db \<Rightarrow> reservation \<Rightarrow> onchain_task \<Rightarrow> bool" where
  "strikes_out e killed db r t \<longleftrightarrow>
     rs_kind r = KSubmit \<and> lower (oc_worker t) = rs_agentWallet r \<and> oc_status t = EsAssigned \<and>
     \<not> (killed \<or> rs_attemptedAt r \<noteq> None \<or> txsForReservation db (rs_id r) \<noteq> []) \<and> rs_returnedAt r = None"

definition sweep_held :: "relay_env \<Rightarrow> bool \<Rightarrow> bool \<Rightarrow> reservation \<Rightarrow> relayer \<Rightarrow> relayer" where
  "sweep_held e killed drains r rl =
     (let release = close_held e rl (rs_id r) CloseReleased None in
      if inFlight (rl_gas rl) (rs_id r) \<noteq> None then rl
      else if drains then release
      else if rs_kind r = KSubmit \<and>
        (case Option.bind (getState (rx_a2a e) (rs_taskHash r)) (\<lambda>st. truthy (executorAddress st)) of
           None \<Rightarrow> False | Some x \<Rightarrow> lower x \<noteq> rs_agentWallet r)
      then release
      else (case rx_task e (rs_taskId r) of
        None \<Rightarrow> rl
      | Some v \<Rightarrow>
          let t = ev_task v in
          if rs_kind r = KSubmit \<and> lower (oc_worker t) = rs_agentWallet r \<and> oc_status t \<noteq> EsAssigned then release
          else if rs_expiresAt r \<le> rx_now e
          then (if strikes_out e killed (rl_gas rl) r t
                then close_held e rl (rs_id r) CloseExpired (Some ''held an hour after assignment without a submit'')
                else release)
          else rl))"

definition sweepReservations :: "relay_env \<Rightarrow> sponsor_settings \<Rightarrow> bool \<Rightarrow> relayer \<Rightarrow> relayer" where
  "sweepReservations e s drains rl =
     fold (sweep_held e (sc_killed (getControls (rl_gas rl) (ss_chainId s))) drains)
       (heldReservations (rl_gas rl) (ss_chainId s)) rl"

section \<open>Call status\<close>

datatype call_status =
    NoCall
  | CallPending string
  | CallConfirmed "string option"
  | CallFailed "string option" string

definition tx_status_name :: "tx_status \<Rightarrow> string" where
  "tx_status_name st =
     (case st of TxSigned \<Rightarrow> ''signed'' | TxSent \<Rightarrow> ''sent'' | TxConfirmed \<Rightarrow> ''confirmed'' | TxReverted \<Rightarrow> ''reverted''
      | TxNoop \<Rightarrow> ''noop'' | TxDropped \<Rightarrow> ''dropped'' | TxRejected \<Rightarrow> ''rejected'')"

definition callExpired :: "relay_env \<Rightarrow> string \<Rightarrow> bool" where
  "callExpired e raw =
     (case (rx_callDeadline e raw, rx_blockTime e) of (Some d, Some t) \<Rightarrow> d < t | _ \<Rightarrow> False)"

text \<open>\<open>None\<close>: a read throws.\<close>

definition unmined_status ::
  "relay_env \<Rightarrow> relayer \<Rightarrow> reservation \<Rightarrow> sponsored_tx \<Rightarrow> reservation_kind \<Rightarrow> int \<Rightarrow> call_status option \<times> relayer" where
  "unmined_status e rl r out kind tid =
     (case rx_taskAt e ''latest'' tid of
        None \<Rightarrow> (None, rl)
      | Some (st, evidence) \<Rightarrow>
          if kind = KSubmit \<and> st \<noteq> EsAssigned
          then (if st = EsSubmitted \<and>
                  (case truthy (recordedEvidenceHash e (rs_taskHash r)) of None \<Rightarrow> False | Some w \<Rightarrow> lower evidence = lower w)
                then (Some (CallConfirmed None), with_gas rl (markReservationUsed (rl_gas rl) (rx_now e) (rs_id r) None))
                else (Some (CallFailed (Some (tx_hash out)) ''task_moved''), rl))
          else if kind = KRelease \<and> st \<noteq> EsDisputed then (Some (CallFailed (Some (tx_hash out)) ''task_moved''), rl)
          else if \<not> tx_withAuthorization out \<and> callExpired e (tx_rawTx out)
          then (Some (CallFailed (Some (tx_hash out)) ''call_expired''), rl)
          else (Some (CallPending (tx_hash out)), rl))"

definition settled_answer :: "string \<Rightarrow> relay_result option \<Rightarrow> call_status" where
  "settled_answer hash r =
     (case r of
        Some (RelayOk tx _) \<Rightarrow> CallConfirmed tx
      | Some (Refused _ c _) \<Rightarrow> CallFailed (Some hash) c
      | None \<Rightarrow> CallFailed (Some hash) ''settled'')"

definition sponsoredCallStatus ::
  "relay_env \<Rightarrow> relayer \<Rightarrow> string \<Rightarrow> int \<Rightarrow> reservation_kind \<Rightarrow> call_status option \<times> relayer" where
  "sponsoredCallStatus e rl wallet tid kind =
     (case so_drain (rx_sponsor e) of
        Inl _ \<Rightarrow> (Some NoCall, rl)
      | Inr s \<Rightarrow>
          (case getReservation (rl_gas rl) (ss_chainId s) tid kind of
             None \<Rightarrow> (Some NoCall, rl)
           | Some r \<Rightarrow>
               if rs_agentWallet r \<noteq> lower wallet then (Some NoCall, rl)
               else if rs_status r = RUsed then (Some (CallConfirmed (rs_txHash r)), rl)
               else
                 let txs = txsForReservation (rl_gas rl) (rs_id r) in
                 (case find unsettled txs of
                    Some out \<Rightarrow>
                      (case rx_readReceipt e (tx_hash out) of
                         Some (Some _) \<Rightarrow>
                           (case settleStored e s rl out of
                              None \<Rightarrow> (Some (settled_answer (tx_hash out) None), rl)
                            | Some (None, rl1) \<Rightarrow> (None, rl1)
                            | Some (r', rl1) \<Rightarrow> (Some (settled_answer (tx_hash out) r'), rl1))
                       | _ \<Rightarrow> unmined_status e rl r out kind tid)
                  | None \<Rightarrow>
                      (case rev txs of
                         [] \<Rightarrow> (Some NoCall, rl)
                       | t # _ \<Rightarrow> (Some (CallFailed (Some (tx_hash t)) (tx_status_name (tx_status t))), rl)))))"

section \<open>The tick\<close>

definition acquireSponsorWriter :: "relay_env \<Rightarrow> relayer \<Rightarrow> bool \<times> relayer" where
  "acquireSponsorWriter e rl =
     (if rl_writer rl then (True, rl)
      else if rx_lockFree e then (True, rl\<lparr>rl_writer := True\<rparr>) else (False, rl))"

definition writer_pass :: "relay_env \<Rightarrow> sponsor_settings \<Rightarrow> bool \<Rightarrow> relayer \<Rightarrow> relayer" where
  "writer_pass e s drains rl =
     (let r = recoverSponsorTxs e s rl in
      if \<not> fst r then snd r
      else
        let rl1 = sweepReservations e s drains (snd r)
        in if drains then rl1 else snd (maybeAutoPause e s rl1))"

definition writerTick :: "relay_env \<Rightarrow> relayer \<Rightarrow> relayer" where
  "writerTick e rl =
     (case fst (drainableSettings (rx_sponsor e) (rx_roles e)) of
        Inl _ \<Rightarrow> rl
      | Inr (on, s) \<Rightarrow>
          if \<not> on \<and> inFlightCounts (rl_gas rl) (ss_chainId s) = (0, 0) then rl\<lparr>rl_writer := False\<rparr>
          else
            let rl1 = snd (acquireSponsorWriter e rl)
            in if rl_writer rl1 then writer_pass e s (\<not> on) rl1 else rl1)"

text \<open>Passes: which one runs since when. One that hangs gives way; when it ends it leaves a later one alone.\<close>

record tick_guard =
  tg_generation :: nat
  tg_startedAt :: "int option"

definition tick_starts :: "tick_guard \<Rightarrow> int \<Rightarrow> nat option \<times> tick_guard" where
  "tick_starts g now =
     (if (case tg_startedAt g of None \<Rightarrow> False | Some t \<Rightarrow> now - t < TICK_STALL_MS) then (None, g)
      else (Some (Suc (tg_generation g)), \<lparr>tg_generation = Suc (tg_generation g), tg_startedAt = Some now\<rparr>))"

definition tick_ends :: "tick_guard \<Rightarrow> nat \<Rightarrow> tick_guard" where
  "tick_ends g generation = (if tg_generation g = generation then g\<lparr>tg_startedAt := None\<rparr> else g)"

end
