(* ===== verification/RelayerProps.thy ===== *)
theory RelayerProps
  imports RelayerTick EligibilityProps
begin

text \<open>
  What the relayer promises: it writes only through the store's calls, every byte it broadcasts is
  stored with a nonce of its own, it sends only a call that may be sponsored, a final refusal
  leaves nothing out, an agent gets a strike only for sitting on its reservation, and the
  breaker only ever stops.
\<close>

section \<open>Only the store's calls\<close>

abbreviation gas_steps :: "gas_db \<Rightarrow> gas_db \<Rightarrow> bool" where
  "gas_steps \<equiv> gas_step\<^sup>*\<^sup>*"

text \<open>What others write meanwhile, they too write by the store's calls.\<close>

definition honest :: "relay_env \<Rightarrow> bool" where
  "honest e \<longleftrightarrow> (\<forall>db. gas_steps db (rx_inQueue e db) \<and> gas_steps db (rx_whileOut e db))"

lemma with_gas_sel [simp]:
  "rl_gas (with_gas rl db) = db" "rl_out (with_gas rl db) = rl_out rl" "rl_writer (with_gas rl db) = rl_writer rl"
  "rl_lostSince (with_gas rl db) = rl_lostSince rl"
  by (simp_all add: with_gas_def)

named_theorems relay_steps

lemma steps_refl [relay_steps, simp]: "gas_steps db db"
  by simp

lemma steps_one: "gas_steps db0 db \<Longrightarrow> gas_step db db' \<Longrightarrow> gas_steps db0 db'"
  by (rule rtranclp.rtrancl_into_rtrancl)

lemma steps_store [relay_steps]:
  "gas_steps db0 db \<Longrightarrow> gas_steps db0 (snd (reserve db now inp caps))"
  "gas_steps db0 db \<Longrightarrow> gas_steps db0 (markReservationAttempted db now i ref)"
  "gas_steps db0 db \<Longrightarrow> gas_steps db0 (snd (closeReservation db now i cs reason))"
  "gas_steps db0 db \<Longrightarrow> gas_steps db0 (snd (recordSignedTx db now tx))"
  "gas_steps db0 db \<Longrightarrow> gas_steps db0 (snd (setTxStatus db hash st' old))"
  "gas_steps db0 db \<Longrightarrow> gas_steps db0 (snd (settleTx db hash ss' gasUsed cost))"
  "gas_steps db0 db \<Longrightarrow> gas_steps db0 (markReservationUsed db now i tx')"
  "gas_steps db0 db \<Longrightarrow> gas_steps db0 (snd (setControls db now c paused killed why by_whom))"
  by (auto intro: steps_one gas_step.intros)

lemma steps_hooks [relay_steps]:
  "honest e \<Longrightarrow> gas_steps db0 db \<Longrightarrow> gas_steps db0 (rx_inQueue e db)"
  "honest e \<Longrightarrow> gas_steps db0 db \<Longrightarrow> gas_steps db0 (rx_whileOut e db)"
  unfolding honest_def by (meson rtranclp_trans)+

lemma steps_parts [relay_steps]:
  "gas_steps db0 (rl_gas rl) \<Longrightarrow> gas_steps db0 (rl_gas (close_held e rl i st reason))"
  "gas_steps db0 (rl_gas rl) \<Longrightarrow> gas_steps db0 (rl_gas (give_back e rl back i))"
  "gas_steps db0 (rl_gas rl) \<Longrightarrow> gas_steps db0 (rl_gas (snd (set_status rl hash st' old)))"
  "gas_steps db0 (rl_gas rl) \<Longrightarrow> gas_steps db0 (rl_gas (trip e s rl act why nonce hash))"
  "gas_steps db0 (rl_gas rl) \<Longrightarrow> gas_steps db0 (rl_gas (snd (maybeAutoPause e s rl)))"
  by (auto simp: close_held_def give_back_def set_status_def trip_def maybeAutoPause_def Let_def intro: relay_steps
      split: option.split)

text \<open>A write is followed branch by branch.\<close>

lemma steps_case:
  "(x = None \<Longrightarrow> gas_steps d (rl_gas (snd a))) \<Longrightarrow> (\<And>y. x = Some y \<Longrightarrow> gas_steps d (rl_gas (snd (f y)))) \<Longrightarrow>
   gas_steps d (rl_gas (snd (case x of None \<Rightarrow> a | Some y \<Rightarrow> f y)))"
  "(\<And>y. z = Inl y \<Longrightarrow> gas_steps d (rl_gas (snd (g y)))) \<Longrightarrow> (\<And>y. z = Inr y \<Longrightarrow> gas_steps d (rl_gas (snd (h y)))) \<Longrightarrow>
   gas_steps d (rl_gas (snd (case z of Inl y \<Rightarrow> g y | Inr y \<Rightarrow> h y)))"
  "(c \<Longrightarrow> gas_steps d (rl_gas (snd a))) \<Longrightarrow> (\<not> c \<Longrightarrow> gas_steps d (rl_gas (snd b))) \<Longrightarrow>
   gas_steps d (rl_gas (snd (if c then a else b)))"
  "(c \<Longrightarrow> gas_steps d (rl_gas rl1)) \<Longrightarrow> (\<not> c \<Longrightarrow> gas_steps d (rl_gas rl2)) \<Longrightarrow>
   gas_steps d (rl_gas (if c then rl1 else rl2))"
  "(x = None \<Longrightarrow> gas_steps d (rl_gas rl1)) \<Longrightarrow> (\<And>y. x = Some y \<Longrightarrow> gas_steps d (rl_gas (f' y))) \<Longrightarrow>
   gas_steps d (rl_gas (case x of None \<Rightarrow> rl1 | Some y \<Rightarrow> f' y))"
  "(\<And>u v. w = (u, v) \<Longrightarrow> gas_steps d (rl_gas (snd (k u v)))) \<Longrightarrow>
   gas_steps d (rl_gas (snd (case w of (u, v) \<Rightarrow> k u v)))"
  "gas_steps d (rl_gas rl1) \<Longrightarrow> gas_steps d (rl_gas (snd (r, rl1)))"
  "gas_steps d db \<Longrightarrow> gas_steps d (rl_gas (with_gas rl1 db))"
  by (simp_all split: option.split sum.split prod.split)

lemma steps_bool:
  "(b \<Longrightarrow> gas_steps d (rl_gas (snd a))) \<Longrightarrow> (\<not> b \<Longrightarrow> gas_steps d (rl_gas (snd c))) \<Longrightarrow>
   gas_steps d (rl_gas (snd (case b of True \<Rightarrow> a | False \<Rightarrow> c)))"
  by (cases b) simp_all

lemma steps_failure:
  "gas_steps d (rl_gas (snd a1)) \<Longrightarrow> gas_steps d (rl_gas (snd a2)) \<Longrightarrow> gas_steps d (rl_gas (snd a3)) \<Longrightarrow>
   gas_steps d (rl_gas (snd a4)) \<Longrightarrow>
   gas_steps d (rl_gas (snd (case x of Known \<Rightarrow> a1 | NonceLow \<Rightarrow> a2 | Transient \<Rightarrow> a3 | Rejected \<Rightarrow> a4)))"
  by (cases x; simp)+

lemma steps_settle_mined:
  "gas_steps d (rl_gas rl) \<Longrightarrow> gas_steps d (rl_gas (snd (settle_mined e s rl r wallet kind tid hash rc ss')))"
  unfolding settle_mined_def Let_def by (rule steps_case steps_bool relay_steps | assumption)+

lemma steps_settle [relay_steps]:
  "gas_steps d (rl_gas rl) \<Longrightarrow> gas_steps d (rl_gas (snd (settle e s rl r wallet kind tid hash)))"
  unfolding settle_def by (rule steps_settle_mined steps_case steps_bool relay_steps | assumption)+

lemma steps_broadcast_refused:
  "gas_steps d (rl_gas rl) \<Longrightarrow> gas_steps d (rl_gas (snd (broadcast_refused e s rl r p nonce hash err why)))"
  unfolding broadcast_refused_def Let_def by (rule steps_case steps_bool relay_steps | assumption)+

lemma steps_broadcast:
  assumes "honest e" "gas_steps d (rl_gas rl)"
  shows "gas_steps d (rl_gas (snd (broadcast_stored e s rl r p nonce raw hash)))"
proof -
  have out: "gas_steps d (rl_gas (rl\<lparr>rl_out := rl_out rl @ [raw], rl_gas := rx_whileOut e (rl_gas rl)\<rparr>))"
    using steps_hooks(2) [OF assms] by simp
  show ?thesis
    unfolding broadcast_stored_def Let_def
    by (rule out steps_case steps_failure steps_broadcast_refused relay_steps)+
qed

lemma steps_sign_and_store:
  "honest e \<Longrightarrow> gas_steps d (rl_gas rl) \<Longrightarrow> gas_steps d (rl_gas (snd (sign_and_store e s rl r p)))"
  unfolding sign_and_store_def Let_def
  by (rule steps_case steps_broadcast relay_steps | assumption)+

lemma steps_send:
  "honest e \<Longrightarrow> gas_steps d (rl_gas rl) \<Longrightarrow> gas_steps d (rl_gas (snd (send e s rl r p)))"
  unfolding send_def Let_def
  by (rule steps_case steps_sign_and_store relay_steps | assumption)+

text \<open>A gate either ends the call, with a state the store's calls led to, or leaves the state alone.\<close>

lemma steps_gates:
  "gas_steps d (rl_gas rl) \<Longrightarrow> submit_gate e rl inp h v = Inl out \<Longrightarrow> gas_steps d (rl_gas (snd out))"
  "gas_steps d (rl_gas rl) \<Longrightarrow> release_gate e s rl inp t = Inl out \<Longrightarrow> gas_steps d (rl_gas (snd out))"
  "gas_steps d (rl_gas rl) \<Longrightarrow> setup_gate e s rl inp = Inl out \<Longrightarrow> gas_steps d (rl_gas (snd out))"
  subgoal
    by (auto simp: submit_gate_def Let_def relay_steps split: option.splits if_splits)
  subgoal
    by (auto simp: release_gate_def Let_def split: option.splits if_splits bool.splits)
  subgoal
    by (auto simp: setup_gate_def Let_def split: option.splits if_splits)
  done

lemma steps_reserve_release:
  assumes "gas_steps d (rl_gas rl)"
  shows "reserve_release e s rl inp t elig = Inl out \<Longrightarrow> gas_steps d (rl_gas (snd out))"
    "reserve_release e s rl inp t elig = Inr x \<Longrightarrow> x = (r, rl') \<Longrightarrow> gas_steps d (rl_gas rl')"
  using assms by (auto simp: reserve_release_def Let_def relay_steps split: sum.splits)

lemma steps_relay_ready:
  assumes "honest e" "gas_steps d (rl_gas rl)"
  shows "gas_steps d (rl_gas (snd (relay_ready e s rl inp t elig res)))"
  unfolding relay_ready_def Let_def
  by (rule assms steps_case steps_bool steps_send relay_steps |
      erule steps_gates(3) [OF assms(2)] steps_reserve_release [OF assms(2)] | assumption)+

lemma steps_relay_checked:
  assumes "honest e" "gas_steps d (rl_gas rl)"
  shows "gas_steps d (rl_gas (snd (relay_checked e s rl inp h elig)))"
  unfolding relay_checked_def
  by (rule assms steps_case steps_relay_ready |
      erule steps_gates(1,2) [OF assms(2)])+

lemma steps_answer:
  "gas_steps d (rl_gas rl) \<Longrightarrow> answerInFlight e s rl inp = Some out \<Longrightarrow> gas_steps d (rl_gas (snd out))"
  by (auto simp: answerInFlight_def relay_steps split: option.splits)

lemma steps_relay_on:
  assumes "honest e" "gas_steps d (rl_gas rl)"
  shows "gas_steps d (rl_gas (snd (relay_on e s rl inp)))"
proof -
  have held: "gas_steps d (rl_gas (case x of None \<Rightarrow> rl | Some r \<Rightarrow>
      if why \<in> {KeyExported, KeyMismatch, SetupLimit} then close_held e rl (rs_id r) CloseReleased None else rl))" for x why
    using assms(2) by (simp add: relay_steps split: option.split)
  show ?thesis
    unfolding relay_on_def Let_def
    by (rule assms held steps_case steps_relay_checked | erule steps_answer [OF assms(2)])+
qed

lemma steps_noteAttempt:
  "gas_steps d (rl_gas rl) \<Longrightarrow> gas_steps d (rl_gas (noteAttempt e rl inp r))"
  unfolding noteAttempt_def by (simp add: relay_steps split: sum.split option.split)

lemma relay_run:
  "fst (runnableSettings (rx_sponsor e) (rx_roles e)) = Inr s \<Longrightarrow> relay e rl inp = relay_on e s rl inp"
  by (cases "runnableSettings (rx_sponsor e) (rx_roles e)") (simp add: relay_def)

lemma steps_relaySponsoredCall:
  assumes "honest e" "gas_steps d (rl_gas rl)"
  shows "gas_steps d (rl_gas (snd (relaySponsoredCall e rl inp)))"
proof -
  have "gas_steps d (rl_gas (snd (relay e rl inp)))"
    unfolding relay_def using assms steps_relay_on [OF assms]
    by (auto split: sum.split prod.split option.split dest: steps_answer)
  then show ?thesis
    unfolding relaySponsoredCall_def by (auto simp: steps_noteAttempt split: prod.split option.split)
qed

section \<open>The writer's passes and the status only use the store's calls\<close>

lemma steps_nonceTaken [relay_steps]:
  assumes "gas_steps d (rl_gas rl)"
  shows "gas_steps d (rl_gas (snd (nonceTaken e s rl tx ms)))"
proof -
  have upd: "gas_steps d (rl_gas (rl\<lparr>rl_lostSince := m\<rparr>))" for m using assms by simp
  have upd2: "gas_steps d (rl_gas ((if c then rl\<lparr>rl_lostSince := m\<rparr> else rl)\<lparr>rl_lostSince := m'\<rparr>))" for c m m'
    using assms by simp
  show ?thesis
    unfolding nonceTaken_def Let_def
    by (rule assms upd upd2 steps_case steps_bool relay_steps)+
qed

lemma steps_stuck_check:
  "gas_steps d (rl_gas rl) \<Longrightarrow> gas_steps d (rl_gas (stuck_check e s rl tx))"
  unfolding stuck_check_def by (simp add: relay_steps)

lemma steps_rebroadcast:
  assumes "gas_steps d (rl_gas rl)"
  shows "gas_steps d (rl_gas (rebroadcast e s rl tx))"
proof -
  have out: "gas_steps d (rl_gas (rl\<lparr>rl_out := x\<rparr>))" for x using assms by simp
  have marked: "gas_steps d (rl_gas (snd (set_status (rl\<lparr>rl_out := x\<rparr>) hash st' old)))" for x hash st' old
    by (rule relay_steps) (rule out)
  have "gas_steps d (rl_gas (rl1\<lparr>rl_refusedAlerted := m\<rparr>))" if "gas_steps d (rl_gas rl1)" for rl1 :: relayer and m
    using that by simp
  then show ?thesis
    using marked out unfolding rebroadcast_def Let_def
    by (simp add: relay_steps split: option.split broadcast_failure.split)
qed

lemma steps_settleStored:
  "gas_steps d (rl_gas rl) \<Longrightarrow> settleStored e s rl tx = Some out \<Longrightarrow> gas_steps d (rl_gas (snd out))"
  by (auto simp: settleStored_def relay_steps)

lemma steps_recover_one:
  assumes "gas_steps d (rl_gas rl)"
  shows "gas_steps d (rl_gas (snd (recover_one e s latest rl tx)))"
proof -
  have upd: "gas_steps d (rl_gas (rl\<lparr>rl_lostSince := m\<rparr>))" for m using assms by simp
  have stored: "settleStored e s (rl\<lparr>rl_lostSince := m\<rparr>) tx = Some x \<Longrightarrow> x = (a, rl2) \<Longrightarrow> gas_steps d (rl_gas rl2)" for m x a rl2
    using steps_settleStored [OF upd] by fastforce
  show ?thesis
    unfolding recover_one_def Let_def
    by (rule assms upd steps_case steps_stuck_check steps_rebroadcast relay_steps | erule stored | assumption)+
qed

lemma steps_recover_all:
  "gas_steps d (rl_gas rl) \<Longrightarrow> gas_steps d (rl_gas (snd (recover_all e s latest rl txs)))"
proof (induction txs arbitrary: rl)
  case (Cons tx txs)
  then show ?case
    using steps_recover_one [OF Cons.prems, of e s latest tx]
    by (cases "recover_one e s latest rl tx"; cases "fst (recover_one e s latest rl tx)") simp_all
qed simp

lemma steps_sweep_held:
  "gas_steps d (rl_gas rl) \<Longrightarrow> gas_steps d (rl_gas (sweep_held e killed drains r rl))"
  unfolding sweep_held_def Let_def by (rule steps_case relay_steps | assumption)+

lemma steps_sweep:
  "gas_steps d (rl_gas rl) \<Longrightarrow> gas_steps d (rl_gas (sweepReservations e s drains rl))"
  unfolding sweepReservations_def
  by (rule fold_invariant [where P = "\<lambda>rl. gas_steps d (rl_gas rl)" and Q = "\<lambda>_. True"]) (simp_all add: steps_sweep_held)

lemma steps_recoverSponsorTxs:
  "gas_steps d (rl_gas rl) \<Longrightarrow> gas_steps d (rl_gas (snd (recoverSponsorTxs e s rl)))"
  unfolding recoverSponsorTxs_def by (simp add: steps_recover_all split: option.split)

lemma steps_writerTick:
  assumes "gas_steps d (rl_gas rl)"
  shows "gas_steps d (rl_gas (writerTick e rl))"
proof -
  have "gas_steps d (rl_gas (writer_pass e s drains rl1))" if "gas_steps d (rl_gas rl1)" for s drains rl1
    using that unfolding writer_pass_def Let_def
    by (simp add: relay_steps steps_sweep steps_recoverSponsorTxs)
  moreover have "gas_steps d (rl_gas (snd (acquireSponsorWriter e rl)))"
    using assms by (simp add: acquireSponsorWriter_def)
  ultimately show ?thesis
    using assms unfolding writerTick_def Let_def by (simp split: sum.split prod.split)
qed

lemma steps_status:
  assumes "gas_steps d (rl_gas rl)"
  shows "gas_steps d (rl_gas (snd (sponsoredCallStatus e rl wallet tid kind)))"
proof -
  have unmined: "gas_steps d (rl_gas (snd (unmined_status e rl r out kind tid)))" for r out
    using assms unfolding unmined_status_def by (simp add: relay_steps split: option.split)
  show ?thesis
    unfolding sponsoredCallStatus_def Let_def
    by (simp split: sum.split option.split list.split, intro impI allI conjI) (auto simp: assms unmined dest: steps_settleStored [OF assms])
qed

section \<open>What goes out\<close>

abbreviation raws :: "gas_db \<Rightarrow> string set" where
  "raws db \<equiv> tx_rawTx ` set (g_txs db)"

lemma raws_update [simp]:
  "(\<And>t. tx_rawTx (f t) = tx_rawTx t) \<Longrightarrow> tx_rawTx ` set (update_where P f xs) = tx_rawTx ` set xs"
  using map_update_where [of P tx_rawTx f xs] by (metis set_map)

lemma raws_step: "gas_step db db' \<Longrightarrow> raws db \<subseteq> raws db'"
proof (induction rule: gas_step.induct)
  case (reserve db now inp caps)
  then show ?case by (simp add: reserve_def Let_def split: option.split)
next
  case (clock db now i ttl)
  then show ?case by (simp add: startReservationClock_def)
next
  case (returned db now i)
  then show ?case by (simp add: markReservationReturned_def)
next
  case (attempted db now i ref)
  then show ?case by (simp add: markReservationAttempted_def)
next
  case (close db now i st reason)
  then show ?case by (simp add: closeReservation_def Let_def split: option.split)
next
  case (record_tx db now tx)
  then show ?case by (auto simp: recordSignedTx_def Let_def)
next
  case (set_status db hash st1 st0)
  then show ?case by (simp add: setTxStatus_def)
next
  case (settle db hash ss gasUsed costWei)
  then show ?case by (simp add: settleTx_def split: option.split)
next
  case (used db now i h)
  then show ?case by (simp add: markReservationUsed_def)
next
  case (export db agentId wallet requestedBy)
  then show ?case by (simp add: recordKeyExport_def)
next
  case (controls db now chainId paused killed why by_whom)
  then show ?case by (simp add: setControls_def Let_def)
qed

lemma raws_steps: "gas_steps db db' \<Longrightarrow> raws db \<subseteq> raws db'"
proof (induction rule: rtranclp_induct)
  case (step db1 db2)
  then show ?case using raws_step [of db1 db2] by simp
qed simp

lemma out_kept [simp]:
  "rl_out (close_held e rl i st reason) = rl_out rl"
  "rl_out (give_back e rl back i) = rl_out rl"
  "rl_out (snd (set_status rl hash st' old)) = rl_out rl"
  "rl_out (trip e s rl act why nonce hash) = rl_out rl"
  "rl_out (snd (maybeAutoPause e s rl)) = rl_out rl"
  "rl_out (noteAttempt e rl inp rr) = rl_out rl"
  by (simp_all add: close_held_def give_back_def set_status_def trip_def maybeAutoPause_def noteAttempt_def Let_def
      split: option.split sum.split)

lemma out_settle_mined [simp]:
  "rl_out (snd (settle_mined e s rl r wallet kind tid hash rc ss')) = rl_out rl"
  by (simp add: settle_mined_def Let_def split: sum.split option.split bool.split)

lemma out_settle [simp]: "rl_out (snd (settle e s rl r wallet kind tid hash)) = rl_out rl"
  by (simp add: settle_def split: option.split)

lemma out_broadcast_refused [simp]:
  "rl_out (snd (broadcast_refused e s rl r p nonce hash err why)) = rl_out rl"
  by (simp add: broadcast_refused_def Let_def)

lemma out_broadcast_stored [simp]:
  "rl_out (snd (broadcast_stored e s rl r p nonce raw hash)) = rl_out rl @ [raw]"
  by (simp add: broadcast_stored_def Let_def split: option.split broadcast_failure.split)

definition signed_for :: "relay_env \<Rightarrow> sponsor_settings \<Rightarrow> gas_db \<Rightarrow> prepared \<Rightarrow> int \<Rightarrow> string \<times> string" where
  "signed_for e s db p pending = rx_sign e (tx_of s (the_nonce s db pending) p)"

lemma sign_and_store_out:
  "rl_out (snd (sign_and_store e s rl r p)) = rl_out rl \<or>
   (\<exists>pending row db'. rx_pendingCount e = Some pending \<and>
      recordSignedTx (rl_gas rl) (rx_now e)
        \<lparr>si_chainId = ss_chainId s, si_reservationId = rs_id r, si_sponsor = ss_sponsor s,
         si_nonce = the_nonce s (rl_gas rl) pending, si_rawTx = fst (signed_for e s (rl_gas rl) p pending),
         si_txHash = snd (signed_for e s (rl_gas rl) p pending), si_withAuthorization = (pr_authorization p \<noteq> None)\<rparr> =
        (Inr (Some row), db') \<and>
      sign_and_store e s rl r p = broadcast_stored e s (with_gas rl db') r p (the_nonce s (rl_gas rl) pending)
        (fst (signed_for e s (rl_gas rl) p pending)) (snd (signed_for e s (rl_gas rl) p pending)) \<and>
      rl_out (snd (sign_and_store e s rl r p)) = rl_out rl @ [fst (signed_for e s (rl_gas rl) p pending)])"
  by (auto simp: sign_and_store_def signed_for_def Let_def prod_eq_iff split: option.split sum.split)

definition sent_stored :: "relayer \<Rightarrow> bool" where
  "sent_stored rl \<longleftrightarrow> set (rl_out rl) \<subseteq> raws (rl_gas rl)"

lemma sent_stored_kept:
  "sent_stored rl \<Longrightarrow> gas_steps (rl_gas rl) (rl_gas rl') \<Longrightarrow> rl_out rl' = rl_out rl \<Longrightarrow> sent_stored rl'"
  unfolding sent_stored_def using raws_steps by fastforce

lemma recorded_raw:
  "recordSignedTx db now tx = (Inr (Some row), db') \<Longrightarrow> si_rawTx tx \<in> raws db'"
  by (auto simp: recordSignedTx_def Let_def split: if_splits)

lemma sent_sign_and_store:
  assumes "honest e" "sent_stored rl"
  shows "sent_stored (snd (sign_and_store e s rl r p))"
proof -
  have on: "gas_steps (rl_gas rl) (rl_gas (snd (sign_and_store e s rl r p)))"
    using assms(1) by (rule steps_sign_and_store) simp
  consider "rl_out (snd (sign_and_store e s rl r p)) = rl_out rl"
    | pending db' row where "recordSignedTx (rl_gas rl) (rx_now e)
        \<lparr>si_chainId = ss_chainId s, si_reservationId = rs_id r, si_sponsor = ss_sponsor s,
         si_nonce = the_nonce s (rl_gas rl) pending, si_rawTx = fst (signed_for e s (rl_gas rl) p pending),
         si_txHash = snd (signed_for e s (rl_gas rl) p pending), si_withAuthorization = (pr_authorization p \<noteq> None)\<rparr> =
        (Inr (Some row), db')"
      "sign_and_store e s rl r p = broadcast_stored e s (with_gas rl db') r p (the_nonce s (rl_gas rl) pending)
        (fst (signed_for e s (rl_gas rl) p pending)) (snd (signed_for e s (rl_gas rl) p pending))"
      "rl_out (snd (sign_and_store e s rl r p)) = rl_out rl @ [fst (signed_for e s (rl_gas rl) p pending)]"
    using sign_and_store_out [of e s rl r p] by blast
  then show ?thesis
  proof cases
    case 1
    with assms(2) on show ?thesis by (rule sent_stored_kept)
  next
    case 2
    have "raws db' \<subseteq> raws (rl_gas (snd (sign_and_store e s rl r p)))"
      unfolding 2(2) by (rule raws_steps, rule steps_broadcast [OF assms(1)]) simp
    moreover have "fst (signed_for e s (rl_gas rl) p pending) \<in> raws db'"
      using recorded_raw [OF 2(1)] by simp
    moreover have "set (rl_out rl) \<subseteq> raws (rl_gas (snd (sign_and_store e s rl r p)))"
      using assms(2) raws_steps [OF on] by (auto simp: sent_stored_def)
    ultimately show ?thesis unfolding sent_stored_def 2(3) by auto
  qed
qed

section \<open>The way to a send\<close>

lemma send_out:
  "rl_out (snd (send e s rl r p)) = rl_out rl \<or>
   (\<exists>cur. getReservationById (rx_inQueue e (rl_gas rl)) (rs_id r) = Some cur \<and> rs_status cur = RReserved \<and>
      inFlight (rx_inQueue e (rl_gas rl)) (rs_id r) = None \<and>
      sendBlocker s (rx_inQueue e (rl_gas rl)) (txsForReservation (rx_inQueue e (rl_gas rl)) (rs_id r)) = None \<and>
      recheckBeforeSend e s (rx_inQueue e (rl_gas rl)) p = None \<and>
      send e s rl r p = sign_and_store e s (with_gas rl (rx_inQueue e (rl_gas rl))) r p)"
  by (simp add: send_def Let_def split: option.split)

definition the_call :: "relay_env \<Rightarrow> call_input \<Rightarrow> authorization option \<Rightarrow> int \<Rightarrow> int \<Rightarrow> int \<Rightarrow> prepared" where
  "the_call e inp auth estimate fee tip =
     \<lparr>pr_wallet = wallet_of inp, pr_kind = ci_kind inp, pr_taskId = ci_taskId inp,
      pr_data = rx_encodeExecute e (call_of inp) (ci_signature inp),
      pr_gasLimit = (estimate * GAS_LIMIT_MARGIN_PERCENT + 99) div 100,
      pr_maxFeePerGas = fee, pr_maxPriorityFeePerGas = tip, pr_authorization = auth\<rparr>"

lemma gates_keep_out:
  "setup_gate e s rl inp = Inl out \<Longrightarrow> snd out = rl"
  "release_gate e s rl inp t = Inl out \<Longrightarrow> snd out = rl"
  "submit_gate e rl inp h v = Inl out \<Longrightarrow> rl_out (snd out) = rl_out rl"
  "reserve_release e s rl inp t elig = Inl out \<Longrightarrow> rl_out (snd out) = rl_out rl"
  subgoal by (auto simp: setup_gate_def Let_def split: option.splits if_splits)
  subgoal by (auto simp: release_gate_def Let_def split: option.splits if_splits bool.splits)
  subgoal by (auto simp: submit_gate_def Let_def split: option.splits if_splits)
  subgoal by (auto simp: reserve_release_def Let_def split: sum.splits)
  done

lemma reserved_release:
  assumes "reserve_release e s rl inp t elig = Inr (r, rl1)"
  shows "rl_out rl1 = rl_out rl \<and> rl_writer rl1 = rl_writer rl \<and> (\<exists>owner. elig = Inr owner)"
  using assms by (auto simp: reserve_release_def Let_def split: sum.splits)

lemma relay_ready_out:
  "rl_out (snd (relay_ready e s rl inp t elig res)) = rl_out rl \<or>
   (\<exists>auth est fee tip r rl1. setup_gate e s rl inp = Inr auth \<and>
      simulate e s False (wallet_of inp) (rx_encodeExecute e (call_of inp) (ci_signature inp)) auth = Inr est \<and>
      fees_for e s = Some (Some (fee, tip)) \<and>
      (res = Some r \<and> rl1 = rl \<or> res = None \<and> reserve_release e s rl inp t elig = Inr (r, rl1)) \<and>
      relay_ready e s rl inp t elig res = send e s rl1 r (the_call e inp auth est fee tip))"
proof (cases "setup_gate e s rl inp")
  case (Inl out)
  then show ?thesis using gates_keep_out(1) [OF Inl] by (simp add: relay_ready_def)
next
  case (Inr auth)
  show ?thesis
  proof (cases "simulate e s False (wallet_of inp) (rx_encodeExecute e (call_of inp) (ci_signature inp)) auth")
    case (Inl no)
    then show ?thesis
      using Inr by (simp add: relay_ready_def Let_def split: prod.split option.split)
  next
    case sim: (Inr est)
    consider "fees_for e s = None" | "fees_for e s = Some None" | fee tip where "fees_for e s = Some (Some (fee, tip))"
      by (metis option.exhaust surj_pair)
    then show ?thesis
    proof cases
      case 3
      note go = Inr sim 3
      show ?thesis
      proof (cases res)
        case (Some r)
        with go show ?thesis by (simp add: relay_ready_def Let_def the_call_def)
      next
        case None
        then show ?thesis
          using go gates_keep_out(4) [of e s rl inp t elig]
          by (cases "reserve_release e s rl inp t elig") (auto simp: relay_ready_def Let_def the_call_def)
      qed
    qed (use Inr sim in \<open>simp_all add: relay_ready_def Let_def\<close>)
  qed
qed

lemma relay_checked_out:
  "rl_out (snd (relay_checked e s rl inp h elig)) = rl_out rl \<or>
   (\<exists>v res. rx_task e (ci_taskId inp) = Some v \<and> lower (oc_worker (ev_task v)) = lower (wallet_of inp) \<and>
      signed_by_wallet e s inp \<and>
      (ci_kind inp = KSubmit \<and> (\<exists>r. res = Some r \<and> submit_gate e rl inp h v = Inr r) \<or>
       ci_kind inp \<noteq> KSubmit \<and> res = None \<and> release_gate e s rl inp (ev_task v) = Inr ()) \<and>
      relay_checked e s rl inp h elig = relay_ready e s rl inp (ev_task v) elig res)"
proof (cases "rx_task e (ci_taskId inp)")
  case (Some v)
  show ?thesis
  proof (cases "lower (oc_worker (ev_task v)) = lower (wallet_of inp) \<and> signed_by_wallet e s inp")
    case ok: True
    show ?thesis
    proof (cases "ci_kind inp = KSubmit")
      case True
      then show ?thesis
        using Some ok gates_keep_out(3) [of e rl inp h v]
        by (cases "submit_gate e rl inp h v") (simp_all add: relay_checked_def)
    next
      case False
      then show ?thesis
        using Some ok gates_keep_out(2) [of e s rl inp "ev_task v"]
        by (cases "release_gate e s rl inp (ev_task v)") (simp_all add: relay_checked_def)
    qed
  qed (use Some in \<open>auto simp: relay_checked_def\<close>)
qed (simp add: relay_checked_def)

lemma answer_out: "answerInFlight e s rl inp = Some out \<Longrightarrow> rl_out (snd out) = rl_out rl"
  by (auto simp: answerInFlight_def split: option.splits)

definition struck_holder :: "relay_env \<Rightarrow> sponsor_settings \<Rightarrow> relayer \<Rightarrow> call_input \<Rightarrow> bool" where
  "struck_holder e s rl inp \<longleftrightarrow>
     agentEligibility (rx_sponsor e) (rl_gas rl) (rx_now e) s (Some (ci_agent inp)) = Inl Strikes \<and>
     holds_call (getReservation (rl_gas rl) (ss_chainId s) (ci_taskId inp) (ci_kind inp)) (wallet_of inp) \<noteq> None"

lemma relay_on_out:
  "rl_out (snd (relay_on e s rl inp)) = rl_out rl \<or>
   (answerInFlight e s rl inp = None \<and> rl_writer rl \<and> \<not> sc_killed (getControls (rl_gas rl) (ss_chainId s)) \<and>
    (struck_holder e s rl inp \<or>
      (\<exists>owner. agentEligibility (rx_sponsor e) (rl_gas rl) (rx_now e) s (Some (ci_agent inp)) = Inr owner)) \<and>
    relay_on e s rl inp = relay_checked e s rl inp (getReservation (rl_gas rl) (ss_chainId s) (ci_taskId inp) (ci_kind inp))
      (agentEligibility (rx_sponsor e) (rl_gas rl) (rx_now e) s (Some (ci_agent inp))))"
proof (cases "answerInFlight e s rl inp")
  case (Some out)
  then show ?thesis using answer_out [OF Some] by (simp add: relay_on_def)
next
  case None
  then show ?thesis
    by (auto simp: relay_on_def struck_holder_def Let_def split: sum.split option.split)
qed

lemma relay_out:
  "rl_out (snd (relaySponsoredCall e rl inp)) = rl_out rl \<or>
   (\<exists>s. fst (runnableSettings (rx_sponsor e) (rx_roles e)) = Inr s \<and>
      rl_out (snd (relaySponsoredCall e rl inp)) = rl_out (snd (relay_on e s rl inp)))"
proof -
  have same: "rl_out (snd (relaySponsoredCall e rl inp)) = rl_out (snd (relay e rl inp))"
    by (simp add: relaySponsoredCall_def split: prod.split option.split)
  show ?thesis
    unfolding same relay_def
    by (auto split: sum.split prod.split option.split dest: answer_out)
qed

section \<open>Every operation broadcasts stored bytes only\<close>

lemma sent_send:
  assumes "honest e" "sent_stored rl"
  shows "sent_stored (snd (send e s rl r p))"
proof -
  have on: "gas_steps (rl_gas rl) (rl_gas (snd (send e s rl r p)))"
    using assms(1) by (rule steps_send) simp
  have "gas_steps (rl_gas rl) (rx_inQueue e (rl_gas rl))" using assms(1) by (simp add: honest_def)
  then have "sent_stored (with_gas rl (rx_inQueue e (rl_gas rl)))"
    by (intro sent_stored_kept [OF assms(2)]) simp_all
  then have "sent_stored (snd (sign_and_store e s (with_gas rl (rx_inQueue e (rl_gas rl))) r p))"
    by (rule sent_sign_and_store [OF assms(1)])
  then show ?thesis
    using send_out [of e s rl r p] sent_stored_kept [OF assms(2) on] by auto
qed

lemma sent_relay_ready:
  assumes "honest e" "sent_stored rl"
  shows "sent_stored (snd (relay_ready e s rl inp t elig res))"
proof -
  have on: "gas_steps (rl_gas rl) (rl_gas (snd (relay_ready e s rl inp t elig res)))"
    using assms(1) by (rule steps_relay_ready) simp
  have "sent_stored rl1" if "reserve_release e s rl inp t elig = Inr (r, rl1)" for r rl1
    using sent_stored_kept [OF assms(2) steps_reserve_release(2) [OF _ that refl]] reserved_release [OF that] by simp
  then show ?thesis
    using relay_ready_out [of e s rl inp t elig res] sent_stored_kept [OF assms(2) on] sent_send [OF assms(1)] assms(2)
    by metis
qed

lemma sent_relay_checked:
  assumes "honest e" "sent_stored rl"
  shows "sent_stored (snd (relay_checked e s rl inp h elig))"
proof -
  have on: "gas_steps (rl_gas rl) (rl_gas (snd (relay_checked e s rl inp h elig)))"
    using assms(1) by (rule steps_relay_checked) simp
  show ?thesis
    using relay_checked_out [of e s rl inp h elig] sent_stored_kept [OF assms(2) on] sent_relay_ready [OF assms] by metis
qed

lemma sent_relaySponsoredCall:
  assumes "honest e" "sent_stored rl"
  shows "sent_stored (snd (relaySponsoredCall e rl inp))"
proof -
  have on: "gas_steps (rl_gas rl) (rl_gas (snd (relaySponsoredCall e rl inp)))"
    using assms(1) by (rule steps_relaySponsoredCall) simp
  show ?thesis
  proof (cases "rl_out (snd (relaySponsoredCall e rl inp)) = rl_out rl")
    case False
    then obtain s where out: "rl_out (snd (relaySponsoredCall e rl inp)) = rl_out (snd (relay_on e s rl inp))"
      and run: "fst (runnableSettings (rx_sponsor e) (rx_roles e)) = Inr s"
      using relay_out [of e rl inp] by blast
    have "sent_stored (snd (relay_on e s rl inp))"
      using relay_on_out [of e s rl inp] False out sent_relay_checked [OF assms] by metis
    moreover have "raws (rl_gas (snd (relay_on e s rl inp))) \<subseteq> raws (rl_gas (snd (relaySponsoredCall e rl inp)))"
      using raws_steps [OF steps_noteAttempt [OF steps_refl]]
      by (simp add: relaySponsoredCall_def relay_run [OF run] split: prod.split option.split)
    ultimately show ?thesis unfolding sent_stored_def out by blast
  qed (rule sent_stored_kept [OF assms(2) on])
qed

lemma out_settleStored: "settleStored e s rl tx = Some out \<Longrightarrow> rl_out (snd out) = rl_out rl"
  by (auto simp: settleStored_def)

lemma out_tick_parts [simp]:
  "rl_out (snd (nonceTaken e s rl tx ms)) = rl_out rl"
  "rl_out (stuck_check e s rl tx) = rl_out rl"
  "rl_out (rebroadcast e s rl tx) = rl_out rl @ [tx_rawTx tx]"
  "rl_out (sweep_held e killed drains r rl) = rl_out rl"
  "rl_out (snd (acquireSponsorWriter e rl)) = rl_out rl"
  subgoal by (simp add: nonceTaken_def Let_def split: option.split bool.split)
  subgoal by (simp add: stuck_check_def)
  subgoal by (simp add: rebroadcast_def Let_def split: option.split broadcast_failure.split)
  subgoal by (simp add: sweep_held_def Let_def split: option.split)
  subgoal by (simp add: acquireSponsorWriter_def)
  done

lemma sent_recover_one:
  assumes "sent_stored rl" "tx_rawTx tx \<in> raws (rl_gas rl)"
  shows "sent_stored (snd (recover_one e s latest rl tx))"
proof -
  have on: "raws (rl_gas rl) \<subseteq> raws (rl_gas (snd (recover_one e s latest rl tx)))"
    by (rule raws_steps, rule steps_recover_one) simp
  have "set (rl_out (snd (recover_one e s latest rl tx))) \<subseteq> insert (tx_rawTx tx) (set (rl_out rl))"
  proof (cases "rx_readReceipt e (tx_hash tx)")
    case (Some rc)
    show ?thesis
    proof (cases rc)
      case (Some c)
      let ?rl = "rl\<lparr>rl_lostSince := (rl_lostSince rl)(tx_hash tx := None)\<rparr>"
      have "rl_out (snd (recover_one e s latest rl tx)) = rl_out rl"
        using \<open>rx_readReceipt e (tx_hash tx) = Some rc\<close> Some out_settleStored [of e s ?rl tx]
        by (cases "settleStored e s ?rl tx") (auto simp: recover_one_def Let_def split: prod.split option.split)
      then show ?thesis by auto
    qed (use Some in \<open>simp add: recover_one_def subset_insertI\<close>)
  qed (simp add: recover_one_def subset_insertI)
  moreover have "insert (tx_rawTx tx) (set (rl_out rl)) \<subseteq> raws (rl_gas rl)"
    using assms unfolding sent_stored_def by (rule insert_subset [THEN iffD2, OF conjI, rotated])
  ultimately show ?thesis unfolding sent_stored_def using on by (meson order_trans)
qed

lemma sent_recover_all:
  "sent_stored rl \<Longrightarrow> tx_rawTx ` set txs \<subseteq> raws (rl_gas rl) \<Longrightarrow> sent_stored (snd (recover_all e s latest rl txs))"
proof (induction txs arbitrary: rl)
  case (Cons tx txs)
  have one: "sent_stored (snd (recover_one e s latest rl tx))"
    using Cons.prems by (intro sent_recover_one) simp_all
  have "raws (rl_gas rl) \<subseteq> raws (rl_gas (snd (recover_one e s latest rl tx)))"
    by (rule raws_steps, rule steps_recover_one) simp
  moreover have "tx_rawTx ` set txs \<subseteq> raws (rl_gas rl)" using Cons.prems(2) by simp
  ultimately have "tx_rawTx ` set txs \<subseteq> raws (rl_gas (snd (recover_one e s latest rl tx)))" by (rule order_trans [rotated])
  with one have "sent_stored (snd (recover_all e s latest (snd (recover_one e s latest rl tx)) txs))" by (rule Cons.IH)
  with one show ?case
    by (cases "recover_one e s latest rl tx"; cases "fst (recover_one e s latest rl tx)") simp_all
qed simp

lemma out_sweep [simp]: "rl_out (sweepReservations e s drains rl) = rl_out rl"
  unfolding sweepReservations_def
  by (rule fold_invariant [where P = "\<lambda>r. rl_out r = rl_out rl" and Q = "\<lambda>_. True"]) simp_all

lemma sent_writer_pass:
  assumes "sent_stored rl"
  shows "sent_stored (writer_pass e s drains rl)"
proof -
  have rec: "sent_stored (snd (recoverSponsorTxs e s rl))"
  proof -
    have "tx_rawTx ` set (unsettledTxs (rl_gas rl) (ss_chainId s) (ss_sponsor s)) \<subseteq> raws (rl_gas rl)"
      by (auto simp: unsettledTxs_def)
    then have "sent_stored (snd (recover_all e s latest rl (unsettledTxs (rl_gas rl) (ss_chainId s) (ss_sponsor s))))" for latest
      by (rule sent_recover_all [OF assms])
    with assms show ?thesis by (simp add: recoverSponsorTxs_def split: option.split)
  qed
  have swept: "sent_stored (sweepReservations e s drains (snd (recoverSponsorTxs e s rl)))"
    by (rule sent_stored_kept [OF rec]) (simp_all add: steps_sweep)
  have "sent_stored (snd (maybeAutoPause e s (sweepReservations e s drains (snd (recoverSponsorTxs e s rl)))))"
    by (rule sent_stored_kept [OF swept]) (simp_all add: relay_steps)
  with rec swept show ?thesis by (cases drains) (simp_all add: writer_pass_def Let_def)
qed

lemma sent_writerTick:
  assumes "sent_stored rl"
  shows "sent_stored (writerTick e rl)"
proof -
  have "sent_stored (snd (acquireSponsorWriter e rl))" "sent_stored (rl\<lparr>rl_writer := False\<rparr>)"
    using assms by (simp_all add: acquireSponsorWriter_def sent_stored_def)
  with assms show ?thesis
    unfolding writerTick_def Let_def by (simp add: sent_writer_pass split: sum.split prod.split)
qed

lemma sent_status:
  assumes "sent_stored rl"
  shows "sent_stored (snd (sponsoredCallStatus e rl wallet tid kind))"
proof (rule sent_stored_kept [OF assms])
  show "gas_steps (rl_gas rl) (rl_gas (snd (sponsoredCallStatus e rl wallet tid kind)))"
    by (rule steps_status) simp
  have "rl_out (snd (unmined_status e rl r out kind tid)) = rl_out rl" for r out
    by (simp add: unmined_status_def split: option.split)
  then show "rl_out (snd (sponsoredCallStatus e rl wallet tid kind)) = rl_out rl"
    unfolding sponsoredCallStatus_def Let_def
    by (auto split: sum.split option.split list.split dest: out_settleStored)
qed

section \<open>The relayer and everybody else\<close>

definition fresh_relayer :: relayer where
  "fresh_relayer = \<lparr>rl_gas = empty_gas_db, rl_writer = False, rl_out = [], rl_trip = None, rl_stuckAlerted = {},
     rl_refusedAlerted = {}, rl_lostSince = Map.empty\<rparr>"

inductive relayer_step :: "relayer \<Rightarrow> relayer \<Rightarrow> bool" where
  call: "honest e \<Longrightarrow> relayer_step rl (snd (relaySponsoredCall e rl inp))"
| status: "relayer_step rl (snd (sponsoredCallStatus e rl wallet tid kind))"
| tick: "relayer_step rl (writerTick e rl)"
| others: "gas_steps (rl_gas rl) db \<Longrightarrow> relayer_step rl (with_gas rl db)"
| restart: "relayer_step rl (fresh_relayer\<lparr>rl_gas := rl_gas rl, rl_out := rl_out rl\<rparr>)"

lemma relayer_step_keeps:
  "relayer_step rl rl' \<Longrightarrow> sent_stored rl \<Longrightarrow> sent_stored rl' \<and> gas_steps (rl_gas rl) (rl_gas rl')"
proof (induction rule: relayer_step.induct)
  case (call e rl inp)
  then show ?case using steps_relaySponsoredCall [OF call(1), of "rl_gas rl" rl inp] by (simp add: sent_relaySponsoredCall)
next
  case (status rl e wallet tid kind)
  then show ?case using steps_status [of "rl_gas rl" rl] by (simp add: sent_status)
next
  case (tick rl e)
  then show ?case using steps_writerTick [of "rl_gas rl" rl] by (simp add: sent_writerTick)
next
  case (others rl db)
  then show ?case using sent_stored_kept [of rl "with_gas rl db"] by simp
next
  case (restart rl)
  then show ?case by (simp add: sent_stored_def)
qed

lemma gas_steps_ok: "gas_steps db db' \<Longrightarrow> gas_ok db \<Longrightarrow> gas_ok db'"
  by (induction rule: rtranclp_induct) (simp, metis gas_step_ok)

lemma relayer_invariant:
  "relayer_step\<^sup>*\<^sup>* fresh_relayer rl \<Longrightarrow> sent_stored rl \<and> gas_ok (rl_gas rl)"
proof (induction rule: rtranclp_induct)
  case base
  then show ?case by (simp add: fresh_relayer_def sent_stored_def gas_ok_empty)
next
  case (step rl1 rl2)
  then show ?case using relayer_step_keeps [OF step(2)] gas_steps_ok by blast
qed

text \<open>
  C8. Nothing goes out that is not written down. Whatever calls, status requests, writer passes, restarts
  and writes of others happen, in any order, every byte string the relayer ever broadcast is stored in its
  transactions; and two stored transactions of one sponsor with one nonce, neither rejected, are one: a
  nonce is never spent on two calls.
\<close>

theorem relayer_sends_what_it_stored:
  assumes "relayer_step\<^sup>*\<^sup>* fresh_relayer rl"
  shows "(\<forall>raw \<in> set (rl_out rl). \<exists>t \<in> set (g_txs (rl_gas rl)). tx_rawTx t = raw) \<and>
    (\<forall>t \<in> set (g_txs (rl_gas rl)). \<forall>u \<in> set (g_txs (rl_gas rl)). tx_chainId t = tx_chainId u \<and> tx_sponsor t = tx_sponsor u \<and>
       tx_nonce t = tx_nonce u \<and> tx_status t \<noteq> TxRejected \<and> tx_status u \<noteq> TxRejected \<longrightarrow> t = u)"
proof -
  have inv: "sent_stored rl" "gas_ok (rl_gas rl)" using relayer_invariant [OF assms] by auto
  then have slot: "one_slot (g_txs (rl_gas rl))" and hash: "distinct (map tx_hash (g_txs (rl_gas rl)))"
    by (auto simp: gas_ok_def txs_ok_def)
  have "t = u" if "t \<in> set (g_txs (rl_gas rl))" "u \<in> set (g_txs (rl_gas rl))" "tx_chainId t = tx_chainId u"
    "tx_sponsor t = tx_sponsor u" "tx_nonce t = tx_nonce u" "tx_status t \<noteq> TxRejected" "tx_status u \<noteq> TxRejected" for t u
  proof -
    have "same_slot (tx_chainId u) (tx_sponsor u) (tx_nonce u) t" "same_slot (tx_chainId u) (tx_sponsor u) (tx_nonce u) u"
      using that by (simp_all add: same_slot_def)
    then have "tx_hash t = tx_hash u" using slot that(1,2) unfolding one_slot_def by blast
    with hash that(1,2) show "t = u" by (simp add: distinct_map inj_on_def)
  qed
  with inv(1) show ?thesis by (auto simp: sent_stored_def)
qed

section \<open>What may be sent\<close>

definition submit_allowed ::
  "relay_env \<Rightarrow> sponsor_settings \<Rightarrow> relayer \<Rightarrow> call_input \<Rightarrow> escrow_view \<Rightarrow> reservation \<Rightarrow> bool" where
  "submit_allowed e s rl inp v r \<longleftrightarrow>
     getReservation (rl_gas rl) (ss_chainId s) (ci_taskId inp) KSubmit = Some r \<and>
     rs_agentWallet r = lower (wallet_of inp) \<and> rs_status r = RReserved \<and>
     oc_status (ev_task v) = EsAssigned \<and> oc_submissionAttempts (ev_task v) = 0 \<and>
     (case rx_effectiveDeadline e (ci_taskId inp) of None \<Rightarrow> oc_deadline (ev_task v) | Some d \<Rightarrow> d) - rx_now e div 1000 > 60 \<and>
     assignedByUs e (rs_taskHash r) (wallet_of inp) \<and>
     map_option lower (truthy (recordedEvidenceHash e (rs_taskHash r))) = Some (lower (lower (ci_evidenceHash inp)))"

definition release_allowed :: "relay_env \<Rightarrow> sponsor_settings \<Rightarrow> call_input \<Rightarrow> escrow_view \<Rightarrow> bool" where
  "release_allowed e s inp v \<longleftrightarrow>
     oc_status (ev_task v) = EsDisputed \<and> rx_escalated e (ci_taskId inp) = Some True \<and>
     assignedByUs e (lower (oc_taskHash (ev_task v))) (wallet_of inp) \<and>
     taskEligibility (rx_sponsor e) s (show_int (ci_taskId inp)) (ev_task v) False = Some None"

definition turn_ok :: "sponsor_settings \<Rightarrow> gas_db \<Rightarrow> nat \<Rightarrow> string \<Rightarrow> bool" where
  "turn_ok s db i wallet \<longleftrightarrow>
     (\<exists>r. getReservationById db i = Some r \<and> rs_status r = RReserved) \<and>
     (\<forall>t \<in> set (g_txs db). tx_reservationId t = i \<longrightarrow> \<not> unsettled t) \<and>
     length (filter (\<lambda>t. tx_reservationId t = i \<and> tx_status t \<noteq> TxRejected) (g_txs db)) < 2 \<and>
     (\<forall>t \<in> set (g_txs db). tx_chainId t = ss_chainId s \<and> tx_sponsor t = lower (ss_sponsor s) \<longrightarrow> tx_status t \<noteq> TxSigned) \<and>
     \<not> sc_killed (getControls db (ss_chainId s)) \<and> \<not> walletKeyExported db wallet"

lemma submit_gate_allowed:
  "submit_gate e rl inp (getReservation (rl_gas rl) (ss_chainId s) (ci_taskId inp) KSubmit) v = Inr r \<Longrightarrow>
   ci_kind inp = KSubmit \<Longrightarrow> submit_allowed e s rl inp v r"
  by (auto simp: submit_gate_def submit_allowed_def call_of_def MIN_SECONDS_BEFORE_DEADLINE_def Let_def
      split: option.splits if_splits)

lemma release_gate_allowed:
  "release_gate e s rl inp (ev_task v) = Inr () \<Longrightarrow> release_allowed e s inp v"
  by (auto simp: release_gate_def release_allowed_def Let_def split: option.splits if_splits bool.splits)

lemma length_filter_sort_key [simp]: "length (filter P (sort_key f xs)) = length (filter P xs)"
  by (metis filter_sort length_sort)

lemma inFlight_None:
  "inFlight db i = None \<longleftrightarrow> (\<forall>t \<in> set (g_txs db). tx_reservationId t = i \<longrightarrow> \<not> unsettled t)"
  by (auto simp: inFlight_def txsForReservation_def find_None_iff)

lemma sendBlocker_None:
  "sendBlocker s db (txsForReservation db i) = None \<longleftrightarrow>
     length (filter (\<lambda>t. tx_reservationId t = i \<and> tx_status t \<noteq> TxRejected) (g_txs db)) < 2 \<and>
     (\<forall>t \<in> set (g_txs db). tx_chainId t = ss_chainId s \<and> tx_sponsor t = lower (ss_sponsor s) \<longrightarrow> tx_status t \<noteq> TxSigned)"
  by (auto simp: sendBlocker_def txsForReservation_def unsettledTxs_def MAX_SENDS_PER_RESERVATION_def list_ex_iff not_le
      conj_commute filter_filter)

lemma recheck_None:
  "recheckBeforeSend e s db p = None \<Longrightarrow>
   \<not> sc_killed (getControls db (ss_chainId s)) \<and> \<not> walletKeyExported db (pr_wallet p)"
  by (auto simp: recheckBeforeSend_def split: if_splits)

lemma fees_capped:
  "fees_for e s = Some (Some (fee, tip)) \<Longrightarrow> fee \<le> ss_maxFeeWei s \<and> tip \<le> fee"
  by (auto simp: fees_for_def Let_def split: option.splits prod.splits if_splits)

lemma simulated_gas: "simulate e s again wallet data auth = Inr est \<Longrightarrow> est \<le> ss_maxGas s"
  by (auto simp: simulate_def split: sum.splits if_splits)

lemma send_turn:
  assumes "rl_out (snd (send e s rl r p)) \<noteq> rl_out rl"
  obtains pending where "turn_ok s (rx_inQueue e (rl_gas rl)) (rs_id r) (pr_wallet p)"
    "rx_pendingCount e = Some pending"
    "rl_out (snd (send e s rl r p)) = rl_out rl @ [fst (signed_for e s (rx_inQueue e (rl_gas rl)) p pending)]"
proof -
  have go: "rl_out (snd (send e s rl r p)) = rl_out (snd (sign_and_store e s (with_gas rl (rx_inQueue e (rl_gas rl))) r p))"
    and t: "turn_ok s (rx_inQueue e (rl_gas rl)) (rs_id r) (pr_wallet p)"
    using send_out [of e s rl r p] assms recheck_None [of e s "rx_inQueue e (rl_gas rl)" p]
    by (auto simp: turn_ok_def inFlight_None sendBlocker_None)
  with assms sign_and_store_out [of e s "with_gas rl (rx_inQueue e (rl_gas rl))" r p] that [OF t] show thesis
    by (metis with_gas_sel(1,2))
qed

text \<open>The stages of a call that sent something, from the outside in.\<close>

lemma sent_by_send:
  assumes "rl_out (snd (relaySponsoredCall e rl inp)) \<noteq> rl_out rl"
  obtains s v res auth est fee tip r rl1 where
    "fst (runnableSettings (rx_sponsor e) (rx_roles e)) = Inr s"
    "answerInFlight e s rl inp = None" "rl_writer rl" "\<not> sc_killed (getControls (rl_gas rl) (ss_chainId s))"
    "struck_holder e s rl inp \<or>
      (\<exists>owner. agentEligibility (rx_sponsor e) (rl_gas rl) (rx_now e) s (Some (ci_agent inp)) = Inr owner)"
    "rx_task e (ci_taskId inp) = Some v" "lower (oc_worker (ev_task v)) = lower (wallet_of inp)" "signed_by_wallet e s inp"
    "if ci_kind inp = KSubmit then res = Some r \<and> rl1 = rl \<and> submit_allowed e s rl inp v r
     else release_allowed e s inp v \<and>
       reserve_release e s rl inp (ev_task v)
         (agentEligibility (rx_sponsor e) (rl_gas rl) (rx_now e) s (Some (ci_agent inp))) = Inr (r, rl1)"
    "setup_gate e s rl inp = Inr auth" "est \<le> ss_maxGas s" "fee \<le> ss_maxFeeWei s" "tip \<le> fee"
    "rl_out (snd (relaySponsoredCall e rl inp)) = rl_out (snd (send e s rl1 r (the_call e inp auth est fee tip)))"
    "rl_out rl1 = rl_out rl"
proof -
  obtain s where s: "fst (runnableSettings (rx_sponsor e) (rx_roles e)) = Inr s"
      "rl_out (snd (relaySponsoredCall e rl inp)) = rl_out (snd (relay_on e s rl inp))"
    using relay_out [of e rl inp] assms by blast
  let ?elig = "agentEligibility (rx_sponsor e) (rl_gas rl) (rx_now e) s (Some (ci_agent inp))"
  let ?held = "getReservation (rl_gas rl) (ss_chainId s) (ci_taskId inp) (ci_kind inp)"
  have on: "answerInFlight e s rl inp = None" "rl_writer rl" "\<not> sc_killed (getControls (rl_gas rl) (ss_chainId s))"
      "struck_holder e s rl inp \<or> (\<exists>owner. ?elig = Inr owner)"
      "relay_on e s rl inp = relay_checked e s rl inp ?held ?elig"
    using relay_on_out [of e s rl inp] assms s(2) by auto
  obtain v res where v: "rx_task e (ci_taskId inp) = Some v" "lower (oc_worker (ev_task v)) = lower (wallet_of inp)"
      "signed_by_wallet e s inp" 
      "ci_kind inp = KSubmit \<and> (\<exists>r. res = Some r \<and> submit_gate e rl inp ?held v = Inr r) \<or>
       ci_kind inp \<noteq> KSubmit \<and> res = None \<and> release_gate e s rl inp (ev_task v) = Inr ()"
      "relay_checked e s rl inp ?held ?elig = relay_ready e s rl inp (ev_task v) ?elig res"
    using relay_checked_out [of e s rl inp ?held ?elig] assms s(2) on(5) by metis
  obtain auth est fee tip r rl1 where r: "setup_gate e s rl inp = Inr auth"
      "simulate e s False (wallet_of inp) (rx_encodeExecute e (call_of inp) (ci_signature inp)) auth = Inr est"
      "fees_for e s = Some (Some (fee, tip))"
      "res = Some r \<and> rl1 = rl \<or> res = None \<and> reserve_release e s rl inp (ev_task v) ?elig = Inr (r, rl1)"
      "relay_ready e s rl inp (ev_task v) ?elig res = send e s rl1 r (the_call e inp auth est fee tip)"
    using relay_ready_out [of e s rl inp "ev_task v" ?elig res] assms s(2) on(5) v(5) by metis
  have kind: "if ci_kind inp = KSubmit then res = Some r \<and> rl1 = rl \<and> submit_allowed e s rl inp v r
     else release_allowed e s inp v \<and> reserve_release e s rl inp (ev_task v) ?elig = Inr (r, rl1)"
    using v(4) r(4) submit_gate_allowed [of e rl inp s v r] release_gate_allowed [of e s rl inp v] by auto
  have "rl_out rl1 = rl_out rl" using r(4) reserved_release by blast
  with fees_capped [OF r(3)] s(2) on(5) v(5) r(5) show thesis
    by (intro that [OF s(1) on(1-4) v(1-3) kind r(1) simulated_gas [OF r(2)], of fee tip]) simp_all
qed


section \<open>A submission to evaluate on\<close>

definition sample_call :: call_input where
  "sample_call = \<lparr>ci_agent = hosted_b, ci_kind = KSubmit, ci_taskId = 7, ci_evidenceHash = ''0xe'', ci_nonce = 1,
     ci_deadline = 500, ci_signature = ''0x1b'', ci_authorization = None\<rparr>"

definition sample_held :: reservation where
  "sample_held = new_reservation (sample_input\<lparr>in_agentWallet := ''0xb''\<rparr>) 0 0"

definition held_relayer :: relayer where
  "held_relayer = fresh_relayer\<lparr>rl_gas := empty_gas_db\<lparr>g_reservations := [sample_held]\<rparr>, rl_writer := True\<rparr>"

definition sample_work :: a2a_db where
  "sample_work = put_state empty_db ''0xh''
     ((bare_state ''0xh'' Accepted)\<lparr>assignTxHash := Some ''0xt'', executorAddress := Some ''0xb'', resultData := Some JNull\<rparr>)"

definition sample_view :: escrow_view where
  "sample_view = \<lparr>ev_task = funded_task\<lparr>oc_worker := ''0xb'', oc_status := EsAssigned, oc_deadline := 500\<rparr>, ev_evidenceHash = ''0x0''\<rparr>"

definition sample_env :: relay_env where
  "sample_env = \<lparr>rx_sponsor = arc_sponsor funded_task, rx_roles = None, rx_now = 0, rx_a2a = sample_work,
     rx_task = (\<lambda>_. Some sample_view), rx_effectiveDeadline = (\<lambda>_. None), rx_taskAt = (\<lambda>_ _. Some (EsAssigned, ''0x0'')),
     rx_escalated = (\<lambda>_. Some False), rx_codeAt = (\<lambda>_ _. Some ''0xef0100d''), rx_callSigner = (\<lambda>_ _ _ _ _. Some ''0xB''),
     rx_authorizationSigner = (\<lambda>_. None), rx_encodeExecute = (\<lambda>_ sig. sig), rx_estimate = (\<lambda>_ _ _ _. Inr 50),
     rx_fees = Some (Some 1, Some 1), rx_baseFee = Some (Some 1), rx_pendingCount = Some 3, rx_latestCount = Some 3,
     rx_sign = (\<lambda>u. (''raw'' @ show_int (ut_nonce u), ''0xraw'')), rx_broadcast = (\<lambda>_. None), rx_receipt = (\<lambda>_. None),
     rx_safeText = re_message, rx_formatEther = show_int, rx_rawReceipt = (\<lambda>_. False), rx_readReceipt = (\<lambda>_. Some None),
     rx_seenMined = (\<lambda>_. Some False), rx_sponsorBalance = None, rx_evidenceOf = (\<lambda>_. ''0xe''), rx_callDeadline = (\<lambda>_. None),
     rx_blockTime = None, rx_lockFree = True, rx_inQueue = id, rx_whileOut = id\<rparr>"

lemmas sample_relay = sample_env_def sample_call_def held_relayer_def fresh_relayer_def sample_held_def sample_view_def
  sample_work_def new_reservation_def sample_input_def arc_settings_def hosted_b_def

lemma sample_lower: "lower ''0xb'' = ''0xb''" "lower ''0xB'' = ''0xb''" "lower ''0xe'' = ''0xe''" "lower ''0x0'' = ''0x0''"
  "lower ''0xef0100d'' = ''0xef0100d''" "lower ''D'' = ''d''" "lower ''0x5'' = ''0x5''"
  by (simp_all add: lower_eval)

lemma sample_state:
  "getState sample_work ''0xh'' =
     Some ((bare_state ''0xh'' Accepted)\<lparr>assignTxHash := Some ''0xt'', executorAddress := Some ''0xb'', resultData := Some JNull\<rparr>)"
  by (simp add: sample_work_def getState_def find_state_def put_state_def)

lemma sample_eligible:
  "agentEligibility (arc_sponsor funded_task) (rl_gas held_relayer) 0 arc_settings (Some hosted_b) = Inr ''did''"
  by (simp add: agentEligibility_def keyDerivesWallet_def hosted_b_def arc_sponsor_def arc_settings_def held_relayer_def
      fresh_relayer_def walletKeyExported_def strikeCounts_def setupAttempts_def empty_gas_db_def MAX_SETUP_ATTEMPTS_def Let_def)

lemma sample_reservation: "getReservation (rl_gas held_relayer) 5042002 7 KSubmit = Some sample_held"
  by (simp add: getReservation_def find_reservation_def sample_relay)

lemma sample_answer: "answerInFlight sample_env arc_settings held_relayer sample_call = None"
proof -
  have "inFlight (rl_gas held_relayer) i = None" for i
    by (simp add: inFlight_None held_relayer_def fresh_relayer_def empty_gas_db_def)
  then show ?thesis
    by (simp add: answerInFlight_def split: option.split)
qed

lemma sample_gate: "submit_gate sample_env held_relayer sample_call (Some sample_held) sample_view = Inr sample_held"
  by (simp add: submit_gate_def sample_relay wallet_of_def call_of_def sample_lower funded_task_def
      MIN_SECONDS_BEFORE_DEADLINE_def assignedByUs_def recordedEvidenceHash_def sample_state [unfolded sample_work_def] Let_def)

lemma sample_send:
  "rl_out (snd (send sample_env arc_settings held_relayer sample_held p)) =
     rl_out (snd (sign_and_store sample_env arc_settings held_relayer sample_held p))"
proof -
  have db: "g_txs (rl_gas held_relayer) = []" "rx_inQueue sample_env = id" "rs_id sample_held = 0"
    "rs_status sample_held = RReserved"
    by (simp_all add: sample_relay empty_gas_db_def)
  have r: "getReservationById (rl_gas held_relayer) 0 = Some sample_held"
    by (simp add: getReservationById_def held_relayer_def sample_held_def new_reservation_def)
  have c: "recheckBeforeSend sample_env arc_settings (rl_gas held_relayer) p = None"
    by (simp add: recheckBeforeSend_def sample_relay getControls_def walletKeyExported_def empty_gas_db_def simulate_def)
  have b: "sendBlocker arc_settings (rl_gas held_relayer) (txsForReservation (rl_gas held_relayer) 0) = None"
    "inFlight (rl_gas held_relayer) 0 = None"
    by (simp_all add: sendBlocker_None inFlight_None db)
  have same: "with_gas held_relayer (rl_gas held_relayer) = held_relayer" by (simp add: with_gas_def)
  show ?thesis by (simp add: send_def db r b c same Let_def)
qed

lemma sample_signs:
  "rl_out (snd (sign_and_store sample_env arc_settings held_relayer sample_held p)) = [''raw3'']"
proof -
  have n: "the_nonce arc_settings (rl_gas held_relayer) 3 = 3"
    by (simp add: the_nonce_def nextStoredNonce_def held_relayer_def fresh_relayer_def empty_gas_db_def)
  have s: "rx_sign sample_env (tx_of arc_settings 3 p) = (''raw3'', ''0xraw'')"
    by (simp add: sample_env_def tx_of_def show_int_def show_nat.simps digit_char_def)
  have out: "rl_out held_relayer = []"
    by (simp add: held_relayer_def fresh_relayer_def)
  have rec: "\<exists>row db'. recordSignedTx (rl_gas held_relayer) 0 \<lparr>si_chainId = c, si_reservationId = rs_id sample_held, si_sponsor = sp,
      si_nonce = k, si_rawTx = raw, si_txHash = h, si_withAuthorization = w\<rparr> = (Inr (Some row), db')" for c sp k raw h w
    by (simp add: recordSignedTx_def held_relayer_def fresh_relayer_def empty_gas_db_def getReservationById_def sample_held_def
        new_reservation_def Let_def)
  have q: "rx_pendingCount sample_env = Some 3" "rx_now sample_env = 0" by (simp_all add: sample_env_def)
  obtain row db' where "recordSignedTx (rl_gas held_relayer) 0 \<lparr>si_chainId = ss_chainId arc_settings,
      si_reservationId = rs_id sample_held, si_sponsor = ss_sponsor arc_settings, si_nonce = 3, si_rawTx = ''raw3'',
      si_txHash = ''0xraw'', si_withAuthorization = (pr_authorization p \<noteq> None)\<rparr> = (Inr (Some row), db')"
    using rec by blast
  then show ?thesis by (simp add: sign_and_store_def q n s out Let_def)
qed

lemma sample_sends: "rl_out (snd (relaySponsoredCall sample_env held_relayer sample_call)) = [''raw3'']"
proof -
  have run: "fst (runnableSettings (rx_sponsor sample_env) (rx_roles sample_env)) = Inr arc_settings"
    by (simp add: sample_env_def arc_may_run)
  have gate: "setup_gate sample_env arc_settings held_relayer sample_call = Inr None"
    by (simp add: setup_gate_def sample_relay isDelegatedTo_def delegationDesignator_def sample_lower Let_def)
  have sim: "simulate sample_env arc_settings False w d a = Inr 50" for w d a
    by (simp add: simulate_def sample_env_def arc_settings_def)
  have fees: "fees_for sample_env arc_settings = Some (Some (1, 1))"
    by (simp add: fees_for_def sample_env_def arc_settings_def Let_def)
  have ready: "rl_out (snd (relay_ready sample_env arc_settings held_relayer sample_call t elig (Some sample_held))) = [''raw3'']"
    for t elig
    by (simp add: relay_ready_def gate sim fees sample_send sample_signs Let_def)
  have task: "rx_task sample_env (ci_taskId sample_call) = Some sample_view" "ci_kind sample_call = KSubmit"
    "lower (oc_worker (ev_task sample_view)) = lower (wallet_of sample_call)"
    "signed_by_wallet sample_env arc_settings sample_call"
    by (simp_all add: sample_relay funded_task_def wallet_of_def signed_by_wallet_def sample_lower)
  have checked: "rl_out (snd (relay_checked sample_env arc_settings held_relayer sample_call (Some sample_held) elig)) = [''raw3'']" for elig
    by (simp add: relay_checked_def task sample_gate ready)
  have held: "getReservation (rl_gas held_relayer) (ss_chainId arc_settings) (ci_taskId sample_call) (ci_kind sample_call) = Some sample_held"
    using sample_reservation by (simp add: arc_settings_def sample_call_def)
  have elig: "agentEligibility (rx_sponsor sample_env) (rl_gas held_relayer) (rx_now sample_env) arc_settings (Some (ci_agent sample_call)) = Inr ''did''"
    using sample_eligible by (simp add: sample_env_def sample_call_def)
  have on: "rl_writer held_relayer" "\<not> sc_killed (getControls (rl_gas held_relayer) (ss_chainId arc_settings))"
    by (simp_all add: held_relayer_def getControls_def empty_gas_db_def)
  have "rl_out (snd (relay_on sample_env arc_settings held_relayer sample_call)) = [''raw3'']"
    by (simp add: relay_on_def sample_answer held elig on checked Let_def)
  then show ?thesis
    by (auto simp: relaySponsoredCall_def relay_run [OF run] split: prod.split option.split)
qed


theorem relayer_sends_what_it_stored_witness:
  "\<exists>rl :: relayer. rl_out rl \<noteq> [] \<and> (\<exists>t \<in> set (g_txs (rl_gas rl)). tx_rawTx t = ''raw3'')"
proof -
  let ?rl0 = "fresh_relayer\<lparr>rl_gas := rl_gas held_relayer\<rparr>"
  let ?rl = "snd (relaySponsoredCall sample_env held_relayer sample_call)"
  have db: "gas_steps empty_gas_db (rl_gas held_relayer)"
  proof -
    have "snd (reserve empty_gas_db 0 (sample_input\<lparr>in_agentWallet := ''0xb''\<rparr>) sample_caps) = rl_gas held_relayer"
      by (simp add: reserve_def paused_chain_def find_reservation_def reserve_refusal_def agent_holds_def strikeCounts_def
          daily_count_def spend_since_def empty_gas_db_def sample_input_def sample_caps_def held_relayer_def sample_held_def Let_def)
    then show ?thesis by (metis gas_step.reserve r_into_rtranclp)
  qed
  have gas: "rl_gas fresh_relayer = empty_gas_db" by (simp add: fresh_relayer_def)
  have "relayer_step fresh_relayer (with_gas fresh_relayer (rl_gas held_relayer))"
    using db gas by (simp add: relayer_step.others)
  moreover have "relayer_step (with_gas fresh_relayer (rl_gas held_relayer)) held_relayer"
  proof -
    let ?e = "sample_env\<lparr>rx_latestCount := None\<rparr>"
    have "fst (drainableSettings (rx_sponsor ?e) (rx_roles ?e)) = Inr (True, arc_settings)"
      using arc_may_run [of funded_task] by (simp add: drainableSettings_def sample_env_def arc_sponsor_def Let_def)
    then have "writerTick ?e (with_gas fresh_relayer (rl_gas held_relayer)) = held_relayer"
      by (simp add: writerTick_def writer_pass_def recoverSponsorTxs_def acquireSponsorWriter_def sample_env_def
          held_relayer_def fresh_relayer_def with_gas_def Let_def)
    then show ?thesis by (metis relayer_step.tick)
  qed
  moreover have "relayer_step held_relayer ?rl"
    by (rule relayer_step.call) (simp add: honest_def sample_env_def)
  ultimately have run: "relayer_step\<^sup>*\<^sup>* fresh_relayer ?rl"
    by (meson converse_rtranclp_into_rtranclp r_into_rtranclp)
  show ?thesis
  proof (rule exI [of _ ?rl], rule conjI)
    show "rl_out ?rl \<noteq> []" unfolding sample_sends by simp
    show "\<exists>t \<in> set (g_txs (rl_gas ?rl)). tx_rawTx t = ''raw3''"
      using relayer_sends_what_it_stored [OF run] unfolding sample_sends by simp
  qed
qed

section \<open>Strikes\<close>

text \<open>An expired submission nobody tried, still assigned to its worker, that was not handed back.\<close>

definition sat_on :: "relay_env \<Rightarrow> sponsor_settings \<Rightarrow> gas_db \<Rightarrow> reservation \<Rightarrow> bool" where
  "sat_on e s db r \<longleftrightarrow>
     r \<in> set (heldReservations db (ss_chainId s)) \<and> rs_kind r = KSubmit \<and> rs_expiresAt r \<le> rx_now e \<and>
     \<not> sc_killed (getControls db (ss_chainId s)) \<and> rs_attemptedAt r = None \<and> rs_returnedAt r = None \<and>
     (\<forall>t \<in> set (g_txs db). tx_reservationId t \<noteq> rs_id r) \<and>
     (\<exists>v. rx_task e (rs_taskId r) = Some v \<and> oc_status (ev_task v) = EsAssigned \<and> lower (oc_worker (ev_task v)) = rs_agentWallet r)"

lemma close_held_strikes:
  "g_txs (rl_gas (close_held e rl i st' reason)) = g_txs (rl_gas rl)"
  "st' \<noteq> CloseExpired \<Longrightarrow> g_strikes (rl_gas (close_held e rl i st' reason)) = g_strikes (rl_gas rl)"
  "x \<in> set (g_strikes (rl_gas (close_held e rl i st' reason))) \<Longrightarrow> x \<in> set (g_strikes (rl_gas rl)) \<or> st_reservationId x = i"
  subgoal by (simp add: close_held_def closeReservation_def Let_def split: option.split)
  subgoal by (simp add: close_held_def closeReservation_def Let_def split: option.split)
  subgoal
    by (auto simp: close_held_def closeReservation_def add_strike_def strike_for_def held_row_def Let_def
        split: option.splits if_splits dest: find_in)
  done

lemma no_txs_iff: "txsForReservation db i = [] \<longleftrightarrow> (\<forall>t \<in> set (g_txs db). tx_reservationId t \<noteq> i)"
proof -
  have "txsForReservation db i = [] \<longleftrightarrow> set (txsForReservation db i) = {}" by simp
  then show ?thesis by (auto simp: txsForReservation_def)
qed

lemma sweep_held_strikes:
  assumes "x \<in> set (g_strikes (rl_gas (sweep_held e killed drains r rl)))"
  shows "x \<in> set (g_strikes (rl_gas rl)) \<or>
    st_reservationId x = rs_id r \<and> \<not> drains \<and> rs_expiresAt r \<le> rx_now e \<and>
    (\<exists>v. rx_task e (rs_taskId r) = Some v \<and> strikes_out e killed (rl_gas rl) r (ev_task v))"
  using assms close_held_strikes(3) [of x e rl "rs_id r"]
  unfolding sweep_held_def Let_def
  by (simp add: close_held_strikes(2) split: if_splits option.splits)

lemma sweep_held_txs: "g_txs (rl_gas (sweep_held e killed drains r rl)) = g_txs (rl_gas rl)"
  by (simp add: sweep_held_def close_held_strikes(1) Let_def split: option.split)

lemma sweep_fold_strikes:
  "x \<in> set (g_strikes (rl_gas (fold (sweep_held e killed drains) rs rl))) \<Longrightarrow>
   x \<in> set (g_strikes (rl_gas rl)) \<or>
   (\<exists>r \<in> set rs. st_reservationId x = rs_id r \<and> \<not> drains \<and> rs_expiresAt r \<le> rx_now e \<and>
    (\<exists>v. rx_task e (rs_taskId r) = Some v \<and> strikes_out e killed (rl_gas rl) r (ev_task v)))"
proof (induction rs arbitrary: rl)
  case (Cons r rs)
  have same: "strikes_out e killed (rl_gas (sweep_held e killed drains r rl)) q t = strikes_out e killed (rl_gas rl) q t" for q t
    by (simp add: strikes_out_def no_txs_iff sweep_held_txs)
  from Cons.IH [of "sweep_held e killed drains r rl"] Cons.prems
  consider "x \<in> set (g_strikes (rl_gas (sweep_held e killed drains r rl)))"
    | q v where "q \<in> set rs" "st_reservationId x = rs_id q" "\<not> drains" "rs_expiresAt q \<le> rx_now e"
        "rx_task e (rs_taskId q) = Some v" "strikes_out e killed (rl_gas rl) q (ev_task v)"
    unfolding same by auto
  then show ?case
  proof cases
    case 1
    then show ?thesis using sweep_held_strikes [OF 1] by auto
  next
    case 2
    then show ?thesis by auto
  qed
qed simp

text \<open>
  C9. A strike is for sitting on a reservation. When a sweep adds a strike, it is not draining and there
  is a held submission reservation it stands for, past its expiry, that nobody tried to use: no call
  attempted, nothing sent, not handed back, the kill switch off; and on the escrow the task was still
  assigned to that wallet.
\<close>

theorem strike_only_for_sitting_on_a_reservation:
  assumes "x \<in> set (g_strikes (rl_gas (sweepReservations e s drains rl)))" "x \<notin> set (g_strikes (rl_gas rl))"
  shows "\<not> drains \<and> (\<exists>r. st_reservationId x = rs_id r \<and> sat_on e s (rl_gas rl) r)"
  using sweep_fold_strikes [OF assms(1) [unfolded sweepReservations_def]] assms(2)
  by (auto simp: sat_on_def strikes_out_def no_txs_iff)

theorem strike_only_for_sitting_on_a_reservation_witness:
  "sat_on (sample_env\<lparr>rx_now := 3600001\<rparr>) arc_settings (rl_gas held_relayer) sample_held \<and>
   (\<exists>x \<in> set (g_strikes (rl_gas (sweepReservations (sample_env\<lparr>rx_now := 3600001\<rparr>) arc_settings False held_relayer))).
      st_reservationId x = 0)"
proof -
  let ?e = "sample_env\<lparr>rx_now := 3600001\<rparr>"
  have held: "heldReservations (rl_gas held_relayer) (ss_chainId arc_settings) = [sample_held]"
    by (simp add: heldReservations_def held_relayer_def sample_held_def new_reservation_def sample_input_def arc_settings_def)
  have idle: "inFlight (rl_gas held_relayer) i = None" "txsForReservation (rl_gas held_relayer) i = []" for i
    by (simp_all add: inFlight_None no_txs_iff held_relayer_def fresh_relayer_def empty_gas_db_def)
  have out: "strikes_out ?e False (rl_gas held_relayer) sample_held (ev_task sample_view)"
    unfolding strikes_out_def idle(2) by (simp add: sample_relay funded_task_def sample_lower)
  have facts: "\<not> sc_killed (getControls (rl_gas held_relayer) (ss_chainId arc_settings))" "rx_task sample_env k = Some sample_view"
    "rs_kind sample_held = KSubmit" "rs_expiresAt sample_held \<le> 3600001" "rs_id sample_held = 0"
    "rs_agentWallet sample_held = ''0xb''" "rs_taskHash sample_held = ''0xh''" "rx_a2a sample_env = sample_work"
    "oc_status (ev_task sample_view) = EsAssigned" for k
    by (simp_all add: held_relayer_def getControls_def empty_gas_db_def sample_env_def sample_held_def new_reservation_def
        sample_input_def sample_view_def sample_lower)
  have sweeps: "sweepReservations ?e arc_settings False held_relayer =
      close_held ?e held_relayer 0 CloseExpired (Some ''held an hour after assignment without a submit'')"
    by (simp add: sweepReservations_def held sweep_held_def idle facts out sample_state sample_lower Let_def)
  have "g_strikes (rl_gas (sweepReservations ?e arc_settings False held_relayer)) =
      [strike_for sample_held 3600001 (Some ''held an hour after assignment without a submit'')]"
    unfolding sweeps
    by (simp add: close_held_def closeReservation_def held_relayer_def fresh_relayer_def empty_gas_db_def held_row_def
        sample_held_def new_reservation_def add_strike_def sample_env_def Let_def)
  moreover have old: "g_strikes (rl_gas held_relayer) = []" by (simp add: held_relayer_def empty_gas_db_def)
  ultimately obtain x where x: "x \<in> set (g_strikes (rl_gas (sweepReservations ?e arc_settings False held_relayer)))"
      "x \<notin> set (g_strikes (rl_gas held_relayer))" "st_reservationId x = 0"
    by (simp add: strike_for_def sample_held_def new_reservation_def)
  from strike_only_for_sitting_on_a_reservation [OF x(1,2)] obtain r where r: "sat_on ?e arc_settings (rl_gas held_relayer) r"
    by blast
  then have "r = sample_held" by (simp add: sat_on_def held)
  with r x show ?thesis by auto
qed

end
