(* ===== verification/OpenEvents.thy ===== *)
theory OpenEvents
  imports OpenSweepProps Payouts TaskChain Matching
begin

text \<open>
  \<open>services/openSubmissionEvents.ts\<close>: what the escrow's open-submission events become in the
  off-chain record, the listing, the winner's credit and the alerts. The indexer delivers an event
  at least once; a handler that throws is given it again, with what it wrote before. The escrow's
  reads, the hosted agents and what an HSCAN returned are the environment; \<open>None\<close> is a call that
  throws.
\<close>

section \<open>State and environment\<close>

text \<open>An escrow's \<open>getOpenTask\<close>.\<close>

record open_view =
  ov_open :: bool
  ov_mode :: int
  ov_creatorWindow :: int
  ov_closedBy :: int

text \<open>The stores the chain's events are mirrored into.\<close>

record mirror =
  mr_a2a :: a2a_db
  mr_open :: open_db
  mr_notifs :: notif_db
  mr_pay :: pay_db

record mirror_env =
  mx_cfg :: config
  mx_baseEscrow :: bool
  mx_index :: "chain_key \<Rightarrow> task_index"
  mx_getTask :: "chain_key \<Rightarrow> string \<Rightarrow> onchain_task option"
  mx_openTask :: "chain_key \<Rightarrow> string \<Rightarrow> open_view option"
  mx_count :: "chain_key \<Rightarrow> string \<Rightarrow> int option"
  mx_hosted :: "deployed_agent list option"
  mx_pages :: "string \<Rightarrow> (string \<times> submission_rec) list list"
  mx_digest :: "json \<Rightarrow> string"
  mx_iso :: "int \<Rightarrow> string"
  mx_stamp :: "string \<Rightarrow> stamp"
  mx_payout :: payout_io
  mx_now :: int

definition COUNT_NOTICE_GAP_SEC :: int where "COUNT_NOTICE_GAP_SEC = 3600"

definition JUDGES :: "int \<Rightarrow> open_judge" where
  "JUDGES i =
     (if i = 1 then JudgeCreator else if i = 2 then JudgeTaskVerifier else if i = 3 then JudgeBackup else JudgeAdmin)"

text \<open>\<open>/^0x0*$/\<close>.\<close>

definition zero_hash :: "string \<Rightarrow> bool" where
  "zero_hash h \<longleftrightarrow> take 2 h = ''0x'' \<and> list_all (\<lambda>c. c = CHR ''0'') (drop 2 h)"

section \<open>The record\<close>

definition with_open :: "mirror \<Rightarrow> open_db \<Rightarrow> mirror" where
  "with_open st db = st\<lparr>mr_open := db\<rparr>"

text \<open>The inner \<open>None\<close>: a task that does not take open submissions.\<close>

definition ensureRecord ::
  "mirror_env \<Rightarrow> mirror \<Rightarrow> chain_key \<Rightarrow> string \<Rightarrow> (string \<times> open_record) option option \<times> mirror" where
  "ensureRecord e st c tid =
     (let ref = taskRef (mx_cfg e) c tid; db = mr_open st; now = mx_now e in
      case getRecord db now ref of
        Some rec \<Rightarrow> (Some (Some (ref, rec)), st)
      | None \<Rightarrow>
          (case (mx_getTask e c tid, mx_openTask e c tid) of
             (Some t, Some ov) \<Rightarrow>
               if \<not> ov_open ov then (Some None, st)
               else
                 let db1 = (if getOutcome db now ref = None
                            then scheduleJudgeIfAbsent
                              (if isClosedNotified db now ref then db else scheduleSweep db ref (oc_deadline t))
                              ref (oc_deadline t)
                            else db);
                     s = saveRecord (mx_cfg e) db1 now
                       \<lparr>or_chain = c, or_taskId = tid, or_taskHash = oc_taskHash t, or_poster = oc_agent t,
                        or_deadline = oc_deadline t, or_mode = (if ov_mode ov = 1 then PickCreator else PickAgent),
                        or_creatorWindow = ov_creatorWindow ov, or_scope = None\<rparr>
                 in (Some (Some (ref, fst s)), with_open st (snd s))
           | _ \<Rightarrow> (None, st)))"

definition listingOf :: "mirror_env \<Rightarrow> a2a_db \<Rightarrow> open_record \<Rightarrow> task_meta option" where
  "listingOf e a2a rec =
     (case getMeta a2a (or_taskHash rec) of
        None \<Rightarrow> None
      | Some m \<Rightarrow>
          if submissionMode m = Some OpenSubmission \<and>
            isListedTask (mx_cfg e) (mx_baseEscrow e) (mx_index e) a2a (or_chain rec) (or_taskId rec) (or_taskHash rec)
              (or_poster rec) (posterAddress m)
          then Some m else None)"

definition executorFor :: "deployed_agent list option \<Rightarrow> string \<Rightarrow> string option" where
  "executorFor hosted onChain =
     map_option (\<lambda>ds. case Option.bind (loadAgentBySmartAccount ds onChain) (\<lambda>d. truthy (Some (da_wallet d))) of
        Some w \<Rightarrow> w | None \<Rightarrow> onChain) hosted"

section \<open>A task and a submission\<close>

definition handleOpenTaskCreated :: "mirror_env \<Rightarrow> mirror \<Rightarrow> chain_key \<Rightarrow> string \<Rightarrow> bool \<times> mirror" where
  "handleOpenTaskCreated e st c tid =
     (case ensureRecord e st c tid of (r, st1) \<Rightarrow> (r \<noteq> None, st1))"

text \<open>The alert for a new submission, before the deadline.\<close>

definition count_notice :: "mirror_env \<Rightarrow> mirror \<Rightarrow> string \<Rightarrow> open_record \<Rightarrow> int \<Rightarrow> mirror" where
  "count_notice e st ref rec n =
     (let now = mx_now e; slot = takeCountNoticeSlot (mr_open st) now ref COUNT_NOTICE_GAP_SEC;
          st1 = with_open st (snd slot); k = ''open:first:'' @ ref
      in if n = 1
         then st1\<lparr>mr_notifs := snd (notifyOnce (mr_notifs st1) now k (or_poster rec)
                (mk_notice NtSubmissions ''First submission on your task''
                   ''An agent submitted a result. Submissions stay open until the deadline.'' (or_taskHash rec))
                (mx_stamp e k))\<rparr>
         else if fst slot
         then st1\<lparr>mr_notifs := notify (mr_notifs st1) now (or_poster rec)
                (mk_notice NtSubmissions ''New submissions on your task''
                   (agents n @ '' have submitted so far. Submissions stay open until the deadline.'') (or_taskHash rec))
                (mx_stamp e (''count:'' @ ref))\<rparr>
         else st1)"

definition handleOpenSubmission ::
  "mirror_env \<Rightarrow> mirror \<Rightarrow> chain_key \<Rightarrow> string \<Rightarrow> string \<Rightarrow> string \<Rightarrow> int \<Rightarrow> string option \<Rightarrow> bool \<times> mirror" where
  "handleOpenSubmission e st c tid submitter evidenceHash count txHash =
     (case ensureRecord e st c tid of
        (None, st1) \<Rightarrow> (False, st1)
      | (Some None, st1) \<Rightarrow> (True, st1)
      | (Some (Some (ref, rec)), st1) \<Rightarrow>
          let now = mx_now e; nowSec = now div 1000;
              new = recordSubmission (mr_open st1) now ref submitter
                \<lparr>sr_evidenceHash = evidenceHash, sr_ordinal = count, sr_txHash = truthy txHash, sr_recordedAt = mx_iso e nowSec\<rparr>;
              st2 = with_open st1 (snd (keepResult (snd new) now ref submitter evidenceHash))
          in (True,
              if \<not> fst new \<or> or_deadline rec \<le> nowSec \<or> isClosedNotified (mr_open st2) now ref then st2
              else count_notice e st2 ref rec count))"

section \<open>The end of a task\<close>

definition submissionTotal :: "mirror_env \<Rightarrow> open_db \<Rightarrow> string \<Rightarrow> open_record \<Rightarrow> int" where
  "submissionTotal e db ref rec =
     (case mx_count e (or_chain rec) (or_taskId rec) of
        Some n \<Rightarrow> n | None \<Rightarrow> int (recordedSubmissionCount db (mx_now e) ref))"

definition submitter_notices ::
  "mirror_env \<Rightarrow> string \<Rightarrow> string \<Rightarrow> string option \<Rightarrow> notice \<Rightarrow> string list \<Rightarrow> once_notice list" where
  "submitter_notices e ref key except n addrs =
     map (\<lambda>a. let k = key @ '':'' @ ref @ '':'' @ a in
        \<lparr>on_key = k, on_to = a, on_notice = n, on_stamp = mx_stamp e k\<rparr>) (filter (\<lambda>a. Some a \<noteq> except) addrs)"

definition tellSubmitters ::
  "mirror_env \<Rightarrow> notif_db \<Rightarrow> string \<Rightarrow> string \<Rightarrow> string option \<Rightarrow> notice \<Rightarrow> notif_db" where
  "tellSubmitters e db ref key except n =
     forEachSubmitter (\<lambda>addrs d. snd (notifyOnceMany d (mx_now e) (submitter_notices e ref key except n addrs)))
       (mx_pages e ref) db"

definition judge_role :: "open_judge \<Rightarrow> scorecard_role option" where
  "judge_role j =
     (case j of JudgeCreator \<Rightarrow> Some RoleCreator | JudgeTaskVerifier \<Rightarrow> Some RoleTaskVerifier
      | JudgeBackup \<Rightarrow> Some RoleBackup | JudgeAdmin \<Rightarrow> None)"

definition keepJudgeScorecard :: "mirror_env \<Rightarrow> open_db \<Rightarrow> string \<Rightarrow> open_judge \<Rightarrow> string \<Rightarrow> open_db" where
  "keepJudgeScorecard e db ref judge hash =
     (if hash = [] \<or> zero_hash hash then db
      else (case judge_role judge of
        None \<Rightarrow> db | Some role \<Rightarrow> snd (keepScorecard (mx_digest e) db (mx_now e) ref role hash)))"

text \<open>What both ends write first: the outcome, the scorecard, and no more sweep or judge.\<close>

definition record_end :: "mirror_env \<Rightarrow> mirror \<Rightarrow> string \<Rightarrow> open_judge \<Rightarrow> string \<Rightarrow> task_outcome \<Rightarrow> mirror" where
  "record_end e st ref judge hash out =
     (let db = snd (saveOutcome (mr_open st) (mx_now e) ref out);
          db1 = keepJudgeScorecard e db ref judge hash
      in with_open st (unscheduleJudge (unscheduleSweep db1 ref) ref))"

definition WINNER_PICKED_BY :: "open_judge \<Rightarrow> string" where
  "WINNER_PICKED_BY j =
     (case j of
        JudgeCreator \<Rightarrow> ''You picked a winner''
      | JudgeTaskVerifier \<Rightarrow> ''Your task'' @ apos @ ''s verifier picked a winner''
      | JudgeBackup \<Rightarrow> ''Your task'' @ apos @ ''s verifier did not pick in time, so the platform'' @ apos @
          ''s backup judge picked a winner''
      | JudgeAdmin \<Rightarrow> ''An admin picked a winner'')"

text \<open>The listing closed and the winner credited, once the escrow names the same task.\<close>

definition credit_winner ::
  "mirror_env \<Rightarrow> mirror \<Rightarrow> chain_key \<Rightarrow> string \<Rightarrow> open_record \<Rightarrow> string \<Rightarrow> bool \<times> mirror" where
  "credit_winner e st c tid rec winner =
     (case listingOf e (mr_a2a st) rec of
        None \<Rightarrow> (True, st)
      | Some _ \<Rightarrow>
          let st1 = st\<lparr>mr_a2a := snd (closeOpenSubmissionTask (mr_a2a st) (or_taskHash rec) (WinnerPaid winner))\<rparr> in
          (case mx_getTask e c tid of
             None \<Rightarrow> (False, st1)
           | Some t \<Rightarrow>
               if lower (oc_taskHash t) \<noteq> or_taskHash rec then (True, st1)
               else (case executorFor (mx_hosted e) winner of
                 None \<Rightarrow> (False, st1)
               | Some x \<Rightarrow>
                   let p = recordWorkerPayout (mx_cfg e) (mr_pay st1) (mx_now e) (mx_payout e) (or_taskHash rec) x
                         (or_taskId rec) (oc_amount t) (c, oc_token t)
                         \<lparr>op_rethrow = True, op_serviceId = None, op_computeCost = None\<rparr>
                   in (\<not> fst p, st1\<lparr>mr_pay := snd p\<rparr>))))"

definition tell_once :: "mirror_env \<Rightarrow> notif_db \<Rightarrow> string \<Rightarrow> string \<Rightarrow> notice \<Rightarrow> notif_db" where
  "tell_once e db k to_addr n = snd (notifyOnce db (mx_now e) k to_addr n (mx_stamp e k))"

definition submissions_text :: "int \<Rightarrow> string" where
  "submissions_text n = show_int n @ '' submission'' @ (if n = 1 then [] else ''s'')"

definition tell_picked :: "mirror_env \<Rightarrow> mirror \<Rightarrow> string \<Rightarrow> open_record \<Rightarrow> open_judge \<Rightarrow> string \<Rightarrow> mirror" where
  "tell_picked e st ref rec judge winner =
     (let total = submissionTotal e (mr_open st) ref rec; h = or_taskHash rec;
          n1 = tell_once e (mr_notifs st) (''open:picked:'' @ ref) (or_poster rec)
            (mk_notice NtCompleted (''Winner picked '' @ em_dash @ '' escrow released'')
              (WINNER_PICKED_BY judge @ '' from '' @ submissions_text total @ ''. The payout was sent to them.'') h);
          n2 = tell_once e n1 (''open:won:'' @ ref) winner
            (mk_notice NtCompleted ''Your submission won''
              (''Your result was picked from '' @ submissions_text total @ ''. The payout was sent to your wallet.'') h)
      in st\<lparr>mr_notifs := tellSubmitters e n2 ref ''open:lost'' (Some winner)
            (mk_notice NtFailed ''Another submission was picked''
              (''Your result for this task was not picked. '' @ agents total @ '' submitted.'') h)\<rparr>)"

definition handleWinnerSelected ::
  "mirror_env \<Rightarrow> mirror \<Rightarrow> chain_key \<Rightarrow> string \<Rightarrow> string \<Rightarrow> int \<Rightarrow> string \<Rightarrow> bool \<times> mirror" where
  "handleWinnerSelected e st c tid winner judgeIndex scorecardHash =
     (case ensureRecord e st c tid of
        (None, st1) \<Rightarrow> (False, st1)
      | (Some None, st1) \<Rightarrow> (True, st1)
      | (Some (Some (ref, rec)), st1) \<Rightarrow>
          let judge = JUDGES judgeIndex; w = lower winner;
              st2 = record_end e st1 ref judge scorecardHash
                \<lparr>to_kind = OutWinner, to_winner = Some w, to_judge = judge, to_scorecardHash = Some (lower scorecardHash)\<rparr>
          in (case credit_winner e st2 c tid rec w of
                (False, st3) \<Rightarrow> (False, st3)
              | (True, st3) \<Rightarrow> (True, tell_picked e st3 ref rec judge w)))"

definition handleOpenTaskVoided ::
  "mirror_env \<Rightarrow> mirror \<Rightarrow> chain_key \<Rightarrow> string \<Rightarrow> int \<Rightarrow> string \<Rightarrow> bool \<times> mirror" where
  "handleOpenTaskVoided e st c tid judgeIndex scorecardHash =
     (case ensureRecord e st c tid of
        (None, st1) \<Rightarrow> (False, st1)
      | (Some None, st1) \<Rightarrow> (True, st1)
      | (Some (Some (ref, rec)), st1) \<Rightarrow>
          let judge = JUDGES judgeIndex; h = or_taskHash rec;
              st2 = record_end e st1 ref judge scorecardHash
                \<lparr>to_kind = OutVoid, to_winner = None, to_judge = judge, to_scorecardHash = Some (lower scorecardHash)\<rparr>;
              st3 = (case listingOf e (mr_a2a st2) rec of
                  None \<Rightarrow> st2 | Some _ \<Rightarrow> st2\<lparr>mr_a2a := snd (closeOpenSubmissionTask (mr_a2a st2) h Voided)\<rparr>)
          in (True,
              if judge = JudgeCreator then st3
              else
                let n1 = tell_once e (mr_notifs st3) (''open:voided:'' @ ref) (or_poster rec)
                      (mk_notice NtCompleted (''Task closed with no winner '' @ em_dash @ '' escrow refunded'')
                        ''No submission was picked, so the full escrow went back to you.'' h)
                in st3\<lparr>mr_notifs := tellSubmitters e n1 ref ''open:void'' None
                      (mk_notice NtFailed ''No submission was picked''
                        ''The task closed without a winner and its escrow went back to the poster.'' h)\<rparr>))"

datatype open_event =
    OpenTaskCreated string
  | OpenSubmissionEv string string string int "string option"
  | WinnerSelected string string int string
  | OpenTaskVoided string int string

fun handleOpenEvent :: "mirror_env \<Rightarrow> mirror \<Rightarrow> chain_key \<Rightarrow> open_event \<Rightarrow> bool \<times> mirror" where
  "handleOpenEvent e st c (OpenTaskCreated tid) = handleOpenTaskCreated e st c tid"
| "handleOpenEvent e st c (OpenSubmissionEv tid submitter evidence n tx) =
     handleOpenSubmission e st c tid submitter evidence n tx"
| "handleOpenEvent e st c (WinnerSelected tid winner j hash) = handleWinnerSelected e st c tid winner j hash"
| "handleOpenEvent e st c (OpenTaskVoided tid j hash) = handleOpenTaskVoided e st c tid j hash"

end
