(* ===== verification/OpenEventsProps.thy ===== *)
theory OpenEventsProps
  imports OpenEvents PayoutsProps TaskStoreProps
begin

text \<open>
  What the handlers of the open-submission events keep: a redelivered event changes nothing, and
  an event reaches only the listing that was posted for its task.
\<close>

section \<open>A write made twice\<close>

text \<open>No key of a family that is live at one time has run out at the other.\<close>

definition stays :: "int \<Rightarrow> int \<Rightarrow> 'v kv \<Rightarrow> bool" where
  "stays now now' m \<longleftrightarrow> (\<forall>k. kv_get now m k \<noteq> None \<longrightarrow> kv_get now' m k = kv_get now m k)"

lemma staysD: "stays now now' m \<Longrightarrow> kv_get now m k = Some v \<Longrightarrow> kv_get now' m k = Some v"
  by (simp add: stays_def)

definition claimed :: "int \<Rightarrow> notif_db \<Rightarrow> string \<Rightarrow> bool" where
  "claimed now db k \<longleftrightarrow> kv_get now (once db) k \<noteq> None"

lemma claimed_push [simp]: "claimed now (push db now' a n) k = claimed now db k"
  by (simp add: claimed_def push_def Let_def)

lemma claimed_claim: "claimed now db k \<Longrightarrow> claimed now (snd (claim_once db now k')) k"
  by (auto simp: claimed_def claim_once_def kv_setnx_def kv_get_def Let_def FEED_TTL_S_def)

lemma claimed_self: "claimed now (snd (claim_once db now k)) k"
  by (auto simp: claimed_def claim_once_def kv_setnx_def kv_get_def Let_def FEED_TTL_S_def)

lemma claimed_refuses: "claimed now db k \<Longrightarrow> claim_once db now k = (False, db)"
  by (simp add: claimed_def claim_once_def kv_setnx_def)

lemma claimed_once: "claimed now (snd (notifyOnce db now k a n s)) k' = claimed now (snd (claim_once db now k)) k'"
proof (cases "fst (claim_once db now k)")
  case False
  then have "snd (claim_once db now k) = db"
    by (simp add: claim_once_def kv_setnx_def Let_def split: if_splits)
  with False show ?thesis by (simp add: notifyOnce_def Let_def)
qed (simp add: notifyOnce_def notify_def Let_def)

lemma claimed_notifyOnce:
  "claimed now (snd (notifyOnce db now k a n s)) k"
  "claimed now db k' \<Longrightarrow> claimed now (snd (notifyOnce db now k a n s)) k'"
  by (simp_all add: claimed_once claimed_self claimed_claim)

lemma notifyOnce_again: "claimed now db k \<Longrightarrow> notifyOnce db now k a n s = (False, db)"
  by (simp add: notifyOnce_def claimed_refuses)

lemma claimed_once_each: "claimed now db k \<Longrightarrow> claimed now (snd (once_each db now ns)) k"
  by (induction ns arbitrary: db) (simp_all add: Let_def claimed_notifyOnce)

lemma once_each_claims: "n \<in> set ns \<Longrightarrow> claimed now (snd (once_each db now ns)) (on_key n)"
  by (induction ns arbitrary: db) (auto simp: Let_def intro: claimed_once_each claimed_notifyOnce(1))

lemma once_each_again: "\<forall>n \<in> set ns. claimed now db (on_key n) \<Longrightarrow> snd (once_each db now ns) = db"
  by (induction ns) (simp_all add: Let_def notifyOnce_again)

text \<open>Every submitter of the pages is told once.\<close>

definition submitters :: "mirror_env \<Rightarrow> string \<Rightarrow> string set" where
  "submitters e ref = (\<Union>p \<in> set (mx_pages e ref). fst ` set p)"

lemma claimed_tellSubmitters:
  "claimed (mx_now e) db k \<Longrightarrow> claimed (mx_now e) (tellSubmitters e db ref key except n) k"
proof -
  have "claimed (mx_now e) db k \<Longrightarrow>
      claimed (mx_now e) (fold (\<lambda>addrs d. snd (notifyOnceMany d (mx_now e) (submitter_notices e ref key except n addrs))) ps db) k"
    for ps db
    by (induction ps arbitrary: db) (simp_all add: batched_notices_are_one_by_one claimed_once_each)
  then show "claimed (mx_now e) db k \<Longrightarrow> claimed (mx_now e) (tellSubmitters e db ref key except n) k"
    by (simp add: tellSubmitters_def forEachSubmitter_def)
qed

lemma tellSubmitters_claims:
  assumes "a \<in> submitters e ref" "Some a \<noteq> except"
  shows "claimed (mx_now e) (tellSubmitters e db ref key except n) (key @ '':'' @ ref @ '':'' @ a)"
proof -
  let ?k = "key @ '':'' @ ref @ '':'' @ a"
  let ?f = "\<lambda>addrs d. snd (notifyOnceMany d (mx_now e) (submitter_notices e ref key except n addrs))"
  have keep: "claimed (mx_now e) db ?k \<Longrightarrow> claimed (mx_now e) (fold ?f ps db) ?k" for ps db
    by (induction ps arbitrary: db) (simp_all add: batched_notices_are_one_by_one claimed_once_each)
  have hit: "claimed (mx_now e) (?f p db) ?k" if "a \<in> set p" for p db
  proof -
    let ?m = "\<lparr>on_key = ?k, on_to = a, on_notice = n, on_stamp = mx_stamp e ?k\<rparr>"
    have "?m \<in> set (submitter_notices e ref key except n p)"
      using that assms(2) by (auto simp: submitter_notices_def Let_def)
    from once_each_claims [OF this, of "mx_now e" db] show ?thesis
      by (simp add: batched_notices_are_one_by_one)
  qed
  have "\<exists>p \<in> set ps. a \<in> set p \<Longrightarrow> claimed (mx_now e) (fold ?f ps db) ?k" for ps db
  proof (induction ps arbitrary: db)
    case (Cons p ps)
    show ?case
    proof (cases "a \<in> set p")
      case True
      show ?thesis using keep [OF hit [OF True]] by simp
    qed (use Cons in auto)
  qed simp
  moreover have "\<exists>p \<in> set (filter (\<lambda>p. p \<noteq> []) (map (map fst) (mx_pages e ref))). a \<in> set p"
  proof -
    obtain q where q: "q \<in> set (mx_pages e ref)" "a \<in> fst ` set q" using assms(1) by (auto simp: submitters_def)
    from q(2) have "map fst q \<noteq> []" by (cases q) simp_all
    moreover have "a \<in> set (map fst q)" using q(2) by simp
    ultimately show ?thesis using q(1) by (intro bexI [of _ "map fst q"]) simp_all
  qed
  ultimately show ?thesis by (simp add: tellSubmitters_def forEachSubmitter_def)
qed

lemma tellSubmitters_again:
  assumes "\<And>a. a \<in> submitters e ref \<Longrightarrow> Some a \<noteq> except \<Longrightarrow> claimed (mx_now e) db (key @ '':'' @ ref @ '':'' @ a)"
  shows "tellSubmitters e db ref key except n = db"
proof -
  let ?f = "\<lambda>addrs d. snd (notifyOnceMany d (mx_now e) (submitter_notices e ref key except n addrs))"
  have "(\<forall>p \<in> set ps. set p \<subseteq> submitters e ref) \<Longrightarrow> fold ?f ps db = db" for ps
  proof (induction ps)
    case (Cons p ps)
    have "\<forall>m \<in> set (submitter_notices e ref key except n p). claimed (mx_now e) db (on_key m)"
      using Cons.prems assms by (auto simp: submitter_notices_def Let_def)
    then have "?f p db = db" by (simp add: batched_notices_are_one_by_one once_each_again)
    with Cons show ?case by simp
  qed simp
  moreover have "\<forall>p \<in> set (filter (\<lambda>p. p \<noteq> []) (map (map fst) (mx_pages e ref))). set p \<subseteq> submitters e ref"
    by (auto simp: submitters_def)
  ultimately show ?thesis by (simp add: tellSubmitters_def forEachSubmitter_def)
qed

section \<open>The record, again\<close>

lemma ensureRecord_known:
  assumes "ensureRecord e st c tid = (Some (Some (ref, rec)), st1)"
  shows "ref = taskRef (mx_cfg e) c tid" "getRecord (mr_open st1) (mx_now e) ref = Some rec"
    "mr_a2a st1 = mr_a2a st" "mr_notifs st1 = mr_notifs st" "mr_pay st1 = mr_pay st"
  using assms
  by (auto simp: ensureRecord_def saveRecord_def getRecord_def with_open_def kv_setnx_def kv_get_def scheduleJudgeIfAbsent_def
      scheduleSweep_def Let_def split: option.splits if_splits)

lemma ensureRecord_not_open:
  assumes "ensureRecord e st c tid = (Some None, st1)"
  shows "st1 = st" "getRecord (mr_open st) (mx_now e) (taskRef (mx_cfg e) c tid) = None"
    "\<exists>t ov. mx_getTask e c tid = Some t \<and> mx_openTask e c tid = Some ov \<and> \<not> ov_open ov"
  using assms by (auto simp: ensureRecord_def Let_def split: option.splits if_splits)

lemma ensureRecord_fails: "ensureRecord e st c tid = (None, st1) \<Longrightarrow> st1 = st"
  by (auto simp: ensureRecord_def Let_def split: option.splits if_splits)

definition later :: "mirror_env \<Rightarrow> int \<Rightarrow> mirror_env" where
  "later e now' = e\<lparr>mx_now := now'\<rparr>"

lemma later_sel [simp]:
  "mx_cfg (later e t) = mx_cfg e" "mx_baseEscrow (later e t) = mx_baseEscrow e" "mx_index (later e t) = mx_index e"
  "mx_getTask (later e t) = mx_getTask e" "mx_openTask (later e t) = mx_openTask e" "mx_count (later e t) = mx_count e"
  "mx_hosted (later e t) = mx_hosted e" "mx_pages (later e t) = mx_pages e" "mx_digest (later e t) = mx_digest e"
  "mx_iso (later e t) = mx_iso e" "mx_stamp (later e t) = mx_stamp e" "mx_payout (later e t) = mx_payout e"
  "mx_now (later e t) = t"
  by (simp_all add: later_def)

text \<open>What must not have run out for an event to be recognised.\<close>

definition mirror_stays :: "int \<Rightarrow> int \<Rightarrow> mirror \<Rightarrow> bool" where
  "mirror_stays now now' st \<longleftrightarrow>
     stays now now' (o_records (mr_open st)) \<and> stays now now' (o_subs (mr_open st)) \<and>
     stays now now' (o_outcomes (mr_open st)) \<and> stays now now' (once (mr_notifs st)) \<and>
     stays now now' (pd_marker (mr_pay st))"

lemma ensureRecord_again:
  assumes "getRecord (mr_open st) (mx_now e) (taskRef (mx_cfg e) c tid) = Some rec" "mirror_stays (mx_now e) now' st"
  shows "ensureRecord (later e now') st c tid = (Some (Some (taskRef (mx_cfg e) c tid, rec)), st)"
proof -
  have "getRecord (mr_open st) now' (taskRef (mx_cfg e) c tid) = Some rec"
    using assms staysD [of "mx_now e" now' "o_records (mr_open st)"] by (simp add: getRecord_def mirror_stays_def)
  then show ?thesis by (simp add: ensureRecord_def Let_def)
qed

lemma ensureRecord_not_open_again:
  assumes "ensureRecord e st c tid = (Some None, st1)" "mx_now e \<le> now'"
  shows "ensureRecord (later e now') st1 c tid = (Some None, st1)"
proof -
  have "getRecord (mr_open st) now' (taskRef (mx_cfg e) c tid) = None"
    using ensureRecord_not_open(2) [OF assms(1)] assms(2) by (simp add: getRecord_def kv_get_later_None)
  with ensureRecord_not_open(1,3) [OF assms(1)] show ?thesis by (auto simp: ensureRecord_def Let_def)
qed

section \<open>A submission, again\<close>

lemma recordSubmission_again:
  assumes "stays now now' (o_subs db')" "o_subs db' = o_subs (snd (recordSubmission db now ref a s))"
  shows "recordSubmission db' now' ref a s' = (False, db')"
proof -
  have "hash_get now (o_subs db') ref (lower a) \<noteq> None"
    unfolding assms(2) by (auto simp: recordSubmission_def hash_setnx_def hash_get_def kv_get_def Let_def split: option.split)
  then have "hash_get now' (o_subs db') ref (lower a) \<noteq> None"
    using assms(1) unfolding stays_def hash_get_def by (cases "kv_get now (o_subs db') ref") auto
  then show ?thesis
    by (simp add: recordSubmission_def Let_def hash_setnx_refused hash_setnx_fst)
qed

text \<open>No result held that an event with this hash would keep.\<close>

definition nothing_to_keep :: "int \<Rightarrow> open_db \<Rightarrow> string \<Rightarrow> string \<Rightarrow> string \<Rightarrow> bool" where
  "nothing_to_keep now db ref a h \<longleftrightarrow>
     (case kv_get now (o_pending db) (pending_key ref a) of None \<Rightarrow> True
      | Some p \<Rightarrow> lower (res_evidenceHash p) \<noteq> lower h)"

lemma keepResult_done: "nothing_to_keep now (snd (keepResult db now ref a h)) ref a h"
  by (auto simp: keepResult_def nothing_to_keep_def kv_get_def kv_del_def Let_def split: option.split)

lemma nothing_to_keep_later: "nothing_to_keep now db ref a h \<Longrightarrow> now \<le> now' \<Longrightarrow> nothing_to_keep now' db ref a h"
  by (auto simp: nothing_to_keep_def kv_get_def split: option.splits if_splits elim!: live.elims)

lemma nothing_kept: "nothing_to_keep now db ref a h \<Longrightarrow> keepResult db now ref a h = (False, db)"
  by (auto simp: nothing_to_keep_def keepResult_def split: option.splits)

lemma keepResult_subs: "o_subs (snd (keepResult db now ref a h)) = o_subs db" "o_records (snd (keepResult db now ref a h)) = o_records db"
  by (simp_all add: keepResult_def keep_def Let_def split: option.split)

lemma count_notice_frame:
  "o_subs (mr_open (count_notice e st ref rec n)) = o_subs (mr_open st)"
  "o_records (mr_open (count_notice e st ref rec n)) = o_records (mr_open st)"
  "o_pending (mr_open (count_notice e st ref rec n)) = o_pending (mr_open st)"
  "mr_a2a (count_notice e st ref rec n) = mr_a2a st" "mr_pay (count_notice e st ref rec n) = mr_pay st"
  by (simp_all add: count_notice_def with_open_def takeCountNoticeSlot_def Let_def)

lemma nothing_to_keep_cong: "o_pending db' = o_pending db \<Longrightarrow> nothing_to_keep now db' ref a h = nothing_to_keep now db ref a h"
  by (simp add: nothing_to_keep_def)

lemma with_open_sel [simp]:
  "mr_open (with_open st db) = db" "mr_a2a (with_open st db) = mr_a2a st" "mr_notifs (with_open st db) = mr_notifs st"
  "mr_pay (with_open st db) = mr_pay st" "with_open st (mr_open st) = st"
  by (simp_all add: with_open_def)

lemma submission_again:
  assumes "handleOpenSubmission e st c tid a h n tx = (True, st1)" "mx_now e \<le> now'" "mirror_stays (mx_now e) now' st1"
  shows "handleOpenSubmission (later e now') st1 c tid a h n tx = (True, st1)"
proof (cases "ensureRecord e st c tid")
  case (Pair r st0)
  consider "r = None" | "r = Some None" | ref rec where "r = Some (Some (ref, rec))"
    by (metis option.exhaust surj_pair)
  then show ?thesis
  proof cases
    case 1
    with Pair assms(1) show ?thesis by (simp add: handleOpenSubmission_def)
  next
    case 2
    with Pair have e: "ensureRecord e st c tid = (Some None, st0)" by simp
    have "st1 = st0" using assms(1) by (simp add: handleOpenSubmission_def e)
    with ensureRecord_not_open_again [OF e assms(2)] show ?thesis by (simp add: handleOpenSubmission_def)
  next
    case 3
    with Pair have e: "ensureRecord e st c tid = (Some (Some (ref, rec)), st0)" by simp
    define sub where "sub = \<lparr>sr_evidenceHash = h, sr_ordinal = n, sr_txHash = truthy tx, sr_recordedAt = mx_iso e (mx_now e div 1000)\<rparr>"
    define db1 where "db1 = snd (recordSubmission (mr_open st0) (mx_now e) ref a sub)"
    define db2 where "db2 = snd (keepResult db1 (mx_now e) ref a h)"
    have st1: "st1 = with_open st0 db2 \<or> st1 = count_notice e (with_open st0 db2) ref rec n"
      using assms(1) by (auto simp: handleOpenSubmission_def e Let_def sub_def [symmetric] db1_def [symmetric]
          db2_def [symmetric] split: if_splits)
    have subs: "o_subs (mr_open st1) = o_subs db1"
      using st1 by (auto simp: count_notice_frame db2_def keepResult_subs)
    have recs: "o_records (mr_open st1) = o_records (mr_open st0)"
      using st1 by (auto simp: count_notice_frame db2_def keepResult_subs db1_def recordSubmission_def Let_def)
    have "o_pending (mr_open st1) = o_pending db2" using st1 by (auto simp: count_notice_frame)
    then have kept: "keepResult (mr_open st1) now' ref a h = (False, mr_open st1)"
      using nothing_to_keep_later [OF keepResult_done [of "mx_now e" db1 ref a h] assms(2)]
      by (intro nothing_kept) (simp add: nothing_to_keep_cong [of "mr_open st1" db2] db2_def [symmetric])
    have rec: "getRecord (mr_open st1) (mx_now e) (taskRef (mx_cfg e) c tid) = Some rec"
      using ensureRecord_known(1,2) [OF e] by (simp add: getRecord_def recs)
    have ref: "taskRef (mx_cfg e) c tid = ref" using ensureRecord_known(1) [OF e] by simp
    have "stays (mx_now e) now' (o_subs (mr_open st1))" using assms(3) by (simp add: mirror_stays_def)
    from recordSubmission_again [OF this] have "recordSubmission (mr_open st1) now' ref a s' = (False, mr_open st1)" for s'
      using subs unfolding db1_def by blast
    then show ?thesis
      using ensureRecord_again [OF rec assms(3)] kept by (simp add: handleOpenSubmission_def ref Let_def)
  qed
qed

section \<open>An end, again\<close>

text \<open>No scorecard held that an end with this hash would keep.\<close>

definition no_card_to_keep :: "mirror_env \<Rightarrow> int \<Rightarrow> open_db \<Rightarrow> string \<Rightarrow> open_judge \<Rightarrow> string \<Rightarrow> bool" where
  "no_card_to_keep e now db ref judge h \<longleftrightarrow>
     (case judge_role judge of None \<Rightarrow> True | Some role \<Rightarrow>
        (case kv_get now (o_cards_pending db) (card_key ref role) of None \<Rightarrow> True
         | Some p \<Rightarrow> lower (mx_digest e (ks_scorecard p)) \<noteq> lower h))"

lemma keepJudgeScorecard_frame:
  "o_records (keepJudgeScorecard e db ref judge h) = o_records db"
  "o_outcomes (keepJudgeScorecard e db ref judge h) = o_outcomes db"
  "o_subs (keepJudgeScorecard e db ref judge h) = o_subs db"
  by (simp_all add: keepJudgeScorecard_def keepScorecard_def keepAnchoredScorecard_def Let_def split: option.split)

lemma keepJudgeScorecard_done:
  "h = [] \<or> zero_hash h \<or> no_card_to_keep e (mx_now e) (keepJudgeScorecard e db ref judge h) ref judge h"
  by (cases "judge_role judge")
    (auto simp: keepJudgeScorecard_def no_card_to_keep_def keepScorecard_def keepAnchoredScorecard_def kv_get_def
      kv_del_def Let_def split: option.split)

lemma no_card_to_keep_later: "no_card_to_keep e now db ref judge h \<Longrightarrow> now \<le> now' \<Longrightarrow> no_card_to_keep e now' db ref judge h"
  by (auto simp: no_card_to_keep_def kv_get_def split: option.splits if_splits elim!: live.elims)

lemma no_card_kept: "no_card_to_keep e now' db ref judge h \<Longrightarrow> keepJudgeScorecard (later e now') db ref judge h = db"
  by (auto simp: no_card_to_keep_def keepJudgeScorecard_def keepScorecard_def split: option.splits)

lemma zrem_idem [simp]: "zrem (zrem z m) m = zrem z m"
  by (simp add: zrem_def)

lemma record_end_frame:
  "mr_a2a (record_end e st ref judge h out) = mr_a2a st" "mr_notifs (record_end e st ref judge h out) = mr_notifs st"
  "mr_pay (record_end e st ref judge h out) = mr_pay st"
  "o_records (mr_open (record_end e st ref judge h out)) = o_records (mr_open st)"
  by (simp_all add: record_end_def unscheduleJudge_def unscheduleSweep_def keepJudgeScorecard_frame saveOutcome_def Let_def)

lemma record_end_again:
  assumes open_same: "mr_open st' = mr_open (record_end e st ref judge h out)"
    and "mx_now e \<le> now'" "stays (mx_now e) now' (o_outcomes (mr_open st'))"
  shows "record_end (later e now') st' ref judge h out' = st'"
proof -
  let ?db = "mr_open st'"
  define db0 where "db0 = keepJudgeScorecard e (snd (saveOutcome (mr_open st) (mx_now e) ref out)) ref judge h"
  have db: "?db = unscheduleJudge (unscheduleSweep db0 ref) ref"
    unfolding open_same record_end_def Let_def db0_def by simp
  have "kv_get (mx_now e) (o_outcomes ?db) ref \<noteq> None"
    by (auto simp: db db0_def unscheduleJudge_def unscheduleSweep_def keepJudgeScorecard_frame saveOutcome_def
        kv_setnx_def kv_get_def Let_def)
  then have "kv_get now' (o_outcomes ?db) ref \<noteq> None" using assms(3) by (simp add: stays_def)
  then have save: "saveOutcome ?db now' ref out' = (False, ?db)" by (simp add: saveOutcome_def kv_setnx_def)
  have "no_card_to_keep e now ?db ref judge h = no_card_to_keep e now db0 ref judge h" for now
    by (simp add: db no_card_to_keep_def unscheduleJudge_def unscheduleSweep_def Let_def cong: option.case_cong)
  note pending = this
  have card: "keepJudgeScorecard (later e now') ?db ref judge h = ?db"
  proof (cases "h = [] \<or> zero_hash h")
    case True
    then show ?thesis by (auto simp only: keepJudgeScorecard_def if_True)
  next
    case False
    then have "no_card_to_keep e (mx_now e) db0 ref judge h"
      using keepJudgeScorecard_done [of h e "snd (saveOutcome (mr_open st) (mx_now e) ref out)" ref judge]
      unfolding db0_def by blast
    then have "no_card_to_keep e now' ?db ref judge h"
      unfolding pending using assms(2) by (rule no_card_to_keep_later)
    then show ?thesis by (rule no_card_kept)
  qed
  have "unscheduleJudge (unscheduleSweep ?db ref) ref = ?db"
    by (simp add: db unscheduleJudge_def unscheduleSweep_def Let_def)
  then show ?thesis by (simp add: record_end_def save card)
qed

section \<open>A credit, again\<close>

lemma park_again:
  assumes "fst (recordWorkerPayout cfg db now io h e oid g st opts) = False"
    and "payoutCurrency cfg (chain_name (fst st)) (snd st) = None"
  shows "recordWorkerPayout cfg (snd (recordWorkerPayout cfg db now io h e oid g st opts)) now' io h e oid g st opts =
    (False, snd (recordWorkerPayout cfg db now io h e oid g st opts))"
  using assms by (auto simp: recordWorkerPayout_def park_def done_if_def Let_def)

lemma marker_held:
  "kv_get now (pd_marker db) (lower h) \<noteq> None \<Longrightarrow>
   take_marker db now a h e = ((a \<noteq> Answers, if a = Answers then Some False else None), db)"
  by (auto simp: take_marker_def kv_setnx_def done_if_def Let_def)

lemma marker_leaves:
  "a \<noteq> Refuses \<Longrightarrow> kv_get now (pd_marker (snd (take_marker db now a h e))) (lower h) \<noteq> None"
  "take_marker db now Refuses h e = ((True, None), db)"
  by (auto simp: take_marker_def kv_setnx_def kv_get_def done_if_def Let_def)

lemma fee_cached:
  "pd_feeBps (snd (getFeeBps db r c)) c \<noteq> None"
  "pd_feeBps db c \<noteq> None \<Longrightarrow> snd (getFeeBps db r c) = db"
  by (auto simp: getFeeBps_def split: option.split)

lemma transaction_frame:
  "pd_marker (snd (credit_transaction db k c a col x)) = pd_marker db"
  "pd_feeBps (snd (credit_transaction db k c a col x)) = pd_feeBps db"
  "fst (credit_transaction db k c a col x) \<noteq> Credited \<Longrightarrow> snd (credit_transaction db k c a col x) = db"
  by (auto simp: credit_transaction_def CLAIM_CREDIT_SQL_def split: option.splits)

lemma transaction_fst:
  "fst (credit_transaction db k c a col x) = Duplicate \<longleftrightarrow> pd_credited db k \<noteq> None"
  "fst (credit_transaction db k c a col x) = Unregistered \<longleftrightarrow> pd_credited db k = None \<and> pd_executors db a = None"
  "fst (credit_transaction db k c a col x) = Credited \<Longrightarrow> pd_credited (snd (credit_transaction db k c a col x)) k \<noteq> None"
  by (cases "pd_credited db k"; auto simp: credit_transaction_def CLAIM_CREDIT_SQL_def split: option.splits)+

text \<open>Past a marker that stands, with the fee read: a task that has its row is left as it is.\<close>

lemma payout_duplicate:
  assumes cur: "payoutCurrency cfg (chain_name (fst st)) (snd st) \<noteq> None"
    and m: "io_marker io = Refuses \<or> kv_get now (pd_marker db) (lower h) \<noteq> None"
    and fee: "pd_feeBps db (fst st) \<noteq> None" and row: "pd_credited db (lower h) \<noteq> None"
    and io: "io_credit io = Answers"
  shows "recordWorkerPayout cfg db now io h e oid g st opts = (False, db)"
proof -
  have m': "take_marker db now (io_marker io) h e =
      ((io_marker io \<noteq> Answers, if io_marker io = Answers then Some False else None), db)"
    using m marker_held [of now db h "io_marker io" e] marker_leaves(2) [of db now h e] by auto
  show ?thesis
  proof (cases "io_marker io = Answers")
    case True
    then show ?thesis using payout_marked [OF _ cur] m' by simp
  next
    case False
    then have go: "fst (fst (take_marker db now (io_marker io) h e))" using m' by simp
    show ?thesis
      using transaction_fst(1) [of db "lower h"] row transaction_frame(3) [of db "lower h"]
      by (simp add: payout_past_marker [OF cur go] m' fee_cached(2) [OF fee] io Let_def done_if_def
          split: credit_outcome.split)
  qed
qed

lemma payout_unregistered:
  assumes cur: "payoutCurrency cfg (chain_name (fst st)) (snd st) \<noteq> None"
    and m: "if io_undo io = Refuses then io_marker io = Refuses \<or> kv_get now (pd_marker db) (lower h) \<noteq> None
            else pd_marker db (lower h) = None"
    and fee: "pd_feeBps db (fst st) \<noteq> None"
    and row: "pd_credited db (lower h) = None" "pd_executors db (lower e) = None"
    and io: "io_credit io = Answers"
  shows "recordWorkerPayout cfg db now io h e oid g st opts = (False, db)"
proof (cases "io_marker io = Answers \<and> io_undo io = Refuses")
  case True
  then have "kv_get now (pd_marker db) (lower h) \<noteq> None" using m by simp
  from marker_held [OF this, of "io_marker io" e] True payout_marked [OF _ cur] show ?thesis by simp
next
  case False
  let ?m = "take_marker db now (io_marker io) h e"
  have go: "fst (fst ?m)" "snd (fst ?m) \<noteq> Some False"
    using m False by (auto simp: take_marker_def kv_setnx_def kv_get_def done_if_def Let_def split: if_splits)
  have fee': "snd (getFeeBps (snd ?m) (io_feeBps io) (fst st)) = snd ?m"
    by (rule fee_cached(2)) (use fee in simp)
  let ?t = "credit_transaction (snd ?m) (lower h) (chain_name (fst st)) (lower e) TotalEarnedUsdc
    (share_due g (op_computeCost opts) USDC_UNIT (fee_used db io (fst st)))"
  have t: "fst ?t = Unregistered" using row by (simp add: transaction_fst)
  then have t: "fst ?t = Unregistered" "snd ?t = snd ?m" using transaction_frame(3) [of "snd ?m"] by simp_all
  have undone: "done_if (io_undo io) ((snd ?m)\<lparr>pd_marker := kv_del (pd_marker (snd ?m)) (lower h)\<rparr>) (snd ?m) = db"
  proof (cases "io_undo io = Refuses")
    case True
    then show ?thesis using m False
      by (auto simp: take_marker_def kv_setnx_def done_if_def Let_def split: if_splits)
  next
    case no: False
    then have "(pd_marker db)(lower h := None) = pd_marker db" using m by (auto simp: fun_eq_iff)
    then show ?thesis using no
      by (auto simp: take_marker_def kv_setnx_def kv_del_def done_if_def Let_def split: if_splits)
  qed
  show ?thesis
    using t go(2) undone [unfolded done_if_def]
    by (simp add: payout_past_marker [OF cur go(1)] fee' io Let_def done_if_def split: if_splits)
qed

lemma after_credit_fee: "pd_feeBps (after_credit db now io opts h e p) = pd_feeBps db"
  by (simp add: after_credit_def incrementSoldCount_def recordTaskCompletion_def bump_completion_def add_event_def
      done_if_def Let_def split: option.split)

lemma payout_again:
  assumes ok: "fst (recordWorkerPayout cfg db now io h e oid g st opts) = False" and re: "op_rethrow opts"
    and stay: "stays now now' (pd_marker (snd (recordWorkerPayout cfg db now io h e oid g st opts)))"
  shows "recordWorkerPayout cfg (snd (recordWorkerPayout cfg db now io h e oid g st opts)) now' io h e oid g st opts =
    (False, snd (recordWorkerPayout cfg db now io h e oid g st opts))"
proof (cases "payoutCurrency cfg (chain_name (fst st)) (snd st) = None")
  case True
  then show ?thesis by (rule park_again [OF ok])
next
  case cur: False
  let ?m = "take_marker db now (io_marker io) h e"
  let ?r = "snd (recordWorkerPayout cfg db now io h e oid g st opts)"
  have later: "kv_get now (pd_marker ?r) (lower h) \<noteq> None \<Longrightarrow> kv_get now' (pd_marker ?r) (lower h) \<noteq> None"
    using stay by (simp add: stays_def)
  show ?thesis
  proof (cases "fst (fst ?m)")
    case False
    then have r: "?r = db" and a: "io_marker io = Answers" and held: "kv_get now (pd_marker db) (lower h) \<noteq> None"
      using payout_marked [OF False cur] by (auto simp: take_marker_def kv_setnx_def done_if_def Let_def split: if_splits)
    have "kv_get now' (pd_marker db) (lower h) \<noteq> None" using later held r by simp
    from marker_held [OF this, of "io_marker io" e] a payout_marked [OF _ cur] show ?thesis unfolding r by simp
  next
    case go: True
    let ?f = "snd (getFeeBps (snd ?m) (io_feeBps io) (fst st))"
    let ?x = "share_due g (op_computeCost opts) USDC_UNIT (fee_used db io (fst st))"
    let ?t = "credit_transaction ?f (lower h) (chain_name (fst st)) (lower e) TotalEarnedUsdc ?x"
    have io: "io_credit io = Answers"
      using ok re by (auto simp: payout_past_marker [OF cur go] Let_def split: if_splits)
    have mk: "io_marker io = Refuses \<or> kv_get now (pd_marker (snd ?m)) (lower h) \<noteq> None"
      using marker_leaves(1) by blast
    have fee: "pd_feeBps ?f (fst st) \<noteq> None" by (rule fee_cached)
    note past = payout_past_marker [OF cur go] io Let_def done_if_def
    show ?thesis
    proof (cases "fst ?t")
      case Duplicate
      then have r: "?r = ?f" using transaction_frame(3) [of ?f] by (simp add: past)
      show ?thesis
      proof (rule payout_duplicate [OF cur])
        show "io_marker io = Refuses \<or> kv_get now' (pd_marker ?r) (lower h) \<noteq> None" using mk later unfolding r by auto
        show "pd_feeBps ?r (fst st) \<noteq> None" unfolding r by (rule fee)
        show "pd_credited ?r (lower h) \<noteq> None" using Duplicate unfolding r transaction_fst(1) .
      qed (rule io)
    next
      case Credited
      then have r: "pd_marker ?r = pd_marker (snd ?m)" "pd_feeBps ?r = pd_feeBps ?f" "pd_credited ?r = pd_credited (snd ?t)"
        by (simp_all add: past transaction_frame after_credit_fee)
      show ?thesis
      proof (rule payout_duplicate [OF cur])
        show "io_marker io = Refuses \<or> kv_get now' (pd_marker ?r) (lower h) \<noteq> None" using mk later unfolding r by auto
        show "pd_feeBps ?r (fst st) \<noteq> None" unfolding r by (rule fee)
        show "pd_credited ?r (lower h) \<noteq> None" unfolding r by (rule transaction_fst(3) [OF Credited])
      qed (rule io)
    next
      case Unregistered
      have some: "snd (fst ?m) \<noteq> Some False"
        using go by (auto simp: take_marker_def Let_def split: if_splits)
      have r: "?r = done_if (io_undo io) (?f\<lparr>pd_marker := kv_del (pd_marker ?f) (lower h)\<rparr>) ?f"
        using Unregistered some transaction_frame(3) [of ?f] by (simp add: past)
      show ?thesis
      proof (rule payout_unregistered [OF cur])
        show "if io_undo io = Refuses then io_marker io = Refuses \<or> kv_get now' (pd_marker ?r) (lower h) \<noteq> None
            else pd_marker ?r (lower h) = None"
          using mk later by (auto simp: r done_if_def kv_del_def)
        show "pd_feeBps ?r (fst st) \<noteq> None" using fee by (simp add: r done_if_def)
        show "pd_credited ?r (lower h) = None" "pd_executors ?r (lower e) = None"
          using Unregistered unfolding transaction_fst(2) by (simp_all add: r done_if_def)
      qed (rule io)
    qed
  qed
qed

lemma metas_close [simp]: "metas (snd (closeOpenSubmissionTask db tid out)) = metas db"
  by (simp add: closeOpenSubmissionTask_def put_state_def Let_def split: option.split)

lemma getMeta_close [simp]: "getMeta (snd (closeOpenSubmissionTask db tid out)) k = getMeta db k"
  unfolding getMeta_def find_meta_def metas_close by (rule refl)

lemma isListed_close [simp]:
  "isListedTask cfg b ix (snd (closeOpenSubmissionTask db tid out)) c i h a p = isListedTask cfg b ix db c i h a p"
  by (simp add: isListedTask_def resolveCachedTaskByHash_def recordedChain_def)

lemma listing_close [simp]: "listingOf e (snd (closeOpenSubmissionTask db tid out)) rec = listingOf e db rec"
  unfolding listingOf_def getMeta_close isListed_close by (rule refl)

lemma listing_later [simp]: "listingOf (later e t) db rec = listingOf e db rec"
  unfolding listingOf_def later_sel by (rule refl)

lemma close_again:
  "snd (closeOpenSubmissionTask (snd (closeOpenSubmissionTask db tid out)) tid out') =
   snd (closeOpenSubmissionTask db tid out)"
  by (auto simp: closeOpenSubmissionTask_def put_state_def Let_def split: option.split)

text \<open>The three answers of the credit of a winner, for a listing that is this task's.\<close>

lemma credit_winner_True:
  assumes "credit_winner e st c tid rec w = (True, st')"
  shows "mr_open st' = mr_open st" "mr_notifs st' = mr_notifs st"
    "mr_a2a st' = (if listingOf e (mr_a2a st) rec = None then mr_a2a st
       else snd (closeOpenSubmissionTask (mr_a2a st) (or_taskHash rec) (WinnerPaid w)))"
  using assms by (auto simp: credit_winner_def Let_def split: option.splits if_splits)

lemma credit_winner_again:
  assumes c: "credit_winner e st c tid rec w = (True, st')"
    and open_same: "mr_a2a st'' = mr_a2a st'" "mr_pay st'' = mr_pay st'"
    and stay: "stays (mx_now e) now' (pd_marker (mr_pay st''))"
  shows "credit_winner (later e now') st'' c tid rec w = (True, st'')"
proof (cases "listingOf e (mr_a2a st) rec")
  case None
  then show ?thesis using c open_same by (simp add: credit_winner_def)
next
  case (Some m)
  have a: "snd (closeOpenSubmissionTask (mr_a2a st'') (or_taskHash rec) (WinnerPaid w)) = mr_a2a st''"
    using credit_winner_True(3) [OF c] Some by (simp add: open_same close_again)
  have l: "listingOf e (mr_a2a st'') rec = Some m"
    using credit_winner_True(3) [OF c] Some by (simp add: open_same)
  have same: "st''\<lparr>mr_a2a := mr_a2a st''\<rparr> = st''" "st''\<lparr>mr_pay := mr_pay st''\<rparr> = st''" by simp_all
  obtain t where t: "mx_getTask e c tid = Some t"
    using c Some by (auto simp: credit_winner_def Let_def split: option.splits)
  show ?thesis
  proof (cases "lower (oc_taskHash t) = or_taskHash rec")
    case False
    then show ?thesis by (simp add: credit_winner_def l t a Let_def)
  next
    case True
    obtain x where x: "executorFor (mx_hosted e) w = Some x"
      using c Some t True by (auto simp: credit_winner_def Let_def split: option.splits)
    let ?opts = "\<lparr>op_rethrow = True, op_serviceId = None, op_computeCost = None\<rparr>"
    let ?p = "recordWorkerPayout (mx_cfg e) (mr_pay st) (mx_now e) (mx_payout e) (or_taskHash rec) x (or_taskId rec)
        (oc_amount t) (c, oc_token t) ?opts"
    have p: "fst ?p = False" "mr_pay st' = snd ?p"
      using c Some t True x by (auto simp: credit_winner_def Let_def)
    have "recordWorkerPayout (mx_cfg e) (mr_pay st'') now' (mx_payout e) (or_taskHash rec) x (or_taskId rec)
        (oc_amount t) (c, oc_token t) ?opts = (False, mr_pay st'')"
      unfolding open_same p(2) by (rule payout_again [OF p(1)]) (use stay open_same p(2) in simp_all)
    then show ?thesis by (simp add: credit_winner_def l t a x True Let_def)
  qed
qed

section \<open>The alerts, again\<close>

definition told :: "mirror_env \<Rightarrow> notif_db \<Rightarrow> string list \<Rightarrow> string \<Rightarrow> string \<Rightarrow> string option \<Rightarrow> bool" where
  "told e db ks ref key except \<longleftrightarrow>
     (\<forall>k \<in> set ks. claimed (mx_now e) db k) \<and>
     (\<forall>a \<in> submitters e ref. Some a \<noteq> except \<longrightarrow> claimed (mx_now e) db (key @ '':'' @ ref @ '':'' @ a))"

lemma claimed_later: "stays now now' (once db) \<Longrightarrow> claimed now db k \<Longrightarrow> claimed now' db k"
  by (simp add: claimed_def stays_def)

lemma told_later: "stays (mx_now e) now' (once db) \<Longrightarrow> told e db ks ref key except \<Longrightarrow> told (later e now') db ks ref key except"
  by (simp add: told_def claimed_later submitters_def)

lemma claimed_tell_once:
  "claimed (mx_now e) (tell_once e db k a n) k"
  "claimed (mx_now e) db k' \<Longrightarrow> claimed (mx_now e) (tell_once e db k a n) k'"
  by (simp_all add: tell_once_def claimed_notifyOnce)

lemma tell_once_again: "claimed (mx_now e) db k \<Longrightarrow> tell_once e db k a n = db"
  by (simp add: tell_once_def notifyOnce_again)

lemma told_picked:
  "told e (mr_notifs (tell_picked e st ref rec judge w)) [''open:picked:'' @ ref, ''open:won:'' @ ref] ref ''open:lost'' (Some w)"
  by (simp add: told_def tell_picked_def Let_def claimed_tellSubmitters claimed_tell_once tellSubmitters_claims del: append.simps)

lemma told_picked_again:
  assumes "told e (mr_notifs st) [''open:picked:'' @ ref, ''open:won:'' @ ref] ref ''open:lost'' (Some w)"
  shows "tell_picked e st ref rec judge w = st"
proof -
  have "tellSubmitters e (mr_notifs st) ref ''open:lost'' (Some w) n = mr_notifs st" for n
    by (rule tellSubmitters_again) (use assms in \<open>simp add: told_def\<close>)
  then show ?thesis using assms by (simp add: told_def tell_picked_def Let_def tell_once_again del: append.simps)
qed

lemma tell_picked_frame [simp]:
  "mr_a2a (tell_picked e st ref rec judge w) = mr_a2a st" "mr_pay (tell_picked e st ref rec judge w) = mr_pay st"
  "mr_open (tell_picked e st ref rec judge w) = mr_open st"
  by (simp_all add: tell_picked_def Let_def)

lemma winner_again:
  assumes w: "handleWinnerSelected e st c tid winner j h = (True, st1)" and t: "mx_now e \<le> now'"
    and stay: "mirror_stays (mx_now e) now' st1"
  shows "handleWinnerSelected (later e now') st1 c tid winner j h = (True, st1)"
proof (cases "ensureRecord e st c tid")
  case (Pair r st0)
  consider "r = None" | "r = Some None" | ref rec where "r = Some (Some (ref, rec))"
    by (metis option.exhaust surj_pair)
  then show ?thesis
  proof cases
    case 1
    with Pair w show ?thesis by (simp add: handleWinnerSelected_def)
  next
    case 2
    with Pair have e: "ensureRecord e st c tid = (Some None, st0)" by simp
    have "st1 = st0" using w by (simp add: handleWinnerSelected_def e)
    with ensureRecord_not_open_again [OF e t] show ?thesis by (simp add: handleWinnerSelected_def)
  next
    case 3
    with Pair have e: "ensureRecord e st c tid = (Some (Some (ref, rec)), st0)" by simp
    define out where "out = \<lparr>to_kind = OutWinner, to_winner = Some (lower winner), to_judge = JUDGES j,
      to_scorecardHash = Some (lower h)\<rparr>"
    let ?st2 = "record_end e st0 ref (JUDGES j) h out"
    obtain st3 where st3: "credit_winner e ?st2 c tid rec (lower winner) = (True, st3)"
        "st1 = tell_picked e st3 ref rec (JUDGES j) (lower winner)"
      using w by (auto simp: handleWinnerSelected_def e Let_def out_def split: prod.splits bool.splits)
    note sel = credit_winner_True [OF st3(1)]
    have parts: "stays (mx_now e) now' (o_outcomes (mr_open st1))" "stays (mx_now e) now' (once (mr_notifs st1))"
        "stays (mx_now e) now' (pd_marker (mr_pay st1))"
      using stay by (simp_all add: mirror_stays_def)
    have "o_records (mr_open st1) = o_records (mr_open st0)"
      unfolding st3(2) tell_picked_frame sel(1) by (rule record_end_frame)
    then have rec: "getRecord (mr_open st1) (mx_now e) (taskRef (mx_cfg e) c tid) = Some rec"
      using ensureRecord_known(1,2) [OF e] by (simp add: getRecord_def)
    have ref: "taskRef (mx_cfg e) c tid = ref" using ensureRecord_known(1) [OF e] by simp
    have r: "record_end (later e now') st1 ref (JUDGES j) h out' = st1" for out'
      by (rule record_end_again [OF _ t parts(1), of st0]) (simp add: st3(2) sel(1))
    have c1: "credit_winner (later e now') st1 c tid rec (lower winner) = (True, st1)"
      by (rule credit_winner_again [OF st3(1)]) (use parts(3) in \<open>simp_all add: st3(2)\<close>)
    have n: "tell_picked (later e now') st1 ref rec (JUDGES j) (lower winner) = st1"
      by (rule told_picked_again, rule told_later [OF parts(2)]) (simp only: st3(2) told_picked)
    show ?thesis
      by (simp add: handleWinnerSelected_def ensureRecord_again [OF rec stay] ref r c1 n Let_def)
  qed
qed

text \<open>A void: what its listing and its alerts are left as.\<close>

definition void_listing :: "mirror_env \<Rightarrow> mirror \<Rightarrow> open_record \<Rightarrow> mirror" where
  "void_listing e st rec =
     (case listingOf e (mr_a2a st) rec of None \<Rightarrow> st
      | Some _ \<Rightarrow> st\<lparr>mr_a2a := snd (closeOpenSubmissionTask (mr_a2a st) (or_taskHash rec) Voided)\<rparr>)"

definition tell_voided :: "mirror_env \<Rightarrow> mirror \<Rightarrow> string \<Rightarrow> open_record \<Rightarrow> mirror" where
  "tell_voided e st ref rec =
     (let n1 = tell_once e (mr_notifs st) (''open:voided:'' @ ref) (or_poster rec)
            (mk_notice NtCompleted (''Task closed with no winner '' @ em_dash @ '' escrow refunded'')
              ''No submission was picked, so the full escrow went back to you.'' (or_taskHash rec))
      in st\<lparr>mr_notifs := tellSubmitters e n1 ref ''open:void'' None
            (mk_notice NtFailed ''No submission was picked''
              ''The task closed without a winner and its escrow went back to the poster.'' (or_taskHash rec))\<rparr>)"

lemma voided_eq:
  assumes "ensureRecord e st c tid = (Some (Some (ref, rec)), st0)"
  shows "handleOpenTaskVoided e st c tid j h =
    (let st2 = record_end e st0 ref (JUDGES j) h \<lparr>to_kind = OutVoid, to_winner = None, to_judge = JUDGES j,
           to_scorecardHash = Some (lower h)\<rparr>;
         st3 = void_listing e st2 rec
     in (True, if JUDGES j = JudgeCreator then st3 else tell_voided e st3 ref rec))"
  unfolding handleOpenTaskVoided_def assms void_listing_def tell_voided_def Let_def by simp

lemma void_listing_frame [simp]:
  "mr_open (void_listing e st rec) = mr_open st" "mr_notifs (void_listing e st rec) = mr_notifs st"
  "mr_pay (void_listing e st rec) = mr_pay st"
  by (simp_all add: void_listing_def split: option.split)

lemma tell_voided_frame [simp]:
  "mr_open (tell_voided e st ref rec) = mr_open st" "mr_a2a (tell_voided e st ref rec) = mr_a2a st"
  "mr_pay (tell_voided e st ref rec) = mr_pay st"
  by (simp_all add: tell_voided_def Let_def)

lemma void_listing_again:
  assumes "mr_a2a st' = mr_a2a (void_listing e st rec)"
  shows "void_listing (later e now') st' rec = st'"
proof (cases "listingOf e (mr_a2a st) rec")
  case None
  then show ?thesis using assms by (simp add: void_listing_def)
next
  case (Some m)
  then have a: "mr_a2a st' = snd (closeOpenSubmissionTask (mr_a2a st) (or_taskHash rec) Voided)"
    using assms by (simp add: void_listing_def)
  have "snd (closeOpenSubmissionTask (mr_a2a st') (or_taskHash rec) Voided) = mr_a2a st'"
    unfolding a by (rule close_again)
  then show ?thesis by (simp add: void_listing_def split: option.split)
qed

lemma told_voided: "told e (mr_notifs (tell_voided e st ref rec)) [''open:voided:'' @ ref] ref ''open:void'' None"
  by (simp add: told_def tell_voided_def Let_def claimed_tellSubmitters claimed_tell_once tellSubmitters_claims del: append.simps)

lemma told_voided_again:
  assumes "told e (mr_notifs st) [''open:voided:'' @ ref] ref ''open:void'' None"
  shows "tell_voided e st ref rec = st"
proof -
  have "tellSubmitters e (mr_notifs st) ref ''open:void'' None n = mr_notifs st" for n
    by (rule tellSubmitters_again) (use assms in \<open>simp add: told_def\<close>)
  then show ?thesis using assms by (simp add: told_def tell_voided_def Let_def tell_once_again del: append.simps)
qed

lemma voided_again:
  assumes v: "handleOpenTaskVoided e st c tid j h = (True, st1)" and t: "mx_now e \<le> now'"
    and stay: "mirror_stays (mx_now e) now' st1"
  shows "handleOpenTaskVoided (later e now') st1 c tid j h = (True, st1)"
proof (cases "ensureRecord e st c tid")
  case (Pair r st0)
  consider "r = None" | "r = Some None" | ref rec where "r = Some (Some (ref, rec))"
    by (metis option.exhaust surj_pair)
  then show ?thesis
  proof cases
    case 1
    with Pair v show ?thesis by (simp add: handleOpenTaskVoided_def)
  next
    case 2
    with Pair have e: "ensureRecord e st c tid = (Some None, st0)" by simp
    have "st1 = st0" using v by (simp add: handleOpenTaskVoided_def e)
    with ensureRecord_not_open_again [OF e t] show ?thesis by (simp add: handleOpenTaskVoided_def)
  next
    case 3
    with Pair have e: "ensureRecord e st c tid = (Some (Some (ref, rec)), st0)" by simp
    define st2 where "st2 = record_end e st0 ref (JUDGES j) h \<lparr>to_kind = OutVoid, to_winner = None,
      to_judge = JUDGES j, to_scorecardHash = Some (lower h)\<rparr>"
    have st1: "st1 = (if JUDGES j = JudgeCreator then void_listing e st2 rec
        else tell_voided e (void_listing e st2 rec) ref rec)"
      using v unfolding voided_eq [OF e] Let_def st2_def [symmetric] by simp
    have sel: "mr_open st1 = mr_open st2" "mr_a2a st1 = mr_a2a (void_listing e st2 rec)"
      by (simp_all add: st1)
    have parts: "stays (mx_now e) now' (o_outcomes (mr_open st1))" "stays (mx_now e) now' (once (mr_notifs st1))"
      using stay by (simp_all add: mirror_stays_def)
    have "o_records (mr_open st1) = o_records (mr_open st0)"
      unfolding sel st2_def by (rule record_end_frame)
    then have rec: "getRecord (mr_open st1) (mx_now e) (taskRef (mx_cfg e) c tid) = Some rec"
      using ensureRecord_known(1,2) [OF e] by (simp add: getRecord_def)
    have ref: "taskRef (mx_cfg e) c tid = ref" using ensureRecord_known(1) [OF e] by simp
    have r: "record_end (later e now') st1 ref (JUDGES j) h out' = st1" for out'
      by (rule record_end_again [OF _ t parts(1), of st0]) (simp add: sel st2_def)
    have l: "void_listing (later e now') st1 rec = st1" by (rule void_listing_again [OF sel(2)])
    have n: "tell_voided (later e now') st1 ref rec = st1" if "JUDGES j \<noteq> JudgeCreator"
      by (rule told_voided_again, rule told_later [OF parts(2)]) (use that in \<open>simp only: st1 if_False told_voided\<close>)
    note again = ensureRecord_again [OF rec stay, unfolded ref]
    show ?thesis using n by (simp add: voided_eq [OF again] r l Let_def)
  qed
qed

text \<open>
  C13. Delivering an event again changes nothing. Once an open-submission event has been handled,
  handling it again later, while none of the keys it is recognised by has run out, succeeds and
  leaves the record, the submissions, the results, the outcome, the listing, the credit and every
  address's alerts exactly as they were.
\<close>

theorem redelivered_event_changes_nothing:
  assumes "handleOpenEvent e st c ev = (True, st1)" and "mx_now e \<le> now'"
    and "mirror_stays (mx_now e) now' st1"
  shows "handleOpenEvent (e\<lparr>mx_now := now'\<rparr>) st1 c ev = (True, st1)"
proof (cases ev)
  case (OpenTaskCreated tid)
  obtain r st0 where r: "ensureRecord e st c tid = (r, st0)" by (cases "ensureRecord e st c tid")
  consider "r = None" | "r = Some None" | ref rec where "r = Some (Some (ref, rec))"
    by (metis option.exhaust surj_pair)
  then have "handleOpenTaskCreated (later e now') st1 c tid = (True, st1)"
  proof cases
    case 1
    with r assms(1) show ?thesis by (simp add: OpenTaskCreated handleOpenTaskCreated_def)
  next
    case 2
    with r have e: "ensureRecord e st c tid = (Some None, st0)" by simp
    have "st1 = st0" using assms(1) by (simp add: OpenTaskCreated handleOpenTaskCreated_def e)
    with ensureRecord_not_open_again [OF e assms(2)] show ?thesis by (simp add: handleOpenTaskCreated_def)
  next
    case 3
    with r have e: "ensureRecord e st c tid = (Some (Some (ref, rec)), st0)" by simp
    have "st1 = st0" using assms(1) by (simp add: OpenTaskCreated handleOpenTaskCreated_def e)
    with ensureRecord_known(1,2) [OF e] have "getRecord (mr_open st1) (mx_now e) (taskRef (mx_cfg e) c tid) = Some rec"
      by simp
    from ensureRecord_again [OF this assms(3)] show ?thesis by (simp add: handleOpenTaskCreated_def)
  qed
  then show ?thesis by (simp add: OpenTaskCreated later_def)
next
  case (OpenSubmissionEv tid a h n tx)
  then show ?thesis using submission_again [of e st c tid a h n tx st1 now'] assms by (simp add: later_def)
next
  case (WinnerSelected tid w j h)
  then show ?thesis using winner_again [of e st c tid w j h st1 now'] assms by (simp add: later_def)
next
  case (OpenTaskVoided tid j h)
  then show ?thesis using voided_again [of e st c tid j h st1 now'] assms by (simp add: later_def)
qed

section \<open>What an event reaches\<close>

fun event_task :: "open_event \<Rightarrow> string" where
  "event_task (OpenTaskCreated tid) = tid"
| "event_task (OpenSubmissionEv tid a h n tx) = tid"
| "event_task (WinnerSelected tid w j h) = tid"
| "event_task (OpenTaskVoided tid j h) = tid"

fun event_winner :: "open_event \<Rightarrow> string option" where
  "event_winner (WinnerSelected tid w j h) = Some (lower w)"
| "event_winner _ = None"

text \<open>A change of one task's state, and of one task's credit.\<close>

definition only_state_of :: "string \<Rightarrow> a2a_db \<Rightarrow> a2a_db \<Rightarrow> bool" where
  "only_state_of h db db' \<longleftrightarrow> metas db' = metas db \<and> states db' = (states db)(h := states db' h)"

definition only_credit_of :: "string \<Rightarrow> string \<times> string \<Rightarrow> pay_db \<Rightarrow> pay_db \<Rightarrow> bool" where
  "only_credit_of h row db db' \<longleftrightarrow>
     pd_credited db' = pd_credited db \<and> pd_executors db' = pd_executors db \<or>
     pd_credited db h = None \<and> pd_credited db' = (pd_credited db)(h \<mapsto> row) \<and>
     pd_executors db' = (pd_executors db)(snd row := pd_executors db' (snd row))"

definition reaches_listing :: "mirror_env \<Rightarrow> mirror \<Rightarrow> mirror \<Rightarrow> chain_key \<Rightarrow> open_event \<Rightarrow> bool" where
  "reaches_listing e st st1 c ev \<longleftrightarrow>
     (\<exists>ref rec st0 m. ensureRecord e st c (event_task ev) = (Some (Some (ref, rec)), st0) \<and>
        getMeta (mr_a2a st) (or_taskHash rec) = Some m \<and> submissionMode m = Some OpenSubmission \<and>
        isListedTask (mx_cfg e) (mx_baseEscrow e) (mx_index e) (mr_a2a st) (or_chain rec) (or_taskId rec)
          (or_taskHash rec) (or_poster rec) (posterAddress m) \<and>
        only_state_of (lower (or_taskHash rec)) (mr_a2a st) (mr_a2a st1) \<and>
        (mr_pay st1 = mr_pay st \<or>
         (\<exists>t w x. event_winner ev = Some w \<and> mx_getTask e c (event_task ev) = Some t \<and>
            lower (oc_taskHash t) = or_taskHash rec \<and> executorFor (mx_hosted e) w = Some x \<and>
            only_credit_of (lower (or_taskHash rec)) (chain_name c, lower x) (mr_pay st) (mr_pay st1))))"

lemma listingOf_listed:
  assumes "listingOf e db rec = Some m"
  shows "getMeta db (or_taskHash rec) = Some m" "submissionMode m = Some OpenSubmission"
    "isListedTask (mx_cfg e) (mx_baseEscrow e) (mx_index e) db (or_chain rec) (or_taskId rec) (or_taskHash rec)
       (or_poster rec) (posterAddress m)"
  using assms by (auto simp: listingOf_def split: option.splits if_splits)

lemma listing_reaches:
  assumes "ensureRecord e st c (event_task ev) = (Some (Some (ref, rec)), st0)" "listingOf e (mr_a2a st) rec = Some m"
    and "only_state_of (lower (or_taskHash rec)) (mr_a2a st) (mr_a2a st1)"
    and "mr_pay st1 = mr_pay st \<or>
      (\<exists>t w x. event_winner ev = Some w \<and> mx_getTask e c (event_task ev) = Some t \<and>
         lower (oc_taskHash t) = or_taskHash rec \<and> executorFor (mx_hosted e) w = Some x \<and>
         only_credit_of (lower (or_taskHash rec)) (chain_name c, lower x) (mr_pay st) (mr_pay st1))"
  shows "reaches_listing e st st1 c ev"
  unfolding reaches_listing_def using assms listingOf_listed [OF assms(2)] by blast

lemma close_only: "only_state_of (lower h) db (snd (closeOpenSubmissionTask db h out))"
  by (auto simp: only_state_of_def closeOpenSubmissionTask_def put_state_def Let_def fun_eq_iff split: option.split)

lemma payout_only:
  "only_credit_of (lower h) (chain_name (fst st), lower e) db (snd (recordWorkerPayout cfg db now io h e oid g st opts))"
  using payout_all_or_nothing [of db cfg now io h e oid g st opts]
  by (auto simp: only_credit_of_def same_credits_def credit_applied_def)

lemma submission_frame:
  "mr_a2a (snd (handleOpenSubmission e st c tid a h n tx)) = mr_a2a st"
  "mr_pay (snd (handleOpenSubmission e st c tid a h n tx)) = mr_pay st"
  by (cases "ensureRecord e st c tid"; auto simp: handleOpenSubmission_def Let_def count_notice_frame
      ensureRecord_known dest: ensureRecord_not_open(1) ensureRecord_fails split: option.split)+

lemma credit_winner_reaches:
  assumes "listingOf e (mr_a2a st) rec = None \<Longrightarrow> P (mr_a2a st) (mr_pay st)"
    and "\<And>m. listingOf e (mr_a2a st) rec = Some m \<Longrightarrow>
      P (snd (closeOpenSubmissionTask (mr_a2a st) (or_taskHash rec) (WinnerPaid w))) (mr_pay st)"
    and "\<And>m t x. listingOf e (mr_a2a st) rec = Some m \<Longrightarrow> mx_getTask e c tid = Some t \<Longrightarrow>
      lower (oc_taskHash t) = or_taskHash rec \<Longrightarrow> executorFor (mx_hosted e) w = Some x \<Longrightarrow>
      P (snd (closeOpenSubmissionTask (mr_a2a st) (or_taskHash rec) (WinnerPaid w)))
        (snd (recordWorkerPayout (mx_cfg e) (mr_pay st) (mx_now e) (mx_payout e) (or_taskHash rec) x (or_taskId rec)
          (oc_amount t) (c, oc_token t) \<lparr>op_rethrow = True, op_serviceId = None, op_computeCost = None\<rparr>))"
  shows "P (mr_a2a (snd (credit_winner e st c tid rec w))) (mr_pay (snd (credit_winner e st c tid rec w)))"
  using assms by (auto simp: credit_winner_def Let_def split: option.split)

lemma winner_reaches:
  fixes e st c tid w j h ref rec st0
  assumes e: "ensureRecord e st c tid = (Some (Some (ref, rec)), st0)"
  defines "st1 \<equiv> snd (handleWinnerSelected e st c tid w j h)"
  shows "mr_a2a st1 = mr_a2a st \<and> mr_pay st1 = mr_pay st \<or> reaches_listing e st st1 c (WinnerSelected tid w j h)"
proof -
  define st2 where "st2 = record_end e st0 ref (JUDGES j) h \<lparr>to_kind = OutWinner, to_winner = Some (lower w),
    to_judge = JUDGES j, to_scorecardHash = Some (lower h)\<rparr>"
  have same: "mr_a2a st2 = mr_a2a st" "mr_pay st2 = mr_pay st"
    by (simp_all add: st2_def record_end_frame ensureRecord_known(3,5) [OF e])
  let ?cw = "snd (credit_winner e st2 c tid rec (lower w))"
  have st1: "mr_a2a st1 = mr_a2a ?cw" "mr_pay st1 = mr_pay ?cw"
    unfolding st1_def handleWinnerSelected_def e
    by (simp_all add: Let_def st2_def split: prod.split bool.split)
  let ?P = "\<lambda>a p. a = mr_a2a st \<and> p = mr_pay st \<or>
    (\<exists>m. listingOf e (mr_a2a st) rec = Some m \<and> only_state_of (lower (or_taskHash rec)) (mr_a2a st) a \<and>
      (p = mr_pay st \<or> (\<exists>t x. mx_getTask e c tid = Some t \<and> lower (oc_taskHash t) = or_taskHash rec \<and>
         executorFor (mx_hosted e) (lower w) = Some x \<and>
         only_credit_of (lower (or_taskHash rec)) (chain_name c, lower x) (mr_pay st) p)))"
  have "?P (mr_a2a ?cw) (mr_pay ?cw)"
  proof (rule credit_winner_reaches [where P = ?P])
    show "listingOf e (mr_a2a st2) rec = None \<Longrightarrow> ?P (mr_a2a st2) (mr_pay st2)" by (simp add: same)
  next
    fix m assume "listingOf e (mr_a2a st2) rec = Some m"
    then show "?P (snd (closeOpenSubmissionTask (mr_a2a st2) (or_taskHash rec) (WinnerPaid (lower w)))) (mr_pay st2)"
      by (simp add: same close_only)
  next
    fix m t x
    assume "listingOf e (mr_a2a st2) rec = Some m" "mx_getTask e c tid = Some t" "lower (oc_taskHash t) = or_taskHash rec"
      "executorFor (mx_hosted e) (lower w) = Some x"
    then show "?P (snd (closeOpenSubmissionTask (mr_a2a st2) (or_taskHash rec) (WinnerPaid (lower w))))
        (snd (recordWorkerPayout (mx_cfg e) (mr_pay st2) (mx_now e) (mx_payout e) (or_taskHash rec) x (or_taskId rec)
          (oc_amount t) (c, oc_token t) \<lparr>op_rethrow = True, op_serviceId = None, op_computeCost = None\<rparr>))"
      using payout_only [of "or_taskHash rec" "(c, oc_token t)" x] by (simp add: same close_only)
  qed
  then have "?P (mr_a2a st1) (mr_pay st1)" unfolding st1 .
  then show ?thesis
    using listing_reaches [of e st c "WinnerSelected tid w j h" ref rec st0 _ st1] e by (elim disjE exE conjE) auto
qed

lemma voided_reaches:
  fixes e st c tid j h ref rec st0
  assumes e: "ensureRecord e st c tid = (Some (Some (ref, rec)), st0)"
  defines "st1 \<equiv> snd (handleOpenTaskVoided e st c tid j h)"
  shows "mr_a2a st1 = mr_a2a st \<and> mr_pay st1 = mr_pay st \<or> reaches_listing e st st1 c (OpenTaskVoided tid j h)"
proof -
  let ?st2 = "record_end e st0 ref (JUDGES j) h \<lparr>to_kind = OutVoid, to_winner = None, to_judge = JUDGES j,
    to_scorecardHash = Some (lower h)\<rparr>"
  have a: "mr_a2a st1 = mr_a2a (void_listing e ?st2 rec)" and p: "mr_pay st1 = mr_pay st"
    by (simp_all add: st1_def voided_eq [OF e] Let_def record_end_frame ensureRecord_known(5) [OF e])
  show ?thesis
  proof (cases "listingOf e (mr_a2a st) rec")
    case None
    then have "mr_a2a st1 = mr_a2a st"
      by (simp add: a void_listing_def record_end_frame ensureRecord_known(3) [OF e])
    with p show ?thesis by blast
  next
    case (Some m)
    then have "mr_a2a st1 = snd (closeOpenSubmissionTask (mr_a2a st) (or_taskHash rec) Voided)"
      by (simp add: a void_listing_def record_end_frame ensureRecord_known(3) [OF e])
    then have "only_state_of (lower (or_taskHash rec)) (mr_a2a st) (mr_a2a st1)" using close_only by simp
    then have "reaches_listing e st st1 c (OpenTaskVoided tid j h)"
      by (rule listing_reaches [OF _ Some, rotated]) (simp_all add: e p)
    then show ?thesis by blast
  qed
qed


section \<open>An example\<close>

definition open_escrow_task :: onchain_task where
  "open_escrow_task = \<lparr>oc_agent = ''0xP'', oc_worker = ''0x0'', oc_token = ''0xC2'', oc_amount = 1000, oc_taskHash = ''0xH'',
     oc_status = EsFunded, oc_deadline = 500, oc_submissionAttempts = 0\<rparr>"

definition sample_mirror_env :: mirror_env where
  "sample_mirror_env =
     \<lparr>mx_cfg = testnet_config, mx_baseEscrow = False, mx_index = (\<lambda>_. \<lparr>ti_cached = Map.empty, ti_resolve = (\<lambda>_. None)\<rparr>),
      mx_getTask = (\<lambda>_ _. Some open_escrow_task),
      mx_openTask = (\<lambda>_ _. Some \<lparr>ov_open = True, ov_mode = 0, ov_creatorWindow = 0, ov_closedBy = 2\<rparr>),
      mx_count = (\<lambda>_ _. Some 1), mx_hosted = Some [], mx_pages = (\<lambda>_. []), mx_digest = (\<lambda>_. ''0xd''),
      mx_iso = (\<lambda>_. ''t''), mx_stamp = (\<lambda>_. (''i'', ''t'')), mx_payout = all_answer, mx_now = 600000\<rparr>"

definition listed_mirror :: mirror where
  "listed_mirror =
     \<lparr>mr_a2a = empty_db\<lparr>metas := [''0xh'' \<mapsto> sample_meta\<lparr>taskId := ''0xh'', submissionMode := Some OpenSubmission,
          posterAddress := Some ''0xp''\<rparr>], states := [''0xh'' \<mapsto> bare_state ''0xh'' Collecting]\<rparr>,
      mr_open = empty_open_db, mr_notifs = empty_notif_db, mr_pay = one_agent\<rparr>"

definition sample_win :: open_event where
  "sample_win = WinnerSelected ''7'' ''0xB'' 2 ''0x0''"

lemma payout_returns: "io_credit io = Answers \<Longrightarrow> fst (recordWorkerPayout cfg db now io h e oid g st opts) = False"
proof (cases "payoutCurrency cfg (chain_name (fst st)) (snd st) = None")
  case False
  assume "io_credit io = Answers"
  then show ?thesis
    by (cases "fst (fst (take_marker db now (io_marker io) h e))")
      (simp_all add: payout_past_marker [OF False] payout_marked [OF _ False] Let_def split: credit_outcome.split)
qed (simp add: payout_no_currency)

lemma stays_refl [simp]: "mirror_stays now now st"
  by (simp add: mirror_stays_def stays_def)

lemma sample_win_ok: "fst (handleOpenEvent sample_mirror_env listed_mirror Arc sample_win) = True"
proof -
  obtain ref rec st0 where e: "ensureRecord sample_mirror_env listed_mirror Arc ''7'' = (Some (Some (ref, rec)), st0)"
    by (simp add: ensureRecord_def sample_mirror_env_def listed_mirror_def getRecord_def empty_open_db_def kv_get_def Let_def)
  have "fst (credit_winner sample_mirror_env st2 Arc ''7'' rec w)" for st2 w
    by (simp add: credit_winner_def sample_mirror_env_def executorFor_def Let_def payout_returns all_answer_def
        split: option.split)
  then show ?thesis
    by (auto simp: sample_win_def handleWinnerSelected_def e Let_def split: prod.split bool.split) (metis fst_conv)
qed

theorem redelivered_event_changes_nothing_witness:
  "let st1 = snd (handleOpenEvent sample_mirror_env listed_mirror Arc sample_win)
   in handleOpenEvent sample_mirror_env st1 Arc sample_win = (True, st1)"
proof -
  let ?st1 = "snd (handleOpenEvent sample_mirror_env listed_mirror Arc sample_win)"
  have "handleOpenEvent sample_mirror_env listed_mirror Arc sample_win = (True, ?st1)"
    using sample_win_ok by (metis prod.collapse)
  from redelivered_event_changes_nothing [OF this, of "mx_now sample_mirror_env"] show ?thesis
    by (simp add: Let_def)
qed

end
