(* ===== verification/OpenJudge.thy ===== *)
theory OpenJudge
  imports OpenEvents Identity
begin

text \<open>
  \<open>services/openSubmissionJudge.ts\<close> with the windows of \<open>services/openPickWindows.ts\<close> and
  \<open>verifierSignerFor\<close> of \<open>services/verifierSigner.ts\<close>: the platform's two turns at judging an
  open task. The checks of a result (\<open>services/autoVerify.ts\<close>) are a parameter, each answering or
  throwing a message; the escrow's reads are part of the environment, \<open>None\<close> where a read throws.
  The transactions sent are kept in order. Only one signer sends them, one after the other.
\<close>

definition JUDGE_LIMIT :: nat where "JUDGE_LIMIT = 20"
definition JUDGE_RECHECK_SEC :: int where "JUDGE_RECHECK_SEC = 300"
definition MISSING_RECHECK_SEC :: int where "MISSING_RECHECK_SEC = 3600"
definition SLACK_SEC :: int where "SLACK_SEC = 30"
definition LAG_GRACE_SEC :: int where "LAG_GRACE_SEC = 3600"
definition MAX_JUDGED :: nat where "MAX_JUDGED = 2000"
definition JUDGE_BATCH :: nat where "JUDGE_BATCH = 25"
definition MAX_SCORECARD_ENTRIES :: nat where "MAX_SCORECARD_ENTRIES = 100"

definition verifierSec :: int where "verifierSec = 48 * 3600"
definition backupSec :: int where "backupSec = 48 * 3600"

section \<open>The rule\<close>

record judged_entry =
  je_submitter :: string
  je_ordinal :: int
  je_attempt :: bool
  je_payable :: bool
  je_pastFloor :: bool
  je_passed :: bool
  je_score :: rat
  je_reason :: "string option"

text \<open>What \<open>autoVerify\<close> says of a result; \<open>Inl\<close> is a throw, with its message.\<close>

record auto_verdict =
  av_passed :: bool
  av_score :: rat
  av_reasons :: "string list"

record judge_checks =
  jc_attemptFailure :: "json \<Rightarrow> string + string option"
  jc_deliverableFloor :: "json \<Rightarrow> criteria \<Rightarrow> string + string option"
  jc_autoVerify :: "json \<Rightarrow> criteria \<Rightarrow> string + auto_verdict"

record recorded_sub =
  rs_submitter :: string
  rs_ordinal :: int

definition no_criteria :: criteria where
  "no_criteria =
     \<lparr>required_fields = None, min_length = None, contains_keywords = None, max_length = None, expected_answer = None,
      forbidden_phrases = None, regex_pattern = None, expected_schema = None, rubric = None, pass_threshold = None,
      acceptance = None\<rparr>"

text \<open>The catch: what was known of the entry before the check threw.\<close>

definition uncheckable :: "recorded_sub \<Rightarrow> bool \<Rightarrow> bool \<Rightarrow> string \<Rightarrow> judged_entry" where
  "uncheckable s attempt realWork msg =
     \<lparr>je_submitter = rs_submitter s, je_ordinal = rs_ordinal s, je_attempt = attempt, je_payable = realWork,
      je_pastFloor = False, je_passed = False, je_score = 0, je_reason = Some (''Could not be checked: '' @ msg)\<rparr>"

definition shortfall :: "string option \<Rightarrow> string option \<Rightarrow> auto_verdict \<Rightarrow> string option" where
  "shortfall workFloor fl v =
     truthy
       (if workFloor = None \<or> av_passed v
        then (case fl of Some f \<Rightarrow> Some f
              | None \<Rightarrow> if av_passed v then None
                  else Some (case av_reasons v of r # _ \<Rightarrow> r | [] \<Rightarrow> ''Failed the task'' @ apos @ ''s checks''))
        else workFloor)"

definition judge_submission :: "judge_checks \<Rightarrow> criteria \<Rightarrow> recorded_sub \<times> json \<Rightarrow> judged_entry" where
  "judge_submission k cr sub =
     (case sub of (s, data) \<Rightarrow>
        case jc_attemptFailure k data of
          Inl msg \<Rightarrow> uncheckable s False False msg
        | Inr notAttempt \<Rightarrow>
            (case truthy notAttempt of
               Some reason \<Rightarrow>
                 \<lparr>je_submitter = rs_submitter s, je_ordinal = rs_ordinal s, je_attempt = False, je_payable = False,
                  je_pastFloor = False, je_passed = False, je_score = 0, je_reason = Some reason\<rparr>
             | None \<Rightarrow>
                 (case jc_deliverableFloor k data no_criteria of
                    Inl msg \<Rightarrow> uncheckable s True False msg
                  | Inr workFloor0 \<Rightarrow>
                      let workFloor = truthy workFloor0; realWork = (workFloor = None) in
                      (case jc_deliverableFloor k data cr of
                         Inl msg \<Rightarrow> uncheckable s True realWork msg
                       | Inr fl \<Rightarrow>
                           (case jc_autoVerify k data cr of
                              Inl msg \<Rightarrow> uncheckable s True realWork msg
                            | Inr v \<Rightarrow>
                                \<lparr>je_submitter = rs_submitter s, je_ordinal = rs_ordinal s, je_attempt = True,
                                 je_payable = (realWork \<or> av_passed v), je_pastFloor = (truthy fl = None),
                                 je_passed = av_passed v, je_score = av_score v,
                                 je_reason = shortfall workFloor fl v\<rparr>)))))"

definition judgeSubmissions :: "judge_checks \<Rightarrow> (recorded_sub \<times> json) list \<Rightarrow> criteria \<Rightarrow> judged_entry list" where
  "judgeSubmissions k subs cr = map (judge_submission k cr) subs"

definition bool_num :: "bool \<Rightarrow> rat" where
  "bool_num b = (if b then 1 else 0)"

text \<open>JavaScript's \<open>||\<close> of numbers: the first that is not 0, or the last.\<close>

definition num_or :: "rat \<Rightarrow> rat \<Rightarrow> rat" where
  "num_or a b = (if a \<noteq> 0 then a else b)"

definition better :: "judged_entry \<Rightarrow> judged_entry \<Rightarrow> rat" where
  "better a b =
     num_or (bool_num (je_passed b) - bool_num (je_passed a))
       (num_or (bool_num (je_pastFloor b) - bool_num (je_pastFloor a))
          (num_or (je_score b - je_score a) (of_int (je_ordinal a - je_ordinal b))))"

definition pick_step :: "judged_entry \<Rightarrow> judged_entry option \<Rightarrow> judged_entry option" where
  "pick_step e best =
     (if je_payable e \<and> (case best of None \<Rightarrow> True | Some b \<Rightarrow> better e b < 0) then Some e else best)"

definition pickWinner :: "judged_entry list \<Rightarrow> judged_entry option" where
  "pickWinner judged = fold pick_step judged None"

section \<open>The scorecard\<close>

text \<open>A stable sort by a comparison function.\<close>

fun insert_cmp :: "('a \<Rightarrow> 'a \<Rightarrow> rat) \<Rightarrow> 'a \<Rightarrow> 'a list \<Rightarrow> 'a list" where
  "insert_cmp cmp x [] = [x]"
| "insert_cmp cmp x (y # ys) = (if cmp x y \<le> 0 then x # y # ys else y # insert_cmp cmp x ys)"

definition sort_cmp :: "('a \<Rightarrow> 'a \<Rightarrow> rat) \<Rightarrow> 'a list \<Rightarrow> 'a list" where
  "sort_cmp cmp xs = foldr (insert_cmp cmp) xs []"

definition JUDGE_RULE :: string where
  "JUDGE_RULE =
     ''A submission is payable when it passes the task'' @ apos @
     ''s checks, or is real work past the content floor (20 characters, 3 distinct words) and not a refusal. '' @
     ''Of those, the platform pays one that passes the task'' @ apos @
     ''s checks first, then one past the floor for the task, then the higher score, then the earliest. '' @
     ''With nothing payable it refunds the poster.''"

definition entry_json :: "judged_entry \<Rightarrow> json" where
  "entry_json e = JObj
     ([(''submitter'', JStr (je_submitter e)), (''ordinal'', JNum (of_int (je_ordinal e))), (''attempt'', JBool (je_attempt e)),
       (''payable'', JBool (je_payable e)), (''pastFloor'', JBool (je_pastFloor e)), (''passed'', JBool (je_passed e)),
       (''score'', JNum (je_score e))] @
      (case je_reason e of None \<Rightarrow> [] | Some r \<Rightarrow> [(''reason'', JStr r)]))"

definition by_merit :: "judged_entry \<Rightarrow> judged_entry \<Rightarrow> rat" where
  "by_merit a b =
     num_or (bool_num (je_payable b) - bool_num (je_payable a))
       (num_or (bool_num (je_attempt b) - bool_num (je_attempt a)) (better a b))"

definition how_many :: "(judged_entry \<Rightarrow> bool) \<Rightarrow> judged_entry list \<Rightarrow> json" where
  "how_many P es = JNum (of_nat (length (filter P es)))"

definition scorecardOf :: "judged_entry list \<Rightarrow> judged_entry option \<Rightarrow> scorecard_role \<Rightarrow> int \<Rightarrow> nat \<Rightarrow> nat \<Rightarrow> json" where
  "scorecardOf judged winner role submissions recorded withResult = JObj
     [(''judge'', JStr ''platform''), (''role'', JStr (role_name role)), (''rule'', JStr JUDGE_RULE),
      (''decision'', case winner of
          Some w \<Rightarrow> JObj [(''winner'', JStr (je_submitter w)), (''score'', JNum (je_score w))]
        | None \<Rightarrow> JObj [(''void'', JBool True), (''reason'', JStr ''No submission was payable'')]),
      (''submissions'', JNum (of_int submissions)), (''recorded'', JNum (of_nat recorded)),
      (''withResult'', JNum (of_nat withResult)), (''judged'', how_many (\<lambda>_. True) judged),
      (''attempts'', how_many je_attempt judged), (''payable'', how_many je_payable judged),
      (''pastFloor'', how_many je_pastFloor judged), (''passed'', how_many je_passed judged),
      (''entries'', JArr (map entry_json (take MAX_SCORECARD_ENTRIES (sort_cmp by_merit judged))))]"

section \<open>The state and the escrow\<close>

datatype judge_tx =
    SelectWinnerByBackup chain_key string string string
  | SelectWinnerByVerifier chain_key string string string
  | VoidOpenTask chain_key string string

record judge_state =
  js_open :: open_db
  js_sent :: "judge_tx list"
  js_inFlight :: bool

record signer_rec =
  sg_escrow :: bool
  sg_marketplace :: "string option"

record judge_env =
  jx_mirror :: mirror_env
  jx_a2a :: a2a_db
  jx_signer :: "chain_key \<Rightarrow> signer_rec"
  jx_openPhase :: "chain_key \<Rightarrow> string \<Rightarrow> int option"
  jx_effectiveDeadline :: "chain_key \<Rightarrow> string \<Rightarrow> int option"
  jx_taskVerifier :: "chain_key \<Rightarrow> string \<Rightarrow> string option"
  jx_verifier :: "chain_key \<Rightarrow> string option"
  jx_subs :: "string \<Rightarrow> (string \<times> (string \<times> submission_rec option) list) list"
  jx_checks :: judge_checks
  jx_mined :: "judge_tx \<Rightarrow> bool"
  jx_enabled :: bool
  jx_process :: process

definition jx_nowSec :: "judge_env \<Rightarrow> int" where
  "jx_nowSec e = mx_now (jx_mirror e) div 1000"

text \<open>The address of the chain's signer, if the chain has one.\<close>

definition verifierSignerFor :: "judge_env \<Rightarrow> chain_key \<Rightarrow> string option" where
  "verifierSignerFor e c =
     (let g = jx_signer e c in if sg_escrow g then map_option lower (sg_marketplace g) else None)"

text \<open>The pages of the HSCAN, as the server returned them, the last with the cursor 0.\<close>

definition submissionsOf :: "judge_env \<Rightarrow> string \<Rightarrow> recorded_sub list" where
  "submissionsOf e ref =
     sort_cmp (\<lambda>a b. of_int (rs_ordinal a - rs_ordinal b))
       (concat (map (\<lambda>reply. map (\<lambda>(f, s). \<lparr>rs_submitter = lower f, rs_ordinal = sr_ordinal s\<rparr>)
          (snd (pageSubmissions reply))) (jx_subs e ref)))"

section \<open>One task\<close>

datatype judge_action = JudgePicked | JudgeVoided

text \<open>The outer \<open>None\<close>: it throws.\<close>

type_synonym judged = "judge_action option option \<times> judge_state"

definition look_again :: "judge_state \<Rightarrow> string \<Rightarrow> int \<Rightarrow> judged" where
  "look_again st ref t = (Some None, st\<lparr>js_open := scheduleJudge (js_open st) ref t\<rparr>)"

definition give_up :: "judge_state \<Rightarrow> string \<Rightarrow> judged" where
  "give_up st ref = (Some None, st\<lparr>js_open := unscheduleJudge (js_open st) ref\<rparr>)"

text \<open>The submissions that have a result, and what is made of the first of them.\<close>

definition with_results :: "judge_env \<Rightarrow> judge_state \<Rightarrow> string \<Rightarrow> (recorded_sub \<times> json) list" where
  "with_results e st ref =
     (let subs = submissionsOf e ref;
          results = getResults (js_open st) (mx_now (jx_mirror e)) ref (map rs_submitter subs)
      in List.map_filter (\<lambda>(s, r). map_option (\<lambda>res. (s, res_data res)) r) (zip subs results))"

definition judged_of :: "judge_env \<Rightarrow> judge_state \<Rightarrow> string \<Rightarrow> task_meta \<Rightarrow> judged_entry list" where
  "judged_of e st ref listing =
     judgeSubmissions (jx_checks e) (take MAX_JUDGED (with_results e st ref))
       (case verificationCriteria listing of Some cr \<Rightarrow> cr | None \<Rightarrow> no_criteria)"

text \<open>The pick or the void: the scorecard is held first, then the transaction is sent.\<close>

definition settle_open_task ::
  "judge_env \<Rightarrow> judge_state \<Rightarrow> string \<Rightarrow> open_record \<Rightarrow> bool \<Rightarrow> int \<Rightarrow> nat \<Rightarrow> nat \<Rightarrow> judged_entry list \<Rightarrow>
   judged_entry option \<Rightarrow> judged" where
  "settle_open_task e st ref rec asBackup count recorded withResult judged winner =
     (let role = (if asBackup then RoleBackup else RoleTaskVerifier);
          card = savePendingScorecard (mx_digest (jx_mirror e)) (js_open st) (mx_now (jx_mirror e)) ref role
            (scorecardOf judged winner role count recorded withResult);
          c = or_chain rec; tid = or_taskId rec;
          tx = (case winner of
              Some w \<Rightarrow>
                if asBackup then SelectWinnerByBackup c tid (je_submitter w) (fst card)
                else SelectWinnerByVerifier c tid (je_submitter w) (fst card)
            | None \<Rightarrow> VoidOpenTask c tid (fst card));
          st1 = st\<lparr>js_open := snd card, js_sent := js_sent st @ [tx]\<rparr>
      in if \<not> jx_mined e tx then (None, st1)
         else (Some (Some (if winner = None then JudgeVoided else JudgePicked)),
               st1\<lparr>js_open := unscheduleJudge (js_open st1) ref\<rparr>))"

text \<open>The platform's turn has come: count, listing and results.\<close>

definition take_turn ::
  "judge_env \<Rightarrow> judge_state \<Rightarrow> string \<Rightarrow> open_record \<Rightarrow> bool \<Rightarrow> int \<Rightarrow> judged" where
  "take_turn e st ref rec asBackup backupStart =
     (let nowSec = jx_nowSec e; c = or_chain rec; tid = or_taskId rec;
          windowEnd = (if asBackup then backupStart + backupSec else backupStart)
      in case mx_count (jx_mirror e) c tid of
           None \<Rightarrow> (None, st)
         | Some count \<Rightarrow>
             if count = 0 then give_up st ref
             else (case listingOf (jx_mirror e) (jx_a2a e) rec of
               None \<Rightarrow> give_up st ref
             | Some listing \<Rightarrow>
                 let recorded = recordedSubmissionCount (js_open st) (mx_now (jx_mirror e)) ref in
                 if int recorded < count \<and> windowEnd - nowSec > LAG_GRACE_SEC
                 then look_again st ref (nowSec + JUDGE_RECHECK_SEC)
                 else
                   let withResult = with_results e st ref; toJudge = take MAX_JUDGED withResult;
                       judged = judged_of e st ref listing; winner = pickWinner judged;
                       unseen = count - int (length toJudge)
                   in if winner = None \<and> \<not> asBackup then look_again st ref (backupStart + SLACK_SEC)
                      else if winner = None \<and> 0 < unseen then
                        (if windowEnd - nowSec > MISSING_RECHECK_SEC
                         then look_again st ref (nowSec + MISSING_RECHECK_SEC)
                         else give_up st ref)
                      else settle_open_task e st ref rec asBackup count recorded (length withResult) judged winner))"

definition judgeOne :: "judge_env \<Rightarrow> judge_state \<Rightarrow> string \<Rightarrow> judged" where
  "judgeOne e st ref =
     (let now = mx_now (jx_mirror e); nowSec = jx_nowSec e; db = js_open st in
      case getRecord db now ref of
        None \<Rightarrow> look_again st ref (nowSec + JUDGE_RECHECK_SEC)
      | Some rec \<Rightarrow>
          let c = or_chain rec; tid = or_taskId rec in
          if getOutcome db now ref \<noteq> None \<or> \<not> onThisNetwork (mx_cfg (jx_mirror e)) rec then give_up st ref
          else (case verifierSignerFor e c of
            None \<Rightarrow> look_again st ref (nowSec + JUDGE_RECHECK_SEC)
          | Some address \<Rightarrow>
              (case jx_openPhase e c tid of
                 None \<Rightarrow> (None, st)
               | Some phase \<Rightarrow>
                   if phase = PHASE_Closed \<or> phase = PHASE_AdminResolve then give_up st ref
                   else (case mx_getTask (jx_mirror e) c tid of
                     None \<Rightarrow> (None, st)
                   | Some t \<Rightarrow>
                       if lower (oc_taskHash t) \<noteq> or_taskHash rec then give_up st ref
                       else (case (jx_effectiveDeadline e c tid, jx_taskVerifier e c tid) of
                         (Some ends, Some judge) \<Rightarrow>
                           let verifierStart = ends + or_creatorWindow rec;
                               backupStart = verifierStart + verifierSec;
                               isTaskJudge = (lower judge = address);
                               asBackup = (phase = PHASE_BackupPick)
                           in if \<not> asBackup \<and> \<not> (phase = PHASE_VerifierPick \<and> isTaskJudge)
                              then look_again st ref
                                (max (if isTaskJudge then verifierStart else backupStart) nowSec + SLACK_SEC)
                              else if asBackup then
                                (case jx_verifier e c of
                                   None \<Rightarrow> (None, st)
                                 | Some v \<Rightarrow>
                                     if lower v \<noteq> address then look_again st ref (nowSec + MISSING_RECHECK_SEC)
                                     else take_turn e st ref rec True backupStart)
                              else take_turn e st ref rec False backupStart
                       | _ \<Rightarrow> (None, st))))))"

section \<open>A pass\<close>

definition ownScopes :: "config \<Rightarrow> string list" where
  "ownScopes cfg = remdups (map (chainScope cfg) SETTLEMENT_CHAIN_KEYS)"

text \<open>One due task; a throw is looked at again later.\<close>

definition judge_due_one :: "judge_env \<Rightarrow> string \<Rightarrow> nat \<times> judge_state \<Rightarrow> nat \<times> judge_state" where
  "judge_due_one e ref acc =
     (case judgeOne e (snd acc) ref of
        (None, st) \<Rightarrow> (fst acc, st\<lparr>js_open := scheduleJudge (js_open st) ref (jx_nowSec e + JUDGE_RECHECK_SEC)\<rparr>)
      | (Some None, st) \<Rightarrow> (fst acc, st)
      | (Some (Some _), st) \<Rightarrow> (fst acc + 1, st))"

definition judge_scope :: "judge_env \<Rightarrow> string \<Rightarrow> nat \<times> judge_state \<Rightarrow> nat \<times> judge_state" where
  "judge_scope e sc acc = fold (judge_due_one e) (dueForJudge (js_open (snd acc)) sc (jx_nowSec e) JUDGE_LIMIT) acc"

definition judgeOpenSubmissions :: "judge_env \<Rightarrow> judge_state \<Rightarrow> string list \<Rightarrow> nat \<times> judge_state" where
  "judgeOpenSubmissions e st scopes =
     (if \<not> jx_enabled e \<or> \<not> backgroundWritesAllowed (jx_process e) \<or> js_inFlight st then (0, st)
      else
        let r = fold (judge_scope e) scopes (0, st\<lparr>js_inFlight := True\<rparr>)
        in (fst r, (snd r)\<lparr>js_inFlight := False\<rparr>))"

text \<open>\<open>pages\<close> are the pages of the SCAN over the record keys.\<close>

definition schedule_existing_one :: "config \<Rightarrow> int \<Rightarrow> string list \<Rightarrow> string \<Rightarrow> nat \<times> open_db \<Rightarrow> nat \<times> open_db" where
  "schedule_existing_one cfg now pending ref acc =
     (if scopeOfRef ref \<notin> set pending then acc
      else (case getRecord (snd acc) now ref of
        None \<Rightarrow> acc
      | Some rec \<Rightarrow>
          if \<not> onThisNetwork cfg rec \<or> getOutcome (snd acc) now ref \<noteq> None then acc
          else (fst acc + 1, scheduleJudgeIfAbsent (snd acc) ref (or_deadline rec))))"

definition scheduleExistingOpenTasks ::
  "config \<Rightarrow> open_db \<Rightarrow> int \<Rightarrow> string list list \<Rightarrow> string list \<Rightarrow> nat \<times> open_db" where
  "scheduleExistingOpenTasks cfg db now pages scopes =
     (let pending = remdups (filter (\<lambda>s. \<not> isJudgeBackfilled db now s) scopes) in
      if pending = [] then (0, db)
      else
        let r = forEachRecordRef (fold (schedule_existing_one cfg now pending)) pages (0, db)
        in (fst r, fold (\<lambda>s d. markJudgeBackfilled d s) pending (snd r)))"

end
