(* ===== verification/OpenJudgeProps.thy ===== *)
theory OpenJudgeProps
  imports OpenJudge OpenEventsProps OpenStoreProps
begin

text \<open>
  What the platform's judge promises: who is paid, what may be refunded, when a transaction is
  sent, and that every look at a task settles when the next one is.
\<close>

section \<open>The order\<close>

type_synonym merit = "bool \<times> bool \<times> rat \<times> int"

definition merit :: "judged_entry \<Rightarrow> merit" where
  "merit e = (\<not> je_passed e, \<not> je_pastFloor e, - je_score e, je_ordinal e)"

lemma better_merit: "better a b \<le> 0 \<longleftrightarrow> merit a \<le> merit b" "better a b < 0 \<longleftrightarrow> merit a < merit b"
  by (cases "je_passed a"; cases "je_passed b"; cases "je_pastFloor a"; cases "je_pastFloor b";
      auto simp: better_def merit_def num_or_def bool_num_def less_eq_prod_def less_prod_def)+

lemma insert_cmp_insort: "(\<And>a b. cmp a b \<le> 0 \<longleftrightarrow> k a \<le> k b) \<Longrightarrow> insert_cmp cmp x xs = insort_key k x xs"
  by (induction xs) simp_all

lemma sort_cmp_sort: "(\<And>a b. cmp a b \<le> 0 \<longleftrightarrow> k a \<le> k b) \<Longrightarrow> sort_cmp cmp xs = sort_key k xs"
proof -
  assume c: "\<And>a b. cmp a b \<le> 0 \<longleftrightarrow> k a \<le> k b"
  have "insert_cmp cmp = insort_key k" by (intro ext insert_cmp_insort) (rule c)
  then show ?thesis by (simp add: sort_cmp_def sort_key_def)
qed

definition card_merit :: "judged_entry \<Rightarrow> bool \<times> bool \<times> merit" where
  "card_merit e = (\<not> je_payable e, \<not> je_attempt e, merit e)"

lemma by_merit_card: "by_merit a b \<le> 0 \<longleftrightarrow> card_merit a \<le> card_merit b"
  by (cases "je_payable a"; cases "je_payable b"; cases "je_attempt a"; cases "je_attempt b";
      simp add: by_merit_def card_merit_def num_or_def bool_num_def better_merit)

section \<open>The winner\<close>

lemma hd_insort: "hd (insort_key k x ys) = (if ys = [] \<or> k x \<le> k (hd ys) then x else hd ys)"
  by (cases ys) simp_all

lemma pick_step_simps:
  "pick_step e None = (if je_payable e then Some e else None)"
  "pick_step e (Some b) = (if je_payable e \<and> merit e < merit b then Some e else Some b)"
  by (simp_all add: pick_step_def better_merit)

lemma pick_fold: "fold pick_step js (Some b) = Some (hd (sort_key merit (b # filter je_payable js)))"
proof (induction js arbitrary: b)
  case (Cons e js)
  let ?s = "sort_key merit (filter je_payable js)"
  show ?case
  proof (cases "je_payable e")
    case True
    show ?thesis
    proof (cases "merit e < merit b")
      case less: True
      have "merit (hd (insort_key merit e ?s)) \<le> merit e" by (auto simp: hd_insort)
      then have "\<not> merit b \<le> merit (hd (insort_key merit e ?s))" using less by simp
      then have "hd (insort_key merit b (insort_key merit e ?s)) = hd (insort_key merit e ?s)"
        by (simp add: hd_insort [of merit b])
      then show ?thesis using True less by (simp add: Cons pick_step_simps)
    next
      case False
      then have "hd (insort_key merit b (insort_key merit e ?s)) = hd (insort_key merit b ?s)"
        by (auto simp: hd_insort)
      then show ?thesis using True False by (simp add: Cons pick_step_simps)
    qed
  qed (simp add: Cons pick_step_simps)
qed simp

lemma pick_eq:
  "pickWinner js = (case filter je_payable js of [] \<Rightarrow> None | ps \<Rightarrow> Some (hd (sort_key merit ps)))"
  unfolding pickWinner_def
proof (induction js)
  case (Cons e js)
  then show ?case using pick_fold [of js e] by (simp add: pick_step_simps)
qed simp

lemma pick_None: "pickWinner js = None \<longleftrightarrow> (\<forall>e \<in> set js. \<not> je_payable e)"
  unfolding pick_eq filter_empty_conv [symmetric] by (simp split: list.split)

lemma pick_Some:
  assumes "pickWinner js = Some w"
  shows "w \<in> set js" "je_payable w" "e \<in> set js \<Longrightarrow> je_payable e \<Longrightarrow> merit w \<le> merit e"
proof -
  obtain p ps where f: "filter je_payable js = p # ps" "w = hd (sort_key merit (p # ps))"
    using assms by (auto simp: pick_eq split: list.splits)
  then obtain ws where s: "sort_key merit (p # ps) = w # ws" by (metis list.collapse sort_key_simps(2) insort_not_Nil)
  then have w: "w \<in> set (filter je_payable js)" using f by (metis list.set_intros(1) set_sort)
  then show "w \<in> set js" "je_payable w" by simp_all
  assume "e \<in> set js" "je_payable e"
  then have "e \<in> set (w # ws)" using f(1) s by (metis (mono_tags, lifting) mem_Collect_eq set_filter set_sort)
  then show "merit w \<le> merit e" using sorted_sort_key [of merit "p # ps"] s by auto
qed

section \<open>The scorecard shows who was paid\<close>

lemma judged_attempt: "e \<in> set (judgeSubmissions k subs cr) \<Longrightarrow> je_payable e \<Longrightarrow> je_attempt e"
  by (auto simp: judgeSubmissions_def judge_submission_def uncheckable_def Let_def split: prod.splits sum.splits option.splits)

lemma insort_front:
  "(\<And>a. a \<in> set A \<Longrightarrow> k x \<le> k a \<longleftrightarrow> l x \<le> l a) \<Longrightarrow> (\<And>b. b \<in> set B \<Longrightarrow> k x \<le> k b) \<Longrightarrow>
   insort_key k x (A @ B) = insort_key l x A @ B"
  by (induction A) (cases B, auto)

lemma insort_back: "(\<And>a. a \<in> set A \<Longrightarrow> \<not> k x \<le> k a) \<Longrightarrow> insort_key k x (A @ B) = A @ insort_key k x B"
  by (induction A) auto

lemma card_order:
  "(\<And>e. e \<in> set js \<Longrightarrow> je_payable e \<Longrightarrow> je_attempt e) \<Longrightarrow>
   sort_key card_merit js = sort_key merit (filter je_payable js) @ sort_key card_merit (filter (\<lambda>x. \<not> je_payable x) js)"
proof (induction js)
  case (Cons e js)
  then have js: "\<And>x. x \<in> set js \<Longrightarrow> je_payable x \<Longrightarrow> je_attempt x" by simp
  let ?A = "sort_key merit (filter je_payable js)" and ?B = "sort_key card_merit (filter (\<lambda>x. \<not> je_payable x) js)"
  have IH: "sort_key card_merit js = ?A @ ?B" by (rule Cons.IH) (rule js)
  have A: "a \<in> set ?A \<Longrightarrow> je_payable a \<and> je_attempt a" for a using js by auto
  show ?case
  proof (cases "je_payable e")
    case True
    then have e: "je_attempt e" using Cons.prems by simp
    have "insort_key card_merit e (?A @ ?B) = insort_key merit e ?A @ ?B"
    proof (rule insort_front)
      fix a assume "a \<in> set ?A"
      from A [OF this] show "card_merit e \<le> card_merit a \<longleftrightarrow> merit e \<le> merit a"
        using True e by (simp add: card_merit_def)
    next
      fix b assume "b \<in> set ?B"
      then show "card_merit e \<le> card_merit b" using True by (simp add: card_merit_def)
    qed
    then show ?thesis using True by (simp add: IH)
  next
    case False
    have "insort_key card_merit e (?A @ ?B) = ?A @ insort_key card_merit e ?B"
    proof (rule insort_back)
      fix a assume "a \<in> set ?A"
      from A [OF this] show "\<not> card_merit e \<le> card_merit a" using False by (simp add: card_merit_def)
    qed
    then show ?thesis using False by (simp add: IH)
  qed
qed simp

text \<open>
  C20. The scorecard ranks the winner first. Of what the platform judged, the submission it pays
  is the first entry of the scorecard it anchors, when that entry can be paid; when the first
  entry cannot be paid, none can, and it pays nobody.
\<close>

theorem winner_tops_the_scorecard:
  "pickWinner (judgeSubmissions k subs cr) =
     (case sort_cmp by_merit (judgeSubmissions k subs cr) of
        [] \<Rightarrow> None | e # _ \<Rightarrow> if je_payable e then Some e else None)"
proof -
  let ?js = "judgeSubmissions k subs cr"
  have s: "sort_cmp by_merit ?js = sort_key card_merit ?js"
    by (rule sort_cmp_sort) (rule by_merit_card)
  have o: "sort_key card_merit ?js =
      sort_key merit (filter je_payable ?js) @ sort_key card_merit (filter (\<lambda>x. \<not> je_payable x) ?js)"
    by (rule card_order) (rule judged_attempt)
  show ?thesis
  proof (cases "filter je_payable ?js")
    case Nil
    then have "\<forall>x \<in> set (sort_key card_merit ?js). \<not> je_payable x" by (simp add: filter_empty_conv)
    then show ?thesis using Nil by (cases "sort_key card_merit ?js") (simp_all add: pick_eq s)
  next
    case (Cons p ps)
    then obtain w ws where w: "sort_key merit (p # ps) = w # ws"
      by (cases "sort_key merit (p # ps)") (auto dest: arg_cong [of _ _ length])
    then have "w \<in> set (filter je_payable ?js)" using Cons by (metis list.set_intros(1) set_sort)
    then have "je_payable w" by simp
    then show ?thesis using w by (simp add: pick_eq s o Cons)
  qed
qed

section \<open>What a look at a task comes to\<close>

lemma option_caseI: "(x = None \<Longrightarrow> P a) \<Longrightarrow> (\<And>y. x = Some y \<Longrightarrow> P (f y)) \<Longrightarrow> P (case x of None \<Rightarrow> a | Some y \<Rightarrow> f y)"
  by (cases x) simp_all

lemma ifI: "(c \<Longrightarrow> P a) \<Longrightarrow> (\<not> c \<Longrightarrow> P b) \<Longrightarrow> P (if c then a else b)"
  by simp

lemma two_options_caseI:
  "(x = None \<Longrightarrow> P a) \<Longrightarrow> (y = None \<Longrightarrow> P a) \<Longrightarrow> (\<And>u v. x = Some u \<Longrightarrow> y = Some v \<Longrightarrow> P (f u v)) \<Longrightarrow>
   P (case (x, y) of (Some u, Some v) \<Rightarrow> f u v | _ \<Rightarrow> a)"
  by (cases x; cases y) simp_all

text \<open>The platform's turn at a task: as its verifier, or as the backup judge.\<close>

definition may_judge :: "judge_env \<Rightarrow> judge_state \<Rightarrow> string \<Rightarrow> open_record \<Rightarrow> bool \<Rightarrow> bool" where
  "may_judge e st ref rec asBackup \<longleftrightarrow>
     getRecord (js_open st) (mx_now (jx_mirror e)) ref = Some rec \<and>
     getOutcome (js_open st) (mx_now (jx_mirror e)) ref = None \<and> onThisNetwork (mx_cfg (jx_mirror e)) rec \<and>
     (\<exists>address t. verifierSignerFor e (or_chain rec) = Some address \<and>
        mx_getTask (jx_mirror e) (or_chain rec) (or_taskId rec) = Some t \<and> lower (oc_taskHash t) = or_taskHash rec \<and>
        (if asBackup
         then jx_openPhase e (or_chain rec) (or_taskId rec) = Some PHASE_BackupPick \<and>
              map_option lower (jx_verifier e (or_chain rec)) = Some address
         else jx_openPhase e (or_chain rec) (or_taskId rec) = Some PHASE_VerifierPick \<and>
              map_option lower (jx_taskVerifier e (or_chain rec) (or_taskId rec)) = Some address))"

definition backup_start :: "judge_env \<Rightarrow> open_record \<Rightarrow> int" where
  "backup_start e rec =
     (case jx_effectiveDeadline e (or_chain rec) (or_taskId rec) of None \<Rightarrow> 0 | Some d \<Rightarrow> d + or_creatorWindow rec + verifierSec)"

lemma judgeOne_rule:
  assumes look: "\<And>t. jx_nowSec e < t \<Longrightarrow> P (look_again st ref t)"
    and give: "P (give_up st ref)" and throw: "P (None, st)"
    and turn: "\<And>rec asBackup. may_judge e st ref rec asBackup \<Longrightarrow> P (take_turn e st ref rec asBackup (backup_start e rec))"
  shows "P (judgeOne e st ref)"
proof -
  have secs: "0 < JUDGE_RECHECK_SEC" "0 < MISSING_RECHECK_SEC" "0 < SLACK_SEC"
    by (simp_all add: JUDGE_RECHECK_SEC_def MISSING_RECHECK_SEC_def SLACK_SEC_def)
  show ?thesis
    unfolding judgeOne_def Let_def
    apply (rule option_caseI)
     apply (rule look, use secs in simp)
    apply (rule ifI, rule give)
    apply (rule option_caseI, rule look, use secs in simp)
    apply (rule option_caseI, rule throw)
    apply (rule ifI, rule give)
    apply (rule option_caseI, rule throw)
    apply (rule ifI, rule give)
    apply (rule two_options_caseI, rule throw, rule throw)
    apply (rule ifI)
     apply (rule look, use secs in linarith)
    apply (rule ifI)
     apply (rule option_caseI, rule throw)
     apply (rule ifI, rule look, use secs in simp)
    subgoal for rec address phase t ends judge v
      using turn [of rec True] by (simp add: may_judge_def backup_start_def)
    subgoal for rec address phase t ends judge
      using turn [of rec False] by (simp add: may_judge_def backup_start_def)
    done
qed

lemma take_turn_rule:
  assumes look: "\<And>t. jx_nowSec e < t \<Longrightarrow> P (look_again st ref t)"
    and give: "P (give_up st ref)" and throw: "P (None, st)"
    and pass: "\<not> asBackup \<Longrightarrow> P (look_again st ref (backupStart + SLACK_SEC))"
    and send: "\<And>count listing recorded n. mx_count (jx_mirror e) (or_chain rec) (or_taskId rec) = Some count \<Longrightarrow>
      listingOf (jx_mirror e) (jx_a2a e) rec = Some listing \<Longrightarrow>
      pickWinner (judged_of e st ref listing) = None \<Longrightarrow> asBackup \<and> count \<le> int (length (judged_of e st ref listing)) \<Longrightarrow>
      P (settle_open_task e st ref rec asBackup count recorded n (judged_of e st ref listing) None)"
    and pick: "\<And>count listing recorded n w. listingOf (jx_mirror e) (jx_a2a e) rec = Some listing \<Longrightarrow>
      pickWinner (judged_of e st ref listing) = Some w \<Longrightarrow>
      P (settle_open_task e st ref rec asBackup count recorded n (judged_of e st ref listing) (Some w))"
  shows "P (take_turn e st ref rec asBackup backupStart)"
proof -
  have secs: "0 < JUDGE_RECHECK_SEC" "0 < MISSING_RECHECK_SEC"
    by (simp_all add: JUDGE_RECHECK_SEC_def MISSING_RECHECK_SEC_def)
  have len: "length (take MAX_JUDGED (with_results e st ref)) = length (judged_of e st ref listing)" for listing
    by (simp add: judged_of_def judgeSubmissions_def)
  show ?thesis
    unfolding take_turn_def Let_def
    apply (rule option_caseI, rule throw)
    apply (rule ifI, rule give)
    apply (rule option_caseI, rule give)
    apply (rule ifI, rule look, use secs in simp)
    apply (rule ifI, rule pass, simp)
    apply (rule ifI, rule ifI, rule look, use secs in simp, rule give)
    subgoal for count listing
      apply (cases "pickWinner (judged_of e st ref listing)")
       apply (use send [of count listing] len [of listing] in simp)
      apply (use pick [of listing] in simp)
      done
    done
qed

section \<open>What is sent\<close>

text \<open>The transactions the rule lets the platform send for a task, on what it has of it.\<close>

inductive lawful_tx :: "judge_env \<Rightarrow> judge_state \<Rightarrow> string \<Rightarrow> judge_tx \<Rightarrow> bool" for e st ref where
  verifier_pick: "may_judge e st ref rec False \<Longrightarrow> listingOf (jx_mirror e) (jx_a2a e) rec = Some listing \<Longrightarrow>
    pickWinner (judged_of e st ref listing) = Some w \<Longrightarrow>
    lawful_tx e st ref (SelectWinnerByVerifier (or_chain rec) (or_taskId rec) (je_submitter w) h)"
| backup_pick: "may_judge e st ref rec True \<Longrightarrow> listingOf (jx_mirror e) (jx_a2a e) rec = Some listing \<Longrightarrow>
    pickWinner (judged_of e st ref listing) = Some w \<Longrightarrow>
    lawful_tx e st ref (SelectWinnerByBackup (or_chain rec) (or_taskId rec) (je_submitter w) h)"
| void: "may_judge e st ref rec True \<Longrightarrow> listingOf (jx_mirror e) (jx_a2a e) rec = Some listing \<Longrightarrow>
    pickWinner (judged_of e st ref listing) = None \<Longrightarrow>
    mx_count (jx_mirror e) (or_chain rec) (or_taskId rec) = Some count \<Longrightarrow>
    count \<le> int (length (judged_of e st ref listing)) \<Longrightarrow>
    lawful_tx e st ref (VoidOpenTask (or_chain rec) (or_taskId rec) h)"

definition sends_lawfully :: "judge_env \<Rightarrow> judge_state \<Rightarrow> string \<Rightarrow> judged \<Rightarrow> bool" where
  "sends_lawfully e st ref r \<longleftrightarrow>
     js_sent (snd r) = js_sent st \<or> (\<exists>tx. js_sent (snd r) = js_sent st @ [tx] \<and> lawful_tx e st ref tx)"

lemma settle_sends:
  "js_sent (snd (settle_open_task e st ref rec asBackup count recorded n judged winner)) =
     js_sent st @ [let h = mx_digest (jx_mirror e) (scorecardOf judged winner
         (if asBackup then RoleBackup else RoleTaskVerifier) count recorded n)
       in case winner of
         Some w \<Rightarrow> if asBackup then SelectWinnerByBackup (or_chain rec) (or_taskId rec) (je_submitter w) h
           else SelectWinnerByVerifier (or_chain rec) (or_taskId rec) (je_submitter w) h
       | None \<Rightarrow> VoidOpenTask (or_chain rec) (or_taskId rec) h]"
  by (cases winner; cases asBackup) (simp_all add: settle_open_task_def savePendingScorecard_def Let_def)

lemma turn_sends:
  assumes "may_judge e st ref rec asBackup"
  shows "sends_lawfully e st ref (take_turn e st ref rec asBackup bs)"
  by (rule take_turn_rule)
    (use assms in \<open>auto simp: sends_lawfully_def look_again_def give_up_def settle_sends Let_def intro: lawful_tx.intros\<close>)

lemma judgeOne_sends: "sends_lawfully e st ref (judgeOne e st ref)"
  by (rule judgeOne_rule) (simp_all add: sends_lawfully_def look_again_def give_up_def turn_sends [unfolded sends_lawfully_def])


lemma real_work_payable:
  assumes "jc_attemptFailure k d = Inr None" "jc_deliverableFloor k d no_criteria = Inr None"
  shows "je_payable (judge_submission k cr (s, d))"
  using assms by (simp add: judge_submission_def uncheckable_def Let_def split: sum.split)

text \<open>
  C19. Real work is not refunded. While one of the submissions the platform judges is an attempt
  and clears the content floor with no criteria at all, no look at its task refunds the poster:
  whatever criteria the poster set, whether they fail it or throw on it.
\<close>

theorem real_work_is_not_refunded:
  assumes "(s, d) \<in> set (take MAX_JUDGED (with_results e st ref))"
    and "jc_attemptFailure (jx_checks e) d = Inr None" "jc_deliverableFloor (jx_checks e) d no_criteria = Inr None"
  shows "VoidOpenTask c tid h \<notin> set (drop (length (js_sent st)) (js_sent (snd (judgeOne e st ref))))"
proof
  assume "VoidOpenTask c tid h \<in> set (drop (length (js_sent st)) (js_sent (snd (judgeOne e st ref))))"
  then have "lawful_tx e st ref (VoidOpenTask c tid h)"
    using judgeOne_sends [of e st ref] by (auto simp: sends_lawfully_def)
  then obtain listing where "pickWinner (judged_of e st ref listing) = None"
    by (cases rule: lawful_tx.cases) simp_all
  then have none: "\<forall>x \<in> set (judged_of e st ref listing). \<not> je_payable x" by (simp add: pick_None)
  let ?cr = "case verificationCriteria listing of Some cr \<Rightarrow> cr | None \<Rightarrow> no_criteria"
  have "judge_submission (jx_checks e) ?cr (s, d) \<in> set (judged_of e st ref listing)"
    unfolding judged_of_def judgeSubmissions_def using assms(1) by simp
  with none real_work_payable [OF assms(2,3)] show False by blast
qed

section \<open>The next look\<close>

definition next_look_ok :: "judge_env \<Rightarrow> string \<Rightarrow> nat \<times> judge_state \<Rightarrow> bool" where
  "next_look_ok e ref r \<longleftrightarrow>
     (case zscore (o_judge_due (js_open (snd r)) (scopeOfRef ref)) ref of None \<Rightarrow> True | Some t \<Rightarrow> jx_nowSec e < t)"

definition after_look :: "judge_env \<Rightarrow> string \<Rightarrow> nat \<Rightarrow> judged \<Rightarrow> nat \<times> judge_state" where
  "after_look e ref n r =
     (case r of
        (None, st) \<Rightarrow> (n, st\<lparr>js_open := scheduleJudge (js_open st) ref (jx_nowSec e + JUDGE_RECHECK_SEC)\<rparr>)
      | (Some None, st) \<Rightarrow> (n, st)
      | (Some (Some _), st) \<Rightarrow> (n + 1, st))"

lemma judge_due_one_after: "judge_due_one e ref acc = after_look e ref (fst acc) (judgeOne e (snd acc) ref)"
  by (simp add: judge_due_one_def after_look_def)

lemma scheduled_ok:
  "zset_ok (o_judge_due db (scopeOfRef ref)) \<Longrightarrow>
   zscore (o_judge_due (scheduleJudge db ref t) (scopeOfRef ref)) ref = Some t"
  "zset_ok (o_judge_due db (scopeOfRef ref)) \<Longrightarrow>
   zscore (o_judge_due (unscheduleJudge db ref) (scopeOfRef ref)) ref = None"
  by (simp_all add: scheduleJudge_def unscheduleJudge_def redis_simps Let_def)

lemma looked_ok:
  assumes "zset_ok (o_judge_due (js_open st) (scopeOfRef ref))"
  shows "jx_nowSec e < t \<Longrightarrow> next_look_ok e ref (after_look e ref n (look_again st ref t))"
    "next_look_ok e ref (after_look e ref n (give_up st ref))"
    "next_look_ok e ref (after_look e ref n (None, st))"
  using assms
  by (simp_all add: next_look_ok_def after_look_def look_again_def give_up_def scheduled_ok JUDGE_RECHECK_SEC_def)

lemma settled_ok:
  assumes "zset_ok (o_judge_due (js_open st) (scopeOfRef ref))"
  shows "next_look_ok e ref (after_look e ref n (settle_open_task e st ref rec b count recorded m judged w))"
proof -
  have "o_judge_due (snd (savePendingScorecard dg (js_open st) now ref role card)) = o_judge_due (js_open st)" for dg now role card
    by (simp add: savePendingScorecard_def)
  then show ?thesis
    using assms by (simp add: settle_open_task_def next_look_ok_def after_look_def scheduled_ok JUDGE_RECHECK_SEC_def Let_def)
qed

text \<open>
  C21. A look settles the next look. Whatever happens to a due task, a pick, a refund, a throw
  or a wait, it is afterwards off the judge's queue or due later than now, so no tick looks at it
  again before its time; as long as the server's clock is not more than \<open>SLACK_SEC\<close> ahead of the
  chain's when the task verifier's turn ends.
\<close>

theorem look_settles_the_next_look:
  assumes ok: "zset_ok (o_judge_due (js_open (snd acc)) (scopeOfRef ref))"
    and clock: "\<And>rec. may_judge e (snd acc) ref rec False \<Longrightarrow> jx_nowSec e < backup_start e rec + SLACK_SEC"
  shows "case zscore (o_judge_due (js_open (snd (judge_due_one e ref acc))) (scopeOfRef ref)) ref of
      None \<Rightarrow> True | Some t \<Rightarrow> jx_nowSec e < t"
proof -
  let ?P = "\<lambda>r. next_look_ok e ref (after_look e ref (fst acc) r)"
  note looked = looked_ok [OF ok]
  have "?P (judgeOne e (snd acc) ref)"
  proof (rule judgeOne_rule [where P = ?P], erule looked, rule looked, rule looked)
    fix rec asBackup
    assume turn: "may_judge e (snd acc) ref rec asBackup"
    show "?P (take_turn e (snd acc) ref rec asBackup (backup_start e rec))"
      by (rule take_turn_rule [where P = ?P], erule looked, rule looked, rule looked)
        (use turn clock in \<open>auto intro: looked settled_ok [OF ok]\<close>)
  qed
  then show ?thesis by (simp add: judge_due_one_after next_look_ok_def)
qed

section \<open>An example\<close>

text \<open>One submission with a result, in the backup judge's turn; the poster's criteria throw on it.\<close>

definition throwing_checks :: judge_checks where
  "throwing_checks =
     \<lparr>jc_attemptFailure = (\<lambda>_. Inr None), jc_deliverableFloor = (\<lambda>_ _. Inr None), jc_autoVerify = (\<lambda>_ _. Inl ''regex'')\<rparr>"

definition backup_turn :: judge_env where
  "backup_turn =
     \<lparr>jx_mirror = sample_mirror_env, jx_a2a = mr_a2a listed_mirror,
      jx_signer = (\<lambda>_. \<lparr>sg_escrow = True, sg_marketplace = Some ''0xV''\<rparr>),
      jx_openPhase = (\<lambda>_ _. Some PHASE_BackupPick), jx_effectiveDeadline = (\<lambda>_ _. Some 500),
      jx_taskVerifier = (\<lambda>_ _. Some ''0xV''), jx_verifier = (\<lambda>_. Some ''0xV''),
      jx_subs = (\<lambda>_. [(''0'', [(''0xB'', Some \<lparr>sr_evidenceHash = ''0xe'', sr_ordinal = 1, sr_txHash = None,
        sr_recordedAt = ''t''\<rparr>)])]),
      jx_checks = throwing_checks, jx_mined = (\<lambda>_. True), jx_enabled = True, jx_process = started\<rparr>"

definition one_result :: judge_state where
  "one_result =
     \<lparr>js_open = empty_open_db\<lparr>o_results := [''r'' \<mapsto> ([''0xb'' \<mapsto> \<lparr>res_data = JStr ''done'', res_evidenceHash = ''0xe'',
        res_rootHash = None, res_tee = None, res_savedAt = ''t''\<rparr>], None)]\<rparr>, js_sent = [], js_inFlight = False\<rparr>"

lemma one_with_result:
  "with_results backup_turn one_result ''r'' = [(\<lparr>rs_submitter = ''0xb'', rs_ordinal = 1\<rparr>, JStr ''done'')]"
  by (simp add: with_results_def submissionsOf_def backup_turn_def pageSubmissions_def sort_cmp_def getResults_def
      one_result_def hash_get_def kv_get_def lower_eval List.map_filter_def Let_def)

theorem real_work_is_not_refunded_witness:
  "VoidOpenTask Arc ''7'' ''0xd'' \<notin> set (drop (length (js_sent one_result)) (js_sent (snd (judgeOne backup_turn one_result ''r''))))"
proof -
  have k: "jx_checks backup_turn = throwing_checks" by (simp add: backup_turn_def)
  show ?thesis
  proof (rule real_work_is_not_refunded)
    show "(\<lparr>rs_submitter = ''0xb'', rs_ordinal = 1\<rparr>, JStr ''done'') \<in> set (take MAX_JUDGED (with_results backup_turn one_result ''r''))"
      unfolding one_with_result by (simp add: MAX_JUDGED_def)
  qed (simp_all add: k throwing_checks_def)
qed

theorem look_settles_the_next_look_witness:
  "case zscore (o_judge_due (js_open (snd (judge_due_one backup_turn ''r'' (0, one_result)))) (scopeOfRef ''r'')) ''r'' of
     None \<Rightarrow> True | Some t \<Rightarrow> 600 < t"
proof -
  have now: "jx_nowSec backup_turn = 600"
    by (simp add: jx_nowSec_def backup_turn_def sample_mirror_env_def)
  have "\<not> may_judge backup_turn (snd (0, one_result)) ''r'' rec False" for rec
    by (simp add: may_judge_def backup_turn_def PHASE_BackupPick_def PHASE_VerifierPick_def)
  moreover have "zset_ok (o_judge_due (js_open (snd (0, one_result))) (scopeOfRef ''r''))"
    by (simp add: one_result_def empty_open_db_def)
  ultimately show ?thesis
    using look_settles_the_next_look [of "(0, one_result)" "''r''" backup_turn] unfolding now by blast
qed

end
