(* ===== verification/DisputeListener.thy ===== *)
theory DisputeListener
  imports OpenEvents Settlement
begin

text \<open>
  \<open>services/disputeListener.ts\<close> with the keys of \<open>services/disputeKeys.ts\<close>, and
  \<open>services/refundedTasks.ts\<close>: what a ruling on a dispute, and a cancel, become in the off-chain
  accounting. Redis answers; the escrow, the hosted agents and the calls of the payout may fail.
\<close>

section \<open>State\<close>

definition ZERO_HASH :: string where "ZERO_HASH = ''0x'' @ replicate 64 (CHR ''0'')"

definition PARK_MIN_ATTEMPTS :: int where "PARK_MIN_ATTEMPTS = 10"
definition PARK_MIN_FAILING_MS :: int where "PARK_MIN_FAILING_MS = 5 * 60000"
definition PARKED_RETRY_MS :: int where "PARKED_RETRY_MS = 10 * 60000"
definition ATTEMPTS_TTL_SECONDS :: int where "ATTEMPTS_TTL_SECONDS = 24 * 60 * 60"
definition DONE_TTL_SECONDS :: int where "DONE_TTL_SECONDS = 30 * 24 * 60 * 60"

record parked_dispute =
  pk_workerFavored :: bool
  pk_attempts :: int
  pk_firstFailedAt :: string
  pk_parkedAt :: string
  pk_error :: string
  pk_retries :: int
  pk_lastTriedAt :: "string option"

record failing =
  at_count :: int
  at_firstAt :: int

text \<open>
  The families \<open>dispute-attempts\<close> and \<open>dispute-done\<close> are keyed by the chain's scope and the task's
  id, the hash \<open>dispute-parked\<close> by the scope: its fields, in some order, each with the entry it
  parses to.
\<close>

record ruled =
  ru_mirror :: mirror
  ru_attempts :: "failing kv"
  ru_done :: "unit kv"
  ru_parked :: "string \<Rightarrow> (string \<times> parked_dispute option) list"
  ru_recorded :: "string kv"
  ru_lastRetry :: "chain_key \<Rightarrow> int option"

record ruling_env =
  rn_mirror :: mirror_env
  rn_dispute :: dispute_io
  rn_stamps :: "nat \<Rightarrow> stamp"
  rn_iso :: "int \<Rightarrow> string"
  rn_error :: string

definition rn_now :: "ruling_env \<Rightarrow> int" where
  "rn_now e = mx_now (rn_mirror e)"

definition dispute_key :: "ruling_env \<Rightarrow> chain_key \<Rightarrow> string \<Rightarrow> string" where
  "dispute_key e c tid = chainScope (mx_cfg (rn_mirror e)) c @ '':'' @ tid"

definition parked_at :: "ruling_env \<Rightarrow> ruled \<Rightarrow> chain_key \<Rightarrow> (string \<times> parked_dispute option) list" where
  "parked_at e st c = ru_parked st (chainScope (mx_cfg (rn_mirror e)) c)"

definition hset :: "(string \<times> 'v) list \<Rightarrow> string \<Rightarrow> 'v \<Rightarrow> (string \<times> 'v) list" where
  "hset h f v = (if f \<in> fst ` set h then map (\<lambda>p. if fst p = f then (f, v) else p) h else h @ [(f, v)])"

definition put_parked :: "ruling_env \<Rightarrow> ruled \<Rightarrow> chain_key \<Rightarrow> (string \<times> parked_dispute option) list \<Rightarrow> ruled" where
  "put_parked e st c h = st\<lparr>ru_parked := (ru_parked st)(chainScope (mx_cfg (rn_mirror e)) c := h)\<rparr>"

definition parkedDisputeCount :: "ruling_env \<Rightarrow> ruled \<Rightarrow> chain_key \<Rightarrow> nat" where
  "parkedDisputeCount e st c = length (parked_at e st c)"

definition markDone :: "ruling_env \<Rightarrow> ruled \<Rightarrow> chain_key \<Rightarrow> string \<Rightarrow> ruled" where
  "markDone e st c tid =
     st\<lparr>ru_done := kv_setex (rn_now e) (ru_done st) (dispute_key e c tid) DONE_TTL_SECONDS (),
        ru_attempts := kv_del (ru_attempts st) (dispute_key e c tid)\<rparr>"

section \<open>A ruling\<close>

definition with_mirror :: "ruled \<Rightarrow> mirror \<Rightarrow> ruled" where
  "with_mirror st m = st\<lparr>ru_mirror := m\<rparr>"

text \<open>The payout, or the dispute, of the task's worker; \<open>Some\<close> is what it throws.\<close>

definition account_ruling ::
  "ruling_env \<Rightarrow> ruled \<Rightarrow> chain_key \<Rightarrow> string \<Rightarrow> bool \<Rightarrow> onchain_task \<Rightarrow> string \<Rightarrow> string \<Rightarrow> string option \<times> ruled" where
  "account_ruling e st c tid favored t hash executor =
     (let m = ru_mirror st; cfg = mx_cfg (rn_mirror e) in
      if favored then
        let p = recordWorkerPayout cfg (mr_pay m) (rn_now e) (mx_payout (rn_mirror e)) hash executor tid (oc_amount t)
              (c, oc_token t) \<lparr>op_rethrow = True, op_serviceId = None, op_computeCost = None\<rparr>
        in (if fst p then Some (rn_error e) else None, with_mirror st (m\<lparr>mr_pay := snd p\<rparr>))
      else
        let r = kv_setnx (rn_now e) (ru_recorded st) hash None (lower executor); st1 = st\<lparr>ru_recorded := snd r\<rparr> in
        if \<not> fst r then (None, st1)
        else
          let d = recordWorkerDispute cfg (mr_pay m) (rn_now e) (rn_dispute e) hash executor
                \<lparr>fr_chain = c, fr_taskId = tid, fr_attempt = Ruling\<rparr> True;
              st2 = with_mirror st1 (m\<lparr>mr_pay := snd d\<rparr>)
          in if fst d = None then (Some (rn_error e), st2\<lparr>ru_recorded := kv_del (ru_recorded st2) hash\<rparr>)
             else (None, st2))"

text \<open>The alert, and the state closed; a task with no A2A state is left.\<close>

definition close_ruled :: "ruling_env \<Rightarrow> mirror \<Rightarrow> bool \<Rightarrow> string \<Rightarrow> mirror" where
  "close_ruled e m favored hash =
     (let n = notifyLifecycle (mr_a2a m) (mr_notifs m) (rn_now e) hash (if favored then EvCompleted else EvDisputed) (rn_stamps e)
      in case updateState (mr_a2a m) hash [PStatus (if favored then Verified else Failed)] of
           Inl _ \<Rightarrow> m\<lparr>mr_notifs := n\<rparr>
         | Inr r \<Rightarrow> m\<lparr>mr_notifs := n, mr_a2a := snd r\<rparr>)"

text \<open>Whether the task the hash names off-chain is this one.\<close>

definition ruling_applies :: "ruling_env \<Rightarrow> a2a_db \<Rightarrow> chain_key \<Rightarrow> string \<Rightarrow> onchain_task \<Rightarrow> string \<Rightarrow> bool" where
  "ruling_applies e a2a c tid t hash \<longleftrightarrow>
     (case getMeta a2a hash of
        None \<Rightarrow> True
      | Some m \<Rightarrow>
          (case Option.bind (chain m) (\<lambda>x. truthy (Some x)) of None \<Rightarrow> True | Some x \<Rightarrow> x = chain_name c) \<and>
          isListedTask (mx_cfg (rn_mirror e)) (mx_baseEscrow (rn_mirror e)) (mx_index (rn_mirror e)) a2a c tid hash
            (oc_agent t) (posterAddress m))"

definition processDisputeResolved ::
  "ruling_env \<Rightarrow> ruled \<Rightarrow> chain_key \<Rightarrow> string \<Rightarrow> bool \<Rightarrow> string option \<times> ruled" where
  "processDisputeResolved e st c tid favored =
     (case mx_getTask (rn_mirror e) c tid of
        None \<Rightarrow> (Some (rn_error e), st)
      | Some t \<Rightarrow>
          let hash = lower (oc_taskHash t); worker = oc_worker t;
              hasWorker = (worker \<noteq> [] \<and> lower worker \<noteq> ZERO_ADDRESS) in
          if hash = ZERO_HASH then (None, st)
          else if oc_status t = EsDisputed
          then (Some ''the task still reads as Disputed; the RPC node may be behind the ruling'', st)
          else if oc_status t \<noteq> (if favored then EsCompleted else EsCancelled) then (None, st)
          else if \<not> ruling_applies e (mr_a2a (ru_mirror st)) c tid t hash then (None, st)
          else
            let accounted =
              (if \<not> hasWorker then (None, st)
               else case executorFor (mx_hosted (rn_mirror e)) worker of
                 None \<Rightarrow> (Some (rn_error e), st)
               | Some x \<Rightarrow> account_ruling e st c tid favored t hash x)
            in case accounted of
                 (Some err, st1) \<Rightarrow> (Some err, st1)
               | (None, st1) \<Rightarrow> (None, with_mirror st1 (close_ruled e (ru_mirror st1) favored hash)))"

section \<open>Retrying and parking\<close>

text \<open>The failures of an event so far, with this one.\<close>

definition count_failure :: "ruling_env \<Rightarrow> ruled \<Rightarrow> chain_key \<Rightarrow> string \<Rightarrow> failing \<times> ruled" where
  "count_failure e st c tid =
     (let k = dispute_key e c tid; now = rn_now e;
          a = (case kv_get now (ru_attempts st) k of
                 None \<Rightarrow> \<lparr>at_count = 1, at_firstAt = now\<rparr> | Some a \<Rightarrow> a\<lparr>at_count := at_count a + 1\<rparr>)
      in (a, st\<lparr>ru_attempts := kv_setex now (ru_attempts st) k ATTEMPTS_TTL_SECONDS a\<rparr>))"

text \<open>The flag: it returns, so the caller moves on; else it throws and the event is retried.\<close>

definition handleDisputeResolved :: "ruling_env \<Rightarrow> ruled \<Rightarrow> chain_key \<Rightarrow> string \<Rightarrow> bool \<Rightarrow> bool \<times> ruled" where
  "handleDisputeResolved e st c tid favored =
     (let k = dispute_key e c tid; now = rn_now e in
      if kv_get now (ru_done st) k \<noteq> None \<or> tid \<in> fst ` set (parked_at e st c) then (True, st)
      else case processDisputeResolved e st c tid favored of
        (None, st1) \<Rightarrow> (True, markDone e st1 c tid)
      | (Some err, st1) \<Rightarrow>
          let f = count_failure e st1 c tid; a = fst f; st2 = snd f;
              firstAt = (if 0 < at_firstAt a then at_firstAt a else now)
          in if at_count a < PARK_MIN_ATTEMPTS \<or> now - firstAt < PARK_MIN_FAILING_MS then (False, st2)
             else
               let p = \<lparr>pk_workerFavored = favored, pk_attempts = at_count a, pk_firstFailedAt = rn_iso e firstAt,
                     pk_parkedAt = rn_iso e now, pk_error = err, pk_retries = 0, pk_lastTriedAt = None\<rparr>;
                   st3 = put_parked e st2 c (hset (parked_at e st2 c) tid (Some p))
               in (True, st3\<lparr>ru_attempts := kv_del (ru_attempts st3) k\<rparr>))"

definition retry_parked_one :: "ruling_env \<Rightarrow> chain_key \<Rightarrow> string \<times> parked_dispute option \<Rightarrow> ruled \<Rightarrow> ruled" where
  "retry_parked_one e c entry st =
     (case snd entry of
        None \<Rightarrow> st
      | Some p \<Rightarrow>
          let tid = fst entry; gone = (\<lambda>s. put_parked e s c (filter (\<lambda>x. fst x \<noteq> tid) (parked_at e s c))) in
          if kv_get (rn_now e) (ru_done st) (dispute_key e c tid) \<noteq> None then gone st
          else (case processDisputeResolved e st c tid (pk_workerFavored p) of
            (None, st1) \<Rightarrow> gone (markDone e st1 c tid)
          | (Some err, st1) \<Rightarrow>
              put_parked e st1 c (hset (parked_at e st1 c) tid
                (Some (p\<lparr>pk_retries := pk_retries p + 1, pk_error := err, pk_lastTriedAt := Some (rn_iso e (rn_now e))\<rparr>)))))"

definition retryParkedDisputes :: "ruling_env \<Rightarrow> ruled \<Rightarrow> chain_key \<Rightarrow> ruled" where
  "retryParkedDisputes e st c =
     (if (case ru_lastRetry st c of None \<Rightarrow> False | Some t \<Rightarrow> rn_now e - t < PARKED_RETRY_MS) then st
      else fold (retry_parked_one e c) (parked_at e st c) (st\<lparr>ru_lastRetry := (ru_lastRetry st)(c := Some (rn_now e))\<rparr>))"

section \<open>A cancel\<close>

text \<open>\<open>None\<close> is a throw; else whether this call closed the state.\<close>

definition closeRefundedA2ATask ::
  "mirror_env \<Rightarrow> a2a_db \<Rightarrow> chain_key \<Rightarrow> string \<Rightarrow> string \<Rightarrow> string \<Rightarrow> close_reason \<Rightarrow> bool \<times> a2a_db" where
  "closeRefundedA2ATask e db c tid taskHash poster settled =
     (if taskHash = [] \<or> getState db taskHash = None then (False, db)
      else
        let posterMatches = (map_option lower (Option.bind (getMeta db taskHash) posterAddress) = Some (lower poster));
            sameEscrowTask = (case resolveCachedTaskByHash (mx_cfg e) (mx_baseEscrow e) (mx_index e) db taskHash of
              None \<Rightarrow> True | Some r \<Rightarrow> rt_chain r = c \<and> rt_taskId r = tid)
        in if \<not> posterMatches \<or> \<not> sameEscrowTask then (False, db)
           else
             let r = tryCloseOnChainTerminal db taskHash settled in
             (case fst r of
                Won _ \<Rightarrow> (True, clearCascade (clearOffer (snd r) taskHash) taskHash)
              | _ \<Rightarrow> (False, snd r)))"

definition handleTaskCancelled :: "mirror_env \<Rightarrow> a2a_db \<Rightarrow> chain_key \<Rightarrow> string \<Rightarrow> bool option \<times> a2a_db" where
  "handleTaskCancelled e db c tid =
     (case mx_getTask e c tid of
        None \<Rightarrow> (None, db)
      | Some t \<Rightarrow>
          if oc_worker t \<noteq> [] \<and> oc_worker t \<noteq> ZERO_ADDRESS then (Some False, db)
          else
            let r = closeRefundedA2ATask e db c tid (lower (oc_taskHash t)) (oc_agent t) ClosedCancelled
            in (Some (fst r), snd r))"

end
