(* ===== verification/DisputeListenerProps.thy ===== *)
theory DisputeListenerProps
  imports DisputeListener OpenEventsProps
begin

text \<open>
  What the mirror of a ruling promises: it reaches only the task it is about, and it holds the
  indexer back until it has failed often and for long.
\<close>

section \<open>What a ruling reaches\<close>

lemma updateState_only:
  assumes "updateState db (lower h) patch = Inr (s, db')"
  shows "only_state_of (lower h) db db'"
  using assms
  by (auto simp: updateState_def find_state_def put_state_def only_state_of_def fun_eq_iff Let_def split: option.splits if_splits)

lemma close_ruled_only:
  "only_state_of (lower h) (mr_a2a m) (mr_a2a (close_ruled e m favored (lower h)))"
  "mr_pay (close_ruled e m favored (lower h)) = mr_pay m" "mr_open (close_ruled e m favored (lower h)) = mr_open m"
  by (auto simp: close_ruled_def Let_def only_state_of_def split: sum.split dest: updateState_only)

text \<open>A change of the accounts of one executor, and of one task's credit.\<close>

definition only_executor_of :: "string \<Rightarrow> pay_db \<Rightarrow> pay_db \<Rightarrow> bool" where
  "only_executor_of x db db' \<longleftrightarrow> pd_executors db' = (pd_executors db)(x := pd_executors db' x)"

lemma payout_only_executor:
  "only_executor_of (lower x) db (snd (recordWorkerPayout cfg db now io h x oid g st opts))"
  using payout_all_or_nothing [of db cfg now io h x oid g st opts]
  by (auto simp: only_executor_of_def same_credits_def credit_applied_def)

lemma dispute_only_executor:
  "only_executor_of (lower x) db (snd (recordWorkerDispute cfg db now dio h x r re))"
  "pd_credited (snd (recordWorkerDispute cfg db now dio h x r re)) = pd_credited db"
  using dispute_executors [of cfg db now dio h x r re]
  by (auto simp: only_executor_of_def docked_def adjustReputation_def fun_eq_iff split: option.splits)

definition ruling_reaches :: "ruling_env \<Rightarrow> ruled \<Rightarrow> ruled \<Rightarrow> chain_key \<Rightarrow> string \<Rightarrow> bool \<Rightarrow> bool" where
  "ruling_reaches e st st' c tid favored \<longleftrightarrow>
     (\<exists>t. mx_getTask (rn_mirror e) c tid = Some t \<and> oc_status t = (if favored then EsCompleted else EsCancelled) \<and>
        ruling_applies e (mr_a2a (ru_mirror st)) c tid t (lower (oc_taskHash t)) \<and>
        only_state_of (lower (oc_taskHash t)) (mr_a2a (ru_mirror st)) (mr_a2a (ru_mirror st')) \<and>
        mr_open (ru_mirror st') = mr_open (ru_mirror st) \<and>
        (mr_pay (ru_mirror st') = mr_pay (ru_mirror st) \<or>
         (\<exists>x. executorFor (mx_hosted (rn_mirror e)) (oc_worker t) = Some x \<and>
            only_executor_of (lower x) (mr_pay (ru_mirror st)) (mr_pay (ru_mirror st')) \<and>
            (if favored
             then only_credit_of (lower (oc_taskHash t)) (chain_name c, lower x) (mr_pay (ru_mirror st)) (mr_pay (ru_mirror st'))
             else pd_credited (mr_pay (ru_mirror st')) = pd_credited (mr_pay (ru_mirror st))))))"

lemma with_mirror_sel [simp]:
  "ru_mirror (with_mirror st m) = m" "ru_attempts (with_mirror st m) = ru_attempts st" "ru_done (with_mirror st m) = ru_done st"
  "ru_parked (with_mirror st m) = ru_parked st"
  by (simp_all add: with_mirror_def)

lemma account_frame:
  "ru_attempts (snd (account_ruling e st c tid favored t h x)) = ru_attempts st"
  "ru_done (snd (account_ruling e st c tid favored t h x)) = ru_done st"
  "ru_parked (snd (account_ruling e st c tid favored t h x)) = ru_parked st"
  "mr_a2a (ru_mirror (snd (account_ruling e st c tid favored t h x))) = mr_a2a (ru_mirror st)"
  "mr_open (ru_mirror (snd (account_ruling e st c tid favored t h x))) = mr_open (ru_mirror st)"
  by (simp_all add: account_ruling_def Let_def)

lemma account_pays:
  "only_executor_of (lower x) (mr_pay (ru_mirror st)) (mr_pay (ru_mirror (snd (account_ruling e st c tid favored t h x))))"
  "if favored
   then only_credit_of (lower h) (chain_name c, lower x) (mr_pay (ru_mirror st))
     (mr_pay (ru_mirror (snd (account_ruling e st c tid favored t h x))))
   else pd_credited (mr_pay (ru_mirror (snd (account_ruling e st c tid favored t h x)))) = pd_credited (mr_pay (ru_mirror st))"
  using payout_only [of h "(c, oc_token t)" x] payout_only_executor dispute_only_executor
  by (cases favored; simp add: account_ruling_def Let_def only_executor_of_def)+

text \<open>A ruling that does something is about this task, and its worker is accounted for first.\<close>

lemma process_cases:
  assumes same: "\<And>err. P (err, st)"
    and act: "\<And>t err st1. mx_getTask (rn_mirror e) c tid = Some t \<Longrightarrow>
      oc_status t = (if favored then EsCompleted else EsCancelled) \<Longrightarrow>
      ruling_applies e (mr_a2a (ru_mirror st)) c tid t (lower (oc_taskHash t)) \<Longrightarrow>
      st1 = st \<or> (\<exists>x. executorFor (mx_hosted (rn_mirror e)) (oc_worker t) = Some x \<and>
        st1 = snd (account_ruling e st c tid favored t (lower (oc_taskHash t)) x)) \<Longrightarrow>
      P (Some err, st1) \<and> P (None, with_mirror st1 (close_ruled e (ru_mirror st1) favored (lower (oc_taskHash t))))"
  shows "P (processDisputeResolved e st c tid favored)"
proof (cases "mx_getTask (rn_mirror e) c tid")
  case None
  then show ?thesis by (simp add: processDisputeResolved_def same)
next
  case (Some t)
  let ?h = "lower (oc_taskHash t)"
  let ?go = "?h \<noteq> ZERO_HASH \<and> oc_status t = (if favored then EsCompleted else EsCancelled) \<and>
    ruling_applies e (mr_a2a (ru_mirror st)) c tid t ?h"
  show ?thesis
  proof (cases ?go)
    case False
    then show ?thesis by (auto simp: processDisputeResolved_def Some same Let_def)
  next
    case True
    note act = act [OF Some]
    let ?acc = "if \<not> (oc_worker t \<noteq> [] \<and> lower (oc_worker t) \<noteq> ZERO_ADDRESS) then (None, st)
      else case executorFor (mx_hosted (rn_mirror e)) (oc_worker t) of None \<Rightarrow> (Some (rn_error e), st)
        | Some x \<Rightarrow> account_ruling e st c tid favored t ?h x"
    have acc: "snd ?acc = st \<or> (\<exists>x. executorFor (mx_hosted (rn_mirror e)) (oc_worker t) = Some x \<and>
        snd ?acc = snd (account_ruling e st c tid favored t ?h x))"
      by (auto split: option.split)
    have "processDisputeResolved e st c tid favored =
        (case ?acc of (Some err, st1) \<Rightarrow> (Some err, st1)
         | (None, st1) \<Rightarrow> (None, with_mirror st1 (close_ruled e (ru_mirror st1) favored ?h)))"
      using True by (simp add: processDisputeResolved_def Some Let_def)
    then show ?thesis using act [OF _ _ acc] True by (cases ?acc) (simp split: option.split)
  qed
qed

lemma acted_reaches:
  assumes t: "mx_getTask (rn_mirror e) c tid = Some t" "oc_status t = (if favored then EsCompleted else EsCancelled)"
      "ruling_applies e (mr_a2a (ru_mirror st)) c tid t (lower (oc_taskHash t))"
    and st1: "st1 = st \<or> (\<exists>x. executorFor (mx_hosted (rn_mirror e)) (oc_worker t) = Some x \<and>
      st1 = snd (account_ruling e st c tid favored t (lower (oc_taskHash t)) x))"
  shows "ruling_reaches e st st1 c tid favored"
    "ruling_reaches e st (with_mirror st1 (close_ruled e (ru_mirror st1) favored (lower (oc_taskHash t)))) c tid favored"
proof -
  let ?h = "lower (oc_taskHash t)"
  let ?pays = "\<lambda>p. p = mr_pay (ru_mirror st) \<or>
    (\<exists>x. executorFor (mx_hosted (rn_mirror e)) (oc_worker t) = Some x \<and> only_executor_of (lower x) (mr_pay (ru_mirror st)) p \<and>
      (if favored then only_credit_of ?h (chain_name c, lower x) (mr_pay (ru_mirror st)) p
       else pd_credited p = pd_credited (mr_pay (ru_mirror st))))"
  have same: "mr_a2a (ru_mirror st1) = mr_a2a (ru_mirror st)" "mr_open (ru_mirror st1) = mr_open (ru_mirror st)"
    using st1 by (auto simp: account_frame)
  have pays: "?pays (mr_pay (ru_mirror st1))"
    using st1
  proof (elim disjE exE conjE)
    fix x assume x: "executorFor (mx_hosted (rn_mirror e)) (oc_worker t) = Some x" "st1 = snd (account_ruling e st c tid favored t ?h x)"
    note a = account_pays [where x = x and st = st and e = e and c = c and tid = tid and favored = favored and t = t and h = ?h]
    show ?thesis
      unfolding x(2) using x(1) a(1) a(2) [unfolded lower_idem] by (intro disjI2 exI [of _ x] conjI)
  qed simp
  have only: "only_state_of ?h (mr_a2a (ru_mirror st)) (mr_a2a (ru_mirror st1))" by (simp add: only_state_of_def same)
  show "ruling_reaches e st st1 c tid favored"
    unfolding ruling_reaches_def using t pays only same(2) by blast
  have "only_state_of ?h (mr_a2a (ru_mirror st)) (mr_a2a (close_ruled e (ru_mirror st1) favored ?h))"
    using close_ruled_only(1) [of "?h" "ru_mirror st1" e favored] unfolding lower_idem same .
  then show "ruling_reaches e st (with_mirror st1 (close_ruled e (ru_mirror st1) favored ?h)) c tid favored"
    unfolding ruling_reaches_def using t pays close_ruled_only(2,3) [of e "ru_mirror st1" favored "oc_taskHash t"] same(2)
    by auto
qed

lemma process_reaches:
  "ru_mirror (snd (processDisputeResolved e st c tid favored)) = ru_mirror st \<or>
   ruling_reaches e st (snd (processDisputeResolved e st c tid favored)) c tid favored"
  by (rule process_cases) (auto dest: acted_reaches)

lemma process_frame:
  "ru_attempts (snd (processDisputeResolved e st c tid favored)) = ru_attempts st \<and>
   ru_done (snd (processDisputeResolved e st c tid favored)) = ru_done st \<and>
   ru_parked (snd (processDisputeResolved e st c tid favored)) = ru_parked st"
  by (rule process_cases) (auto simp: account_frame)

lemma reaches_cong:
  "ru_mirror st2 = ru_mirror st1 \<Longrightarrow> ruling_reaches e st st2 c tid favored = ruling_reaches e st st1 c tid favored"
  by (simp add: ruling_reaches_def)

lemma handle_mirror:
  "ru_mirror (snd (handleDisputeResolved e st c tid favored)) = ru_mirror st \<or>
   ru_mirror (snd (handleDisputeResolved e st c tid favored)) = ru_mirror (snd (processDisputeResolved e st c tid favored))"
  by (cases "processDisputeResolved e st c tid favored")
    (simp add: handleDisputeResolved_def markDone_def count_failure_def put_parked_def Let_def split: option.split)


section \<open>Giving up on a ruling\<close>

text \<open>Tries of one event that all failed, in order.\<close>

inductive tries :: "chain_key \<Rightarrow> string \<Rightarrow> bool \<Rightarrow> ruled \<Rightarrow> ruling_env list \<Rightarrow> ruled \<Rightarrow> bool" for c tid favored st where
  none: "tries c tid favored st [] st"
| again: "tries c tid favored st es st1 \<Longrightarrow> handleDisputeResolved e st1 c tid favored = (False, st2) \<Longrightarrow>
    tries c tid favored st (es @ [e]) st2"

definition counted :: "string \<Rightarrow> ruling_env list \<Rightarrow> ruled \<Rightarrow> bool" where
  "counted k es st \<longleftrightarrow>
     (\<forall>a x. ru_attempts st k = Some (a, x) \<longrightarrow> es \<noteq> [] \<and> at_count a \<le> int (length es) \<and> rn_now (hd es) \<le> at_firstAt a)"

lemma count_failure_counted:
  assumes c: "counted (dispute_key e ch tid) es st" and t: "es \<noteq> [] \<Longrightarrow> rn_now (hd es) \<le> rn_now e"
  shows "counted (dispute_key e ch tid) (es @ [e]) (snd (count_failure e st ch tid))"
    "at_count (fst (count_failure e st ch tid)) \<le> int (length es) + 1"
    "rn_now (hd (es @ [e])) \<le> at_firstAt (fst (count_failure e st ch tid))"
proof -
  let ?k = "dispute_key e ch tid"
  have "at_count (fst (count_failure e st ch tid)) \<le> int (length es) + 1 \<and>
      rn_now (hd (es @ [e])) \<le> at_firstAt (fst (count_failure e st ch tid))"
  proof (cases "kv_get (rn_now e) (ru_attempts st) ?k")
    case None
    then show ?thesis using t by (cases es) (simp_all add: count_failure_def Let_def)
  next
    case (Some a)
    then obtain x where "ru_attempts st ?k = Some (a, x)" by (auto simp: kv_get_def split: option.splits if_splits)
    then show ?thesis using Some c by (cases es) (simp_all add: counted_def count_failure_def Let_def)
  qed
  then show "counted ?k (es @ [e]) (snd (count_failure e st ch tid))"
    "at_count (fst (count_failure e st ch tid)) \<le> int (length es) + 1"
    "rn_now (hd (es @ [e])) \<le> at_firstAt (fst (count_failure e st ch tid))"
    by (simp_all add: counted_def count_failure_def kv_setex_def Let_def)
qed

lemma failed_try:
  assumes "handleDisputeResolved e st c tid favored = (False, st2)"
  obtains st1 where "ru_attempts st1 = ru_attempts st" "st2 = snd (count_failure e st1 c tid)"
proof -
  obtain err st1 where p: "processDisputeResolved e st c tid favored = (err, st1)"
    by (cases "processDisputeResolved e st c tid favored")
  have "ru_attempts st1 = ru_attempts st" using process_frame [of e st c tid favored] p by simp
  moreover have "st2 = snd (count_failure e st1 c tid)"
    using assms by (cases err) (auto simp: handleDisputeResolved_def p Let_def split: if_splits)
  ultimately show ?thesis by (rule that)
qed

lemma tries_counted:
  assumes "tries c tid favored st es st1" "ru_attempts st k = None"
    and "\<forall>e \<in> set es. dispute_key e c tid = k" "sorted (map rn_now es)"
  shows "counted k es st1"
  using assms
proof (induction rule: tries.induct)
  case none
  then show ?case by (simp add: counted_def)
next
  case (again es st1 e st2)
  have k: "dispute_key e c tid = k" using again.prems by simp
  have c1: "counted k es st1" using again by (simp add: sorted_append)
  obtain st' where st': "ru_attempts st' = ru_attempts st1" "st2 = snd (count_failure e st' c tid)"
    using failed_try [OF again.hyps(2)] .
  have "counted (dispute_key e c tid) es st'" using c1 by (simp add: counted_def st'(1) k)
  moreover have "es \<noteq> [] \<Longrightarrow> rn_now (hd es) \<le> rn_now e" using again.prems(3) by (cases es) (auto simp: sorted_append)
  ultimately show ?case unfolding st'(2) k [symmetric] by (rule count_failure_counted(1))
qed

lemma parking_try:
  assumes "handleDisputeResolved e st c tid favored = (True, st2)" "tid \<notin> fst ` set (parked_at e st c)"
    and "tid \<in> fst ` set (parked_at e st2 c)"
  obtains st1 where "ru_attempts st1 = ru_attempts st" "PARK_MIN_ATTEMPTS \<le> at_count (fst (count_failure e st1 c tid))"
    "PARK_MIN_FAILING_MS \<le> rn_now e -
       (if 0 < at_firstAt (fst (count_failure e st1 c tid)) then at_firstAt (fst (count_failure e st1 c tid)) else rn_now e)"
proof -
  obtain err st1 where p: "processDisputeResolved e st c tid favored = (err, st1)"
    by (cases "processDisputeResolved e st c tid favored")
  have f: "ru_attempts st1 = ru_attempts st" "ru_parked st1 = ru_parked st"
    using process_frame [of e st c tid favored] p by simp_all
  have new: "parked_at e st2 c \<noteq> parked_at e st c" using assms(2,3) by metis
  have open_yet: "kv_get (rn_now e) (ru_done st) (dispute_key e c tid) = None"
  proof (rule ccontr)
    assume "kv_get (rn_now e) (ru_done st) (dispute_key e c tid) \<noteq> None"
    then have "st2 = st" using assms(1) by (simp add: handleDisputeResolved_def)
    with new show False by simp
  qed
  show ?thesis
  proof (cases err)
    case None
    then have "st2 = markDone e st1 c tid"
      using assms(1,2) open_yet by (simp add: handleDisputeResolved_def p Let_def)
    then show ?thesis using new f(2) by (simp add: markDone_def parked_at_def)
  next
    case (Some msg)
    let ?a = "fst (count_failure e st1 c tid)"
    have "\<not> (at_count ?a < PARK_MIN_ATTEMPTS \<or>
        rn_now e - (if 0 < at_firstAt ?a then at_firstAt ?a else rn_now e) < PARK_MIN_FAILING_MS)"
      using assms(1,2) open_yet by (simp add: handleDisputeResolved_def p Some Let_def split: if_splits)
    then show ?thesis by (intro that [OF f(1)]) simp_all
  qed
qed


section \<open>An example\<close>

text \<open>An escrow that cannot be read, tried once a minute.\<close>

definition failing_env :: "nat \<Rightarrow> ruling_env" where
  "failing_env i =
     \<lparr>rn_mirror = sample_mirror_env\<lparr>mx_getTask := (\<lambda>_ _. None), mx_now := int i * 60000\<rparr>,
      rn_dispute = \<lparr>do_claim = Answers, do_reputation = Answers, do_history = Answers, do_event = Answers, do_giveBack = Answers\<rparr>,
      rn_stamps = (\<lambda>_. (''i'', ''t'')), rn_iso = (\<lambda>_. ''t''), rn_error = ''timeout''\<rparr>"

definition unruled :: ruled where
  "unruled = \<lparr>ru_mirror = listed_mirror, ru_attempts = Map.empty, ru_done = Map.empty, ru_parked = (\<lambda>_. []),
     ru_recorded = Map.empty, ru_lastRetry = (\<lambda>_. None)\<rparr>"

definition failing_key :: string where
  "failing_key = dispute_key (failing_env 0) Arc ''7''"

definition failed_times :: "nat \<Rightarrow> ruled" where
  "failed_times n =
     (if n = 0 then unruled
      else unruled\<lparr>ru_attempts := [failing_key \<mapsto>
        (\<lparr>at_count = int n, at_firstAt = 60000\<rparr>, Some (int n * 60000 + 1000 * ATTEMPTS_TTL_SECONDS))]\<rparr>)"

lemma failing_sel [simp]:
  "rn_now (failing_env i) = int i * 60000" "dispute_key (failing_env i) Arc ''7'' = failing_key"
  "mx_getTask (rn_mirror (failing_env i)) c tid = None" "rn_error (failing_env i) = ''timeout''"
  by (simp_all add: failing_env_def rn_now_def dispute_key_def failing_key_def)

lemma failed_sel [simp]:
  "ru_done (failed_times n) = Map.empty" "ru_parked (failed_times n) = (\<lambda>_. [])" "parked_at e (failed_times n) c = []"
  by (simp_all add: failed_times_def unruled_def parked_at_def)

lemma failing_process: "processDisputeResolved (failing_env i) st c tid favored = (Some ''timeout'', st)"
  by (simp add: processDisputeResolved_def)

lemma failing_count:
  "count_failure (failing_env (Suc n)) (failed_times n) Arc ''7'' =
     (\<lparr>at_count = int (Suc n), at_firstAt = 60000\<rparr>, failed_times (Suc n))"
  by (simp add: count_failure_def failed_times_def unruled_def kv_get_def kv_setex_def ATTEMPTS_TTL_SECONDS_def
      add.commute Let_def)

lemma failing_handle:
  "n < 9 \<Longrightarrow> handleDisputeResolved (failing_env (Suc n)) (failed_times n) Arc ''7'' True = (False, failed_times (Suc n))"
  by (simp add: handleDisputeResolved_def failing_process failing_count kv_get_def PARK_MIN_ATTEMPTS_def Let_def
      del: of_nat_Suc)

lemma failing_tries: "n \<le> 9 \<Longrightarrow> tries Arc ''7'' True unruled (map failing_env [1..<Suc n]) (failed_times n)"
proof (induction n)
  case 0
  then show ?case by (simp add: failed_times_def tries.none)
next
  case (Suc n)
  then have "tries Arc ''7'' True unruled (map failing_env [1..<Suc n]) (failed_times n)" "n < 9" by simp_all
  from tries.again [OF this(1) failing_handle [OF this(2)]]
  show ?case by simp
qed


end
