(* ===== verification/Indexer.thy ===== *)
theory Indexer
  imports DisputeListener
begin

text \<open>
  \<open>services/arcEscrowEvents.ts\<close> and \<open>services/baseEscrowEvents.ts\<close>: the scans of the escrow's logs
  that fill the index of task hashes and deliver rulings, cancels and open-submission events, each
  behind its own checkpoint. One process's passes, one after the other; Redis answers; a log query
  answers, finds its range pruned, or fails. The index a pass has filled is the one its handlers
  resolve hashes with.
\<close>

section \<open>State\<close>

record scan_db =
  sc_hash2id :: "string \<rightharpoonup> string"
  sc_id2hash :: "string \<rightharpoonup> string"
  sc_checkpoint :: "int option"
  sc_dispute :: "int option"
  sc_cancel :: "int option"
  sc_open :: "int option"

text \<open>One chain's index, what the process remembers of it, and what the events are mirrored into.\<close>

record indexer =
  ix_db :: scan_db
  ix_seeded :: bool
  ix_lost :: bool
  ix_followUps :: bool
  ix_ruled :: ruled

datatype 'a logs = Logs 'a | Pruned | QueryFailed

text \<open>A \<open>TaskCreated\<close> log's id and hash, where its arguments have them; other logs alike.\<close>

type_synonym created_log = "(string option \<times> string option) option"

record open_log =
  lg_block :: "int option"
  lg_event :: "open_event option"

record scan_env =
  sx_ruling :: ruling_env
  sx_configured :: bool
  sx_writes :: bool
  sx_fingerprint :: bool
  sx_latest :: "int option"
  sx_deployment :: int
  sx_archive :: bool
  sx_created :: "bool \<Rightarrow> int \<Rightarrow> int \<Rightarrow> created_log list logs"
  sx_disputes :: "bool \<Rightarrow> int \<Rightarrow> int \<Rightarrow> (string \<times> bool) option list logs"
  sx_releases :: "bool \<Rightarrow> int \<Rightarrow> int \<Rightarrow> string option list logs"
  sx_cancels :: "bool \<Rightarrow> int \<Rightarrow> int \<Rightarrow> string option list logs"
  sx_opens :: "bool \<Rightarrow> int \<Rightarrow> int \<Rightarrow> open_log list logs"
  sx_openEnabled :: bool
  sx_over :: "nat \<Rightarrow> bool"

definition MAX_BLOCKS_PER_TICK :: int where "MAX_BLOCKS_PER_TICK = 500"
definition DISPUTE_CONFIRMATIONS :: int where "DISPUTE_CONFIRMATIONS = 5"

text \<open>The primary RPC, or the archive when the primary has pruned the range; \<open>None\<close> is a throw.\<close>

definition queryArcEscrowLogs :: "scan_env \<Rightarrow> (bool \<Rightarrow> int \<Rightarrow> int \<Rightarrow> 'a list logs) \<Rightarrow> int \<Rightarrow> int \<Rightarrow> 'a list option" where
  "queryArcEscrowLogs e q from_block to_block =
     (if \<not> sx_configured e then Some []
      else case q False from_block to_block of
        Logs xs \<Rightarrow> Some xs
      | QueryFailed \<Rightarrow> None
      | Pruned \<Rightarrow>
          if \<not> sx_archive e then None
          else (case q True from_block to_block of Logs xs \<Rightarrow> Some xs | _ \<Rightarrow> None))"

definition queryFilter :: "(bool \<Rightarrow> int \<Rightarrow> int \<Rightarrow> 'a list logs) \<Rightarrow> int \<Rightarrow> int \<Rightarrow> 'a list option" where
  "queryFilter q from_block to_block = (case q False from_block to_block of Logs xs \<Rightarrow> Some xs | _ \<Rightarrow> None)"

definition deploymentBlock :: "scan_env \<Rightarrow> int" where
  "deploymentBlock e =
     (if \<bar>sx_deployment e\<bar> \<le> 2 ^ 53 - 1 \<and> 0 < sx_deployment e then sx_deployment e else 0)"

section \<open>The index\<close>

definition getTaskIdByHash :: "scan_db \<Rightarrow> string \<Rightarrow> string option" where
  "getTaskIdByHash db taskHash = sc_hash2id db (lower taskHash)"

definition getTaskHashById :: "scan_db \<Rightarrow> string \<Rightarrow> string option" where
  "getTaskHashById db tid = sc_id2hash db tid"

definition seedTaskIdMapping :: "scan_db \<Rightarrow> string \<Rightarrow> string \<Rightarrow> scan_db" where
  "seedTaskIdMapping db taskHash tid =
     db\<lparr>sc_hash2id := (sc_hash2id db)(lower taskHash \<mapsto> tid), sc_id2hash := (sc_id2hash db)(tid \<mapsto> lower taskHash)\<rparr>"

text \<open>SET with NX on a checkpoint.\<close>

definition set_nx :: "int option \<Rightarrow> int \<Rightarrow> int option" where
  "set_nx old v = (case old of None \<Rightarrow> Some v | Some _ \<Rightarrow> old)"

definition index_created_one :: "created_log \<Rightarrow> scan_db \<Rightarrow> scan_db" where
  "index_created_one ev db =
     (case ev of
        Some (Some tid, Some h) \<Rightarrow>
          if h = [] then db
          else db\<lparr>sc_hash2id := (if sc_hash2id db (lower h) = None then (sc_hash2id db)(lower h \<mapsto> tid) else sc_hash2id db),
                  sc_id2hash := (sc_id2hash db)(tid \<mapsto> lower h)\<rparr>
      | _ \<Rightarrow> db)"

definition indexTaskCreated :: "scan_env \<Rightarrow> (int \<Rightarrow> int \<Rightarrow> created_log list option) \<Rightarrow> indexer \<Rightarrow> int option \<times> indexer" where
  "indexTaskCreated e query st =
     (if \<not> sx_fingerprint e then (None, st)
      else case sx_latest e of
        None \<Rightarrow> (None, st)
      | Some latest \<Rightarrow>
          let db = ix_db st;
              from_block = (case sc_checkpoint db of
                  Some k \<Rightarrow> k + 1
                | None \<Rightarrow> if 0 < deploymentBlock e then min (deploymentBlock e) latest else latest);
              db1 = (case sc_checkpoint db of
                  Some _ \<Rightarrow> db
                | None \<Rightarrow> db\<lparr>sc_dispute := set_nx (sc_dispute db) latest, sc_checkpoint := Some (from_block - 1)\<rparr>);
              st1 = (if ix_seeded st then st\<lparr>ix_db := db1\<rparr>
                else st\<lparr>ix_db := db1\<lparr>sc_dispute := set_nx (sc_dispute db1) (if ix_lost st then latest else from_block - 1)\<rparr>,
                        ix_seeded := True, ix_lost := False\<rparr>)
          in if latest < from_block then (Some (from_block - 1), st1)
             else
               let to_block = min latest (from_block + MAX_BLOCKS_PER_TICK - 1) in
               (case query from_block to_block of
                  None \<Rightarrow> (None, st1)
                | Some events \<Rightarrow>
                    (Some to_block,
                     st1\<lparr>ix_db := (fold index_created_one events (ix_db st1))\<lparr>sc_checkpoint := Some to_block\<rparr>\<rparr>)))"

definition indexOnce :: "scan_env \<Rightarrow> (int \<Rightarrow> int \<Rightarrow> created_log list option) \<Rightarrow> indexer \<Rightarrow> int option \<times> indexer" where
  "indexOnce e query st = (if sx_writes e \<and> sx_configured e then indexTaskCreated e query st else (None, st))"

section \<open>What the handlers see\<close>

text \<open>The index as the resolution of hashes reads it, on this chain.\<close>

definition scanned_index :: "mirror_env \<Rightarrow> chain_key \<Rightarrow> scan_db \<Rightarrow> mirror_env" where
  "scanned_index e c db =
     e\<lparr>mx_index := (mx_index e)(c := (mx_index e c)\<lparr>ti_cached := getTaskIdByHash db\<rparr>)\<rparr>"

definition scan_ruling :: "scan_env \<Rightarrow> chain_key \<Rightarrow> scan_db \<Rightarrow> ruling_env" where
  "scan_ruling e c db = (sx_ruling e)\<lparr>rn_mirror := scanned_index (rn_mirror (sx_ruling e)) c db\<rparr>"

section \<open>Rulings\<close>

text \<open>Each in turn, up to the first that throws.\<close>

fun handle_rulings :: "ruling_env \<Rightarrow> chain_key \<Rightarrow> (string \<times> bool) option list \<Rightarrow> ruled \<Rightarrow> bool \<times> ruled" where
  "handle_rulings e c [] st = (True, st)"
| "handle_rulings e c (None # evs) st = handle_rulings e c evs st"
| "handle_rulings e c (Some (tid, favored) # evs) st =
     (case handleDisputeResolved e st c tid favored of
        (False, st1) \<Rightarrow> (False, st1)
      | (True, st1) \<Rightarrow> handle_rulings e c evs st1)"

definition as_rulings :: "string option list \<Rightarrow> (string \<times> bool) option list" where
  "as_rulings = map (map_option (\<lambda>tid. (tid, True)))"

definition scan_rulings ::
  "scan_env \<Rightarrow> chain_key \<Rightarrow> indexer \<Rightarrow> (string \<times> bool) option list option \<Rightarrow> string option list option \<Rightarrow> int \<Rightarrow> indexer" where
  "scan_rulings e c st events releases to_block =
     (case (events, releases) of
        (Some xs, Some ys) \<Rightarrow>
          let r = handle_rulings (scan_ruling e c (ix_db st)) c (xs @ as_rulings ys) (ix_ruled st);
              st1 = st\<lparr>ix_ruled := snd r\<rparr>
          in if fst r then st1\<lparr>ix_db := (ix_db st1)\<lparr>sc_dispute := Some to_block\<rparr>\<rparr> else st1
      | _ \<Rightarrow> st)"

definition arc_indexDisputes :: "scan_env \<Rightarrow> int \<Rightarrow> indexer \<Rightarrow> indexer" where
  "arc_indexDisputes e indexedTo st =
     (if \<not> sx_configured e then st
      else
        let from_block = (case sc_dispute (ix_db st) of Some k \<Rightarrow> k + 1 | None \<Rightarrow> indexedTo);
            to_block = min (indexedTo - DISPUTE_CONFIRMATIONS) (from_block + MAX_BLOCKS_PER_TICK - 1)
        in if to_block < from_block then st
           else scan_rulings e Arc st (queryArcEscrowLogs e (sx_disputes e) from_block to_block)
             (queryArcEscrowLogs e (sx_releases e) from_block to_block) to_block)"

definition base_indexDisputes :: "scan_env \<Rightarrow> int \<Rightarrow> indexer \<Rightarrow> indexer" where
  "base_indexDisputes e indexedTo st =
     (if \<not> sx_configured e then st
      else case sc_dispute (ix_db st) of
        None \<Rightarrow> st\<lparr>ix_seeded := False, ix_lost := True\<rparr>
      | Some k \<Rightarrow>
          let from_block = k + 1; upTo = indexedTo - DISPUTE_CONFIRMATIONS in
          if upTo < from_block then st
          else
            let to_block = min upTo (from_block + MAX_BLOCKS_PER_TICK - 1) in
            scan_rulings e Base st (queryFilter (sx_disputes e) from_block to_block)
              (queryFilter (sx_releases e) from_block to_block) to_block)"

section \<open>Cancels\<close>

fun handle_cancels :: "mirror_env \<Rightarrow> chain_key \<Rightarrow> string option list \<Rightarrow> a2a_db \<Rightarrow> bool \<times> a2a_db" where
  "handle_cancels e c [] db = (True, db)"
| "handle_cancels e c (None # evs) db = handle_cancels e c evs db"
| "handle_cancels e c (Some tid # evs) db =
     (case handleTaskCancelled e db c tid of
        (None, db1) \<Rightarrow> (False, db1)
      | (Some _, db1) \<Rightarrow> handle_cancels e c evs db1)"

definition put_mirror :: "indexer \<Rightarrow> mirror \<Rightarrow> indexer" where
  "put_mirror st m = st\<lparr>ix_ruled := (ix_ruled st)\<lparr>ru_mirror := m\<rparr>\<rparr>"

definition indexCancels :: "scan_env \<Rightarrow> int \<Rightarrow> indexer \<Rightarrow> indexer" where
  "indexCancels e indexedTo st =
     (if \<not> sx_configured e then st
      else
        let from_block = (case sc_cancel (ix_db st) of Some k \<Rightarrow> k + 1 | None \<Rightarrow> indexedTo);
            to_block = min indexedTo (from_block + MAX_BLOCKS_PER_TICK - 1)
        in if to_block < from_block then st
           else case queryArcEscrowLogs e (sx_cancels e) from_block to_block of
             None \<Rightarrow> st
           | Some events \<Rightarrow>
               let m = ru_mirror (ix_ruled st);
                   r = handle_cancels (rn_mirror (scan_ruling e Arc (ix_db st))) Arc events (mr_a2a m);
                   st1 = put_mirror st (m\<lparr>mr_a2a := snd r\<rparr>)
               in if fst r then st1\<lparr>ix_db := (ix_db st1)\<lparr>sc_cancel := Some to_block\<rparr>\<rparr> else st1)"

section \<open>Open-submission events\<close>

text \<open>How the loop over a range's events ends: through, out of time, or at a failed event.\<close>

datatype scan_end = ScannedAll | OutOfTime int | FailedEvent "int option"

fun open_scan ::
  "mirror_env \<Rightarrow> (nat \<Rightarrow> bool) \<Rightarrow> chain_key \<Rightarrow> int \<Rightarrow> nat \<Rightarrow> int \<Rightarrow> open_log list \<Rightarrow> mirror \<Rightarrow> scan_end \<times> mirror" where
  "open_scan e over c from_block i block [] m = (ScannedAll, m)"
| "open_scan e over c from_block i block (ev # evs) m =
     (let newer = (case lg_block ev of None \<Rightarrow> False | Some b \<Rightarrow> block < b);
          block' = (if newer then the (lg_block ev) else block) in
      if newer \<and> over i then (OutOfTime (block' - 1), m)
      else case lg_event ev of
        None \<Rightarrow> open_scan e over c from_block (i + 1) block' evs m
      | Some oe \<Rightarrow>
          (case handleOpenEvent e m c oe of
             (False, m1) \<Rightarrow> (FailedEvent (if from_block \<le> block' - 1 then Some (block' - 1) else None), m1)
           | (True, m1) \<Rightarrow> open_scan e over c from_block (i + 1) block' evs m1))"

definition indexOpenSubmissions :: "scan_env \<Rightarrow> int \<Rightarrow> indexer \<Rightarrow> indexer" where
  "indexOpenSubmissions e indexedTo st =
     (if \<not> sx_configured e \<or> \<not> sx_openEnabled e then st
      else
        let from_block = (case sc_open (ix_db st) of Some k \<Rightarrow> k + 1 | None \<Rightarrow> indexedTo);
            to_block = min indexedTo (from_block + MAX_BLOCKS_PER_TICK - 1)
        in if to_block < from_block then st
           else case queryArcEscrowLogs e (sx_opens e) from_block to_block of
             None \<Rightarrow> st
           | Some events \<Rightarrow>
               let r = open_scan (rn_mirror (scan_ruling e Arc (ix_db st))) (sx_over e) Arc from_block 0 (from_block - 1) events
                     (ru_mirror (ix_ruled st));
                   st1 = put_mirror st (snd r);
                   moved = (\<lambda>k. st1\<lparr>ix_db := (ix_db st1)\<lparr>sc_open := Some k\<rparr>\<rparr>)
               in (case fst r of
                     ScannedAll \<Rightarrow> moved to_block
                   | OutOfTime k \<Rightarrow> moved k
                   | FailedEvent (Some k) \<Rightarrow> moved k
                   | FailedEvent None \<Rightarrow> st1))"

section \<open>The polls\<close>

definition retry_parked :: "scan_env \<Rightarrow> chain_key \<Rightarrow> indexer \<Rightarrow> indexer" where
  "retry_parked e c st = st\<lparr>ix_ruled := retryParkedDisputes (scan_ruling e c (ix_db st)) (ix_ruled st) c\<rparr>"

definition pollArcEscrowOnce :: "scan_env \<Rightarrow> indexer \<Rightarrow> indexer" where
  "pollArcEscrowOnce e st =
     (case indexOnce e (queryArcEscrowLogs e (sx_created e)) st of
        (None, st1) \<Rightarrow> st1
      | (Some indexedTo, st1) \<Rightarrow>
          if ix_followUps st1 then st1
          else indexOpenSubmissions e indexedTo (indexCancels e indexedTo (retry_parked e Arc (arc_indexDisputes e indexedTo st1))))"

definition pollBaseEscrowOnce :: "scan_env \<Rightarrow> indexer \<Rightarrow> indexer" where
  "pollBaseEscrowOnce e st =
     (case indexOnce e (queryFilter (sx_created e)) st of
        (None, st1) \<Rightarrow> st1
      | (Some indexedTo, st1) \<Rightarrow>
          if ix_followUps st1 then st1 else retry_parked e Base (base_indexDisputes e indexedTo st1))"

end
