(* ===== verification/IndexerProps.thy ===== *)
theory IndexerProps
  imports Indexer DisputeListenerProps
begin

text \<open>
  What the scans promise: the index names the first task created under a hash, and no checkpoint
  passes an event that was not handled.
\<close>

section \<open>The first task of a hash\<close>

text \<open>A chain's \<open>TaskCreated\<close> logs, each with its block, in order; a query answers with a range of them.\<close>

type_synonym chain_log = "(int \<times> created_log) list"

definition logs_in :: "chain_log \<Rightarrow> int \<Rightarrow> int \<Rightarrow> created_log list" where
  "logs_in L a b = map snd (filter (\<lambda>p. a \<le> fst p \<and> fst p \<le> b) L)"

definition names :: "string \<Rightarrow> created_log \<Rightarrow> string option" where
  "names h ev =
     (case ev of Some (Some tid, Some k) \<Rightarrow> if k \<noteq> [] \<and> lower k = lower h then Some tid else None | _ \<Rightarrow> None)"

definition first_created :: "created_log list \<Rightarrow> string \<Rightarrow> string option" where
  "first_created evs h = (case List.map_filter (names h) evs of [] \<Rightarrow> None | tid # _ \<Rightarrow> Some tid)"

lemma index_one_hash:
  "sc_hash2id (index_created_one ev db) (lower h) =
     (case sc_hash2id db (lower h) of Some i \<Rightarrow> Some i | None \<Rightarrow> names h ev)"
  by (auto simp: index_created_one_def names_def split: option.splits prod.splits)

lemma index_all_hash:
  "sc_hash2id (fold index_created_one evs db) (lower h) =
     (case sc_hash2id db (lower h) of Some i \<Rightarrow> Some i | None \<Rightarrow> first_created evs h)"
proof (induction evs arbitrary: db)
  case (Cons ev evs)
  then show ?case
    by (simp add: index_one_hash first_created_def List.map_filter_simps split: option.split)
qed (simp add: first_created_def List.map_filter_simps split: option.split)

lemma first_created_append:
  "first_created (xs @ ys) h = (case first_created xs h of Some i \<Rightarrow> Some i | None \<Rightarrow> first_created ys h)"
  by (induction xs) (simp_all add: first_created_def List.map_filter_simps split: option.split)

lemma logs_split:
  assumes "sorted (map fst L)" "a \<le> b + 1" "b \<le> d"
  shows "logs_in L a d = logs_in L a b @ logs_in L (b + 1) d"
  using assms(1)
proof (induction L)
  case (Cons p L)
  have "logs_in L a b = []" if "b < fst p"
    using Cons.prems that by (force simp: logs_in_def filter_empty_conv)
  then show ?case using Cons assms(2,3) by (auto simp: logs_in_def)
qed (simp add: logs_in_def)

definition index_same :: "scan_db \<Rightarrow> scan_db \<Rightarrow> bool" where
  "index_same db db' \<longleftrightarrow> sc_hash2id db' = sc_hash2id db \<and> sc_checkpoint db' = sc_checkpoint db"

lemma index_same_refl [simp]: "index_same db db"
  by (simp add: index_same_def)

lemma put_mirror_sel [simp]:
  "ix_db (put_mirror st m) = ix_db st" "ix_seeded (put_mirror st m) = ix_seeded st" "ix_lost (put_mirror st m) = ix_lost st"
  "ix_ruled (put_mirror st m) = (ix_ruled st)\<lparr>ru_mirror := m\<rparr>"
  by (simp_all add: put_mirror_def)

lemma scan_rulings_same: "index_same (ix_db st) (ix_db (scan_rulings e c st xs ys t))"
  by (simp add: scan_rulings_def index_same_def Let_def split: option.split)

lemma arc_disputes_same: "index_same (ix_db st) (ix_db (arc_indexDisputes e k st))"
  using scan_rulings_same by (simp add: arc_indexDisputes_def Let_def)

lemma cancels_same: "index_same (ix_db st) (ix_db (indexCancels e k st))"
  by (simp add: indexCancels_def index_same_def Let_def split: option.split)

lemma opens_same: "index_same (ix_db st) (ix_db (indexOpenSubmissions e k st))"
  by (simp add: indexOpenSubmissions_def index_same_def Let_def split: option.split scan_end.split)

lemma retry_same [simp]: "ix_db (retry_parked e c st) = ix_db st"
  by (simp add: retry_parked_def)

lemma index_same_trans: "index_same a b \<Longrightarrow> index_same b c \<Longrightarrow> index_same a c"
  by (simp add: index_same_def)

lemma poll_same:
  "index_same (ix_db (snd (indexOnce e (queryArcEscrowLogs e (sx_created e)) st))) (ix_db (pollArcEscrowOnce e st))"
  using arc_disputes_same cancels_same opens_same
  by (auto simp: pollArcEscrowOnce_def split: prod.split option.split intro: index_same_trans)
    (metis index_same_trans retry_same)

definition reads_log :: "chain_log \<Rightarrow> int \<Rightarrow> scan_env \<Rightarrow> bool" where
  "reads_log L d e \<longleftrightarrow> deploymentBlock e = d \<and>
     (\<forall>a b xs. queryArcEscrowLogs e (sx_created e) a b = Some xs \<longrightarrow> xs = logs_in L a b)"

text \<open>The index of a deployment that started empty: nothing yet, or the first tasks up to the checkpoint.\<close>

definition indexed :: "chain_log \<Rightarrow> int \<Rightarrow> scan_db \<Rightarrow> bool" where
  "indexed L d db \<longleftrightarrow>
     (case sc_checkpoint db of
        None \<Rightarrow> sc_hash2id db = Map.empty
      | Some k \<Rightarrow> \<exists>c. c < d \<and> c \<le> k \<and> (\<forall>h. sc_hash2id db (lower h) = first_created (logs_in L (c + 1) k) h))"

lemma indexed_same: "index_same db db' \<Longrightarrow> indexed L d db' = indexed L d db"
  unfolding indexed_def index_same_def by (erule conjE) (simp only:)

lemma logs_empty [simp]: "b < a \<Longrightarrow> logs_in L a b = []"
  by (auto simp: logs_in_def filter_empty_conv)

lemma first_created_Nil [simp]: "first_created [] h = None"
  by (simp add: first_created_def List.map_filter_simps)

lemma indexed_start:
  fixes db e d latest
  defines "from_block \<equiv> (case sc_checkpoint db of Some k \<Rightarrow> k + 1
      | None \<Rightarrow> if 0 < deploymentBlock e then min (deploymentBlock e) latest else latest)"
  assumes "indexed L d db" "0 < d" "deploymentBlock e = d"
  shows "\<exists>c. c < d \<and> c < from_block \<and> (\<forall>h. sc_hash2id db (lower h) = first_created (logs_in L (c + 1) (from_block - 1)) h)"
proof (cases "sc_checkpoint db")
  case None
  then show ?thesis using assms by (intro exI [of _ "from_block - 1"]) (simp add: indexed_def min_def)
next
  case (Some k)
  then show ?thesis using assms by (auto simp: indexed_def)
qed

lemma indexed_tick:
  assumes ix: "indexed L d (ix_db st)" and d: "0 < d" and reads: "reads_log L d e" and sorted: "sorted (map fst L)"
  shows "indexed L d (ix_db (snd (indexTaskCreated e (queryArcEscrowLogs e (sx_created e)) st)))"
proof (cases "sx_fingerprint e \<and> sx_latest e \<noteq> None")
  case False
  then show ?thesis using ix by (auto simp: indexTaskCreated_def)
next
  case True
  then obtain latest where latest: "sx_latest e = Some latest" "sx_fingerprint e" by auto
  have dep: "deploymentBlock e = d" using reads by (simp add: reads_log_def)
  let ?db = "ix_db st"
  define from_block where "from_block = (case sc_checkpoint ?db of Some k \<Rightarrow> k + 1
      | None \<Rightarrow> if 0 < deploymentBlock e then min (deploymentBlock e) latest else latest)"
  obtain c where c: "c < d" "c < from_block"
      "\<forall>h. sc_hash2id ?db (lower h) = first_created (logs_in L (c + 1) (from_block - 1)) h"
    using indexed_start [OF ix d dep, of latest] unfolding from_block_def by blast
  define st1 where "st1 = (let db1 = (case sc_checkpoint ?db of
        Some _ \<Rightarrow> ?db
      | None \<Rightarrow> ?db\<lparr>sc_dispute := set_nx (sc_dispute ?db) latest, sc_checkpoint := Some (from_block - 1)\<rparr>)
    in if ix_seeded st then st\<lparr>ix_db := db1\<rparr>
       else st\<lparr>ix_db := db1\<lparr>sc_dispute := set_nx (sc_dispute db1) (if ix_lost st then latest else from_block - 1)\<rparr>,
               ix_seeded := True, ix_lost := False\<rparr>)"
  have h1: "sc_hash2id (ix_db st1) = sc_hash2id ?db" "sc_checkpoint (ix_db st1) = Some (from_block - 1)"
    by (simp_all add: st1_def from_block_def Let_def split: option.split)
  have i1: "indexed L d (ix_db st1)" unfolding indexed_def h1 using c by auto
  have tick: "indexTaskCreated e (queryArcEscrowLogs e (sx_created e)) st =
      (if latest < from_block then (Some (from_block - 1), st1)
       else case queryArcEscrowLogs e (sx_created e) from_block (min latest (from_block + MAX_BLOCKS_PER_TICK - 1)) of
           None \<Rightarrow> (None, st1)
         | Some events \<Rightarrow> (Some (min latest (from_block + MAX_BLOCKS_PER_TICK - 1)),
             st1\<lparr>ix_db := (fold index_created_one events (ix_db st1))
               \<lparr>sc_checkpoint := Some (min latest (from_block + MAX_BLOCKS_PER_TICK - 1))\<rparr>\<rparr>))"
    using latest unfolding indexTaskCreated_def st1_def from_block_def Let_def by simp
  show ?thesis
  proof (cases "latest < from_block")
    case True
    then show ?thesis using i1 by (simp add: tick)
  next
    case False
    define to_block where "to_block = min latest (from_block + MAX_BLOCKS_PER_TICK - 1)"
    have le: "from_block \<le> to_block" using False by (simp add: to_block_def MAX_BLOCKS_PER_TICK_def)
    show ?thesis
    proof (cases "queryArcEscrowLogs e (sx_created e) from_block to_block")
      case None
      then show ?thesis using False i1 by (simp add: tick to_block_def [symmetric])
    next
      case (Some events)
      then have ev: "events = logs_in L from_block to_block" using reads by (simp add: reads_log_def)
      have split: "logs_in L (c + 1) to_block = logs_in L (c + 1) (from_block - 1) @ logs_in L from_block to_block"
        using logs_split [OF sorted, of "c + 1" "from_block - 1" to_block] c(2) le by simp
      have "sc_hash2id (fold index_created_one events (ix_db st1)) (lower h) = first_created (logs_in L (c + 1) to_block) h" for h
        unfolding index_all_hash h1 split first_created_append ev using c(3) by simp
      then have "indexed L d ((fold index_created_one events (ix_db st1))\<lparr>sc_checkpoint := Some to_block\<rparr>)"
        using c(1,2) le unfolding indexed_def by auto
      then show ?thesis using False Some by (simp add: tick to_block_def [symmetric])
    qed
  qed
qed

lemma indexed_poll:
  assumes "indexed L d (ix_db st)" "0 < d" "reads_log L d e" "sorted (map fst L)"
  shows "indexed L d (ix_db (pollArcEscrowOnce e st))"
  unfolding indexed_same [OF poll_same] using assms indexed_tick by (simp add: indexOnce_def)

text \<open>
  C16. The index names the first task created under a hash. Starting from an empty index, after
  any polls of an escrow whose tasks all come after its deployment block, whatever queries failed
  or were pruned in between, the task a hash resolves to is the first of the escrow's tasks up to
  the checkpoint that carries the hash, in any case of its letters: a later task posted with the
  same hash never takes it over.
\<close>

theorem index_names_the_first_task:
  assumes fresh: "sc_checkpoint (ix_db st) = None" "sc_hash2id (ix_db st) = Map.empty"
    and log: "sorted (map fst L)" "\<forall>p \<in> set L. d \<le> fst p" "0 < d"
    and reads: "\<forall>e \<in> set es. deploymentBlock e = d \<and>
      (\<forall>a b xs. queryArcEscrowLogs e (sx_created e) a b = Some xs \<longrightarrow>
         xs = map snd (filter (\<lambda>p. a \<le> fst p \<and> fst p \<le> b) L))"
    and upto: "sc_checkpoint (ix_db (fold pollArcEscrowOnce es st)) = Some k"
  shows "getTaskIdByHash (ix_db (fold pollArcEscrowOnce es st)) h =
    first_created (map snd (filter (\<lambda>p. fst p \<le> k) L)) h"
proof -
  have reads': "e \<in> set es \<Longrightarrow> reads_log L d e" for e using reads by (simp add: reads_log_def logs_in_def)
  have "indexed L d (ix_db st)" using fresh by (simp add: indexed_def)
  then have "indexed L d (ix_db (fold pollArcEscrowOnce es st))"
    using reads' by (induction es arbitrary: st) (simp_all add: indexed_poll log)
  then obtain c where c: "c < d"
      "\<forall>h. sc_hash2id (ix_db (fold pollArcEscrowOnce es st)) (lower h) = first_created (logs_in L (c + 1) k) h"
    using upto by (auto simp: indexed_def)
  have "logs_in L (c + 1) k = map snd (filter (\<lambda>p. fst p \<le> k) L)"
    unfolding logs_in_def by (rule arg_cong [of _ _ "map snd"], rule filter_cong) (use log(2) c(1) in auto)
  with c(2) show ?thesis by (simp add: getTaskIdByHash_def)
qed

section \<open>The open-submission checkpoint\<close>

text \<open>Every event handled, one after the other; \<open>None\<close> when one is not.\<close>

fun handle_all :: "mirror_env \<Rightarrow> chain_key \<Rightarrow> open_log list \<Rightarrow> mirror \<Rightarrow> mirror option" where
  "handle_all e c [] m = Some m"
| "handle_all e c (ev # evs) m =
     (case lg_event ev of
        None \<Rightarrow> handle_all e c evs m
      | Some oe \<Rightarrow> (case handleOpenEvent e m c oe of (True, m1) \<Rightarrow> handle_all e c evs m1 | (False, _) \<Rightarrow> None))"

definition blocks :: "open_log list \<Rightarrow> int list" where
  "blocks evs = map (\<lambda>ev. case lg_block ev of Some b \<Rightarrow> b | None \<Rightarrow> 0) evs"

definition has_blocks :: "open_log list \<Rightarrow> bool" where
  "has_blocks evs \<longleftrightarrow> list_all (\<lambda>ev. lg_block ev \<noteq> None) evs"

text \<open>What a checkpoint stands for: all events up to it were handled, and no more than one block beyond it begun.\<close>

definition handled_upto :: "mirror_env \<Rightarrow> chain_key \<Rightarrow> open_log list \<Rightarrow> mirror \<Rightarrow> int \<Rightarrow> bool" where
  "handled_upto e c evs m k \<longleftrightarrow>
     (\<exists>handled rest m1. evs = handled @ rest \<and> handle_all e c handled m = Some m1 \<and> (\<forall>b \<in> set (blocks rest). k < b))"

lemma handled_none: "\<forall>b \<in> set (blocks evs). k < b \<Longrightarrow> handled_upto e c evs m k"
  unfolding handled_upto_def by (intro exI [of _ "[]"] exI [of _ evs] exI [of _ m]) simp

lemma handled_skip: "lg_event ev = None \<Longrightarrow> handled_upto e c evs m k \<Longrightarrow> handled_upto e c (ev # evs) m k"
  unfolding handled_upto_def by (elim exE conjE, rule exI [of _ "ev # _"]) auto

lemma handled_step:
  "lg_event ev = Some oe \<Longrightarrow> handleOpenEvent e m c oe = (True, m1) \<Longrightarrow> handled_upto e c evs m1 k \<Longrightarrow>
   handled_upto e c (ev # evs) m k"
  unfolding handled_upto_def by (elim exE conjE, rule exI [of _ "ev # _"]) auto

lemma open_scan_handled:
  assumes "sorted (blocks evs)" "has_blocks evs" "\<forall>b \<in> set (blocks evs). block \<le> b" "block \<le> to_block"
    and "\<forall>b \<in> set (blocks evs). b \<le> to_block"
  shows "case fst (open_scan e over c from_block i block evs m) of
      ScannedAll \<Rightarrow> handle_all e c evs m \<noteq> None
    | OutOfTime k \<Rightarrow> handled_upto e c evs m k
    | FailedEvent (Some k) \<Rightarrow> handled_upto e c evs m k
    | FailedEvent None \<Rightarrow> True"
  using assms
proof (induction evs arbitrary: i block m)
  case (Cons ev evs)
  obtain b where b: "lg_block ev = Some b" using Cons.prems(2) by (auto simp: has_blocks_def)
  have order: "sorted (blocks evs)" "has_blocks evs" "block \<le> b" "\<forall>x \<in> set (blocks evs). b \<le> x" "b \<le> to_block"
      "\<forall>x \<in> set (blocks evs). x \<le> to_block"
    using Cons.prems b by (simp_all add: blocks_def has_blocks_def)
  define block' where "block' = (if block < b then b else block)"
  have b': "block' = b" using order(3) by (simp add: block'_def)
  have after: "\<forall>x \<in> set (blocks (ev # evs)). block' - 1 < x" using order(4) b b' by (auto simp: blocks_def)
  show ?case
  proof (cases "block < b \<and> over i")
    case True
    then show ?thesis using handled_none [OF after] by (simp add: b block'_def)
  next
    case False
    note IH = Cons.IH [OF order(1,2), where block = block' and i = "i + 1"]
    show ?thesis
    proof (cases "lg_event ev")
      case None
      have "open_scan e over c from_block i block (ev # evs) m = open_scan e over c from_block (i + 1) block' evs m"
        using False by (simp add: b None block'_def Let_def)
      then show ?thesis using IH [where m = m] order b' None
        by (auto split: scan_end.splits option.splits intro: handled_skip)
    next
      case (Some oe)
      obtain ok m1 where h: "handleOpenEvent e m c oe = (ok, m1)" by (cases "handleOpenEvent e m c oe")
      show ?thesis
      proof (cases ok)
        case True
        then have "open_scan e over c from_block i block (ev # evs) m = open_scan e over c from_block (i + 1) block' evs m1"
          using False by (simp add: b Some h block'_def Let_def)
        then show ?thesis using IH [where m = m1] order b' Some h True
          by (auto split: scan_end.splits option.splits intro: handled_step)
      next
        case bad: False
        then have "open_scan e over c from_block i block (ev # evs) m =
            (FailedEvent (if from_block \<le> block' - 1 then Some (block' - 1) else None), m1)"
          using False by (simp add: b Some h block'_def Let_def)
        then show ?thesis using handled_none [OF after] by simp
      qed
    qed
  qed
qed simp

text \<open>
  C12. The open-submission checkpoint passes no event that was not handled. A scan leaves the
  checkpoint, or sets it to a block up to which every event the query returned was handled, one
  after the other and successfully, however long the scan took and whichever event failed.
\<close>

theorem checkpoint_passes_no_unhandled_event:
  fixes e st indexedTo
  defines "from_block \<equiv> (case sc_open (ix_db st) of Some k \<Rightarrow> k + 1 | None \<Rightarrow> indexedTo)"
  defines "to_block \<equiv> min indexedTo (from_block + MAX_BLOCKS_PER_TICK - 1)"
  assumes evs: "queryArcEscrowLogs e (sx_opens e) from_block to_block = Some evs"
    and order: "sorted (blocks evs)" "has_blocks evs" "\<forall>b \<in> set (blocks evs). from_block \<le> b \<and> b \<le> to_block"
    and moved: "sc_open (ix_db (indexOpenSubmissions e indexedTo st)) = Some k"
      "sc_open (ix_db (indexOpenSubmissions e indexedTo st)) \<noteq> sc_open (ix_db st)"
  shows "handled_upto (rn_mirror (scan_ruling e Arc (ix_db st))) Arc evs (ru_mirror (ix_ruled st)) k"
proof -
  let ?e = "rn_mirror (scan_ruling e Arc (ix_db st))" and ?m = "ru_mirror (ix_ruled st)"
  let ?r = "open_scan ?e (sx_over e) Arc from_block 0 (from_block - 1) evs ?m"
  have on: "sx_configured e" "sx_openEnabled e" "from_block \<le> to_block"
    using moved(2) unfolding indexOpenSubmissions_def Let_def from_block_def [symmetric] to_block_def [symmetric]
    by (auto split: if_splits)
  have run: "sc_open (ix_db (indexOpenSubmissions e indexedTo st)) =
      (case fst ?r of ScannedAll \<Rightarrow> Some to_block | OutOfTime k \<Rightarrow> Some k | FailedEvent (Some k) \<Rightarrow> Some k
       | FailedEvent None \<Rightarrow> sc_open (ix_db st))"
    using on evs unfolding indexOpenSubmissions_def Let_def from_block_def [symmetric] to_block_def [symmetric]
    by (simp split: scan_end.split option.split)
  have scan: "case fst ?r of ScannedAll \<Rightarrow> handle_all ?e Arc evs ?m \<noteq> None | OutOfTime k \<Rightarrow> handled_upto ?e Arc evs ?m k
      | FailedEvent (Some k) \<Rightarrow> handled_upto ?e Arc evs ?m k | FailedEvent None \<Rightarrow> True"
    by (rule open_scan_handled [of evs "from_block - 1" to_block]) (use order on in auto)
  show ?thesis
  proof (cases "fst ?r")
    case ScannedAll
    with scan have "handle_all ?e Arc evs ?m \<noteq> None" by simp
    then show ?thesis unfolding handled_upto_def by (intro exI [of _ evs] exI [of _ "[]"]) (auto simp: blocks_def)
  qed (use scan run moved in \<open>auto split: option.splits\<close>)
qed

section \<open>A lost dispute checkpoint\<close>

definition rulings_same :: "indexer \<Rightarrow> indexer \<Rightarrow> bool" where
  "rulings_same st st' \<longleftrightarrow>
     ru_attempts (ix_ruled st') = ru_attempts (ix_ruled st) \<and> ru_done (ix_ruled st') = ru_done (ix_ruled st) \<and>
     ru_parked (ix_ruled st') = ru_parked (ix_ruled st)"

definition dispute_lost :: "indexer \<Rightarrow> bool" where
  "dispute_lost st \<longleftrightarrow> sc_dispute (ix_db st) = None \<and> ix_seeded st \<and> sc_checkpoint (ix_db st) \<noteq> None \<and>
     ru_parked (ix_ruled st) = (\<lambda>_. [])"

lemma fold_created_dispute: "sc_dispute (fold index_created_one evs db) = sc_dispute db"
  by (induction evs arbitrary: db) (auto simp: index_created_one_def split: option.split)

lemma tick_lost:
  assumes "dispute_lost st"
  shows "dispute_lost (snd (indexOnce e q st)) \<and> rulings_same st (snd (indexOnce e q st))"
  using assms
  by (auto simp: indexOnce_def indexTaskCreated_def dispute_lost_def rulings_same_def fold_created_dispute Let_def
      split: option.splits)

lemma arc_disputes_lost: "dispute_lost st \<Longrightarrow> arc_indexDisputes e k st = st"
  by (simp add: arc_indexDisputes_def dispute_lost_def DISPUTE_CONFIRMATIONS_def MAX_BLOCKS_PER_TICK_def Let_def)

lemma retry_lost: "dispute_lost st \<Longrightarrow> dispute_lost (retry_parked e c st) \<and> rulings_same st (retry_parked e c st)"
  by (simp add: retry_parked_def retryParkedDisputes_def dispute_lost_def rulings_same_def parked_at_def)

lemma cancels_lost: "dispute_lost st \<Longrightarrow> dispute_lost (indexCancels e k st) \<and> rulings_same st (indexCancels e k st)"
  by (simp add: indexCancels_def dispute_lost_def rulings_same_def Let_def split: option.split)

lemma opens_lost: "dispute_lost st \<Longrightarrow> dispute_lost (indexOpenSubmissions e k st) \<and> rulings_same st (indexOpenSubmissions e k st)"
  by (simp add: indexOpenSubmissions_def dispute_lost_def rulings_same_def Let_def split: option.split scan_end.split)

lemma poll_lost:
  assumes "dispute_lost st"
  shows "dispute_lost (pollArcEscrowOnce e st) \<and> rulings_same st (pollArcEscrowOnce e st)"
proof -
  obtain k st1 where k: "indexOnce e (queryArcEscrowLogs e (sx_created e)) st = (k, st1)" by fastforce
  have l: "dispute_lost st1" "rulings_same st st1" using tick_lost [OF assms, of e] k by (metis snd_conv)+
  show ?thesis
  proof (cases k)
    case None
    then show ?thesis using l k by (simp add: pollArcEscrowOnce_def)
  next
    case (Some i)
    let ?st2 = "retry_parked e Arc st1" and ?st3 = "indexCancels e i (retry_parked e Arc st1)"
    have "dispute_lost ?st2" "rulings_same st1 ?st2" using retry_lost [OF l(1)] by blast+
    moreover have "dispute_lost ?st3" "rulings_same ?st2 ?st3" using cancels_lost [OF calculation(1)] by blast+
    moreover have "dispute_lost (indexOpenSubmissions e i ?st3)" "rulings_same ?st3 (indexOpenSubmissions e i ?st3)"
      using opens_lost [OF calculation(3)] by blast+
    ultimately show ?thesis
      using l k Some by (simp add: pollArcEscrowOnce_def arc_disputes_lost rulings_same_def)
  qed
qed

text \<open>
  On Arc a lost dispute checkpoint stays lost. When the key goes missing after the process
  has seeded it, no number of polls writes it again, and no ruling is delivered: the scan starts
  at the indexed head each time, five blocks above where it would have to end. The flag that
  would seed it again is never set on Arc, as it is on Base; a restart is needed.
\<close>

theorem arc_lost_dispute_checkpoint_stays_lost:
  assumes "sc_dispute (ix_db st) = None" "ix_seeded st" "sc_checkpoint (ix_db st) \<noteq> None"
    and "ru_parked (ix_ruled st) = (\<lambda>_. [])"
  shows "let st' = fold pollArcEscrowOnce es st in
    sc_dispute (ix_db st') = None \<and> ru_attempts (ix_ruled st') = ru_attempts (ix_ruled st) \<and>
    ru_done (ix_ruled st') = ru_done (ix_ruled st) \<and> ru_parked (ix_ruled st') = ru_parked (ix_ruled st)"
proof -
  have "dispute_lost st \<Longrightarrow> dispute_lost (fold pollArcEscrowOnce es st) \<and> rulings_same st (fold pollArcEscrowOnce es st)"
  proof (induction es arbitrary: st)
    case (Cons e es)
    have p: "dispute_lost (pollArcEscrowOnce e st)" "rulings_same st (pollArcEscrowOnce e st)"
      using poll_lost [OF Cons.prems] by blast+
    from Cons.IH [OF p(1)] p(2) show ?case by (simp add: rulings_same_def)
  qed (simp add: rulings_same_def)
  then show ?thesis using assms by (simp add: dispute_lost_def rulings_same_def Let_def)
qed

text \<open>Base: the poll that misses the key has the next pass seed it at the head.\<close>

theorem base_lost_dispute_checkpoint_is_seeded:
  assumes lost: "sc_dispute (ix_db st) = None" "ix_seeded st" "sc_checkpoint (ix_db st) = Some k" "\<not> ix_followUps st"
    and e1: "sx_writes e1" "sx_configured e1" "sx_fingerprint e1" "sx_latest e1 = Some l1" "l1 \<le> k"
    and e2: "sx_writes e2" "sx_configured e2" "sx_fingerprint e2" "sx_latest e2 = Some l2"
  shows "sc_dispute (ix_db (snd (indexOnce e2 q (pollBaseEscrowOnce e1 st)))) = Some l2"
proof -
  have i: "indexOnce e1 (queryFilter (sx_created e1)) st = (Some k, st)"
    using lost e1 by (simp add: indexOnce_def indexTaskCreated_def Let_def)
  have p: "pollBaseEscrowOnce e1 st = retry_parked e1 Base (st\<lparr>ix_seeded := False, ix_lost := True\<rparr>)"
    using lost e1 by (simp add: pollBaseEscrowOnce_def i base_indexDisputes_def)
  show ?thesis
    unfolding p using lost e2
    by (simp add: indexOnce_def indexTaskCreated_def retry_parked_def set_nx_def fold_created_dispute Let_def
        split: option.split)
qed

section \<open>An example\<close>

definition sample_log :: chain_log where
  "sample_log = [(12, Some (Some ''1'', Some ''0xAb'')), (14, Some (Some ''2'', Some ''0xaB''))]"

definition sample_scan :: scan_env where
  "sample_scan =
     \<lparr>sx_ruling = failing_env 1, sx_configured = True, sx_writes = True, sx_fingerprint = True, sx_latest = Some 20,
      sx_deployment = 10, sx_archive = False, sx_created = (\<lambda>_ a b. Logs (logs_in sample_log a b)),
      sx_disputes = (\<lambda>_ _ _. Logs []), sx_releases = (\<lambda>_ _ _. Logs []), sx_cancels = (\<lambda>_ _ _. Logs []),
      sx_opens = (\<lambda>_ _ _. Logs [\<lparr>lg_block = Some 20, lg_event = None\<rparr>]), sx_openEnabled = True, sx_over = (\<lambda>_. False)\<rparr>"

definition fresh_indexer :: indexer where
  "fresh_indexer =
     \<lparr>ix_db = \<lparr>sc_hash2id = Map.empty, sc_id2hash = Map.empty, sc_checkpoint = None, sc_dispute = None, sc_cancel = None,
        sc_open = None\<rparr>, ix_seeded = False, ix_lost = False, ix_followUps = True, ix_ruled = unruled\<rparr>"

lemma sample_query: "queryArcEscrowLogs sample_scan (sx_created sample_scan) a b = Some (logs_in sample_log a b)"
  by (simp add: queryArcEscrowLogs_def sample_scan_def)

lemma sample_deployment: "deploymentBlock sample_scan = 10"
  by (simp add: deploymentBlock_def sample_scan_def)

lemma sample_checkpoint: "sc_checkpoint (ix_db (fold pollArcEscrowOnce [sample_scan] fresh_indexer)) = Some 20"
proof -
  have "sc_checkpoint (ix_db (snd (indexOnce sample_scan (queryArcEscrowLogs sample_scan (sx_created sample_scan)) fresh_indexer)))
      = Some 20"
    unfolding indexOnce_def indexTaskCreated_def sample_query sample_deployment Let_def
    by (simp add: sample_scan_def fresh_indexer_def MAX_BLOCKS_PER_TICK_def)
  then show ?thesis using poll_same [of sample_scan fresh_indexer] by (simp add: index_same_def)
qed

theorem index_names_the_first_task_witness:
  "getTaskIdByHash (ix_db (fold pollArcEscrowOnce [sample_scan] fresh_indexer)) ''0xAB'' = Some ''1''"
proof -
  have "getTaskIdByHash (ix_db (fold pollArcEscrowOnce [sample_scan] fresh_indexer)) ''0xAB'' =
      first_created (map snd (filter (\<lambda>p. fst p \<le> 20) sample_log)) ''0xAB''"
  proof (rule index_names_the_first_task [where d = 10, OF _ _ _ _ _ _ sample_checkpoint])
    show "\<forall>e \<in> set [sample_scan]. deploymentBlock e = 10 \<and> (\<forall>a b xs. queryArcEscrowLogs e (sx_created e) a b = Some xs \<longrightarrow>
        xs = map snd (filter (\<lambda>p. a \<le> fst p \<and> fst p \<le> b) sample_log))"
      by (simp add: sample_deployment sample_query logs_in_def)
  qed (simp_all add: fresh_indexer_def sample_log_def)
  then show ?thesis
    by (simp add: sample_log_def first_created_def List.map_filter_simps names_def lower_eval)
qed

theorem checkpoint_passes_no_unhandled_event_witness:
  "handled_upto (rn_mirror (scan_ruling sample_scan Arc (ix_db fresh_indexer))) Arc [\<lparr>lg_block = Some 20, lg_event = None\<rparr>]
     (ru_mirror (ix_ruled fresh_indexer)) 20"
proof (rule checkpoint_passes_no_unhandled_event [where indexedTo = 20])
  show "sc_open (ix_db (indexOpenSubmissions sample_scan 20 fresh_indexer)) = Some 20"
    "sc_open (ix_db (indexOpenSubmissions sample_scan 20 fresh_indexer)) \<noteq> sc_open (ix_db fresh_indexer)"
    by (simp_all add: indexOpenSubmissions_def queryArcEscrowLogs_def sample_scan_def fresh_indexer_def
        MAX_BLOCKS_PER_TICK_def Let_def)
qed (simp_all add: queryArcEscrowLogs_def sample_scan_def fresh_indexer_def MAX_BLOCKS_PER_TICK_def blocks_def has_blocks_def)

theorem arc_lost_dispute_checkpoint_stays_lost_witness:
  "sc_dispute (ix_db (fold pollArcEscrowOnce [sample_scan, sample_scan]
     (fresh_indexer\<lparr>ix_db := (ix_db fresh_indexer)\<lparr>sc_checkpoint := Some 15\<rparr>, ix_seeded := True, ix_followUps := False\<rparr>))) = None"
  using arc_lost_dispute_checkpoint_stays_lost
    [of "fresh_indexer\<lparr>ix_db := (ix_db fresh_indexer)\<lparr>sc_checkpoint := Some 15\<rparr>, ix_seeded := True, ix_followUps := False\<rparr>"
      "[sample_scan, sample_scan]"]
  by (simp add: fresh_indexer_def unruled_def Let_def)

end
