(* ===== verification/Spec2Isabelle.thy ===== *)
theory Spec2Isabelle
  imports TaskStoreProps ChainsProps OpenStoreProps OpenSweepProps GasSponsorProps ExpirySweepProps
    IdentityProps StuckTasksProps RateLimitProps RubricProps CascadeProps PayoutsProps
    SettlementProps LifecycleProps LifecycleTypes EligibilityProps AcceptProps AcceptOutcome
    RelayerProps OpenEventsProps OpenJudgeProps DisputeListenerProps IndexerProps
begin

text \<open>
  BlindMarket: the off-chain state of an agent-to-agent task market, as the backend under
  src/backend/src/services keeps it. Posters fund a task in an escrow contract; agents take it,
  submit a result, and are paid by the contract. The backend keeps what the contract does not:
  the listing, who has taken a task, offers, notices, who may have gas paid. Those stores, the
  sweeps that keep them in step with the chain, and the rules they apply are modelled here.

  \<^bold>\<open>Parts and theories.\<close>
  \<^item> Prelude: JavaScript string and number operations. KeyValue: Redis keys with an expiry and
    sorted sets, as maps and lists. Interfaces: the contracts several stores share, as locales
    (a key with one holder, a claim, a compare-and-set on a status, a key written once).
  \<^item> Chains, ChainsProps: settlementTier.ts, settlementChains.ts, chainScope.ts,
    settlementUnits.ts, executorChains.ts. Which chains this deployment settles on, in which
    token, and which stored state is of which network.
  \<^item> TaskTypes: the records of types.ts. TaskStore: a2aStore.ts, one definition for each function
    and each Lua script, on the record \<open>a2a_db\<close> with one field per key family. TaskStoreCas: its
    locks, claims and scripts as interpretations of the contracts. TaskStoreIndex and
    TaskStoreSteps: the invariant between states, metas and index sets, kept by every writer;
    the store as a transition system. TaskStoreProps: its properties.
  \<^item> OpenStore, OpenStoreProps: openSubmissionStore.ts, the tasks many agents may answer.
  \<^item> Notifications: notificationStore.ts. OpenSweep, OpenSweepProps: openSubmissionSweep.ts and
    deadlineReminders.ts, which read the open-submission store and send notices.
  \<^item> GasSponsor, GasSponsorProps: gasSponsorStore.ts on the tables neonDb.ts creates.
  \<^item> TaskChain: taskChain.ts, from a task hash to the escrow that holds it. ExpirySweep, ExpirySweepProps:
    a2aExpirySweep.ts, which closes expired tasks, reminds posters and hands back tasks whose
    assignment never landed, over the task store, the notices and the chain.

  \<^item> Identity, IdentityProps: deploymentIdentity.ts, which deployment owns a Redis, and when a process
    stops its background writes. StuckTasks, StuckTasksProps: stuckTasks.ts, the operators' diagnosis,
    forced release and rewind of a task that stopped moving.
  \<^item> RateLimit, RateLimitProps: the posting budgets of rateLimit.ts. Rubric, RubricProps: the rubrics
    of rubricEngine.ts and its guard against slow patterns.
  \<^item> Matching: agentScorer.ts, semanticMatch.ts, delegationGuard.ts and verifierDuty.ts, who may take a
    task and in which order. Cascade, CascadeProps: the exclusive offers of routes/a2a.ts over that
    order, on the pointer the task store keeps.
  \<^item> Payouts, PayoutsProps: workerPayout.ts with the tables and counters it writes, where every call
    may fail before or after it took effect. Settlement, SettlementProps: a2aSettlement.ts, the bridge
    that assigns and settles on the escrow and books what came of it on the task's state.
  \<^item> Lifecycle: the handlers of routes/a2a.ts from \<open>/submit\<close> to \<open>/verdict\<close>, which join the task store,
    the bridge, the payouts and the gas sponsor in one server state. LifecycleProps: what a recorded
    verdict rests on and leaves, refused requests, retries. LifecycleTypes: the shape each status
    gives a state, kept by every request that runs alone.
  \<^item> Eligibility, EligibilityProps: gasSponsorConfig.ts, gasSponsorEligibility.ts and gasSponsorAccept.ts,
    when gas is sponsored and for whom. Bids: bidsStore.ts. Accept: \<open>/accept\<close>, \<open>/bid\<close>, \<open>/bids\<close> and
    \<open>/wrap-to\<close> of routes/a2a.ts on the same server state. AcceptProps: who gets a task, what the lock
    and the gas reservation become. AcceptOutcome: where each error leaves the task.
  \<^item> Relayer: gasSponsorRelayer.ts from \<open>relaySponsoredCall\<close> to the settled transaction, on the gas
    tables and the bytes sent. RelayerTick: its recovery, sweep, status and tick. RelayerProps: the
    relayer writes by the store's calls only, stores what it sends, sends only what may be sponsored.
  \<^item> OpenEvents, OpenEventsProps: openSubmissionEvents.ts, what the escrow's open-submission events
    become in the record, the listing, the payouts and the notices, and that an event delivered again
    changes nothing. OpenJudge, OpenJudgeProps: openSubmissionJudge.ts, openPickWindows.ts and
    verifierSigner.ts, the platform's two turns at judging such a task: the rule, what is sent, and
    that every look leaves the task settled, dropped or scheduled.
  \<^item> DisputeListener, DisputeListenerProps: disputeListener.ts, disputeKeys.ts and refundedTasks.ts,
    a ruling or a cancel accounted to the task it is about, retried and parked. Indexer, IndexerProps:
    arcEscrowEvents.ts and baseEscrowEvents.ts, the passes over the escrow's logs that fill the index
    of hashes and drive the two theories above, each behind a checkpoint.

  \<^bold>\<open>How code is read.\<close> A store is a record of its keys or tables; a function takes the store and
  returns it updated. A Lua script, a SQL statement and a transaction are one step. A JSON text
  is the record it holds; where a script rewrites it through cjson that is written out. An ISO
  time is its unix milliseconds. A throw is \<open>Inl\<close> or \<open>None\<close>. A reply without fixed order (SMEMBERS,
  SCAN) is an argument, related to the store by a hypothesis where a property needs it. What the
  chain, the node or another service answers is a parameter, and so are the clock and the
  random parts of ids. Redis and Postgres answer, but for the payouts, whose calls may fail;
  texts outside ASCII are UTF-8. A handler takes what other requests write between its last check
  and its write as a function of its environment.

  \<^bold>\<open>Bounds.\<close> Loops recurse on the list they walk; the batch loop of \<open>notifyOnceMany\<close> shortens its
  list each round. No fuel is used.

  \<^bold>\<open>Not modelled.\<close> The reading routes and request validation, signing and sending through ethers,
  language-model judging and the text checks of autoVerify.ts (a parameter of the open-task judge), matching by embeddings, agent processes, storage and key
  custody, the SDK, the command line, the web front end and the contracts: either pure I/O around
  what is modelled, or wrappers of libraries. Indexing a task from its receipt and the open-submission
  routes have logic of their own that is not modelled.
\<close>

end
